(* ===== verification/Prelude.thy ===== *)
theory Prelude
  imports Main "HOL-Library.Word"
begin

unbundle bit_operations_syntax

text \<open>
  Shared vocabulary of the development: the C scalar types of
  \<^verbatim>\<open>src/src/lib/types/types_interface.h\<close>, pointers that may be null, the bit
  macros every chip uses, the find-first-set loop shared by the interrupt and DMA controllers,
  byte rings, and an interface (a locale) for components driven by elapsed ticks.
\<close>

section \<open>Scalars and status codes\<close>

type_synonym lib_u8 = "8 word"
type_synonym lib_u16 = "16 word"
type_synonym lib_u32 = "32 word"
type_synonym lib_u64 = "64 word"
type_synonym lib_i16 = "16 word" \<comment> \<open>two's complement, read by \<open>sint\<close>\<close>

datatype lib_status =
    LIB_STATUS_OK
  | LIB_STATUS_INVALID_ARGUMENT
  | LIB_STATUS_INVALID_STATE
  | LIB_STATUS_UNSUPPORTED
  | LIB_STATUS_NO_MEMORY
  | LIB_STATUS_IO_ERROR
  | LIB_STATUS_INTERNAL_ERROR
  | LIB_STATUS_LIMIT_EXCEEDED

definition LIB_UINT64_MAX :: lib_u64 where
  "LIB_UINT64_MAX = - 1"

definition LIB_UINT32_MAX :: lib_u32 where
  "LIB_UINT32_MAX = - 1"

text \<open>
  A pointer argument the code tests against \<^verbatim>\<open>LIB_NULL\<close> is an option: \<open>None\<close> is
  the null pointer and \<open>Some v\<close> points to an object whose current value is \<open>v\<close>. A function
  that writes through the pointer returns the new cell.
\<close>

type_synonym 'a ptr = "'a option"

section \<open>Named collections\<close>

named_theorems chip_defs \<open>definitions of register macros and small accessors\<close>
named_theorems chip_frame \<open>fields an operation leaves alone\<close>
named_theorems chip_inv \<open>preservation of a component's invariant\<close>

section \<open>Bits of a register\<close>

text \<open>\<^verbatim>\<open>1 << id\<close> and the \<^verbatim>\<open>BIT_IS_SET\<close>, \<^verbatim>\<open>BIT_SET\<close>, \<^verbatim>\<open>BIT_CLEAR\<close> macros.\<close>

definition BIT_MASK :: "nat \<Rightarrow> 'a::len word" where
  "BIT_MASK n = push_bit n 1"

definition BIT_IS_SET :: "'a::len word \<Rightarrow> 'a word \<Rightarrow> bool" where
  "BIT_IS_SET state flag \<longleftrightarrow> state AND flag \<noteq> 0"

definition BIT_SET :: "'a::len word \<Rightarrow> 'a word \<Rightarrow> 'a word" where
  "BIT_SET destination source = destination OR source"

definition BIT_CLEAR :: "'a::len word \<Rightarrow> 'a word \<Rightarrow> 'a word" where
  "BIT_CLEAR destination source = destination AND NOT source"

lemma BIT_IS_SET_mask [simp]: "BIT_IS_SET w (BIT_MASK n) = bit w n"
  by (simp add: BIT_IS_SET_def BIT_MASK_def push_bit_of_1 and_exp_eq_0_iff_not_bit)

lemma BIT_IS_SET_flags [simp]:
  fixes w :: "'a::len word"
  shows "BIT_IS_SET w 1 = bit w 0" "BIT_IS_SET w 2 = bit w 1" "BIT_IS_SET w 4 = bit w 2"
    "BIT_IS_SET w 8 = bit w 3" "BIT_IS_SET w 0x10 = bit w 4" "BIT_IS_SET w 0x20 = bit w 5"
    "BIT_IS_SET w 0x40 = bit w 6" "BIT_IS_SET w 0x80 = bit w 7"
  using and_exp_eq_0_iff_not_bit [of w 0] and_exp_eq_0_iff_not_bit [of w 1]
    and_exp_eq_0_iff_not_bit [of w 2] and_exp_eq_0_iff_not_bit [of w 3]
    and_exp_eq_0_iff_not_bit [of w 4] and_exp_eq_0_iff_not_bit [of w 5]
    and_exp_eq_0_iff_not_bit [of w 6] and_exp_eq_0_iff_not_bit [of w 7]
  by (simp_all add: BIT_IS_SET_def)

lemma bit_BIT_MASK [simp]: "bit (BIT_MASK n :: 'a::len word) m \<longleftrightarrow> m = n \<and> n < LENGTH('a)"
  by (auto simp: BIT_MASK_def bit_simps)

lemma bit_BIT_SET_mask [simp]:
  "bit (BIT_SET w (BIT_MASK n) :: 'a::len word) m \<longleftrightarrow> bit w m \<or> (m = n \<and> n < LENGTH('a))"
  by (auto simp: BIT_SET_def bit_or_iff)

lemma bit_BIT_CLEAR_mask [simp]:
  "bit (BIT_CLEAR w (BIT_MASK n) :: 'a::len word) m \<longleftrightarrow> bit w m \<and> m \<noteq> n"
  by (auto simp: BIT_CLEAR_def bit_and_iff bit_not_iff dest: bit_imp_le_length)

lemma BIT_CLEAR_not_set [simp]: "\<not> bit w n \<Longrightarrow> BIT_CLEAR w (BIT_MASK n) = w"
  by (rule bit_word_eqI) auto

lemma BIT_CLEAR_SET: "BIT_CLEAR (BIT_SET w (BIT_MASK n)) (BIT_MASK n) = BIT_CLEAR w (BIT_MASK n)"
  by (rule bit_word_eqI) auto

lemma word_eq_0_bits: "(w :: 'a::len word) = 0 \<longleftrightarrow> (\<forall>i < LENGTH('a). \<not> bit w i)"
  by (metis bit_0_eq bit_word_eqI bot_apply bot_bool_def)

lemma word_neq_0_bits: "(w :: 'a::len word) \<noteq> 0 \<longleftrightarrow> (\<exists>i < LENGTH('a). bit w i)"
  by (auto simp: word_eq_0_bits)

section \<open>Rotated order of the numbers below n\<close>

lemma rotate_rank_offset:
  assumes "(r::nat) < n" "d < n"
  shows "((r + d) mod n + n - r) mod n = d"
proof -
  have "((r + d) mod n + n - r) mod n = ((r + d) mod n + (n - r)) mod n" using assms by simp
  also have "\<dots> = (r + d + (n - r)) mod n" by (simp only: mod_add_left_eq)
  also have "\<dots> = (d + n) mod n" using assms by (simp add: algebra_simps)
  finally show ?thesis using assms by simp
qed

lemma rotate_offset_rank:
  assumes "(r::nat) < n" "k < n"
  shows "(r + (k + n - r) mod n) mod n = k"
proof -
  have "(r + (k + n - r) mod n) mod n = (r + (k + n - r)) mod n" by (simp only: mod_add_right_eq)
  also have "\<dots> = (k + n) mod n" using assms by simp
  finally show ?thesis using assms by simp
qed

lemma unat_ucast_up:
  fixes x :: "'a::len word"
  assumes "LENGTH('a) \<le> LENGTH('b::len)"
  shows "unat (ucast x :: 'b word) = unat x"
proof -
  have "unat x < 2 ^ LENGTH('b)"
    using unsigned_less [of x, where 'a = nat] assms
    by (meson less_le_trans one_le_numeral power_increasing)
  then show ?thesis by (simp add: unsigned_ucast_eq take_bit_nat_eq_self_iff)
qed

section \<open>The find-first-set loop\<close>

text \<open>
  \<^verbatim>\<open>while ((id < limit) && !((reg >> id) & 1u)) id++;\<close>
\<close>

function scan_set_bit :: "nat \<Rightarrow> lib_u8 \<Rightarrow> nat \<Rightarrow> nat" where
  "scan_set_bit limit reg k =
     (if k < limit \<and> \<not> bit reg k then scan_set_bit limit reg (Suc k) else k)"
  by pat_completeness auto
termination by (relation "measure (\<lambda>(limit, reg, k). limit - k)") auto

declare scan_set_bit.simps [simp del]

lemma scan_set_bit_le: "k \<le> limit \<Longrightarrow> scan_set_bit limit reg k \<le> limit"
proof (induction limit reg k rule: scan_set_bit.induct)
  case (1 limit reg k)
  then show ?case by (subst scan_set_bit.simps) auto
qed

lemma scan_set_bit_least:
  "k \<le> m \<Longrightarrow> m < scan_set_bit limit reg k \<Longrightarrow> \<not> bit reg m"
proof (induction limit reg k rule: scan_set_bit.induct)
  case (1 limit reg k)
  show ?case
  proof (cases "k < limit \<and> \<not> bit reg k")
    case True
    with "1.prems" "1.IH" show ?thesis
      by (cases "m = k") (auto simp: scan_set_bit.simps [of limit reg k])
  next
    case False
    with "1.prems" show ?thesis by (auto simp: scan_set_bit.simps [of limit reg k])
  qed
qed

lemma scan_set_bit_hit:
  "scan_set_bit limit reg k < limit \<Longrightarrow> bit reg (scan_set_bit limit reg k)"
proof (induction limit reg k rule: scan_set_bit.induct)
  case (1 limit reg k)
  then show ?case by (auto simp: scan_set_bit.simps [of limit reg k] split: if_splits)
qed

lemma scan_set_bit_found:
  assumes "bit reg m" and "m < limit"
  shows "scan_set_bit limit reg 0 \<le> m \<and> bit reg (scan_set_bit limit reg 0)"
proof -
  have le: "scan_set_bit limit reg 0 \<le> m"
    using scan_set_bit_least [of 0 m limit reg] assms(1) by (meson le0 not_le)
  moreover have "bit reg (scan_set_bit limit reg 0)"
    by (rule scan_set_bit_hit) (use le assms(2) in linarith)
  ultimately show ?thesis ..
qed

section \<open>Byte rings\<close>

text \<open>
  A ring of \<open>cap\<close> cells, its oldest entry at \<open>head\<close> and \<open>count\<close> entries in use. The C
  arrays are functions from index to cell; \<open>ring_list\<close> is the queue a ring stands for.
\<close>

definition ring_list :: "nat \<Rightarrow> (nat \<Rightarrow> 'a) \<Rightarrow> nat \<Rightarrow> nat \<Rightarrow> 'a list" where
  "ring_list cap cells head count = map (\<lambda>i. cells ((head + i) mod cap)) [0..<count]"

lemma length_ring_list [simp]: "length (ring_list cap cells head count) = count"
  by (simp add: ring_list_def)

lemma ring_list_empty [simp]: "ring_list cap cells head 0 = []"
  by (simp add: ring_list_def)

lemma ring_index_neq:
  assumes "i < (count::nat)" and "count < cap"
  shows "(head + i) mod cap \<noteq> (head + count) mod cap"
proof
  assume "(head + i) mod cap = (head + count) mod cap"
  then have "cap dvd (head + count) - (head + i)"
    using assms(1) mod_eq_dvd_iff_nat [of "head + i" "head + count" cap] by simp
  then have "cap dvd count - i" by simp
  moreover have "0 < count - i" and "count - i < cap" using assms by simp_all
  ultimately show False using nat_dvd_not_less by blast
qed

lemma ring_list_push:
  assumes "count < cap"
  shows "ring_list cap (cells((head + count) mod cap := x)) head (Suc count) =
    ring_list cap cells head count @ [x]"
proof -
  have "map (\<lambda>i. (cells((head + count) mod cap := x)) ((head + i) mod cap)) [0..<count] =
      map (\<lambda>i. cells ((head + i) mod cap)) [0..<count]"
    using assms by (intro map_cong) (auto simp: ring_index_neq)
  then show ?thesis by (simp add: ring_list_def)
qed

lemma ring_list_pop:
  assumes "0 < count"
  shows "ring_list cap cells head count =
    cells (head mod cap) # ring_list cap cells (Suc head mod cap) (count - 1)"
proof -
  from assms obtain n where n: "count = Suc n" by (cases count) auto
  have "[0..<count] = 0 # map Suc [0..<n]"
    unfolding n map_Suc_upt by (simp only: upt_conv_Cons zero_less_Suc)
  then show ?thesis
    by (simp add: ring_list_def comp_def mod_add_left_eq n)
qed

section \<open>Countdowns\<close>

text \<open>\<^verbatim>\<open>if (elapsed >= remaining) remaining = 0; else remaining -= elapsed;\<close>\<close>

definition sat_sub :: "'a::len word \<Rightarrow> 'a word \<Rightarrow> 'a word" where
  "sat_sub remaining elapsed = (if elapsed \<ge> remaining then 0 else remaining - elapsed)"

lemma unat_sat_sub: "unat (sat_sub r n) = unat r - unat n"
  by (simp add: sat_sub_def word_le_nat_alt unat_sub word_less_nat_alt)

lemma sat_sub_eq_0: "sat_sub r n = 0 \<longleftrightarrow> r \<le> n"
  by (auto simp: unat_eq_0 [symmetric] unat_sat_sub word_le_nat_alt)

lemma sat_sub_zero [simp]: "sat_sub 0 n = 0" "sat_sub r 0 = r"
  by (simp_all add: sat_sub_def)

lemma sat_sub_add:
  fixes r :: "'a::len word"
  assumes "unat m + unat n < 2 ^ LENGTH('a)"
  shows "sat_sub (sat_sub r m) n = sat_sub r (m + n)"
proof -
  have "unat (m + n) = unat m + unat n" using assms unat_plus_if' [of m n] by simp
  then have "unat (sat_sub (sat_sub r m) n) = unat (sat_sub r (m + n))"
    by (simp add: unat_sat_sub)
  then show ?thesis by (rule unsigned_word_eqI)
qed

lemma fold_or_eq_0:
  "fold (\<lambda>k acc. acc OR f k) ks acc = (0 :: 'a::len word) \<longleftrightarrow> acc = 0 \<and> (\<forall>k \<in> set ks. f k = 0)"
proof (induction ks arbitrary: acc)
  case Nil
  then show ?case by simp
next
  case (Cons k ks)
  have "acc OR f k = 0 \<longleftrightarrow> acc = 0 \<and> f k = 0" by (auto simp: word_eq_0_bits bit_or_iff)
  with Cons show ?case by auto
qed

section \<open>Running minimum of a loop\<close>

definition running_min :: "('k \<Rightarrow> 'a::linorder) \<Rightarrow> 'k list \<Rightarrow> 'a \<Rightarrow> 'a" where
  "running_min f ks start = fold (\<lambda>k best. if f k < best then f k else best) ks start"

lemma running_min_le_start: "running_min f ks start \<le> start"
proof (induction ks arbitrary: start)
  case Nil
  then show ?case by (simp add: running_min_def)
next
  case (Cons k ks)
  then show ?case
    using order_trans less_imp_le by (fastforce simp: running_min_def)
qed

lemma running_min_le: "k \<in> set ks \<Longrightarrow> running_min f ks start \<le> f k"
proof (induction ks arbitrary: start)
  case Nil
  then show ?case by simp
next
  case (Cons j ks)
  have "running_min f (j # ks) start \<le> f j"
    using running_min_le_start [of f ks "if f j < start then f j else start"]
    by (auto simp: running_min_def split: if_splits)
  with Cons show ?case by (auto simp: running_min_def)
qed

lemma running_min_in:
  "running_min f ks start = start \<or> (\<exists>k \<in> set ks. running_min f ks start = f k)"
proof (induction ks arbitrary: start)
  case Nil
  then show ?case by (simp add: running_min_def)
next
  case (Cons j ks)
  from Cons.IH [of "if f j < start then f j else start"] show ?case
    by (auto simp: running_min_def split: if_splits)
qed

lemma unat_sum_list:
  "sum_list (map unat ns) < 2 ^ LENGTH('a) \<Longrightarrow>
    unat (sum_list ns :: 'a::len word) = sum_list (map unat ns)"
proof (induction ns)
  case Nil
  then show ?case by simp
next
  case (Cons n ns)
  then show ?case using unat_plus_if' [of n "sum_list ns"] by simp
qed

section \<open>Components driven by elapsed ticks\<close>

text \<open>
  The contract shared by the components a board advances: a step of \<open>m + n\<close> ticks is a step of
  \<open>m\<close> followed by a step of \<open>n\<close> (as long as the 64-bit sum does not wrap), a step of zero ticks
  changes nothing, and the invariant is kept. The board may therefore cut guest time wherever it
  likes.
\<close>

locale tick_component =
  fixes adv :: "lib_u64 \<Rightarrow> 's \<Rightarrow> 's"
    and inv :: "'s \<Rightarrow> bool"
  assumes adv_zero: "inv s \<Longrightarrow> adv 0 s = s"
    and adv_add: "inv s \<Longrightarrow> unat m + unat n < 2 ^ 64 \<Longrightarrow> adv (m + n) s = adv n (adv m s)"
    and inv_adv: "inv s \<Longrightarrow> inv (adv n s)"
begin

lemma adv_split: "inv s \<Longrightarrow> m \<le> n \<Longrightarrow> adv n s = adv (n - m) (adv m s)"
proof -
  assume s: "inv s" and le: "m \<le> n"
  have "unat m + unat (n - m) = unat n"
    using le by (simp add: unat_sub word_le_nat_alt)
  then have "unat m + unat (n - m) < 2 ^ 64" using unsigned_less [of n, where 'a = nat] by simp
  with adv_add [OF s this] show ?thesis by simp
qed

lemma inv_slices: "inv s \<Longrightarrow> inv (fold adv ns s)"
  by (induction ns arbitrary: s) (auto simp: inv_adv)

lemma adv_slices:
  "inv s \<Longrightarrow> sum_list (map unat ns) < 2 ^ 64 \<Longrightarrow> fold adv ns s = adv (sum_list ns) s"
proof (induction ns arbitrary: s)
  case Nil
  then show ?case by (simp add: adv_zero)
next
  case (Cons n ns)
  have le: "unat (sum_list ns) = sum_list (map unat ns)"
    by (rule unat_sum_list) (use Cons.prems(2) in simp)
  have "unat n + unat (sum_list ns) < 2 ^ 64" using le Cons.prems(2) by simp
  with Cons show ?case by (simp add: adv_add inv_adv)
qed

end

end
