(* ===== verification/Ports.thy ===== *)
theory Ports
  imports Prelude
begin

unbundle bit_operations_syntax

text \<open>
  The I/O port hub, \<^verbatim>\<open>src/src/x86-core/machine/port.c\<close>, and the machine's route
  interface on top of it, \<^verbatim>\<open>port_interface.c\<close>: 256 buckets of provider entries, exclusive
  and wired-OR routes, banks of eight-bit latches addressed by wider accesses, and registration
  that can be rolled back.

  A bucket's chain is a list, newest entry first. Provider callbacks are values of a type parameter
  and act through \<open>port_io\<close>, which is the code behind the function pointers: it sees the owner, the
  port, the tick and the current content of the out cell, and changes a world \<open>'w\<close>. Whether an
  allocation succeeds is a predicate of the port state at that moment. A pointer comparison of
  chains is a comparison of lists: chains only grow at the front while a registration is open.
\<close>

section \<open>State\<close>

abbreviation VPORT_MAX_PORT_COUNT :: nat where "VPORT_MAX_PORT_COUNT \<equiv> 0x10000"
abbreviation X86_CORE_MACHINE_PORT_BUCKET_COUNT :: nat where
  "X86_CORE_MACHINE_PORT_BUCKET_COUNT \<equiv> 256"

record ('p, 'o) x86_core_machine_port_provider_entry =
  pe_port_id :: lib_u16
  pe_write :: bool
  pe_wired_or :: bool
  pe_byte_lane_end :: lib_u16
  pe_read_provider :: "'p ptr"
  pe_write_provider :: "'p ptr"
  pe_owner :: 'o

type_synonym ('p, 'o) entry = "('p, 'o) x86_core_machine_port_provider_entry"

record x86_core_machine_port_test_allocation =
  ta_fail_at :: nat
  ta_attempts :: nat

record ('p, 'o) t_port =
  port_ioDWord :: lib_u32
  port_access_bytes :: nat
  port_buckets :: "nat \<Rightarrow> ('p, 'o) entry list"
  port_test_allocation :: "x86_core_machine_port_test_allocation ptr"
  port_registration_status :: lib_status

record ('p, 'o) x86_core_machine_port_route =
  route_address :: lib_u16
  route_read :: "'p ptr"
  route_write :: "'p ptr"
  route_owner :: 'o
  route_wired_or_read :: bool
  route_byte_lane_end :: lib_u16

record ('p, 'o, 'w) port_io =
  io_read :: "'p \<Rightarrow> 'o \<Rightarrow> lib_u16 \<Rightarrow> lib_u64 \<Rightarrow> lib_u32 \<Rightarrow> 'w \<Rightarrow> lib_status \<times> lib_u32 \<times> 'w"
  io_write :: "'p \<Rightarrow> 'o \<Rightarrow> lib_u16 \<Rightarrow> nat \<Rightarrow> lib_u32 \<Rightarrow> 'w \<Rightarrow> lib_status \<times> 'w"

definition port_bucket :: "lib_u16 \<Rightarrow> nat" where
  "port_bucket port_id = unat port_id mod X86_CORE_MACHINE_PORT_BUCKET_COUNT"

section \<open>Registration\<close>

definition x86_core_machine_port_find_provider ::
  "('p, 'o) t_port \<Rightarrow> lib_u16 \<Rightarrow> bool \<Rightarrow> ('p, 'o) entry ptr" where
  "x86_core_machine_port_find_provider port port_id write =
     find (\<lambda>entry. pe_port_id entry = port_id \<and> pe_write entry = write \<and> \<not> pe_wired_or entry)
       (port_buckets port (port_bucket port_id))"

definition x86_core_machine_port_add_provider ::
  "(('p, 'o) t_port \<Rightarrow> bool) \<Rightarrow> ('p, 'o) t_port \<Rightarrow> lib_u16 \<Rightarrow> bool \<Rightarrow> 'p ptr \<Rightarrow> 'p ptr \<Rightarrow> 'o \<Rightarrow> bool \<Rightarrow>
     lib_u16 \<Rightarrow> lib_status \<times> ('p, 'o) t_port" where
  "x86_core_machine_port_add_provider alloc port port_id write read_provider write_provider owner
       wired_or byte_lane_end =
     (if read_provider = None \<and> write_provider = None then (LIB_STATUS_INVALID_ARGUMENT, port)
      else if port_registration_status port \<noteq> LIB_STATUS_OK
      then (port_registration_status port, port)
      else
        let found = x86_core_machine_port_find_provider port port_id write
        in if (\<not> wired_or \<and> found \<noteq> None) \<or> (wired_or \<and> (write \<or> found = None))
           then (LIB_STATUS_INVALID_STATE, port\<lparr>port_registration_status := LIB_STATUS_INVALID_STATE\<rparr>)
           else
             let test = map_option (\<lambda>t. t\<lparr>ta_attempts := ta_attempts t + 1\<rparr>) (port_test_allocation port);
                 port1 = port\<lparr>port_test_allocation := test\<rparr>
             in if (case test of None \<Rightarrow> False
                    | Some t \<Rightarrow> ta_fail_at t \<noteq> 0 \<and> ta_attempts t = ta_fail_at t)
                then (LIB_STATUS_NO_MEMORY, port1\<lparr>port_registration_status := LIB_STATUS_NO_MEMORY\<rparr>)
                else if \<not> alloc port1
                then (LIB_STATUS_NO_MEMORY, port1\<lparr>port_registration_status := LIB_STATUS_NO_MEMORY\<rparr>)
                else (LIB_STATUS_OK, port1\<lparr>port_buckets := (port_buckets port1)(port_bucket port_id :=
                       \<lparr>pe_port_id = port_id, pe_write = write, pe_wired_or = wired_or,
                        pe_byte_lane_end = byte_lane_end, pe_read_provider = read_provider,
                        pe_write_provider = write_provider, pe_owner = owner\<rparr> #
                       port_buckets port1 (port_bucket port_id))\<rparr>))"

definition x86_core_machine_port_add_route ::
  "(('p, 'o) t_port \<Rightarrow> bool) \<Rightarrow> ('p, 'o) t_port \<Rightarrow> ('p, 'o) x86_core_machine_port_route ptr \<Rightarrow>
     lib_status \<times> ('p, 'o) t_port" where
  "x86_core_machine_port_add_route alloc port route =
     (case route of
        None \<Rightarrow> (LIB_STATUS_INVALID_ARGUMENT, port)
      | Some r \<Rightarrow>
          (let (status, port1) =
                 (if route_read r \<noteq> None
                  then x86_core_machine_port_add_provider alloc port (route_address r) False
                         (route_read r) None (route_owner r) (route_wired_or_read r)
                         (route_byte_lane_end r)
                  else (LIB_STATUS_OK, port))
           in if status = LIB_STATUS_OK \<and> route_write r \<noteq> None
              then x86_core_machine_port_add_provider alloc port1 (route_address r) True None
                     (route_write r) (route_owner r) False (route_byte_lane_end r)
              else (status, port1)))"

definition x86_core_machine_port_has_read :: "('p, 'o) t_port \<Rightarrow> lib_u16 \<Rightarrow> bool" where
  "x86_core_machine_port_has_read port port_id =
     (x86_core_machine_port_find_provider port port_id False \<noteq> None)"

definition x86_core_machine_port_has_write :: "('p, 'o) t_port \<Rightarrow> lib_u16 \<Rightarrow> bool" where
  "x86_core_machine_port_has_write port port_id =
     (x86_core_machine_port_find_provider port port_id True \<noteq> None)"

text \<open>The checkpoint is the array of chains; the memory of the checkpoint cell is its result.\<close>

definition x86_core_machine_port_registration_begin ::
  "('p, 'o) t_port \<Rightarrow> ('p, 'o) t_port \<times> (nat \<Rightarrow> ('p, 'o) entry list)" where
  "x86_core_machine_port_registration_begin port =
     (port\<lparr>port_registration_status := LIB_STATUS_OK\<rparr>, port_buckets port)"

definition x86_core_machine_port_registration_status :: "('p, 'o) t_port ptr \<Rightarrow> lib_status" where
  "x86_core_machine_port_registration_status port =
     (case port of None \<Rightarrow> LIB_STATUS_INVALID_ARGUMENT | Some p \<Rightarrow> port_registration_status p)"

fun rollback_chain :: "'e list \<Rightarrow> 'e list \<Rightarrow> 'e list" where
  "rollback_chain [] checkpoint = []"
| "rollback_chain (entry # rest) checkpoint =
     (if entry # rest = checkpoint then entry # rest else rollback_chain rest checkpoint)"

definition x86_core_machine_port_rollback_registration ::
  "('p, 'o) t_port \<Rightarrow> (nat \<Rightarrow> ('p, 'o) entry list) \<Rightarrow> ('p, 'o) t_port" where
  "x86_core_machine_port_rollback_registration port checkpoint =
     port\<lparr>port_buckets := (\<lambda>bucket.
        if bucket < X86_CORE_MACHINE_PORT_BUCKET_COUNT
        then rollback_chain (port_buckets port bucket) (checkpoint bucket)
        else port_buckets port bucket),
       port_registration_status := LIB_STATUS_OK\<rparr>"

definition x86_core_machine_port_unregister_owner :: "('p, 'o) t_port \<Rightarrow> 'o \<Rightarrow> ('p, 'o) t_port" where
  "x86_core_machine_port_unregister_owner port owner =
     port\<lparr>port_buckets := (\<lambda>bucket.
       if bucket < X86_CORE_MACHINE_PORT_BUCKET_COUNT
       then filter (\<lambda>entry. pe_owner entry \<noteq> owner) (port_buckets port bucket)
       else port_buckets port bucket)\<rparr>"

definition port_zero :: "('p, 'o) t_port" where
  "port_zero = \<lparr>port_ioDWord = 0, port_access_bytes = 0, port_buckets = (\<lambda>_. []),
     port_test_allocation = None, port_registration_status = LIB_STATUS_OK\<rparr>"

definition x86_core_machine_port_initialize :: "('p, 'o) t_port \<Rightarrow> ('p, 'o) t_port" where
  "x86_core_machine_port_initialize port = port_zero"

definition x86_core_machine_port_reset :: "('p, 'o) t_port \<Rightarrow> ('p, 'o) t_port" where
  "x86_core_machine_port_reset port = port\<lparr>port_ioDWord := 0, port_access_bytes := 0\<rparr>"

definition x86_core_machine_port_finalize :: "('p, 'o) t_port \<Rightarrow> ('p, 'o) t_port" where
  "x86_core_machine_port_finalize port = port\<lparr>port_buckets := (\<lambda>bucket.
     if bucket < X86_CORE_MACHINE_PORT_BUCKET_COUNT then [] else port_buckets port bucket)\<rparr>"

definition x86_core_machine_port_set_test_allocation ::
  "('p, 'o) t_port \<Rightarrow> x86_core_machine_port_test_allocation ptr \<Rightarrow> ('p, 'o) t_port" where
  "x86_core_machine_port_set_test_allocation port test = port\<lparr>port_test_allocation := test\<rparr>"

section \<open>Accesses\<close>

definition entry_uses_lanes :: "('p, 'o) entry \<Rightarrow> lib_u16 \<Rightarrow> nat \<Rightarrow> bool" where
  "entry_uses_lanes provider port_id access_bytes \<longleftrightarrow>
     access_bytes > 1 \<and> pe_byte_lane_end provider \<noteq> 0 \<and>
     unat port_id + access_bytes \<le> unat (pe_byte_lane_end provider)"

fun read_lanes ::
  "('p, 'o, 'w) port_io \<Rightarrow> 'p \<Rightarrow> 'o \<Rightarrow> lib_u16 \<Rightarrow> lib_u64 \<Rightarrow> nat list \<Rightarrow> lib_u32 \<Rightarrow> 'w \<Rightarrow>
     lib_status \<times> lib_u32 \<times> 'w" where
  "read_lanes io rp owner port_id tick [] v w = (LIB_STATUS_OK, v, w)"
| "read_lanes io rp owner port_id tick (lane # lanes) v w =
     (case io_read io rp owner (port_id + of_nat lane) tick 0 w of
        (status, byte, w') \<Rightarrow>
          (if status \<noteq> LIB_STATUS_OK then (status, v, w')
           else read_lanes io rp owner port_id tick lanes
                  (v OR push_bit (lane * 8) (byte AND 0xff)) w'))"

fun wired_reads ::
  "('p, 'o, 'w) port_io \<Rightarrow> lib_u16 \<Rightarrow> lib_u64 \<Rightarrow> ('p, 'o) entry list \<Rightarrow> lib_u32 \<Rightarrow> 'w \<Rightarrow>
     lib_status \<times> lib_u32 \<times> 'w" where
  "wired_reads io port_id tick [] v w = (LIB_STATUS_OK, v, w)"
| "wired_reads io port_id tick (provider # rest) v w =
     (if pe_port_id provider \<noteq> port_id \<or> pe_write provider \<or> \<not> pe_wired_or provider \<or>
         pe_read_provider provider = None
      then wired_reads io port_id tick rest v w
      else case io_read io (the (pe_read_provider provider)) (pe_owner provider) port_id tick 0 w of
        (status, contribution, w') \<Rightarrow>
          (if status \<noteq> LIB_STATUS_OK then (status, v, w')
           else wired_reads io port_id tick rest (v OR contribution) w'))"

definition read_base ::
  "('p, 'o, 'w) port_io \<Rightarrow> ('p, 'o) t_port \<Rightarrow> lib_u16 \<Rightarrow> lib_u64 \<Rightarrow> 'w \<Rightarrow> lib_status \<times> lib_u32 \<times> 'w" where
  "read_base io port port_id tick w =
     (case x86_core_machine_port_find_provider port port_id False of
        None \<Rightarrow> (LIB_STATUS_OK, 0, w)
      | Some provider \<Rightarrow>
          (case pe_read_provider provider of
             None \<Rightarrow> (LIB_STATUS_OK, port_ioDWord port, w)
           | Some rp \<Rightarrow>
               (if entry_uses_lanes provider port_id (port_access_bytes port)
                then read_lanes io rp (pe_owner provider) port_id tick [0..<port_access_bytes port] 0 w
                else io_read io rp (pe_owner provider) port_id tick (port_ioDWord port) w)))"

definition x86_core_machine_port_execute_read_current ::
  "('p, 'o, 'w) port_io \<Rightarrow> ('p, 'o) t_port \<Rightarrow> lib_u16 \<Rightarrow> lib_u64 \<Rightarrow> 'w \<Rightarrow>
     lib_status \<times> ('p, 'o) t_port \<times> 'w" where
  "x86_core_machine_port_execute_read_current io port port_id tick w =
     (case read_base io port port_id tick w of
        (status, v, w1) \<Rightarrow>
          (if status \<noteq> LIB_STATUS_OK then (status, port, w1)
           else case wired_reads io port_id tick (port_buckets port (port_bucket port_id)) v w1 of
             (status2, v2, w2) \<Rightarrow>
               (if status2 \<noteq> LIB_STATUS_OK then (status2, port, w2)
                else (LIB_STATUS_OK, port\<lparr>port_ioDWord := v2\<rparr>, w2))))"

fun write_lanes ::
  "('p, 'o, 'w) port_io \<Rightarrow> 'p \<Rightarrow> 'o \<Rightarrow> lib_u16 \<Rightarrow> lib_u32 \<Rightarrow> nat list \<Rightarrow> 'w \<Rightarrow> lib_status \<times> 'w" where
  "write_lanes io wp owner port_id v [] w = (LIB_STATUS_OK, w)"
| "write_lanes io wp owner port_id v (lane # lanes) w =
     (case io_write io wp owner (port_id + of_nat lane) 1 (drop_bit (lane * 8) v AND 0xff) w of
        (status, w') \<Rightarrow>
          (if status \<noteq> LIB_STATUS_OK then (status, w')
           else write_lanes io wp owner port_id v lanes w'))"

definition x86_core_machine_port_execute_write_current ::
  "('p, 'o, 'w) port_io \<Rightarrow> ('p, 'o) t_port \<Rightarrow> lib_u16 \<Rightarrow> 'w \<Rightarrow> lib_status \<times> 'w" where
  "x86_core_machine_port_execute_write_current io port port_id w =
     (case x86_core_machine_port_find_provider port port_id True of
        None \<Rightarrow> (LIB_STATUS_OK, w)
      | Some provider \<Rightarrow>
          (case pe_write_provider provider of
             None \<Rightarrow> (LIB_STATUS_OK, w)
           | Some wp \<Rightarrow>
               (if entry_uses_lanes provider port_id (port_access_bytes port)
                then write_lanes io wp (pe_owner provider) port_id (port_ioDWord port)
                       [0..<port_access_bytes port] w
                else io_write io wp (pe_owner provider) port_id (port_access_bytes port)
                       (port_ioDWord port) w)))"

definition port_width_invalid :: "lib_u16 \<Rightarrow> nat \<Rightarrow> bool" where
  "port_width_invalid port_id bytes \<longleftrightarrow>
     (bytes \<noteq> 1 \<and> bytes \<noteq> 2 \<and> bytes \<noteq> 4) \<or> unat port_id + bytes > VPORT_MAX_PORT_COUNT"

definition x86_core_machine_port_execute_read_width ::
  "('p, 'o, 'w) port_io \<Rightarrow> ('p, 'o) t_port \<Rightarrow> lib_u16 \<Rightarrow> nat \<Rightarrow> lib_u64 \<Rightarrow> 'w \<Rightarrow>
     lib_status \<times> ('p, 'o) t_port \<times> 'w" where
  "x86_core_machine_port_execute_read_width io port port_id bytes tick w =
     (if port_width_invalid port_id bytes then (LIB_STATUS_INVALID_ARGUMENT, port, w)
      else x86_core_machine_port_execute_read_current io (port\<lparr>port_access_bytes := bytes\<rparr>) port_id tick w)"

definition x86_core_machine_port_execute_write_width ::
  "('p, 'o, 'w) port_io \<Rightarrow> ('p, 'o) t_port \<Rightarrow> lib_u16 \<Rightarrow> nat \<Rightarrow> 'w \<Rightarrow> lib_status \<times> ('p, 'o) t_port \<times> 'w" where
  "x86_core_machine_port_execute_write_width io port port_id bytes w =
     (if port_width_invalid port_id bytes then (LIB_STATUS_INVALID_ARGUMENT, port, w)
      else let port1 = port\<lparr>port_access_bytes := bytes\<rparr>;
               (status, w') = x86_core_machine_port_execute_write_current io port1 port_id w
           in (status, port1, w'))"

definition x86_core_machine_port_execute_read ::
  "('p, 'o, 'w) port_io \<Rightarrow> ('p, 'o) t_port \<Rightarrow> lib_u16 \<Rightarrow> lib_u64 \<Rightarrow> 'w \<Rightarrow>
     lib_status \<times> ('p, 'o) t_port \<times> 'w" where
  "x86_core_machine_port_execute_read io port port_id tick w =
     x86_core_machine_port_execute_read_current io (port\<lparr>port_access_bytes := 1\<rparr>) port_id tick w"

definition x86_core_machine_port_execute_write ::
  "('p, 'o, 'w) port_io \<Rightarrow> ('p, 'o) t_port \<Rightarrow> lib_u16 \<Rightarrow> 'w \<Rightarrow> lib_status \<times> ('p, 'o) t_port \<times> 'w" where
  "x86_core_machine_port_execute_write io port port_id w =
     (let port1 = port\<lparr>port_access_bytes := 1\<rparr>;
          (status, w') = x86_core_machine_port_execute_write_current io port1 port_id w
      in (status, port1, w'))"

definition x86_core_machine_port_read ::
  "('p, 'o, 'w) port_io \<Rightarrow> ('p, 'o) t_port \<Rightarrow> lib_u16 \<Rightarrow> 'w \<Rightarrow> lib_u32 \<times> ('p, 'o) t_port \<times> 'w" where
  "x86_core_machine_port_read io port port_id w =
     (case x86_core_machine_port_execute_read io port port_id 0 w of
        (_, port1, w') \<Rightarrow> (port_ioDWord port1, port1, w'))"

definition x86_core_machine_port_write ::
  "('p, 'o, 'w) port_io \<Rightarrow> ('p, 'o) t_port \<Rightarrow> lib_u16 \<Rightarrow> lib_u32 \<Rightarrow> 'w \<Rightarrow> ('p, 'o) t_port \<times> 'w" where
  "x86_core_machine_port_write io port port_id v w =
     (case x86_core_machine_port_execute_write io (port\<lparr>port_ioDWord := v\<rparr>) port_id w of
        (_, port1, w') \<Rightarrow> (port1, w'))"

section \<open>The machine's route interface\<close>

definition port_route_invalid :: "('p, 'o) x86_core_machine_port_route \<Rightarrow> bool" where
  "port_route_invalid r \<longleftrightarrow>
     (route_read r = None \<and> route_write r = None) \<or>
     (route_wired_or_read r \<and> route_read r = None) \<or>
     (route_byte_lane_end r \<noteq> 0 \<and>
        (unat (route_address r) + 1 > unat (route_byte_lane_end r) \<or> route_wired_or_read r))"

fun install_routes ::
  "(('p, 'o) t_port \<Rightarrow> bool) \<Rightarrow> (nat \<Rightarrow> ('p, 'o) entry list) \<Rightarrow>
     ('p, 'o) x86_core_machine_port_route list \<Rightarrow> ('p, 'o) t_port \<Rightarrow> lib_status \<times> ('p, 'o) t_port" where
  "install_routes alloc checkpoint [] port = (LIB_STATUS_OK, port)"
| "install_routes alloc checkpoint (r # rs) port =
     (case x86_core_machine_port_add_route alloc port (Some r) of
        (status, port1) \<Rightarrow>
          (if status \<noteq> LIB_STATUS_OK
           then (status, x86_core_machine_port_rollback_registration port1 checkpoint)
           else install_routes alloc checkpoint rs port1))"

definition x86_core_machine_install_port_routes ::
  "(('p, 'o) t_port \<Rightarrow> bool) \<Rightarrow> bool \<Rightarrow> ('p, 'o) x86_core_machine_port_route list ptr \<Rightarrow>
     ('p, 'o) t_port \<Rightarrow> lib_status \<times> ('p, 'o) t_port" where
  "x86_core_machine_install_port_routes alloc configuration_open routes port =
     (if \<not> configuration_open then (LIB_STATUS_INVALID_STATE, port)
      else case routes of
        None \<Rightarrow> (LIB_STATUS_INVALID_ARGUMENT, port)
      | Some rs \<Rightarrow>
          (if rs = [] \<or> list_ex port_route_invalid rs then (LIB_STATUS_INVALID_ARGUMENT, port)
           else if port_registration_status port \<noteq> LIB_STATUS_OK then (port_registration_status port, port)
           else case x86_core_machine_port_registration_begin port of
             (port1, checkpoint) \<Rightarrow> install_routes alloc checkpoint rs port1))"

definition x86_core_machine_remove_port_routes ::
  "bool \<Rightarrow> 'o ptr \<Rightarrow> ('p, 'o) t_port \<Rightarrow> lib_status \<times> ('p, 'o) t_port" where
  "x86_core_machine_remove_port_routes running owner port =
     (case owner of
        None \<Rightarrow> (LIB_STATUS_INVALID_ARGUMENT, port)
      | Some ow \<Rightarrow>
          (if running then (LIB_STATUS_INVALID_STATE, port)
           else (LIB_STATUS_OK, x86_core_machine_port_unregister_owner port ow)))"

definition x86_core_machine_install_port_provider ::
  "(('p, 'o) t_port \<Rightarrow> bool) \<Rightarrow> bool \<Rightarrow> lib_u16 \<Rightarrow> lib_u16 \<Rightarrow> ('p ptr \<times> 'p ptr) ptr \<Rightarrow> 'o \<Rightarrow>
     ('p, 'o) t_port \<Rightarrow> lib_status \<times> ('p, 'o) t_port" where
  "x86_core_machine_install_port_provider alloc configuration_open first final provider owner port =
     (if \<not> configuration_open then (LIB_STATUS_INVALID_STATE, port)
      else case provider of
        None \<Rightarrow> (LIB_STATUS_INVALID_ARGUMENT, port)
      | Some (rd, wr) \<Rightarrow>
          (if first > final \<or> (rd = None \<and> wr = None) then (LIB_STATUS_INVALID_ARGUMENT, port)
           else case x86_core_machine_port_registration_begin port of
             (port1, checkpoint) \<Rightarrow>
               (let ids = map of_nat [unat first..<unat final + 1]
                in if list_ex (\<lambda>p. (rd \<noteq> None \<and> x86_core_machine_port_has_read port1 p) \<or>
                        (wr \<noteq> None \<and> x86_core_machine_port_has_write port1 p)) ids
                   then (LIB_STATUS_INVALID_STATE, port1)
                   else install_routes alloc checkpoint
                          (map (\<lambda>p. \<lparr>route_address = p, route_read = rd, route_write = wr,
                             route_owner = owner, route_wired_or_read = False,
                             route_byte_lane_end = 0\<rparr>) ids) port1)))"

datatype x86_core_machine_lifecycle =
    X86_CORE_MACHINE_INITIALIZED | X86_CORE_MACHINE_PAUSED | X86_CORE_MACHINE_RUNNING
  | X86_CORE_MACHINE_STOPPED | X86_CORE_MACHINE_FAULTED

definition bus_lifecycle_ok :: "x86_core_machine_lifecycle \<Rightarrow> bool" where
  "bus_lifecycle_ok lifecycle \<longleftrightarrow>
     lifecycle = X86_CORE_MACHINE_STOPPED \<or> lifecycle = X86_CORE_MACHINE_PAUSED"

definition x86_core_machine_bus_read ::
  "('p, 'o, 'w) port_io \<Rightarrow> x86_core_machine_lifecycle \<Rightarrow> lib_u64 \<Rightarrow> ('p, 'o) t_port \<Rightarrow> lib_u16 \<Rightarrow>
     lib_u32 ptr \<Rightarrow> 'w \<Rightarrow> lib_status \<times> lib_u32 ptr \<times> ('p, 'o) t_port \<times> 'w" where
  "x86_core_machine_bus_read io lifecycle elapsed_ticks port port_id out w =
     (if out = None then (LIB_STATUS_INVALID_ARGUMENT, out, port, w)
      else if \<not> bus_lifecycle_ok lifecycle then (LIB_STATUS_INVALID_STATE, out, port, w)
      else if \<not> x86_core_machine_port_has_read port port_id then (LIB_STATUS_UNSUPPORTED, out, port, w)
      else case x86_core_machine_port_execute_read io port port_id elapsed_ticks w of
        (status, port1, w') \<Rightarrow>
          (if status \<noteq> LIB_STATUS_OK then (status, out, port1, w')
           else (LIB_STATUS_OK, Some (port_ioDWord port1), port1, w')))"

definition x86_core_machine_bus_write ::
  "('p, 'o, 'w) port_io \<Rightarrow> x86_core_machine_lifecycle \<Rightarrow> ('p, 'o) t_port \<Rightarrow> lib_u16 \<Rightarrow> lib_u32 \<Rightarrow> 'w \<Rightarrow>
     lib_status \<times> ('p, 'o) t_port \<times> 'w" where
  "x86_core_machine_bus_write io lifecycle port port_id v w =
     (if \<not> bus_lifecycle_ok lifecycle then (LIB_STATUS_INVALID_STATE, port, w)
      else if \<not> x86_core_machine_port_has_write port port_id then (LIB_STATUS_UNSUPPORTED, port, w)
      else case x86_core_machine_port_execute_write io (port\<lparr>port_ioDWord := v\<rparr>) port_id w of
        (status, port1, w') \<Rightarrow>
          (if status \<noteq> LIB_STATUS_OK
           then (status, port1\<lparr>port_ioDWord := port_ioDWord port\<rparr>, w')
           else (LIB_STATUS_OK, port1, w')))"


section \<open>Registration is atomic\<close>

lemma port_bucket_lt [simp]: "port_bucket p < 256"
  by (simp add: port_bucket_def)

lemma rollback_chain_append [simp]: "rollback_chain (pre @ c) c = c"
proof (induction pre)
  case Nil
  then show ?case by (cases c) simp_all
next
  case (Cons e pre)
  then show ?case by simp
qed

text \<open>Chains of \<open>q\<close> extend those of \<open>p\<close> at the front.\<close>

definition chains_extend :: "('p, 'o) t_port \<Rightarrow> ('p, 'o) t_port \<Rightarrow> bool" where
  "chains_extend p q \<longleftrightarrow> (\<forall>b. \<exists>pre. port_buckets q b = pre @ port_buckets p b) \<and>
     (\<forall>b \<ge> 256. port_buckets q b = port_buckets p b)"

lemma chains_extend_refl [simp]: "chains_extend p p"
  by (simp add: chains_extend_def)

lemma chains_extend_trans: "chains_extend p q \<Longrightarrow> chains_extend q r \<Longrightarrow> chains_extend p r"
  unfolding chains_extend_def by (metis append.assoc)

lemma add_provider_cases:
  obtains (refused) "\<And>b. port_buckets (snd (x86_core_machine_port_add_provider alloc p a w rp wp ow wo le)) b = port_buckets p b"
      "fst (x86_core_machine_port_add_provider alloc p a w rp wp ow wo le) \<noteq> LIB_STATUS_OK"
    | (added) "x86_core_machine_port_add_provider alloc p a w rp wp ow wo le =
        (LIB_STATUS_OK, p\<lparr>port_test_allocation := map_option (\<lambda>t. t\<lparr>ta_attempts := ta_attempts t + 1\<rparr>) (port_test_allocation p),
           port_buckets := (port_buckets p)(port_bucket a :=
             \<lparr>pe_port_id = a, pe_write = w, pe_wired_or = wo, pe_byte_lane_end = le,
              pe_read_provider = rp, pe_write_provider = wp, pe_owner = ow\<rparr> # port_buckets p (port_bucket a))\<rparr>)"
      "\<not> wo \<Longrightarrow> x86_core_machine_port_find_provider p a w = None"
proof (cases "fst (x86_core_machine_port_add_provider alloc p a w rp wp ow wo le) = LIB_STATUS_OK")
  case True
  then show ?thesis
    by (intro added) (auto simp: x86_core_machine_port_add_provider_def Let_def split: if_splits option.splits)
next
  case False
  then show ?thesis
    by (intro refused) (auto simp: x86_core_machine_port_add_provider_def Let_def split: if_splits option.splits)
qed

lemma add_provider_extends:
  "chains_extend p (snd (x86_core_machine_port_add_provider alloc p a w rp wp ow wo le))"
proof (cases rule: add_provider_cases [of alloc p a w rp wp ow wo le])
  case refused
  then show ?thesis by (simp add: chains_extend_def)
next
  case added
  have "b \<noteq> port_bucket a" if "b \<ge> 256" for b using port_bucket_lt [of a] that by (metis not_le)
  then show ?thesis unfolding added(1) by (auto simp: chains_extend_def)
qed

lemma add_route_extends: "chains_extend p (snd (x86_core_machine_port_add_route alloc p r))"
  by (cases r) (auto simp: x86_core_machine_port_add_route_def Let_def case_prod_beta
      intro: add_provider_extends chains_extend_trans [OF add_provider_extends add_provider_extends])

lemma rollback_restores:
  assumes "chains_extend p q"
  shows "port_buckets (x86_core_machine_port_rollback_registration q (port_buckets p)) = port_buckets p"
proof
  fix b
  show "port_buckets (x86_core_machine_port_rollback_registration q (port_buckets p)) b = port_buckets p b"
  proof (cases "b < 256")
    case True
    obtain pre where "port_buckets q b = pre @ port_buckets p b"
      using assms unfolding chains_extend_def by blast
    then show ?thesis using True by (simp add: x86_core_machine_port_rollback_registration_def)
  next
    case False
    then show ?thesis
      using assms by (simp add: x86_core_machine_port_rollback_registration_def chains_extend_def)
  qed
qed

lemma install_routes_fails:
  assumes "install_routes alloc (port_buckets p) rs q = (status, q')" "chains_extend p q" "status \<noteq> LIB_STATUS_OK"
  shows "port_buckets q' = port_buckets p \<and> port_registration_status q' = LIB_STATUS_OK"
  using assms
proof (induction rs arbitrary: q)
  case Nil
  then show ?case by simp
next
  case (Cons r rs)
  obtain st q1 where a: "x86_core_machine_port_add_route alloc q (Some r) = (st, q1)" by force
  then have e: "chains_extend p q1"
    using chains_extend_trans [OF Cons.prems(2) add_route_extends, of alloc "Some r"] by simp
  show ?case
  proof (cases "st = LIB_STATUS_OK")
    case True
    then show ?thesis using Cons a e by simp
  next
    case False
    then have "q' = x86_core_machine_port_rollback_registration q1 (port_buckets p)"
      using Cons.prems(1) a by simp
    then show ?thesis
      using rollback_restores [OF e] by (simp add: x86_core_machine_port_rollback_registration_def)
  qed
qed

text \<open>A route is installed: its exclusive providers answer at its address.\<close>

definition route_installed :: "('p, 'o) t_port \<Rightarrow> ('p, 'o) x86_core_machine_port_route \<Rightarrow> bool" where
  "route_installed p r \<longleftrightarrow>
     (route_read r \<noteq> None \<and> \<not> route_wired_or_read r \<longrightarrow>
        (\<exists>e. x86_core_machine_port_find_provider p (route_address r) False = Some e \<and>
           pe_read_provider e = route_read r \<and> pe_owner e = route_owner r \<and>
           pe_byte_lane_end e = route_byte_lane_end r)) \<and>
     (route_read r \<noteq> None \<and> route_wired_or_read r \<longrightarrow>
        (\<exists>e \<in> set (port_buckets p (port_bucket (route_address r))). pe_port_id e = route_address r \<and>
           \<not> pe_write e \<and> pe_wired_or e \<and> pe_read_provider e = route_read r \<and> pe_owner e = route_owner r)) \<and>
     (route_write r \<noteq> None \<longrightarrow>
        (\<exists>e. x86_core_machine_port_find_provider p (route_address r) True = Some e \<and>
           pe_write_provider e = route_write r \<and> pe_owner e = route_owner r \<and>
           pe_byte_lane_end e = route_byte_lane_end r))"

definition finds_kept :: "('p, 'o) t_port \<Rightarrow> ('p, 'o) t_port \<Rightarrow> bool" where
  "finds_kept p q \<longleftrightarrow>
     (\<forall>a w e. x86_core_machine_port_find_provider p a w = Some e \<longrightarrow>
        x86_core_machine_port_find_provider q a w = Some e) \<and>
     (\<forall>b. set (port_buckets p b) \<subseteq> set (port_buckets q b))"

lemma finds_kept_refl [simp]: "finds_kept p p"
  by (simp add: finds_kept_def)

lemma finds_kept_trans: "finds_kept p q \<Longrightarrow> finds_kept q r \<Longrightarrow> finds_kept p r"
  unfolding finds_kept_def by blast

lemma route_installed_kept: "finds_kept p q \<Longrightarrow> route_installed p r \<Longrightarrow> route_installed q r"
  unfolding finds_kept_def route_installed_def by blast

lemma add_provider_finds:
  assumes "x86_core_machine_port_add_provider alloc p a w rp wp ow wo le = (LIB_STATUS_OK, q)"
  shows "finds_kept p q \<and> (\<exists>e \<in> set (port_buckets q (port_bucket a)). pe_port_id e = a \<and> pe_write e = w \<and>
      pe_wired_or e = wo \<and> pe_read_provider e = rp \<and> pe_write_provider e = wp \<and> pe_owner e = ow \<and>
      pe_byte_lane_end e = le \<and> (\<not> wo \<longrightarrow> x86_core_machine_port_find_provider q a w = Some e))"
proof (cases rule: add_provider_cases [of alloc p a w rp wp ow wo le])
  case refused
  then show ?thesis using assms by simp
next
  case added
  let ?e = "\<lparr>pe_port_id = a, pe_write = w, pe_wired_or = wo, pe_byte_lane_end = le,
              pe_read_provider = rp, pe_write_provider = wp, pe_owner = ow\<rparr>"
  have q: "port_buckets q = (port_buckets p)(port_bucket a := ?e # port_buckets p (port_bucket a))"
    using assms added(1) by auto
  have f: "x86_core_machine_port_find_provider q a' w' =
      (if a' = a \<and> w' = w \<and> \<not> wo then Some ?e else x86_core_machine_port_find_provider p a' w')" for a' w'
    by (auto simp: x86_core_machine_port_find_provider_def q)
  have "finds_kept p q" using added(2) by (auto simp: finds_kept_def f q)
  moreover have "?e \<in> set (port_buckets q (port_bucket a))" by (simp add: q)
  moreover have "\<not> wo \<longrightarrow> x86_core_machine_port_find_provider q a w = Some ?e" using f [of a w] by simp
  ultimately show ?thesis by force
qed

lemma add_route_finds:
  assumes "x86_core_machine_port_add_route alloc p (Some r) = (LIB_STATUS_OK, q)"
  shows "finds_kept p q \<and> route_installed q r"
proof -
  let ?rd = "if route_read r \<noteq> None
    then x86_core_machine_port_add_provider alloc p (route_address r) False (route_read r) None
      (route_owner r) (route_wired_or_read r) (route_byte_lane_end r) else (LIB_STATUS_OK, p)"
  obtain p1 where p1: "?rd = (LIB_STATUS_OK, p1)"
    and q: "(if route_write r \<noteq> None then x86_core_machine_port_add_provider alloc p1 (route_address r) True
      None (route_write r) (route_owner r) False (route_byte_lane_end r) else (LIB_STATUS_OK, p1)) =
      (LIB_STATUS_OK, q)"
    using assms by (cases ?rd) (auto simp: x86_core_machine_port_add_route_def Let_def split: if_splits)
  have k1: "finds_kept p p1" using p1 add_provider_finds by (fastforce split: if_splits)
  have k2: "finds_kept p1 q" using q add_provider_finds by (fastforce split: if_splits)
  have "route_installed p1 (r\<lparr>route_write := None\<rparr>)"
    using p1 by (auto simp: route_installed_def dest!: add_provider_finds split: if_splits)
  then have "route_installed q (r\<lparr>route_write := None\<rparr>)" by (rule route_installed_kept [OF k2])
  moreover have "route_write r \<noteq> None \<Longrightarrow>
      (\<exists>e. x86_core_machine_port_find_provider q (route_address r) True = Some e \<and>
        pe_write_provider e = route_write r \<and> pe_owner e = route_owner r \<and>
        pe_byte_lane_end e = route_byte_lane_end r)"
    using q by (auto dest!: add_provider_finds)
  ultimately show ?thesis using finds_kept_trans [OF k1 k2] by (simp add: route_installed_def)
qed

lemma install_routes_succeeds:
  "install_routes alloc c rs p = (LIB_STATUS_OK, q) \<Longrightarrow> finds_kept p q \<and> (\<forall>r \<in> set rs. route_installed q r)"
proof (induction rs arbitrary: p)
  case Nil
  then show ?case by simp
next
  case (Cons r rs)
  obtain p1 where a: "x86_core_machine_port_add_route alloc p (Some r) = (LIB_STATUS_OK, p1)"
    and i: "install_routes alloc c rs p1 = (LIB_STATUS_OK, q)"
    using Cons.prems by (cases "x86_core_machine_port_add_route alloc p (Some r)") (auto split: if_splits)
  then show ?case
    using Cons.IH add_route_finds [OF a] finds_kept_trans route_installed_kept by (metis set_ConsD)
qed

text \<open>
  C35: installing routes is atomic. When it succeeds, every route of the list answers at its address
  and every provider that answered before still does; when it fails, for whatever reason and however
  far it got, the table of routes is exactly what it was and stays open for registration.
\<close>

theorem port_install_atomic:
  assumes "x86_core_machine_install_port_routes alloc opened routes port = (status, port')"
  shows "if status = LIB_STATUS_OK
    then (\<forall>r \<in> set (the routes). route_installed port' r) \<and>
      (\<forall>a w e. x86_core_machine_port_find_provider port a w = Some e \<longrightarrow>
         x86_core_machine_port_find_provider port' a w = Some e)
    else port_buckets port' = port_buckets port \<and>
      port_registration_status port' = port_registration_status port"
proof -
  let ?p1 = "port\<lparr>port_registration_status := LIB_STATUS_OK\<rparr>"
  have b: "port_buckets ?p1 = port_buckets port" by simp
  show ?thesis
  proof (cases "opened \<and> routes \<noteq> None \<and> the routes \<noteq> [] \<and> \<not> list_ex port_route_invalid (the routes) \<and>
      port_registration_status port = LIB_STATUS_OK")
    case False
    then show ?thesis
      using assms by (auto simp: x86_core_machine_install_port_routes_def split: if_splits option.splits)
  next
    case True
    then have i: "install_routes alloc (port_buckets ?p1) (the routes) ?p1 = (status, port')"
      using assms by (auto simp: x86_core_machine_install_port_routes_def
          x86_core_machine_port_registration_begin_def)
    show ?thesis
    proof (cases "status = LIB_STATUS_OK")
      case ok: True
      then have "finds_kept ?p1 port'" "\<forall>r \<in> set (the routes). route_installed port' r"
        using install_routes_succeeds i by blast+
      then show ?thesis using ok by (simp add: finds_kept_def x86_core_machine_port_find_provider_def)
    next
      case False
      then show ?thesis using install_routes_fails [OF i] True by simp
    qed
  qed
qed

text \<open>A two-route table: a bank of latches at 100h to 104h, and a second owner at 200h.\<close>

definition port_demo_routes :: "(nat, nat) x86_core_machine_port_route list" where
  "port_demo_routes =
     [\<lparr>route_address = 0x100, route_read = Some 1, route_write = Some 2, route_owner = 7,
       route_wired_or_read = False, route_byte_lane_end = 0x104\<rparr>,
      \<lparr>route_address = 0x200, route_read = Some 3, route_write = None, route_owner = 8,
       route_wired_or_read = False, route_byte_lane_end = 0\<rparr>]"

definition port_demo :: "(nat, nat) t_port" where
  "port_demo = snd (x86_core_machine_install_port_routes (\<lambda>_. True) True (Some port_demo_routes) port_zero)"

lemma port_demo_install:
  "x86_core_machine_install_port_routes (\<lambda>_. True) True (Some port_demo_routes) port_zero =
    (LIB_STATUS_OK, port_demo)"
proof -
  have "fst (x86_core_machine_install_port_routes (\<lambda>_. True) True (Some port_demo_routes) port_zero) =
      LIB_STATUS_OK"
    by code_simp
  then show ?thesis by (simp add: port_demo_def prod_eq_iff)
qed

theorem port_install_atomic_witness:
  "list_all (route_installed port_demo) port_demo_routes"
  using port_install_atomic [OF port_demo_install] by (simp add: list_all_iff)

section \<open>Removing an owner\<close>

lemma install_routes_high:
  "b \<ge> 256 \<Longrightarrow> port_buckets (snd (install_routes alloc c rs p)) b = port_buckets p b"
proof (induction rs arbitrary: p)
  case (Cons r rs)
  have "port_buckets (snd (x86_core_machine_port_add_route alloc p (Some r))) b = port_buckets p b"
    using add_route_extends [of p alloc "Some r"] Cons.prems by (simp add: chains_extend_def)
  then show ?case
    using Cons by (simp add: case_prod_beta x86_core_machine_port_rollback_registration_def)
qed simp

text \<open>
  Removing an owner's routes removes all of them and nothing else: no entry of that owner is left
  in the table and the other entries keep their order, so every other provider that answered still
  does.
\<close>

theorem port_remove_owner:
  assumes "\<forall>b \<ge> 256. port_buckets port b = []"
    "x86_core_machine_remove_port_routes running (Some owner) port = (LIB_STATUS_OK, port')"
  shows "(\<forall>b. \<forall>e \<in> set (port_buckets port' b). pe_owner e \<noteq> owner) \<and>
    (\<forall>a w e. x86_core_machine_port_find_provider port a w = Some e \<and> pe_owner e \<noteq> owner \<longrightarrow>
       x86_core_machine_port_find_provider port' a w = Some e)"
proof -
  have p': "port_buckets port' b = filter (\<lambda>e. pe_owner e \<noteq> owner) (port_buckets port b)" for b
    using assms by (cases "b < 256")
      (auto simp: x86_core_machine_remove_port_routes_def x86_core_machine_port_unregister_owner_def
        split: if_splits)
  have "find P (filter Q xs) = Some e" if "find P xs = Some e" "Q e" for P Q and xs :: "('p, 'o) entry list" and e
    using that by (induction xs) (auto split: if_splits)
  then show ?thesis unfolding x86_core_machine_port_find_provider_def p' by auto
qed

theorem port_remove_owner_witness:
  "\<exists>e. x86_core_machine_port_find_provider (snd (x86_core_machine_remove_port_routes False (Some 7) port_demo))
     0x200 False = Some e"
proof -
  let ?alloc = "(\<lambda>_. True) :: (nat, nat) t_port \<Rightarrow> bool"
  have "port_demo = snd (install_routes ?alloc (\<lambda>_. []) port_demo_routes port_zero)"
    by (simp add: port_demo_def x86_core_machine_install_port_routes_def port_zero_def
        x86_core_machine_port_registration_begin_def port_demo_routes_def port_route_invalid_def)
  then have "\<forall>b \<ge> 256. port_buckets port_demo b = []"
    using install_routes_high [of _ ?alloc "\<lambda>_. []" port_demo_routes port_zero] by (simp add: port_zero_def)
  moreover have "x86_core_machine_remove_port_routes False (Some 7) port_demo =
      (LIB_STATUS_OK, snd (x86_core_machine_remove_port_routes False (Some 7) port_demo))"
    by (simp add: x86_core_machine_remove_port_routes_def)
  moreover have "map_option pe_owner (x86_core_machine_port_find_provider port_demo 0x200 False) = Some 8"
    by code_simp
  ultimately show ?thesis using port_remove_owner by fastforce
qed

section \<open>Banks of byte latches\<close>

text \<open>The little-endian bytes of a double word put together again.\<close>

lemma bytes_of_u32:
  fixes v :: lib_u32
  shows "(v AND mask 8) OR push_bit 8 (drop_bit 8 v AND mask 8) = v AND mask 16"
    "((v AND mask 16) OR push_bit 16 (drop_bit 16 v AND mask 8)) OR push_bit 24 (drop_bit 24 v AND mask 8) = v"
proof -
  show "(v AND mask 8) OR push_bit 8 (drop_bit 8 v AND mask 8) = v AND mask 16"
    by (rule bit_word_eqI) (auto simp: bit_simps)
  show "((v AND mask 16) OR push_bit 16 (drop_bit 16 v AND mask 8)) OR push_bit 24 (drop_bit 24 v AND mask 8) = v"
  proof (rule bit_word_eqI)
    fix n assume n: "n < LENGTH(32)"
    then consider "n < 16" | "16 \<le> n" "n - 16 < 8" | "24 \<le> n" "n - 24 < 8" by fastforce
    then show "bit (((v AND mask 16) OR push_bit 16 (drop_bit 16 v AND mask 8)) OR
        push_bit 24 (drop_bit 24 v AND mask 8)) n = bit v n"
      using n by cases (auto simp: bit_simps)
  qed
qed

text \<open>What the lane loops do to a bank of latches.\<close>

definition latch_store :: "lib_u16 \<Rightarrow> lib_u32 \<Rightarrow> nat list \<Rightarrow> (lib_u16 \<Rightarrow> lib_u8) \<Rightarrow> lib_u16 \<Rightarrow> lib_u8" where
  "latch_store a v lanes l =
     fold (\<lambda>i l. l(a + of_nat i := ucast (drop_bit (i * 8) v AND 0xff))) lanes l"

definition latch_load :: "lib_u16 \<Rightarrow> (lib_u16 \<Rightarrow> lib_u8) \<Rightarrow> nat list \<Rightarrow> lib_u32 \<Rightarrow> lib_u32" where
  "latch_load a l lanes x =
     fold (\<lambda>i x. x OR push_bit (i * 8) (ucast (l (a + of_nat i)) AND 0xff)) lanes x"

lemma write_lanes_latches:
  assumes "\<And>p v l. io_write io wp owner p 1 v l = (LIB_STATUS_OK, l(p := ucast v))"
  shows "write_lanes io wp owner a v lanes l = (LIB_STATUS_OK, latch_store a v lanes l)"
  using assms by (induction lanes arbitrary: l) (simp_all add: latch_store_def)

lemma read_lanes_latches:
  assumes "\<And>p tick v l. io_read io rp owner p tick v l = (LIB_STATUS_OK, ucast (l p), l)"
  shows "read_lanes io rp owner a tick lanes x l = (LIB_STATUS_OK, latch_load a l lanes x, l)"
  using assms by (induction lanes arbitrary: x) (simp_all add: latch_load_def)

lemma latch_store_other: "p \<notin> (\<lambda>i. a + of_nat i) ` set lanes \<Longrightarrow> latch_store a v lanes l p = l p"
  by (induction lanes arbitrary: l) (auto simp: latch_store_def)

lemma latch_byte: "ucast (ucast (x AND 0xff) :: lib_u8) AND 0xff = (x AND mask 8 :: lib_u32)"
proof -
  have m: "(0xff :: lib_u32) = mask 8" by (simp add: mask_eq_exp_minus_1)
  show ?thesis unfolding m by (rule bit_word_eqI) (auto simp: bit_simps)
qed

lemma latch_roundtrip:
  "bytes = 2 \<or> bytes = 4 \<Longrightarrow> latch_load a (latch_store a v [0..<bytes] l) [0..<bytes] 0 = v AND mask (8 * bytes)"
proof (elim disjE)
  have u: "[0..<2] = [0, Suc 0]" "[0..<4] = [0, Suc 0, 2, 3]" by (simp_all add: upt_rec numeral_eq_Suc)
  have m: "v AND mask 32 = v" by (rule bit_word_eqI) (simp add: bit_simps)
  show "latch_load a (latch_store a v [0..<bytes] l) [0..<bytes] 0 = v AND mask (8 * bytes)" if "bytes = 2"
    unfolding that u using bytes_of_u32(1) [of v] by (simp add: latch_load_def latch_store_def latch_byte del: push_bit_and)
  show "latch_load a (latch_store a v [0..<bytes] l) [0..<bytes] 0 = v AND mask (8 * bytes)" if "bytes = 4"
    unfolding that u using bytes_of_u32 [of v] m by (simp add: latch_load_def latch_store_def latch_byte del: push_bit_and)
qed

text \<open>
  A wide access wholly inside a bank of eight-bit latches is a round trip: with a provider that
  stores each written byte under its port and reads it back, writing a 16- or 32-bit value and
  reading it at the same width gives the value, byte by byte, and touches the latches of those ports
  only.
\<close>

theorem port_lanes_roundtrip:
  fixes io :: "('p, 'o, lib_u16 \<Rightarrow> lib_u8) port_io"
  assumes store: "\<And>p v l. io_write io wp owner p 1 v l = (LIB_STATUS_OK, l(p := ucast v))"
    and load: "\<And>p tick v l. io_read io rp owner p tick v l = (LIB_STATUS_OK, ucast (l p), l)"
    and rd: "x86_core_machine_port_find_provider port a False = Some er"
      "pe_read_provider er = Some rp" "pe_owner er = owner"
    and wr: "x86_core_machine_port_find_provider port a True = Some ew"
      "pe_write_provider ew = Some wp" "pe_owner ew = owner"
    and lanes: "entry_uses_lanes er a bytes" "entry_uses_lanes ew a bytes"
    and width: "bytes = 2 \<or> bytes = 4"
    and unwired: "\<forall>e \<in> set (port_buckets port (port_bucket a)). \<not> pe_wired_or e"
    and w: "x86_core_machine_port_execute_write_width io (port\<lparr>port_ioDWord := v\<rparr>) a bytes l = (s1, port1, l1)"
    and r: "x86_core_machine_port_execute_read_width io port1 a bytes tick l1 = (s2, port2, l2)"
  shows "s1 = LIB_STATUS_OK \<and> s2 = LIB_STATUS_OK \<and> port_ioDWord port2 = v AND mask (8 * bytes) \<and>
    l2 = l1 \<and> (\<forall>p. l1 p \<noteq> l p \<longrightarrow> p \<in> (\<lambda>i. a + of_nat i) ` {..<bytes})"
proof -
  have fit: "unat a + bytes \<le> 65535" using lanes(1) unsigned_less [of "pe_byte_lane_end er", where 'a = nat]
    by (simp add: entry_uses_lanes_def)
  have wired: "wired_reads io a tick es x m = (LIB_STATUS_OK, x, m)"
    if "\<forall>e \<in> set es. \<not> pe_wired_or e" for es x m using that by (induction es) auto
  have inv: "\<not> port_width_invalid a bytes" using fit width by (auto simp: port_width_invalid_def)
  let ?p = "port\<lparr>port_ioDWord := v, port_access_bytes := bytes\<rparr>"
  have find: "x86_core_machine_port_find_provider ?p = x86_core_machine_port_find_provider port"
    by (intro ext) (simp add: x86_core_machine_port_find_provider_def)
  have wl: "write_lanes io wp owner a v [0..<bytes] l = (s1, l1)" "port1 = ?p"
    using w inv wr lanes(2) find
    by (auto simp: x86_core_machine_port_execute_write_width_def Let_def case_prod_beta
        x86_core_machine_port_execute_write_current_def)
  have ld: "read_lanes io rp owner a tick [0..<bytes] 0 l1 = (LIB_STATUS_OK, latch_load a l1 [0..<bytes] 0, l1)"
    by (rule read_lanes_latches [OF load])
  have st: "s1 = LIB_STATUS_OK" "l1 = latch_store a v [0..<bytes] l"
    using wl(1) write_lanes_latches [of io wp owner a v "[0..<bytes]" l, OF store] by simp_all
  have "s2 = LIB_STATUS_OK \<and> port_ioDWord port2 = latch_load a l1 [0..<bytes] 0 \<and> l2 = l1"
    using r inv rd lanes(1) find unwired ld
    by (auto simp: x86_core_machine_port_execute_read_width_def wl(2)
        x86_core_machine_port_execute_read_current_def read_base_def wired)
  moreover have "p \<in> (\<lambda>i. a + of_nat i) ` {..<bytes}" if "l1 p \<noteq> l p" for p
    using latch_store_other [of p a "[0..<bytes]" v l] that st(2) by (auto simp: atLeast0LessThan)
  ultimately show ?thesis using st latch_roundtrip [OF width] by auto
qed

text \<open>The bank of the example table, with an array of latches behind it.\<close>

definition latch_io :: "(nat, nat, lib_u16 \<Rightarrow> lib_u8) port_io" where
  "latch_io = \<lparr>io_read = (\<lambda>_ _ p _ _ l. (LIB_STATUS_OK, ucast (l p), l)),
     io_write = (\<lambda>_ _ p _ v l. (LIB_STATUS_OK, l(p := ucast v)))\<rparr>"

theorem port_lanes_roundtrip_witness:
  "\<exists>port1 l1 port2. x86_core_machine_port_execute_read_width latch_io port1 0x100 4 0 l1 =
     (LIB_STATUS_OK, port2, l1) \<and> port_ioDWord port2 = 0x12345678"
proof -
  obtain s1 port1 l1 where w: "x86_core_machine_port_execute_write_width latch_io
      (port_demo\<lparr>port_ioDWord := 0x12345678\<rparr>) 0x100 4 (\<lambda>_. 0) = (s1, port1, l1)" by (rule prod_cases3)
  obtain s2 port2 l2 where r: "x86_core_machine_port_execute_read_width latch_io port1 0x100 4 0 l1 =
      (s2, port2, l2)" by (rule prod_cases3)
  let ?er = "\<lparr>pe_port_id = 0x100, pe_write = False, pe_wired_or = False, pe_byte_lane_end = 0x104,
    pe_read_provider = Some 1, pe_write_provider = None, pe_owner = 7\<rparr> :: (nat, nat) entry"
  let ?ew = "\<lparr>pe_port_id = 0x100, pe_write = True, pe_wired_or = False, pe_byte_lane_end = 0x104,
    pe_read_provider = None, pe_write_provider = Some 2, pe_owner = 7\<rparr> :: (nat, nat) entry"
  have f: "x86_core_machine_port_find_provider port_demo 0x100 False = Some ?er"
    "x86_core_machine_port_find_provider port_demo 0x100 True = Some ?ew"
    "\<forall>e \<in> set (port_buckets port_demo (port_bucket 0x100)). \<not> pe_wired_or e"
    by code_simp+
  have lanes: "entry_uses_lanes ?er 0x100 4" "entry_uses_lanes ?ew 0x100 4"
    by (simp_all add: entry_uses_lanes_def)
  have "s2 = LIB_STATUS_OK \<and> port_ioDWord port2 = 0x12345678 AND mask (8 * 4) \<and> l2 = l1"
    using port_lanes_roundtrip [of latch_io 2 7 1, OF _ _ f(1) _ _ f(2) _ _ lanes _ f(3) w r]
    by (simp add: latch_io_def)
  moreover have "(0x12345678 :: lib_u32) AND mask (8 * 4) = 0x12345678"
    by (simp add: mask_eq_exp_minus_1)
  ultimately show ?thesis using r by metis
qed

end
