(* ===== verification/Pit.thy ===== *)
theory Pit
  imports Prelude
begin

unbundle bit_operations_syntax

text \<open>
  The interval timer, \<^verbatim>\<open>src/src/x86-nxvm/chips/pit825x/pit.c\<close>: three 16-bit counters in
  six modes, in the 8253 and the 8254 personality. The arrays of \<^verbatim>\<open>t_pit_data\<close> and
  \<^verbatim>\<open>t_pit_connect\<close>, all indexed by the counter number, are one record per counter. A call of
  a bound output provider is an entry of the ghost log \<open>pit_calls\<close> (counter, provider, owner,
  level), in the order of the calls; the provider and its owner are opaque handles.
\<close>

section \<open>State\<close>

datatype x86_pit_personality = X86_PIT_PERSONALITY_8254 | X86_PIT_PERSONALITY_8253

datatype t_pit_data_status_rw =
    VPIT_STATUS_RW_READY
  | VPIT_STATUS_RW_LSB
  | VPIT_STATUS_RW_MSB

type_synonym x86_pit_output_provider = nat
type_synonym pit_owner = nat

record pit_counter =
  pc_cw :: lib_u8
  pc_init :: lib_u16
  pc_count :: lib_u16
  pc_latch :: lib_u16
  pc_status_latch :: lib_u8
  pc_flagReady :: bool
  pc_flagLatch :: bool
  pc_flagStatusLatch :: bool
  pc_flagOutput :: bool
  pc_flagActive :: bool
  pc_flagPulseLow :: bool
  pc_flagLoadPending :: bool
  pc_flagTrigger :: bool
  pc_flagRestart :: bool
  pc_reload :: lib_u32
  pc_remaining :: lib_u32
  pc_phase :: lib_u32
  pc_flagRead :: t_pit_data_status_rw
  pc_flagWrite :: t_pit_data_status_rw
  pc_flagGate :: bool
  pc_output :: "x86_pit_output_provider ptr"
  pc_output_owner :: pit_owner

record x86_pit =
  pit_personality :: x86_pit_personality
  pit_counters :: "nat \<Rightarrow> pit_counter"
  pit_calls :: "(nat \<times> x86_pit_output_provider \<times> pit_owner \<times> bool) list"

text \<open>\<^verbatim>\<open>lib_memory_set(&pit->data, 0)\<close> on the counter's share of \<^verbatim>\<open>t_pit_data\<close>.\<close>

definition pit_clear_data :: "pit_counter \<Rightarrow> pit_counter" where
  "pit_clear_data c = c\<lparr>pc_cw := 0, pc_init := 0, pc_count := 0, pc_latch := 0,
     pc_status_latch := 0, pc_flagReady := False, pc_flagLatch := False,
     pc_flagStatusLatch := False, pc_flagOutput := False, pc_flagActive := False,
     pc_flagPulseLow := False, pc_flagLoadPending := False, pc_flagTrigger := False,
     pc_flagRestart := False, pc_reload := 0, pc_remaining := 0, pc_phase := 0,
     pc_flagRead := VPIT_STATUS_RW_READY, pc_flagWrite := VPIT_STATUS_RW_READY\<rparr>"

definition zero_counter :: pit_counter where
  "zero_counter = \<lparr>pc_cw = 0, pc_init = 0, pc_count = 0, pc_latch = 0, pc_status_latch = 0,
     pc_flagReady = False, pc_flagLatch = False, pc_flagStatusLatch = False,
     pc_flagOutput = False, pc_flagActive = False, pc_flagPulseLow = False,
     pc_flagLoadPending = False, pc_flagTrigger = False, pc_flagRestart = False,
     pc_reload = 0, pc_remaining = 0, pc_phase = 0, pc_flagRead = VPIT_STATUS_RW_READY,
     pc_flagWrite = VPIT_STATUS_RW_READY, pc_flagGate = False, pc_output = None,
     pc_output_owner = 0\<rparr>"

text \<open>Access to counter \<open>k\<close>, and an assignment to fields of it.\<close>

abbreviation ctr :: "x86_pit \<Rightarrow> nat \<Rightarrow> pit_counter" where
  "ctr pit k \<equiv> pit_counters pit k"

definition set_ctr :: "nat \<Rightarrow> (pit_counter \<Rightarrow> pit_counter) \<Rightarrow> x86_pit \<Rightarrow> x86_pit" where
  "set_ctr k f pit = pit\<lparr>pit_counters := (pit_counters pit)(k := f (pit_counters pit k))\<rparr>"

section \<open>Register fields\<close>

definition VPIT_GetCW_SC :: "lib_u8 \<Rightarrow> lib_u8" where
  "VPIT_GetCW_SC cw = drop_bit 6 (cw AND 0xc0)"

definition VPIT_GetCW_RW :: "lib_u8 \<Rightarrow> lib_u8" where
  "VPIT_GetCW_RW cw = drop_bit 4 (cw AND 0x30)"

definition VPIT_GetCW_M :: "lib_u8 \<Rightarrow> lib_u8" where
  "VPIT_GetCW_M cw = drop_bit 1 (cw AND 0x0e)"

definition VPIT_RB_CNT :: "nat \<Rightarrow> lib_u8" where
  "VPIT_RB_CNT k = push_bit (k + 1) 1"

definition x86_pit_mode :: "x86_pit \<Rightarrow> nat \<Rightarrow> lib_u8" where
  "x86_pit_mode pit k =
     (let mode = VPIT_GetCW_M (pc_cw (ctr pit k))
      in if mode = 6 then 2 else if mode = 7 then 3 else mode)"

definition pit_bcd :: "x86_pit \<Rightarrow> nat \<Rightarrow> bool" where
  "pit_bcd pit k \<longleftrightarrow> pc_cw (ctr pit k) AND 0x01 \<noteq> 0"

definition x86_pit_bcd_decode :: "lib_u16 \<Rightarrow> lib_u32" where
  "x86_pit_bcd_decode value =
     ucast (value AND 0x000f) +
     ucast (drop_bit 4 value AND 0x000f) * 10 +
     ucast (drop_bit 8 value AND 0x000f) * 100 +
     ucast (drop_bit 12 value AND 0x000f) * 1000"

definition x86_pit_bcd_encode :: "lib_u32 \<Rightarrow> lib_u16" where
  "x86_pit_bcd_encode value =
     (let result = 0;
          result = result OR ucast (value mod 10);
          value = value div 10;
          result = result OR ucast (push_bit 4 (value mod 10));
          value = value div 10;
          result = result OR ucast (push_bit 8 (value mod 10));
          value = value div 10;
          result = result OR ucast (push_bit 12 (value mod 10))
      in result)"

definition x86_pit_decode_reload :: "x86_pit \<Rightarrow> nat \<Rightarrow> lib_u32" where
  "x86_pit_decode_reload pit k =
     (if pit_bcd pit k then
        let result = x86_pit_bcd_decode (pc_init (ctr pit k))
        in if result = 0 then 10000 else result
      else if pc_init (ctr pit k) = 0 then 65536 else ucast (pc_init (ctr pit k)))"

definition x86_pit_encode_count :: "x86_pit \<Rightarrow> nat \<Rightarrow> lib_u32 \<Rightarrow> lib_u16" where
  "x86_pit_encode_count pit k count =
     (if pit_bcd pit k then if count = 10000 then 0 else x86_pit_bcd_encode count
      else if count = 65536 then 0 else ucast count)"

section \<open>The counting element\<close>

definition x86_pit_sync_count :: "nat \<Rightarrow> x86_pit \<Rightarrow> x86_pit" where
  "x86_pit_sync_count k pit =
     set_ctr k (pc_count_update (\<lambda>_. x86_pit_encode_count pit k (pc_remaining (ctr pit k)))) pit"

definition x86_pit_decrement_count :: "nat \<Rightarrow> x86_pit \<Rightarrow> x86_pit" where
  "x86_pit_decrement_count k pit =
     (let pit = (if pc_remaining (ctr pit k) = 0
                 then set_ctr k (pc_remaining_update
                   (\<lambda>_. if pit_bcd pit k then 10000 else 65536)) pit
                 else pit);
          pit = set_ctr k (pc_remaining_update (\<lambda>r. r - 1)) pit
      in x86_pit_sync_count k pit)"

definition x86_pit_set_output_level :: "nat \<Rightarrow> bool \<Rightarrow> x86_pit \<Rightarrow> x86_pit" where
  "x86_pit_set_output_level k asserted pit =
     (if pc_flagOutput (ctr pit k) = asserted then pit
      else
        let pit = set_ctr k (pc_flagOutput_update (\<lambda>_. asserted)) pit
        in case pc_output (ctr pit k) of
             None \<Rightarrow> pit
           | Some provider \<Rightarrow>
               pit\<lparr>pit_calls := pit_calls pit @
                 [(k, provider, pc_output_owner (ctr pit k), asserted)]\<rparr>)"

definition x86_pit_mode3_high_length :: "x86_pit \<Rightarrow> nat \<Rightarrow> lib_u32" where
  "x86_pit_mode3_high_length pit k = (pc_reload (ctr pit k) + 1) div 2"

definition x86_pit_mode3_low_length :: "x86_pit \<Rightarrow> nat \<Rightarrow> lib_u32" where
  "x86_pit_mode3_low_length pit k = pc_reload (ctr pit k) div 2"

definition x86_pit_mode3_count :: "x86_pit \<Rightarrow> nat \<Rightarrow> lib_u32" where
  "x86_pit_mode3_count pit k =
     pc_reload (ctr pit k) -
       (if pit_personality pit = X86_PIT_PERSONALITY_8254 then pc_reload (ctr pit k) AND 1 else 0)"

definition x86_pit_load :: "nat \<Rightarrow> x86_pit \<Rightarrow> x86_pit" where
  "x86_pit_load k pit =
     (let mode = x86_pit_mode pit k;
          pit = set_ctr k (pc_reload_update (\<lambda>_. x86_pit_decode_reload pit k)) pit;
          pit = set_ctr k (\<lambda>c. c\<lparr>
            pc_remaining := if mode = 3 then x86_pit_mode3_count pit k else pc_reload c,
            pc_phase := if mode = 3 then x86_pit_mode3_high_length pit k else 0,
            pc_flagReady := True, pc_flagLoadPending := False, pc_flagRestart := False,
            pc_flagActive := (mode \<noteq> 1 \<and> mode \<noteq> 5), pc_flagPulseLow := False\<rparr>) pit
      in x86_pit_sync_count k pit)"

definition x86_pit_read_start :: "x86_pit \<Rightarrow> nat \<Rightarrow> t_pit_data_status_rw" where
  "x86_pit_read_start pit k =
     (if VPIT_GetCW_RW (pc_cw (ctr pit k)) = 0x02 then VPIT_STATUS_RW_MSB else VPIT_STATUS_RW_LSB)"

definition x86_pit_capture_status :: "x86_pit \<Rightarrow> nat \<Rightarrow> lib_u8" where
  "x86_pit_capture_status pit k =
     (let status = pc_cw (ctr pit k) AND (0x01 OR 0x0e OR 0x30);
          status = (if pc_flagOutput (ctr pit k) then status OR 0x80 else status);
          status = (if \<not> pc_flagReady (ctr pit k) then status OR 0x40 else status)
      in status)"

definition x86_pit_latch_count :: "nat \<Rightarrow> x86_pit \<Rightarrow> x86_pit" where
  "x86_pit_latch_count k pit =
     (if pc_flagLatch (ctr pit k) then pit
      else
        let pit = x86_pit_sync_count k pit
        in set_ctr k (\<lambda>c. c\<lparr>pc_latch := pc_count c, pc_flagLatch := True,
             pc_flagRead := x86_pit_read_start pit k\<rparr>) pit)"

definition x86_pit_latch_status :: "nat \<Rightarrow> x86_pit \<Rightarrow> x86_pit" where
  "x86_pit_latch_status k pit =
     (if pc_flagStatusLatch (ctr pit k) then pit
      else set_ctr k (\<lambda>c. c\<lparr>pc_status_latch := x86_pit_capture_status pit k,
             pc_flagStatusLatch := True\<rparr>) pit)"

section \<open>Register access\<close>

fun x86_pit_read_counter ::
  "x86_pit ptr \<Rightarrow> nat \<Rightarrow> lib_u8 ptr \<Rightarrow> lib_status \<times> x86_pit ptr \<times> lib_u8 ptr" where
  "x86_pit_read_counter (Some pit) k (Some inout_value) =
     (if k \<ge> 3 then (LIB_STATUS_INVALID_ARGUMENT, Some pit, Some inout_value)
      else if pc_flagStatusLatch (ctr pit k) then
        (LIB_STATUS_OK, Some (set_ctr k (pc_flagStatusLatch_update (\<lambda>_. False)) pit),
         Some (pc_status_latch (ctr pit k)))
      else
        let (value, pit) =
              (if pc_flagLatch (ctr pit k) then (pc_latch (ctr pit k), pit)
               else let pit = x86_pit_sync_count k pit in (pc_count (ctr pit k), pit));
            rw = VPIT_GetCW_RW (pc_cw (ctr pit k));
            finish = set_ctr k (\<lambda>c. c\<lparr>pc_flagRead := VPIT_STATUS_RW_READY,
                       pc_flagLatch := False\<rparr>) pit
        in if rw = 0x01 then (LIB_STATUS_OK, Some finish, Some (ucast value))
           else if rw = 0x02 then (LIB_STATUS_OK, Some finish, Some (ucast (drop_bit 8 value)))
           else if rw = 0x03 then
             if pc_flagRead (ctr pit k) = VPIT_STATUS_RW_MSB
             then (LIB_STATUS_OK, Some finish, Some (ucast (drop_bit 8 value)))
             else (LIB_STATUS_OK,
                   Some (set_ctr k (pc_flagRead_update (\<lambda>_. VPIT_STATUS_RW_MSB)) pit),
                   Some (ucast value))
           else (LIB_STATUS_OK, Some (set_ctr k (pc_flagLatch_update (\<lambda>_. False)) pit),
                 Some inout_value))"
| "x86_pit_read_counter pit k inout_value = (LIB_STATUS_INVALID_ARGUMENT, pit, inout_value)"

text \<open>The tail of \<^verbatim>\<open>x86_pit_write_counter\<close>: the count register is complete.\<close>

definition pit_write_complete :: "nat \<Rightarrow> x86_pit \<Rightarrow> x86_pit" where
  "pit_write_complete k pit =
     (let pit = set_ctr k (\<lambda>c. c\<lparr>pc_flagWrite := VPIT_STATUS_RW_READY, pc_flagReady := False,
            pc_flagLoadPending := True\<rparr>) pit
      in if x86_pit_mode pit k = 0
         then x86_pit_set_output_level k False
           (set_ctr k (\<lambda>c. c\<lparr>pc_flagActive := False, pc_flagPulseLow := False\<rparr>) pit)
         else pit)"

definition x86_pit_write_counter :: "nat \<Rightarrow> lib_u8 \<Rightarrow> x86_pit \<Rightarrow> x86_pit" where
  "x86_pit_write_counter k value pit =
     (let rw = VPIT_GetCW_RW (pc_cw (ctr pit k))
      in if rw = 0x01 then
           pit_write_complete k (set_ctr k (pc_init_update (\<lambda>_. ucast value)) pit)
         else if rw = 0x02 then
           pit_write_complete k (set_ctr k (pc_init_update (\<lambda>_. push_bit 8 (ucast value))) pit)
         else if rw = 0x03 then
           if pc_flagWrite (ctr pit k) = VPIT_STATUS_RW_MSB then
             pit_write_complete k (set_ctr k (pc_init_update
               (\<lambda>i. push_bit 8 (ucast value) OR ucast (ucast i :: lib_u8))) pit)
           else
             let pit = set_ctr k (\<lambda>c. c\<lparr>pc_init := ucast value,
                   pc_flagWrite := VPIT_STATUS_RW_MSB\<rparr>) pit
             in if x86_pit_mode pit k = 0
                then x86_pit_set_output_level k False
                  (set_ctr k (\<lambda>c. c\<lparr>pc_flagReady := False, pc_flagActive := False,
                     pc_flagPulseLow := False\<rparr>) pit)
                else pit
         else pit)"

section \<open>One clock of each mode\<close>

definition x86_pit_commit_pending :: "nat \<Rightarrow> x86_pit \<Rightarrow> x86_pit" where
  "x86_pit_commit_pending k pit = x86_pit_load k pit"

definition x86_pit_tick_mode0 :: "nat \<Rightarrow> x86_pit \<Rightarrow> x86_pit" where
  "x86_pit_tick_mode0 k pit =
     (if pc_flagLoadPending (ctr pit k) then x86_pit_commit_pending k pit
      else if \<not> pc_flagActive (ctr pit k) \<or> \<not> pc_flagGate (ctr pit k) then pit
      else
        let pit = set_ctr k (pc_remaining_update (\<lambda>r. r - 1)) pit;
            pit = (if pc_remaining (ctr pit k) = 0
                   then x86_pit_set_output_level k True
                     (set_ctr k (pc_flagActive_update (\<lambda>_. False)) pit)
                   else pit)
        in x86_pit_sync_count k pit)"

definition x86_pit_tick_mode1 :: "nat \<Rightarrow> x86_pit \<Rightarrow> x86_pit" where
  "x86_pit_tick_mode1 k pit =
     (if pc_flagTrigger (ctr pit k) then
        let pit = set_ctr k (pc_flagTrigger_update (\<lambda>_. False)) pit;
            pit = (if pc_flagLoadPending (ctr pit k) then x86_pit_commit_pending k pit
                   else set_ctr k (\<lambda>c. c\<lparr>pc_remaining := pc_reload c\<rparr>) pit);
            pit = set_ctr k (pc_flagPulseLow_update (\<lambda>_. False)) pit;
            pit = x86_pit_sync_count k pit;
            pit = set_ctr k (pc_flagActive_update (\<lambda>_. True)) pit
        in x86_pit_set_output_level k False pit
      else if \<not> pc_flagActive (ctr pit k) then pit
      else
        let pit = set_ctr k (pc_remaining_update (\<lambda>r. r - 1)) pit;
            pit = (if pc_remaining (ctr pit k) = 0
                   then x86_pit_set_output_level k True
                     (set_ctr k (pc_flagActive_update (\<lambda>_. False)) pit)
                   else pit)
        in x86_pit_sync_count k pit)"

definition x86_pit_tick_mode2 :: "nat \<Rightarrow> x86_pit \<Rightarrow> x86_pit" where
  "x86_pit_tick_mode2 k pit =
     (let terminal = (if pit_personality pit = X86_PIT_PERSONALITY_8253 then 0 else 1)
      in if pc_flagRestart (ctr pit k) then x86_pit_commit_pending k pit
         else if pc_flagLoadPending (ctr pit k) \<and> \<not> pc_flagActive (ctr pit k)
         then x86_pit_commit_pending k pit
         else if \<not> pc_flagActive (ctr pit k) \<or> \<not> pc_flagGate (ctr pit k) then pit
         else if pc_flagPulseLow (ctr pit k) then
           let pit = set_ctr k (pc_flagPulseLow_update (\<lambda>_. False)) pit;
               pit = (if pc_flagLoadPending (ctr pit k) then x86_pit_commit_pending k pit
                      else set_ctr k (\<lambda>c. c\<lparr>pc_remaining := pc_reload c\<rparr>) pit);
               pit = (if terminal = 0 then set_ctr k (pc_remaining_update (\<lambda>r. r - 1)) pit
                      else pit);
               pit = x86_pit_set_output_level k True pit
           in x86_pit_sync_count k pit
         else if pc_remaining (ctr pit k) \<le> terminal + 1 then
           let pit = set_ctr k (\<lambda>c. c\<lparr>pc_remaining := terminal, pc_flagPulseLow := True\<rparr>) pit;
               pit = x86_pit_set_output_level k False pit
           in x86_pit_sync_count k pit
         else x86_pit_sync_count k (set_ctr k (pc_remaining_update (\<lambda>r. r - 1)) pit))"

text \<open>Mode 3 in two parts: the count of one clock, and the end of a half period.\<close>

definition pit_mode3_count_down :: "nat \<Rightarrow> x86_pit \<Rightarrow> x86_pit" where
  "pit_mode3_count_down k pit =
     (let decrement =
            (if pit_personality pit = X86_PIT_PERSONALITY_8253 \<and>
                pc_reload (ctr pit k) AND 1 \<noteq> 0 \<and>
                pc_phase (ctr pit k) =
                  (if pc_flagOutput (ctr pit k) then x86_pit_mode3_high_length pit k
                   else x86_pit_mode3_low_length pit k)
             then (if pc_flagOutput (ctr pit k) then 1 else 3) else 2);
          pit = (if pc_remaining (ctr pit k) > decrement
                 then set_ctr k (pc_remaining_update (\<lambda>r. r - decrement)) pit
                 else set_ctr k (pc_remaining_update (\<lambda>_. 0)) pit)
      in set_ctr k (pc_phase_update (\<lambda>p. p - 1)) pit)"

definition pit_mode3_turn :: "nat \<Rightarrow> x86_pit \<Rightarrow> x86_pit" where
  "pit_mode3_turn k pit =
     (let was_output = pc_flagOutput (ctr pit k);
          pit = (if pc_flagLoadPending (ctr pit k) then x86_pit_commit_pending k pit else pit);
          pit = set_ctr k (pc_remaining_update (\<lambda>_. x86_pit_mode3_count pit k)) pit
      in if was_output then
           let pit = set_ctr k (pc_phase_update (\<lambda>_. x86_pit_mode3_low_length pit k)) pit
           in if pc_phase (ctr pit k) = 0
              then set_ctr k (pc_phase_update (\<lambda>_. x86_pit_mode3_high_length pit k)) pit
              else x86_pit_set_output_level k False pit
         else x86_pit_set_output_level k True
           (set_ctr k (pc_phase_update (\<lambda>_. x86_pit_mode3_high_length pit k)) pit))"

definition x86_pit_tick_mode3 :: "nat \<Rightarrow> x86_pit \<Rightarrow> x86_pit" where
  "x86_pit_tick_mode3 k pit =
     (if pc_flagRestart (ctr pit k) then x86_pit_commit_pending k pit
      else if pc_flagLoadPending (ctr pit k) \<and> \<not> pc_flagActive (ctr pit k)
      then x86_pit_commit_pending k pit
      else if \<not> pc_flagActive (ctr pit k) \<or> \<not> pc_flagGate (ctr pit k) then pit
      else
        let pit = pit_mode3_count_down k pit;
            pit = (if pc_phase (ctr pit k) = 0 then pit_mode3_turn k pit else pit)
        in x86_pit_sync_count k pit)"

definition x86_pit_tick_mode4_or_5 :: "nat \<Rightarrow> x86_pit \<Rightarrow> x86_pit" where
  "x86_pit_tick_mode4_or_5 k pit =
     (if x86_pit_mode pit k = 4 \<and> pc_flagLoadPending (ctr pit k)
      then x86_pit_commit_pending k (x86_pit_set_output_level k True pit)
      else if x86_pit_mode pit k = 5 \<and> pc_flagTrigger (ctr pit k) then
        let pit = set_ctr k (pc_flagTrigger_update (\<lambda>_. False)) pit;
            pit = (if pc_flagLoadPending (ctr pit k) then x86_pit_commit_pending k pit
                   else x86_pit_sync_count k (set_ctr k (\<lambda>c. c\<lparr>pc_remaining := pc_reload c,
                     pc_flagPulseLow := False\<rparr>) pit));
            pit = set_ctr k (pc_flagActive_update (\<lambda>_. True)) pit
        in x86_pit_set_output_level k True pit
      else if \<not> pc_flagActive (ctr pit k) then pit
      else if x86_pit_mode pit k = 4 \<and> \<not> pc_flagGate (ctr pit k) \<and>
        \<not> pc_flagPulseLow (ctr pit k) then pit
      else if pc_flagPulseLow (ctr pit k) then
        let pit = (if pc_flagGate (ctr pit k) \<or> x86_pit_mode pit k = 5
                   then x86_pit_decrement_count k pit else pit);
            pit = set_ctr k (\<lambda>c. c\<lparr>pc_flagPulseLow := False, pc_flagActive := False\<rparr>) pit;
            pit = x86_pit_set_output_level k True pit
        in x86_pit_sync_count k pit
      else
        let pit = set_ctr k (pc_remaining_update (\<lambda>r. r - 1)) pit;
            pit = (if pc_remaining (ctr pit k) = 0
                   then x86_pit_set_output_level k False
                     (set_ctr k (pc_flagPulseLow_update (\<lambda>_. True)) pit)
                   else pit)
        in x86_pit_sync_count k pit)"

definition x86_pit_tick :: "nat \<Rightarrow> x86_pit \<Rightarrow> x86_pit" where
  "x86_pit_tick k pit =
     (let mode = x86_pit_mode pit k
      in if \<not> pc_flagReady (ctr pit k) \<and> \<not> pc_flagLoadPending (ctr pit k) \<and>
            \<not> pc_flagTrigger (ctr pit k) then pit
         else if \<not> pc_flagActive (ctr pit k) \<and> pc_reload (ctr pit k) \<noteq> 0 \<and>
            \<not> pc_flagTrigger (ctr pit k) \<and> \<not> pc_flagRestart (ctr pit k) \<and>
            (mode = 1 \<or> mode = 5 \<or>
             ((mode = 0 \<or> mode = 4) \<and> \<not> pc_flagLoadPending (ctr pit k))) \<and>
            (pc_flagGate (ctr pit k) \<or> mode = 1 \<or> mode = 5)
         then x86_pit_decrement_count k pit
         else if mode = 0 then x86_pit_tick_mode0 k pit
         else if mode = 1 then x86_pit_tick_mode1 k pit
         else if mode = 2 then x86_pit_tick_mode2 k pit
         else if mode = 3 then x86_pit_tick_mode3 k pit
         else if mode = 4 \<or> mode = 5 then x86_pit_tick_mode4_or_5 k pit
         else pit)"

section \<open>Control word, gates and the public operations\<close>

definition pit_read_back :: "lib_u8 \<Rightarrow> nat \<Rightarrow> x86_pit \<Rightarrow> x86_pit" where
  "pit_read_back value selected pit =
     (if value AND VPIT_RB_CNT selected \<noteq> 0 then pit
      else
        let pit = (if value AND 0x20 = 0 then x86_pit_latch_count selected pit else pit)
        in if value AND 0x10 = 0 then x86_pit_latch_status selected pit else pit)"

definition x86_pit_write_control :: "lib_u8 \<Rightarrow> x86_pit \<Rightarrow> x86_pit" where
  "x86_pit_write_control value pit =
     (let k = unat (VPIT_GetCW_SC value)
      in if k = 3 then
           if pit_personality pit \<noteq> X86_PIT_PERSONALITY_8254 then pit
           else fold (pit_read_back value) [0..<3] pit
         else if VPIT_GetCW_RW value = 0 then x86_pit_latch_count k pit
         else
           let pit = set_ctr k (\<lambda>c. c\<lparr>pc_flagLatch := False, pc_flagStatusLatch := False,
                 pc_cw := value, pc_flagReady := False, pc_flagLoadPending := False,
                 pc_flagTrigger := False, pc_flagRestart := False, pc_flagActive := False,
                 pc_flagPulseLow := False, pc_remaining := 0, pc_reload := 0, pc_phase := 0,
                 pc_count := 0,
                 pc_flagRead := if VPIT_GetCW_RW value = 2 then VPIT_STATUS_RW_MSB
                   else VPIT_STATUS_RW_LSB,
                 pc_flagWrite := if VPIT_GetCW_RW value = 2 then VPIT_STATUS_RW_MSB
                   else VPIT_STATUS_RW_LSB\<rparr>) pit
           in x86_pit_set_output_level k (x86_pit_mode pit k \<noteq> 0) pit)"

fun x86_pit_set_output ::
  "x86_pit ptr \<Rightarrow> nat \<Rightarrow> x86_pit_output_provider ptr \<Rightarrow> pit_owner \<Rightarrow> x86_pit ptr" where
  "x86_pit_set_output None k provider owner = None"
| "x86_pit_set_output (Some pit) k provider owner =
     (if k \<ge> 3 then Some pit
      else Some (set_ctr k (\<lambda>c. c\<lparr>pc_output := provider, pc_output_owner := owner\<rparr>) pit))"

fun x86_pit_set_gate :: "x86_pit ptr \<Rightarrow> nat \<Rightarrow> bool \<Rightarrow> x86_pit ptr" where
  "x86_pit_set_gate None k asserted = None"
| "x86_pit_set_gate (Some pit) k asserted =
     (if k \<ge> 3 then Some pit
      else if pc_flagGate (ctr pit k) = asserted then Some pit
      else
        let pit = set_ctr k (pc_flagGate_update (\<lambda>_. asserted)) pit;
            mode = x86_pit_mode pit k
        in if \<not> asserted then
             if mode = 2 \<or> mode = 3
             then Some (x86_pit_set_output_level k True
               (set_ctr k (pc_flagPulseLow_update (\<lambda>_. False)) pit))
             else Some pit
           else if mode = 1 \<or> mode = 5 then
             if \<not> pc_flagReady (ctr pit k) \<and> \<not> pc_flagLoadPending (ctr pit k) then Some pit
             else Some (set_ctr k (pc_flagTrigger_update (\<lambda>_. True)) pit)
           else if mode = 2 \<or> mode = 3 then
             if pc_flagReady (ctr pit k) \<or> pc_flagLoadPending (ctr pit k)
             then Some (set_ctr k (pc_flagRestart_update (\<lambda>_. True)) pit)
             else Some pit
           else Some pit)"

fun x86_pit_get_output :: "x86_pit ptr \<Rightarrow> nat \<Rightarrow> bool" where
  "x86_pit_get_output None k = False"
| "x86_pit_get_output (Some pit) k = (if k < 3 then pc_flagOutput (ctr pit k) else False)"

fun x86_pit_ticks_until_output ::
  "x86_pit ptr \<Rightarrow> nat \<Rightarrow> lib_u64 ptr \<Rightarrow> lib_status \<times> lib_u64 ptr" where
  "x86_pit_ticks_until_output (Some pit) k (Some out_ticks) =
     (if k \<ge> 3 then (LIB_STATUS_INVALID_ARGUMENT, Some out_ticks)
      else
        let mode = x86_pit_mode pit k; c = ctr pit k
        in if pc_flagRestart c \<or> pc_flagTrigger c \<or>
              (pc_flagLoadPending c \<and>
               (mode = 0 \<or> mode = 4 \<or> ((mode = 2 \<or> mode = 3) \<and> \<not> pc_flagActive c)))
           then (LIB_STATUS_OK, Some 1)
           else if \<not> pc_flagActive c \<or>
              (\<not> pc_flagGate c \<and> mode \<noteq> 1 \<and> mode \<noteq> 5 \<and> \<not> (mode = 4 \<and> pc_flagPulseLow c))
           then (LIB_STATUS_INVALID_STATE, Some out_ticks)
           else if mode > 5 then (LIB_STATUS_INVALID_STATE, Some out_ticks)
           else
             let ticks =
                   (if mode = 0 \<or> mode = 1 then ucast (pc_remaining c)
                    else if mode = 2 then
                      if pc_flagPulseLow c \<or> pc_remaining c \<le> 1 then 1
                      else ucast (pc_remaining c -
                        (if pit_personality pit = X86_PIT_PERSONALITY_8253 then 0 else 1))
                    else if mode = 3 then ucast (pc_phase c)
                    else if pc_flagPulseLow c then 1 else ucast (pc_remaining c) :: lib_u64)
             in (if ticks = 0 then LIB_STATUS_INVALID_STATE else LIB_STATUS_OK, Some ticks))"
| "x86_pit_ticks_until_output pit k out_ticks = (LIB_STATUS_INVALID_ARGUMENT, out_ticks)"

fun x86_pit_write_register :: "x86_pit ptr \<Rightarrow> nat \<Rightarrow> lib_u8 \<Rightarrow> lib_status \<times> x86_pit ptr" where
  "x86_pit_write_register None selector value = (LIB_STATUS_INVALID_ARGUMENT, None)"
| "x86_pit_write_register (Some pit) selector value =
     (if selector \<ge> 4 then (LIB_STATUS_INVALID_ARGUMENT, Some pit)
      else if selector = 3 then (LIB_STATUS_OK, Some (x86_pit_write_control value pit))
      else (LIB_STATUS_OK, Some (x86_pit_write_counter selector value pit)))"

text \<open>
  \<^verbatim>\<open>x86_pit_create\<close>: the enumeration argument is a C integer (\<open>None\<close> stands for a value
  that names no personality); \<open>allocated\<close> says whether the allocation succeeds.
\<close>

fun x86_pit_create ::
  "x86_pit_personality option \<Rightarrow> bool \<Rightarrow> x86_pit ptr ptr \<Rightarrow> lib_status \<times> x86_pit ptr ptr" where
  "x86_pit_create personality allocated None = (LIB_STATUS_INVALID_ARGUMENT, None)"
| "x86_pit_create None allocated (Some out_pit) = (LIB_STATUS_INVALID_ARGUMENT, Some None)"
| "x86_pit_create (Some personality) allocated (Some out_pit) =
     (if \<not> allocated then (LIB_STATUS_NO_MEMORY, Some None)
      else (LIB_STATUS_OK, Some (Some \<lparr>pit_personality = personality,
              pit_counters = (\<lambda>_. zero_counter), pit_calls = []\<rparr>)))"

text \<open>Dropping a live output, the loop \<^verbatim>\<open>x86_pit_reset\<close> and \<^verbatim>\<open>x86_pit_destroy\<close> share.\<close>

definition pit_drop_output :: "nat \<Rightarrow> x86_pit \<Rightarrow> x86_pit" where
  "pit_drop_output k pit =
     (if pc_flagOutput (ctr pit k) \<and> pc_output (ctr pit k) \<noteq> None
      then pit\<lparr>pit_calls := pit_calls pit @
             [(k, the (pc_output (ctr pit k)), pc_output_owner (ctr pit k), False)]\<rparr>
      else pit)"

fun x86_pit_reset :: "x86_pit ptr \<Rightarrow> x86_pit ptr" where
  "x86_pit_reset None = None"
| "x86_pit_reset (Some pit) =
     (let pit = fold pit_drop_output [0..<3] pit;
          pit = pit\<lparr>pit_counters := (\<lambda>k. pit_clear_data (pit_counters pit k))\<rparr>
      in Some (fold (\<lambda>k. set_ctr k (\<lambda>c. c\<lparr>pc_flagReady := True,
           pc_flagRead := VPIT_STATUS_RW_READY, pc_flagWrite := VPIT_STATUS_RW_READY,
           pc_flagGate := True\<rparr>)) [0..<3] pit))"

text \<open>One round of the clock: every counter in turn.\<close>

definition pit_clock :: "x86_pit \<Rightarrow> x86_pit" where
  "pit_clock pit = fold x86_pit_tick [0..<3] pit"

fun x86_pit_advance :: "x86_pit ptr \<Rightarrow> lib_u64 \<Rightarrow> x86_pit ptr" where
  "x86_pit_advance None elapsed_ticks = None"
| "x86_pit_advance (Some pit) elapsed_ticks = Some ((pit_clock ^^ unat elapsed_ticks) pit)"

text \<open>\<^verbatim>\<open>x86_pit_destroy\<close> returns the calls made before the object is released.\<close>

fun x86_pit_destroy ::
  "x86_pit ptr \<Rightarrow> (nat \<times> x86_pit_output_provider \<times> pit_owner \<times> bool) list" where
  "x86_pit_destroy None = []"
| "x86_pit_destroy (Some pit) = pit_calls (fold pit_drop_output [0..<3] pit)"

section \<open>Counters are independent\<close>

lemma set_ctr_simps [simp]:
  "ctr (set_ctr k f pit) j = (if j = k then f (ctr pit k) else ctr pit j)"
  "pit_personality (set_ctr k f pit) = pit_personality pit"
  "pit_calls (set_ctr k f pit) = pit_calls pit"
  by (simp_all add: set_ctr_def)

lemma sync_count_simps [simp]:
  "ctr (x86_pit_sync_count k pit) j =
     (if j = k then (ctr pit k)\<lparr>pc_count := x86_pit_encode_count pit k (pc_remaining (ctr pit k))\<rparr>
      else ctr pit j)"
  "pit_personality (x86_pit_sync_count k pit) = pit_personality pit"
  "pit_calls (x86_pit_sync_count k pit) = pit_calls pit"
  by (simp_all add: x86_pit_sync_count_def)

lemma set_output_level_simps [simp]:
  "ctr (x86_pit_set_output_level k a pit) j =
     (if j = k then (ctr pit k)\<lparr>pc_flagOutput := a\<rparr> else ctr pit j)"
  "pit_personality (x86_pit_set_output_level k a pit) = pit_personality pit"
  by (auto simp: x86_pit_set_output_level_def Let_def split: option.split)

lemma mode_cong: "pc_cw (ctr p k) = pc_cw (ctr q j) \<Longrightarrow> x86_pit_mode p k = x86_pit_mode q j"
  by (simp add: x86_pit_mode_def)

lemma mode_simps [simp]:
  "x86_pit_mode (x86_pit_sync_count k pit) j = x86_pit_mode pit j"
  "x86_pit_mode (x86_pit_set_output_level k a pit) j = x86_pit_mode pit j"
  "(\<And>c. pc_cw (f c) = pc_cw c) \<Longrightarrow> x86_pit_mode (set_ctr k f pit) j = x86_pit_mode pit j"
  by (simp_all add: x86_pit_mode_def)

text \<open>The lengths and counts that depend on the effective reload only.\<close>

definition mode3_count_of :: "x86_pit_personality \<Rightarrow> lib_u32 \<Rightarrow> lib_u32" where
  "mode3_count_of personality reload =
     reload - (if personality = X86_PIT_PERSONALITY_8254 then reload AND 1 else 0)"

lemma mode3_lengths [simp]:
  "x86_pit_mode3_high_length pit k = (pc_reload (ctr pit k) + 1) div 2"
  "x86_pit_mode3_low_length pit k = pc_reload (ctr pit k) div 2"
  "x86_pit_mode3_count pit k = mode3_count_of (pit_personality pit) (pc_reload (ctr pit k))"
  by (simp_all add: x86_pit_mode3_high_length_def x86_pit_mode3_low_length_def
      x86_pit_mode3_count_def mode3_count_of_def)

definition load_counter :: "x86_pit \<Rightarrow> nat \<Rightarrow> pit_counter" where
  "load_counter pit k = ctr (x86_pit_load k pit) k"

lemma load_fields [simp]:
  "pc_cw (load_counter pit k) = pc_cw (ctr pit k)"
  "pc_init (load_counter pit k) = pc_init (ctr pit k)"
  "pc_latch (load_counter pit k) = pc_latch (ctr pit k)"
  "pc_flagLatch (load_counter pit k) = pc_flagLatch (ctr pit k)"
  "pc_status_latch (load_counter pit k) = pc_status_latch (ctr pit k)"
  "pc_flagStatusLatch (load_counter pit k) = pc_flagStatusLatch (ctr pit k)"
  "pc_flagRead (load_counter pit k) = pc_flagRead (ctr pit k)"
  "pc_flagWrite (load_counter pit k) = pc_flagWrite (ctr pit k)"
  "pc_flagOutput (load_counter pit k) = pc_flagOutput (ctr pit k)"
  "pc_flagGate (load_counter pit k) = pc_flagGate (ctr pit k)"
  "pc_output (load_counter pit k) = pc_output (ctr pit k)"
  "pc_output_owner (load_counter pit k) = pc_output_owner (ctr pit k)"
  "pc_flagTrigger (load_counter pit k) = pc_flagTrigger (ctr pit k)"
  "pc_flagReady (load_counter pit k)"
  "\<not> pc_flagLoadPending (load_counter pit k)"
  "\<not> pc_flagRestart (load_counter pit k)"
  "\<not> pc_flagPulseLow (load_counter pit k)"
  "pc_flagActive (load_counter pit k) \<longleftrightarrow> x86_pit_mode pit k \<noteq> 1 \<and> x86_pit_mode pit k \<noteq> 5"
  "pc_reload (load_counter pit k) = x86_pit_decode_reload pit k"
  "pc_remaining (load_counter pit k) =
     (if x86_pit_mode pit k = 3
      then mode3_count_of (pit_personality pit) (x86_pit_decode_reload pit k)
      else x86_pit_decode_reload pit k)"
  "pc_phase (load_counter pit k) =
     (if x86_pit_mode pit k = 3 then (x86_pit_decode_reload pit k + 1) div 2 else 0)"
  by (simp_all add: load_counter_def x86_pit_load_def Let_def)

lemma load_simps [simp]:
  "ctr (x86_pit_load k pit) j = (if j = k then load_counter pit k else ctr pit j)"
  "pit_personality (x86_pit_load k pit) = pit_personality pit"
  "pit_calls (x86_pit_load k pit) = pit_calls pit"
  by (simp_all add: load_counter_def x86_pit_load_def Let_def)

lemma load_mode [simp]: "x86_pit_mode (x86_pit_load k pit) j = x86_pit_mode pit j"
  by (rule mode_cong) simp

definition decremented :: "x86_pit \<Rightarrow> nat \<Rightarrow> lib_u32" where
  "decremented pit k =
     (if pc_remaining (ctr pit k) = 0 then if pit_bcd pit k then 9999 else 65535
      else pc_remaining (ctr pit k) - 1)"

lemma bcd_cong: "pc_cw (ctr p k) = pc_cw (ctr q j) \<Longrightarrow> pit_bcd p k = pit_bcd q j"
  by (simp add: pit_bcd_def)

lemma bcd_simps [simp]:
  "pit_bcd (x86_pit_sync_count k pit) j = pit_bcd pit j"
  "pit_bcd (x86_pit_set_output_level k a pit) j = pit_bcd pit j"
  "pit_bcd (x86_pit_load k pit) j = pit_bcd pit j"
  "(\<And>c. pc_cw (f c) = pc_cw c) \<Longrightarrow> pit_bcd (set_ctr k f pit) j = pit_bcd pit j"
  by (simp_all add: pit_bcd_def)

lemma encode_simps [simp]:
  "x86_pit_encode_count (x86_pit_sync_count k pit) j = x86_pit_encode_count pit j"
  "x86_pit_encode_count (x86_pit_set_output_level k a pit) j = x86_pit_encode_count pit j"
  "x86_pit_encode_count (x86_pit_load k pit) j = x86_pit_encode_count pit j"
  "(\<And>c. pc_cw (f c) = pc_cw c) \<Longrightarrow>
     x86_pit_encode_count (set_ctr k f pit) j = x86_pit_encode_count pit j"
  by (simp_all add: x86_pit_encode_count_def fun_eq_iff)

lemma decrement_simps [simp]:
  "ctr (x86_pit_decrement_count k pit) j =
     (if j = k then (ctr pit k)\<lparr>pc_remaining := decremented pit k,
        pc_count := x86_pit_encode_count pit k (decremented pit k)\<rparr>
      else ctr pit j)"
  "pit_personality (x86_pit_decrement_count k pit) = pit_personality pit"
  "pit_calls (x86_pit_decrement_count k pit) = pit_calls pit"
  by (simp_all add: x86_pit_decrement_count_def decremented_def Let_def)

lemmas pit_tick_defs = x86_pit_tick_def x86_pit_tick_mode0_def x86_pit_tick_mode1_def
  x86_pit_tick_mode2_def x86_pit_tick_mode3_def pit_mode3_count_down_def pit_mode3_turn_def
  x86_pit_tick_mode4_or_5_def x86_pit_commit_pending_def

text \<open>
  What no clock changes: the other counters, the personality, and of counter \<open>k\<close> itself the
  control word, the count register, the latches, the byte flip-flops, the gate and the binding.
\<close>

definition static :: "pit_counter \<Rightarrow> pit_counter" where
  "static c = c\<lparr>pc_count := 0, pc_flagReady := False, pc_flagOutput := False,
     pc_flagActive := False, pc_flagPulseLow := False, pc_flagLoadPending := False,
     pc_flagTrigger := False, pc_flagRestart := False, pc_reload := 0, pc_remaining := 0,
     pc_phase := 0\<rparr>"

definition kept :: "nat \<Rightarrow> x86_pit \<Rightarrow> x86_pit \<Rightarrow> bool" where
  "kept k p q \<longleftrightarrow> pit_personality q = pit_personality p \<and>
     (\<forall>j. static (ctr q j) = static (ctr p j) \<and> (j \<noteq> k \<longrightarrow> ctr q j = ctr p j))"

named_theorems pit_kept \<open>primitives that keep the other counters and the static fields\<close>

lemma kept_refl [pit_kept]: "kept k p p"
  by (simp add: kept_def)

lemma kept_set_ctr [pit_kept]:
  "kept k p q \<Longrightarrow> (\<And>c. static (f c) = static c) \<Longrightarrow> kept k p (set_ctr k f q)"
  by (simp add: kept_def)

lemma static_load [simp]: "static (load_counter pit k) = static (ctr pit k)"
  by (simp add: load_counter_def x86_pit_load_def x86_pit_sync_count_def Let_def static_def)

lemma kept_sync [pit_kept]: "kept k p q \<Longrightarrow> kept k p (x86_pit_sync_count k q)"
  by (auto simp: kept_def static_def)

lemma kept_output [pit_kept]: "kept k p q \<Longrightarrow> kept k p (x86_pit_set_output_level k a q)"
  by (auto simp: kept_def static_def)

lemma kept_load [pit_kept]: "kept k p q \<Longrightarrow> kept k p (x86_pit_load k q)"
  by (auto simp: kept_def)

lemma kept_decrement [pit_kept]: "kept k p q \<Longrightarrow> kept k p (x86_pit_decrement_count k q)"
  by (auto simp: kept_def static_def)

lemma kept_if [pit_kept]: "kept k p x \<Longrightarrow> kept k p y \<Longrightarrow> kept k p (if b then x else y)"
  by simp

lemma kept_let [pit_kept]:
  fixes F :: "x86_pit \<Rightarrow> x86_pit"
  shows "kept k p a \<Longrightarrow> (\<And>x. kept k p x \<Longrightarrow> kept k p (F x)) \<Longrightarrow> kept k p (Let a F)"
  by simp

lemma kept_let_value [pit_kept]:
  fixes F :: "lib_u8 \<Rightarrow> x86_pit" and G :: "lib_u32 \<Rightarrow> x86_pit" and H :: "bool \<Rightarrow> x86_pit"
  shows "(\<And>x. kept k p (F x)) \<Longrightarrow> kept k p (Let m F)"
    "(\<And>x. kept k p (G x)) \<Longrightarrow> kept k p (Let n G)"
    "(\<And>x. kept k p (H x)) \<Longrightarrow> kept k p (Let b H)"
  by simp_all

lemma static_updates [simp]:
  "static (c\<lparr>pc_count := v\<rparr>) = static c" "static (c\<lparr>pc_flagReady := b\<rparr>) = static c"
  "static (c\<lparr>pc_flagOutput := b\<rparr>) = static c" "static (c\<lparr>pc_flagActive := b\<rparr>) = static c"
  "static (c\<lparr>pc_flagPulseLow := b\<rparr>) = static c" "static (c\<lparr>pc_flagLoadPending := b\<rparr>) = static c"
  "static (c\<lparr>pc_flagTrigger := b\<rparr>) = static c" "static (c\<lparr>pc_flagRestart := b\<rparr>) = static c"
  "static (pc_remaining_update f c) = static c" "static (pc_phase_update f c) = static c"
  "static (c\<lparr>pc_reload := r\<rparr>) = static c"
  by (simp_all add: static_def)

lemma tick_kept: "kept k pit (x86_pit_tick k pit)"
  unfolding pit_tick_defs by (intro pit_kept; simp)

lemma keptD:
  assumes "kept k p q"
  shows "j \<noteq> k \<Longrightarrow> ctr q j = ctr p j" "pit_personality q = pit_personality p"
    "static (ctr q j) = static (ctr p j)"
  using assms by (auto simp: kept_def)

lemma tick_other [simp]:
  "j \<noteq> k \<Longrightarrow> ctr (x86_pit_tick k pit) j = ctr pit j"
  "pit_personality (x86_pit_tick k pit) = pit_personality pit"
  by (simp_all add: keptD [OF tick_kept])

lemma static_eqD:
  assumes "static c = static d"
  shows "pc_cw c = pc_cw d" "pc_init c = pc_init d" "pc_latch c = pc_latch d"
    "pc_flagLatch c = pc_flagLatch d" "pc_status_latch c = pc_status_latch d"
    "pc_flagStatusLatch c = pc_flagStatusLatch d" "pc_flagRead c = pc_flagRead d"
    "pc_flagWrite c = pc_flagWrite d" "pc_flagGate c = pc_flagGate d"
    "pc_output c = pc_output d" "pc_output_owner c = pc_output_owner d"
  using arg_cong [OF assms, of pc_cw] arg_cong [OF assms, of pc_init]
    arg_cong [OF assms, of pc_latch] arg_cong [OF assms, of pc_flagLatch]
    arg_cong [OF assms, of pc_status_latch] arg_cong [OF assms, of pc_flagStatusLatch]
    arg_cong [OF assms, of pc_flagRead] arg_cong [OF assms, of pc_flagWrite]
    arg_cong [OF assms, of pc_flagGate] arg_cong [OF assms, of pc_output]
    arg_cong [OF assms, of pc_output_owner]
  by (simp_all add: static_def)

lemmas tick_frame [simp] = static_eqD [OF keptD(3) [OF tick_kept]]

lemma tick_mode [simp]: "x86_pit_mode (x86_pit_tick k pit) j = x86_pit_mode pit j"
  by (rule mode_cong) (cases "j = k", simp_all)

section \<open>The invariant of a counter\<close>

text \<open>
  Per mode: which flags can be set together, how OUT follows from them, and that a counting
  element in use has not run below zero.
\<close>

definition counter_ok :: "lib_u8 \<Rightarrow> pit_counter \<Rightarrow> bool" where
  "counter_ok m c \<longleftrightarrow>
     (pc_flagReady c \<and> m \<noteq> 0 \<longrightarrow> pc_reload c \<noteq> 0) \<and>
     (pc_flagTrigger c \<longrightarrow> m = 1 \<or> m = 5) \<and> (pc_flagRestart c \<longrightarrow> m = 2 \<or> m = 3) \<and>
     (pc_flagTrigger c \<or> pc_flagRestart c \<longrightarrow> pc_flagReady c \<or> pc_flagLoadPending c) \<and>
     (pc_flagActive c \<longrightarrow> pc_reload c \<noteq> 0) \<and>
     unat (pc_reload c) \<le> 65536 \<and>
     (pc_flagActive c \<longrightarrow> pc_flagReady c \<or> pc_flagLoadPending c) \<and>
     (if m = 0 then \<not> pc_flagPulseLow c \<and>
        (pc_flagActive c \<longrightarrow> \<not> pc_flagOutput c \<and> pc_remaining c \<noteq> 0) \<and>
        (pc_flagLoadPending c \<longrightarrow> \<not> pc_flagOutput c \<and> \<not> pc_flagActive c)
      else if m = 1 then \<not> pc_flagPulseLow c \<and> (pc_flagOutput c \<longleftrightarrow> \<not> pc_flagActive c) \<and>
        (pc_flagActive c \<longrightarrow> pc_remaining c \<noteq> 0)
      else if m = 2 then (pc_flagOutput c \<longleftrightarrow> \<not> pc_flagPulseLow c) \<and>
        (pc_flagPulseLow c \<longrightarrow> pc_flagActive c \<and> pc_flagGate c \<and> \<not> pc_flagRestart c)
      else if m = 3 then \<not> pc_flagPulseLow c \<and> (pc_flagActive c \<longrightarrow> pc_phase c \<noteq> 0)
      else (pc_flagOutput c \<longleftrightarrow> \<not> pc_flagPulseLow c) \<and>
        (pc_flagPulseLow c \<longrightarrow> pc_flagActive c) \<and>
        (pc_flagActive c \<and> \<not> pc_flagPulseLow c \<longrightarrow> pc_remaining c \<noteq> 0))"

definition pit_ok :: "x86_pit \<Rightarrow> bool" where
  "pit_ok pit \<longleftrightarrow> (\<forall>k<3. counter_ok (x86_pit_mode pit k) (ctr pit k))"

lemma word_below_8:
  fixes w :: lib_u8
  assumes "w < 8"
  shows "w \<in> {0,1,2,3,4,5,6,7}"
proof -
  obtain n where w: "w = of_nat n" and n: "n < 8"
    using that [of "unat w"] assms by (simp add: word_less_nat_alt)
  have "n = 0 \<or> n = 1 \<or> n = 2 \<or> n = 3 \<or> n = 4 \<or> n = 5 \<or> n = 6 \<or> n = 7" using n by linarith
  then show ?thesis unfolding w by (elim disjE) simp_all
qed

lemma mode_cases:
  "x86_pit_mode pit k = 0 \<or> x86_pit_mode pit k = 1 \<or> x86_pit_mode pit k = 2 \<or>
   x86_pit_mode pit k = 3 \<or> x86_pit_mode pit k = 4 \<or> x86_pit_mode pit k = 5"
proof -
  have "VPIT_GetCW_M (pc_cw (ctr pit k)) < 8"
  proof -
    have "VPIT_GetCW_M w = take_bit 3 (drop_bit 1 w)" for w
    proof (rule bit_word_eqI)
      fix n assume "n < LENGTH(8)"
      then have "n \<in> {0,1,2,3,4,5,6,7}" by auto
      then show "bit (VPIT_GetCW_M w) n = bit (take_bit 3 (drop_bit 1 w)) n"
        by (auto simp: VPIT_GetCW_M_def bit_simps)
    qed
    then show ?thesis by (simp add: take_bit_eq_mod word_mod_less_divisor)
  qed
  then have "VPIT_GetCW_M (pc_cw (ctr pit k)) \<in> {0,1,2,3,4,5,6,7}" by (rule word_below_8)
  then show ?thesis by (auto simp: x86_pit_mode_def Let_def)
qed

lemma bcd_digit: "unat (ucast (w AND 0xF :: lib_u16) :: lib_u32) \<le> 15"
proof -
  have "w AND 0xF = take_bit 4 w" by (simp add: take_bit_eq_mask mask_eq_exp_minus_1)
  then have "unat (w AND 0xF) < 16" by (simp add: take_bit_eq_mod unat_mod)
  then show ?thesis by (simp add: unat_ucast_up)
qed

lemma unat_bcd_decode:
  "unat (x86_pit_bcd_decode v) = unat (v AND 0xF) + unat (drop_bit 4 v AND 0xF) * 10 +
     unat (drop_bit 8 v AND 0xF) * 100 + unat (drop_bit 12 v AND 0xF) * 1000"
proof -
  note d = bcd_digit [of v] bcd_digit [of "drop_bit 4 v"] bcd_digit [of "drop_bit 8 v"]
    bcd_digit [of "drop_bit 12 v"]
  show ?thesis using d
    by (simp add: x86_pit_bcd_decode_def unat_word_ariths unat_ucast_up)
qed

lemma decode_reload_bounds:
  "x86_pit_decode_reload pit k \<noteq> 0" "unat (x86_pit_decode_reload pit k) \<le> 65536"
proof -
  have "unat (ucast (pc_init (ctr pit k)) :: lib_u32) < 65536"
    using unsigned_less [of "pc_init (ctr pit k)", where 'a = nat] by (simp add: unat_ucast_up)
  moreover have "unat (x86_pit_bcd_decode (pc_init (ctr pit k))) \<le> 16665"
    using bcd_digit [of "pc_init (ctr pit k)"] bcd_digit [of "drop_bit 4 (pc_init (ctr pit k))"]
      bcd_digit [of "drop_bit 8 (pc_init (ctr pit k))"]
      bcd_digit [of "drop_bit 12 (pc_init (ctr pit k))"]
    by (simp add: unat_bcd_decode unat_ucast_up)
  moreover have "ucast (pc_init (ctr pit k)) = (0 :: lib_u32) \<longleftrightarrow> pc_init (ctr pit k) = 0"
    using unat_ucast_up [of "pc_init (ctr pit k)", where 'b = 32]
    by (simp add: unat_eq_0 [symmetric] del: unat_eq_0)
  ultimately show "x86_pit_decode_reload pit k \<noteq> 0"
    "unat (x86_pit_decode_reload pit k) \<le> 65536"
    by (auto simp: x86_pit_decode_reload_def Let_def)
qed

lemma half_up_neq_0:
  fixes r :: lib_u32
  assumes "r \<noteq> 0" "unat r \<le> 65536"
  shows "(r + 1) div 2 \<noteq> 0" "unat ((r + 1) div 2) = (unat r + 1) div 2"
proof -
  have u: "unat (r + 1) = unat r + 1" using assms by (simp add: unat_word_ariths)
  then show v: "unat ((r + 1) div 2) = (unat r + 1) div 2" by (simp add: unat_div)
  have "0 < unat r" using assms(1) by (simp add: unat_gt_0)
  then have "0 < unat ((r + 1) div 2)" using v by simp
  then show "(r + 1) div 2 \<noteq> 0" by (simp add: unat_gt_0)
qed

lemma minus_1_neq_0: "(r::lib_u32) \<noteq> 1 \<Longrightarrow> r - 1 \<noteq> 0"
  by simp

lemmas counter_ok_simps = counter_ok_def decode_reload_bounds half_up_neq_0 Let_def

lemma decrement_ok:
  assumes "counter_ok (x86_pit_mode p k) (ctr p k)" and "\<not> pc_flagActive (ctr p k)"
  shows "counter_ok (x86_pit_mode p k) (ctr (x86_pit_decrement_count k p) k)"
  using assms by (simp add: counter_ok_def split: if_splits)

lemma tick_mode0_ok:
  assumes "counter_ok (x86_pit_mode p k) (ctr p k)" and "x86_pit_mode p k = 0"
  shows "counter_ok (x86_pit_mode p k) (ctr (x86_pit_tick_mode0 k p) k)"
  using assms by (auto simp: x86_pit_tick_mode0_def x86_pit_commit_pending_def counter_ok_simps)

lemma tick_mode1_ok:
  assumes "counter_ok (x86_pit_mode p k) (ctr p k)" and "x86_pit_mode p k = 1"
  shows "counter_ok (x86_pit_mode p k) (ctr (x86_pit_tick_mode1 k p) k)"
  using assms by (auto simp: x86_pit_tick_mode1_def x86_pit_commit_pending_def counter_ok_simps)

lemma tick_mode2_ok:
  assumes "counter_ok (x86_pit_mode p k) (ctr p k)" and "x86_pit_mode p k = 2"
  shows "counter_ok (x86_pit_mode p k) (ctr (x86_pit_tick_mode2 k p) k)"
  using assms by (auto simp: x86_pit_tick_mode2_def x86_pit_commit_pending_def counter_ok_simps)

lemma tick_mode4_ok:
  assumes "counter_ok (x86_pit_mode p k) (ctr p k)" and "x86_pit_mode p k = 4"
  shows "counter_ok (x86_pit_mode p k) (ctr (x86_pit_tick_mode4_or_5 k p) k)"
  using assms
  by (cases "pc_flagLoadPending (ctr p k)"; cases "pc_flagPulseLow (ctr p k)";
      cases "pc_flagGate (ctr p k)")
    (auto simp: x86_pit_tick_mode4_or_5_def x86_pit_commit_pending_def counter_ok_simps)

lemma tick_mode5_ok:
  assumes "counter_ok (x86_pit_mode p k) (ctr p k)" and "x86_pit_mode p k = 5"
  shows "counter_ok (x86_pit_mode p k) (ctr (x86_pit_tick_mode4_or_5 k p) k)"
  using assms
  by (cases "pc_flagTrigger (ctr p k)"; cases "pc_flagLoadPending (ctr p k)";
      cases "pc_flagPulseLow (ctr p k)")
    (auto simp: x86_pit_tick_mode4_or_5_def x86_pit_commit_pending_def counter_ok_simps)

text \<open>A counting clock of mode 3: inside a half period, and at its end.\<close>

definition mode3_counting :: "pit_counter \<Rightarrow> bool" where
  "mode3_counting c \<longleftrightarrow> \<not> pc_flagRestart c \<and> pc_flagActive c \<and> pc_flagGate c"

definition mode3_left :: "x86_pit \<Rightarrow> nat \<Rightarrow> lib_u32" where
  "mode3_left p k = pc_remaining (ctr (pit_mode3_count_down k p) k)"

lemma count_down_ctr:
  "ctr (set_ctr k (pc_phase_update (\<lambda>p. p - 1))
     (if b then set_ctr k (pc_remaining_update f) p else set_ctr k (pc_remaining_update g) p)) j =
   (if j = k then (ctr p k)\<lparr>pc_phase := pc_phase (ctr p k) - 1,
      pc_remaining := (if b then f else g) (pc_remaining (ctr p k))\<rparr> else ctr p j)"
  by (cases "ctr p k"; cases b) simp_all

lemma mode3_count_down_simps [simp]:
  "ctr (pit_mode3_count_down k p) j =
     (if j = k then (ctr p k)\<lparr>pc_phase := pc_phase (ctr p k) - 1,
        pc_remaining := mode3_left p k\<rparr>
      else ctr p j)"
  "pit_personality (pit_mode3_count_down k p) = pit_personality p"
  "pit_calls (pit_mode3_count_down k p) = pit_calls p"
  unfolding mode3_left_def pit_mode3_count_down_def Let_def count_down_ctr by simp_all

lemma mode3_count_down_mode [simp]:
  "x86_pit_mode (pit_mode3_count_down k p) j = x86_pit_mode p j"
  "x86_pit_decode_reload (pit_mode3_count_down k p) j = x86_pit_decode_reload p j"
  by (simp_all add: x86_pit_mode_def x86_pit_decode_reload_def pit_bcd_def)

definition mode3_reload :: "x86_pit \<Rightarrow> nat \<Rightarrow> lib_u32" where
  "mode3_reload p k = (if pc_flagLoadPending (ctr p k) then x86_pit_decode_reload p k
     else pc_reload (ctr p k))"

definition mode3_next_out :: "x86_pit \<Rightarrow> nat \<Rightarrow> bool" where
  "mode3_next_out p k \<longleftrightarrow> \<not> pc_flagOutput (ctr p k) \<or> mode3_reload p k div 2 = 0"

lemma mode3_turn_fields:
  assumes "x86_pit_mode p k = 3" and "pc_flagActive (ctr p k)"
    and "pc_flagReady (ctr p k) \<or> pc_flagLoadPending (ctr p k)"
  shows "pc_phase (ctr (pit_mode3_turn k p) k) =
      (if mode3_next_out p k then (mode3_reload p k + 1) div 2 else mode3_reload p k div 2)"
    "pc_flagOutput (ctr (pit_mode3_turn k p) k) = mode3_next_out p k"
    "pc_reload (ctr (pit_mode3_turn k p) k) = mode3_reload p k"
    "pc_flagActive (ctr (pit_mode3_turn k p) k)"
    "\<not> pc_flagLoadPending (ctr (pit_mode3_turn k p) k)"
    "pc_flagReady (ctr (pit_mode3_turn k p) k)"
    "pc_flagRestart (ctr p k) \<or> \<not> pc_flagRestart (ctr (pit_mode3_turn k p) k)"
    "pc_flagTrigger (ctr (pit_mode3_turn k p) k) = pc_flagTrigger (ctr p k)"
    "pc_flagPulseLow (ctr p k) \<or> \<not> pc_flagPulseLow (ctr (pit_mode3_turn k p) k)"
  using assms
  by (cases "pc_flagLoadPending (ctr p k)"; cases "pc_flagOutput (ctr p k)";
      simp add: pit_mode3_turn_def mode3_reload_def mode3_next_out_def Let_def
        x86_pit_commit_pending_def)+

lemma tick_mode3_inside:
  assumes "mode3_counting (ctr p k)" and "pc_phase (ctr p k) \<noteq> 1"
  shows "x86_pit_tick_mode3 k p = x86_pit_sync_count k (pit_mode3_count_down k p)"
  using assms by (simp add: x86_pit_tick_mode3_def mode3_counting_def Let_def)

lemma tick_mode3_end:
  assumes "mode3_counting (ctr p k)" and "pc_phase (ctr p k) = 1"
  shows "x86_pit_tick_mode3 k p =
    x86_pit_sync_count k (pit_mode3_turn k (pit_mode3_count_down k p))"
  using assms by (simp add: x86_pit_tick_mode3_def mode3_counting_def Let_def)

lemma mode3_count_down_eqs [simp]:
  "mode3_reload (pit_mode3_count_down k p) k = mode3_reload p k"
  "mode3_next_out (pit_mode3_count_down k p) k = mode3_next_out p k"
  by (simp_all add: mode3_reload_def mode3_next_out_def)

lemma mode3_reload_ok:
  assumes "counter_ok (x86_pit_mode p k) (ctr p k)" and "pc_flagActive (ctr p k)"
  shows "mode3_reload p k \<noteq> 0" "unat (mode3_reload p k) \<le> 65536"
  using assms by (simp_all add: mode3_reload_def counter_ok_def decode_reload_bounds)

lemma tick_mode3_ok:
  assumes ok: "counter_ok (x86_pit_mode p k) (ctr p k)" and m: "x86_pit_mode p k = 3"
  shows "counter_ok (x86_pit_mode p k) (ctr (x86_pit_tick_mode3 k p) k)"
proof (cases "mode3_counting (ctr p k)")
  case False
  then show ?thesis using ok m
    by (auto simp: x86_pit_tick_mode3_def mode3_counting_def x86_pit_commit_pending_def
        counter_ok_simps)
next
  case True
  show ?thesis
  proof (cases "pc_phase (ctr p k) = 1")
    case False
    with True show ?thesis using ok m
      by (simp add: tick_mode3_inside counter_ok_simps mode3_counting_def)
  next
    case end_half: True
    let ?q = "pit_mode3_count_down k p"
    have act: "pc_flagActive (ctr p k)" and nr: "\<not> pc_flagRestart (ctr p k)"
      using True by (simp_all add: mode3_counting_def)
    have rdy: "pc_flagReady (ctr p k) \<or> pc_flagLoadPending (ctr p k)"
      and np: "\<not> pc_flagPulseLow (ctr p k)" "\<not> pc_flagTrigger (ctr p k)"
      using ok m act by (auto simp: counter_ok_def)
    note f = mode3_turn_fields [of ?q k]
    have "mode3_reload p k div 2 \<noteq> 0" if "\<not> mode3_next_out p k"
      using that by (simp add: mode3_next_out_def)
    with mode3_reload_ok [OF ok act] show ?thesis
      using True m end_half act rdy nr np f
      by (simp add: tick_mode3_end counter_ok_def half_up_neq_0)
  qed
qed

lemma tick_ok:
  assumes "counter_ok (x86_pit_mode p k) (ctr p k)"
  shows "counter_ok (x86_pit_mode p k) (ctr (x86_pit_tick k p) k)"
  using mode_cases [of p k] assms
    decrement_ok [OF assms] tick_mode0_ok [OF assms] tick_mode1_ok [OF assms] tick_mode2_ok [OF assms]
    tick_mode3_ok [OF assms] tick_mode4_ok [OF assms] tick_mode5_ok [OF assms]
  unfolding x86_pit_tick_def Let_def by (auto simp del: decrement_simps)

section \<open>The next edge of OUT\<close>

definition counter_requests :: "x86_pit \<Rightarrow> nat \<Rightarrow> bool" where
  "counter_requests p k \<longleftrightarrow> pc_flagRestart (ctr p k) \<or> pc_flagTrigger (ctr p k) \<or>
     (pc_flagLoadPending (ctr p k) \<and>
      (x86_pit_mode p k = 0 \<or> x86_pit_mode p k = 4 \<or>
       ((x86_pit_mode p k = 2 \<or> x86_pit_mode p k = 3) \<and> \<not> pc_flagActive (ctr p k))))"

definition counter_running :: "x86_pit \<Rightarrow> nat \<Rightarrow> bool" where
  "counter_running p k \<longleftrightarrow> \<not> counter_requests p k \<and> pc_flagActive (ctr p k) \<and>
     (pc_flagGate (ctr p k) \<or> x86_pit_mode p k = 1 \<or> x86_pit_mode p k = 5 \<or>
      (x86_pit_mode p k = 4 \<and> pc_flagPulseLow (ctr p k)))"

definition counter_deadline :: "x86_pit \<Rightarrow> nat \<Rightarrow> lib_u32" where
  "counter_deadline p k =
     (let c = ctr p k; m = x86_pit_mode p k
      in if m = 0 \<or> m = 1 then pc_remaining c
         else if m = 2 then if pc_flagPulseLow c \<or> pc_remaining c \<le> 1 then 1
           else pc_remaining c - (if pit_personality p = X86_PIT_PERSONALITY_8253 then 0 else 1)
         else if m = 3 then pc_phase c
         else if pc_flagPulseLow c then 1 else pc_remaining c)"

text \<open>
  The level of OUT after the clock the query names: a pending request is carried out by the next
  clock, which starts the low pulse of mode 1 and raises OUT in modes 4 and 5; without one, OUT
  toggles, except that the high half of a square wave whose low half is empty follows on itself.
\<close>

definition counter_next_out :: "x86_pit \<Rightarrow> nat \<Rightarrow> bool" where
  "counter_next_out p k =
     (if counter_requests p k then
        if x86_pit_mode p k = 1 then False
        else if x86_pit_mode p k = 4 \<or> x86_pit_mode p k = 5 then True
        else pc_flagOutput (ctr p k)
      else if x86_pit_mode p k = 3 then mode3_next_out p k
      else \<not> pc_flagOutput (ctr p k))"

lemma ucast_32_64_simps [simp]:
  "ucast (r :: lib_u32) = (0 :: lib_u64) \<longleftrightarrow> r = 0"
  "unat (ucast (r :: lib_u32) :: lib_u64) = unat r"
  using unat_ucast_up [of r, where 'b = 64]
  by (simp_all add: unat_eq_0 [symmetric] del: unat_eq_0)

lemma deadline_neq_0:
  assumes "counter_ok (x86_pit_mode p k) (ctr p k)" and "pc_flagActive (ctr p k)"
  shows "counter_deadline p k \<noteq> 0"
  using assms mode_cases [of p k]
  by (auto simp: counter_deadline_def counter_ok_def Let_def split: if_splits)

lemma ticks_until_eq:
  assumes "k < 3" and ok: "counter_ok (x86_pit_mode p k) (ctr p k)"
  shows "x86_pit_ticks_until_output (Some p) k (Some x) =
    (if counter_requests p k then (LIB_STATUS_OK, Some 1)
     else if counter_running p k then (LIB_STATUS_OK, Some (ucast (counter_deadline p k)))
     else (LIB_STATUS_INVALID_STATE, Some x))"
proof (cases "counter_requests p k")
  case True
  then show ?thesis using assms(1) by (simp add: counter_requests_def Let_def)
next
  case False
  show ?thesis
  proof (cases "counter_running p k")
    case True
    then have "counter_deadline p k \<noteq> 0" using deadline_neq_0 [OF ok] by (simp add: counter_running_def)
    with True False assms(1) mode_cases [of p k] show ?thesis
      by (auto simp: counter_requests_def counter_running_def counter_deadline_def Let_def
          split: if_splits)
  next
    case nr: False
    with False assms(1) mode_cases [of p k] show ?thesis
      by (auto simp: counter_requests_def counter_running_def Let_def split: if_splits)
  qed
qed

lemmas running_defs = counter_requests_def counter_running_def counter_deadline_def counter_ok_def

lemma running_tick:
  assumes "counter_ok (x86_pit_mode p k) (ctr p k)" and "counter_running p k"
  shows "x86_pit_tick k p =
    (if x86_pit_mode p k = 0 then x86_pit_tick_mode0 k p
     else if x86_pit_mode p k = 1 then x86_pit_tick_mode1 k p
     else if x86_pit_mode p k = 2 then x86_pit_tick_mode2 k p
     else if x86_pit_mode p k = 3 then x86_pit_tick_mode3 k p
     else x86_pit_tick_mode4_or_5 k p)"
  using assms mode_cases [of p k]
  unfolding x86_pit_tick_def Let_def by (auto simp: counter_running_def counter_ok_def)

lemma word_eq_2: "(r :: lib_u32) = 2 \<longleftrightarrow> unat r = 2"
proof
  assume "unat r = 2"
  then have "unat r = unat (2 :: lib_u32)" by simp
  then show "r = 2" by (rule unsigned_word_eqI)
qed simp

lemma word_gt_1_minus:
  fixes r :: lib_u32
  assumes "1 < r"
  shows "r - 1 \<le> 1 \<longleftrightarrow> r = 2"
proof -
  have "unat (r - 1) = unat r - 1" using assms by (simp add: unat_sub word_less_nat_alt word_le_nat_alt)
  moreover have "unat r > 1" using assms by (simp add: word_less_nat_alt)
  ultimately show ?thesis by (auto simp: word_le_nat_alt word_eq_2)
qed

lemma word_gt_2_minus:
  fixes r :: lib_u32
  assumes "1 < r" and "r \<noteq> 2"
  shows "\<not> r \<le> 2" "\<not> r - 1 \<le> 1"
proof -
  show "\<not> r - 1 \<le> 1" using assms by (simp add: word_gt_1_minus)
  have "unat r > 1" using assms(1) by (simp add: word_less_nat_alt)
  moreover have "unat r \<noteq> 2" using assms(2) word_eq_2 by blast
  ultimately show "\<not> r \<le> 2" by (simp add: word_le_nat_alt)
qed

lemma running_step:
  assumes ok: "counter_ok (x86_pit_mode p k) (ctr p k)" and r: "counter_running p k"
    and "counter_deadline p k \<noteq> 1"
  shows "counter_running (x86_pit_tick k p) k \<and>
    counter_deadline (x86_pit_tick k p) k = counter_deadline p k - 1 \<and>
    pc_flagOutput (ctr (x86_pit_tick k p) k) = pc_flagOutput (ctr p k)"
proof -
  consider "x86_pit_mode p k = 0" | "x86_pit_mode p k = 1" | "x86_pit_mode p k = 2"
    | "x86_pit_mode p k = 3" | "x86_pit_mode p k = 4" | "x86_pit_mode p k = 5"
    using mode_cases [of p k] by blast
  then show ?thesis
  proof cases
    case 1
    then show ?thesis using assms
      by (simp add: running_tick [OF ok r] x86_pit_tick_mode0_def running_defs Let_def)
  next
    case 2
    then show ?thesis using assms
      by (simp add: running_tick [OF ok r] x86_pit_tick_mode1_def running_defs Let_def)
  next
    case 3
    have np: "\<not> pc_flagPulseLow (ctr p k)" and gt: "1 < pc_remaining (ctr p k)"
      and d: "pc_remaining (ctr p k) -
        (if pit_personality p = X86_PIT_PERSONALITY_8253 then 0 else 1) \<noteq> 1"
      using 3 assms(3) by (auto simp: counter_deadline_def Let_def split: if_splits)
    show ?thesis
    proof (cases "pit_personality p = X86_PIT_PERSONALITY_8253")
      case True
      moreover have "\<not> pc_remaining (ctr p k) \<le> 1" using gt by (simp add: not_le)
      ultimately show ?thesis using 3 r np word_gt_1_minus [OF gt]
        by (auto simp: running_tick [OF ok r] x86_pit_tick_mode2_def counter_requests_def
            counter_running_def counter_deadline_def Let_def)
    next
      case False
      then have "pc_remaining (ctr p k) \<noteq> 2" using d by auto
      with False show ?thesis using 3 r np gt word_gt_2_minus [OF gt]
        by (simp add: running_tick [OF ok r] x86_pit_tick_mode2_def counter_requests_def
            counter_running_def counter_deadline_def Let_def)
    qed
  next
    case 4
    then show ?thesis using assms
      by (simp add: running_tick [OF ok r] tick_mode3_inside mode3_counting_def running_defs Let_def)
  next
    case 5
    then show ?thesis using assms
      by (simp add: running_tick [OF ok r] x86_pit_tick_mode4_or_5_def running_defs Let_def split: if_splits)
  next
    case 6
    then show ?thesis using assms
      by (simp add: running_tick [OF ok r] x86_pit_tick_mode4_or_5_def running_defs Let_def split: if_splits)
  qed
qed

lemma running_final:
  assumes ok: "counter_ok (x86_pit_mode p k) (ctr p k)" and r: "counter_running p k"
    and "counter_deadline p k = 1"
  shows "pc_flagOutput (ctr (x86_pit_tick k p) k) = counter_next_out p k"
proof -
  have nr: "\<not> counter_requests p k" using r by (simp add: counter_running_def)
  note out = counter_next_out_def [of p k]
  consider "x86_pit_mode p k = 0" | "x86_pit_mode p k = 1" | "x86_pit_mode p k = 2"
    | "x86_pit_mode p k = 3" | "x86_pit_mode p k = 4" | "x86_pit_mode p k = 5"
    using mode_cases [of p k] by blast
  then show ?thesis
  proof cases
    case 1
    then show ?thesis using assms nr
      by (simp add: out running_tick [OF ok r] x86_pit_tick_mode0_def running_defs Let_def)
  next
    case 2
    then show ?thesis using assms nr
      by (simp add: out running_tick [OF ok r] x86_pit_tick_mode1_def running_defs Let_def)
  next
    case 3
    have "pc_remaining (ctr p k) \<le>
        (if pit_personality p = X86_PIT_PERSONALITY_8253 then 0 else 1) + 1"
      if "\<not> pc_flagPulseLow (ctr p k)"
      using 3 assms(3) that
      by (auto simp: counter_deadline_def Let_def diff_eq_eq split: if_splits intro: order_trans)
    then show ?thesis using 3 assms nr
      by (cases "pc_flagPulseLow (ctr p k)")
        (auto simp add: out running_tick [OF ok r] x86_pit_tick_mode2_def counter_ok_def
          counter_running_def counter_requests_def Let_def x86_pit_commit_pending_def)
  next
    case 4
    let ?q = "pit_mode3_count_down k p"
    have "pc_flagActive (ctr p k)" and c: "mode3_counting (ctr p k)"
      using r 4 by (auto simp: counter_running_def counter_requests_def mode3_counting_def)
    moreover have "pc_flagReady (ctr p k) \<or> pc_flagLoadPending (ctr p k)"
      using ok calculation(1) by (simp add: counter_ok_def)
    moreover have "pc_phase (ctr p k) = 1" using 4 assms(3) by (simp add: counter_deadline_def)
    ultimately show ?thesis using 4 nr mode3_turn_fields(2) [of ?q k]
      by (simp add: out running_tick [OF ok r] tick_mode3_end mode3_next_out_def)
  next
    case 5
    then show ?thesis using assms nr
      by (cases "pc_flagPulseLow (ctr p k)")
        (auto simp: out running_tick [OF ok r] x86_pit_tick_mode4_or_5_def running_defs Let_def)
  next
    case 6
    then show ?thesis using assms nr
      by (cases "pc_flagPulseLow (ctr p k)")
        (auto simp: out running_tick [OF ok r] x86_pit_tick_mode4_or_5_def running_defs Let_def)
  qed
qed

lemma request_tick:
  assumes ok: "counter_ok (x86_pit_mode p k) (ctr p k)" and r: "counter_requests p k"
  shows "\<not> counter_requests (x86_pit_tick k p) k \<and>
    pc_flagOutput (ctr (x86_pit_tick k p) k) = counter_next_out p k"
proof -
  let ?c = "ctr p k"
  note out = counter_next_out_def [of p k]
  consider "x86_pit_mode p k = 0" | "x86_pit_mode p k = 2 \<or> x86_pit_mode p k = 3"
    | "x86_pit_mode p k = 1" | "x86_pit_mode p k = 4" | "x86_pit_mode p k = 5"
    using mode_cases [of p k] by blast
  then show ?thesis
  proof cases
    case 1
    then have "pc_flagLoadPending ?c" "\<not> pc_flagTrigger ?c" "\<not> pc_flagRestart ?c"
      using ok r by (simp_all add: counter_requests_def counter_ok_def)
    with 1 r show ?thesis
      by (simp add: out x86_pit_tick_def x86_pit_tick_mode0_def)
        (simp add: counter_requests_def x86_pit_commit_pending_def)
  next
    case m: 2
    then have t: "\<not> pc_flagTrigger ?c" using ok by (auto simp: counter_ok_def)
    have "pc_flagRestart ?c \<and> (pc_flagReady ?c \<or> pc_flagLoadPending ?c) \<or>
        pc_flagLoadPending ?c \<and> \<not> pc_flagActive ?c"
      using m ok r t by (auto simp: counter_requests_def counter_ok_def)
    then have "x86_pit_tick k p = x86_pit_commit_pending k p"
      using m t by (elim disjE conjE)
        (simp_all add: x86_pit_tick_def x86_pit_tick_mode2_def x86_pit_tick_mode3_def Let_def)
    with m t r show ?thesis
      by (elim disjE) (simp_all add: out counter_requests_def [of "x86_pit_load k p"]
        x86_pit_commit_pending_def)
  next
    case 3
    then have "pc_flagTrigger ?c" "\<not> pc_flagRestart ?c"
      using ok r by (auto simp: counter_requests_def counter_ok_def)
    then show ?thesis using 3 ok r
      by (simp add: out x86_pit_tick_def x86_pit_tick_mode1_def Let_def)
        (simp add: counter_requests_def counter_ok_def x86_pit_commit_pending_def)
  next
    case 4
    then have "pc_flagLoadPending ?c" "\<not> pc_flagTrigger ?c" "\<not> pc_flagRestart ?c"
      using ok r by (auto simp: counter_requests_def counter_ok_def)
    then show ?thesis using 4 r
      by (simp add: out x86_pit_tick_def x86_pit_tick_mode4_or_5_def Let_def)
        (simp add: counter_requests_def x86_pit_commit_pending_def)
  next
    case 5
    then have "pc_flagTrigger ?c" "\<not> pc_flagRestart ?c"
      using ok r by (auto simp: counter_requests_def counter_ok_def)
    then show ?thesis using 5 ok r
      by (simp add: out x86_pit_tick_def x86_pit_tick_mode4_or_5_def Let_def)
        (simp add: counter_requests_def counter_ok_def x86_pit_commit_pending_def)
  qed
qed

lemma idle_step:
  assumes ok: "counter_ok (x86_pit_mode p k) (ctr p k)"
    and "\<not> counter_requests p k" and "\<not> counter_running p k"
  shows "\<not> counter_requests (x86_pit_tick k p) k \<and> \<not> counter_running (x86_pit_tick k p) k \<and>
    pc_flagOutput (ctr (x86_pit_tick k p) k) = pc_flagOutput (ctr p k)"
proof -
  have "x86_pit_tick k p = p \<or>
    (\<not> pc_flagActive (ctr p k) \<and> x86_pit_tick k p = x86_pit_decrement_count k p)"
    using mode_cases [of p k] assms(2,3)
    by (elim disjE) (simp_all add: counter_requests_def counter_running_def x86_pit_tick_def
        Let_def x86_pit_tick_mode0_def x86_pit_tick_mode1_def x86_pit_tick_mode2_def
        x86_pit_tick_mode3_def x86_pit_tick_mode4_or_5_def, blast+)
  then show ?thesis
    using assms tick_mode [of k p k] by (auto simp: counter_requests_def counter_running_def)
qed

section \<open>Whole clocks\<close>

lemma pit_clock_unfold: "pit_clock p = x86_pit_tick 2 (x86_pit_tick 1 (x86_pit_tick 0 p))"
  by (simp add: pit_clock_def upt_rec numeral_2_eq_2)

text \<open>Seen from counter \<open>k\<close>, a clock of the chip is a clock of that counter.\<close>

lemma clock_via:
  assumes "k < 3"
  obtains q where "ctr q k = ctr p k" "pit_personality q = pit_personality p"
    "ctr (pit_clock p) k = ctr (x86_pit_tick k q) k"
proof -
  consider "k = 0" | "k = 1" | "k = 2" using assms by linarith
  then show thesis
  proof cases
    case 1
    then show thesis using that [of p] by (simp add: pit_clock_unfold)
  next
    case 2
    then show thesis using that [of "x86_pit_tick 0 p"] by (simp add: pit_clock_unfold)
  next
    case 3
    then show thesis using that [of "x86_pit_tick 1 (x86_pit_tick 0 p)"]
      by (simp add: pit_clock_unfold)
  qed
qed

lemma clock_personality [simp]: "pit_personality (pit_clock p) = pit_personality p"
  by (simp add: pit_clock_unfold)

lemma clock_static: "static (ctr (pit_clock p) j) = static (ctr p j)"
  using keptD(3) [OF tick_kept] by (simp add: pit_clock_unfold)

lemma clock_mode [simp]: "x86_pit_mode (pit_clock p) j = x86_pit_mode p j"
  by (rule mode_cong) (rule static_eqD(1) [OF clock_static])

text \<open>
  The predicates on one counter read its record, its mode and the personality only, so they carry
  over from a clock of the counter to a clock of the chip.
\<close>

lemma counter_cong:
  assumes "ctr q k = ctr p k" and "pit_personality q = pit_personality p"
  shows "x86_pit_mode q k = x86_pit_mode p k" "counter_requests q k = counter_requests p k"
    "counter_running q k = counter_running p k" "counter_deadline q k = counter_deadline p k"
    "mode3_reload q k = mode3_reload p k" "counter_next_out q k = counter_next_out p k"
proof -
  show m: "x86_pit_mode q k = x86_pit_mode p k" by (rule mode_cong) (simp add: assms)
  show r: "counter_requests q k = counter_requests p k" by (simp add: counter_requests_def assms m)
  show "counter_running q k = counter_running p k" by (simp add: counter_running_def assms m r)
  show "counter_deadline q k = counter_deadline p k" by (simp add: counter_deadline_def assms m)
  show "mode3_reload q k = mode3_reload p k"
    by (simp add: mode3_reload_def assms x86_pit_decode_reload_def pit_bcd_def)
  then show "counter_next_out q k = counter_next_out p k"
    by (simp add: counter_next_out_def mode3_next_out_def assms m r)
qed

lemma clock_ok: "pit_ok p \<Longrightarrow> pit_ok (pit_clock p)"
  unfolding pit_ok_def
proof (intro allI impI)
  fix k :: nat assume ok: "\<forall>k<3. counter_ok (x86_pit_mode p k) (ctr p k)" and k: "k < 3"
  obtain q where q: "ctr q k = ctr p k" "pit_personality q = pit_personality p"
    "ctr (pit_clock p) k = ctr (x86_pit_tick k q) k" by (rule clock_via [OF k])
  have "counter_ok (x86_pit_mode q k) (ctr (x86_pit_tick k q) k)"
    by (rule tick_ok) (use ok k q counter_cong(1) [OF q(1,2)] in simp)
  then show "counter_ok (x86_pit_mode (pit_clock p) k) (ctr (pit_clock p) k)"
    by (simp add: q(3) counter_cong(1) [OF q(1,2)])
qed

lemma clocks_ok: "pit_ok p \<Longrightarrow> pit_ok ((pit_clock ^^ n) p)"
  by (induction n) (auto intro: clock_ok)

lemma clock_running_step:
  assumes "pit_ok p" and k: "k < 3" and "counter_running p k" and "counter_deadline p k \<noteq> 1"
  shows "counter_running (pit_clock p) k \<and>
    counter_deadline (pit_clock p) k = counter_deadline p k - 1 \<and>
    pc_flagOutput (ctr (pit_clock p) k) = pc_flagOutput (ctr p k)"
proof -
  obtain q where q: "ctr q k = ctr p k" "pit_personality q = pit_personality p"
    "ctr (pit_clock p) k = ctr (x86_pit_tick k q) k" by (rule clock_via [OF k])
  note c = counter_cong [OF q(1,2)]
  have "counter_running (x86_pit_tick k q) k \<and>
    counter_deadline (x86_pit_tick k q) k = counter_deadline q k - 1 \<and>
    pc_flagOutput (ctr (x86_pit_tick k q) k) = pc_flagOutput (ctr q k)"
    by (rule running_step) (use assms c q in \<open>simp_all add: pit_ok_def\<close>)
  moreover have "pit_personality (pit_clock p) = pit_personality (x86_pit_tick k q)"
    by (simp add: q(2))
  note counter_cong [OF q(3) this]
  ultimately show ?thesis using c q by simp
qed

lemma clock_running_final:
  assumes "pit_ok p" and k: "k < 3" and "counter_running p k" and "counter_deadline p k = 1"
  shows "pc_flagOutput (ctr (pit_clock p) k) = counter_next_out p k"
proof -
  obtain q where q: "ctr q k = ctr p k" "pit_personality q = pit_personality p"
    "ctr (pit_clock p) k = ctr (x86_pit_tick k q) k" by (rule clock_via [OF k])
  note c = counter_cong [OF q(1,2)]
  have "pc_flagOutput (ctr (x86_pit_tick k q) k) = counter_next_out q k"
    by (rule running_final) (use assms c q in \<open>simp_all add: pit_ok_def\<close>)
  then show ?thesis by (simp add: q(3) c)
qed

lemma clock_request:
  assumes "pit_ok p" and k: "k < 3" and "counter_requests p k"
  shows "\<not> counter_requests (pit_clock p) k \<and>
    pc_flagOutput (ctr (pit_clock p) k) = counter_next_out p k"
proof -
  obtain q where q: "ctr q k = ctr p k" "pit_personality q = pit_personality p"
    "ctr (pit_clock p) k = ctr (x86_pit_tick k q) k" by (rule clock_via [OF k])
  note c = counter_cong [OF q(1,2)]
  have "\<not> counter_requests (x86_pit_tick k q) k \<and>
      pc_flagOutput (ctr (x86_pit_tick k q) k) = counter_next_out q k"
    by (rule request_tick) (use assms c q in \<open>simp_all add: pit_ok_def\<close>)
  moreover have "pit_personality (pit_clock p) = pit_personality (x86_pit_tick k q)"
    by (simp add: q(2))
  note counter_cong(2) [OF q(3) this]
  ultimately show ?thesis by (simp add: q(3) c)
qed

lemma clock_idle_step:
  assumes "pit_ok p" and k: "k < 3" and "\<not> counter_requests p k" and "\<not> counter_running p k"
  shows "\<not> counter_requests (pit_clock p) k \<and> \<not> counter_running (pit_clock p) k \<and>
    pc_flagOutput (ctr (pit_clock p) k) = pc_flagOutput (ctr p k)"
proof -
  obtain q where q: "ctr q k = ctr p k" "pit_personality q = pit_personality p"
    "ctr (pit_clock p) k = ctr (x86_pit_tick k q) k" by (rule clock_via [OF k])
  note c = counter_cong [OF q(1,2)]
  have "\<not> counter_requests (x86_pit_tick k q) k \<and> \<not> counter_running (x86_pit_tick k q) k \<and>
    pc_flagOutput (ctr (x86_pit_tick k q) k) = pc_flagOutput (ctr q k)"
    by (rule idle_step) (use assms c q in \<open>simp_all add: pit_ok_def\<close>)
  moreover have "pit_personality (pit_clock p) = pit_personality (x86_pit_tick k q)"
    by (simp add: q(2))
  note counter_cong [OF q(3) this]
  ultimately show ?thesis using q by simp
qed

lemma idle_forever:
  assumes "pit_ok p" and "k < 3" and "\<not> counter_requests p k" and "\<not> counter_running p k"
  shows "\<not> counter_requests ((pit_clock ^^ n) p) k \<and> \<not> counter_running ((pit_clock ^^ n) p) k \<and>
    pc_flagOutput (ctr ((pit_clock ^^ n) p) k) = pc_flagOutput (ctr p k)"
proof (induction n)
  case 0
  then show ?case using assms by simp
next
  case (Suc n)
  then show ?case using clock_idle_step [of "(pit_clock ^^ n) p" k] clocks_ok assms by simp
qed

lemma running_until:
  assumes "pit_ok p" and "k < 3" and "counter_running p k" and "n < unat (counter_deadline p k)"
  shows "counter_running ((pit_clock ^^ n) p) k \<and>
    unat (counter_deadline ((pit_clock ^^ n) p) k) = unat (counter_deadline p k) - n \<and>
    pc_flagOutput (ctr ((pit_clock ^^ n) p) k) = pc_flagOutput (ctr p k)"
  using assms(4)
proof (induction n)
  case 0
  then show ?case using assms by simp
next
  case (Suc n)
  let ?q = "(pit_clock ^^ n) p"
  have IH: "counter_running ?q k" "unat (counter_deadline ?q k) = unat (counter_deadline p k) - n"
    "pc_flagOutput (ctr ?q k) = pc_flagOutput (ctr p k)" using Suc by simp_all
  then have "counter_deadline ?q k \<noteq> 1" using Suc.prems by auto
  from clock_running_step [OF clocks_ok [OF assms(1)] assms(2) IH(1) this] show ?case
    using IH Suc.prems by (simp add: unat_sub word_le_nat_alt)
qed

lemma funpow_mode [simp]: "x86_pit_mode ((pit_clock ^^ n) p) j = x86_pit_mode p j"
  by (induction n) simp_all

text \<open>
  The reload the end of a half period of mode 3 uses does not change before that end.
\<close>

lemma clock_mode3_reload:
  assumes "pit_ok p" and k: "k < 3" and "counter_running p k" and "counter_deadline p k \<noteq> 1"
    and "x86_pit_mode p k = 3"
  shows "mode3_reload (pit_clock p) k = mode3_reload p k"
proof -
  obtain q where q: "ctr q k = ctr p k" "pit_personality q = pit_personality p"
    "ctr (pit_clock p) k = ctr (x86_pit_tick k q) k" by (rule clock_via [OF k])
  note c = counter_cong [OF q(1,2)]
  have ok: "counter_ok (x86_pit_mode q k) (ctr q k)"
    using assms(1) k by (simp add: pit_ok_def c(1) q(1))
  have r: "counter_running q k" and m: "x86_pit_mode q k = 3" and d: "pc_phase (ctr q k) \<noteq> 1"
    using assms c q by (simp_all add: counter_deadline_def)
  from r m have "mode3_counting (ctr q k)"
    by (auto simp: counter_running_def counter_requests_def mode3_counting_def)
  then have "mode3_reload (x86_pit_tick k q) k = mode3_reload q k"
    using m d by (simp add: running_tick [OF ok r] tick_mode3_inside mode3_reload_def
        x86_pit_decode_reload_def pit_bcd_def)
  moreover have "pit_personality (pit_clock p) = pit_personality (x86_pit_tick k q)"
    by (simp add: q(2))
  note counter_cong(5) [OF q(3) this]
  ultimately show ?thesis using c by simp
qed

lemma mode3_reload_until:
  assumes "pit_ok p" and "k < 3" and "counter_running p k" and "x86_pit_mode p k = 3"
  shows "n < unat (counter_deadline p k) \<Longrightarrow> mode3_reload ((pit_clock ^^ n) p) k = mode3_reload p k"
proof (induction n)
  case 0
  then show ?case by simp
next
  case (Suc n)
  let ?q = "(pit_clock ^^ n) p"
  have r: "counter_running ?q k" and d: "counter_deadline ?q k \<noteq> 1"
    using running_until [OF assms(1-3), of n] Suc.prems by auto
  show ?case
    using clock_mode3_reload [OF clocks_ok [OF assms(1)] assms(2) r d] assms(4) Suc by simp
qed

lemma deadline_reached:
  assumes ok: "pit_ok p" and k: "k < 3" and r: "counter_running p k"
  shows "pc_flagOutput (ctr ((pit_clock ^^ unat (counter_deadline p k)) p) k) = counter_next_out p k"
proof -
  let ?n = "unat (counter_deadline p k)"
  have "counter_ok (x86_pit_mode p k) (ctr p k)" and "pc_flagActive (ctr p k)"
    using ok k r by (simp_all add: pit_ok_def counter_running_def)
  then have pos: "0 < ?n" using deadline_neq_0 by (simp add: unat_gt_0)
  let ?q = "(pit_clock ^^ (?n - 1)) p"
  have q: "counter_running ?q k" "unat (counter_deadline ?q k) = unat (1 :: lib_u32)"
    "pc_flagOutput (ctr ?q k) = pc_flagOutput (ctr p k)"
    using running_until [OF ok k r, of "?n - 1"] pos by simp_all
  from q(2) have d: "counter_deadline ?q k = 1" by (rule unsigned_word_eqI)
  have "counter_next_out ?q k = counter_next_out p k"
    using q(1,3) r mode3_reload_until [OF ok k r, of "?n - 1"] pos
    by (simp add: counter_next_out_def mode3_next_out_def counter_running_def)
  with clock_running_final [OF clocks_ok [OF ok] k q(1) d]
  have "pc_flagOutput (ctr (pit_clock ?q) k) = counter_next_out p k" by simp
  moreover have "pit_clock ?q = (pit_clock ^^ ?n) p"
    using pos by (metis Suc_pred' comp_apply funpow.simps(2))
  ultimately show ?thesis by simp
qed

section \<open>The consumers of the outputs\<close>

text \<open>
  The level the consumer of counter \<open>k\<close> was last told, and the invariant that it is OUT while a
  consumer is bound (and low otherwise).
\<close>

definition pit_line :: "nat \<Rightarrow> (nat \<times> x86_pit_output_provider \<times> pit_owner \<times> bool) list \<Rightarrow> bool" where
  "pit_line k calls = fold (\<lambda>(j, _, _, level) acc. if j = k then level else acc) calls False"

definition line_ok :: "nat \<Rightarrow> x86_pit \<Rightarrow> bool" where
  "line_ok k p \<longleftrightarrow>
     (pit_line k (pit_calls p) \<longleftrightarrow> pc_output (ctr p k) \<noteq> None \<and> pc_flagOutput (ctr p k))"

lemma pit_line_simps [simp]:
  "\<not> pit_line k []"
  "pit_line k (calls @ [(j, provider, owner, level)]) =
     (if j = k then level else pit_line k calls)"
  by (simp_all add: pit_line_def)

named_theorems pit_lines \<open>operations that keep the consumers' levels equal to OUT\<close>

lemma line_set_ctr [pit_lines]:
  "line_ok k p \<Longrightarrow> (\<And>c. pc_flagOutput (f c) = pc_flagOutput c) \<Longrightarrow>
     (\<And>c. pc_output (f c) = pc_output c) \<Longrightarrow> line_ok k (set_ctr j f p)"
  by (simp add: line_ok_def)

lemma line_output [pit_lines]: "line_ok k p \<Longrightarrow> line_ok k (x86_pit_set_output_level j a p)"
  by (auto simp: line_ok_def x86_pit_set_output_level_def Let_def split: option.split)

lemma line_sync [pit_lines]: "line_ok k p \<Longrightarrow> line_ok k (x86_pit_sync_count j p)"
  by (simp add: line_ok_def)

lemma line_decrement [pit_lines]: "line_ok k p \<Longrightarrow> line_ok k (x86_pit_decrement_count j p)"
  by (simp add: line_ok_def)

lemma line_load [pit_lines]: "line_ok k p \<Longrightarrow> line_ok k (x86_pit_load j p)"
  by (simp add: line_ok_def)

lemma line_if [pit_lines]: "line_ok k x \<Longrightarrow> line_ok k y \<Longrightarrow> line_ok k (if b then x else y)"
  by simp

lemma line_let [pit_lines]:
  fixes F :: "x86_pit \<Rightarrow> x86_pit"
  shows "line_ok k a \<Longrightarrow> (\<And>x. line_ok k x \<Longrightarrow> line_ok k (F x)) \<Longrightarrow> line_ok k (Let a F)"
  by simp

lemma line_let_value [pit_lines]:
  fixes F :: "lib_u8 \<Rightarrow> x86_pit" and G :: "lib_u32 \<Rightarrow> x86_pit" and H :: "bool \<Rightarrow> x86_pit"
    and N :: "nat \<Rightarrow> x86_pit"
  shows "(\<And>x. line_ok k (F x)) \<Longrightarrow> line_ok k (Let m F)"
    "(\<And>x. line_ok k (G x)) \<Longrightarrow> line_ok k (Let n G)"
    "(\<And>x. line_ok k (H x)) \<Longrightarrow> line_ok k (Let b H)"
    "(\<And>x. line_ok k (N x)) \<Longrightarrow> line_ok k (Let i N)"
  by simp_all

lemma line_tick: "line_ok k p \<Longrightarrow> line_ok k (x86_pit_tick j p)"
  unfolding pit_tick_defs by (intro pit_lines; simp)

lemma line_clocks: "line_ok k p \<Longrightarrow> line_ok k ((pit_clock ^^ n) p)"
  by (induction n) (simp_all add: pit_clock_unfold line_tick)

lemma line_write_counter: "line_ok k p \<Longrightarrow> line_ok k (x86_pit_write_counter j v p)"
  unfolding x86_pit_write_counter_def pit_write_complete_def by (intro pit_lines; simp)

lemma line_latch_count [pit_lines]: "line_ok k p \<Longrightarrow> line_ok k (x86_pit_latch_count j p)"
  unfolding x86_pit_latch_count_def by (intro pit_lines; simp)

lemma line_read_back [pit_lines]: "line_ok k p \<Longrightarrow> line_ok k (pit_read_back v j p)"
  unfolding pit_read_back_def x86_pit_latch_status_def by (intro pit_lines; simp)

lemma line_write_control: "line_ok k p \<Longrightarrow> line_ok k (x86_pit_write_control v p)"
  unfolding x86_pit_write_control_def by (intro pit_lines; simp add: upt_rec pit_lines)

lemma line_read_counter:
  "line_ok k p \<Longrightarrow> line_ok k (the (fst (snd (x86_pit_read_counter (Some p) j (Some v)))))"
  by (auto simp: Let_def line_ok_def split: prod.split)

lemma line_set_gate: "line_ok k p \<Longrightarrow> line_ok k (the (x86_pit_set_gate (Some p) j a))"
  by (auto simp: Let_def intro!: pit_lines)

lemma drop_output_simps [simp]:
  "ctr (pit_drop_output k p) j = ctr p j"
  "pit_personality (pit_drop_output k p) = pit_personality p"
  by (simp_all add: pit_drop_output_def)

lemma drop_output_line:
  "pit_line k (pit_calls (pit_drop_output j p)) \<longleftrightarrow>
     pit_line k (pit_calls p) \<and> \<not> (j = k \<and> pc_flagOutput (ctr p k) \<and> pc_output (ctr p k) \<noteq> None)"
  by (auto simp: pit_drop_output_def)

lemma drop_outputs_lines:
  assumes "line_ok k p" and "k < 3"
  shows "\<not> pit_line k (pit_calls (fold pit_drop_output [0..<3] p))"
proof -
  have "k = 0 \<or> k = 1 \<or> k = 2" using assms(2) by linarith
  then show ?thesis using assms(1) by (auto simp: upt_rec numeral_2_eq_2 drop_output_line line_ok_def)
qed

lemma reset_unfold:
  assumes "x86_pit_reset (Some p) = Some q"
  shows "pit_calls q = pit_calls (fold pit_drop_output [0..<3] p)"
    "pit_personality q = pit_personality p"
    "k < 3 \<Longrightarrow> ctr q k = (pit_clear_data (ctr p k))\<lparr>pc_flagReady := True, pc_flagGate := True\<rparr>"
proof -
  show "pit_calls q = pit_calls (fold pit_drop_output [0..<3] p)"
    "pit_personality q = pit_personality p"
    using assms by (auto simp: Let_def upt_rec numeral_2_eq_2)
  assume "k < 3"
  then have "k = 0 \<or> k = 1 \<or> k = 2" by linarith
  then show "ctr q k = (pit_clear_data (ctr p k))\<lparr>pc_flagReady := True, pc_flagGate := True\<rparr>"
    using assms by (auto simp: Let_def upt_rec numeral_2_eq_2 pit_clear_data_def)
qed

lemma line_reset: "line_ok k p \<Longrightarrow> k < 3 \<Longrightarrow> x86_pit_reset (Some p) = Some q \<Longrightarrow> line_ok k q"
  using reset_unfold(1) [of p q] reset_unfold(3) [of p q k] drop_outputs_lines [of k p]
  by (simp add: line_ok_def [of k q] pit_clear_data_def del: x86_pit_reset.simps)

section \<open>The invariant under the register operations\<close>

lemma pit_ok_update:
  assumes "pit_ok p" and "\<And>j. j \<noteq> k \<Longrightarrow> ctr q j = ctr p j"
    and "k < 3 \<Longrightarrow> counter_ok (x86_pit_mode p k) (ctr p k) \<Longrightarrow> counter_ok (x86_pit_mode q k) (ctr q k)"
  shows "pit_ok q"
  unfolding pit_ok_def
proof (intro allI impI)
  fix j :: nat assume j: "j < 3"
  show "counter_ok (x86_pit_mode q j) (ctr q j)"
  proof (cases "j = k")
    case True
    then show ?thesis using assms j by (auto simp: pit_ok_def)
  next
    case False
    with assms(2) have "ctr q j = ctr p j" by simp
    moreover from this have "x86_pit_mode q j = x86_pit_mode p j" by (intro mode_cong) simp
    ultimately show ?thesis using assms(1) j by (simp add: pit_ok_def)
  qed
qed

lemma set_ctr_set_ctr [simp]: "set_ctr k f (set_ctr k g p) = set_ctr k (\<lambda>c. f (g c)) p"
  by (simp add: set_ctr_def)

lemma pit_ok_set_ctr:
  "pit_ok p \<Longrightarrow> (\<And>m c. counter_ok m (f c) = counter_ok m c) \<Longrightarrow> (\<And>c. pc_cw (f c) = pc_cw c) \<Longrightarrow>
     pit_ok (set_ctr k f p)"
  by (erule pit_ok_update [where k = k]) simp_all

lemma pit_ok_sync: "pit_ok p \<Longrightarrow> pit_ok (x86_pit_sync_count k p)"
  by (erule pit_ok_update [where k = k]) (simp_all add: counter_ok_def)

lemma counter_ok_updates [simp]:
  "counter_ok m (c\<lparr>pc_flagRead := r\<rparr>) = counter_ok m c"
  "counter_ok m (c\<lparr>pc_flagLatch := b\<rparr>) = counter_ok m c"
  "counter_ok m (c\<lparr>pc_flagStatusLatch := b\<rparr>) = counter_ok m c"
  "counter_ok m (c\<lparr>pc_status_latch := v\<rparr>) = counter_ok m c"
  "counter_ok m (c\<lparr>pc_flagWrite := r\<rparr>) = counter_ok m c"
  "counter_ok m (pc_init_update g c) = counter_ok m c"
  by (simp_all add: counter_ok_def)

lemma write_complete_counter_ok:
  "counter_ok (x86_pit_mode p k) (ctr p k) \<Longrightarrow>
     counter_ok (x86_pit_mode p k) (ctr (pit_write_complete k p) k)"
  using mode_cases [of p k]
  by (elim disjE) (simp_all add: pit_write_complete_def Let_def counter_ok_def)

lemma write_complete_ok: "pit_ok p \<Longrightarrow> pit_ok (pit_write_complete k p)"
proof (erule pit_ok_update [where k = k])
  assume "counter_ok (x86_pit_mode p k) (ctr p k)"
  moreover have "x86_pit_mode (pit_write_complete k p) k = x86_pit_mode p k"
    by (simp add: pit_write_complete_def Let_def)
  ultimately show "counter_ok (x86_pit_mode (pit_write_complete k p) k)
    (ctr (pit_write_complete k p) k)" by (simp add: write_complete_counter_ok)
qed (simp add: pit_write_complete_def Let_def)

lemma write_first_ok:
  "pit_ok p \<Longrightarrow> x86_pit_mode p k = 0 \<Longrightarrow> pit_ok (x86_pit_set_output_level k False
     (set_ctr k (\<lambda>c. c\<lparr>pc_init := v, pc_flagWrite := w, pc_flagReady := False,
        pc_flagActive := False, pc_flagPulseLow := False\<rparr>) p))"
  by (erule pit_ok_update [where k = k]) (simp_all add: counter_ok_def)

lemma write_counter_ok: "pit_ok p \<Longrightarrow> pit_ok (x86_pit_write_counter k v p)"
  by (simp add: x86_pit_write_counter_def Let_def write_complete_ok write_first_ok pit_ok_set_ctr)

lemma latch_count_ok: "pit_ok p \<Longrightarrow> pit_ok (x86_pit_latch_count k p)"
  by (erule pit_ok_update [where k = k])
    (auto simp: x86_pit_latch_count_def Let_def counter_ok_def)

lemma read_back_ok: "pit_ok p \<Longrightarrow> pit_ok (pit_read_back v k p)"
  by (simp add: pit_read_back_def x86_pit_latch_status_def Let_def pit_ok_set_ctr latch_count_ok)

lemma write_control_ok: "pit_ok p \<Longrightarrow> pit_ok (x86_pit_write_control v p)"
proof -
  assume ok: "pit_ok p"
  consider "unat (VPIT_GetCW_SC v) = 3" | "unat (VPIT_GetCW_SC v) \<noteq> 3" "VPIT_GetCW_RW v = 0"
    | "unat (VPIT_GetCW_SC v) \<noteq> 3" "VPIT_GetCW_RW v \<noteq> 0" by blast
  then show ?thesis
  proof cases
    case 1
    then show ?thesis using ok by (simp add: x86_pit_write_control_def upt_rec read_back_ok)
  next
    case 2
    then show ?thesis using ok by (simp add: x86_pit_write_control_def latch_count_ok)
  next
    case 3
    show ?thesis
      by (rule pit_ok_update [OF ok, where k = "unat (VPIT_GetCW_SC v)"])
        (use 3 in \<open>simp_all add: x86_pit_write_control_def Let_def counter_ok_def\<close>)
  qed
qed

lemma read_counter_ok:
  "pit_ok p \<Longrightarrow> pit_ok (the (fst (snd (x86_pit_read_counter (Some p) k (Some v)))))"
  by (simp add: Let_def pit_ok_set_ctr pit_ok_sync split: prod.split)

text \<open>The two edges of a gate.\<close>

definition gate_falls :: "nat \<Rightarrow> x86_pit \<Rightarrow> x86_pit" where
  "gate_falls k p =
     (if x86_pit_mode p k = 2 \<or> x86_pit_mode p k = 3
      then x86_pit_set_output_level k True
        (set_ctr k (\<lambda>c. c\<lparr>pc_flagGate := False, pc_flagPulseLow := False\<rparr>) p)
      else set_ctr k (\<lambda>c. c\<lparr>pc_flagGate := False\<rparr>) p)"

definition gate_rises :: "nat \<Rightarrow> x86_pit \<Rightarrow> x86_pit" where
  "gate_rises k p =
     set_ctr k (\<lambda>c. c\<lparr>pc_flagGate := True,
       pc_flagTrigger := pc_flagTrigger c \<or> ((x86_pit_mode p k = 1 \<or> x86_pit_mode p k = 5) \<and>
         (pc_flagReady c \<or> pc_flagLoadPending c)),
       pc_flagRestart := pc_flagRestart c \<or> ((x86_pit_mode p k = 2 \<or> x86_pit_mode p k = 3) \<and>
         (pc_flagReady c \<or> pc_flagLoadPending c))\<rparr>) p"

lemma set_ctr_eqI: "f (ctr p k) = g (ctr p k) \<Longrightarrow> set_ctr k f p = set_ctr k g p"
  by (simp add: set_ctr_def)

lemma set_gate_eq:
  assumes "k < 3"
  shows "x86_pit_set_gate (Some p) k a = Some
    (if pc_flagGate (ctr p k) = a then p else if a then gate_rises k p else gate_falls k p)"
proof (cases "pc_flagGate (ctr p k) = a")
  case True
  then show ?thesis using assms by simp
next
  case False
  show ?thesis
  proof (cases a)
    case True
    show ?thesis using assms False True
      by (auto simp: Let_def gate_rises_def intro!: set_ctr_eqI)
  next
    case a: False
    then show ?thesis using assms False by (simp add: Let_def gate_falls_def)
  qed
qed

lemma gate_rises_ok:
  "counter_ok (x86_pit_mode p k) (ctr p k) \<Longrightarrow> \<not> pc_flagGate (ctr p k) \<Longrightarrow>
     counter_ok (x86_pit_mode p k) (ctr (gate_rises k p) k)"
  using mode_cases [of p k]
  by (elim disjE) (simp_all add: gate_rises_def counter_ok_def)

lemma gate_falls_ok:
  "counter_ok (x86_pit_mode p k) (ctr p k) \<Longrightarrow>
     counter_ok (x86_pit_mode p k) (ctr (gate_falls k p) k)"
  using mode_cases [of p k]
  by (elim disjE) (simp_all add: gate_falls_def counter_ok_def)

lemma gate_mode:
  "x86_pit_mode (gate_rises k p) j = x86_pit_mode p j"
  "x86_pit_mode (gate_falls k p) j = x86_pit_mode p j"
  "j \<noteq> k \<Longrightarrow> ctr (gate_rises k p) j = ctr p j" "j \<noteq> k \<Longrightarrow> ctr (gate_falls k p) j = ctr p j"
  by (simp_all add: gate_rises_def gate_falls_def)

lemma set_gate_ok: "pit_ok p \<Longrightarrow> pit_ok (the (x86_pit_set_gate (Some p) k a))"
proof (cases "k < 3")
  case True
  assume ok: "pit_ok p"
  show ?thesis
    by (rule pit_ok_update [OF ok, where k = k])
      (use True in \<open>simp_all add: set_gate_eq gate_mode gate_rises_ok gate_falls_ok
        del: x86_pit_set_gate.simps\<close>)
qed simp

lemma set_output_ok: "pit_ok p \<Longrightarrow> pit_ok (the (x86_pit_set_output (Some p) k provider owner))"
  by (erule pit_ok_update [where k = k]) (auto simp: counter_ok_def)

lemma reset_ok: "x86_pit_reset (Some p) = Some q \<Longrightarrow> pit_ok q"
  using reset_unfold(3) [of p q]
  by (auto simp: pit_ok_def pit_clear_data_def counter_ok_def x86_pit_mode_def
      VPIT_GetCW_M_def Let_def simp del: x86_pit_reset.simps)

end
