(* ===== verification/Pit_Bus.thy ===== *)
theory Pit_Bus
  imports Pit Ports
begin

unbundle bit_operations_syntax

text \<open>
  The board adapter that puts the interval timer of theory \<open>Pit\<close> on the I/O port hub of theory
  \<open>Ports\<close>, \<^verbatim>\<open>src/src/x86-nxvm/board-base/pit_bus.c\<close>. The function pointers of the route
  table are the constructors of \<open>pit_port_provider\<close>; \<open>pit_port_io\<close> is the code behind them, over
  a store of timers addressed by the owner handle of a route.
\<close>

section \<open>Providers\<close>

definition pit_read_counter ::
  "x86_pit ptr \<Rightarrow> nat \<Rightarrow> lib_u32 ptr \<Rightarrow> lib_status \<times> x86_pit ptr \<times> lib_u32 ptr" where
  "pit_read_counter owner counter out_value =
     (if owner = None \<or> out_value = None then (LIB_STATUS_INVALID_ARGUMENT, owner, out_value)
      else case x86_pit_read_counter owner counter (Some 0) of
        (status, owner, value) \<Rightarrow>
          (status, owner, if status = LIB_STATUS_OK then Some (ucast (the value)) else out_value))"

definition pit_read_0 :: "x86_pit ptr \<Rightarrow> lib_u16 \<Rightarrow> lib_u64 \<Rightarrow> lib_u32 ptr \<Rightarrow>
    lib_status \<times> x86_pit ptr \<times> lib_u32 ptr" where
  "pit_read_0 owner address tick out_value = pit_read_counter owner 0 out_value"

definition pit_read_1 :: "x86_pit ptr \<Rightarrow> lib_u16 \<Rightarrow> lib_u64 \<Rightarrow> lib_u32 ptr \<Rightarrow>
    lib_status \<times> x86_pit ptr \<times> lib_u32 ptr" where
  "pit_read_1 owner address tick out_value = pit_read_counter owner 1 out_value"

definition pit_read_2 :: "x86_pit ptr \<Rightarrow> lib_u16 \<Rightarrow> lib_u64 \<Rightarrow> lib_u32 ptr \<Rightarrow>
    lib_status \<times> x86_pit ptr \<times> lib_u32 ptr" where
  "pit_read_2 owner address tick out_value = pit_read_counter owner 2 out_value"

definition pit_write_0 :: "x86_pit ptr \<Rightarrow> lib_u16 \<Rightarrow> nat \<Rightarrow> lib_u32 \<Rightarrow> lib_status \<times> x86_pit ptr" where
  "pit_write_0 owner address access_bytes value = x86_pit_write_register owner 0 (ucast value)"

definition pit_write_1 :: "x86_pit ptr \<Rightarrow> lib_u16 \<Rightarrow> nat \<Rightarrow> lib_u32 \<Rightarrow> lib_status \<times> x86_pit ptr" where
  "pit_write_1 owner address access_bytes value = x86_pit_write_register owner 1 (ucast value)"

definition pit_write_2 :: "x86_pit ptr \<Rightarrow> lib_u16 \<Rightarrow> nat \<Rightarrow> lib_u32 \<Rightarrow> lib_status \<times> x86_pit ptr" where
  "pit_write_2 owner address access_bytes value = x86_pit_write_register owner 2 (ucast value)"

definition pit_write_3 :: "x86_pit ptr \<Rightarrow> lib_u16 \<Rightarrow> nat \<Rightarrow> lib_u32 \<Rightarrow> lib_status \<times> x86_pit ptr" where
  "pit_write_3 owner address access_bytes value = x86_pit_write_register owner 3 (ucast value)"

datatype pit_port_provider =
    PIT_READ_0 | PIT_READ_1 | PIT_READ_2
  | PIT_WRITE_0 | PIT_WRITE_1 | PIT_WRITE_2 | PIT_WRITE_3

fun pit_reader :: "pit_port_provider \<Rightarrow> x86_pit ptr \<Rightarrow> lib_u16 \<Rightarrow> lib_u64 \<Rightarrow> lib_u32 ptr \<Rightarrow>
    lib_status \<times> x86_pit ptr \<times> lib_u32 ptr" where
  "pit_reader PIT_READ_0 = pit_read_0"
| "pit_reader PIT_READ_1 = pit_read_1"
| "pit_reader PIT_READ_2 = pit_read_2"
| "pit_reader _ = (\<lambda>owner address tick out_value. (LIB_STATUS_UNSUPPORTED, owner, out_value))"

fun pit_writer :: "pit_port_provider \<Rightarrow> x86_pit ptr \<Rightarrow> lib_u16 \<Rightarrow> nat \<Rightarrow> lib_u32 \<Rightarrow>
    lib_status \<times> x86_pit ptr" where
  "pit_writer PIT_WRITE_0 = pit_write_0"
| "pit_writer PIT_WRITE_1 = pit_write_1"
| "pit_writer PIT_WRITE_2 = pit_write_2"
| "pit_writer PIT_WRITE_3 = pit_write_3"
| "pit_writer _ = (\<lambda>owner address access_bytes value. (LIB_STATUS_UNSUPPORTED, owner))"

text \<open>The hub calls a provider with its owner; the store of timers is the world of the call.\<close>

definition pit_port_io :: "(pit_port_provider, nat, nat \<Rightarrow> x86_pit ptr) port_io" where
  "pit_port_io = \<lparr>
     io_read = (\<lambda>provider owner address tick out w.
       case pit_reader provider (w owner) address tick (Some out) of
         (status, pit, value) \<Rightarrow> (status, the value, w(owner := pit))),
     io_write = (\<lambda>provider owner address access_bytes value w.
       case pit_writer provider (w owner) address access_bytes value of
         (status, pit) \<Rightarrow> (status, w(owner := pit)))\<rparr>"

section \<open>Installation\<close>

definition pit_routes :: "nat \<Rightarrow> lib_u16 \<Rightarrow> (pit_port_provider, nat) x86_core_machine_port_route list" where
  "pit_routes device base_port = map (\<lambda>index.
     \<lparr>route_address = base_port + of_nat index,
      route_read = [Some PIT_READ_0, Some PIT_READ_1, Some PIT_READ_2, None] ! index,
      route_write = [Some PIT_WRITE_0, Some PIT_WRITE_1, Some PIT_WRITE_2, Some PIT_WRITE_3] ! index,
      route_owner = device, route_wired_or_read = False, route_byte_lane_end = 0\<rparr>) [0..<4]"

fun x86_nxvm_board_pit_install_ports ::
  "((pit_port_provider, nat) t_port \<Rightarrow> bool) \<Rightarrow> bool \<Rightarrow> (pit_port_provider, nat) t_port ptr \<Rightarrow> nat ptr \<Rightarrow>
     lib_u16 \<Rightarrow> lib_status \<times> (pit_port_provider, nat) t_port ptr" where
  "x86_nxvm_board_pit_install_ports alloc configuration_open (Some machine) (Some device) base_port =
     (if base_port > 0xfffc then (LIB_STATUS_INVALID_ARGUMENT, Some machine)
      else case x86_core_machine_install_port_routes alloc configuration_open
                  (Some (pit_routes device base_port)) machine of
        (status, machine) \<Rightarrow> (status, Some machine))"
| "x86_nxvm_board_pit_install_ports alloc configuration_open machine device base_port =
     (LIB_STATUS_INVALID_ARGUMENT, machine)"

section \<open>Decoding\<close>

definition no_wired :: "('p, 'o) t_port \<Rightarrow> bool" where
  "no_wired p \<longleftrightarrow> (\<forall>b. \<forall>e \<in> set (port_buckets p b). \<not> pe_wired_or e)"

lemma add_provider_no_wired:
  assumes "no_wired p" and "x86_core_machine_port_add_provider alloc p a w rp wp ow False le = (LIB_STATUS_OK, q)"
  shows "no_wired q"
proof (cases rule: add_provider_cases [of alloc p a w rp wp ow False le])
  case refused
  then show ?thesis using assms(2) by simp
next
  case added
  then show ?thesis using assms by (auto simp: no_wired_def)
qed

lemma add_route_no_wired:
  assumes "no_wired p" and "\<not> route_wired_or_read r"
    and "x86_core_machine_port_add_route alloc p (Some r) = (LIB_STATUS_OK, q)"
  shows "no_wired q"
  using assms
  by (auto simp: x86_core_machine_port_add_route_def Let_def split: if_splits prod.splits
      intro: add_provider_no_wired)

lemma install_routes_no_wired:
  "no_wired p \<Longrightarrow> \<forall>r \<in> set rs. \<not> route_wired_or_read r \<Longrightarrow>
    install_routes alloc c rs p = (LIB_STATUS_OK, q) \<Longrightarrow> no_wired q"
proof (induction rs arbitrary: p)
  case (Cons r rs)
  then show ?case
    using add_route_no_wired [of p r alloc]
    by (auto split: prod.splits if_splits)
qed simp

lemma wired_reads_none:
  "\<forall>e \<in> set es. \<not> pe_wired_or e \<Longrightarrow> wired_reads io a tick es v w = (LIB_STATUS_OK, v, w)"
  by (induction es arbitrary: v w) auto

text \<open>An exclusive eight-bit provider answers reads and writes at its address.\<close>

lemma execute_read_provider:
  assumes "x86_core_machine_port_find_provider p a False = Some e" and "pe_read_provider e = Some rp"
    and "no_wired p" and "io_read io rp (pe_owner e) a tick (port_ioDWord p) w = (LIB_STATUS_OK, v, w')"
  shows "x86_core_machine_port_execute_read io p a tick w =
    (LIB_STATUS_OK, p\<lparr>port_access_bytes := 1, port_ioDWord := v\<rparr>, w')"
proof -
  have f: "x86_core_machine_port_find_provider (p\<lparr>port_access_bytes := 1\<rparr>) a False = Some e"
    using assms(1) by (simp add: x86_core_machine_port_find_provider_def)
  have "wired_reads io a tick (port_buckets p (port_bucket a)) v w' = (LIB_STATUS_OK, v, w')"
    by (rule wired_reads_none) (use assms(3) in \<open>simp add: no_wired_def\<close>)
  then show ?thesis using f assms(2,4)
    by (simp add: x86_core_machine_port_execute_read_def x86_core_machine_port_execute_read_current_def
        read_base_def entry_uses_lanes_def)
qed

lemma execute_write_provider:
  assumes "x86_core_machine_port_find_provider p a True = Some e" and "pe_write_provider e = Some wp"
    and "io_write io wp (pe_owner e) a 1 (port_ioDWord p) w = (status, w')"
  shows "x86_core_machine_port_execute_write io p a w = (status, p\<lparr>port_access_bytes := 1\<rparr>, w')"
proof -
  have f: "x86_core_machine_port_find_provider (p\<lparr>port_access_bytes := 1\<rparr>) a True = Some e"
    using assms(1) by (simp add: x86_core_machine_port_find_provider_def)
  then show ?thesis using assms(2,3)
    by (simp add: x86_core_machine_port_execute_write_def x86_core_machine_port_execute_write_current_def
        entry_uses_lanes_def)
qed

lemma pit_routes_nth:
  "k < 4 \<Longrightarrow> pit_routes device base ! k \<in> set (pit_routes device base)"
  "length (pit_routes device base) = 4"
  by (simp_all add: pit_routes_def)

lemma less_4_cases: "k < (4::nat) \<Longrightarrow> k = 0 \<or> k = 1 \<or> k = 2 \<or> k = 3"
  by linarith

lemma pit_installed:
  assumes "x86_nxvm_board_pit_install_ports alloc opened (Some port) (Some device) base = (LIB_STATUS_OK, Some port')"
    and "no_wired port"
  shows "\<forall>r \<in> set (pit_routes device base). route_installed port' r" and "no_wired port'"
proof -
  let ?rs = "pit_routes device base"
  have rs: "\<forall>r \<in> set ?rs. \<not> route_wired_or_read r" by (simp add: pit_routes_def)
  have "x86_core_machine_install_port_routes alloc opened (Some ?rs) port = (LIB_STATUS_OK, port')"
    using assms(1) by (auto split: if_splits prod.splits)
  then have i: "install_routes alloc (port_buckets port) ?rs (port\<lparr>port_registration_status := LIB_STATUS_OK\<rparr>) =
      (LIB_STATUS_OK, port')"
    by (auto simp: x86_core_machine_install_port_routes_def x86_core_machine_port_registration_begin_def
        split: if_splits)
  show "\<forall>r \<in> set ?rs. route_installed port' r" using install_routes_succeeds [OF i] by blast
  show "no_wired port'"
    by (rule install_routes_no_wired [OF _ rs i]) (use assms(2) in \<open>simp add: no_wired_def\<close>)
qed

lemma pit_writer_register:
  "k < 4 \<Longrightarrow> pit_writer ([PIT_WRITE_0, PIT_WRITE_1, PIT_WRITE_2, PIT_WRITE_3] ! k) owner address bytes value =
    x86_pit_write_register owner k (ucast value)"
  by (auto dest!: less_4_cases simp: pit_write_0_def pit_write_1_def pit_write_2_def pit_write_3_def
      simp del: x86_pit_write_register.simps)

lemma pit_reader_counter:
  "k < 3 \<Longrightarrow> pit_reader ([PIT_READ_0, PIT_READ_1, PIT_READ_2] ! k) owner address tick out =
    pit_read_counter owner k out"
proof -
  assume "k < 3"
  then consider "k = 0" | "k = 1" | "k = 2" by linarith
  then show ?thesis by cases (simp_all add: pit_read_0_def pit_read_1_def pit_read_2_def)
qed

lemma pit_read_counter_status:
  "k < 3 \<Longrightarrow> \<exists>pit' v. x86_pit_read_counter (Some pit) k (Some c) = (LIB_STATUS_OK, pit', Some v)"
  by (auto simp: Let_def split: prod.splits)

lemma pit_route_providers:
  assumes "route_installed port (pit_routes device base ! k)" and "k < 4"
  shows "\<exists>e. x86_core_machine_port_find_provider port (base + of_nat k) True = Some e \<and> pe_owner e = device \<and>
      pe_write_provider e = Some ([PIT_WRITE_0, PIT_WRITE_1, PIT_WRITE_2, PIT_WRITE_3] ! k)"
    and "k < 3 \<Longrightarrow> \<exists>e. x86_core_machine_port_find_provider port (base + of_nat k) False = Some e \<and>
      pe_owner e = device \<and> pe_read_provider e = Some ([PIT_READ_0, PIT_READ_1, PIT_READ_2] ! k)"
proof -
  have fields: "route_address (pit_routes device base ! k) = base + of_nat k"
    "route_owner (pit_routes device base ! k) = device"
    "\<not> route_wired_or_read (pit_routes device base ! k)"
    "route_write (pit_routes device base ! k) = Some ([PIT_WRITE_0, PIT_WRITE_1, PIT_WRITE_2, PIT_WRITE_3] ! k)"
    "k < 3 \<Longrightarrow> route_read (pit_routes device base ! k) = Some ([PIT_READ_0, PIT_READ_1, PIT_READ_2] ! k)"
    using less_4_cases [OF assms(2)] by (auto simp: pit_routes_def)
  show "\<exists>e. x86_core_machine_port_find_provider port (base + of_nat k) True = Some e \<and> pe_owner e = device \<and>
      pe_write_provider e = Some ([PIT_WRITE_0, PIT_WRITE_1, PIT_WRITE_2, PIT_WRITE_3] ! k)"
    using assms(1) unfolding route_installed_def fields(1-4) by blast
  show "\<exists>e. x86_core_machine_port_find_provider port (base + of_nat k) False = Some e \<and>
      pe_owner e = device \<and> pe_read_provider e = Some ([PIT_READ_0, PIT_READ_1, PIT_READ_2] ! k)" if "k < 3"
    using assms(1) fields(3) unfolding route_installed_def fields(1,2) fields(5) [OF that] by blast
qed

text \<open>
  C40: Once the timer is installed on the port hub at a base port, byte accesses reach exactly its
  registers: a write at \<open>base + k\<close> is a write of register \<open>k\<close> with the low byte of the data, and a
  read at \<open>base + k\<close>, for the three counters, returns the next byte of counter \<open>k\<close>, zero-extended.
\<close>

theorem pit_ports_decode:
  assumes "x86_nxvm_board_pit_install_ports alloc opened (Some port) (Some device) base =
      (LIB_STATUS_OK, Some port')"
    and "no_wired port" and "timers device = Some pit" and "k < 4"
  shows "(case x86_pit_write_register (Some pit) k (ucast (port_ioDWord port')) of (status, pit') \<Rightarrow>
      x86_core_machine_port_execute_write pit_port_io port' (base + of_nat k) timers =
        (status, port'\<lparr>port_access_bytes := 1\<rparr>, timers(device := pit'))) \<and>
    (k < 3 \<longrightarrow> (case x86_pit_read_counter (Some pit) k (Some 0) of (status, pit', value) \<Rightarrow>
      status = LIB_STATUS_OK \<and>
      x86_core_machine_port_execute_read pit_port_io port' (base + of_nat k) tick timers =
        (LIB_STATUS_OK, port'\<lparr>port_access_bytes := 1, port_ioDWord := ucast (the value)\<rparr>,
         timers(device := pit'))))"
proof -
  note inst = pit_installed [OF assms(1,2)]
  have "pit_routes device base ! k \<in> set (pit_routes device base)"
    using assms(4) by (simp add: pit_routes_nth)
  then have r: "route_installed port' (pit_routes device base ! k)" using inst(1) by blast
  obtain st pit' where w: "x86_pit_write_register (Some pit) k (ucast (port_ioDWord port')) = (st, pit')"
    by (cases "x86_pit_write_register (Some pit) k (ucast (port_ioDWord port'))")
  obtain e where e: "x86_core_machine_port_find_provider port' (base + of_nat k) True = Some e"
      "pe_owner e = device" "pe_write_provider e = Some ([PIT_WRITE_0, PIT_WRITE_1, PIT_WRITE_2, PIT_WRITE_3] ! k)"
    using pit_route_providers(1) [OF r assms(4)] by blast
  have wr: "x86_core_machine_port_execute_write pit_port_io port' (base + of_nat k) timers =
      (st, port'\<lparr>port_access_bytes := 1\<rparr>, timers(device := pit'))"
    by (rule execute_write_provider [OF e(1,3)])
      (simp add: pit_port_io_def e(2) assms(3) pit_writer_register [OF assms(4)] w del: x86_pit_write_register.simps)
  have rd: "case x86_pit_read_counter (Some pit) k (Some 0) of (status, pit', value) \<Rightarrow>
      status = LIB_STATUS_OK \<and>
      x86_core_machine_port_execute_read pit_port_io port' (base + of_nat k) tick timers =
        (LIB_STATUS_OK, port'\<lparr>port_access_bytes := 1, port_ioDWord := ucast (the value)\<rparr>,
         timers(device := pit'))" if k: "k < 3"
  proof -
    obtain q v where q: "x86_pit_read_counter (Some pit) k (Some 0) = (LIB_STATUS_OK, q, Some v)"
      using pit_read_counter_status [OF k] by blast
    obtain e where e: "x86_core_machine_port_find_provider port' (base + of_nat k) False = Some e"
        "pe_owner e = device" "pe_read_provider e = Some ([PIT_READ_0, PIT_READ_1, PIT_READ_2] ! k)"
      using pit_route_providers(2) [OF r assms(4) k] by blast
    have "x86_core_machine_port_execute_read pit_port_io port' (base + of_nat k) tick timers =
        (LIB_STATUS_OK, port'\<lparr>port_access_bytes := 1, port_ioDWord := ucast v\<rparr>, timers(device := q))"
      by (rule execute_read_provider [OF e(1,3) inst(2)])
        (simp add: pit_port_io_def e(2) assms(3) pit_reader_counter [OF k] pit_read_counter_def q
          del: x86_pit_read_counter.simps)
    then show ?thesis by (simp add: q del: x86_pit_read_counter.simps)
  qed
  show ?thesis using wr rd by (simp add: w del: x86_pit_write_register.simps x86_pit_read_counter.simps)
qed

text \<open>A hub with a timer at ports 40h to 43h, and the command that latches counter 0.\<close>

definition pit_demo_hub :: "(pit_port_provider, nat) t_port" where
  "pit_demo_hub = the (snd (x86_nxvm_board_pit_install_ports (\<lambda>_. True) True (Some port_zero) (Some 5) 0x40))"

lemma pit_demo_install:
  "x86_nxvm_board_pit_install_ports (\<lambda>_. True) True (Some port_zero) (Some 5) 0x40 =
    (LIB_STATUS_OK, Some pit_demo_hub)"
proof -
  let ?i = "x86_nxvm_board_pit_install_ports (\<lambda>_. True) True (Some port_zero) (Some 5) 0x40"
  have "fst ?i = LIB_STATUS_OK" by code_simp
  moreover have "snd ?i = Some (the (snd ?i))" by (simp split: prod.splits)
  ultimately show ?thesis unfolding pit_demo_hub_def by (metis prod.collapse)
qed

theorem pit_ports_decode_witness:
  "\<exists>pit'. x86_core_machine_port_execute_write pit_port_io pit_demo_hub 0x42
      (\<lambda>_. Some (the (the (snd (x86_pit_create (Some X86_PIT_PERSONALITY_8254) True (Some None)))))) =
    (LIB_STATUS_OK, pit_demo_hub\<lparr>port_access_bytes := 1\<rparr>, pit')"
proof -
  let ?pit = "the (the (snd (x86_pit_create (Some X86_PIT_PERSONALITY_8254) True (Some None))))"
  have "no_wired port_zero" by (simp add: no_wired_def port_zero_def)
  note decode = pit_ports_decode [OF pit_demo_install this,
    where timers = "\<lambda>_. Some ?pit" and pit = ?pit and k = 2, THEN conjunct1]
  have "case x86_pit_write_register (Some ?pit) 2 (ucast (port_ioDWord pit_demo_hub)) of (status, pit') \<Rightarrow>
      x86_core_machine_port_execute_write pit_port_io pit_demo_hub (0x40 + of_nat 2) (\<lambda>_. Some ?pit) =
        (status, pit_demo_hub\<lparr>port_access_bytes := 1\<rparr>, (\<lambda>_. Some ?pit)(5 := pit'))"
    by (rule decode) simp_all
  then show ?thesis by auto
qed

end
