(* ===== verification/Uart.thy ===== *)
theory Uart
  imports Prelude
begin

unbundle bit_operations_syntax

text \<open>
  The 16550 serial port, \<^verbatim>\<open>src/src/x86-nxvm/chips/uart16550/uart16550.c\<close>: two FIFOs, the
  character clock, line and modem status, interrupt priority. The FIFO arrays are functions from
  the index; the byte-sized heads and counts, which the invariant keeps below 16 and at most 16,
  are natural numbers. The loop of \<^verbatim>\<open>x86_uart16550_advance\<close> is a partial function whose
  value \<open>None\<close> stands for not returning.
\<close>

section \<open>State\<close>

abbreviation UART_FIFO_BYTES :: nat where "UART_FIFO_BYTES \<equiv> 16"

record x86_uart16550 =
  ua_ticks_per_second :: lib_u32
  ua_input_clock_hz :: lib_u32
  ua_divisor :: lib_u16
  ua_ier :: lib_u8
  ua_lcr :: lib_u8
  ua_mcr :: lib_u8
  ua_scr :: lib_u8
  ua_fcr :: lib_u8
  ua_lsr_error :: lib_u8
  ua_msr_delta :: lib_u8
  ua_modem :: lib_u8
  ua_rx :: "nat \<Rightarrow> lib_u8"
  ua_tx :: "nat \<Rightarrow> lib_u8"
  ua_rx_head :: nat
  ua_rx_count :: nat
  ua_tx_head :: nat
  ua_tx_count :: nat
  ua_transmitting :: lib_u8
  ua_shift_busy :: bool
  ua_thre_pending :: bool
  ua_receive_timeout :: bool
  ua_tx_ticks :: lib_u64
  ua_rx_ticks :: lib_u64

definition zero_uart :: x86_uart16550 where
  "zero_uart = \<lparr>ua_ticks_per_second = 0, ua_input_clock_hz = 0, ua_divisor = 0, ua_ier = 0,
     ua_lcr = 0, ua_mcr = 0, ua_scr = 0, ua_fcr = 0, ua_lsr_error = 0, ua_msr_delta = 0,
     ua_modem = 0, ua_rx = (\<lambda>_. 0), ua_tx = (\<lambda>_. 0), ua_rx_head = 0, ua_rx_count = 0,
     ua_tx_head = 0, ua_tx_count = 0, ua_transmitting = 0, ua_shift_busy = False,
     ua_thre_pending = False, ua_receive_timeout = False, ua_tx_ticks = 0, ua_rx_ticks = 0\<rparr>"

section \<open>Operations\<close>

definition uart_capacity :: "x86_uart16550 \<Rightarrow> nat" where
  "uart_capacity uart = (if ua_fcr uart AND 1 \<noteq> 0 then UART_FIFO_BYTES else 1)"

definition uart_trigger :: "x86_uart16550 \<Rightarrow> nat" where
  "uart_trigger uart =
     (if ua_fcr uart AND 1 \<noteq> 0 then [1, 4, 8, 14] ! unat (drop_bit 6 (ua_fcr uart) AND 3) else 1)"

definition uart_character_ticks :: "x86_uart16550 \<Rightarrow> lib_u64" where
  "uart_character_ticks uart =
     (let divisor = (if ua_divisor uart \<noteq> 0 then ucast (ua_divisor uart) else 1) :: lib_u64;
          data_bits = 5 + ucast (ua_lcr uart AND 3) :: lib_u64;
          half_bits = 2 + 2 * data_bits + (if ua_lcr uart AND 8 \<noteq> 0 then 2 else 0) +
            (if ua_lcr uart AND 4 = 0 then 2 else if data_bits = 5 then 3 else 4);
          numerator = ucast (ua_ticks_per_second uart) * divisor * 8 * half_bits;
          ticks = (numerator + ucast (ua_input_clock_hz uart) - 1) div ucast (ua_input_clock_hz uart)
      in if ticks \<noteq> 0 then ticks else 1)"

definition uart_restart_receive_timeout :: "x86_uart16550 \<Rightarrow> x86_uart16550" where
  "uart_restart_receive_timeout uart =
     uart\<lparr>ua_receive_timeout := False,
       ua_rx_ticks := (if ua_rx_count uart \<noteq> 0 \<and> ua_fcr uart AND 1 \<noteq> 0
         then 4 * uart_character_ticks uart else 0)\<rparr>"

definition uart_receive :: "lib_u8 \<Rightarrow> x86_uart16550 \<Rightarrow> x86_uart16550" where
  "uart_receive value uart =
     (if ua_rx_count uart = uart_capacity uart then uart\<lparr>ua_lsr_error := ua_lsr_error uart OR 2\<rparr>
      else uart_restart_receive_timeout (uart\<lparr>
        ua_rx := (ua_rx uart)((ua_rx_head uart + ua_rx_count uart) mod UART_FIFO_BYTES := value),
        ua_rx_count := ua_rx_count uart + 1\<rparr>))"

definition uart_start_transmit :: "x86_uart16550 \<Rightarrow> x86_uart16550" where
  "uart_start_transmit uart =
     (if ua_shift_busy uart \<or> ua_tx_count uart = 0 then uart
      else
        let uart = uart\<lparr>ua_transmitting := ua_tx uart (ua_tx_head uart),
              ua_tx_head := (ua_tx_head uart + 1) mod UART_FIFO_BYTES,
              ua_tx_count := ua_tx_count uart - 1, ua_shift_busy := True,
              ua_tx_ticks := uart_character_ticks uart\<rparr>
        in if ua_tx_count uart = 0 then uart\<lparr>ua_thre_pending := True\<rparr> else uart)"

definition uart_interrupt :: "x86_uart16550 \<Rightarrow> lib_u8" where
  "uart_interrupt uart =
     (if ua_ier uart AND 4 \<noteq> 0 \<and> ua_lsr_error uart \<noteq> 0 then 6
      else if ua_ier uart AND 1 \<noteq> 0 \<and> ua_rx_count uart \<ge> uart_trigger uart then 4
      else if ua_ier uart AND 1 \<noteq> 0 \<and> ua_receive_timeout uart then 12
      else if ua_ier uart AND 2 \<noteq> 0 \<and> ua_thre_pending uart then 2
      else if ua_ier uart AND 8 \<noteq> 0 \<and> ua_msr_delta uart \<noteq> 0 then 0
      else 1)"

fun x86_uart16550_reset :: "x86_uart16550 ptr \<Rightarrow> x86_uart16550 ptr" where
  "x86_uart16550_reset None = None"
| "x86_uart16550_reset (Some uart) =
     Some (zero_uart\<lparr>ua_ticks_per_second := ua_ticks_per_second uart,
       ua_input_clock_hz := ua_input_clock_hz uart, ua_thre_pending := True\<rparr>)"

fun x86_uart16550_create ::
  "lib_u32 \<Rightarrow> lib_u32 \<Rightarrow> bool \<Rightarrow> x86_uart16550 ptr ptr \<Rightarrow> lib_status \<times> x86_uart16550 ptr ptr" where
  "x86_uart16550_create ticks_per_second input_clock_hz allocated None =
     (LIB_STATUS_INVALID_ARGUMENT, None)"
| "x86_uart16550_create ticks_per_second input_clock_hz allocated (Some out_uart) =
     (if ticks_per_second = 0 \<or> input_clock_hz = 0 then (LIB_STATUS_INVALID_ARGUMENT, Some None)
      else if \<not> allocated then (LIB_STATUS_NO_MEMORY, Some None)
      else (LIB_STATUS_OK, Some (x86_uart16550_reset (Some (zero_uart\<lparr>
              ua_ticks_per_second := ticks_per_second, ua_input_clock_hz := input_clock_hz\<rparr>)))))"

fun x86_uart16550_read :: "x86_uart16550 ptr \<Rightarrow> nat \<Rightarrow> lib_u8 \<times> x86_uart16550 ptr" where
  "x86_uart16550_read None offset = (0xff, None)"
| "x86_uart16550_read (Some uart) offset =
     (if offset > 7 then (0xff, Some uart)
      else if ua_lcr uart AND 0x80 \<noteq> 0 \<and> offset < 2 then
        (if offset = 0 then ucast (ua_divisor uart) else ucast (drop_bit 8 (ua_divisor uart)),
         Some uart)
      else if offset = 0 then
        if ua_rx_count uart = 0 then (0, Some uart)
        else (ua_rx uart (ua_rx_head uart),
              Some (uart_restart_receive_timeout (uart\<lparr>
                ua_rx_head := (ua_rx_head uart + 1) mod UART_FIFO_BYTES,
                ua_rx_count := ua_rx_count uart - 1\<rparr>)))
      else if offset = 1 then (ua_ier uart, Some uart)
      else if offset = 2 then
        let result = uart_interrupt uart
        in (result OR (if ua_fcr uart AND 1 \<noteq> 0 then 0xc0 else 0),
            Some (if result = 2 then uart\<lparr>ua_thre_pending := False\<rparr> else uart))
      else if offset = 3 then (ua_lcr uart, Some uart)
      else if offset = 4 then (ua_mcr uart, Some uart)
      else if offset = 5 then
        (ua_lsr_error uart OR (if ua_rx_count uart \<noteq> 0 then 1 else 0) OR
           (if ua_tx_count uart = 0 then 0x20 else 0) OR
           (if \<not> ua_shift_busy uart \<and> ua_tx_count uart = 0 then 0x40 else 0),
         Some (uart\<lparr>ua_lsr_error := 0\<rparr>))
      else if offset = 6 then
        (ua_modem uart OR ua_msr_delta uart, Some (uart\<lparr>ua_msr_delta := 0\<rparr>))
      else (ua_scr uart, Some uart))"

definition uart_write_fcr :: "lib_u8 \<Rightarrow> x86_uart16550 \<Rightarrow> x86_uart16550" where
  "uart_write_fcr value uart =
     (let toggled = (ua_fcr uart XOR value) AND 1 \<noteq> 0;
          uart = (if toggled \<or> value AND 2 \<noteq> 0
                  then uart_restart_receive_timeout (uart\<lparr>ua_rx_head := 0, ua_rx_count := 0\<rparr>)
                  else uart);
          uart = (if toggled \<or> value AND 4 \<noteq> 0
                  then uart\<lparr>ua_tx_head := 0, ua_tx_count := 0, ua_thre_pending := True\<rparr>
                  else uart)
      in uart\<lparr>ua_fcr := value AND 0xc1\<rparr>)"

definition uart_write_mcr :: "lib_u8 \<Rightarrow> x86_uart16550 \<Rightarrow> x86_uart16550" where
  "uart_write_mcr value uart =
     (let old = ua_modem uart;
          modem = (if value AND 0x10 \<noteq> 0 then
              (if value AND 2 \<noteq> 0 then 0x10 else 0) OR (if value AND 1 \<noteq> 0 then 0x20 else 0) OR
              (if value AND 4 \<noteq> 0 then 0x40 else 0) OR (if value AND 8 \<noteq> 0 then 0x80 else 0)
            else 0);
          uart = uart\<lparr>ua_mcr := value AND 0x1f, ua_modem := modem,
            ua_msr_delta := ua_msr_delta uart OR (drop_bit 4 (old XOR modem) AND 0x0b)\<rparr>
      in if old AND 0x40 \<noteq> 0 \<and> ua_modem uart AND 0x40 = 0
         then uart\<lparr>ua_msr_delta := ua_msr_delta uart OR 4\<rparr> else uart)"

fun x86_uart16550_write :: "x86_uart16550 ptr \<Rightarrow> nat \<Rightarrow> lib_u8 \<Rightarrow> x86_uart16550 ptr" where
  "x86_uart16550_write None offset value = None"
| "x86_uart16550_write (Some uart) offset value = Some
     (if offset > 7 then uart
      else if ua_lcr uart AND 0x80 \<noteq> 0 \<and> offset < 2 then
        if offset = 0 then uart\<lparr>ua_divisor := (ua_divisor uart AND 0xff00) OR ucast value\<rparr>
        else uart\<lparr>ua_divisor := (ua_divisor uart AND 0x00ff) OR push_bit 8 (ucast value)\<rparr>
      else if offset = 0 then
        if ua_tx_count uart < uart_capacity uart then
          uart_start_transmit (uart\<lparr>
            ua_tx := (ua_tx uart)((ua_tx_head uart + ua_tx_count uart) mod UART_FIFO_BYTES := value),
            ua_tx_count := ua_tx_count uart + 1, ua_thre_pending := False\<rparr>)
        else uart
      else if offset = 1 then
        let uart = (if ua_ier uart AND 2 = 0 \<and> value AND 2 \<noteq> 0 \<and> ua_tx_count uart = 0
                    then uart\<lparr>ua_thre_pending := True\<rparr> else uart)
        in uart\<lparr>ua_ier := value AND 0x0f\<rparr>
      else if offset = 2 then uart_write_fcr value uart
      else if offset = 3 then uart\<lparr>ua_lcr := value\<rparr>
      else if offset = 4 then uart_write_mcr value uart
      else if offset = 7 then uart\<lparr>ua_scr := value\<rparr>
      else uart)"

text \<open>One turn of the loop of \<^verbatim>\<open>x86_uart16550_advance\<close>: its length and its effect.\<close>

definition uart_step_length :: "lib_u64 \<Rightarrow> x86_uart16550 \<Rightarrow> lib_u64" where
  "uart_step_length ticks uart =
     (let step = ticks;
          step = (if ua_shift_busy uart \<and> ua_tx_ticks uart < step then ua_tx_ticks uart else step)
      in if ua_rx_ticks uart \<noteq> 0 \<and> ua_rx_ticks uart < step then ua_rx_ticks uart else step)"

definition uart_step :: "lib_u64 \<Rightarrow> x86_uart16550 \<Rightarrow> x86_uart16550" where
  "uart_step step uart =
     (let uart = (if ua_rx_ticks uart \<noteq> 0 then
            let uart = uart\<lparr>ua_rx_ticks := ua_rx_ticks uart - step\<rparr>
            in if ua_rx_ticks uart = 0 then uart\<lparr>ua_receive_timeout := True\<rparr> else uart
          else uart)
      in if ua_shift_busy uart then
           let uart = uart\<lparr>ua_tx_ticks := ua_tx_ticks uart - step\<rparr>
           in if ua_tx_ticks uart = 0 then
                let uart = uart\<lparr>ua_shift_busy := False\<rparr>;
                    uart = (if ua_mcr uart AND 0x10 \<noteq> 0
                            then uart_receive (ua_transmitting uart) uart else uart)
                in uart_start_transmit uart
              else uart
         else uart)"

partial_function (option) uart_advance_loop ::
  "lib_u64 \<Rightarrow> x86_uart16550 \<Rightarrow> x86_uart16550 option" where
  "uart_advance_loop ticks uart =
     (if ticks = 0 then Some uart
      else uart_advance_loop (ticks - uart_step_length ticks uart)
             (uart_step (uart_step_length ticks uart) uart))"

fun x86_uart16550_advance :: "x86_uart16550 ptr \<Rightarrow> lib_u64 \<Rightarrow> x86_uart16550 ptr option" where
  "x86_uart16550_advance None ticks = Some None"
| "x86_uart16550_advance (Some uart) ticks = map_option Some (uart_advance_loop ticks uart)"

fun x86_uart16550_next_event ::
  "x86_uart16550 ptr \<Rightarrow> lib_u64 ptr \<Rightarrow> bool \<times> lib_u64 ptr" where
  "x86_uart16550_next_event (Some uart) (Some out_ticks) =
     (if \<not> ua_shift_busy uart \<and> ua_rx_ticks uart = 0 then (False, Some out_ticks)
      else
        let ticks = (if ua_shift_busy uart then ua_tx_ticks uart else ua_rx_ticks uart);
            ticks = (if ua_rx_ticks uart \<noteq> 0 \<and> ua_rx_ticks uart < ticks then ua_rx_ticks uart
                     else ticks)
        in (True, Some ticks))"
| "x86_uart16550_next_event uart out_ticks = (False, out_ticks)"

fun x86_uart16550_irq :: "x86_uart16550 ptr \<Rightarrow> bool" where
  "x86_uart16550_irq None = False"
| "x86_uart16550_irq (Some uart) = (uart_interrupt uart \<noteq> 1)"

fun x86_uart16550_out2 :: "x86_uart16550 ptr \<Rightarrow> bool" where
  "x86_uart16550_out2 None = False"
| "x86_uart16550_out2 (Some uart) = (ua_mcr uart AND 8 \<noteq> 0)"

section \<open>Invariant\<close>

definition uart_ok :: "x86_uart16550 \<Rightarrow> bool" where
  "uart_ok u \<longleftrightarrow> ua_rx_head u < 16 \<and> ua_tx_head u < 16 \<and>
     ua_rx_count u \<le> uart_capacity u \<and> ua_tx_count u \<le> uart_capacity u \<and>
     (ua_shift_busy u \<longrightarrow> ua_tx_ticks u \<noteq> 0) \<and> (\<not> ua_shift_busy u \<longrightarrow> ua_tx_count u = 0) \<and>
     (ua_receive_timeout u \<longrightarrow> ua_rx_ticks u = 0)"

lemma character_ticks_pos: "uart_character_ticks u \<noteq> 0"
  by (simp add: uart_character_ticks_def Let_def)

lemma restart_timeout_fields [simp]:
  "ua_rx_head (uart_restart_receive_timeout u) = ua_rx_head u"
  "ua_rx_count (uart_restart_receive_timeout u) = ua_rx_count u"
  "ua_rx (uart_restart_receive_timeout u) = ua_rx u"
  "ua_tx_head (uart_restart_receive_timeout u) = ua_tx_head u"
  "ua_tx_count (uart_restart_receive_timeout u) = ua_tx_count u"
  "ua_tx (uart_restart_receive_timeout u) = ua_tx u"
  "ua_fcr (uart_restart_receive_timeout u) = ua_fcr u"
  "ua_mcr (uart_restart_receive_timeout u) = ua_mcr u"
  "ua_shift_busy (uart_restart_receive_timeout u) = ua_shift_busy u"
  "ua_tx_ticks (uart_restart_receive_timeout u) = ua_tx_ticks u"
  "ua_transmitting (uart_restart_receive_timeout u) = ua_transmitting u"
  "\<not> ua_receive_timeout (uart_restart_receive_timeout u)"
  "uart_capacity (uart_restart_receive_timeout u) = uart_capacity u"
  by (simp_all add: uart_restart_receive_timeout_def uart_capacity_def)

lemma capacity_cong [simp]:
  "uart_capacity (u\<lparr>ua_rx := a\<rparr>) = uart_capacity u" "uart_capacity (u\<lparr>ua_rx_count := n\<rparr>) = uart_capacity u"
  "uart_capacity (u\<lparr>ua_tx := a\<rparr>) = uart_capacity u" "uart_capacity (u\<lparr>ua_tx_count := n\<rparr>) = uart_capacity u"
  "uart_capacity (u\<lparr>ua_thre_pending := b\<rparr>) = uart_capacity u"
  by (simp_all add: uart_capacity_def)

definition rx_list :: "x86_uart16550 \<Rightarrow> lib_u8 list" where
  "rx_list u = ring_list 16 (ua_rx u) (ua_rx_head u) (ua_rx_count u)"

definition tx_list :: "x86_uart16550 \<Rightarrow> lib_u8 list" where
  "tx_list u = ring_list 16 (ua_tx u) (ua_tx_head u) (ua_tx_count u)"

text \<open>The characters on their way out: the one in the shift register, then the FIFO.\<close>

definition tx_stream :: "x86_uart16550 \<Rightarrow> lib_u8 list" where
  "tx_stream u = (if ua_shift_busy u then [ua_transmitting u] else []) @ tx_list u"

lemma capacity_le: "uart_capacity u \<le> 16" "0 < uart_capacity u"
  by (simp_all add: uart_capacity_def)

text \<open>What a start of transmission changes, and that it keeps the stream.\<close>

lemma start_transmit_ok:
  assumes "ua_tx_head u < 16" and "ua_tx_count u \<le> uart_capacity u" and "ua_rx_head u < 16"
    and "ua_rx_count u \<le> uart_capacity u" and "ua_shift_busy u \<longrightarrow> ua_tx_ticks u \<noteq> 0"
    and "ua_receive_timeout u \<longrightarrow> ua_rx_ticks u = 0"
  shows "uart_ok (uart_start_transmit u)"
  using assms character_ticks_pos [of u]
  by (auto simp: uart_start_transmit_def uart_ok_def uart_capacity_def Let_def)

lemma start_transmit_stream:
  assumes "ua_tx_head u < 16"
  shows "tx_stream (uart_start_transmit u) = tx_stream u"
proof (cases "ua_shift_busy u \<or> ua_tx_count u = 0")
  case True
  then show ?thesis by (simp add: uart_start_transmit_def)
next
  case False
  then have "tx_list u = ua_tx u (ua_tx_head u) #
      ring_list 16 (ua_tx u) (Suc (ua_tx_head u) mod 16) (ua_tx_count u - 1)"
    using ring_list_pop [of "ua_tx_count u" 16 "ua_tx u" "ua_tx_head u"] assms
    by (simp add: tx_list_def)
  then show ?thesis using False
    by (simp add: uart_start_transmit_def tx_stream_def Let_def) (simp add: tx_list_def)
qed

lemma start_transmit_rx [simp]:
  "rx_list (uart_start_transmit u) = rx_list u"
  "ua_rx_count (uart_start_transmit u) = ua_rx_count u" "ua_fcr (uart_start_transmit u) = ua_fcr u"
  "ua_mcr (uart_start_transmit u) = ua_mcr u" "ua_rx_ticks (uart_start_transmit u) = ua_rx_ticks u"
  by (simp_all add: uart_start_transmit_def rx_list_def Let_def)

lemma receive_fields [simp]:
  "ua_tx_head (uart_receive v u) = ua_tx_head u" "ua_tx_count (uart_receive v u) = ua_tx_count u"
  "ua_tx (uart_receive v u) = ua_tx u" "ua_shift_busy (uart_receive v u) = ua_shift_busy u"
  "ua_transmitting (uart_receive v u) = ua_transmitting u" "ua_fcr (uart_receive v u) = ua_fcr u"
  "ua_mcr (uart_receive v u) = ua_mcr u" "ua_rx_head (uart_receive v u) = ua_rx_head u"
  "ua_tx_ticks (uart_receive v u) = ua_tx_ticks u"
  "tx_stream (uart_receive v u) = tx_stream u"
  "uart_capacity (uart_receive v u) = uart_capacity u"
  by (simp_all add: uart_receive_def tx_stream_def tx_list_def uart_capacity_def)

lemma receive_count:
  "ua_rx_count u \<le> uart_capacity u \<Longrightarrow> ua_rx_count (uart_receive v u) \<le> uart_capacity u"
  "ua_receive_timeout u \<longrightarrow> ua_rx_ticks u = 0 \<Longrightarrow>
     ua_receive_timeout (uart_receive v u) \<longrightarrow> ua_rx_ticks (uart_receive v u) = 0"
  by (simp_all add: uart_receive_def)

lemma receive_appends:
  assumes "ua_rx_count u < uart_capacity u"
  shows "rx_list (uart_receive v u) = rx_list u @ [v]"
proof -
  have "ua_rx_count u < 16" using assms capacity_le(1) [of u] by linarith
  then show ?thesis using assms
    by (simp add: uart_receive_def rx_list_def ring_list_push)
qed

text \<open>The two halves of a turn of the loop.\<close>

definition uart_tick_rx :: "lib_u64 \<Rightarrow> x86_uart16550 \<Rightarrow> x86_uart16550" where
  "uart_tick_rx step u =
     (if ua_rx_ticks u \<noteq> 0
      then u\<lparr>ua_rx_ticks := ua_rx_ticks u - step,
             ua_receive_timeout := ua_receive_timeout u \<or> ua_rx_ticks u = step\<rparr>
      else u)"

definition uart_tick_tx :: "lib_u64 \<Rightarrow> x86_uart16550 \<Rightarrow> x86_uart16550" where
  "uart_tick_tx step u =
     (if \<not> ua_shift_busy u then u
      else if ua_tx_ticks u = step then
        let u = u\<lparr>ua_tx_ticks := 0, ua_shift_busy := False\<rparr>
        in uart_start_transmit
             (if ua_mcr u AND 0x10 \<noteq> 0 then uart_receive (ua_transmitting u) u else u)
      else u\<lparr>ua_tx_ticks := ua_tx_ticks u - step\<rparr>)"

lemma uart_step_halves: "uart_step step u = uart_tick_tx step (uart_tick_rx step u)"
  by (cases u) (simp add: uart_step_def uart_tick_tx_def uart_tick_rx_def Let_def)

lemma tick_rx_fields [simp]:
  "ua_rx_head (uart_tick_rx n u) = ua_rx_head u" "ua_rx_count (uart_tick_rx n u) = ua_rx_count u"
  "ua_tx_head (uart_tick_rx n u) = ua_tx_head u" "ua_tx_count (uart_tick_rx n u) = ua_tx_count u"
  "ua_shift_busy (uart_tick_rx n u) = ua_shift_busy u" "ua_tx_ticks (uart_tick_rx n u) = ua_tx_ticks u"
  "uart_capacity (uart_tick_rx n u) = uart_capacity u" "ua_mcr (uart_tick_rx n u) = ua_mcr u"
  "ua_fcr (uart_tick_rx n u) = ua_fcr u" "rx_list (uart_tick_rx n u) = rx_list u"
  "tx_stream (uart_tick_rx n u) = tx_stream u" "tx_list (uart_tick_rx n u) = tx_list u"
  "ua_transmitting (uart_tick_rx n u) = ua_transmitting u"
  by (simp_all add: uart_tick_rx_def uart_capacity_def rx_list_def tx_stream_def tx_list_def)

lemma tick_rx_ok:
  "uart_ok u \<Longrightarrow> uart_ok (uart_tick_rx n u)"
  by (auto simp: uart_ok_def uart_tick_rx_def uart_capacity_def)

lemma tick_tx_ok:
  assumes ok: "uart_ok u" and "ua_shift_busy u \<longrightarrow> n \<le> ua_tx_ticks u"
  shows "uart_ok (uart_tick_tx n u)"
proof (cases "ua_shift_busy u \<and> ua_tx_ticks u = n")
  case False
  then show ?thesis using ok by (auto simp: uart_tick_tx_def uart_ok_def uart_capacity_def)
next
  case True
  let ?u = "u\<lparr>ua_tx_ticks := 0, ua_shift_busy := False\<rparr>"
  have c: "uart_capacity ?u = uart_capacity u" by (simp add: uart_capacity_def)
  have "uart_ok (uart_start_transmit (if ua_mcr ?u AND 0x10 \<noteq> 0
      then uart_receive (ua_transmitting ?u) ?u else ?u))"
    by (rule start_transmit_ok)
      (use ok receive_count [of ?u "ua_transmitting ?u"] in \<open>auto simp: uart_ok_def c\<close>)
  then show ?thesis using True by (simp add: uart_tick_tx_def Let_def)
qed

lemma step_length_bounds:
  assumes "uart_ok u" and "ticks \<noteq> 0"
  shows "uart_step_length ticks u \<noteq> 0" "uart_step_length ticks u \<le> ticks"
    "ua_shift_busy u \<longrightarrow> uart_step_length ticks u \<le> ua_tx_ticks u"
    "ua_rx_ticks u \<noteq> 0 \<longrightarrow> uart_step_length ticks u \<le> ua_rx_ticks u"
  using assms by (auto simp: uart_step_length_def uart_ok_def Let_def)

lemma uart_step_ok: "uart_ok u \<Longrightarrow> ticks \<noteq> 0 \<Longrightarrow> uart_ok (uart_step (uart_step_length ticks u) u)"
  unfolding uart_step_halves using step_length_bounds(3) [of u ticks]
  by (intro tick_tx_ok tick_rx_ok) auto

text \<open>
  The loop makes progress at every turn, so it returns, and a property that every turn keeps holds
  of its result.
\<close>

lemma uart_loop_invariant:
  assumes "uart_ok u" and "P ticks u"
    and "\<And>u t. uart_ok u \<Longrightarrow> P t u \<Longrightarrow> t \<noteq> 0 \<Longrightarrow>
      P (t - uart_step_length t u) (uart_step (uart_step_length t u) u)"
  shows "\<exists>u'. uart_advance_loop ticks u = Some u' \<and> uart_ok u' \<and> P 0 u'"
  using assms(1,2)
proof (induction "unat ticks" arbitrary: ticks u rule: less_induct)
  case less
  show ?case
  proof (cases "ticks = 0")
    case True
    then show ?thesis using less.prems by (simp add: uart_advance_loop.simps)
  next
    case False
    let ?n = "uart_step_length ticks u"
    have n: "?n \<noteq> 0" "?n \<le> ticks" using step_length_bounds [OF less.prems(1) False] by simp_all
    have "0 < unat ?n" using n(1) by (simp only: unat_gt_0 not_False_eq_True)
    moreover have "unat ?n \<le> unat ticks" using n(2) by (simp only: word_le_nat_alt)
    ultimately have "unat (ticks - ?n) < unat ticks" by (simp add: unat_sub [OF n(2)])
    from less.hyps [OF this uart_step_ok [OF less.prems(1) False]
        assms(3) [OF less.prems False]]
    show ?thesis using False by (subst uart_advance_loop.simps) simp
  qed
qed

lemma uart_loop_returns:
  assumes "uart_ok u"
  obtains u' where "uart_advance_loop ticks u = Some u'" "uart_ok u'"
  using uart_loop_invariant [of u "\<lambda>_ _. True" ticks] assms by auto

subsection \<open>Cutting time\<close>

lemma tick_rx_split:
  assumes "ua_rx_ticks u \<noteq> 0 \<longrightarrow> a < ua_rx_ticks u"
  shows "uart_tick_rx b (uart_tick_rx a u) = uart_tick_rx (a + b) u"
proof (cases "ua_rx_ticks u = 0")
  case True
  then show ?thesis by (simp add: uart_tick_rx_def)
next
  case False
  then have "ua_rx_ticks u - a \<noteq> 0" and "ua_rx_ticks u \<noteq> a" using assms by auto
  moreover have "ua_rx_ticks u - a = b \<longleftrightarrow> ua_rx_ticks u = a + b" by (auto simp: algebra_simps)
  ultimately show ?thesis using False by (simp add: uart_tick_rx_def algebra_simps)
qed

lemma tick_tx_early:
  "ua_shift_busy u \<longrightarrow> a < ua_tx_ticks u \<Longrightarrow>
    uart_tick_tx a u = (if ua_shift_busy u then u\<lparr>ua_tx_ticks := ua_tx_ticks u - a\<rparr> else u)"
  by (auto simp: uart_tick_tx_def)

lemma tick_tx_rx_commute:
  "ua_shift_busy u \<longrightarrow> a < ua_tx_ticks u \<Longrightarrow>
    uart_tick_rx b (uart_tick_tx a u) = uart_tick_tx a (uart_tick_rx b u)"
  by (simp add: tick_tx_early) (simp add: uart_tick_rx_def)

lemma tick_tx_split:
  assumes "ua_shift_busy u \<longrightarrow> a < ua_tx_ticks u"
  shows "uart_tick_tx b (uart_tick_tx a u) = uart_tick_tx (a + b) u"
proof (cases "ua_shift_busy u")
  case False
  then show ?thesis by (simp add: uart_tick_tx_def)
next
  case True
  have "ua_tx_ticks u - a = b \<longleftrightarrow> ua_tx_ticks u = a + b" by (auto simp: algebra_simps)
  then show ?thesis using True assms
    by (simp add: tick_tx_early) (simp add: uart_tick_tx_def Let_def algebra_simps)
qed

lemma uart_step_split:
  assumes "ua_shift_busy u \<longrightarrow> a < ua_tx_ticks u" and "ua_rx_ticks u \<noteq> 0 \<longrightarrow> a < ua_rx_ticks u"
  shows "uart_step b (uart_step a u) = uart_step (a + b) u"
proof -
  have "uart_step b (uart_step a u) =
      uart_tick_tx b (uart_tick_tx a (uart_tick_rx b (uart_tick_rx a u)))"
    unfolding uart_step_halves using assms(1) by (subst tick_tx_rx_commute) simp_all
  also have "\<dots> = uart_tick_tx (a + b) (uart_tick_rx (a + b) u)"
    by (subst tick_tx_split) (use assms in \<open>simp_all add: tick_rx_split\<close>)
  finally show ?thesis unfolding uart_step_halves .
qed

lemma early_step_length:
  assumes "ua_shift_busy u \<longrightarrow> m < ua_tx_ticks u" and "ua_rx_ticks u \<noteq> 0 \<longrightarrow> m < ua_rx_ticks u"
    and "unat m + unat n < 2 ^ 64"
  shows "uart_step_length n (uart_step m u) = uart_step_length (m + n) u - m"
proof -
  have s: "uart_step m u = (let v = uart_tick_rx m u in
      if ua_shift_busy u then v\<lparr>ua_tx_ticks := ua_tx_ticks u - m\<rparr> else v)"
    using assms(1) by (simp add: uart_step_halves tick_tx_early Let_def)
  have f: "ua_shift_busy (uart_step m u) = ua_shift_busy u"
    "ua_shift_busy u \<Longrightarrow> ua_tx_ticks (uart_step m u) = ua_tx_ticks u - m"
    "ua_rx_ticks (uart_step m u) = (if ua_rx_ticks u = 0 then 0 else ua_rx_ticks u - m)"
    unfolding s by (simp_all add: Let_def) (simp_all add: uart_tick_rx_def)
  have add: "unat (m + n) = unat m + unat n" using assms(3) by (subst unat_plus_if') simp
  have lt: "x - m < n \<longleftrightarrow> x < m + n" if "m < x" for x
    using that add by (simp add: word_less_nat_alt unat_sub less_imp_le) linarith
  have lt2: "x - m < y - m \<longleftrightarrow> x < y" if "m < x" "m < y" for x y :: lib_u64
    using that by (simp add: word_less_nat_alt unat_sub less_imp_le) linarith
  have nz: "ua_rx_ticks u \<noteq> 0 \<longrightarrow> ua_rx_ticks u - m \<noteq> 0" using assms(2) by auto
  show ?thesis
  proof (cases "ua_shift_busy u \<and> ua_tx_ticks u < m + n")
    case True
    then show ?thesis using assms(1,2) nz f lt lt2 by (simp add: uart_step_length_def Let_def)
  next
    case False
    then show ?thesis using assms(1,2) nz f lt lt2
      by (cases "ua_shift_busy u") (simp_all add: uart_step_length_def Let_def)
  qed
qed

lemma step_length_cut:
  assumes "uart_ok u" and "m \<noteq> 0" and "m \<le> t"
  shows "uart_step_length m u =
    (if uart_step_length t u \<le> m then uart_step_length t u else m)"
    and "m < uart_step_length t u \<Longrightarrow>
      (ua_shift_busy u \<longrightarrow> m < ua_tx_ticks u) \<and> (ua_rx_ticks u \<noteq> 0 \<longrightarrow> m < ua_rx_ticks u)"
  using assms by (auto simp: uart_step_length_def Let_def uart_ok_def split: if_splits)

lemma uart_loop_add:
  assumes "uart_ok u" and "unat m + unat n < 2 ^ 64"
  shows "uart_advance_loop (m + n) u = Option.bind (uart_advance_loop m u) (uart_advance_loop n)"
  using assms
proof (induction "unat m" arbitrary: m u rule: less_induct)
  case less
  have add: "unat (m + n) = unat m + unat n"
    using less.prems(2) by (subst unat_plus_if') simp
  have le: "m \<le> m + n" by (simp add: word_le_nat_alt add)
  consider "m = 0" | "m \<noteq> 0" "n = 0" | "m \<noteq> 0" "n \<noteq> 0" by blast
  then show ?case
  proof cases
    case 1
    then show ?thesis by (simp add: uart_advance_loop.simps [of 0])
  next
    case 2
    have "uart_advance_loop 0 = Some" by (rule ext) (simp add: uart_advance_loop.simps)
    with 2 show ?thesis by simp
  next
    case 3
    let ?S = "uart_step_length (m + n) u" and ?s = "uart_step_length m u"
    have mn: "m + n \<noteq> 0" using 3 add unat_gt_0 by (metis add_is_0 unat_eq_0)
    note cut = step_length_cut [OF less.prems(1) 3(1) le]
    note bounds = step_length_bounds [OF less.prems(1) mn]
    have loop: "uart_advance_loop t v = uart_advance_loop (t - uart_step_length t v)
        (uart_step (uart_step_length t v) v)" if "t \<noteq> 0" for t v
      using that by (subst uart_advance_loop.simps) simp
    show ?thesis
    proof (cases "?S \<le> m")
      case True
      then have s: "?s = ?S" using cut(1) by simp
      have d: "unat (m - ?S) = unat m - unat ?S" by (rule unat_sub [OF True])
      have "0 < unat ?S" using bounds(1) by (simp only: unat_gt_0 not_False_eq_True)
      then have "unat (m - ?S) < unat m" using True d by (simp add: word_le_nat_alt)
      moreover have "uart_ok (uart_step ?S u)"
        using uart_step_ok [OF less.prems(1) 3(1)] by (simp add: s)
      moreover have "unat (m - ?S) + unat n < 2 ^ 64" using d less.prems(2) by linarith
      ultimately have "uart_advance_loop (m - ?S + n) (uart_step ?S u) =
          Option.bind (uart_advance_loop (m - ?S) (uart_step ?S u)) (uart_advance_loop n)"
        by (rule less.hyps)
      moreover have "m + n - ?S = m - ?S + n" by simp
      ultimately show ?thesis using loop [OF mn, of u] loop [OF 3(1), of u] by (simp only: s)
    next
      case False
      then have early: "ua_shift_busy u \<longrightarrow> m < ua_tx_ticks u" "ua_rx_ticks u \<noteq> 0 \<longrightarrow> m < ua_rx_ticks u"
        and s: "?s = m" using cut by auto
      have "uart_advance_loop m u = Some (uart_step m u)"
        using loop [OF 3(1), of u] by (simp add: s uart_advance_loop.simps)
      moreover have "uart_step_length n (uart_step m u) = ?S - m"
        by (rule early_step_length [OF early less.prems(2)])
      moreover have "uart_step (?S - m) (uart_step m u) = uart_step ?S u"
        using uart_step_split [OF early, of "?S - m"] by simp
      moreover have "n - (?S - m) = m + n - ?S" by (simp add: algebra_simps)
      ultimately show ?thesis
        using loop [OF mn, of u] loop [OF 3(2), of "uart_step m u"]
        by (simp only: bind.bind_lunit)
    qed
  qed
qed

definition uart_advanced :: "lib_u64 \<Rightarrow> x86_uart16550 \<Rightarrow> x86_uart16550" where
  "uart_advanced n u = the (uart_advance_loop n u)"

interpretation uart_time: tick_component uart_advanced uart_ok
proof
  fix u and m n :: lib_u64
  assume ok: "uart_ok u"
  show "uart_advanced 0 u = u" by (simp add: uart_advanced_def uart_advance_loop.simps)
  obtain v where v: "uart_advance_loop m u = Some v" "uart_ok v" using uart_loop_returns [OF ok] .
  show "uart_ok (uart_advanced m u)" by (simp add: uart_advanced_def v)
  assume "unat m + unat n < 2 ^ 64"
  then show "uart_advanced (m + n) u = uart_advanced n (uart_advanced m u)"
    using uart_loop_add [OF ok] by (simp add: uart_advanced_def v)
qed

section \<open>Reachable ports\<close>

lemma uart_flag0: "(w :: lib_u8) AND 1 = 0 \<longleftrightarrow> \<not> bit w 0"
  using and_exp_eq_0_iff_not_bit [of w 0] by simp

lemma write_fcr_ok:
  assumes "uart_ok u"
  shows "uart_ok (uart_write_fcr v u)"
proof (cases "(ua_fcr u XOR v) AND 1 \<noteq> 0")
  case True
  then show ?thesis using assms
    by (simp add: uart_write_fcr_def Let_def) (simp add: uart_ok_def uart_capacity_def)
next
  case False
  have m: "v AND 1 = 0 \<longleftrightarrow> ua_fcr u AND 1 = 0"
    using False by (simp add: uart_flag0 bit_xor_iff)
  then have "uart_capacity (w\<lparr>ua_fcr := v AND 0xc1\<rparr>) = uart_capacity w" if "ua_fcr w = ua_fcr u" for w
    using that by (simp add: uart_capacity_def and.assoc)
  then show ?thesis using assms False
    by (simp add: uart_write_fcr_def Let_def uart_ok_def) (simp add: uart_capacity_def)
qed

text \<open>Registers the invariant does not read.\<close>

lemma uart_ok_registers [simp]:
  "uart_ok (u\<lparr>ua_divisor := a\<rparr>) = uart_ok u" "uart_ok (u\<lparr>ua_ier := b\<rparr>) = uart_ok u"
  "uart_ok (u\<lparr>ua_lcr := b\<rparr>) = uart_ok u" "uart_ok (u\<lparr>ua_mcr := b\<rparr>) = uart_ok u"
  "uart_ok (u\<lparr>ua_scr := b\<rparr>) = uart_ok u" "uart_ok (u\<lparr>ua_lsr_error := b\<rparr>) = uart_ok u"
  "uart_ok (u\<lparr>ua_msr_delta := b\<rparr>) = uart_ok u" "uart_ok (u\<lparr>ua_modem := b\<rparr>) = uart_ok u"
  "uart_ok (u\<lparr>ua_thre_pending := c\<rparr>) = uart_ok u"
  by (simp_all add: uart_ok_def uart_capacity_def)

lemma write_mcr_ok: "uart_ok u \<Longrightarrow> uart_ok (uart_write_mcr v u)"
  by (simp add: uart_write_mcr_def Let_def)

lemma uart_write_ok:
  assumes ok: "uart_ok u" and w: "x86_uart16550_write (Some u) offset v = Some u'"
  shows "uart_ok u'"
proof -
  consider (divisor) "ua_lcr u AND 0x80 \<noteq> 0" "offset < 2" | (data) "ua_lcr u AND 0x80 = 0" "offset = 0"
    | (fcr) "offset = 2" | (rest) "offset = 1 \<and> ua_lcr u AND 0x80 = 0 \<or> 2 < offset"
    by linarith
  then show ?thesis
  proof cases
    case divisor
    then show ?thesis using ok w by (cases "offset = 0") auto
  next
    case data
    show ?thesis
    proof (cases "ua_tx_count u < uart_capacity u")
      case True
      let ?u = "u\<lparr>ua_tx := (ua_tx u)((ua_tx_head u + ua_tx_count u) mod 16 := v),
        ua_tx_count := ua_tx_count u + 1, ua_thre_pending := False\<rparr>"
      have "uart_ok (uart_start_transmit ?u)"
        by (rule start_transmit_ok) (use ok True in \<open>simp_all add: uart_ok_def\<close>)
      then show ?thesis using w data True by simp
    qed (use ok w data in simp)
  next
    case fcr
    then show ?thesis using ok w by (auto simp: write_fcr_ok)
  next
    case rest
    then show ?thesis using ok w by (auto simp: write_mcr_ok Let_def split: if_splits)
  qed
qed

lemma uart_read_ok:
  assumes ok: "uart_ok u" and r: "x86_uart16550_read (Some u) offset = (v, Some u')"
  shows "uart_ok u'"
proof (cases "ua_lcr u AND 0x80 = 0 \<and> offset = 0 \<and> ua_rx_count u \<noteq> 0")
  case True
  let ?u = "u\<lparr>ua_rx_head := (ua_rx_head u + 1) mod 16, ua_rx_count := ua_rx_count u - 1\<rparr>"
  have "uart_ok (uart_restart_receive_timeout ?u)"
    using ok by (auto simp: uart_ok_def uart_capacity_def)
  then show ?thesis using r True by auto
next
  case False
  then show ?thesis using ok r by (auto simp: Let_def split: if_splits)
qed

inductive uart_reachable :: "x86_uart16550 \<Rightarrow> bool" where
  uart_created: "x86_uart16550_create tps hz True (Some p) = (LIB_STATUS_OK, Some (Some u)) \<Longrightarrow>
    uart_reachable u"
| uart_was_reset: "uart_reachable u \<Longrightarrow> x86_uart16550_reset (Some u) = Some u' \<Longrightarrow> uart_reachable u'"
| uart_was_read: "uart_reachable u \<Longrightarrow> x86_uart16550_read (Some u) offset = (v, Some u') \<Longrightarrow>
    uart_reachable u'"
| uart_was_written: "uart_reachable u \<Longrightarrow> x86_uart16550_write (Some u) offset v = Some u' \<Longrightarrow>
    uart_reachable u'"
| uart_was_advanced: "uart_reachable u \<Longrightarrow> x86_uart16550_advance (Some u) n = Some (Some u') \<Longrightarrow>
    uart_reachable u'"

lemma uart_reachable_ok: "uart_reachable u \<Longrightarrow> uart_ok u"
proof (induction rule: uart_reachable.induct)
  case (uart_created tps hz p u)
  then show ?case
    by (auto simp: uart_ok_def uart_capacity_def zero_uart_def split: if_splits)
next
  case (uart_was_reset u u')
  then show ?case by (auto simp: uart_ok_def uart_capacity_def zero_uart_def)
next
  case (uart_was_advanced u n u')
  obtain v where "uart_advance_loop n u = Some v" "uart_ok v"
    using uart_loop_returns [OF uart_was_advanced.IH] .
  then show ?case using uart_was_advanced.hyps by simp
qed (blast intro: uart_read_ok uart_write_ok)+

section \<open>Loopback\<close>

text \<open>The ticks until the shift register and the FIFO have been sent.\<close>

definition uart_work :: "x86_uart16550 \<Rightarrow> nat" where
  "uart_work u = (if ua_shift_busy u
     then unat (ua_tx_ticks u) + length (tx_list u) * unat (uart_character_ticks u) else 0)"

definition uart_looping :: "x86_uart16550 \<Rightarrow> bool" where
  "uart_looping u \<longleftrightarrow> ua_mcr u AND 0x10 \<noteq> 0 \<and> ua_fcr u AND 1 \<noteq> 0 \<and>
     length (rx_list u) + length (tx_stream u) \<le> 16"

text \<open>The timing parameters a character's length depends on.\<close>

definition uart_timing :: "x86_uart16550 \<Rightarrow> lib_u32 \<times> lib_u32 \<times> lib_u16 \<times> lib_u8" where
  "uart_timing u = (ua_ticks_per_second u, ua_input_clock_hz u, ua_divisor u, ua_lcr u)"

lemma character_ticks_cong: "uart_timing u = uart_timing v \<Longrightarrow> uart_character_ticks u = uart_character_ticks v"
  by (simp add: uart_character_ticks_def uart_timing_def)

lemma timing_kept [simp]:
  "uart_timing (uart_start_transmit u) = uart_timing u" "uart_timing (uart_receive v u) = uart_timing u"
  "uart_timing (uart_tick_rx n u) = uart_timing u"
  "uart_timing (u\<lparr>ua_tx_ticks := t, ua_shift_busy := b\<rparr>) = uart_timing u"
  by (simp_all add: uart_timing_def uart_start_transmit_def uart_receive_def uart_tick_rx_def
      uart_restart_receive_timeout_def Let_def)

lemma lsr_error_kept [simp]:
  "ua_lsr_error (uart_start_transmit u) = ua_lsr_error u" "ua_lsr_error (uart_tick_rx n u) = ua_lsr_error u"
  "ua_rx_count u < uart_capacity u \<Longrightarrow> ua_lsr_error (uart_receive v u) = ua_lsr_error u"
  by (simp_all add: uart_start_transmit_def uart_receive_def uart_tick_rx_def
      uart_restart_receive_timeout_def Let_def)

lemma start_transmit_work:
  assumes "\<not> ua_shift_busy u"
  shows "uart_work (uart_start_transmit u) = length (tx_list u) * unat (uart_character_ticks u)"
proof (cases "ua_tx_count u = 0")
  case True
  then show ?thesis using assms by (simp add: uart_start_transmit_def uart_work_def tx_list_def)
next
  case False
  let ?s = "uart_start_transmit u"
  have "uart_character_ticks ?s = uart_character_ticks u"
    by (rule character_ticks_cong) simp
  moreover have "ua_shift_busy ?s" "ua_tx_ticks ?s = uart_character_ticks u"
    "length (tx_list u) = Suc (length (tx_list ?s))"
    using False assms by (simp_all add: uart_start_transmit_def Let_def tx_list_def)
  ultimately show ?thesis by (simp add: uart_work_def)
qed

text \<open>What a turn of the loop keeps while the port is in loopback with room for what it sends.\<close>

definition uart_same_stream :: "x86_uart16550 \<Rightarrow> x86_uart16550 \<Rightarrow> bool" where
  "uart_same_stream u v \<longleftrightarrow> rx_list v @ tx_stream v = rx_list u @ tx_stream u \<and>
     ua_lsr_error v = ua_lsr_error u \<and> ua_mcr v = ua_mcr u \<and> ua_fcr v = ua_fcr u"

lemma same_stream_refl: "uart_same_stream u u"
  by (simp add: uart_same_stream_def)

lemma same_stream_trans: "uart_same_stream u v \<Longrightarrow> uart_same_stream v w \<Longrightarrow> uart_same_stream u w"
  by (simp add: uart_same_stream_def)

lemma same_stream_looping: "uart_same_stream u v \<Longrightarrow> uart_looping u \<Longrightarrow> uart_looping v"
  unfolding uart_same_stream_def uart_looping_def by (metis length_append)

lemma tick_tx_complete:
  assumes ok: "uart_ok u" and loop: "uart_looping u" and busy: "ua_shift_busy u" "ua_tx_ticks u = n"
  shows "uart_same_stream u (uart_tick_tx n u)"
    and "uart_work (uart_tick_tx n u) = length (tx_list u) * unat (uart_character_ticks u)"
proof -
  let ?v = "u\<lparr>ua_tx_ticks := 0, ua_shift_busy := False\<rparr>"
  let ?w = "uart_receive (ua_transmitting u) ?v"
  have t: "uart_tick_tx n u = uart_start_transmit ?w"
    using busy loop by (simp add: uart_tick_tx_def uart_looping_def Let_def)
  have lists: "rx_list ?v = rx_list u" "tx_stream ?v = tx_list u" "tx_list ?v = tx_list u"
    by (simp_all add: rx_list_def tx_stream_def tx_list_def)
  have "ua_rx_count ?v < uart_capacity ?v"
    using loop busy by (simp add: uart_looping_def rx_list_def tx_stream_def tx_list_def uart_capacity_def)
  note room = this receive_appends [OF this]
  have s: "tx_stream (uart_start_transmit ?w) = tx_stream ?w"
    by (rule start_transmit_stream) (use ok in \<open>simp add: uart_ok_def\<close>)
  show "uart_same_stream u (uart_tick_tx n u)"
    using room by (simp add: t uart_same_stream_def s lists) (simp add: tx_stream_def busy)
  have "uart_character_ticks ?w = uart_character_ticks u"
    by (rule character_ticks_cong) simp
  moreover have "tx_list ?w = tx_list u" by (simp add: tx_list_def)
  ultimately show "uart_work (uart_tick_tx n u) = length (tx_list u) * unat (uart_character_ticks u)"
    by (simp add: t start_transmit_work)
qed

lemma tick_tx_loopback:
  assumes ok: "uart_ok u" and loop: "uart_looping u" and n: "ua_shift_busy u \<longrightarrow> n \<le> ua_tx_ticks u"
  shows "uart_same_stream u (uart_tick_tx n u) \<and> uart_work (uart_tick_tx n u) = uart_work u - unat n"
proof (cases "ua_shift_busy u \<and> ua_tx_ticks u = n")
  case True
  then show ?thesis using tick_tx_complete [OF ok loop] by (simp add: uart_work_def)
next
  case False
  let ?v = "u\<lparr>ua_tx_ticks := ua_tx_ticks u - n\<rparr>"
  have c: "uart_character_ticks ?v = uart_character_ticks u"
    by (rule character_ticks_cong) (simp add: uart_timing_def)
  have l: "rx_list ?v = rx_list u" "tx_stream ?v = tx_stream u" "tx_list ?v = tx_list u"
    by (simp_all add: rx_list_def tx_stream_def tx_list_def)
  have "unat (ua_tx_ticks u - n) = unat (ua_tx_ticks u) - unat n" if "ua_shift_busy u"
    using n that by (simp add: unat_sub)
  then show ?thesis using False n
    by (auto simp: uart_tick_tx_def uart_same_stream_def uart_work_def c l word_le_nat_alt)
qed

lemma step_loopback:
  assumes ok: "uart_ok u" and loop: "uart_looping u" and t: "t \<noteq> 0"
  defines "n \<equiv> uart_step_length t u"
  shows "uart_same_stream u (uart_step n u) \<and> uart_work (uart_step n u) = uart_work u - unat n"
proof -
  let ?v = "uart_tick_rx n u"
  have same: "uart_same_stream u ?v" by (simp add: uart_same_stream_def)
  have "uart_character_ticks ?v = uart_character_ticks u" by (rule character_ticks_cong) simp
  then have "uart_work ?v = uart_work u" by (simp add: uart_work_def)
  moreover have "uart_same_stream ?v (uart_tick_tx n ?v) \<and>
      uart_work (uart_tick_tx n ?v) = uart_work ?v - unat n"
    by (rule tick_tx_loopback [OF tick_rx_ok [OF ok] same_stream_looping [OF same loop]])
      (use step_length_bounds(3) [OF ok t] in \<open>simp add: n_def\<close>)
  ultimately show ?thesis
    unfolding uart_step_halves using same_stream_trans [OF same] by simp
qed

lemma loop_loopback:
  assumes ok: "uart_ok u" and loop: "uart_looping u"
  shows "\<exists>u'. uart_advance_loop ticks u = Some u' \<and> uart_ok u' \<and>
    uart_same_stream u u' \<and> uart_work u' = uart_work u - unat ticks"
proof -
  let ?P = "\<lambda>t v. t \<le> ticks \<and> uart_same_stream u v \<and> uart_work v = uart_work u - unat (ticks - t)"
  have "\<exists>u'. uart_advance_loop ticks u = Some u' \<and> uart_ok u' \<and> ?P 0 u'"
  proof (rule uart_loop_invariant [OF ok])
    show "?P ticks u" by (simp add: same_stream_refl)
    fix v t
    assume v: "uart_ok v" and P: "?P t v" and t: "t \<noteq> 0"
    let ?n = "uart_step_length t v"
    have n: "?n \<le> t" by (rule step_length_bounds(2) [OF v t])
    have s: "uart_same_stream v (uart_step ?n v) \<and> uart_work (uart_step ?n v) = uart_work v - unat ?n"
      by (rule step_loopback [OF v _ t]) (use same_stream_looping loop P in blast)
    have "t - ?n \<le> t" using n by (simp add: word_le_nat_alt unat_sub)
    then have le: "t - ?n \<le> ticks" using P by (meson order_trans)
    have "unat (ticks - (t - ?n)) = unat (ticks - t) + unat ?n"
      using n P le by (simp add: word_le_nat_alt unat_sub)
    then show "?P (t - ?n) (uart_step ?n v)" using s P le same_stream_trans by auto
  qed
  then show ?thesis by auto
qed

section \<open>Properties\<close>

lemma early_step:
  assumes "ua_shift_busy u \<longrightarrow> n < ua_tx_ticks u" and "ua_rx_ticks u \<noteq> 0 \<longrightarrow> n < ua_rx_ticks u"
  shows "uart_advance_loop n u =
    Some (u\<lparr>ua_rx_ticks := (if ua_rx_ticks u = 0 then 0 else ua_rx_ticks u - n),
      ua_tx_ticks := (if ua_shift_busy u then ua_tx_ticks u - n else ua_tx_ticks u)\<rparr>)"
proof -
  have s: "uart_step_length n u = n"
    using assms by (auto simp: uart_step_length_def Let_def)
  have "uart_step n u = u\<lparr>ua_rx_ticks := (if ua_rx_ticks u = 0 then 0 else ua_rx_ticks u - n),
      ua_tx_ticks := (if ua_shift_busy u then ua_tx_ticks u - n else ua_tx_ticks u)\<rparr>"
    using assms
    by (cases u) (auto simp: uart_step_halves tick_tx_early, auto simp: uart_tick_rx_def)
  then show ?thesis
    by (cases "n = 0") (simp_all add: uart_advance_loop.simps [of n] s uart_advance_loop.simps [of 0])
qed

lemma tick_tx_sent:
  assumes ok: "uart_ok u" and busy: "ua_shift_busy u" "ua_tx_ticks u = n"
  shows "tx_stream (uart_tick_tx n u) = tx_list u"
proof -
  let ?v = "u\<lparr>ua_tx_ticks := 0, ua_shift_busy := False\<rparr>"
  have v: "tx_stream ?v = tx_list u" by (simp add: tx_stream_def tx_list_def)
  show ?thesis using busy ok
    by (simp add: uart_tick_tx_def Let_def) (simp add: uart_ok_def start_transmit_stream v)
qed

text \<open>The turn that ends exactly at the next event.\<close>

lemma event_step:
  assumes ok: "uart_ok u" and t: "t \<noteq> 0" "uart_step_length t u = t"
  shows "uart_advance_loop t u = Some (uart_step t u)"
  using t by (simp add: uart_advance_loop.simps [of t] uart_advance_loop.simps [of 0])

text \<open>
  C37: The loop of \<^verbatim>\<open>x86_uart16550_advance\<close> always ends: from any state the public
  operations can produce, for any 64-bit number of ticks, the call returns a port that is again in
  such a state, with the FIFO heads and counts inside the 16-byte arrays, and a running character
  clock.
\<close>

theorem uart_advance_returns:
  assumes "uart_reachable u"
  shows "\<exists>u'. x86_uart16550_advance (Some u) ticks = Some (Some u') \<and> uart_reachable u' \<and>
    uart_ok u'"
proof -
  obtain u' where "uart_advance_loop ticks u = Some u'" "uart_ok u'"
    using uart_loop_returns [OF uart_reachable_ok [OF assms]] .
  then show ?thesis using uart_was_advanced [OF assms, of ticks u'] by simp
qed

text \<open>A port that has just been created for a 1.8432 MHz oscillator.\<close>

abbreviation uart_fresh :: x86_uart16550 where
  "uart_fresh \<equiv> zero_uart\<lparr>ua_ticks_per_second := 1000000, ua_input_clock_hz := 1843200,
     ua_thre_pending := True\<rparr>"

lemma uart_fresh_reachable: "uart_reachable uart_fresh"
  by (rule uart_created [of 1000000 1843200 None]) (simp add: zero_uart_def)

theorem uart_advance_returns_witness:
  "\<exists>u'. x86_uart16550_advance (Some uart_fresh) 5000 = Some (Some u') \<and> uart_reachable u' \<and>
    uart_ok u'"
  by (rule uart_advance_returns [OF uart_fresh_reachable])

text \<open>
  Guest time may be cut anywhere: advancing a port by a list of slices gives the same port as
  advancing it once by their sum, as long as the sum fits in 64 bits.
\<close>

theorem uart_time_slices:
  assumes "uart_reachable u" and "sum_list (map unat ns) < 2 ^ 64"
  shows "fold (\<lambda>n r. Option.bind r (\<lambda>p. x86_uart16550_advance p n)) ns (Some (Some u)) =
    x86_uart16550_advance (Some u) (sum_list ns)"
proof -
  have ret: "x86_uart16550_advance (Some v) n = Some (Some (uart_advanced n v))" if ok: "uart_ok v" for v n
  proof -
    obtain w where "uart_advance_loop n v = Some w" using uart_loop_returns [OF ok] .
    then show ?thesis by (simp add: uart_advanced_def)
  qed
  have "fold (\<lambda>n r. Option.bind r (\<lambda>p. x86_uart16550_advance p n)) ns (Some (Some v)) =
      Some (Some (fold uart_advanced ns v))" if "uart_ok v" for v
    using that
    by (induction ns arbitrary: v) (simp_all add: ret uart_time.inv_adv del: x86_uart16550_advance.simps)
  then show ?thesis
    using uart_reachable_ok [OF assms(1)] ret uart_time.adv_slices [OF _ assms(2)] by simp
qed

theorem uart_time_slices_witness:
  "fold (\<lambda>n r. Option.bind r (\<lambda>p. x86_uart16550_advance p n)) [100, 4000] (Some (Some uart_fresh)) =
    x86_uart16550_advance (Some uart_fresh) (sum_list [100, 4000])"
  by (rule uart_time_slices [OF uart_fresh_reachable]) simp

text \<open>
  C36: In loopback with the FIFOs enabled, and no more than sixteen characters held in all, nothing
  is lost, duplicated or reordered: the received characters followed by the ones on their way out
  are the same sequence at all times and no overrun is recorded. Once the remaining time of the
  shift register and one character time for each queued byte have passed, all of them have been
  received.
\<close>

theorem uart_loopback_delivers:
  assumes "uart_reachable u" and "ua_mcr u AND 0x10 \<noteq> 0" and "ua_fcr u AND 1 \<noteq> 0"
    and "length (rx_list u) + length (tx_stream u) \<le> 16"
  shows "\<exists>u'. x86_uart16550_advance (Some u) ticks = Some (Some u') \<and>
    rx_list u' @ tx_stream u' = rx_list u @ tx_stream u \<and> ua_lsr_error u' = ua_lsr_error u \<and>
    (uart_work u \<le> unat ticks \<longrightarrow> rx_list u' = rx_list u @ tx_stream u)"
proof -
  have "uart_looping u" using assms by (simp add: uart_looping_def)
  from loop_loopback [OF uart_reachable_ok [OF assms(1)] this, of ticks]
  obtain u' where u': "uart_advance_loop ticks u = Some u'" "uart_ok u'" "uart_same_stream u u'"
      "uart_work u' = uart_work u - unat ticks" by blast
  have "tx_stream u' = []" if "uart_work u \<le> unat ticks"
  proof -
    have "uart_work u' = 0" using that u'(4) by simp
    then have "\<not> ua_shift_busy u'"
      using u'(2) by (auto simp: uart_work_def uart_ok_def unat_eq_0 split: if_splits)
    then show ?thesis using u'(2) by (simp add: uart_ok_def tx_stream_def tx_list_def)
  qed
  then show ?thesis using u' by (auto simp: uart_same_stream_def)
qed

text \<open>The same port after the driver has enabled the FIFOs and loopback and sent a byte.\<close>

abbreviation uart_loopback_port :: x86_uart16550 where
  "uart_loopback_port \<equiv> the (x86_uart16550_write (x86_uart16550_write (x86_uart16550_write
     (Some uart_fresh) 2 1) 4 0x10) 0 0x41)"

lemma uart_loopback_port_reachable: "uart_reachable uart_loopback_port"
proof -
  have w: "uart_reachable (the (x86_uart16550_write (Some u) offset v))" if "uart_reachable u" for u offset v
    by (rule uart_was_written [OF that]) simp
  have s: "x86_uart16550_write (Some u) offset v = Some (the (x86_uart16550_write (Some u) offset v))"
    for u offset v by simp
  show ?thesis
    by (subst s [of uart_fresh], subst s, rule w, rule w, rule w, rule uart_fresh_reachable)
qed

theorem uart_loopback_delivers_witness:
  "tx_stream uart_loopback_port = [0x41] \<and> uart_work uart_loopback_port = 61 \<and>
   (\<exists>u'. x86_uart16550_advance (Some uart_loopback_port) 61 = Some (Some u') \<and>
      rx_list u' = [0x41] \<and> ua_lsr_error u' = 0)"
proof -
  have p: "ua_mcr uart_loopback_port AND 0x10 \<noteq> 0" "ua_fcr uart_loopback_port AND 1 \<noteq> 0"
    "rx_list uart_loopback_port = []" "tx_stream uart_loopback_port = [0x41]"
    "ua_lsr_error uart_loopback_port = 0" "uart_work uart_loopback_port = 61"
    by (simp_all add: zero_uart_def uart_write_fcr_def uart_write_mcr_def uart_start_transmit_def
        uart_restart_receive_timeout_def uart_capacity_def rx_list_def tx_stream_def tx_list_def
        uart_work_def uart_character_ticks_def Let_def)
  show ?thesis
    using uart_loopback_delivers [OF uart_loopback_port_reachable p(1,2), of 61]
    by (simp del: x86_uart16550_write.simps x86_uart16550_advance.simps add: p(3-6)) blast
qed

text \<open>
  \<^verbatim>\<open>x86_uart16550_next_event\<close> is exact. When it reports no event, time changes nothing in
  the port. When it reports \<open>t\<close> ticks, \<open>t\<close> is positive; for any shorter time the interrupt
  identification, both FIFOs and the line status stay as they are; and at \<open>t\<close> a character leaves
  the shift register or the receive timeout fires.
\<close>

theorem uart_next_event_exact:
  assumes "uart_reachable u"
  shows "(x86_uart16550_next_event (Some u) (Some c) = (False, r) \<longrightarrow>
      x86_uart16550_advance (Some u) n = Some (Some u)) \<and>
    (x86_uart16550_next_event (Some u) (Some c) = (True, Some t) \<longrightarrow>
      t \<noteq> 0 \<and>
      (n < t \<longrightarrow> (\<exists>u'. x86_uart16550_advance (Some u) n = Some (Some u') \<and>
        uart_interrupt u' = uart_interrupt u \<and> rx_list u' = rx_list u \<and>
        tx_stream u' = tx_stream u \<and> ua_lsr_error u' = ua_lsr_error u)) \<and>
      (\<exists>u'. x86_uart16550_advance (Some u) t = Some (Some u') \<and>
        (if ua_shift_busy u \<and> ua_tx_ticks u = t then tx_stream u' = tx_list u
         else ua_receive_timeout u')))"
proof (intro conjI impI)
  assume "x86_uart16550_next_event (Some u) (Some c) = (False, r)"
  then have "\<not> ua_shift_busy u" "ua_rx_ticks u = 0" by (simp_all add: Let_def split: if_splits)
  then show "x86_uart16550_advance (Some u) n = Some (Some u)" by (simp add: early_step)
next
  assume t: "x86_uart16550_next_event (Some u) (Some c) = (True, Some t)"
  have ok: "uart_ok u" by (rule uart_reachable_ok [OF assms])
  have le: "ua_shift_busy u \<longrightarrow> t \<le> ua_tx_ticks u" "ua_rx_ticks u \<noteq> 0 \<longrightarrow> t \<le> ua_rx_ticks u"
    and eq: "ua_shift_busy u \<and> t = ua_tx_ticks u \<or> ua_rx_ticks u \<noteq> 0 \<and> t = ua_rx_ticks u"
    using t by (auto simp: Let_def split: if_splits)
  show nz: "t \<noteq> 0" using eq ok by (auto simp: uart_ok_def)
  show "\<exists>u'. x86_uart16550_advance (Some u) n = Some (Some u') \<and>
        uart_interrupt u' = uart_interrupt u \<and> rx_list u' = rx_list u \<and>
        tx_stream u' = tx_stream u \<and> ua_lsr_error u' = ua_lsr_error u" if "n < t"
  proof -
    have "ua_shift_busy u \<longrightarrow> n < ua_tx_ticks u" "ua_rx_ticks u \<noteq> 0 \<longrightarrow> n < ua_rx_ticks u"
      using le that by (auto intro: less_le_trans)
    from early_step [OF this] show ?thesis
      by (simp add: uart_interrupt_def uart_trigger_def rx_list_def tx_stream_def tx_list_def)
  qed
  have "uart_step_length t u = t" using le by (auto simp: uart_step_length_def Let_def)
  then have adv: "x86_uart16550_advance (Some u) t = Some (Some (uart_step t u))"
    using event_step [OF ok nz] by simp
  have "if ua_shift_busy u \<and> ua_tx_ticks u = t then tx_stream (uart_step t u) = tx_list u
      else ua_receive_timeout (uart_step t u)"
  proof (cases "ua_shift_busy u \<and> ua_tx_ticks u = t")
    case True
    then show ?thesis
      unfolding uart_step_halves by (simp add: tick_tx_sent [OF tick_rx_ok [OF ok]])
  next
    case False
    then have "ua_rx_ticks u \<noteq> 0" "ua_rx_ticks u = t" using eq by auto
    then show ?thesis
      unfolding uart_step_halves using False by (auto simp: uart_tick_tx_def uart_tick_rx_def)
  qed
  with adv show "\<exists>u'. x86_uart16550_advance (Some u) t = Some (Some u') \<and>
        (if ua_shift_busy u \<and> ua_tx_ticks u = t then tx_stream u' = tx_list u
         else ua_receive_timeout u')" by blast
qed

theorem uart_next_event_exact_witness:
  "x86_uart16550_advance (Some uart_fresh) 7 = Some (Some uart_fresh) \<and>
   (\<exists>u'. x86_uart16550_advance (Some uart_loopback_port) 61 = Some (Some u') \<and> tx_stream u' = [])"
proof -
  have p: "x86_uart16550_next_event (Some uart_loopback_port) (Some 0) = (True, Some 61)"
    "ua_shift_busy uart_loopback_port" "ua_tx_ticks uart_loopback_port = 61"
    "tx_list uart_loopback_port = []"
    by (simp_all add: zero_uart_def uart_write_fcr_def uart_write_mcr_def uart_start_transmit_def
        uart_restart_receive_timeout_def uart_capacity_def tx_list_def
        uart_character_ticks_def Let_def)
  have "x86_uart16550_next_event (Some uart_fresh) (Some 0) = (False, Some 0)"
    by (simp add: zero_uart_def)
  with uart_next_event_exact [OF uart_fresh_reachable, of 0 "Some 0" 7 0]
    uart_next_event_exact [OF uart_loopback_port_reachable, of 0 None 0 61] p(1)
  show ?thesis
    by (simp del: x86_uart16550_write.simps x86_uart16550_advance.simps add: p(2-4))
qed

end
