(* ===== verification/Ppi.thy ===== *)
theory Ppi
  imports Prelude
begin

unbundle bit_operations_syntax

text \<open>
  The 8255 parallel interface in its qualified mode 0,
  \<^verbatim>\<open>src/src/x86-nxvm/chips/ppi8255/ppi.c\<close>: the control word, three output latches, the drive
  mask of each port, and bit set/reset of port C.
\<close>

section \<open>State and operations\<close>

record x86_ppi8255 =
  ppi_control :: lib_u8
  ppi_latch :: "nat \<Rightarrow> lib_u8"

record x86_ppi8255_pins =
  pins_latch :: lib_u8
  pins_output_mask :: lib_u8

definition ppi_mode0 :: "x86_ppi8255 \<Rightarrow> bool" where
  "ppi_mode0 ppi \<longleftrightarrow> ppi_control ppi AND 0x64 = 0"

fun x86_ppi8255_reset :: "x86_ppi8255 ptr \<Rightarrow> x86_ppi8255 ptr" where
  "x86_ppi8255_reset None = None"
| "x86_ppi8255_reset (Some ppi) = Some (ppi\<lparr>ppi_control := 0x9b, ppi_latch := (\<lambda>_. 0)\<rparr>)"

fun x86_ppi8255_create :: "bool \<Rightarrow> x86_ppi8255 ptr ptr \<Rightarrow> lib_status \<times> x86_ppi8255 ptr ptr" where
  "x86_ppi8255_create allocated None = (LIB_STATUS_INVALID_ARGUMENT, None)"
| "x86_ppi8255_create allocated (Some out_ppi) =
     (if \<not> allocated then (LIB_STATUS_NO_MEMORY, Some None)
      else (LIB_STATUS_OK, Some (x86_ppi8255_reset (Some \<lparr>ppi_control = 0, ppi_latch = (\<lambda>_. 0)\<rparr>))))"

fun x86_ppi8255_output ::
  "x86_ppi8255 ptr \<Rightarrow> nat \<Rightarrow> x86_ppi8255_pins ptr \<Rightarrow> lib_status \<times> x86_ppi8255_pins ptr" where
  "x86_ppi8255_output (Some ppi) selector (Some out_pins) =
     (if selector > 2 then (LIB_STATUS_INVALID_ARGUMENT, Some out_pins)
      else
        let mask = (if ppi_mode0 ppi then
              if selector = 0 then (if ppi_control ppi AND 0x10 = 0 then 0xff else 0)
              else if selector = 1 then (if ppi_control ppi AND 0x02 = 0 then 0xff else 0)
              else (if ppi_control ppi AND 0x01 = 0 then 0x0f else 0) OR
                (if ppi_control ppi AND 0x08 = 0 then 0xf0 else 0)
            else 0)
        in (LIB_STATUS_OK, Some \<lparr>pins_latch = ppi_latch ppi selector, pins_output_mask = mask\<rparr>))"
| "x86_ppi8255_output ppi selector out_pins = (LIB_STATUS_INVALID_ARGUMENT, out_pins)"

fun x86_ppi8255_read ::
  "x86_ppi8255 ptr \<Rightarrow> nat \<Rightarrow> lib_u8 \<Rightarrow> lib_u8 ptr \<Rightarrow> lib_status \<times> lib_u8 ptr" where
  "x86_ppi8255_read (Some ppi) selector input (Some out_value) =
     (if selector > 3 then (LIB_STATUS_INVALID_ARGUMENT, Some out_value)
      else if selector = 3 then (LIB_STATUS_UNSUPPORTED, Some out_value)
      else if \<not> ppi_mode0 ppi then
        (LIB_STATUS_OK, Some (if selector = 0 then ppi_latch ppi 0 else if selector = 1 then input else 0))
      else case x86_ppi8255_output (Some ppi) selector (Some \<lparr>pins_latch = 0, pins_output_mask = 0\<rparr>) of
        (_, pins) \<Rightarrow>
          (LIB_STATUS_OK, Some ((pins_latch (the pins) AND pins_output_mask (the pins)) OR
             (input AND NOT (pins_output_mask (the pins))))))"
| "x86_ppi8255_read ppi selector input out_value = (LIB_STATUS_INVALID_ARGUMENT, out_value)"

fun x86_ppi8255_write :: "x86_ppi8255 ptr \<Rightarrow> nat \<Rightarrow> lib_u8 \<Rightarrow> lib_status \<times> x86_ppi8255 ptr" where
  "x86_ppi8255_write None selector value = (LIB_STATUS_INVALID_ARGUMENT, None)"
| "x86_ppi8255_write (Some ppi) selector value =
     (if selector > 3 then (LIB_STATUS_INVALID_ARGUMENT, Some ppi)
      else if selector < 3
      then (LIB_STATUS_OK, Some (ppi\<lparr>ppi_latch := (ppi_latch ppi)(selector := value)\<rparr>))
      else if value AND 0x80 \<noteq> 0
      then (LIB_STATUS_OK, Some (ppi\<lparr>ppi_control := value, ppi_latch := (\<lambda>_. 0)\<rparr>))
      else
        let mask = push_bit (unat (drop_bit 1 value AND 0x07)) 1;
            c = (if value AND 0x01 \<noteq> 0 then ppi_latch ppi 2 OR mask else ppi_latch ppi 2 AND NOT mask)
        in (LIB_STATUS_OK, Some (ppi\<lparr>ppi_latch := (ppi_latch ppi)(2 := c)\<rparr>)))"

section \<open>Properties\<close>

text \<open>The direction bit of the control word that governs bit \<open>i\<close> of a port.\<close>

definition ppi_direction :: "nat \<Rightarrow> nat \<Rightarrow> nat" where
  "ppi_direction selector i = (if selector = 0 then 4 else if selector = 1 then 1 else if i < 4 then 0 else 3)"

definition ppi_driven :: "x86_ppi8255 \<Rightarrow> nat \<Rightarrow> nat \<Rightarrow> bool" where
  "ppi_driven ppi selector i \<longleftrightarrow> i < 8 \<and> \<not> bit (ppi_control ppi) (ppi_direction selector i)"

lemma u8_flag_zero:
  "(w :: lib_u8) AND 0x10 = 0 \<longleftrightarrow> \<not> bit w 4" "w AND 0x02 = 0 \<longleftrightarrow> \<not> bit w 1"
  "w AND 0x01 = 0 \<longleftrightarrow> \<not> bit w 0" "w AND 0x08 = 0 \<longleftrightarrow> \<not> bit w 3" "w AND 0x80 = 0 \<longleftrightarrow> \<not> bit w 7"
  unfolding BIT_IS_SET_flags [of w, symmetric] BIT_IS_SET_def by simp_all

lemma u8_nibble_bits:
  "bit (0xff :: lib_u8) i \<longleftrightarrow> i < 8" "bit (0x0f :: lib_u8) i \<longleftrightarrow> i < 4" "bit (0xf0 :: lib_u8) i \<longleftrightarrow> 4 \<le> i \<and> i < 8"
proof -
  have m: "(0xff :: lib_u8) = mask 8" "(0x0f :: lib_u8) = mask 4" "(0xf0 :: lib_u8) = push_bit 4 (mask 4)"
    by (simp_all add: mask_eq_exp_minus_1)
  show "bit (0xff :: lib_u8) i \<longleftrightarrow> i < 8" "bit (0x0f :: lib_u8) i \<longleftrightarrow> i < 4" "bit (0xf0 :: lib_u8) i \<longleftrightarrow> 4 \<le> i \<and> i < 8"
    unfolding m by (auto simp: bit_mask_iff bit_push_bit_iff)
qed

lemma ppi_output_mask:
  assumes "ppi_mode0 ppi" and "selector < 3"
  obtains m where "x86_ppi8255_output (Some ppi) selector (Some p) =
      (LIB_STATUS_OK, Some \<lparr>pins_latch = ppi_latch ppi selector, pins_output_mask = m\<rparr>)"
    "\<And>i. bit m i \<longleftrightarrow> ppi_driven ppi selector i"
proof
  let ?m = "pins_output_mask (the (snd (x86_ppi8255_output (Some ppi) selector (Some p))))"
  show "x86_ppi8255_output (Some ppi) selector (Some p) =
      (LIB_STATUS_OK, Some \<lparr>pins_latch = ppi_latch ppi selector, pins_output_mask = ?m\<rparr>)"
    using assms by (simp add: Let_def)
  have c: "bit (if P then (a :: lib_u8) else 0) i \<longleftrightarrow> P \<and> bit a i" for P a i by simp
  consider "selector = 0" | "selector = 1" | "selector = 2" using assms(2) by linarith
  then show "bit ?m i \<longleftrightarrow> ppi_driven ppi selector i" for i
  proof cases
    case 1
    then have "?m = (if ppi_control ppi AND 0x10 = 0 then 0xff else 0)"
      using assms(1) by (simp add: Let_def)
    then have "bit ?m i \<longleftrightarrow> \<not> bit (ppi_control ppi) 4 \<and> i < 8"
      by (simp only: c u8_nibble_bits u8_flag_zero)
    then show ?thesis using 1 by (auto simp: ppi_driven_def ppi_direction_def)
  next
    case 2
    then have "?m = (if ppi_control ppi AND 0x02 = 0 then 0xff else 0)"
      using assms(1) by (simp add: Let_def)
    then have "bit ?m i \<longleftrightarrow> \<not> bit (ppi_control ppi) 1 \<and> i < 8"
      by (simp only: c u8_nibble_bits u8_flag_zero)
    then show ?thesis using 2 by (auto simp: ppi_driven_def ppi_direction_def)
  next
    case 3
    then have "?m = (if ppi_control ppi AND 0x01 = 0 then 0x0f else 0) OR (if ppi_control ppi AND 0x08 = 0 then 0xf0 else 0)"
      using assms(1) by (simp add: Let_def)
    then have "bit ?m i \<longleftrightarrow> \<not> bit (ppi_control ppi) 0 \<and> i < 4 \<or> \<not> bit (ppi_control ppi) 3 \<and> 4 \<le> i \<and> i < 8"
      by (simp only: bit_or_iff c u8_nibble_bits u8_flag_zero)
    then show ?thesis using 3 by (auto simp: ppi_driven_def ppi_direction_def split: if_splits)
  qed
qed

lemma ppi_read_bit:
  assumes "ppi_mode0 ppi" and "selector < 3" and "x86_ppi8255_read (Some ppi) selector input (Some c) = (s, Some v)"
  shows "s = LIB_STATUS_OK \<and> (i < 8 \<longrightarrow> bit v i =
    (if ppi_driven ppi selector i then bit (ppi_latch ppi selector) i else bit input i))"
proof -
  obtain m where m: "x86_ppi8255_output (Some ppi) selector (Some \<lparr>pins_latch = 0, pins_output_mask = 0\<rparr>) =
      (LIB_STATUS_OK, Some \<lparr>pins_latch = ppi_latch ppi selector, pins_output_mask = m\<rparr>)"
    "\<And>i. bit m i \<longleftrightarrow> ppi_driven ppi selector i"
    using ppi_output_mask [OF assms(1,2)] by blast
  then have "s = LIB_STATUS_OK" "v = (ppi_latch ppi selector AND m) OR (input AND NOT m)"
    using assms by (simp_all del: x86_ppi8255_output.simps)
  then show ?thesis by (simp add: bit_or_iff bit_and_iff bit_not_iff m(2))
qed

text \<open>
  In mode 0, a bit set/reset command changes exactly one bit. After the command for bit \<open>n\<close> of
  port C, every port reads, bit by bit, the output latch where the control word drives the bit and
  the sampled input elsewhere; bit \<open>n\<close> of the latch of port C has the value of the command and every
  other latch bit and the control word are unchanged.
\<close>

theorem ppi_bit_set_reset:
  assumes "ppi_mode0 ppi" and "\<not> bit value 7" and "x86_ppi8255_write (Some ppi) 3 value = (st, Some ppi')"
    and "selector < 3" and "i < 8" and "x86_ppi8255_read (Some ppi') selector input (Some c) = (s, Some v)"
  defines "n \<equiv> unat (drop_bit 1 value AND 7)"
  shows "st = LIB_STATUS_OK \<and> s = LIB_STATUS_OK \<and> ppi_control ppi' = ppi_control ppi \<and>
    bit v i = (if \<not> ppi_driven ppi selector i then bit input i
       else if selector = 2 \<and> i = n then bit value 0 else bit (ppi_latch ppi selector) i)"
proof -
  have w: "st = LIB_STATUS_OK" "ppi_control ppi' = ppi_control ppi"
    "ppi_latch ppi' = (ppi_latch ppi)(2 := if bit value 0 then BIT_SET (ppi_latch ppi 2) (BIT_MASK n)
       else BIT_CLEAR (ppi_latch ppi 2) (BIT_MASK n))"
    using assms(2,3)
    by (auto simp: u8_flag_zero Let_def n_def BIT_MASK_def BIT_SET_def BIT_CLEAR_def split: if_splits)
  have m: "ppi_mode0 ppi'" using assms(1) by (simp add: ppi_mode0_def w)
  have "n < 8"
  proof -
    have "drop_bit 1 value AND 7 = take_bit 3 (drop_bit 1 value)" by (simp add: take_bit_eq_mask mask_eq_exp_minus_1)
    then have "n = take_bit 3 (unat (drop_bit 1 value))" by (simp add: n_def unsigned_take_bit_eq)
    then show ?thesis using take_bit_nat_less_exp [of 3 "unat (drop_bit 1 value)"] by simp
  qed
  then show ?thesis
    using ppi_read_bit [OF m assms(4,6), of i] assms(5) w
    by (auto simp: ppi_driven_def)
qed

text \<open>Port C as an output, and the command that sets its bit 5.\<close>

theorem ppi_bit_set_reset_witness:
  "snd (x86_ppi8255_read (snd (x86_ppi8255_write (Some \<lparr>ppi_control = 0x80, ppi_latch = (\<lambda>_. 0)\<rparr>) 3 0x0b))
     2 0 (Some 0)) = Some 0x20 \<and> bit (0x20 :: lib_u8) 5"
proof -
  let ?p = "\<lparr>ppi_control = 0x80, ppi_latch = (\<lambda>_. 0)\<rparr>"
  let ?q = "\<lparr>ppi_control = 0x80, ppi_latch = (\<lambda>_. 0)(2 := 0x20)\<rparr>"
  have q: "x86_ppi8255_write (Some ?p) 3 0x0b = (LIB_STATUS_OK, Some ?q)" by simp
  have r: "x86_ppi8255_read (Some ?q) 2 0 (Some 0) = (LIB_STATUS_OK, Some 0x20)"
    by (simp add: ppi_mode0_def)
  have "bit (0x20 :: lib_u8) 5"
    using ppi_bit_set_reset [OF _ _ q _ _ r, of 5] by (simp add: ppi_mode0_def ppi_driven_def ppi_direction_def)
  with q r show ?thesis by simp
qed

end
