(* ===== verification/Timeline.thy ===== *)
theory Timeline
  imports Prelude
begin

unbundle bit_operations_syntax

text \<open>
  The event timeline of the machine core, \<^verbatim>\<open>src/src/x86-core/machine/timeline.c\<close>: a
  binary min-heap of at most 32 events, ordered by due tick and then by a global sequence number,
  with back-indices from event slots to heap positions so that a token can cancel its event.

  Slots, heap positions and the heap size are natural numbers (the code's \<^verbatim>\<open>lib_u32\<close> values
  never exceed 65 on a heap of 32); ticks and sequence numbers keep their 64 bits. The callback and its
  context are one value of the type parameter; a callback runs as a terminating program over the
  timeline's own interface, so it may schedule and cancel while the timeline dispatches.
\<close>

section \<open>State\<close>

abbreviation X86_CORE_MACHINE_TIMELINE_EVENT_CAPACITY :: nat where
  "X86_CORE_MACHINE_TIMELINE_EVENT_CAPACITY \<equiv> 32"

record x86_core_machine_timeline_token =
  tok_slot :: nat
  tok_sequence :: lib_u64

record 'cb x86_core_machine_timeline_event =
  ev_due_tick :: lib_u64
  ev_sequence :: lib_u64
  ev_callback :: "'cb ptr"
  ev_heap_index :: nat
  ev_active :: bool

record 'cb x86_core_machine_timeline =
  tl_now :: lib_u64
  tl_next_sequence :: lib_u64
  tl_heap_size :: nat
  tl_heap :: "nat \<Rightarrow> nat"
  tl_events :: "nat \<Rightarrow> 'cb x86_core_machine_timeline_event"

type_synonym 'cb timeline = "'cb x86_core_machine_timeline"

text \<open>The dispatch key of an event, and its order: due tick first, then sequence number.\<close>

datatype timeline_key = Key (key_due: lib_u64) (key_sequence: lib_u64)

instantiation timeline_key :: linorder
begin

definition less_timeline_key :: "timeline_key \<Rightarrow> timeline_key \<Rightarrow> bool" where
  "less_timeline_key a b \<longleftrightarrow> key_due a < key_due b \<or> key_due a = key_due b \<and> key_sequence a < key_sequence b"

definition less_eq_timeline_key :: "timeline_key \<Rightarrow> timeline_key \<Rightarrow> bool" where
  "less_eq_timeline_key a b \<longleftrightarrow> key_due a < key_due b \<or> key_due a = key_due b \<and> key_sequence a \<le> key_sequence b"

instance
proof
  fix x y z :: timeline_key
  show "(x < y) = (x \<le> y \<and> \<not> y \<le> x)"
    by (auto simp: less_timeline_key_def less_eq_timeline_key_def)
  show "x \<le> x" by (simp add: less_eq_timeline_key_def)
  show "x \<le> y \<Longrightarrow> y \<le> z \<Longrightarrow> x \<le> z" by (auto simp: less_eq_timeline_key_def)
  show "x \<le> y \<Longrightarrow> y \<le> x \<Longrightarrow> x = y"
    by (cases x; cases y) (auto simp: less_eq_timeline_key_def)
  show "x \<le> y \<or> y \<le> x" by (auto simp: less_eq_timeline_key_def)
qed

end

definition ev_key :: "'cb x86_core_machine_timeline_event \<Rightarrow> timeline_key" where
  "ev_key e = Key (ev_due_tick e) (ev_sequence e)"

section \<open>Operations\<close>

definition x86_core_machine_timeline_precedes ::
  "'cb x86_core_machine_timeline_event \<Rightarrow> 'cb x86_core_machine_timeline_event \<Rightarrow> bool" where
  "x86_core_machine_timeline_precedes left right \<longleftrightarrow>
     ev_due_tick left < ev_due_tick right \<or>
     (ev_due_tick left = ev_due_tick right \<and> ev_sequence left < ev_sequence right)"

lemma precedes_key: "x86_core_machine_timeline_precedes a b \<longleftrightarrow> ev_key a < ev_key b"
  by (simp add: x86_core_machine_timeline_precedes_def ev_key_def less_timeline_key_def)

definition set_heap_index :: "nat \<Rightarrow> nat \<Rightarrow> 'cb timeline \<Rightarrow> 'cb timeline" where
  "set_heap_index slot i tm =
     tm\<lparr>tl_events := (tl_events tm)(slot := (tl_events tm slot)\<lparr>ev_heap_index := i\<rparr>)\<rparr>"

definition x86_core_machine_timeline_heap_swap :: "'cb timeline \<Rightarrow> nat \<Rightarrow> nat \<Rightarrow> 'cb timeline" where
  "x86_core_machine_timeline_heap_swap timeline left right =
     (let slot = tl_heap timeline left;
          t1 = timeline\<lparr>tl_heap := (tl_heap timeline)(left := tl_heap timeline right, right := slot)\<rparr>
      in set_heap_index (tl_heap t1 right) right (set_heap_index (tl_heap t1 left) left t1))"

abbreviation tl_at :: "'cb timeline \<Rightarrow> nat \<Rightarrow> 'cb x86_core_machine_timeline_event" where
  "tl_at tm i \<equiv> tl_events tm (tl_heap tm i)"

function x86_core_machine_timeline_heap_up :: "'cb timeline \<Rightarrow> nat \<Rightarrow> 'cb timeline" where
  "x86_core_machine_timeline_heap_up timeline index =
     (if index \<noteq> 0 then
        let parent = (index - 1) div 2
        in if \<not> x86_core_machine_timeline_precedes (tl_at timeline index) (tl_at timeline parent)
           then timeline
           else x86_core_machine_timeline_heap_up
                  (x86_core_machine_timeline_heap_swap timeline index parent) parent
      else timeline)"
  by pat_completeness auto
termination
  by (relation "measure snd") auto

definition heap_smallest :: "'cb timeline \<Rightarrow> nat \<Rightarrow> nat" where
  "heap_smallest timeline index =
     (let left = index * 2 + 1;
          right = left + 1;
          s1 = (if left < tl_heap_size timeline \<and>
                  x86_core_machine_timeline_precedes (tl_at timeline left) (tl_at timeline index)
                then left else index)
      in if right < tl_heap_size timeline \<and>
            x86_core_machine_timeline_precedes (tl_at timeline right) (tl_at timeline s1)
         then right else s1)"

lemma heap_size_swap [simp]:
  "tl_heap_size (x86_core_machine_timeline_heap_swap tm i j) = tl_heap_size tm"
  by (simp add: x86_core_machine_timeline_heap_swap_def set_heap_index_def Let_def)

lemma heap_smallest_bound:
  "heap_smallest tm i \<noteq> i \<Longrightarrow> i < heap_smallest tm i \<and> heap_smallest tm i < tl_heap_size tm"
  by (auto simp: heap_smallest_def Let_def split: if_splits)

function x86_core_machine_timeline_heap_down :: "'cb timeline \<Rightarrow> nat \<Rightarrow> 'cb timeline" where
  "x86_core_machine_timeline_heap_down timeline index =
     (let smallest = heap_smallest timeline index
      in if smallest = index then timeline
         else x86_core_machine_timeline_heap_down
                (x86_core_machine_timeline_heap_swap timeline index smallest) smallest)"
  by pat_completeness auto
termination
proof (relation "measure (\<lambda>(tm, i). tl_heap_size tm - i)")
  show "((x86_core_machine_timeline_heap_swap tm i s, s), tm, i) \<in> measure (\<lambda>(tm, i). tl_heap_size tm - i)"
    if "s = heap_smallest tm i" "s \<noteq> i" for tm :: "'cb timeline" and i s
    using heap_smallest_bound [of tm i] that by auto
qed simp

declare x86_core_machine_timeline_heap_up.simps [simp del]
declare x86_core_machine_timeline_heap_down.simps [simp del]

definition x86_core_machine_timeline_heap_remove :: "'cb timeline \<Rightarrow> nat \<Rightarrow> 'cb timeline" where
  "x86_core_machine_timeline_heap_remove timeline index =
     (if index \<ge> tl_heap_size timeline then timeline
      else
        let last = tl_heap_size timeline - 1;
            t1 = timeline\<lparr>tl_heap_size := last\<rparr>
        in if index = last then t1
           else
             let t2 = t1\<lparr>tl_heap := (tl_heap t1)(index := tl_heap t1 last)\<rparr>;
                 t3 = set_heap_index (tl_heap t2 index) index t2
             in if index \<noteq> 0 \<and>
                   x86_core_machine_timeline_precedes (tl_at t3 index) (tl_at t3 ((index - 1) div 2))
                then x86_core_machine_timeline_heap_up t3 index
                else x86_core_machine_timeline_heap_down t3 index)"

definition timeline_zero :: "'cb timeline" where
  "timeline_zero = \<lparr>tl_now = 0, tl_next_sequence = 0, tl_heap_size = 0, tl_heap = (\<lambda>_. 0),
     tl_events = (\<lambda>_. \<lparr>ev_due_tick = 0, ev_sequence = 0, ev_callback = None, ev_heap_index = 0,
       ev_active = False\<rparr>)\<rparr>"

fun x86_core_machine_timeline_reset :: "'cb timeline ptr \<Rightarrow> 'cb timeline ptr" where
  "x86_core_machine_timeline_reset None = None"
| "x86_core_machine_timeline_reset (Some timeline) = Some timeline_zero"

fun x86_core_machine_timeline_initialize :: "'cb timeline ptr \<Rightarrow> lib_status \<times> 'cb timeline ptr" where
  "x86_core_machine_timeline_initialize None = (LIB_STATUS_INVALID_ARGUMENT, None)"
| "x86_core_machine_timeline_initialize (Some timeline) =
     (LIB_STATUS_OK, x86_core_machine_timeline_reset (Some timeline))"

definition timeline_insert ::
  "'cb timeline \<Rightarrow> nat \<Rightarrow> lib_u64 \<Rightarrow> 'cb \<Rightarrow> 'cb timeline" where
  "timeline_insert timeline slot due_tick callback =
     x86_core_machine_timeline_heap_up
       (timeline\<lparr>tl_next_sequence := tl_next_sequence timeline + 1,
          tl_heap_size := tl_heap_size timeline + 1,
          tl_heap := (tl_heap timeline)(tl_heap_size timeline := slot),
          tl_events := (tl_events timeline)(slot :=
            \<lparr>ev_due_tick = due_tick, ev_sequence = tl_next_sequence timeline,
             ev_callback = Some callback, ev_heap_index = tl_heap_size timeline,
             ev_active = True\<rparr>)\<rparr>)
       (tl_heap_size timeline)"

fun x86_core_machine_timeline_schedule ::
  "'cb timeline ptr \<Rightarrow> lib_u64 \<Rightarrow> 'cb ptr \<Rightarrow> x86_core_machine_timeline_token ptr \<Rightarrow>
     lib_status \<times> 'cb timeline ptr \<times> x86_core_machine_timeline_token ptr" where
  "x86_core_machine_timeline_schedule (Some timeline) due_tick (Some callback) (Some token) =
     (if due_tick < tl_now timeline \<or> tl_next_sequence timeline = LIB_UINT64_MAX
      then (LIB_STATUS_INVALID_ARGUMENT, Some timeline, Some token)
      else case find (\<lambda>slot. \<not> ev_active (tl_events timeline slot))
                  [0..<X86_CORE_MACHINE_TIMELINE_EVENT_CAPACITY] of
          Some slot \<Rightarrow> (LIB_STATUS_OK, Some (timeline_insert timeline slot due_tick callback),
            Some \<lparr>tok_slot = slot, tok_sequence = tl_next_sequence timeline\<rparr>)
        | None \<Rightarrow> (LIB_STATUS_NO_MEMORY, Some timeline, Some token))"
| "x86_core_machine_timeline_schedule timeline due_tick callback token =
     (LIB_STATUS_INVALID_ARGUMENT, timeline, token)"

definition timeline_clear :: "nat \<Rightarrow> 'cb timeline \<Rightarrow> 'cb timeline" where
  "timeline_clear slot tm = tm\<lparr>tl_events := (tl_events tm)(slot := (tl_events tm slot)\<lparr>
     ev_active := False, ev_callback := None\<rparr>)\<rparr>"

fun x86_core_machine_timeline_cancel ::
  "'cb timeline ptr \<Rightarrow> x86_core_machine_timeline_token ptr \<Rightarrow> lib_status \<times> 'cb timeline ptr" where
  "x86_core_machine_timeline_cancel (Some timeline) (Some token) =
     (if tok_slot token \<ge> X86_CORE_MACHINE_TIMELINE_EVENT_CAPACITY
      then (LIB_STATUS_INVALID_ARGUMENT, Some timeline)
      else
        let event = tl_events timeline (tok_slot token)
        in if \<not> ev_active event \<or> ev_sequence event \<noteq> tok_sequence token
           then (LIB_STATUS_INVALID_STATE, Some timeline)
           else (LIB_STATUS_OK, Some (timeline_clear (tok_slot token)
                  (x86_core_machine_timeline_heap_remove timeline (ev_heap_index event)))))"
| "x86_core_machine_timeline_cancel timeline token = (LIB_STATUS_INVALID_ARGUMENT, timeline)"

fun x86_core_machine_timeline_next_due ::
  "'cb timeline ptr \<Rightarrow> lib_u64 ptr \<Rightarrow> lib_status \<times> lib_u64 ptr" where
  "x86_core_machine_timeline_next_due (Some timeline) (Some out) =
     (if tl_heap_size timeline = 0 then (LIB_STATUS_INVALID_STATE, Some out)
      else (LIB_STATUS_OK, Some (ev_due_tick (tl_at timeline 0))))"
| "x86_core_machine_timeline_next_due timeline out = (LIB_STATUS_INVALID_ARGUMENT, out)"

fun x86_core_machine_timeline_pending_count :: "'cb timeline ptr \<Rightarrow> lib_u32" where
  "x86_core_machine_timeline_pending_count None = 0"
| "x86_core_machine_timeline_pending_count (Some timeline) =
     fold (\<lambda>i count. if ev_active (tl_events timeline i) then count + 1 else count)
       [0..<X86_CORE_MACHINE_TIMELINE_EVENT_CAPACITY] 0"

section \<open>Dispatch\<close>

text \<open>
  A callback is a program of interface calls that sees their results; \<open>'w\<close> is the state of the
  world the callbacks change.
\<close>

datatype ('cb, 'w) timeline_program =
    CB_RETURN 'w
  | CB_SCHEDULE lib_u64 'cb
      "lib_status \<Rightarrow> x86_core_machine_timeline_token \<Rightarrow> ('cb, 'w) timeline_program"
  | CB_CANCEL x86_core_machine_timeline_token "lib_status \<Rightarrow> ('cb, 'w) timeline_program"

primrec timeline_call :: "('cb, 'w) timeline_program \<Rightarrow> 'cb timeline \<Rightarrow> 'cb timeline \<times> 'w" where
  "timeline_call (CB_RETURN w) tm = (tm, w)"
| "timeline_call (CB_SCHEDULE due cb k) tm =
     (case x86_core_machine_timeline_schedule (Some tm) due (Some cb)
             (Some \<lparr>tok_slot = 0, tok_sequence = 0\<rparr>) of
        (status, tm', token) \<Rightarrow> timeline_call (k status (the token)) (the tm'))"
| "timeline_call (CB_CANCEL token k) tm =
     (case x86_core_machine_timeline_cancel (Some tm) (Some token) of
        (status, tm') \<Rightarrow> timeline_call (k status) (the tm'))"

text \<open>The removal of the first event, as the loop of the advance does it before the call.\<close>

definition timeline_pop :: "'cb timeline \<Rightarrow> 'cb timeline" where
  "timeline_pop timeline =
     (let slot = tl_heap timeline 0;
          due_tick = ev_due_tick (tl_events timeline slot)
      in (timeline_clear slot (x86_core_machine_timeline_heap_remove timeline 0))\<lparr>tl_now := due_tick\<rparr>)"

section \<open>Frames of the heap operations\<close>

definition tl_key :: "'cb timeline \<Rightarrow> nat \<Rightarrow> timeline_key" where
  "tl_key tm i = ev_key (tl_at tm i)"

text \<open>Everything but the heap's own bookkeeping.\<close>

definition same_core :: "'cb timeline \<Rightarrow> 'cb timeline \<Rightarrow> bool" where
  "same_core tm tm' \<longleftrightarrow> tl_now tm' = tl_now tm \<and> tl_next_sequence tm' = tl_next_sequence tm \<and>
     tl_heap_size tm' = tl_heap_size tm \<and>
     (\<forall>s. ev_key (tl_events tm' s) = ev_key (tl_events tm s) \<and>
          ev_callback (tl_events tm' s) = ev_callback (tl_events tm s) \<and>
          ev_active (tl_events tm' s) = ev_active (tl_events tm s))"

lemma same_core_refl [simp]: "same_core tm tm"
  by (simp add: same_core_def)

lemma same_core_trans: "same_core a b \<Longrightarrow> same_core b c \<Longrightarrow> same_core a c"
  by (simp add: same_core_def)

lemma swap_heap:
  "tl_heap (x86_core_machine_timeline_heap_swap tm i j) =
    (tl_heap tm)(i := tl_heap tm j, j := tl_heap tm i)"
  by (simp add: x86_core_machine_timeline_heap_swap_def set_heap_index_def Let_def)

lemma swap_events:
  "tl_events (x86_core_machine_timeline_heap_swap tm i j) s = (tl_events tm s)\<lparr>ev_heap_index :=
     if s = tl_heap tm i then j else if s = tl_heap tm j then i else ev_heap_index (tl_events tm s)\<rparr>"
  by (simp add: x86_core_machine_timeline_heap_swap_def set_heap_index_def Let_def)

lemma swap_core: "same_core tm (x86_core_machine_timeline_heap_swap tm i j)"
  by (simp add: same_core_def swap_events ev_key_def)
    (simp add: x86_core_machine_timeline_heap_swap_def set_heap_index_def Let_def)

lemma swap_key:
  "tl_key (x86_core_machine_timeline_heap_swap tm i j) x =
    (if x = j then tl_key tm i else if x = i then tl_key tm j else tl_key tm x)"
  by (simp add: tl_key_def swap_heap swap_events ev_key_def)

text \<open>The heap positions and a set of slots point at each other.\<close>

definition tl_links :: "nat set \<Rightarrow> 'cb timeline \<Rightarrow> bool" where
  "tl_links S tm \<longleftrightarrow>
     (\<forall>i < tl_heap_size tm. tl_heap tm i \<in> S \<and> ev_heap_index (tl_at tm i) = i) \<and>
     (\<forall>s \<in> S. ev_heap_index (tl_events tm s) < tl_heap_size tm \<and>
        tl_heap tm (ev_heap_index (tl_events tm s)) = s)"

lemma tl_links_inj:
  assumes "tl_links S tm" "i < tl_heap_size tm" "j < tl_heap_size tm"
  shows "tl_heap tm i = tl_heap tm j \<longleftrightarrow> i = j"
  using assms unfolding tl_links_def by metis

lemma tl_links_swap:
  assumes L: "tl_links S tm" and i: "i < tl_heap_size tm" and j: "j < tl_heap_size tm"
  shows "tl_links S (x86_core_machine_timeline_heap_swap tm i j)"
proof -
  have inj: "\<And>a b. a < tl_heap_size tm \<Longrightarrow> b < tl_heap_size tm \<Longrightarrow> (tl_heap tm a = tl_heap tm b) = (a = b)"
    by (rule tl_links_inj [OF L])
  show ?thesis
    unfolding tl_links_def heap_size_swap
  proof (intro conjI allI impI ballI)
    fix k assume k: "k < tl_heap_size tm"
    show "tl_heap (x86_core_machine_timeline_heap_swap tm i j) k \<in> S"
      using L i j k by (auto simp: swap_heap tl_links_def)
    show "ev_heap_index (tl_at (x86_core_machine_timeline_heap_swap tm i j) k) = k"
      using L i j k inj by (auto simp: swap_heap swap_events tl_links_def)
  next
    fix s assume s: "s \<in> S"
    then obtain k where k: "k < tl_heap_size tm" "s = tl_heap tm k" "ev_heap_index (tl_events tm s) = k"
      using L unfolding tl_links_def by metis
    show "ev_heap_index (tl_events (x86_core_machine_timeline_heap_swap tm i j) s) < tl_heap_size tm"
      using i j k by (simp add: swap_events)
    show "tl_heap (x86_core_machine_timeline_heap_swap tm i j)
        (ev_heap_index (tl_events (x86_core_machine_timeline_heap_swap tm i j) s)) = s"
      using i j k inj by (auto simp: swap_heap swap_events)
  qed
qed

section \<open>The heap order\<close>

definition heap_parent :: "nat \<Rightarrow> nat" where
  "heap_parent j = (j - 1) div 2"

definition heap_ok :: "'cb timeline \<Rightarrow> bool" where
  "heap_ok tm \<longleftrightarrow> (\<forall>j. 0 < j \<and> j < tl_heap_size tm \<longrightarrow> tl_key tm (heap_parent j) \<le> tl_key tm j)"

text \<open>Ordered except that the entry at \<open>i\<close> may be smaller than its parent, or larger than its
  children.\<close>

definition up_ok :: "'cb timeline \<Rightarrow> nat \<Rightarrow> bool" where
  "up_ok tm i \<longleftrightarrow>
     (\<forall>j. 0 < j \<and> j < tl_heap_size tm \<and> j \<noteq> i \<longrightarrow> tl_key tm (heap_parent j) \<le> tl_key tm j) \<and>
     (\<forall>j. 0 < j \<and> j < tl_heap_size tm \<and> heap_parent j = i \<and> 0 < i \<longrightarrow>
        tl_key tm (heap_parent i) \<le> tl_key tm j)"

definition down_ok :: "'cb timeline \<Rightarrow> nat \<Rightarrow> bool" where
  "down_ok tm i \<longleftrightarrow>
     (\<forall>j. 0 < j \<and> j < tl_heap_size tm \<and> heap_parent j \<noteq> i \<longrightarrow> tl_key tm (heap_parent j) \<le> tl_key tm j) \<and>
     (\<forall>j. 0 < j \<and> j < tl_heap_size tm \<and> heap_parent j = i \<and> 0 < i \<longrightarrow>
        tl_key tm (heap_parent i) \<le> tl_key tm j)"

lemma heap_parent_less: "0 < j \<Longrightarrow> heap_parent j < j"
  by (simp add: heap_parent_def)

lemma heap_parent_child: "0 < j \<Longrightarrow> heap_parent j = i \<longleftrightarrow> j = i * 2 + 1 \<or> j = i * 2 + 2"
  by (auto simp: heap_parent_def)

lemma heap_children:
  "(\<forall>j. 0 < j \<and> j < n \<and> heap_parent j = i \<longrightarrow> P j) \<longleftrightarrow>
    (i * 2 + 1 < n \<longrightarrow> P (i * 2 + 1)) \<and> (i * 2 + 2 < n \<longrightarrow> P (i * 2 + 2))"
proof -
  have "0 < j \<and> j < n \<and> heap_parent j = i \<longleftrightarrow> j < n \<and> (j = i * 2 + 1 \<or> j = i * 2 + 2)" for j
    using heap_parent_child [of j i] by auto
  then show ?thesis by auto
qed

lemma up_ok_swap:
  assumes U: "up_ok tm i" and i: "0 < i" "i < tl_heap_size tm"
    and lt: "tl_key tm i < tl_key tm (heap_parent i)"
  shows "up_ok (x86_core_machine_timeline_heap_swap tm i (heap_parent i)) (heap_parent i)"
proof -
  let ?p = "heap_parent i" and ?t = "x86_core_machine_timeline_heap_swap tm i (heap_parent i)"
  have pi: "?p < i" by (rule heap_parent_less [OF i(1)])
  have ok: "tl_key tm (heap_parent j) \<le> tl_key tm j"
    if "0 < j" "j < tl_heap_size tm" "j \<noteq> i" for j using U that by (simp add: up_ok_def)
  have "tl_key ?t (heap_parent j) \<le> tl_key ?t j"
    if j: "0 < j" "j < tl_heap_size tm" "j \<noteq> ?p" for j
  proof (cases "j = i")
    case True
    then show ?thesis using pi lt by (simp add: swap_key less_imp_le)
  next
    case False
    consider "heap_parent j = i" | "heap_parent j = ?p" | "heap_parent j \<noteq> i" "heap_parent j \<noteq> ?p"
      by blast
    then show ?thesis
    proof cases
      case 1
      then show ?thesis using U j False pi i by (auto simp: swap_key up_ok_def)
    next
      case 2
      then show ?thesis using ok [OF j(1,2) False] lt j False by (simp add: swap_key)
    next
      case 3
      then show ?thesis using ok [OF j(1,2) False] j False by (simp add: swap_key)
    qed
  qed
  moreover have "tl_key ?t (heap_parent ?p) \<le> tl_key ?t j"
    if j: "0 < j" "j < tl_heap_size tm" "heap_parent j = ?p" "0 < ?p" for j
  proof -
    have pp: "heap_parent ?p < ?p" by (rule heap_parent_less [OF j(4)])
    have "tl_key tm (heap_parent ?p) \<le> tl_key tm ?p" using ok [of ?p] j(4) pi i by simp
    moreover have "j \<noteq> ?p" using heap_parent_less [OF j(1)] j(3) by simp
    ultimately show ?thesis
      using ok [OF j(1,2)] j pp pi by (cases "j = i") (auto simp: swap_key)
  qed
  ultimately show ?thesis by (simp add: up_ok_def)
qed

lemma heap_up_rec:
  "x86_core_machine_timeline_heap_up tm i =
    (if 0 < i \<and> tl_key tm i < tl_key tm (heap_parent i)
     then x86_core_machine_timeline_heap_up
       (x86_core_machine_timeline_heap_swap tm i (heap_parent i)) (heap_parent i)
     else tm)"
  by (subst x86_core_machine_timeline_heap_up.simps)
    (simp add: Let_def heap_parent_def precedes_key tl_key_def)

lemma heap_up_ok:
  assumes "up_ok tm i" "i < tl_heap_size tm" "tl_links S tm"
  shows "heap_ok (x86_core_machine_timeline_heap_up tm i) \<and>
    tl_links S (x86_core_machine_timeline_heap_up tm i) \<and>
    same_core tm (x86_core_machine_timeline_heap_up tm i)"
  using assms
proof (induction i arbitrary: tm rule: less_induct)
  case (less i)
  let ?p = "heap_parent i" and ?t = "x86_core_machine_timeline_heap_swap tm i (heap_parent i)"
  show ?case
  proof (cases "0 < i \<and> tl_key tm i < tl_key tm ?p")
    case True
    then have lt: "?p < i" by (simp add: heap_parent_less)
    have "heap_ok (x86_core_machine_timeline_heap_up ?t ?p) \<and>
        tl_links S (x86_core_machine_timeline_heap_up ?t ?p) \<and>
        same_core ?t (x86_core_machine_timeline_heap_up ?t ?p)"
      using True less.prems lt by (intro less.IH) (auto intro: tl_links_swap up_ok_swap)
    then show ?thesis
      using True same_core_trans [OF swap_core] heap_up_rec [of tm i] by auto
  next
    case False
    moreover have "heap_ok tm"
      using False less.prems(1) by (auto simp: heap_ok_def up_ok_def not_less)
    ultimately show ?thesis using less.prems(3) heap_up_rec [of tm i] by auto
  qed
qed

lemma heap_smallest_cases:
  assumes "s = heap_smallest tm i"
  shows "s = i \<and> (\<forall>j. 0 < j \<and> j < tl_heap_size tm \<and> heap_parent j = i \<longrightarrow> tl_key tm i \<le> tl_key tm j) \<or>
    0 < s \<and> s < tl_heap_size tm \<and> heap_parent s = i \<and> tl_key tm s < tl_key tm i \<and>
    (\<forall>j. 0 < j \<and> j < tl_heap_size tm \<and> heap_parent j = i \<longrightarrow> tl_key tm s \<le> tl_key tm j)"
proof -
  have p: "heap_parent (i * 2 + 1) = i" "heap_parent (i * 2 + 2) = i"
    by (simp_all add: heap_parent_child)
  let ?l = "i * 2 + 1" and ?r = "i * 2 + 2"
  have s: "s = (let s1 = (if ?l < tl_heap_size tm \<and> tl_key tm ?l < tl_key tm i then ?l else i)
      in if ?r < tl_heap_size tm \<and> tl_key tm ?r < tl_key tm s1 then ?r else s1)"
    by (simp add: assms heap_smallest_def Let_def precedes_key tl_key_def)
  show ?thesis
    unfolding heap_children using s p by (auto simp: Let_def not_less split: if_splits)
qed

lemma down_ok_swap:
  assumes D: "down_ok tm i" and i: "i < tl_heap_size tm"
    and s: "0 < s" "s < tl_heap_size tm" "heap_parent s = i" "tl_key tm s < tl_key tm i"
    and least: "\<And>j. 0 < j \<Longrightarrow> j < tl_heap_size tm \<Longrightarrow> heap_parent j = i \<Longrightarrow> tl_key tm s \<le> tl_key tm j"
  shows "down_ok (x86_core_machine_timeline_heap_swap tm i s) s"
proof -
  let ?t = "x86_core_machine_timeline_heap_swap tm i s"
  have lt: "i < s" using heap_parent_less [OF s(1)] s(3) by simp
  have ok: "tl_key tm (heap_parent j) \<le> tl_key tm j"
    if "0 < j" "j < tl_heap_size tm" "heap_parent j \<noteq> i" for j using D that by (simp add: down_ok_def)
  have "tl_key ?t (heap_parent j) \<le> tl_key ?t j"
    if j: "0 < j" "j < tl_heap_size tm" "heap_parent j \<noteq> s" for j
  proof -
    consider "j = s" | "j = i" | "j \<noteq> s" "j \<noteq> i" "heap_parent j = i" | "j \<noteq> s" "j \<noteq> i" "heap_parent j \<noteq> i"
      by blast
    then show ?thesis
    proof cases
      case 1
      then show ?thesis using lt s by (simp add: swap_key less_imp_le)
    next
      case 2
      then have "tl_key tm (heap_parent i) \<le> tl_key tm s" using D s j by (simp add: down_ok_def)
      then show ?thesis using 2 j lt heap_parent_less [OF j(1)] by (simp add: swap_key)
    next
      case 3
      then show ?thesis using least [OF j(1,2)] lt by (simp add: swap_key)
    next
      case 4
      then show ?thesis using ok [OF j(1,2)] j(3) by (simp add: swap_key)
    qed
  qed
  moreover have "tl_key ?t (heap_parent s) \<le> tl_key ?t j"
    if j: "0 < j" "j < tl_heap_size tm" "heap_parent j = s" for j
  proof -
    have "s < j" using heap_parent_less [OF j(1)] j(3) by simp
    then show ?thesis using ok [OF j(1,2)] j(3) lt s by (simp add: swap_key)
  qed
  ultimately show ?thesis by (simp add: down_ok_def)
qed

lemma heap_down_ok:
  assumes "down_ok tm i" "i < tl_heap_size tm" "tl_links S tm"
  shows "heap_ok (x86_core_machine_timeline_heap_down tm i) \<and>
    tl_links S (x86_core_machine_timeline_heap_down tm i) \<and>
    same_core tm (x86_core_machine_timeline_heap_down tm i)"
  using assms
proof (induction tm i rule: x86_core_machine_timeline_heap_down.induct)
  case (1 tm i)
  let ?s = "heap_smallest tm i"
  show ?case
  proof (cases "?s = i")
    case True
    then have "x86_core_machine_timeline_heap_down tm i = tm"
      by (subst x86_core_machine_timeline_heap_down.simps) simp
    moreover have "heap_ok tm"
      using heap_smallest_cases [of ?s tm i] True "1.prems"(1)
      by (auto simp: heap_ok_def down_ok_def)
    ultimately show ?thesis using "1.prems"(3) by simp
  next
    case False
    then have s: "0 < ?s" "?s < tl_heap_size tm" "heap_parent ?s = i" "tl_key tm ?s < tl_key tm i"
      "\<And>j. 0 < j \<Longrightarrow> j < tl_heap_size tm \<Longrightarrow> heap_parent j = i \<Longrightarrow> tl_key tm ?s \<le> tl_key tm j"
      using heap_smallest_cases [of ?s tm i] by auto
    let ?t = "x86_core_machine_timeline_heap_swap tm i ?s"
    have "heap_ok (x86_core_machine_timeline_heap_down ?t ?s) \<and>
        tl_links S (x86_core_machine_timeline_heap_down ?t ?s) \<and>
        same_core ?t (x86_core_machine_timeline_heap_down ?t ?s)"
      using False "1.prems" s
      by (intro "1.IH") (auto intro: tl_links_swap down_ok_swap)
    then show ?thesis
      using False same_core_trans [OF swap_core]
      by (subst (1 2 3) x86_core_machine_timeline_heap_down.simps) (auto simp: Let_def)
  qed
qed

lemma heap_root_least:
  assumes "heap_ok tm" "i < tl_heap_size tm"
  shows "tl_key tm 0 \<le> tl_key tm i"
  using assms(2)
proof (induction i rule: less_induct)
  case (less i)
  show ?case
  proof (cases "i = 0")
    case False
    then have "heap_parent i < i" by (simp add: heap_parent_less)
    then have "tl_key tm 0 \<le> tl_key tm (heap_parent i)" using less by simp
    also have "\<dots> \<le> tl_key tm i" using assms(1) less.prems False by (simp add: heap_ok_def)
    finally show ?thesis .
  qed simp
qed


section \<open>The invariant and what the timeline stands for\<close>

definition tl_active :: "'cb timeline \<Rightarrow> nat set" where
  "tl_active tm = {s. s < 32 \<and> ev_active (tl_events tm s)}"

definition ev_entry :: "'cb x86_core_machine_timeline_event \<Rightarrow> timeline_key \<times> 'cb" where
  "ev_entry e = (ev_key e, the (ev_callback e))"

definition tl_pending :: "'cb timeline \<Rightarrow> (timeline_key \<times> 'cb) set" where
  "tl_pending tm = (\<lambda>s. ev_entry (tl_events tm s)) ` tl_active tm"

definition tl_sound :: "lib_u64 \<Rightarrow> lib_u64 \<Rightarrow> 'cb x86_core_machine_timeline_event \<Rightarrow> bool" where
  "tl_sound now limit e \<longleftrightarrow> now \<le> key_due (ev_key e) \<and> key_sequence (ev_key e) < limit \<and> ev_callback e \<noteq> None"

definition tl_inv :: "'cb timeline \<Rightarrow> bool" where
  "tl_inv tm \<longleftrightarrow> tl_links (tl_active tm) tm \<and> heap_ok tm \<and>
     (\<forall>s \<in> tl_active tm. tl_sound (tl_now tm) (tl_next_sequence tm) (tl_events tm s)) \<and>
     inj_on (\<lambda>s. key_sequence (ev_key (tl_events tm s))) (tl_active tm)"

lemma tl_invD:
  assumes "tl_inv tm"
  shows "tl_links (tl_active tm) tm" "heap_ok tm"
    "\<And>s. s \<in> tl_active tm \<Longrightarrow> tl_sound (tl_now tm) (tl_next_sequence tm) (tl_events tm s)"
    "inj_on (\<lambda>s. key_sequence (ev_key (tl_events tm s))) (tl_active tm)"
  using assms by (simp_all add: tl_inv_def)

lemma same_core_active: "same_core tm tm' \<Longrightarrow> tl_active tm' = tl_active tm"
  by (simp add: same_core_def tl_active_def)

lemma same_core_entry: "same_core tm tm' \<Longrightarrow> ev_entry (tl_events tm' s) = ev_entry (tl_events tm s)"
  by (simp add: same_core_def ev_entry_def)

lemma same_core_sound:
  "same_core tm tm' \<Longrightarrow> tl_sound n l (tl_events tm' s) = tl_sound n l (tl_events tm s)"
  by (simp add: same_core_def tl_sound_def)

lemma same_core_inv:
  assumes "same_core tm tm'" "tl_links (tl_active tm) tm'" "heap_ok tm'"
    "\<And>s. s \<in> tl_active tm \<Longrightarrow> tl_sound (tl_now tm) (tl_next_sequence tm) (tl_events tm s)"
    "inj_on (\<lambda>s. key_sequence (ev_key (tl_events tm s))) (tl_active tm)"
  shows "tl_inv tm' \<and> tl_pending tm' = tl_pending tm \<and> tl_now tm' = tl_now tm \<and>
    tl_next_sequence tm' = tl_next_sequence tm"
proof -
  have c: "tl_now tm' = tl_now tm" "tl_next_sequence tm' = tl_next_sequence tm"
    "\<And>s. ev_key (tl_events tm' s) = ev_key (tl_events tm s)"
    using assms(1) by (simp_all add: same_core_def)
  have "tl_pending tm' = tl_pending tm"
    by (simp add: tl_pending_def same_core_active [OF assms(1)] same_core_entry [OF assms(1)])
  moreover have "tl_inv tm'"
    using assms(2-5)
    by (simp add: tl_inv_def same_core_active [OF assms(1)] same_core_sound [OF assms(1)] c)
  ultimately show ?thesis using c by simp
qed

lemma unat_Suc_u64: "n \<noteq> LIB_UINT64_MAX \<Longrightarrow> unat (n + 1) = Suc (unat n)"
  using max_word_wrap [of n] unatSuc [of n] by (auto simp: LIB_UINT64_MAX_def add.commute)

lemma u64_less_Suc: "n \<noteq> LIB_UINT64_MAX \<Longrightarrow> (m :: lib_u64) < n + 1 \<longleftrightarrow> m \<le> n"
  by (simp add: word_less_nat_alt word_le_nat_alt unat_Suc_u64 less_Suc_eq_le)

section \<open>Scheduling\<close>

lemma timeline_insert_ok:
  assumes inv: "tl_inv tm" and slot: "slot < 32" "slot \<notin> tl_active tm"
    and due: "tl_now tm \<le> due" and seq: "tl_next_sequence tm \<noteq> LIB_UINT64_MAX"
  shows "tl_inv (timeline_insert tm slot due cb) \<and>
    tl_pending (timeline_insert tm slot due cb) =
      insert (Key due (tl_next_sequence tm), cb) (tl_pending tm) \<and>
    tl_now (timeline_insert tm slot due cb) = tl_now tm \<and>
    tl_next_sequence (timeline_insert tm slot due cb) = tl_next_sequence tm + 1 \<and>
    tl_active (timeline_insert tm slot due cb) = insert slot (tl_active tm) \<and>
    ev_entry (tl_events (timeline_insert tm slot due cb) slot) = (Key due (tl_next_sequence tm), cb)"
proof -
  let ?A = "tl_active tm" and ?n = "tl_heap_size tm"
  let ?e = "\<lparr>ev_due_tick = due, ev_sequence = tl_next_sequence tm, ev_callback = Some cb,
    ev_heap_index = ?n, ev_active = True\<rparr>"
  define t0 where "t0 = tm\<lparr>tl_next_sequence := tl_next_sequence tm + 1, tl_heap_size := ?n + 1,
    tl_heap := (tl_heap tm)(?n := slot), tl_events := (tl_events tm)(slot := ?e)\<rparr>"
  note I = tl_invD [OF inv]
  have heapA: "\<And>i. i < ?n \<Longrightarrow> tl_heap tm i \<in> ?A" using I(1) by (simp add: tl_links_def)
  have act: "tl_active t0 = insert slot ?A"
    using slot(1) by (auto simp: t0_def tl_active_def)
  have ne: "s \<noteq> slot" if "s \<in> ?A" for s using slot(2) that by blast
  have key: "tl_key t0 i = tl_key tm i" if "i < ?n" for i
    using that ne [OF heapA [OF that]] by (simp add: t0_def tl_key_def)
  have links: "tl_links (insert slot ?A) t0"
    using I(1) ne slot(2) unfolding tl_links_def
    by (auto simp: t0_def less_Suc_eq)
  have up: "up_ok t0 ?n"
    unfolding up_ok_def
  proof (intro conjI allI impI)
    fix j assume j: "0 < j \<and> j < tl_heap_size t0 \<and> j \<noteq> ?n"
    then have "j < ?n" by (auto simp: t0_def)
    moreover have "heap_parent j < ?n" using heap_parent_less [of j] j calculation by linarith
    ultimately show "tl_key t0 (heap_parent j) \<le> tl_key t0 j"
      using I(2) j by (simp add: key heap_ok_def)
  next
    fix j assume j: "0 < j \<and> j < tl_heap_size t0 \<and> heap_parent j = ?n \<and> 0 < ?n"
    then show "tl_key t0 (heap_parent ?n) \<le> tl_key t0 j"
      using heap_parent_less [of j] by (simp add: t0_def)
  qed
  have ins: "timeline_insert tm slot due cb = x86_core_machine_timeline_heap_up t0 ?n"
    by (simp add: timeline_insert_def t0_def)
  have H: "heap_ok (timeline_insert tm slot due cb)" "tl_links (tl_active t0) (timeline_insert tm slot due cb)"
    "same_core t0 (timeline_insert tm slot due cb)"
    using heap_up_ok [OF up _ links] unfolding ins act by (simp_all add: t0_def)
  have "tl_sound (tl_now t0) (tl_next_sequence t0) (tl_events t0 s)" if "s \<in> tl_active t0" for s
    using that I(3) due seq unfolding act
    by (auto simp: t0_def tl_sound_def ev_key_def u64_less_Suc intro: less_imp_le)
  moreover have "inj_on (\<lambda>s. key_sequence (ev_key (tl_events t0 s))) (tl_active t0)"
  proof -
    have "key_sequence (ev_key (tl_events tm s)) \<noteq> tl_next_sequence tm" if "s \<in> ?A" for s
      using I(3) [OF that] by (auto simp: tl_sound_def)
    moreover have "key_sequence (ev_key (tl_events t0 slot)) = tl_next_sequence tm"
      "\<And>s. s \<noteq> slot \<Longrightarrow> tl_events t0 s = tl_events tm s"
      by (simp_all add: t0_def ev_key_def)
    ultimately have "key_sequence (ev_key (tl_events t0 slot)) \<notin>
        (\<lambda>s. key_sequence (ev_key (tl_events t0 s))) ` (?A - {slot})"
      by (metis (no_types, lifting) Diff_iff image_iff singletonI)
    moreover have "inj_on (\<lambda>s. key_sequence (ev_key (tl_events t0 s))) ?A"
      using I(4) ne by (simp add: t0_def cong: inj_on_cong)
    ultimately show ?thesis unfolding act inj_on_insert by simp
  qed
  ultimately have "tl_inv (timeline_insert tm slot due cb) \<and>
      tl_pending (timeline_insert tm slot due cb) = tl_pending t0 \<and>
      tl_now (timeline_insert tm slot due cb) = tl_now t0 \<and>
      tl_next_sequence (timeline_insert tm slot due cb) = tl_next_sequence t0"
    by (rule same_core_inv [OF H(3,2,1)])
  moreover have "tl_pending t0 = insert (Key due (tl_next_sequence tm), cb) (tl_pending tm)"
    using ne unfolding tl_pending_def act by (auto simp: t0_def ev_entry_def ev_key_def)
  moreover have "ev_entry (tl_events t0 slot) = (Key due (tl_next_sequence tm), cb)"
    by (simp add: t0_def ev_entry_def ev_key_def)
  ultimately show ?thesis
    using same_core_active [OF H(3)] same_core_entry [OF H(3)] act by (simp add: t0_def)
qed

section \<open>Removing\<close>

text \<open>The heap after its last entry has been moved to position \<open>i\<close>, before it is sifted.\<close>

definition heap_moved :: "'cb timeline \<Rightarrow> nat \<Rightarrow> 'cb timeline" where
  "heap_moved tm i = set_heap_index (tl_heap tm (tl_heap_size tm - 1)) i
     (tm\<lparr>tl_heap_size := tl_heap_size tm - 1,
         tl_heap := (tl_heap tm)(i := tl_heap tm (tl_heap_size tm - 1))\<rparr>)"

lemma heap_remove_eq:
  assumes "i < tl_heap_size tm"
  shows "x86_core_machine_timeline_heap_remove tm i =
    (if i = tl_heap_size tm - 1 then tm\<lparr>tl_heap_size := tl_heap_size tm - 1\<rparr>
     else if i \<noteq> 0 \<and> tl_key (heap_moved tm i) i < tl_key (heap_moved tm i) (heap_parent i)
     then x86_core_machine_timeline_heap_up (heap_moved tm i) i
     else x86_core_machine_timeline_heap_down (heap_moved tm i) i)"
  using assms
  by (simp add: x86_core_machine_timeline_heap_remove_def Let_def heap_moved_def
      precedes_key tl_key_def heap_parent_def)

lemma heap_moved_frame:
  "tl_heap_size (heap_moved tm i) = tl_heap_size tm - 1"
  "same_core (tm\<lparr>tl_heap_size := tl_heap_size tm - 1\<rparr>) (heap_moved tm i)"
  "tl_key (heap_moved tm i) x = (if x = i then tl_key tm (tl_heap_size tm - 1) else tl_key tm x)"
  by (simp_all add: same_core_def heap_moved_def set_heap_index_def ev_key_def tl_key_def)

lemma tl_links_shrink:
  assumes L: "tl_links S tm" and n: "0 < tl_heap_size tm"
  shows "tl_links (S - {tl_heap tm (tl_heap_size tm - 1)}) (tm\<lparr>tl_heap_size := tl_heap_size tm - 1\<rparr>)"
  unfolding tl_links_def
proof (intro conjI allI impI ballI)
  fix k assume k: "k < tl_heap_size (tm\<lparr>tl_heap_size := tl_heap_size tm - 1\<rparr>)"
  then show "tl_heap (tm\<lparr>tl_heap_size := tl_heap_size tm - 1\<rparr>) k \<in> S - {tl_heap tm (tl_heap_size tm - 1)}"
    using tl_links_inj [OF L, of k "tl_heap_size tm - 1"] L by (auto simp: tl_links_def)
  from k show "ev_heap_index (tl_at (tm\<lparr>tl_heap_size := tl_heap_size tm - 1\<rparr>) k) = k"
    using L by (simp add: tl_links_def)
next
  fix s assume s: "s \<in> S - {tl_heap tm (tl_heap_size tm - 1)}"
  then have "ev_heap_index (tl_events tm s) \<noteq> tl_heap_size tm - 1"
    using L by (auto simp: tl_links_def)
  moreover have "ev_heap_index (tl_events tm s) < tl_heap_size tm" using L s by (simp add: tl_links_def)
  ultimately show "ev_heap_index (tl_events (tm\<lparr>tl_heap_size := tl_heap_size tm - 1\<rparr>) s) <
      tl_heap_size (tm\<lparr>tl_heap_size := tl_heap_size tm - 1\<rparr>)" by simp
  show "tl_heap (tm\<lparr>tl_heap_size := tl_heap_size tm - 1\<rparr>)
      (ev_heap_index (tl_events (tm\<lparr>tl_heap_size := tl_heap_size tm - 1\<rparr>) s)) = s"
    using L s by (simp add: tl_links_def)
qed

lemma tl_links_moved:
  assumes L: "tl_links S tm" and i: "i < tl_heap_size tm - 1"
  shows "tl_links (S - {tl_heap tm i}) (heap_moved tm i)"
proof -
  let ?last = "tl_heap_size tm - 1"
  have inj: "\<And>a b. a < tl_heap_size tm \<Longrightarrow> b < tl_heap_size tm \<Longrightarrow> (tl_heap tm a = tl_heap tm b) = (a = b)"
    by (rule tl_links_inj [OF L])
  have at: "\<And>a. a < tl_heap_size tm \<Longrightarrow> tl_heap tm a \<in> S \<and> ev_heap_index (tl_at tm a) = a"
    using L by (simp add: tl_links_def)
  show ?thesis
    unfolding tl_links_def heap_moved_frame
  proof (intro conjI allI impI ballI)
    fix k assume k: "k < ?last"
    show "tl_heap (heap_moved tm i) k \<in> S - {tl_heap tm i}"
      using at [of k] at [of ?last] inj [of k i] inj [of ?last i] k i
      by (auto simp: heap_moved_def set_heap_index_def)
    show "ev_heap_index (tl_at (heap_moved tm i) k) = k"
      using at [of k] inj [of k ?last] k i by (auto simp: heap_moved_def set_heap_index_def)
  next
    fix x assume x: "x \<in> S - {tl_heap tm i}"
    let ?h = "ev_heap_index (tl_events tm x)"
    have h: "?h \<noteq> i" "?h < tl_heap_size tm" "tl_heap tm ?h = x" "x = tl_heap tm ?last \<longleftrightarrow> ?h = ?last"
      using L x inj [of ?h ?last] i by (auto simp: tl_links_def)
    then show "ev_heap_index (tl_events (heap_moved tm i) x) < ?last"
      "tl_heap (heap_moved tm i) (ev_heap_index (tl_events (heap_moved tm i) x)) = x"
      using i by (auto simp: heap_moved_def set_heap_index_def)
  qed
qed

lemma heap_ok_below:
  assumes "heap_ok tm" "0 < j" "j < tl_heap_size tm" "heap_parent j = i" "0 < i"
  shows "tl_key tm (heap_parent i) \<le> tl_key tm j"
proof -
  have "i < tl_heap_size tm" using heap_parent_less [OF assms(2)] assms(3,4) by simp
  then have "tl_key tm (heap_parent i) \<le> tl_key tm i" using assms(1,5) by (simp add: heap_ok_def)
  also have "\<dots> \<le> tl_key tm j" using assms by (auto simp: heap_ok_def)
  finally show ?thesis .
qed

lemma heap_moved_up_ok:
  assumes ok: "heap_ok tm" and i: "i < tl_heap_size tm - 1" "0 < i"
    and lt: "tl_key (heap_moved tm i) i < tl_key (heap_moved tm i) (heap_parent i)"
  shows "up_ok (heap_moved tm i) i"
  unfolding up_ok_def heap_moved_frame(1)
proof (intro conjI allI impI)
  have pl: "heap_parent i < i" using i by (simp add: heap_parent_less)
  fix j assume j: "0 < j \<and> j < tl_heap_size tm - 1 \<and> j \<noteq> i"
  show "tl_key (heap_moved tm i) (heap_parent j) \<le> tl_key (heap_moved tm i) j"
  proof (cases "heap_parent j = i")
    case True
    then have "tl_key tm (heap_parent i) \<le> tl_key tm j" using heap_ok_below [OF ok, of j i] j i by auto
    then show ?thesis using lt pl j True by (simp add: heap_moved_frame)
  next
    case False
    then show ?thesis using ok j by (auto simp: heap_moved_frame heap_ok_def)
  qed
next
  have pl: "heap_parent i < i" using i by (simp add: heap_parent_less)
  fix j assume j: "0 < j \<and> j < tl_heap_size tm - 1 \<and> heap_parent j = i \<and> 0 < i"
  then show "tl_key (heap_moved tm i) (heap_parent i) \<le> tl_key (heap_moved tm i) j"
    using heap_ok_below [OF ok, of j i] pl heap_parent_less [of j] by (auto simp: heap_moved_frame)
qed

lemma heap_moved_down_ok:
  assumes ok: "heap_ok tm" and i: "i < tl_heap_size tm - 1"
    and ge: "i \<noteq> 0 \<Longrightarrow> tl_key (heap_moved tm i) (heap_parent i) \<le> tl_key (heap_moved tm i) i"
  shows "down_ok (heap_moved tm i) i"
  unfolding down_ok_def heap_moved_frame(1)
proof (intro conjI allI impI)
  fix j assume j: "0 < j \<and> j < tl_heap_size tm - 1 \<and> heap_parent j \<noteq> i"
  show "tl_key (heap_moved tm i) (heap_parent j) \<le> tl_key (heap_moved tm i) j"
  proof (cases "j = i")
    case True
    then show ?thesis using ge j by simp
  next
    case False
    then show ?thesis using ok j by (auto simp: heap_moved_frame heap_ok_def)
  qed
next
  fix j assume j: "0 < j \<and> j < tl_heap_size tm - 1 \<and> heap_parent j = i \<and> 0 < i"
  then show "tl_key (heap_moved tm i) (heap_parent i) \<le> tl_key (heap_moved tm i) j"
    using heap_ok_below [OF ok, of j i] heap_parent_less [of i] heap_parent_less [of j]
    by (auto simp: heap_moved_frame)
qed

lemma heap_remove_ok:
  assumes L: "tl_links S tm" and ok: "heap_ok tm" and i: "i < tl_heap_size tm"
  shows "heap_ok (x86_core_machine_timeline_heap_remove tm i) \<and>
    tl_links (S - {tl_heap tm i}) (x86_core_machine_timeline_heap_remove tm i) \<and>
    same_core (tm\<lparr>tl_heap_size := tl_heap_size tm - 1\<rparr>) (x86_core_machine_timeline_heap_remove tm i)"
proof (cases "i = tl_heap_size tm - 1")
  case True
  have "heap_ok (tm\<lparr>tl_heap_size := tl_heap_size tm - 1\<rparr>)"
    using ok by (auto simp: heap_ok_def tl_key_def)
  moreover have "x86_core_machine_timeline_heap_remove tm i = tm\<lparr>tl_heap_size := tl_heap_size tm - 1\<rparr>"
    using heap_remove_eq [OF i] True by simp
  ultimately show ?thesis using True tl_links_shrink [OF L] i by simp
next
  case False
  then have il: "i < tl_heap_size tm - 1" "i < tl_heap_size (heap_moved tm i)"
    using i by (simp_all add: heap_moved_frame)
  note links = tl_links_moved [OF L il(1)] and core = same_core_trans [OF heap_moved_frame(2)]
  show ?thesis
  proof (cases "i \<noteq> 0 \<and> tl_key (heap_moved tm i) i < tl_key (heap_moved tm i) (heap_parent i)")
    case True
    then have "up_ok (heap_moved tm i) i" by (intro heap_moved_up_ok [OF ok il(1)]) simp_all
    from heap_up_ok [OF this il(2) links] show ?thesis
      using True False core by (auto simp: heap_remove_eq [OF i])
  next
    case nlt: False
    then have "down_ok (heap_moved tm i) i" by (intro heap_moved_down_ok [OF ok il(1)]) auto
    from heap_down_ok [OF this il(2) links] show ?thesis
      using nlt False core by (auto simp: heap_remove_eq [OF i])
  qed
qed

lemma timeline_remove_ok:
  assumes inv: "tl_inv tm" and s: "s \<in> tl_active tm"
  defines "tm' \<equiv> timeline_clear s (x86_core_machine_timeline_heap_remove tm (ev_heap_index (tl_events tm s)))"
  shows "tl_inv tm' \<and> tl_pending tm' = tl_pending tm - {ev_entry (tl_events tm s)} \<and>
    tl_now tm' = tl_now tm \<and> tl_next_sequence tm' = tl_next_sequence tm \<and>
    tl_heap_size tm' = tl_heap_size tm - 1 \<and> tl_active tm' = tl_active tm - {s} \<and>
    (\<forall>x \<in> tl_active tm'. ev_key (tl_events tm' x) = ev_key (tl_events tm x))"
proof -
  let ?t = "x86_core_machine_timeline_heap_remove tm (ev_heap_index (tl_events tm s))"
  note I = tl_invD [OF inv]
  have i: "ev_heap_index (tl_events tm s) < tl_heap_size tm" "tl_heap tm (ev_heap_index (tl_events tm s)) = s"
    using I(1) s by (simp_all add: tl_links_def)
  have H: "heap_ok ?t" "tl_links (tl_active tm - {s}) ?t" "same_core (tm\<lparr>tl_heap_size := tl_heap_size tm - 1\<rparr>) ?t"
    using heap_remove_ok [OF I(1,2) i(1)] i(2) by simp_all
  have C: "tl_now tm' = tl_now tm" "tl_next_sequence tm' = tl_next_sequence tm"
    "tl_heap_size tm' = tl_heap_size tm - 1" "tl_heap tm' = tl_heap ?t"
    "\<And>x. x \<noteq> s \<Longrightarrow> ev_key (tl_events tm' x) = ev_key (tl_events tm x) \<and>
       ev_callback (tl_events tm' x) = ev_callback (tl_events tm x) \<and>
       ev_active (tl_events tm' x) = ev_active (tl_events tm x)"
    "\<And>x. ev_heap_index (tl_events tm' x) = ev_heap_index (tl_events ?t x)"
    "\<And>x. ev_key (tl_events tm' x) = ev_key (tl_events ?t x)" "\<not> ev_active (tl_events tm' s)"
    using H(3) by (simp_all add: tm'_def timeline_clear_def same_core_def ev_key_def)
  have size: "tl_heap_size ?t = tl_heap_size tm - 1" using H(3) by (simp add: same_core_def)
  have act: "tl_active tm' = tl_active tm - {s}"
  proof (rule set_eqI)
    fix x show "x \<in> tl_active tm' \<longleftrightarrow> x \<in> tl_active tm - {s}"
      using C(5) [of x] C(8) by (cases "x = s") (auto simp: tl_active_def)
  qed
  have "tl_links (tl_active tm') tm'"
    using H(2) unfolding tl_links_def act by (simp add: C size)
  moreover have "heap_ok tm'" using H(1) by (simp add: heap_ok_def tl_key_def C size)
  moreover have "tl_sound (tl_now tm') (tl_next_sequence tm') (tl_events tm' x)" if "x \<in> tl_active tm'" for x
    using that I(3) C(5) unfolding act by (simp add: C(1,2) tl_sound_def)
  moreover have "inj_on (\<lambda>x. key_sequence (ev_key (tl_events tm' x))) (tl_active tm')"
    using I(4) C(5) unfolding act inj_on_def by simp
  moreover have "tl_pending tm' = tl_pending tm - {ev_entry (tl_events tm s)}"
    using C(5) I(4) s unfolding tl_pending_def act
    by (auto simp: ev_entry_def inj_on_def image_iff) 
  ultimately show ?thesis using C act by (simp add: tl_inv_def)
qed

section \<open>The dispatch loop terminates\<close>

lemma heap_swap_sequence [simp]:
  "tl_next_sequence (x86_core_machine_timeline_heap_swap tm i j) = tl_next_sequence tm"
  by (simp add: x86_core_machine_timeline_heap_swap_def set_heap_index_def Let_def)

lemma heap_up_sizes [simp]:
  "tl_heap_size (x86_core_machine_timeline_heap_up tm i) = tl_heap_size tm \<and>
   tl_next_sequence (x86_core_machine_timeline_heap_up tm i) = tl_next_sequence tm"
proof (induction i arbitrary: tm rule: less_induct)
  case (less i)
  then show ?case using heap_up_rec [of tm i] heap_parent_less [of i] by auto
qed

lemma heap_down_sizes [simp]:
  "tl_heap_size (x86_core_machine_timeline_heap_down tm i) = tl_heap_size tm \<and>
   tl_next_sequence (x86_core_machine_timeline_heap_down tm i) = tl_next_sequence tm"
proof (induction tm i rule: x86_core_machine_timeline_heap_down.induct)
  case (1 tm i)
  then show ?case by (subst (1 2) x86_core_machine_timeline_heap_down.simps) (auto simp: Let_def)
qed

lemma heap_remove_sizes:
  "tl_heap_size (x86_core_machine_timeline_heap_remove tm i) =
     (if i < tl_heap_size tm then tl_heap_size tm - 1 else tl_heap_size tm)"
  "tl_next_sequence (x86_core_machine_timeline_heap_remove tm i) = tl_next_sequence tm"
  by (auto simp: x86_core_machine_timeline_heap_remove_def Let_def set_heap_index_def)

text \<open>
  Every scheduled event uses a sequence number for good, so the events in the heap plus the unused
  sequence numbers bound the number of dispatches.
\<close>

definition tl_budget :: "'cb timeline \<Rightarrow> nat" where
  "tl_budget tm = tl_heap_size tm + (unat LIB_UINT64_MAX - unat (tl_next_sequence tm))"

lemma unat_u64_max: "n \<noteq> LIB_UINT64_MAX \<Longrightarrow> unat (n :: lib_u64) < unat LIB_UINT64_MAX"
  by (metis LIB_UINT64_MAX_def linorder_neqE_nat max_word_max unsigned_word_eqI word_le_nat_alt leD)

lemma tl_budget_schedule:
  "tl_budget (the (fst (snd (x86_core_machine_timeline_schedule (Some tm) due (Some cb) (Some token))))) \<le>
    tl_budget tm"
  using unat_u64_max [of "tl_next_sequence tm"]
  by (auto simp: tl_budget_def timeline_insert_def unat_Suc_u64 split: option.split)

lemma tl_budget_clear [simp]: "tl_budget (timeline_clear s tm) = tl_budget tm"
  by (simp add: tl_budget_def timeline_clear_def)

lemma tl_budget_cancel:
  "tl_budget (the (snd (x86_core_machine_timeline_cancel (Some tm) (Some token)))) \<le> tl_budget tm"
  by (auto simp: Let_def) (simp add: tl_budget_def heap_remove_sizes)

lemma tl_budget_call: "tl_budget (fst (timeline_call p tm)) \<le> tl_budget tm"
proof (induction p arbitrary: tm)
  case (CB_SCHEDULE due cb k)
  then show ?case
    using order_trans [OF CB_SCHEDULE.IH [OF rangeI rangeI]
        tl_budget_schedule [of tm due cb "\<lparr>tok_slot = 0, tok_sequence = 0\<rparr>"]]
    by (simp add: case_prod_beta del: x86_core_machine_timeline_schedule.simps)
next
  case (CB_CANCEL token k)
  then show ?case
    using order_trans [OF CB_CANCEL.IH [OF rangeI] tl_budget_cancel [of tm token]]
    by (simp add: case_prod_beta del: x86_core_machine_timeline_cancel.simps)
qed simp

lemma tl_budget_pop: "tl_heap_size tm \<noteq> 0 \<Longrightarrow> tl_budget (timeline_pop tm) < tl_budget tm"
  by (simp add: timeline_pop_def timeline_clear_def tl_budget_def heap_remove_sizes Let_def)

text \<open>
  The loop of the advance. Its last result lists the events it dispatched, in order. A null
  callback cannot be in the heap: scheduling refuses it.
\<close>

function timeline_advance_loop ::
  "('cb \<Rightarrow> lib_u64 \<Rightarrow> 'w \<Rightarrow> ('cb, 'w) timeline_program) \<Rightarrow> lib_u64 \<Rightarrow> 'cb timeline \<Rightarrow> 'w \<Rightarrow>
     'cb timeline \<times> 'w \<times> (timeline_key \<times> 'cb) list" where
  "timeline_advance_loop body target_tick timeline w =
     (if tl_heap_size timeline = 0 then (timeline, w, [])
      else if ev_due_tick (tl_at timeline 0) > target_tick then (timeline, w, [])
      else
        let event = tl_at timeline 0;
            program = (case ev_callback event of
              Some callback \<Rightarrow> body callback (ev_due_tick event) w | None \<Rightarrow> CB_RETURN w);
            (timeline', w') = timeline_call program (timeline_pop timeline);
            (timeline'', w'', log) = timeline_advance_loop body target_tick timeline' w'
        in (timeline'', w'', ev_entry event # log))"
  by pat_completeness auto
termination
proof (relation "measure (\<lambda>(body, target, tm, w). tl_budget tm)", goal_cases)
  case (2 body target tm w event program x tm' w')
  have "tl_budget tm' \<le> tl_budget (timeline_pop tm)"
    using 2 tl_budget_call [of program "timeline_pop tm"] by (metis fst_conv)
  also have "\<dots> < tl_budget tm" using 2 by (intro tl_budget_pop)
  finally show ?case by simp
qed simp

declare timeline_advance_loop.simps [simp del]

fun x86_core_machine_timeline_advance ::
  "('cb \<Rightarrow> lib_u64 \<Rightarrow> 'w \<Rightarrow> ('cb, 'w) timeline_program) \<Rightarrow> 'cb timeline ptr \<Rightarrow> lib_u64 \<Rightarrow> 'w \<Rightarrow>
     lib_status \<times> 'cb timeline ptr \<times> 'w \<times> (timeline_key \<times> 'cb) list" where
  "x86_core_machine_timeline_advance body None target_tick w =
     (LIB_STATUS_INVALID_ARGUMENT, None, w, [])"
| "x86_core_machine_timeline_advance body (Some timeline) target_tick w =
     (if target_tick < tl_now timeline then (LIB_STATUS_INVALID_ARGUMENT, Some timeline, w, [])
      else case timeline_advance_loop body target_tick timeline w of
        (timeline', w', log) \<Rightarrow>
          (LIB_STATUS_OK, Some (timeline'\<lparr>tl_now := target_tick\<rparr>), w', log))"

section \<open>What a dispatcher may rely on\<close>

text \<open>
  The interface between the dispatch loop and the queue of events: the queue yields its least
  entry, removing it moves the clock to its due tick, and a callback may only add entries that
  are due no earlier than the clock under fresh sequence numbers.
\<close>

locale event_queue =
  fixes inv :: "'s \<Rightarrow> bool"
    and pend :: "'s \<Rightarrow> (timeline_key \<times> 'cb) set"
    and now :: "'s \<Rightarrow> lib_u64"
    and nseq :: "'s \<Rightarrow> lib_u64"
    and first :: "'s \<Rightarrow> (timeline_key \<times> 'cb) option"
    and pop :: "'s \<Rightarrow> 's"
    and call :: "'p \<Rightarrow> 's \<Rightarrow> 's"
    and keeps :: "'p \<Rightarrow> bool"
  assumes first_none: "inv s \<Longrightarrow> first s = None \<Longrightarrow> pend s = {}"
    and first_least: "inv s \<Longrightarrow> first s = Some (k, c) \<Longrightarrow>
      (k, c) \<in> pend s \<and> (\<forall>(k', c') \<in> pend s. k \<le> k')"
    and key_unique: "inv s \<Longrightarrow> (k, c) \<in> pend s \<Longrightarrow> (k, c') \<in> pend s \<Longrightarrow> c = c'"
    and pend_bound: "inv s \<Longrightarrow> (k, c) \<in> pend s \<Longrightarrow> now s \<le> key_due k \<and> key_sequence k < nseq s"
    and pop_spec: "inv s \<Longrightarrow> first s = Some (k, c) \<Longrightarrow>
      inv (pop s) \<and> pend (pop s) = pend s - {(k, c)} \<and> now (pop s) = key_due k \<and> nseq (pop s) = nseq s"
    and call_spec: "inv s \<Longrightarrow> inv (call p s) \<and> now (call p s) = now s \<and> nseq s \<le> nseq (call p s) \<and>
      (\<forall>(k, c) \<in> pend (call p s). (k, c) \<in> pend s \<or> now s \<le> key_due k \<and> nseq s \<le> key_sequence k)"
    and call_keeps: "inv s \<Longrightarrow> keeps p \<Longrightarrow> pend s \<subseteq> pend (call p s)"
begin

inductive dispatches :: "('p \<Rightarrow> bool) \<Rightarrow> lib_u64 \<Rightarrow> 's \<Rightarrow> (timeline_key \<times> 'cb) list \<Rightarrow> 's \<Rightarrow> bool"
  for allowed target where
  dispatch_stop: "(\<And>k c. first s = Some (k, c) \<Longrightarrow> target < key_due k) \<Longrightarrow>
    dispatches allowed target s [] s"
| dispatch_next: "first s = Some (k, c) \<Longrightarrow> key_due k \<le> target \<Longrightarrow> allowed p \<Longrightarrow>
    dispatches allowed target (call p (pop s)) log s' \<Longrightarrow>
    dispatches allowed target s ((k, c) # log) s'"

definition above :: "timeline_key \<Rightarrow> 's \<Rightarrow> bool" where
  "above b s \<longleftrightarrow> key_due b \<le> now s \<and> key_sequence b < nseq s \<and> (\<forall>(k, c) \<in> pend s. b < k)"

lemma above_call:
  assumes "inv s" "above b s"
  shows "above b (call p s)"
proof -
  have "b < k" if kc: "(k, c) \<in> pend (call p s)" for k c
  proof -
    from call_spec [OF assms(1), of p] kc
    consider "(k, c) \<in> pend s" | "now s \<le> key_due k" "nseq s \<le> key_sequence k" by auto
    then show ?thesis
    proof cases
      case 2
      then have "key_due b \<le> key_due k" "key_sequence b < key_sequence k"
        using assms(2) by (auto simp: above_def)
      then show ?thesis by (auto simp: less_timeline_key_def)
    qed (use assms(2) in \<open>auto simp: above_def\<close>)
  qed
  then show ?thesis using call_spec [OF assms(1), of p] assms(2) by (auto simp: above_def)
qed

lemma above_pop:
  assumes "inv s" "first s = Some (k, c)"
  shows "above k (pop s)" and "above b s \<Longrightarrow> above b (pop s)"
proof -
  note P = pop_spec [OF assms] and F = first_least [OF assms]
  have "k < k'" if "(k', c') \<in> pend s - {(k, c)}" for k' c'
  proof -
    have "k \<le> k'" using F that by auto
    moreover have "k \<noteq> k'" using key_unique [OF assms(1)] F that by auto
    ultimately show ?thesis by simp
  qed
  then show "above k (pop s)" using P pend_bound [OF assms(1)] F by (auto simp: above_def)
  assume b: "above b s"
  then have "b < k" using F by (auto simp: above_def)
  then have "key_due b \<le> key_due k" by (auto simp: less_timeline_key_def)
  then show "above b (pop s)" using P b by (auto simp: above_def)
qed

lemma dispatches_above:
  "dispatches allowed target s log s' \<Longrightarrow> inv s \<Longrightarrow> above b s \<Longrightarrow> \<forall>(k, c) \<in> set log. b < k"
proof (induction rule: dispatches.induct)
  case (dispatch_next s k c p log s')
  note F = \<open>inv s\<close> dispatch_next.hyps(1)
  have "inv (pop s)" using pop_spec [OF F] by simp
  then have "inv (call p (pop s))" "above b (call p (pop s))"
    using call_spec above_call above_pop(2) [OF F \<open>above b s\<close>] by simp_all
  moreover have "b < k" using first_least [OF F] \<open>above b s\<close> by (auto simp: above_def)
  ultimately show ?case using dispatch_next.IH by auto
qed simp

text \<open>Dispatched in strictly increasing order, nothing late, nothing due left behind.\<close>

lemma dispatches_order:
  "dispatches allowed target s log s' \<Longrightarrow> inv s \<Longrightarrow>
    inv s' \<and> sorted_wrt (<) (map fst log) \<and> (\<forall>(k, c) \<in> set log. key_due k \<le> target) \<and>
    (\<forall>(k, c) \<in> pend s'. target < key_due k)"
proof (induction rule: dispatches.induct)
  case (dispatch_stop s)
  have "target < key_due k" if "(k, c) \<in> pend s" for k c
  proof (cases "first s")
    case None
    then show ?thesis using first_none [OF dispatch_stop.prems] that by simp
  next
    case (Some kc)
    then obtain k0 c0 where f: "first s = Some (k0, c0)" by (cases kc) auto
    then have "target < key_due k0" by (rule dispatch_stop.hyps)
    moreover have "k0 \<le> k" using first_least [OF dispatch_stop.prems f] that by auto
    ultimately show ?thesis by (auto simp: less_eq_timeline_key_def)
  qed
  then show ?case using dispatch_stop.prems by auto
next
  case (dispatch_next s k c p log s')
  note F = \<open>inv s\<close> dispatch_next.hyps(1)
  have "inv (pop s)" using pop_spec [OF F] by simp
  then have inv: "inv (call p (pop s))" and ab: "above k (call p (pop s))"
    using call_spec above_call above_pop(1) [OF F] by simp_all
  have "\<forall>(k', c') \<in> set log. k < k'"
    by (rule dispatches_above [OF dispatch_next.hyps(4) inv ab])
  then show ?case
    using dispatch_next.IH [OF inv] dispatch_next.hyps(2) by (auto simp: case_prod_beta)
qed

lemma dispatches_complete:
  "dispatches keeps target s log s' \<Longrightarrow> inv s \<Longrightarrow> pend s \<subseteq> set log \<union> pend s'"
proof (induction rule: dispatches.induct)
  case (dispatch_next s k c p log s')
  have "inv (pop s)" "pend (pop s) = pend s - {(k, c)}"
    using pop_spec [OF dispatch_next.prems dispatch_next.hyps(1)] by simp_all
  moreover have "pend (pop s) \<subseteq> pend (call p (pop s))" "inv (call p (pop s))"
    using calculation call_keeps dispatch_next.hyps(3) call_spec by blast+
  ultimately show ?case using dispatch_next.IH by auto
qed simp

end

section \<open>The timeline is such a queue\<close>

definition tl_first :: "'cb timeline \<Rightarrow> (timeline_key \<times> 'cb) option" where
  "tl_first tm = (if tl_heap_size tm = 0 then None else Some (ev_entry (tl_at tm 0)))"

primrec cb_keeps :: "('cb, 'w) timeline_program \<Rightarrow> bool" where
  "cb_keeps (CB_RETURN w) \<longleftrightarrow> True"
| "cb_keeps (CB_SCHEDULE due cb k) \<longleftrightarrow> (\<forall>status token. cb_keeps (k status token))"
| "cb_keeps (CB_CANCEL token k) \<longleftrightarrow> False"

lemma tl_active_position:
  assumes "tl_inv tm" "s \<in> tl_active tm"
  shows "ev_heap_index (tl_events tm s) < tl_heap_size tm"
    "tl_key tm (ev_heap_index (tl_events tm s)) = ev_key (tl_events tm s)"
  using tl_invD(1) [OF assms(1)] assms(2) by (auto simp: tl_links_def tl_key_def)

lemma tl_root:
  assumes "tl_inv tm" "tl_heap_size tm \<noteq> 0"
  shows "tl_heap tm 0 \<in> tl_active tm" "ev_heap_index (tl_at tm 0) = 0"
    "\<And>s. s \<in> tl_active tm \<Longrightarrow> ev_key (tl_at tm 0) \<le> ev_key (tl_events tm s)"
proof -
  show "tl_heap tm 0 \<in> tl_active tm" "ev_heap_index (tl_at tm 0) = 0"
    using tl_invD(1) [OF assms(1)] assms(2) by (simp_all add: tl_links_def)
  fix s assume s: "s \<in> tl_active tm"
  show "ev_key (tl_at tm 0) \<le> ev_key (tl_events tm s)"
    using heap_root_least [OF tl_invD(2) [OF assms(1)] tl_active_position(1) [OF assms(1) s]]
    unfolding tl_active_position(2) [OF assms(1) s] by (simp add: tl_key_def)
qed

lemma tl_inv_now:
  assumes "tl_inv tm" "\<And>s. s \<in> tl_active tm \<Longrightarrow> t \<le> key_due (ev_key (tl_events tm s))"
  shows "tl_inv (tm\<lparr>tl_now := t\<rparr>)"
  using assms by (simp add: tl_inv_def tl_links_def heap_ok_def tl_key_def tl_active_def tl_sound_def)

lemma timeline_pop_ok:
  assumes "tl_inv tm" "tl_heap_size tm \<noteq> 0"
  shows "tl_inv (timeline_pop tm) \<and> tl_pending (timeline_pop tm) = tl_pending tm - {ev_entry (tl_at tm 0)} \<and>
    tl_now (timeline_pop tm) = ev_due_tick (tl_at tm 0) \<and>
    tl_next_sequence (timeline_pop tm) = tl_next_sequence tm"
proof -
  note R = tl_root [OF assms]
  let ?t = "timeline_clear (tl_heap tm 0) (x86_core_machine_timeline_heap_remove tm 0)"
  have H: "tl_inv ?t" "tl_pending ?t = tl_pending tm - {ev_entry (tl_at tm 0)}"
    "tl_next_sequence ?t = tl_next_sequence tm" "tl_active ?t = tl_active tm - {tl_heap tm 0}"
    "\<And>x. x \<in> tl_active ?t \<Longrightarrow> ev_key (tl_events ?t x) = ev_key (tl_events tm x)"
    using timeline_remove_ok [OF assms(1) R(1)] unfolding R(2) by auto
  have "ev_due_tick (tl_at tm 0) \<le> key_due (ev_key (tl_events ?t x))" if "x \<in> tl_active ?t" for x
    using R(3) [of x] H(4,5) that by (auto simp: ev_key_def less_eq_timeline_key_def)
  then have "tl_inv (?t\<lparr>tl_now := ev_due_tick (tl_at tm 0)\<rparr>)" by (rule tl_inv_now [OF H(1)])
  then show ?thesis using H by (simp add: timeline_pop_def Let_def tl_pending_def tl_active_def)
qed

lemma timeline_schedule_cases:
  obtains (inserted) slot where "slot < 32" "slot \<notin> tl_active tm" "tl_now tm \<le> due"
      "tl_next_sequence tm \<noteq> LIB_UINT64_MAX"
      "x86_core_machine_timeline_schedule (Some tm) due (Some cb) (Some token) =
        (LIB_STATUS_OK, Some (timeline_insert tm slot due cb),
         Some \<lparr>tok_slot = slot, tok_sequence = tl_next_sequence tm\<rparr>)"
    | (refused) "due < tl_now tm \<or> tl_next_sequence tm = LIB_UINT64_MAX"
      "x86_core_machine_timeline_schedule (Some tm) due (Some cb) (Some token) =
        (LIB_STATUS_INVALID_ARGUMENT, Some tm, Some token)"
    | (full) "tl_now tm \<le> due" "tl_next_sequence tm \<noteq> LIB_UINT64_MAX" "tl_active tm = {..<32}"
      "x86_core_machine_timeline_schedule (Some tm) due (Some cb) (Some token) =
        (LIB_STATUS_NO_MEMORY, Some tm, Some token)"
proof (cases "due < tl_now tm \<or> tl_next_sequence tm = LIB_UINT64_MAX")
  case True
  then show ?thesis by (intro refused) simp_all
next
  case False
  show ?thesis
  proof (cases "find (\<lambda>slot. \<not> ev_active (tl_events tm slot)) [0..<32]")
    case None
    then have "tl_active tm = {..<32}" by (auto simp: find_None_iff tl_active_def)
    then show ?thesis using False None by (intro full) (simp_all add: not_less)
  next
    case (Some slot)
    then have "slot < 32" "slot \<notin> tl_active tm"
      by (auto simp: find_Some_iff tl_active_def)
    then show ?thesis using False Some by (intro inserted [of slot]) (simp_all add: not_less)
  qed
qed

lemma timeline_cancel_cases:
  obtains (removed) "tok_slot token \<in> tl_active tm"
      "ev_sequence (tl_events tm (tok_slot token)) = tok_sequence token"
      "x86_core_machine_timeline_cancel (Some tm) (Some token) =
        (LIB_STATUS_OK, Some (timeline_clear (tok_slot token) (x86_core_machine_timeline_heap_remove tm
           (ev_heap_index (tl_events tm (tok_slot token))))))"
    | (stale) status where "status \<noteq> LIB_STATUS_OK"
      "x86_core_machine_timeline_cancel (Some tm) (Some token) = (status, Some tm)"
      "tok_slot token \<in> tl_active tm \<Longrightarrow> ev_sequence (tl_events tm (tok_slot token)) \<noteq> tok_sequence token"
proof (cases "tok_slot token < 32 \<and> ev_active (tl_events tm (tok_slot token)) \<and>
    ev_sequence (tl_events tm (tok_slot token)) = tok_sequence token")
  case True
  then show ?thesis by (intro removed) (simp_all add: tl_active_def Let_def not_le)
next
  case False
  then show ?thesis
    by (intro stale [of "fst (x86_core_machine_timeline_cancel (Some tm) (Some token))"])
      (auto simp: tl_active_def Let_def not_le)
qed

declare x86_core_machine_timeline_schedule.simps [simp del] x86_core_machine_timeline_cancel.simps [simp del]

text \<open>What one interface call leaves behind.\<close>

definition tl_extends :: "'cb timeline \<Rightarrow> 'cb timeline \<Rightarrow> bool" where
  "tl_extends tm tm' \<longleftrightarrow> tl_inv tm' \<and> tl_now tm' = tl_now tm \<and> tl_next_sequence tm \<le> tl_next_sequence tm' \<and>
     (\<forall>(k, c) \<in> tl_pending tm'. (k, c) \<in> tl_pending tm \<or>
        tl_now tm \<le> key_due k \<and> tl_next_sequence tm \<le> key_sequence k)"

lemma tl_extends_refl: "tl_inv tm \<Longrightarrow> tl_extends tm tm"
  by (auto simp: tl_extends_def)

lemma tl_extends_trans: "tl_extends a b \<Longrightarrow> tl_extends b c \<Longrightarrow> tl_extends a c"
  unfolding tl_extends_def by (fastforce intro: order_trans)

lemma tl_extends_schedule:
  assumes "tl_inv tm"
  shows "tl_extends tm (the (fst (snd (x86_core_machine_timeline_schedule (Some tm) due (Some cb) (Some token)))))
    \<and> tl_pending tm \<subseteq>
      tl_pending (the (fst (snd (x86_core_machine_timeline_schedule (Some tm) due (Some cb) (Some token)))))"
proof (cases rule: timeline_schedule_cases [of tm due cb token])
  case (inserted slot)
  have "tl_next_sequence tm \<le> tl_next_sequence tm + 1"
    using inserted(4) by (simp add: word_le_nat_alt unat_Suc_u64)
  then show ?thesis
    using timeline_insert_ok [OF assms inserted(1-4), of cb] inserted(3,5)
    by (auto simp: tl_extends_def)
qed (simp_all add: tl_extends_refl assms)

lemma tl_extends_cancel:
  assumes "tl_inv tm"
  shows "tl_extends tm (the (snd (x86_core_machine_timeline_cancel (Some tm) (Some token))))"
proof (cases rule: timeline_cancel_cases [of token tm])
  case removed
  then show ?thesis
    using timeline_remove_ok [OF assms removed(1)] by (auto simp: tl_extends_def)
qed (simp add: tl_extends_refl assms)

lemma tl_extends_call: "tl_inv tm \<Longrightarrow> tl_extends tm (fst (timeline_call p tm))"
proof (induction p arbitrary: tm)
  case (CB_RETURN w)
  then show ?case by (simp add: tl_extends_refl)
next
  case (CB_SCHEDULE due cb k)
  have e: "tl_extends tm (the (fst (snd (x86_core_machine_timeline_schedule (Some tm) due (Some cb)
      (Some \<lparr>tok_slot = 0, tok_sequence = 0\<rparr>)))))"
    using tl_extends_schedule [OF CB_SCHEDULE.prems] by simp
  then have "tl_inv (the (fst (snd (x86_core_machine_timeline_schedule (Some tm) due (Some cb)
      (Some \<lparr>tok_slot = 0, tok_sequence = 0\<rparr>)))))" by (simp add: tl_extends_def)
  from tl_extends_trans [OF e CB_SCHEDULE.IH [OF rangeI rangeI this]]
  show ?case by (simp add: case_prod_beta)
next
  case (CB_CANCEL token k)
  have e: "tl_extends tm (the (snd (x86_core_machine_timeline_cancel (Some tm) (Some token))))"
    by (rule tl_extends_cancel [OF CB_CANCEL.prems])
  then have "tl_inv (the (snd (x86_core_machine_timeline_cancel (Some tm) (Some token))))"
    by (simp add: tl_extends_def)
  from tl_extends_trans [OF e CB_CANCEL.IH [OF rangeI this]] show ?case by (simp add: case_prod_beta)
qed

lemma cb_keeps_call: "tl_inv tm \<Longrightarrow> cb_keeps p \<Longrightarrow> tl_pending tm \<subseteq> tl_pending (fst (timeline_call p tm))"
proof (induction p arbitrary: tm)
  case (CB_SCHEDULE due cb k)
  note S = tl_extends_schedule [OF CB_SCHEDULE.prems(1), of due cb "\<lparr>tok_slot = 0, tok_sequence = 0\<rparr>"]
  then have "tl_inv (the (fst (snd (x86_core_machine_timeline_schedule (Some tm) due (Some cb)
      (Some \<lparr>tok_slot = 0, tok_sequence = 0\<rparr>)))))" by (simp add: tl_extends_def)
  then show ?case
    using S CB_SCHEDULE.IH [OF rangeI rangeI] CB_SCHEDULE.prems(2) by (fastforce simp: case_prod_beta)
qed simp_all

lemma tl_pending_unique:
  assumes "tl_inv tm" "(k, c) \<in> tl_pending tm" "(k, c') \<in> tl_pending tm"
  shows "c = c'"
proof -
  obtain s s' where s: "s \<in> tl_active tm" "(k, c) = ev_entry (tl_events tm s)"
    and s': "s' \<in> tl_active tm" "(k, c') = ev_entry (tl_events tm s')"
    using assms(2,3) unfolding tl_pending_def by blast
  then have "s = s'" by (intro inj_onD [OF tl_invD(4) [OF assms(1)]]) (simp_all add: ev_entry_def)
  then show ?thesis using s(2) s'(2) by (simp add: ev_entry_def)
qed

lemma tl_first_pop:
  assumes "tl_inv tm" "tl_first tm = Some (k, c)"
  shows "tl_inv (timeline_pop tm) \<and> tl_pending (timeline_pop tm) = tl_pending tm - {(k, c)} \<and>
      tl_now (timeline_pop tm) = key_due k \<and> tl_next_sequence (timeline_pop tm) = tl_next_sequence tm"
proof -
  have "tl_heap_size tm \<noteq> 0" "ev_entry (tl_at tm 0) = (k, c)"
    using assms(2) by (simp_all add: tl_first_def split: if_splits)
  moreover from this have "ev_due_tick (tl_at tm 0) = key_due k" by (auto simp: ev_entry_def ev_key_def)
  ultimately show ?thesis using timeline_pop_ok [OF assms(1)] by simp
qed

interpretation tlq: event_queue tl_inv tl_pending tl_now tl_next_sequence tl_first timeline_pop
  "\<lambda>p tm. fst (timeline_call p tm)" cb_keeps
proof
  fix s :: "'cb timeline" and k c c' and p :: "('cb, 'w) timeline_program"
  assume inv: "tl_inv s"
  show "tl_first s = None \<Longrightarrow> tl_pending s = {}"
    using tl_active_position(1) [OF inv] by (auto simp: tl_first_def tl_pending_def split: if_splits)
  show "tl_first s = Some (k, c) \<Longrightarrow> (k, c) \<in> tl_pending s \<and> (\<forall>(k', c') \<in> tl_pending s. k \<le> k')"
    using tl_root [OF inv] by (auto simp: tl_first_def tl_pending_def ev_entry_def split: if_splits)
  show "(k, c) \<in> tl_pending s \<Longrightarrow> (k, c') \<in> tl_pending s \<Longrightarrow> c = c'"
    by (rule tl_pending_unique [OF inv])
  show "(k, c) \<in> tl_pending s \<Longrightarrow> tl_now s \<le> key_due k \<and> key_sequence k < tl_next_sequence s"
    using tl_invD(3) [OF inv] by (auto simp: tl_pending_def ev_entry_def tl_sound_def)
  show "tl_first s = Some (k, c) \<Longrightarrow> tl_inv (timeline_pop s) \<and> tl_pending (timeline_pop s) = tl_pending s - {(k, c)} \<and>
      tl_now (timeline_pop s) = key_due k \<and> tl_next_sequence (timeline_pop s) = tl_next_sequence s"
    by (rule tl_first_pop [OF inv])
  show "tl_inv (fst (timeline_call p s)) \<and> tl_now (fst (timeline_call p s)) = tl_now s \<and>
      tl_next_sequence s \<le> tl_next_sequence (fst (timeline_call p s)) \<and>
      (\<forall>(k, c) \<in> tl_pending (fst (timeline_call p s)). (k, c) \<in> tl_pending s \<or>
         tl_now s \<le> key_due k \<and> tl_next_sequence s \<le> key_sequence k)"
    using tl_extends_call [OF inv, of p] by (simp add: tl_extends_def)
  show "cb_keeps p \<Longrightarrow> tl_pending s \<subseteq> tl_pending (fst (timeline_call p s))"
    by (rule cb_keeps_call [OF inv])
qed

section \<open>Properties of the timeline\<close>

lemma timeline_loop_rec:
  "timeline_advance_loop body target tm w =
    (case tl_first tm of
       None \<Rightarrow> (tm, w, [])
     | Some (k, c) \<Rightarrow>
         (if target < key_due k then (tm, w, [])
          else
            let (tm1, w1) = timeline_call (case ev_callback (tl_at tm 0) of
                   Some callback \<Rightarrow> body callback (key_due k) w | None \<Rightarrow> CB_RETURN w) (timeline_pop tm);
                (tm2, w2, log) = timeline_advance_loop body target tm1 w1
            in (tm2, w2, (k, c) # log)))"
  by (subst timeline_advance_loop.simps, cases "ev_callback (tl_at tm 0)")
    (simp_all add: tl_first_def ev_entry_def ev_key_def Let_def)

lemma timeline_loop_dispatches:
  assumes "\<And>cb due w. allowed (body cb due w)" "\<And>w. allowed (CB_RETURN w)"
    and "tl_inv tm" "timeline_advance_loop body target tm w = (tm', w', log)"
  shows "tlq.dispatches allowed target tm log tm'"
  using assms(3,4)
proof (induction "tl_budget tm" arbitrary: tm w tm' w' log rule: less_induct)
  case less
  show ?case
  proof (cases "tl_first tm")
    case None
    then have "tm' = tm" "log = []" using less.prems(2) by (auto simp: timeline_loop_rec [of body])
    then show ?thesis using None by (auto intro!: tlq.dispatch_stop)
  next
    case (Some kc)
    then obtain k c where f: "tl_first tm = Some (k, c)" by (cases kc) auto
    let ?p = "case ev_callback (tl_at tm 0) of
      Some callback \<Rightarrow> body callback (key_due k) w | None \<Rightarrow> CB_RETURN w"
    show ?thesis
    proof (cases "target < key_due k")
      case True
      then have "tm' = tm" "log = []" using less.prems(2) f by (auto simp: timeline_loop_rec [of body])
      then show ?thesis using f True by (auto intro!: tlq.dispatch_stop)
    next
      case False
      obtain tm1 w1 where c: "timeline_call ?p (timeline_pop tm) = (tm1, w1)" by (cases "timeline_call ?p (timeline_pop tm)")
      obtain log1 where r: "timeline_advance_loop body target tm1 w1 = (tm', w', log1)" "log = (k, c) # log1"
        using less.prems(2) f False c
        by (auto simp: timeline_loop_rec [of body target tm] Let_def split: prod.splits)
      have "tl_heap_size tm \<noteq> 0" using f by (auto simp: tl_first_def split: if_splits)
      then have "tl_budget tm1 < tl_budget tm"
        using tl_budget_pop tl_budget_call [of ?p "timeline_pop tm"] c by fastforce
      moreover have "tl_inv tm1"
        using tl_extends_call [of "timeline_pop tm" ?p] tl_first_pop [OF less.prems(1) f] c
        by (simp add: tl_extends_def)
      ultimately have "tlq.dispatches allowed target tm1 log1 tm'" using less.hyps r(1) by blast
      moreover have "allowed ?p" using assms(1,2) by (simp split: option.split)
      ultimately show ?thesis
        using tlq.dispatch_next [OF f, of target allowed ?p log1 tm'] False c r(2) by (simp add: not_less)
    qed
  qed
qed

inductive tl_reachable :: "'cb timeline \<Rightarrow> bool" where
  tl_created: "x86_core_machine_timeline_initialize (Some tm0) = (LIB_STATUS_OK, Some tm) \<Longrightarrow> tl_reachable tm"
| tl_scheduled: "tl_reachable tm \<Longrightarrow>
    x86_core_machine_timeline_schedule (Some tm) due cb token = (status, Some tm', token') \<Longrightarrow> tl_reachable tm'"
| tl_cancelled: "tl_reachable tm \<Longrightarrow>
    x86_core_machine_timeline_cancel (Some tm) token = (status, Some tm') \<Longrightarrow> tl_reachable tm'"
| tl_advanced: "tl_reachable tm \<Longrightarrow>
    x86_core_machine_timeline_advance (body :: 'cb \<Rightarrow> lib_u64 \<Rightarrow> unit \<Rightarrow> ('cb, unit) timeline_program)
      (Some tm) target w = (status, Some tm', w', log) \<Longrightarrow> tl_reachable tm'"

lemma tl_inv_zero: "tl_inv timeline_zero"
  by (simp add: tl_inv_def tl_links_def heap_ok_def tl_active_def timeline_zero_def)

lemma timeline_advance_ok:
  fixes body :: "'cb \<Rightarrow> lib_u64 \<Rightarrow> 'w \<Rightarrow> ('cb, 'w) timeline_program"
  assumes "tl_inv tm" "tl_now tm \<le> target"
    "x86_core_machine_timeline_advance body (Some tm) target w = (status, Some tm', w', log)"
  shows "status = LIB_STATUS_OK" "tl_inv tm'" "tl_now tm' = target" "sorted_wrt (<) (map fst log)"
    "\<forall>(k, c) \<in> set log. key_due k \<le> target" "\<forall>(k, c) \<in> tl_pending tm'. target < key_due k"
proof -
  obtain t where l: "timeline_advance_loop body target tm w = (t, w', log)"
    and st: "status = LIB_STATUS_OK" "tm' = t\<lparr>tl_now := target\<rparr>"
    using assms(2,3) by (auto simp: not_less [symmetric] split: prod.splits)
  have "tlq.dispatches (\<lambda>_ :: ('cb, 'w) timeline_program. True) target tm log t"
    by (rule timeline_loop_dispatches [OF _ _ assms(1) l]) simp_all
  then have D: "tl_inv t" "sorted_wrt (<) (map fst log)" "\<forall>(k, c) \<in> set log. key_due k \<le> target"
    "\<forall>(k, c) \<in> tl_pending t. target < key_due k"
    using tlq.dispatches_order assms(1) by blast+
  have "target \<le> key_due (ev_key (tl_events t s))" if "s \<in> tl_active t" for s
    using D(4) that by (fastforce simp: tl_pending_def ev_entry_def)
  then have "tl_inv tm'" using tl_inv_now [OF D(1)] st(2) by simp
  moreover have "tl_pending tm' = tl_pending t" by (simp add: st(2) tl_pending_def tl_active_def)
  ultimately show "status = LIB_STATUS_OK" "tl_inv tm'" "tl_now tm' = target" "sorted_wrt (<) (map fst log)"
    "\<forall>(k, c) \<in> set log. key_due k \<le> target" "\<forall>(k, c) \<in> tl_pending tm'. target < key_due k"
    using D st by simp_all
qed

lemma tl_reachable_inv: "tl_reachable tm \<Longrightarrow> tl_inv tm"
proof (induction rule: tl_reachable.induct)
  case (tl_created tm0 tm)
  then show ?case by (simp add: tl_inv_zero)
next
  case (tl_scheduled tm due cb token status tm' token')
  then show ?case
    using tl_extends_schedule [OF tl_scheduled.IH, of due "the cb" "the token"]
    by (cases cb; cases token) (auto simp: tl_extends_def x86_core_machine_timeline_schedule.simps(2-))
next
  case (tl_cancelled tm token status tm')
  then show ?case
    using tl_extends_cancel [OF tl_cancelled.IH, of "the token"]
    by (cases token) (auto simp: tl_extends_def x86_core_machine_timeline_cancel.simps(2-))
next
  case (tl_advanced tm body target w status tm' w' log)
  show ?case
  proof (cases "target < tl_now tm")
    case True
    then show ?thesis using tl_advanced by simp
  next
    case False
    then show ?thesis using timeline_advance_ok(2) tl_advanced by (metis not_less)
  qed
qed

text \<open>
  C32: advancing the timeline always returns. It dispatches events in strictly increasing order of
  due tick and, at equal ticks, of scheduling; none of them is due after the target; afterwards the
  clock stands at the target and everything still pending is due later. This holds whatever the
  callbacks schedule and cancel while they run.
\<close>

theorem timeline_advance_order:
  assumes "tl_reachable tm" "tl_now tm \<le> target"
    "x86_core_machine_timeline_advance body (Some tm) target w = (status, Some tm', w', log)"
  shows "status = LIB_STATUS_OK \<and> tl_now tm' = target \<and> sorted_wrt (<) (map fst log) \<and>
    (\<forall>(k, c) \<in> set log. key_due k \<le> target) \<and> (\<forall>(k, c) \<in> tl_pending tm'. target < key_due k)"
  using timeline_advance_ok [OF tl_reachable_inv [OF assms(1)] assms(2,3)] by blast

text \<open>
  C33: no event is lost: when the callbacks do not cancel, every event that was pending and due by
  the target is dispatched, and every later one is still pending.
\<close>

theorem timeline_advance_complete:
  fixes body :: "'cb \<Rightarrow> lib_u64 \<Rightarrow> 'w \<Rightarrow> ('cb, 'w) timeline_program"
  assumes "tl_reachable tm" "tl_now tm \<le> target" "\<And>cb due w. cb_keeps (body cb due w)"
    "x86_core_machine_timeline_advance body (Some tm) target w = (status, Some tm', w', log)"
    "(k, c) \<in> tl_pending tm"
  shows "if key_due k \<le> target then (k, c) \<in> set log else (k, c) \<in> tl_pending tm'"
proof -
  have inv: "tl_inv tm" by (rule tl_reachable_inv [OF assms(1)])
  obtain t where l: "timeline_advance_loop body target tm w = (t, w', log)" "tm' = t\<lparr>tl_now := target\<rparr>"
    using assms(2,4) by (auto simp: not_less [symmetric] split: prod.splits)
  have "tlq.dispatches (cb_keeps :: ('cb, 'w) timeline_program \<Rightarrow> bool) target tm log t"
    by (rule timeline_loop_dispatches [OF _ _ inv l(1)]) (simp_all add: assms(3))
  then have "(k, c) \<in> set log \<union> tl_pending t" using tlq.dispatches_complete inv assms(5) by blast
  moreover have "tl_pending tm' = tl_pending t" by (simp add: l(2) tl_pending_def tl_active_def)
  ultimately show ?thesis
    using timeline_advance_ok(5,6) [OF inv assms(2,4)] by (auto simp: not_le)
qed

lemma tl_size_card:
  assumes "tl_inv tm"
  shows "tl_heap_size tm = card (tl_active tm)"
proof -
  note L = tl_invD(1) [OF assms]
  have "bij_betw (tl_heap tm) {..<tl_heap_size tm} (tl_active tm)"
    unfolding bij_betw_def inj_on_def
  proof (intro conjI ballI impI)
    show "tl_heap tm ` {..<tl_heap_size tm} = tl_active tm"
      using L by (force simp: tl_links_def image_iff)
  qed (use tl_links_inj [OF L] in auto)
  then show ?thesis using bij_betw_same_card by fastforce
qed

lemma tl_active_card: "card (tl_active tm) \<le> 32" "finite (tl_active tm)"
proof -
  have "tl_active tm \<subseteq> {..<32}" by (auto simp: tl_active_def)
  from card_mono [OF finite_lessThan this] show "card (tl_active tm) \<le> 32" by simp
  from \<open>tl_active tm \<subseteq> {..<32}\<close> show "finite (tl_active tm)" by (rule finite_subset) simp
qed

lemma tl_active_room: "slot < 32 \<Longrightarrow> slot \<notin> tl_active tm \<Longrightarrow> card (tl_active tm) < 32"
proof -
  assume "slot < 32" "slot \<notin> tl_active tm"
  then have "tl_active tm \<subset> {..<32}" by (auto simp: tl_active_def)
  from psubset_card_mono [OF finite_lessThan this] show ?thesis by simp
qed

text \<open>
  C34: scheduling refines insertion into the set of pending events. It succeeds exactly when the due
  tick is not in the past, sequence numbers remain and one of the 32 slots is free; it then adds the
  event under the next sequence number, writes within the heap array, and the token it hands out
  cancels that very event. Otherwise nothing changes.
\<close>

theorem timeline_schedule_refines:
  assumes "tl_reachable tm"
    "x86_core_machine_timeline_schedule (Some tm) due (Some cb) (Some token) = (status, Some tm', Some token')"
  shows "(status = LIB_STATUS_OK \<longleftrightarrow> tl_now tm \<le> due \<and> tl_next_sequence tm \<noteq> LIB_UINT64_MAX \<and>
      card (tl_active tm) < 32) \<and>
    (status = LIB_STATUS_OK \<longrightarrow>
      tl_pending tm' = insert (Key due (tl_next_sequence tm), cb) (tl_pending tm) \<and>
      tl_heap_size tm < 32 \<and>
      (\<exists>tm''. x86_core_machine_timeline_cancel (Some tm') (Some token') = (LIB_STATUS_OK, Some tm'') \<and>
         tl_pending tm'' = tl_pending tm)) \<and>
    (status \<noteq> LIB_STATUS_OK \<longrightarrow> tm' = tm \<and> token' = token)"
proof -
  have inv: "tl_inv tm" by (rule tl_reachable_inv [OF assms(1)])
  show ?thesis
  proof (cases rule: timeline_schedule_cases [of tm due cb token])
    case (inserted slot)
    have r: "status = LIB_STATUS_OK" "tm' = timeline_insert tm slot due cb"
      "token' = \<lparr>tok_slot = slot, tok_sequence = tl_next_sequence tm\<rparr>"
      using assms(2) inserted(5) by simp_all
    have I: "tl_inv tm'" "tl_pending tm' = insert (Key due (tl_next_sequence tm), cb) (tl_pending tm)"
      using timeline_insert_ok [OF inv inserted(1-4)] r(2) by simp_all
    have A: "slot \<in> tl_active tm'" "ev_entry (tl_events tm' slot) = (Key due (tl_next_sequence tm), cb)"
      using timeline_insert_ok [OF inv inserted(1-4)] r(2) by simp_all
    have new: "(Key due (tl_next_sequence tm), cb) \<notin> tl_pending tm"
      using tlq.pend_bound [OF inv, of "Key due (tl_next_sequence tm)" cb] by auto
    have room: "card (tl_active tm) < 32" by (rule tl_active_room [OF inserted(1,2)])
    have "\<exists>tm''. x86_core_machine_timeline_cancel (Some tm') (Some token') = (LIB_STATUS_OK, Some tm'') \<and>
        tl_pending tm'' = tl_pending tm"
    proof (cases rule: timeline_cancel_cases [of token' tm'])
      case removed
      then show ?thesis
        using timeline_remove_ok [OF I(1) removed(1)] A(2) I(2) new r(3) by auto
    next
      case (stale status)
      then show ?thesis using A r(3) by (auto simp: ev_entry_def ev_key_def)
    qed
    then show ?thesis using r(1) I(2) room inserted(3,4) tl_size_card [OF inv] by simp
  next
    case refused
    then show ?thesis using assms(2) by (auto simp: not_le)
  next
    case full
    then show ?thesis using assms(2) by auto
  qed
qed


text \<open>
  Cancelling refines removal. It succeeds only for a token whose event is still pending, and
  then removes exactly the event with the token's sequence number; a token of an event that was
  dispatched or cancelled is refused and nothing changes, even when its slot has been reused.
\<close>

theorem timeline_cancel_refines:
  assumes "tl_reachable tm"
    "x86_core_machine_timeline_cancel (Some tm) (Some token) = (status, Some tm')"
  shows "(status = LIB_STATUS_OK \<longrightarrow> (\<exists>k c. (k, c) \<in> tl_pending tm \<and>
      key_sequence k = tok_sequence token \<and> tl_pending tm' = tl_pending tm - {(k, c)})) \<and>
    (status \<noteq> LIB_STATUS_OK \<longrightarrow> tm' = tm) \<and>
    ((\<forall>(k, c) \<in> tl_pending tm. key_sequence k \<noteq> tok_sequence token) \<longrightarrow> status \<noteq> LIB_STATUS_OK)"
proof -
  have inv: "tl_inv tm" by (rule tl_reachable_inv [OF assms(1)])
  show ?thesis
  proof (cases rule: timeline_cancel_cases [of token tm])
    case removed
    let ?e = "tl_events tm (tok_slot token)"
    have "(ev_key ?e, the (ev_callback ?e)) \<in> tl_pending tm" "key_sequence (ev_key ?e) = tok_sequence token"
      using removed(1,2) by (auto simp: tl_pending_def ev_entry_def ev_key_def)
    moreover have "tl_pending tm' = tl_pending tm - {(ev_key ?e, the (ev_callback ?e))}" "status = LIB_STATUS_OK"
      using timeline_remove_ok [OF inv removed(1)] removed(3) assms(2) by (simp_all add: ev_entry_def)
    ultimately show ?thesis by auto
  next
    case (stale st)
    then show ?thesis using assms(2) by auto
  qed
qed

text \<open>
  The next deadline the timeline reports is the due tick of a pending event and no pending event
  is due earlier; it reports none exactly when nothing is pending.
\<close>

theorem timeline_next_due_least:
  assumes "tl_reachable tm"
  shows "case x86_core_machine_timeline_next_due (Some tm) (Some out) of
      (LIB_STATUS_OK, Some due) \<Rightarrow>
        (\<exists>(k, c) \<in> tl_pending tm. key_due k = due) \<and> (\<forall>(k, c) \<in> tl_pending tm. due \<le> key_due k)
    | (status, r) \<Rightarrow> tl_pending tm = {} \<and> r = Some out"
proof -
  have inv: "tl_inv tm" by (rule tl_reachable_inv [OF assms])
  show ?thesis
  proof (cases "tl_heap_size tm = 0")
    case True
    then show ?thesis using tlq.first_none [OF inv] by (simp add: tl_first_def)
  next
    case False
    then have "(ev_key (tl_at tm 0), the (ev_callback (tl_at tm 0))) \<in> tl_pending tm \<and>
        (\<forall>(k, c) \<in> tl_pending tm. ev_key (tl_at tm 0) \<le> k)"
      by (intro tlq.first_least [OF inv]) (simp add: tl_first_def ev_entry_def)
    then show ?thesis
      using False by (force simp: ev_key_def less_eq_timeline_key_def)
  qed
qed

text \<open>A timeline with two events, the later one scheduled first.\<close>

definition tl_demo :: "nat timeline" where
  "tl_demo =
     (let t1 = the (fst (snd (x86_core_machine_timeline_schedule (Some timeline_zero) 9 (Some 1)
                 (Some \<lparr>tok_slot = 0, tok_sequence = 0\<rparr>))))
      in the (fst (snd (x86_core_machine_timeline_schedule (Some t1) 4 (Some 2)
                 (Some \<lparr>tok_slot = 0, tok_sequence = 0\<rparr>)))))"

lemma timeline_schedule_some:
  "x86_core_machine_timeline_schedule (Some tm) due (Some cb) (Some token) =
    (fst (x86_core_machine_timeline_schedule (Some tm) due (Some cb) (Some token)),
     Some (the (fst (snd (x86_core_machine_timeline_schedule (Some tm) due (Some cb) (Some token))))),
     Some (the (snd (snd (x86_core_machine_timeline_schedule (Some tm) due (Some cb) (Some token))))))"
  by (cases rule: timeline_schedule_cases [of tm due cb token]) simp_all

lemma timeline_advance_some:
  "x86_core_machine_timeline_advance body (Some tm) target w =
    (fst (x86_core_machine_timeline_advance body (Some tm) target w),
     Some (the (fst (snd (x86_core_machine_timeline_advance body (Some tm) target w)))),
     fst (snd (snd (x86_core_machine_timeline_advance body (Some tm) target w))),
     snd (snd (snd (x86_core_machine_timeline_advance body (Some tm) target w))))"
  by (simp split: prod.split)

lemma tl_demo_reachable: "tl_reachable tl_demo"
proof -
  have "tl_reachable (timeline_zero :: nat timeline)"
    by (rule tl_created [of timeline_zero]) simp
  then show ?thesis
    unfolding tl_demo_def Let_def by (intro tl_scheduled [OF _ timeline_schedule_some]) 
qed

lemma tl_demo_entry: "(Key 9 0, 1) \<in> tl_pending tl_demo"
proof -
  have "ev_active (tl_events tl_demo 0)" by code_simp
  then have "0 \<in> tl_active tl_demo" by (simp add: tl_active_def)
  moreover have "ev_entry (tl_events tl_demo 0) = (Key 9 0, 1)" by code_simp
  ultimately show ?thesis unfolding tl_pending_def by (metis image_eqI)
qed

theorem timeline_advance_order_witness:
  "snd (snd (snd (x86_core_machine_timeline_advance (\<lambda>cb due w. CB_RETURN (w @ [cb])) (Some tl_demo) 10 []))) =
     [(Key 4 1, 2), (Key 9 0, 1)] \<and>
   sorted_wrt (<) (map fst (snd (snd (snd
     (x86_core_machine_timeline_advance (\<lambda>cb due w. CB_RETURN (w @ [cb])) (Some tl_demo) 10 [])))))"
proof -
  let ?r = "x86_core_machine_timeline_advance (\<lambda>cb due w. CB_RETURN (w @ [cb])) (Some tl_demo) 10 []"
  have now: "tl_now tl_demo \<le> 10" by code_simp
  have "sorted_wrt (<) (map fst (snd (snd (snd ?r))))"
    using timeline_advance_order [OF tl_demo_reachable now timeline_advance_some,
        of "\<lambda>cb due w. CB_RETURN (w @ [cb])" "[]"] by blast
  moreover have "snd (snd (snd ?r)) = [(Key 4 1, 2), (Key 9 0, 1)]" by code_simp
  ultimately show ?thesis by simp
qed

theorem timeline_advance_complete_witness:
  "(Key 9 0, 1) \<in> set (snd (snd (snd
     (x86_core_machine_timeline_advance (\<lambda>cb due w. CB_RETURN (w + cb)) (Some tl_demo) 10 0))))"
proof -
  have now: "tl_now tl_demo \<le> 10" by code_simp
  show ?thesis
    using timeline_advance_complete [OF tl_demo_reachable now _ timeline_advance_some tl_demo_entry,
        of "\<lambda>cb due w. CB_RETURN (w + cb)" 0] by simp
qed

theorem timeline_schedule_refines_witness:
  "(Key 7 2, 3) \<in> tl_pending (the (fst (snd (x86_core_machine_timeline_schedule (Some tl_demo) 7 (Some 3)
     (Some \<lparr>tok_slot = 0, tok_sequence = 0\<rparr>)))))"
proof -
  have "fst (x86_core_machine_timeline_schedule (Some tl_demo) 7 (Some 3)
      (Some \<lparr>tok_slot = 0, tok_sequence = 0\<rparr>)) = LIB_STATUS_OK" "tl_next_sequence tl_demo = 2"
    by code_simp+
  then show ?thesis
    using timeline_schedule_refines [OF tl_demo_reachable timeline_schedule_some] by auto
qed

theorem timeline_cancel_refines_witness:
  "\<exists>k c. (k, c) \<in> tl_pending tl_demo \<and> key_sequence k = 1"
proof -
  let ?r = "x86_core_machine_timeline_cancel (Some tl_demo) (Some \<lparr>tok_slot = 1, tok_sequence = 1\<rparr>)"
  have "fst ?r = LIB_STATUS_OK" by code_simp
  moreover have "?r = (fst ?r, Some (the (snd ?r)))"
    by (cases rule: timeline_cancel_cases [of "\<lparr>tok_slot = 1, tok_sequence = 1\<rparr>" tl_demo]) simp_all
  ultimately show ?thesis using timeline_cancel_refines [OF tl_demo_reachable] by fastforce
qed

theorem timeline_next_due_least_witness:
  "\<exists>k c. (k, c) \<in> tl_pending tl_demo \<and> key_due k = 4"
proof -
  have "x86_core_machine_timeline_next_due (Some tl_demo) (Some 0) = (LIB_STATUS_OK, Some 4)" by code_simp
  then show ?thesis using timeline_next_due_least [OF tl_demo_reachable, of 0] by auto
qed

end
