(* ===== verification/Clock.thy ===== *)
theory Clock
  imports Prelude
begin

unbundle bit_operations_syntax

text \<open>
  Rational clock domains, \<^verbatim>\<open>src/src/x86-core/machine/clock.c\<close>: a device clock derived
  from the source clock by a fixed ratio with a phase accumulator. All arithmetic is the 64-bit
  arithmetic of the code; the theorems give its exact value.
\<close>

section \<open>State and operations\<close>

record x86_core_machine_clock_ratio =
  cr_numerator :: lib_u32
  cr_denominator :: lib_u32
  cr_reset_phase :: lib_u32

record x86_core_machine_clock_domain =
  cd_numerator :: lib_u32
  cd_denominator :: lib_u32
  cd_reset_phase :: lib_u32
  cd_phase :: lib_u32
  cd_delivered_ticks :: lib_u64

definition x86_core_machine_clock_identity :: x86_core_machine_clock_ratio where
  "x86_core_machine_clock_identity = \<lparr>cr_numerator = 1, cr_denominator = 1, cr_reset_phase = 0\<rparr>"

fun x86_core_machine_clock_ratio_is_valid :: "x86_core_machine_clock_ratio ptr \<Rightarrow> bool" where
  "x86_core_machine_clock_ratio_is_valid None = False"
| "x86_core_machine_clock_ratio_is_valid (Some ratio) =
     (if cr_numerator ratio = 0 \<and> cr_denominator ratio = 0 \<and> cr_reset_phase ratio = 0 then True
      else cr_numerator ratio \<noteq> 0 \<and> cr_denominator ratio \<noteq> 0 \<and>
        cr_reset_phase ratio < cr_denominator ratio)"

fun x86_core_machine_clock_domain_reset ::
  "x86_core_machine_clock_domain ptr \<Rightarrow> x86_core_machine_clock_domain ptr" where
  "x86_core_machine_clock_domain_reset None = None"
| "x86_core_machine_clock_domain_reset (Some domain) =
     Some (domain\<lparr>cd_phase := cd_reset_phase domain, cd_delivered_ticks := 0\<rparr>)"

definition x86_core_machine_clock_domain_initialize ::
  "x86_core_machine_clock_domain ptr \<Rightarrow> x86_core_machine_clock_ratio ptr \<Rightarrow>
     lib_status \<times> x86_core_machine_clock_domain ptr" where
  "x86_core_machine_clock_domain_initialize domain ratio =
     (if domain = None \<or> \<not> x86_core_machine_clock_ratio_is_valid ratio
      then (LIB_STATUS_INVALID_ARGUMENT, domain)
      else
        let resolved = (if cr_numerator (the ratio) = 0 then x86_core_machine_clock_identity
                        else the ratio)
        in (LIB_STATUS_OK, x86_core_machine_clock_domain_reset (Some ((the domain)\<lparr>
              cd_numerator := cr_numerator resolved, cd_denominator := cr_denominator resolved,
              cd_reset_phase := cr_reset_phase resolved\<rparr>))))"

fun x86_core_machine_clock_domain_advance ::
  "x86_core_machine_clock_domain ptr \<Rightarrow> lib_u64 \<Rightarrow> lib_u64 \<times> x86_core_machine_clock_domain ptr" where
  "x86_core_machine_clock_domain_advance None elapsed_ticks = (0, None)"
| "x86_core_machine_clock_domain_advance (Some domain) elapsed_ticks =
     (if cd_denominator domain = 0 then (0, Some domain)
      else if cd_numerator domain = cd_denominator domain then
        (elapsed_ticks,
         Some (domain\<lparr>cd_delivered_ticks := cd_delivered_ticks domain + elapsed_ticks\<rparr>))
      else
        let denominator = ucast (cd_denominator domain) :: lib_u64;
            numerator = ucast (cd_numerator domain) :: lib_u64;
            ticks = (elapsed_ticks div denominator) * numerator;
            remainder = (elapsed_ticks mod denominator) * numerator + ucast (cd_phase domain);
            converted = ticks + remainder div denominator
        in (converted,
            Some (domain\<lparr>cd_phase := ucast (remainder mod denominator),
              cd_delivered_ticks := cd_delivered_ticks domain + converted\<rparr>)))"

fun x86_core_machine_clock_domain_source_ticks_until ::
  "x86_core_machine_clock_domain ptr \<Rightarrow> lib_u64 \<Rightarrow> lib_u64 ptr \<Rightarrow> lib_status \<times> lib_u64 ptr" where
  "x86_core_machine_clock_domain_source_ticks_until (Some domain) delivered_ticks (Some out) =
     (if delivered_ticks = 0 \<or> cd_numerator domain = 0 \<or> cd_denominator domain = 0 \<or>
         (delivered_ticks > ucast LIB_UINT32_MAX \<and>
          delivered_ticks > LIB_UINT64_MAX div ucast (cd_denominator domain))
      then (LIB_STATUS_INVALID_ARGUMENT, Some out)
      else
        let required = delivered_ticks * ucast (cd_denominator domain)
        in if required \<le> ucast (cd_phase domain) then (LIB_STATUS_OK, Some 1)
           else
             let rest = required - ucast (cd_phase domain)
             in if rest \<le> ucast LIB_UINT32_MAX then
                  let narrow = ucast rest :: lib_u32;
                      quotient = narrow div cd_numerator domain;
                      remainder = narrow mod cd_numerator domain;
                      result = ucast quotient + of_bool (remainder \<noteq> 0)
                  in (if result = 0 then LIB_STATUS_INVALID_STATE else LIB_STATUS_OK, Some result)
                else
                  let q = rest div ucast (cd_numerator domain);
                      result = (if rest mod ucast (cd_numerator domain) \<noteq> 0 then q + 1 else q)
                  in (if result = 0 then LIB_STATUS_INVALID_STATE else LIB_STATUS_OK, Some result))"
| "x86_core_machine_clock_domain_source_ticks_until _ delivered_ticks out =
     (LIB_STATUS_INVALID_ARGUMENT, out)"

section \<open>The value of an advance\<close>

definition clock_inv :: "x86_core_machine_clock_domain \<Rightarrow> bool" where
  "clock_inv d \<longleftrightarrow> cd_numerator d \<noteq> 0 \<and> cd_denominator d \<noteq> 0 \<and>
     cd_phase d < cd_denominator d \<and> cd_reset_phase d < cd_denominator d"

text \<open>Source ticks scaled by the ratio, on top of the phase: the quotient is delivered, the
  remainder is the new phase.\<close>

definition clock_scaled :: "x86_core_machine_clock_domain \<Rightarrow> nat \<Rightarrow> nat" where
  "clock_scaled d n = n * unat (cd_numerator d) + unat (cd_phase d)"

definition clock_ticks :: "x86_core_machine_clock_domain \<Rightarrow> nat \<Rightarrow> nat" where
  "clock_ticks d n = clock_scaled d n div unat (cd_denominator d)"

definition clock_after :: "x86_core_machine_clock_domain \<Rightarrow> nat \<Rightarrow> x86_core_machine_clock_domain" where
  "clock_after d n = d\<lparr>cd_phase := of_nat (clock_scaled d n mod unat (cd_denominator d)),
     cd_delivered_ticks := cd_delivered_ticks d + of_nat (clock_ticks d n)\<rparr>"

lemma unat_u32_lt [simp]: "unat (w :: lib_u32) < 4294967296"
  using unsigned_less [of w, where 'a = nat] by simp

lemma unat_ucast_32_64 [simp]: "unat (ucast (w :: lib_u32) :: lib_u64) = unat w"
  by (rule unat_ucast_up) simp

lemma clock_inv_pos: "clock_inv d \<Longrightarrow> 0 < unat (cd_denominator d)" "clock_inv d \<Longrightarrow> 0 < unat (cd_numerator d)"
  by (simp_all add: clock_inv_def unat_gt_0)

lemma clock_scaled_identity:
  assumes "clock_inv d" "cd_numerator d = cd_denominator d"
  shows "clock_ticks d n = n" "clock_scaled d n mod unat (cd_denominator d) = unat (cd_phase d)"
proof -
  have "unat (cd_phase d) < unat (cd_denominator d)"
    using assms by (simp add: clock_inv_def word_less_nat_alt)
  then show "clock_ticks d n = n" "clock_scaled d n mod unat (cd_denominator d) = unat (cd_phase d)"
    using assms by (simp_all add: clock_ticks_def clock_scaled_def)
qed

lemma word_eq_of_nat: "unat w = n \<Longrightarrow> (w :: 'a::len word) = of_nat n"
  by auto

lemma ucast_eq_of_nat: "unat w = n \<Longrightarrow> ucast (w :: 'a::len word) = of_nat n"
  by auto

lemma clock_advance_exact:
  assumes inv: "clock_inv d"
  shows "x86_core_machine_clock_domain_advance (Some d) e =
    (of_nat (clock_ticks d (unat e)), Some (clock_after d (unat e)))"
proof (cases "cd_numerator d = cd_denominator d")
  case True
  then show ?thesis
    using inv clock_scaled_identity [OF inv True]
    by (simp add: clock_inv_def clock_after_def)
next
  case False
  let ?D = "unat (cd_denominator d)" and ?N = "unat (cd_numerator d)" and ?P = "unat (cd_phase d)"
  let ?e = "unat e"
  have D: "0 < ?D" by (rule clock_inv_pos [OF inv])
  have P: "?P < ?D" using inv by (simp add: clock_inv_def word_less_nat_alt)
  have nz: "(cd_denominator d = 0) = False" using inv by (simp add: clock_inv_def)
  have ND: "?N \<le> 4294967295" "?D \<le> 4294967295"
    using unat_u32_lt [of "cd_numerator d"] unat_u32_lt [of "cd_denominator d"] by linarith+
  have "?e mod ?D \<le> ?D - 1" using D by (simp add: Suc_leI flip: less_Suc_eq_le)
  then have "(?e mod ?D) * ?N \<le> (?D - 1) * 4294967295" using ND by (intro mult_le_mono)
  moreover have "(?D - 1) * 4294967295 \<le> 4294967294 * 4294967295" using ND by simp
  ultimately have small: "(?e mod ?D) * ?N + ?P < 2 ^ 64" using P ND by simp
  have uden: "unat (ucast (cd_denominator d) :: lib_u64) = ?D" by simp
  let ?rem = "(e mod ucast (cd_denominator d)) * ucast (cd_numerator d) + ucast (cd_phase d)"
  have prod: "unat ((e mod ucast (cd_denominator d)) * ucast (cd_numerator d)) = (?e mod ?D) * ?N"
    using small by (simp add: unat_mult_lem [THEN iffD1] unat_mod)
  have rem: "unat ?rem = (?e mod ?D) * ?N + ?P"
    using small prod by (simp add: unat_add_lem [THEN iffD1])
  have split: "clock_scaled d ?e = (?e div ?D) * ?N * ?D + ((?e mod ?D) * ?N + ?P)"
  proof -
    have "(q * D + r) * N + P = q * N * D + (r * N + P)" for q D r N P :: nat
      by (simp add: algebra_simps)
    from this [of "?e div ?D" ?D "?e mod ?D" ?N ?P] show ?thesis
      unfolding clock_scaled_def by (simp only: div_mult_mod_eq)
  qed
  have md: "clock_scaled d ?e mod ?D = unat ?rem mod ?D"
    unfolding split rem by simp
  have dv: "clock_ticks d ?e = (?e div ?D) * ?N + unat ?rem div ?D"
    unfolding clock_ticks_def split rem using D by simp
  have rem_div: "?rem div ucast (cd_denominator d) = of_nat (unat ?rem div ?D)"
    by (rule word_eq_of_nat) (simp only: unat_div uden)
  have e_div: "e div ucast (cd_denominator d) = of_nat (?e div ?D)"
    by (rule word_eq_of_nat) (simp only: unat_div uden)
  have conv: "(e div ucast (cd_denominator d)) * ucast (cd_numerator d) +
      ?rem div ucast (cd_denominator d) = of_nat (clock_ticks d ?e)"
    unfolding rem_div e_div dv by (simp only: of_nat_add of_nat_mult of_nat_unat)
  have phase: "ucast (?rem mod ucast (cd_denominator d)) = (of_nat (clock_scaled d ?e mod ?D) :: lib_u32)"
    unfolding md by (rule ucast_eq_of_nat) (simp only: unat_mod uden)
  show ?thesis
    unfolding x86_core_machine_clock_domain_advance.simps Let_def conv phase
    by (simp only: False nz if_False clock_after_def)
qed


section \<open>Slicing time\<close>

declare x86_core_machine_clock_domain_advance.simps(2) [simp del]

lemma div_add_carry: "(b + x) div n = x div n + (b + x mod n) div (n :: nat)"
  by (simp add: div_add1_eq [of b x] div_add1_eq [of b "x mod n"])

lemma clock_after_phase:
  assumes "clock_inv d"
  shows "unat (cd_phase (clock_after d n)) = clock_scaled d n mod unat (cd_denominator d)"
proof -
  have "clock_scaled d n mod unat (cd_denominator d) < unat (cd_denominator d)"
    using clock_inv_pos [OF assms] by simp
  from less_trans [OF this unat_u32_lt]
  have "clock_scaled d n mod unat (cd_denominator d) < 2 ^ LENGTH(32)" by simp
  then show ?thesis by (simp add: clock_after_def unsigned_of_nat take_bit_nat_eq_self)
qed

lemma clock_inv_after [chip_inv]: "clock_inv d \<Longrightarrow> clock_inv (clock_after d n)"
  using clock_after_phase [of d n] clock_inv_pos [of d]
  by (simp add: clock_inv_def word_less_nat_alt clock_after_def)

lemma clock_after_frame [simp]:
  "cd_numerator (clock_after d n) = cd_numerator d"
  "cd_denominator (clock_after d n) = cd_denominator d"
  "cd_reset_phase (clock_after d n) = cd_reset_phase d"
  by (simp_all add: clock_after_def)

lemma clock_after_add:
  assumes "clock_inv d"
  shows "clock_scaled (clock_after d m) n mod unat (cd_denominator d) =
      clock_scaled d (m + n) mod unat (cd_denominator d)"
    "clock_ticks d (m + n) = clock_ticks d m + clock_ticks (clock_after d m) n"
proof -
  let ?D = "unat (cd_denominator d)"
  let ?b = "n * unat (cd_numerator d)"
  have "clock_scaled d (m + n) = ?b + clock_scaled d m"
    by (simp add: clock_scaled_def algebra_simps)
  moreover have "clock_scaled (clock_after d m) n = ?b + clock_scaled d m mod ?D"
    using clock_after_phase [OF assms] by (simp add: clock_scaled_def)
  moreover have "(?b + clock_scaled d m) div ?D =
      clock_scaled d m div ?D + (?b + clock_scaled d m mod ?D) div ?D"
    by (rule div_add_carry)
  ultimately show "clock_scaled (clock_after d m) n mod ?D = clock_scaled d (m + n) mod ?D"
    "clock_ticks d (m + n) = clock_ticks d m + clock_ticks (clock_after d m) n"
    by (simp_all add: clock_ticks_def mod_add_right_eq)
qed

lemma clock_after_after:
  assumes "clock_inv d"
  shows "clock_after (clock_after d m) n = clock_after d (m + n)"
  using clock_after_add [OF assms, of m n]
  by (simp add: clock_after_def [of "clock_after d m"]) (simp add: clock_after_def)

definition clock_step :: "lib_u64 \<Rightarrow> x86_core_machine_clock_domain \<Rightarrow> x86_core_machine_clock_domain" where
  "clock_step n d = the (snd (x86_core_machine_clock_domain_advance (Some d) n))"

lemma clock_step_after: "clock_inv d \<Longrightarrow> clock_step n d = clock_after d (unat n)"
  by (simp add: clock_step_def clock_advance_exact)

interpretation clock_time: tick_component clock_step clock_inv
proof
  fix s :: x86_core_machine_clock_domain and m n :: lib_u64
  assume inv: "clock_inv s"
  have "clock_scaled s 0 mod unat (cd_denominator s) = unat (cd_phase s)" "clock_ticks s 0 = 0"
    using inv by (simp_all add: clock_scaled_def clock_ticks_def clock_inv_def word_less_nat_alt)
  then show "clock_step 0 s = s" by (simp add: clock_step_after inv clock_after_def)
  show "clock_inv (clock_step n s)" by (simp add: clock_step_after inv clock_inv_after)
  assume "unat m + unat n < 2 ^ 64"
  then have "unat (m + n) = unat m + unat n" by (simp add: unat_add_lem [THEN iffD1])
  then show "clock_step (m + n) s = clock_step n (clock_step m s)"
    by (simp add: clock_step_after inv clock_inv_after clock_after_after)
qed

text \<open>The ticks a domain hands out over a sequence of slices.\<close>

fun clock_delivered :: "x86_core_machine_clock_domain \<Rightarrow> lib_u64 list \<Rightarrow> lib_u64 list" where
  "clock_delivered d [] = []"
| "clock_delivered d (n # ns) =
     fst (x86_core_machine_clock_domain_advance (Some d) n) # clock_delivered (clock_step n d) ns"

lemma clock_delivered_sum:
  "clock_inv d \<Longrightarrow> sum_list (clock_delivered d ns) = of_nat (clock_ticks d (sum_list (map unat ns)))"
proof (induction ns arbitrary: d)
  case Nil
  then show ?case
    by (simp add: clock_ticks_def clock_scaled_def clock_inv_def word_less_nat_alt)
next
  case (Cons n ns)
  then show ?case
    using clock_after_add(2) [OF Cons.prems, of "unat n" "sum_list (map unat ns)"]
    by (simp add: clock_advance_exact clock_step_after clock_inv_after)
qed

text \<open>
  C30: a clock domain never loses or invents a tick: however the source time is sliced, the ticks
  handed out add up (modulo 2^64, the width of the counter) to the whole part of
  (source ticks * numerator + starting phase) / denominator, and the phase keeps the remainder.
\<close>

theorem clock_domain_exact:
  assumes "clock_inv d"
  shows "sum_list (clock_delivered d ns) =
      of_nat ((sum_list (map unat ns) * unat (cd_numerator d) + unat (cd_phase d)) div
        unat (cd_denominator d)) \<and>
    unat (cd_phase (fold clock_step ns d)) =
      (sum_list (map unat ns) * unat (cd_numerator d) + unat (cd_phase d)) mod
        unat (cd_denominator d)"
proof -
  have "fold clock_step ns d = clock_after d (sum_list (map unat ns))"
    using assms
  proof (induction ns arbitrary: d)
    case Nil
    then show ?case using clock_time.adv_zero [of d] by (simp add: clock_step_after)
  next
    case (Cons n ns)
    then show ?case by (simp add: clock_step_after clock_inv_after clock_after_after)
  qed
  then show ?thesis
    using clock_delivered_sum [OF assms, of ns] clock_after_phase [OF assms]
    by (simp add: clock_ticks_def clock_scaled_def)
qed

text \<open>The PIT clock of a 6 MHz board: 1193182 Hz from a 6 MHz source, in lowest terms of 2.\<close>

definition clock_demo :: x86_core_machine_clock_domain where
  "clock_demo = \<lparr>cd_numerator = 596591, cd_denominator = 3000000, cd_reset_phase = 7, cd_phase = 7,
     cd_delivered_ticks = 0\<rparr>"

theorem clock_domain_exact_witness:
  "sum_list (clock_delivered clock_demo [1000000, 2000000, 3000000]) = 1193182"
proof -
  have "clock_inv clock_demo" by (simp add: clock_inv_def clock_demo_def)
  from clock_domain_exact [OF this, of "[1000000, 2000000, 3000000]"] show ?thesis
    by (simp add: clock_demo_def)
qed

section \<open>The deadline query\<close>

lemma ceil_div_least:
  fixes r n :: nat
  assumes "0 < n" "0 < r"
  shows "r \<le> (r div n + of_bool (r mod n \<noteq> 0)) * n"
    "(r div n + of_bool (r mod n \<noteq> 0) - 1) * n < r"
proof -
  have r: "r div n * n + r mod n = r" by simp
  have m: "r mod n < n" using assms by simp
  show "r \<le> (r div n + of_bool (r mod n \<noteq> 0)) * n"
  proof (cases "r mod n = 0")
    case True
    then show ?thesis using r by simp
  next
    case False
    have "r \<le> r div n * n + n" using r m by linarith
    then show ?thesis using False by (simp add: add_mult_distrib add.commute)
  qed
  show "(r div n + of_bool (r mod n \<noteq> 0) - 1) * n < r"
  proof (cases "r mod n = 0")
    case True
    then have "r div n * n = r" using r by simp
    moreover have "0 < r div n" using True assms by (metis calculation gr0I mult_0)
    ultimately show ?thesis using assms True by (simp add: diff_mult_distrib)
  next
    case False
    then have "r div n * n < r" using r by linarith
    then show ?thesis using False by simp
  qed
qed

text \<open>The query answers whenever its product fits, with the quotient rounded up.\<close>

lemma clock_until_total:
  assumes inv: "clock_inv d"
    and guard: "n \<noteq> 0" "n \<le> ucast LIB_UINT32_MAX \<or> n \<le> LIB_UINT64_MAX div ucast (cd_denominator d)"
  shows "\<exists>t. x86_core_machine_clock_domain_source_ticks_until (Some d) n (Some out) = (LIB_STATUS_OK, Some t) \<and>
    unat (cd_phase d) < unat n * unat (cd_denominator d) \<and>
    unat t = (unat n * unat (cd_denominator d) - unat (cd_phase d)) div unat (cd_numerator d) +
      of_bool ((unat n * unat (cd_denominator d) - unat (cd_phase d)) mod unat (cd_numerator d) \<noteq> 0)"
proof -
  let ?D = "unat (cd_denominator d)" and ?N = "unat (cd_numerator d)" and ?P = "unat (cd_phase d)"
  let ?req = "n * ucast (cd_denominator d)"
  have D: "0 < ?D" and N: "0 < ?N" using clock_inv_pos [OF inv] by simp_all
  have P: "?P < ?D" using inv by (simp add: clock_inv_def word_less_nat_alt)
  have closed: "(n = 0 \<or> cd_numerator d = 0 \<or> cd_denominator d = 0 \<or> n > ucast LIB_UINT32_MAX \<and>
      n > LIB_UINT64_MAX div ucast (cd_denominator d)) = False"
    using guard inv by (auto simp: clock_inv_def not_less)
  have max32: "unat (ucast LIB_UINT32_MAX :: lib_u64) = 4294967295"
    by (simp add: LIB_UINT32_MAX_def unsigned_minus_1_eq_mask mask_eq_exp_minus_1)
  have max64: "unat LIB_UINT64_MAX = 18446744073709551615"
    by (simp add: LIB_UINT64_MAX_def unsigned_minus_1_eq_mask mask_eq_exp_minus_1)
  have fits: "unat n * ?D < 2 ^ 64"
    using guard(2)
  proof
    assume "n \<le> ucast LIB_UINT32_MAX"
    then have "unat n \<le> 4294967295" using max32 by (simp add: word_le_nat_alt)
    moreover have "?D \<le> 4294967295" using unat_u32_lt [of "cd_denominator d"] by linarith
    ultimately have "unat n * ?D \<le> 4294967295 * 4294967295" by (intro mult_le_mono)
    then show ?thesis by simp
  next
    assume "n \<le> LIB_UINT64_MAX div ucast (cd_denominator d)"
    then have "unat n \<le> 18446744073709551615 div ?D"
      by (simp add: word_le_nat_alt unat_div max64)
    then have "unat n * ?D \<le> (18446744073709551615 div ?D) * ?D" by simp
    also have "\<dots> \<le> 18446744073709551615" by simp
    finally show ?thesis by simp
  qed
  then have req: "unat ?req = unat n * ?D" by (simp add: unat_mult_lem [THEN iffD1])
  have n1: "1 \<le> unat n" using guard(1) by (simp add: unat_gt_0 Suc_le_eq)
  then have "?D \<le> unat n * ?D" by simp
  then have lt: "?P < unat n * ?D" using P by linarith
  then have nle: "\<not> ?req \<le> ucast (cd_phase d)" by (simp add: word_le_nat_alt req)
  let ?rest = "?req - ucast (cd_phase d)"
  have rest: "unat ?rest = unat n * ?D - ?P"
    using nle by (simp add: unat_sub req)
  let ?least = "unat ?rest div ?N + of_bool (unat ?rest mod ?N \<noteq> 0)"
  have "0 < unat ?rest" using lt by (simp add: rest)
  then have pos: "0 < ?least"
    by (cases "unat ?rest mod ?N = 0") (auto simp: div_greater_zero_iff intro: dvd_imp_le)
  have "\<exists>t. x86_core_machine_clock_domain_source_ticks_until (Some d) n (Some out) = (LIB_STATUS_OK, Some t) \<and>
    unat t = ?least"
  proof (cases "?rest \<le> ucast LIB_UINT32_MAX")
    case True
    then have small: "unat ?rest < 2 ^ 32" using max32 by (simp add: word_le_nat_alt)
    then have narrow: "unat (ucast ?rest :: lib_u32) = unat ?rest"
      by (simp add: unsigned_ucast_eq take_bit_nat_eq_self)
    let ?res = "ucast (ucast ?rest div cd_numerator d) + of_bool (ucast ?rest mod cd_numerator d \<noteq> 0) :: lib_u64"
    have run: "x86_core_machine_clock_domain_source_ticks_until (Some d) n (Some out) =
        (if ?res = 0 then LIB_STATUS_INVALID_STATE else LIB_STATUS_OK, Some ?res)"
      unfolding x86_core_machine_clock_domain_source_ticks_until.simps Let_def
      by (simp only: closed nle True if_True if_False)
    have q: "unat (ucast (ucast ?rest div cd_numerator d) :: lib_u64) = unat ?rest div ?N"
      by (simp add: unat_div narrow)
    moreover have "unat ?rest div ?N < 2 ^ 32" using small by (meson div_le_dividend le_less_trans)
    moreover have "(ucast ?rest mod cd_numerator d = 0) = (unat ?rest mod ?N = 0)"
      by (simp only: unat_eq_0 [symmetric] unat_mod narrow)
    ultimately have v: "unat ?res = ?least" by (simp add: unat_plus_if' of_bool_def)
    have "unat ?res \<noteq> 0" unfolding v using pos by (rule less_imp_neq [symmetric])
    then have "(?res = 0) = False" by (simp only: unat_eq_0 simp_thms)
    with run v show ?thesis by (auto simp only: if_False)
  next
    case False
    let ?q = "?rest div ucast (cd_numerator d)" and ?r = "?rest mod ucast (cd_numerator d)"
    let ?res = "if ?r \<noteq> 0 then ?q + 1 else ?q"
    have run: "x86_core_machine_clock_domain_source_ticks_until (Some d) n (Some out) =
        (if ?res = 0 then LIB_STATUS_INVALID_STATE else LIB_STATUS_OK, Some ?res)"
      unfolding x86_core_machine_clock_domain_source_ticks_until.simps Let_def
      by (simp only: closed nle False if_False)
    have q: "unat ?q = unat ?rest div ?N" by (simp add: unat_div)
    have r: "?r = 0 \<longleftrightarrow> unat ?rest mod ?N = 0"
      by (simp only: unat_eq_0 [symmetric] unat_mod unat_ucast_32_64)
    have v: "unat ?res = ?least"
    proof (cases "?r = 0")
      case True
      then show ?thesis using q r by simp
    next
      case False
      then have "?N \<noteq> 1" using r by auto
      then have "2 \<le> ?N" using N by linarith
      then have "unat ?rest div ?N \<le> unat ?rest div 2" by (intro div_le_mono2) simp_all
      then have "unat ?q + 1 < 2 ^ 64"
        using q unsigned_less [of ?rest, where 'a = nat] by simp
      then show ?thesis using False q r by (simp add: unat_plus_if')
    qed
    have "unat ?res \<noteq> 0" unfolding v using pos by (rule less_imp_neq [symmetric])
    then have "(?res = 0) = False" by (simp only: unat_eq_0 simp_thms)
    with run v show ?thesis by (auto simp only: if_False)
  qed
  then show ?thesis using lt by (simp add: rest)
qed

lemma clock_until_value:
  assumes inv: "clock_inv d"
    and ok: "x86_core_machine_clock_domain_source_ticks_until (Some d) n (Some out) = (LIB_STATUS_OK, Some t)"
  shows "let rest = unat n * unat (cd_denominator d) - unat (cd_phase d) in
    unat (cd_phase d) < unat n * unat (cd_denominator d) \<and>
    unat t = rest div unat (cd_numerator d) + of_bool (rest mod unat (cd_numerator d) \<noteq> 0)"
proof -
  have "n \<noteq> 0" "n \<le> ucast LIB_UINT32_MAX \<or> n \<le> LIB_UINT64_MAX div ucast (cd_denominator d)"
    using ok by (auto simp: not_less split: if_splits)
  from clock_until_total [OF inv this, of out] show ?thesis
    unfolding ok Let_def by (metis option.inject prod.inject)
qed

text \<open>
  C31: the query for the next deadline is exact: waiting for the source ticks it answers delivers
  at least the ticks asked for, and one source tick less delivers fewer.
\<close>

theorem clock_until_exact:
  assumes "clock_inv d"
    and "x86_core_machine_clock_domain_source_ticks_until (Some d) n (Some out) = (LIB_STATUS_OK, Some t)"
  shows "unat n \<le> (unat t * unat (cd_numerator d) + unat (cd_phase d)) div unat (cd_denominator d) \<and>
    0 < t \<and>
    ((unat t - 1) * unat (cd_numerator d) + unat (cd_phase d)) div unat (cd_denominator d) < unat n"
proof -
  let ?D = "unat (cd_denominator d)" and ?N = "unat (cd_numerator d)" and ?P = "unat (cd_phase d)"
  let ?rest = "unat n * ?D - ?P"
  have D: "0 < ?D" and N: "0 < ?N" using clock_inv_pos [OF assms(1)] by simp_all
  have v: "?P < unat n * ?D" "unat t = ?rest div ?N + of_bool (?rest mod ?N \<noteq> 0)"
    using clock_until_value [OF assms] by (simp_all add: Let_def)
  have pos: "0 < ?rest" using v(1) by simp
  note C = ceil_div_least [OF N pos, folded v(2)]
  have "unat n * ?D \<le> unat t * ?N + ?P" using C(1) v(1) by linarith
  then have "unat n \<le> (unat t * ?N + ?P) div ?D" using D by (simp add: less_eq_div_iff_mult_less_eq)
  moreover have "(unat t - 1) * ?N + ?P < unat n * ?D" using C(2) v(1) by linarith
  then have "((unat t - 1) * ?N + ?P) div ?D < unat n" using D by (simp add: div_less_iff_less_mult)
  moreover have "0 < unat t" using C(1) pos by (cases "unat t") simp_all
  ultimately show ?thesis by (simp add: word_less_nat_alt)
qed

theorem clock_until_exact_witness:
  "(unat (6::lib_u64) * 596591 + 7) div 3000000 = (1::nat)"
proof -
  have inv: "clock_inv clock_demo" by (simp add: clock_inv_def clock_demo_def)
  have "x86_core_machine_clock_domain_source_ticks_until (Some clock_demo) 1 (Some 0) = (LIB_STATUS_OK, Some 6)"
    by code_simp
  from clock_until_exact [OF inv this] show ?thesis by (simp add: clock_demo_def)
qed

end
