(* ===== verification/Transaction.thy ===== *)
theory Transaction
  imports Prelude
begin

unbundle bit_operations_syntax

text \<open>
  Ownership of the machine's only bus, \<^verbatim>\<open>src/src/x86-core/machine/transaction.c\<close> and
  \<^verbatim>\<open>transaction.h\<close>: a transaction of the processor, of the DMA controller or of the
  refresh logic, and the hold by which a device asks for the bus and is acknowledged. The trace
  callback is the log of its calls.
\<close>

section \<open>State\<close>

datatype x86_core_machine_transaction_owner =
    X86_CORE_MACHINE_TRANSACTION_OWNER_NONE
  | X86_CORE_MACHINE_TRANSACTION_OWNER_CPU
  | X86_CORE_MACHINE_TRANSACTION_OWNER_DMA
  | X86_CORE_MACHINE_TRANSACTION_OWNER_REFRESH

text \<open>
  A zeroed state has the kind 0, which is no member of the enumeration, and the begin operation
  checks the range; so kinds are their numbers.
\<close>

type_synonym x86_core_machine_transaction_kind = nat

abbreviation X86_CORE_MACHINE_TRANSACTION_CPU_MEMORY_READ :: nat where
  "X86_CORE_MACHINE_TRANSACTION_CPU_MEMORY_READ \<equiv> 1"
abbreviation X86_CORE_MACHINE_TRANSACTION_REFRESH_MEMORY_CYCLE :: nat where
  "X86_CORE_MACHINE_TRANSACTION_REFRESH_MEMORY_CYCLE \<equiv> 8"
abbreviation X86_CORE_MACHINE_TRANSACTION_CPU_SPECIAL_CYCLE :: nat where
  "X86_CORE_MACHINE_TRANSACTION_CPU_SPECIAL_CYCLE \<equiv> 13"

datatype x86_core_machine_transaction_phase =
    X86_CORE_MACHINE_TRANSACTION_PHASE_BEGIN
  | X86_CORE_MACHINE_TRANSACTION_PHASE_COMMIT
  | X86_CORE_MACHINE_TRANSACTION_PHASE_CANCEL
  | X86_CORE_MACHINE_TRANSACTION_PHASE_HOLD_REQUEST
  | X86_CORE_MACHINE_TRANSACTION_PHASE_HOLD_ACKNOWLEDGE
  | X86_CORE_MACHINE_TRANSACTION_PHASE_HOLD_RELEASE

record transaction_call =
  tc_owner :: x86_core_machine_transaction_owner
  tc_kind :: x86_core_machine_transaction_kind
  tc_phase :: x86_core_machine_transaction_phase
  tc_address :: lib_u32
  tc_value :: lib_u32
  tc_detail :: lib_u32

text \<open>\<open>tx_trace\<close> tells whether a callback is bound; \<open>tx_log\<close> is the list of its calls.\<close>

record x86_core_machine_transaction_state =
  tx_owner :: x86_core_machine_transaction_owner
  tx_kind :: x86_core_machine_transaction_kind
  tx_address :: lib_u32
  tx_value :: lib_u32
  tx_detail :: lib_u32
  tx_committed_count :: lib_u64
  tx_cancelled_count :: lib_u64
  tx_hold_owner :: x86_core_machine_transaction_owner
  tx_hold_detail :: lib_u32
  tx_hold_acknowledged :: bool
  tx_trace :: bool
  tx_log :: "transaction_call list"

type_synonym transaction = x86_core_machine_transaction_state

abbreviation NO_OWNER :: x86_core_machine_transaction_owner where
  "NO_OWNER \<equiv> X86_CORE_MACHINE_TRANSACTION_OWNER_NONE"

section \<open>Operations\<close>

text \<open>\<^verbatim>\<open>phase >= X86_CORE_MACHINE_TRANSACTION_PHASE_HOLD_REQUEST\<close>\<close>

definition transaction_hold_phase :: "x86_core_machine_transaction_phase \<Rightarrow> bool" where
  "transaction_hold_phase phase \<longleftrightarrow>
     phase = X86_CORE_MACHINE_TRANSACTION_PHASE_HOLD_REQUEST \<or>
     phase = X86_CORE_MACHINE_TRANSACTION_PHASE_HOLD_ACKNOWLEDGE \<or>
     phase = X86_CORE_MACHINE_TRANSACTION_PHASE_HOLD_RELEASE"

fun x86_core_machine_transaction_record ::
  "x86_core_machine_transaction_phase \<Rightarrow> transaction ptr \<Rightarrow> transaction ptr" where
  "x86_core_machine_transaction_record phase None = None"
| "x86_core_machine_transaction_record phase (Some state) =
     (if tx_trace state then
        let (owner, detail) = (if transaction_hold_phase phase
              then (tx_hold_owner state, tx_hold_detail state)
              else (tx_owner state, tx_detail state))
        in Some (state\<lparr>tx_log := tx_log state @ [\<lparr>tc_owner = owner, tc_kind = tx_kind state,
             tc_phase = phase, tc_address = tx_address state, tc_value = tx_value state,
             tc_detail = detail\<rparr>]\<rparr>)
      else Some state)"

definition zero_transaction :: transaction where
  "zero_transaction = \<lparr>tx_owner = NO_OWNER, tx_kind = 0, tx_address = 0, tx_value = 0,
     tx_detail = 0, tx_committed_count = 0, tx_cancelled_count = 0, tx_hold_owner = NO_OWNER,
     tx_hold_detail = 0, tx_hold_acknowledged = False, tx_trace = False, tx_log = []\<rparr>"

fun x86_core_machine_transaction_initialize :: "transaction ptr \<Rightarrow> transaction ptr" where
  "x86_core_machine_transaction_initialize None = None"
| "x86_core_machine_transaction_initialize (Some state) =
     Some (zero_transaction\<lparr>tx_log := tx_log state\<rparr>)"

fun x86_core_machine_transaction_bind_trace :: "bool \<Rightarrow> transaction ptr \<Rightarrow> transaction ptr" where
  "x86_core_machine_transaction_bind_trace callback None = None"
| "x86_core_machine_transaction_bind_trace callback (Some state) = Some (state\<lparr>tx_trace := callback\<rparr>)"

fun x86_core_machine_transaction_set_value :: "lib_u32 \<Rightarrow> transaction ptr \<Rightarrow> transaction ptr" where
  "x86_core_machine_transaction_set_value v None = None"
| "x86_core_machine_transaction_set_value v (Some state) =
     Some (if tx_owner state \<noteq> NO_OWNER then state\<lparr>tx_value := v\<rparr> else state)"

fun x86_core_machine_transaction_cancel :: "transaction ptr \<Rightarrow> transaction ptr" where
  "x86_core_machine_transaction_cancel None = None"
| "x86_core_machine_transaction_cancel (Some state) =
     (if tx_owner state = NO_OWNER then Some state
      else map_option (\<lambda>state. state\<lparr>tx_cancelled_count := tx_cancelled_count state + 1,
             tx_owner := NO_OWNER\<rparr>)
           (x86_core_machine_transaction_record X86_CORE_MACHINE_TRANSACTION_PHASE_CANCEL (Some state)))"

fun x86_core_machine_transaction_commit :: "transaction ptr \<Rightarrow> transaction ptr" where
  "x86_core_machine_transaction_commit None = None"
| "x86_core_machine_transaction_commit (Some state) =
     (if tx_owner state = NO_OWNER then Some state
      else map_option (\<lambda>state. state\<lparr>tx_committed_count := tx_committed_count state + 1,
             tx_owner := NO_OWNER\<rparr>)
           (if tx_trace state then x86_core_machine_transaction_record
              X86_CORE_MACHINE_TRANSACTION_PHASE_COMMIT (Some state) else Some state))"

fun x86_core_machine_transaction_begin ::
  "x86_core_machine_transaction_owner \<Rightarrow> x86_core_machine_transaction_kind \<Rightarrow> lib_u32 \<Rightarrow> lib_u32 \<Rightarrow>
     lib_u32 \<Rightarrow> transaction ptr \<Rightarrow> lib_status \<times> transaction ptr" where
  "x86_core_machine_transaction_begin owner kind address v detail None =
     (LIB_STATUS_INVALID_ARGUMENT, None)"
| "x86_core_machine_transaction_begin owner kind address v detail (Some state) =
     (if owner = NO_OWNER \<or>
         kind < X86_CORE_MACHINE_TRANSACTION_CPU_MEMORY_READ \<or>
         kind > X86_CORE_MACHINE_TRANSACTION_CPU_SPECIAL_CYCLE \<or>
         tx_owner state \<noteq> NO_OWNER \<or>
         (tx_hold_owner state \<noteq> NO_OWNER \<and>
          (tx_hold_owner state \<noteq> owner \<or> \<not> tx_hold_acknowledged state))
      then (LIB_STATUS_INVALID_ARGUMENT, Some state)
      else
        let state = state\<lparr>tx_owner := owner, tx_kind := kind, tx_address := address,
              tx_value := v, tx_detail := detail\<rparr>
        in (LIB_STATUS_OK,
            if tx_trace state then x86_core_machine_transaction_record
              X86_CORE_MACHINE_TRANSACTION_PHASE_BEGIN (Some state) else Some state))"

fun x86_core_machine_transaction_hold_request ::
  "x86_core_machine_transaction_owner \<Rightarrow> lib_u32 \<Rightarrow> transaction ptr \<Rightarrow> lib_status \<times> transaction ptr" where
  "x86_core_machine_transaction_hold_request owner detail None = (LIB_STATUS_INVALID_ARGUMENT, None)"
| "x86_core_machine_transaction_hold_request owner detail (Some state) =
     (if owner = NO_OWNER \<or> tx_owner state \<noteq> NO_OWNER \<or> tx_hold_owner state \<noteq> NO_OWNER
      then (LIB_STATUS_INVALID_ARGUMENT, Some state)
      else (LIB_STATUS_OK, x86_core_machine_transaction_record
             X86_CORE_MACHINE_TRANSACTION_PHASE_HOLD_REQUEST
             (Some (state\<lparr>tx_hold_owner := owner, tx_hold_detail := detail,
                tx_hold_acknowledged := False\<rparr>))))"

fun x86_core_machine_transaction_hold_acknowledge ::
  "x86_core_machine_transaction_owner \<Rightarrow> transaction ptr \<Rightarrow> lib_status \<times> transaction ptr" where
  "x86_core_machine_transaction_hold_acknowledge owner None = (LIB_STATUS_INVALID_ARGUMENT, None)"
| "x86_core_machine_transaction_hold_acknowledge owner (Some state) =
     (if owner = NO_OWNER \<or> tx_owner state \<noteq> NO_OWNER \<or> tx_hold_owner state \<noteq> owner \<or>
         tx_hold_acknowledged state
      then (LIB_STATUS_INVALID_ARGUMENT, Some state)
      else (LIB_STATUS_OK, x86_core_machine_transaction_record
             X86_CORE_MACHINE_TRANSACTION_PHASE_HOLD_ACKNOWLEDGE
             (Some (state\<lparr>tx_hold_acknowledged := True\<rparr>))))"

fun x86_core_machine_transaction_hold_release ::
  "x86_core_machine_transaction_owner \<Rightarrow> transaction ptr \<Rightarrow> transaction ptr" where
  "x86_core_machine_transaction_hold_release owner None = None"
| "x86_core_machine_transaction_hold_release owner (Some state) =
     (if owner = NO_OWNER \<or> tx_hold_owner state \<noteq> owner \<or> tx_owner state \<noteq> NO_OWNER
      then Some state
      else map_option (\<lambda>state. state\<lparr>tx_hold_owner := NO_OWNER, tx_hold_detail := 0,
             tx_hold_acknowledged := False\<rparr>)
           (x86_core_machine_transaction_record
             X86_CORE_MACHINE_TRANSACTION_PHASE_HOLD_RELEASE (Some state)))"

definition transaction_reset_steps :: "transaction ptr \<Rightarrow> transaction ptr" where
  "transaction_reset_steps state =
     (let state = x86_core_machine_transaction_cancel state
      in x86_core_machine_transaction_hold_release (tx_hold_owner (the state)) state)"

fun x86_core_machine_transaction_reset :: "transaction ptr \<Rightarrow> transaction ptr" where
  "x86_core_machine_transaction_reset None = None"
| "x86_core_machine_transaction_reset (Some state) =
     map_option (\<lambda>s. zero_transaction\<lparr>tx_trace := tx_trace s, tx_log := tx_log s\<rparr>)
       (transaction_reset_steps (Some state))"

section \<open>The bus protocol\<close>

text \<open>
  An observer of the bus knows who runs a transaction and who holds the bus. Every logged call
  must be a move the protocol allows: one transaction at a time, none of another owner while the
  bus is held or a request for it is open, and no change of the hold during a transaction.
\<close>

record bus_monitor =
  bm_busy :: "x86_core_machine_transaction_owner option"
  bm_hold :: "(x86_core_machine_transaction_owner \<times> bool) option"

definition bus_move :: "transaction_call \<Rightarrow> bus_monitor \<Rightarrow> bus_monitor option" where
  "bus_move call m =
     (let owner = tc_owner call in
      case tc_phase call of
        X86_CORE_MACHINE_TRANSACTION_PHASE_BEGIN \<Rightarrow>
          if bm_busy m = None \<and> (bm_hold m = None \<or> bm_hold m = Some (owner, True))
          then Some (m\<lparr>bm_busy := Some owner\<rparr>) else None
      | X86_CORE_MACHINE_TRANSACTION_PHASE_COMMIT \<Rightarrow>
          if bm_busy m = Some owner then Some (m\<lparr>bm_busy := None\<rparr>) else None
      | X86_CORE_MACHINE_TRANSACTION_PHASE_CANCEL \<Rightarrow>
          if bm_busy m = Some owner then Some (m\<lparr>bm_busy := None\<rparr>) else None
      | X86_CORE_MACHINE_TRANSACTION_PHASE_HOLD_REQUEST \<Rightarrow>
          if bm_busy m = None \<and> bm_hold m = None then Some (m\<lparr>bm_hold := Some (owner, False)\<rparr>)
          else None
      | X86_CORE_MACHINE_TRANSACTION_PHASE_HOLD_ACKNOWLEDGE \<Rightarrow>
          if bm_busy m = None \<and> bm_hold m = Some (owner, False)
          then Some (m\<lparr>bm_hold := Some (owner, True)\<rparr>) else None
      | X86_CORE_MACHINE_TRANSACTION_PHASE_HOLD_RELEASE \<Rightarrow>
          if bm_busy m = None \<and> (bm_hold m = Some (owner, False) \<or> bm_hold m = Some (owner, True))
          then Some (m\<lparr>bm_hold := None\<rparr>) else None)"

primrec bus_run :: "transaction_call list \<Rightarrow> bus_monitor \<Rightarrow> bus_monitor option" where
  "bus_run [] m = Some m"
| "bus_run (call # calls) m = (case bus_move call m of None \<Rightarrow> None | Some m' \<Rightarrow> bus_run calls m')"

lemma bus_run_append:
  "bus_run (xs @ ys) m = (case bus_run xs m of None \<Rightarrow> None | Some m' \<Rightarrow> bus_run ys m')"
  by (induction xs arbitrary: m) (auto split: option.split)

definition bus_idle :: bus_monitor where
  "bus_idle = \<lparr>bm_busy = None, bm_hold = None\<rparr>"

text \<open>The monitor state a bus shows.\<close>

definition bus_seen :: "transaction \<Rightarrow> bus_monitor" where
  "bus_seen t = \<lparr>bm_busy = (if tx_owner t = NO_OWNER then None else Some (tx_owner t)),
     bm_hold = (if tx_hold_owner t = NO_OWNER then None
       else Some (tx_hold_owner t, tx_hold_acknowledged t))\<rparr>"

definition transaction_ok :: "transaction \<Rightarrow> bool" where
  "transaction_ok t \<longleftrightarrow> tx_trace t \<and> bus_run (tx_log t) bus_idle = Some (bus_seen t) \<and>
     (tx_owner t \<noteq> NO_OWNER \<longrightarrow> tx_hold_owner t \<noteq> NO_OWNER \<longrightarrow>
        tx_hold_owner t = tx_owner t \<and> tx_hold_acknowledged t)"

inductive transaction_reachable :: "transaction \<Rightarrow> bool" where
  transaction_bound: "x86_core_machine_transaction_bind_trace True
      (x86_core_machine_transaction_initialize (Some (t\<lparr>tx_log := []\<rparr>))) = Some t' \<Longrightarrow>
    transaction_reachable t'"
| transaction_began: "transaction_reachable t \<Longrightarrow>
    x86_core_machine_transaction_begin owner kind address v detail (Some t) = (status, Some t') \<Longrightarrow>
    transaction_reachable t'"
| transaction_valued: "transaction_reachable t \<Longrightarrow>
    x86_core_machine_transaction_set_value v (Some t) = Some t' \<Longrightarrow> transaction_reachable t'"
| transaction_committed: "transaction_reachable t \<Longrightarrow>
    x86_core_machine_transaction_commit (Some t) = Some t' \<Longrightarrow> transaction_reachable t'"
| transaction_cancelled: "transaction_reachable t \<Longrightarrow>
    x86_core_machine_transaction_cancel (Some t) = Some t' \<Longrightarrow> transaction_reachable t'"
| transaction_requested: "transaction_reachable t \<Longrightarrow>
    x86_core_machine_transaction_hold_request owner detail (Some t) = (status, Some t') \<Longrightarrow>
    transaction_reachable t'"
| transaction_acknowledged: "transaction_reachable t \<Longrightarrow>
    x86_core_machine_transaction_hold_acknowledge owner (Some t) = (status, Some t') \<Longrightarrow>
    transaction_reachable t'"
| transaction_released: "transaction_reachable t \<Longrightarrow>
    x86_core_machine_transaction_hold_release owner (Some t) = Some t' \<Longrightarrow> transaction_reachable t'"
| transaction_was_reset: "transaction_reachable t \<Longrightarrow>
    x86_core_machine_transaction_reset (Some t) = Some t' \<Longrightarrow> transaction_reachable t'"

lemma bus_run_snoc: "bus_run xs m = Some m' \<Longrightarrow> bus_run (xs @ [call]) m = bus_move call m'"
  by (simp add: bus_run_append split: option.split)

lemmas transaction_defs = transaction_ok_def bus_seen_def bus_move_def Let_def transaction_hold_phase_def

lemma transaction_begin_ok:
  "transaction_ok t \<Longrightarrow>
    x86_core_machine_transaction_begin owner kind address v detail (Some t) = (status, Some t') \<Longrightarrow>
    transaction_ok t'"
  by (auto simp: transaction_defs bus_run_snoc split: if_splits)

lemma transaction_commit_ok:
  "transaction_ok t \<Longrightarrow> x86_core_machine_transaction_commit (Some t) = Some t' \<Longrightarrow> transaction_ok t'"
  by (auto simp: transaction_defs bus_run_snoc split: if_splits)

lemma transaction_cancel_ok:
  "transaction_ok t \<Longrightarrow> x86_core_machine_transaction_cancel (Some t) = Some t' \<Longrightarrow>
    transaction_ok t' \<and> tx_owner t' = NO_OWNER"
  by (auto simp: transaction_defs bus_run_snoc split: if_splits)

lemma transaction_request_ok:
  "transaction_ok t \<Longrightarrow>
    x86_core_machine_transaction_hold_request owner detail (Some t) = (status, Some t') \<Longrightarrow>
    transaction_ok t'"
  by (auto simp: transaction_defs bus_run_snoc split: if_splits)

lemma transaction_acknowledge_ok:
  "transaction_ok t \<Longrightarrow>
    x86_core_machine_transaction_hold_acknowledge owner (Some t) = (status, Some t') \<Longrightarrow>
    transaction_ok t'"
  by (auto simp: transaction_defs bus_run_snoc split: if_splits)

lemma transaction_release_ok:
  "transaction_ok t \<Longrightarrow> x86_core_machine_transaction_hold_release owner (Some t) = Some t' \<Longrightarrow>
    transaction_ok t' \<and> (tx_owner t = NO_OWNER \<longrightarrow> owner = tx_hold_owner t \<longrightarrow>
      tx_owner t' = NO_OWNER \<and> tx_hold_owner t' = NO_OWNER)"
  by (auto simp: transaction_defs bus_run_snoc split: if_splits)

lemma transaction_reset_ok:
  assumes t: "transaction_ok t" and r: "x86_core_machine_transaction_reset (Some t) = Some t'"
  shows "transaction_ok t'"
proof -
  obtain c where c: "x86_core_machine_transaction_cancel (Some t) = Some c"
    by (cases "x86_core_machine_transaction_cancel (Some t)") (auto split: if_splits)
  obtain h where h: "x86_core_machine_transaction_hold_release (tx_hold_owner c) (Some c) = Some h"
    by (cases "x86_core_machine_transaction_hold_release (tx_hold_owner c) (Some c)")
      (auto simp: Let_def split: if_splits)
  have "transaction_ok h \<and> tx_owner h = NO_OWNER \<and> tx_hold_owner h = NO_OWNER"
    using transaction_cancel_ok [OF t c] transaction_release_ok [OF _ h] by blast
  then show ?thesis
    using r c h by (auto simp: transaction_reset_steps_def transaction_ok_def bus_seen_def
        zero_transaction_def)
qed

lemma transaction_reachable_ok: "transaction_reachable t \<Longrightarrow> transaction_ok t"
proof (induction rule: transaction_reachable.induct)
  case (transaction_bound t t')
  then show ?case
    by (auto simp: transaction_ok_def bus_seen_def bus_idle_def zero_transaction_def)
next
  case (transaction_valued t v t')
  then show ?case by (auto simp: transaction_ok_def bus_seen_def split: if_splits)
qed (blast intro: transaction_begin_ok transaction_commit_ok transaction_request_ok
    transaction_acknowledge_ok transaction_reset_ok
    dest: transaction_cancel_ok transaction_release_ok)+

section \<open>Property and witness\<close>

text \<open>C12: on every reachable bus the traced calls follow the protocol: transactions never overlap, no
  owner begins one while another holds the bus or waits for it, holds are requested, acknowledged
  and released in that order and never change during a transaction; and the fields of the state
  show exactly who runs a transaction and who holds the bus after those calls.\<close>

theorem transaction_protocol:
  assumes "transaction_reachable t"
  shows "bus_run (tx_log t) bus_idle = Some (bus_seen t) \<and>
    (tx_owner t \<noteq> NO_OWNER \<and> tx_hold_owner t \<noteq> NO_OWNER \<longrightarrow>
       tx_hold_owner t = tx_owner t \<and> tx_hold_acknowledged t)"
  using transaction_reachable_ok [OF assms] by (auto simp: transaction_ok_def)

text \<open>The DMA controller is granted the bus, runs a cycle and gives the bus back; the processor,
  refused in between, then runs one of its own.\<close>

definition transaction_demo :: transaction where
  "transaction_demo =
     (let t = the (x86_core_machine_transaction_bind_trace True
                (x86_core_machine_transaction_initialize (Some zero_transaction)));
          t = the (snd (x86_core_machine_transaction_hold_request
                X86_CORE_MACHINE_TRANSACTION_OWNER_DMA 0 (Some t)));
          t = the (snd (x86_core_machine_transaction_hold_acknowledge
                X86_CORE_MACHINE_TRANSACTION_OWNER_DMA (Some t)));
          t = the (snd (x86_core_machine_transaction_begin
                X86_CORE_MACHINE_TRANSACTION_OWNER_CPU 1 0x100 0 0 (Some t)))
      in the (snd (x86_core_machine_transaction_begin
                X86_CORE_MACHINE_TRANSACTION_OWNER_DMA 5 0x200 0 0 (Some t))))"

lemma transaction_reachable_calls:
  assumes "transaction_reachable t"
  shows "transaction_reachable (the (snd (x86_core_machine_transaction_begin owner kind a v d (Some t))))"
    and "transaction_reachable (the (snd (x86_core_machine_transaction_hold_request owner d (Some t))))"
    and "transaction_reachable (the (snd (x86_core_machine_transaction_hold_acknowledge owner (Some t))))"
proof -
  show "transaction_reachable (the (snd (x86_core_machine_transaction_begin owner kind a v d (Some t))))"
    by (rule transaction_began [OF assms, of owner kind a v d
        "fst (x86_core_machine_transaction_begin owner kind a v d (Some t))"]) (simp add: Let_def)
  show "transaction_reachable (the (snd (x86_core_machine_transaction_hold_request owner d (Some t))))"
    by (rule transaction_requested [OF assms, of owner d
        "fst (x86_core_machine_transaction_hold_request owner d (Some t))"]) (simp add: Let_def)
  show "transaction_reachable (the (snd (x86_core_machine_transaction_hold_acknowledge owner (Some t))))"
    by (rule transaction_acknowledged [OF assms, of owner
        "fst (x86_core_machine_transaction_hold_acknowledge owner (Some t))"]) (simp add: Let_def)
qed

lemma transaction_demo_reachable: "transaction_reachable transaction_demo"
  unfolding transaction_demo_def Let_def
  by (intro transaction_reachable_calls transaction_bound [of zero_transaction])
    (simp add: zero_transaction_def)

theorem transaction_protocol_witness:
  "bus_run (tx_log transaction_demo) bus_idle = Some (bus_seen transaction_demo)"
  using transaction_protocol [OF transaction_demo_reachable] by blast

end
