(* ===== verification/Fpu.thy ===== *)
theory Fpu
  imports Prelude Complex_Main
begin

unbundle bit_operations_syntax

text \<open>
  The numeric coprocessor, \<^verbatim>\<open>src/src/x86-core/fpu/fpu.c\<close>: the register stack with its
  tags, single precision loads and stores, the four arithmetic operations on an unpacked format
  of 24 significant bits, exceptions, and the completion timer of a command. Flags the code keeps
  in a byte and only sets to 0 or 1 are \<open>bool\<close>; exponents keep their 16 bits and are read by
  \<open>sint\<close>. Intermediate 64-bit values that provably stay far below \<open>2 ^ 63\<close> are integers. The
  normalisation loop of the addition is a partial function whose value \<open>None\<close> stands for not
  returning.
\<close>

section \<open>State\<close>

datatype x86_fpu_value_kind = X86_FPU_VALUE_ZERO | X86_FPU_VALUE_FINITE | X86_FPU_VALUE_INFINITY

record x86_fpu_value =
  fv_kind :: x86_fpu_value_kind
  fv_negative :: bool
  fv_exponent :: lib_i16
  fv_significand :: lib_u32

datatype x86_fpu_tag = X86_FPU_TAG_EMPTY | X86_FPU_TAG_VALID

datatype x86_fpu_profile =
    X86_FPU_PROFILE_NONE | X86_FPU_PROFILE_8087 | X86_FPU_PROFILE_80287 | X86_FPU_PROFILE_80387

datatype x86_fpu_operation =
    X86_FPU_OPERATION_CONSUME_NONE
  | X86_FPU_OPERATION_FNINIT
  | X86_FPU_OPERATION_FLD_M32
  | X86_FPU_OPERATION_FSTP_M32
  | X86_FPU_OPERATION_FLDCW_M16
  | X86_FPU_OPERATION_FADD_ST0_STI
  | X86_FPU_OPERATION_FMUL_ST0_STI
  | X86_FPU_OPERATION_FSUB_ST0_STI
  | X86_FPU_OPERATION_FDIV_ST0_STI
  | X86_FPU_OPERATION_UNSUPPORTED

record x86_fpu_operation_metadata =
  fm_minimum_fpu :: x86_fpu_profile
  fm_operation :: x86_fpu_operation
  fm_valid :: bool

record x86_fpu_state =
  fs_control_word :: lib_u16
  fs_status_word :: lib_u16
  fs_top :: lib_u8
  fs_tags :: "nat \<Rightarrow> x86_fpu_tag"
  fs_pending_unmasked_exception :: bool

datatype x86_fpu_escape_action =
    X86_FPU_ESCAPE_CONSUME_NONE | X86_FPU_ESCAPE_HANDOFF | X86_FPU_ESCAPE_EXECUTE_8087
  | X86_FPU_ESCAPE_UNSUPPORTED

datatype x86_fpu_execute_result = X86_FPU_EXECUTE_COMPLETED | X86_FPU_EXECUTE_UNSUPPORTED

record x86_fpu =
  fp_profile :: x86_fpu_profile
  fp_control_word :: lib_u16
  fp_status_word :: lib_u16
  fp_top :: lib_u8
  fp_tags :: "nat \<Rightarrow> x86_fpu_tag"
  fp_registers :: "nat \<Rightarrow> x86_fpu_value"
  fp_pending_unmasked_exception :: bool
  fp_busy :: bool
  fp_last_escape_opcode :: lib_u8
  fp_last_escape_modrm :: lib_u8
  fp_operation_ticks_min :: lib_u32
  fp_operation_ticks_max :: lib_u32
  fp_completion_remaining_ticks :: lib_u64

abbreviation X86_FPU_CONTROL_DEFAULT :: lib_u16 where "X86_FPU_CONTROL_DEFAULT \<equiv> 0x037f"
abbreviation X86_FPU_CONTROL_EXCEPTION_MASK :: lib_u16 where "X86_FPU_CONTROL_EXCEPTION_MASK \<equiv> 0x003f"
abbreviation X86_FPU_STATUS_IE :: lib_u16 where "X86_FPU_STATUS_IE \<equiv> 0x0001"
abbreviation X86_FPU_STATUS_ZE :: lib_u16 where "X86_FPU_STATUS_ZE \<equiv> 0x0004"
abbreviation X86_FPU_STATUS_SF :: lib_u16 where "X86_FPU_STATUS_SF \<equiv> 0x0040"
abbreviation X86_FPU_STATUS_ES :: lib_u16 where "X86_FPU_STATUS_ES \<equiv> 0x0080"
abbreviation X86_FPU_STATUS_TOP :: lib_u16 where "X86_FPU_STATUS_TOP \<equiv> 0x3800"

section \<open>The register stack\<close>

definition x86_fpu_physical_index :: "x86_fpu \<Rightarrow> lib_u8 \<Rightarrow> lib_u8" where
  "x86_fpu_physical_index fpu logical_index = (fp_top fpu + logical_index) AND 7"

definition x86_fpu_sync_top :: "x86_fpu \<Rightarrow> x86_fpu" where
  "x86_fpu_sync_top fpu = fpu\<lparr>fp_status_word :=
     (fp_status_word fpu AND NOT X86_FPU_STATUS_TOP) OR push_bit 11 (ucast (fp_top fpu))\<rparr>"

definition x86_fpu_raise :: "lib_u16 \<Rightarrow> lib_u16 \<Rightarrow> x86_fpu \<Rightarrow> x86_fpu" where
  "x86_fpu_raise status_bits mask_bits fpu =
     (let fpu = fpu\<lparr>fp_status_word := fp_status_word fpu OR status_bits\<rparr>
      in if fp_control_word fpu AND mask_bits \<noteq> mask_bits
         then fpu\<lparr>fp_status_word := fp_status_word fpu OR X86_FPU_STATUS_ES,
                fp_pending_unmasked_exception := True\<rparr>
         else fpu)"

definition x86_fpu_push :: "x86_fpu_value \<Rightarrow> x86_fpu \<Rightarrow> bool \<times> x86_fpu" where
  "x86_fpu_push v fpu =
     (let index = (fp_top fpu + 7) AND 7
      in if fp_tags fpu (unat index) \<noteq> X86_FPU_TAG_EMPTY
         then (False, x86_fpu_raise (X86_FPU_STATUS_IE OR X86_FPU_STATUS_SF) X86_FPU_STATUS_IE fpu)
         else (True, x86_fpu_sync_top (fpu\<lparr>fp_top := index,
                fp_registers := (fp_registers fpu)(unat index := v),
                fp_tags := (fp_tags fpu)(unat index := X86_FPU_TAG_VALID)\<rparr>)))"

text \<open>\<open>None\<close> is the result 0; otherwise the value and the physical index written back.\<close>

definition x86_fpu_st :: "x86_fpu \<Rightarrow> lib_u8 \<Rightarrow> (x86_fpu_value \<times> lib_u8) option" where
  "x86_fpu_st fpu logical =
     (if logical \<ge> 8 then None
      else let index = x86_fpu_physical_index fpu logical
           in if fp_tags fpu (unat index) = X86_FPU_TAG_EMPTY then None
              else Some (fp_registers fpu (unat index), index))"

definition x86_fpu_stack_fault :: "x86_fpu \<Rightarrow> x86_fpu" where
  "x86_fpu_stack_fault fpu =
     x86_fpu_raise (X86_FPU_STATUS_IE OR X86_FPU_STATUS_SF) X86_FPU_STATUS_IE fpu"

section \<open>Single precision\<close>

definition x86_fpu_decode_m32 :: "lib_u32 \<Rightarrow> x86_fpu_value option" where
  "x86_fpu_decode_m32 bits =
     (let exponent = drop_bit 23 bits AND 0xff; fraction = bits AND 0x007fffff
      in if exponent = 0xff \<or> (exponent = 0 \<and> fraction \<noteq> 0) then None
         else if exponent = 0 then
           Some \<lparr>fv_kind = X86_FPU_VALUE_ZERO, fv_negative = (drop_bit 31 bits \<noteq> 0),
             fv_exponent = 0, fv_significand = 0\<rparr>
         else
           Some \<lparr>fv_kind = X86_FPU_VALUE_FINITE, fv_negative = (drop_bit 31 bits \<noteq> 0),
             fv_exponent = ucast exponent - 127, fv_significand = 0x00800000 OR fraction\<rparr>)"

definition x86_fpu_encode_m32 :: "x86_fpu_value \<Rightarrow> lib_u32 option" where
  "x86_fpu_encode_m32 v =
     (let bits = (if fv_negative v then 0x80000000 else 0);
          exponent = sint (fv_exponent v) + 127
      in case fv_kind v of
           X86_FPU_VALUE_ZERO \<Rightarrow> Some bits
         | X86_FPU_VALUE_INFINITY \<Rightarrow> Some (bits OR 0x7f800000)
         | X86_FPU_VALUE_FINITE \<Rightarrow>
             if exponent \<le> 0 \<or> exponent \<ge> 0xff \<or>
                fv_significand v < 0x00800000 \<or> fv_significand v \<ge> 0x01000000 then None
             else Some (bits OR push_bit 23 (word_of_int exponent) OR
                          (fv_significand v AND 0x007fffff)))"

section \<open>Arithmetic\<close>

text \<open>\<^verbatim>\<open>while (magnitude >= 0x100000000) { magnitude >>= 1; ++exponent; }\<close>\<close>

function fpu_normalise_down :: "lib_u64 \<Rightarrow> lib_i16 \<Rightarrow> lib_u64 \<times> lib_i16" where
  "fpu_normalise_down magnitude exponent =
     (if magnitude \<ge> 0x100000000 then fpu_normalise_down (drop_bit 1 magnitude) (exponent + 1)
      else (magnitude, exponent))"
  by pat_completeness auto
termination
proof (relation "measure (\<lambda>(m, e). unat m)")
  show "((drop_bit 1 m, e + 1), m, e) \<in> measure (\<lambda>(m, e). unat m)"
    if "0x100000000 \<le> m" for m :: lib_u64 and e :: lib_i16
    using that by (simp add: drop_bit_eq_div unat_div word_le_nat_alt)
qed simp

text \<open>\<^verbatim>\<open>while (magnitude < 0x80000000) { magnitude <<= 1; --exponent; }\<close>\<close>

partial_function (option) fpu_normalise_up :: "lib_u64 \<Rightarrow> lib_i16 \<Rightarrow> (lib_u64 \<times> lib_i16) option" where
  "fpu_normalise_up magnitude exponent =
     (if magnitude < 0x80000000 then fpu_normalise_up (push_bit 1 magnitude) (exponent - 1)
      else Some (magnitude, exponent))"

definition fpu_aligned :: "lib_i16 \<Rightarrow> x86_fpu_value \<Rightarrow> int" where
  "fpu_aligned exponent v =
     (let shift = nat (sint exponent - sint (fv_exponent v));
          m = (if shift \<ge> 32 then 0 else drop_bit shift (push_bit 8 (uint (fv_significand v))))
      in if fv_negative v then - m else m)"

text \<open>
  The outer option is \<open>None\<close> when the loop does not return, the inner one when the code
  returns 0.
\<close>

definition x86_fpu_add :: "x86_fpu_value \<Rightarrow> x86_fpu_value \<Rightarrow> x86_fpu_value option option" where
  "x86_fpu_add left right =
     (if fv_kind left = X86_FPU_VALUE_ZERO then Some (Some right)
      else if fv_kind right = X86_FPU_VALUE_ZERO then Some (Some left)
      else if fv_kind left \<noteq> X86_FPU_VALUE_FINITE \<or> fv_kind right \<noteq> X86_FPU_VALUE_FINITE
      then Some None
      else
        let exponent = (if sint (fv_exponent left) \<ge> sint (fv_exponent right)
                        then fv_exponent left else fv_exponent right);
            result = fpu_aligned exponent left + fpu_aligned exponent right
        in if result = 0 then
             Some (Some \<lparr>fv_kind = X86_FPU_VALUE_ZERO, fv_negative = False,
               fv_exponent = 0, fv_significand = 0\<rparr>)
           else
             let (magnitude, exponent) = fpu_normalise_down (word_of_int \<bar>result\<bar>) exponent
             in case fpu_normalise_up magnitude exponent of
                  None \<Rightarrow> None
                | Some (magnitude, exponent) \<Rightarrow>
                    Some (Some \<lparr>fv_kind = X86_FPU_VALUE_FINITE, fv_negative = (result < 0),
                      fv_exponent = exponent, fv_significand = ucast (drop_bit 8 magnitude)\<rparr>))"

definition x86_fpu_multiply :: "x86_fpu_value \<Rightarrow> x86_fpu_value \<Rightarrow> x86_fpu_value option" where
  "x86_fpu_multiply left right =
     (if fv_kind left = X86_FPU_VALUE_ZERO \<or> fv_kind right = X86_FPU_VALUE_ZERO then
        Some \<lparr>fv_kind = X86_FPU_VALUE_ZERO, fv_negative = (fv_negative left \<noteq> fv_negative right),
          fv_exponent = 0, fv_significand = 0\<rparr>
      else if fv_kind left \<noteq> X86_FPU_VALUE_FINITE \<or> fv_kind right \<noteq> X86_FPU_VALUE_FINITE then None
      else
        let product = (ucast (fv_significand left) :: lib_u64) * ucast (fv_significand right);
            shift = (if product \<ge> 0x0000800000000000 then 24 else 23)
        in Some \<lparr>fv_kind = X86_FPU_VALUE_FINITE,
             fv_negative = (fv_negative left \<noteq> fv_negative right),
             fv_exponent = fv_exponent left + fv_exponent right + (if shift = 24 then 1 else 0),
             fv_significand = ucast (drop_bit shift product)\<rparr>)"

definition x86_fpu_divide ::
  "x86_fpu \<Rightarrow> x86_fpu_value \<Rightarrow> x86_fpu_value \<Rightarrow> x86_fpu_value option \<times> x86_fpu" where
  "x86_fpu_divide fpu left right =
     (if fv_kind right = X86_FPU_VALUE_ZERO then
        (Some \<lparr>fv_kind = X86_FPU_VALUE_INFINITY,
           fv_negative = (fv_negative left \<noteq> fv_negative right),
           fv_exponent = 0, fv_significand = 0\<rparr>,
         x86_fpu_raise X86_FPU_STATUS_ZE X86_FPU_STATUS_ZE fpu)
      else if fv_kind left = X86_FPU_VALUE_ZERO then
        (Some \<lparr>fv_kind = X86_FPU_VALUE_ZERO, fv_negative = (fv_negative left \<noteq> fv_negative right),
           fv_exponent = 0, fv_significand = 0\<rparr>, fpu)
      else if fv_kind left \<noteq> X86_FPU_VALUE_FINITE \<or> fv_kind right \<noteq> X86_FPU_VALUE_FINITE
      then (None, fpu)
      else
        let quotient = push_bit 24 (ucast (fv_significand left) :: lib_u64) div
                         ucast (fv_significand right);
            exponent = fv_exponent left - fv_exponent right - 1;
            (quotient, exponent) =
              (if quotient \<ge> 0x01000000 then (drop_bit 1 quotient, exponent + 1)
               else (quotient, exponent))
        in (Some \<lparr>fv_kind = X86_FPU_VALUE_FINITE,
              fv_negative = (fv_negative left \<noteq> fv_negative right),
              fv_exponent = exponent, fv_significand = ucast quotient\<rparr>, fpu))"

section \<open>Operations\<close>

definition fpu_zero_value :: x86_fpu_value where
  "fpu_zero_value = \<lparr>fv_kind = X86_FPU_VALUE_ZERO, fv_negative = False, fv_exponent = 0,
     fv_significand = 0\<rparr>"

fun x86_fpu_reset :: "x86_fpu ptr \<Rightarrow> x86_fpu ptr" where
  "x86_fpu_reset None = None"
| "x86_fpu_reset (Some fpu) = Some (x86_fpu_sync_top (fpu\<lparr>
     fp_control_word := X86_FPU_CONTROL_DEFAULT,
     fp_status_word := 0,
     fp_top := 0,
     fp_pending_unmasked_exception := False,
     fp_busy := False,
     fp_last_escape_opcode := 0,
     fp_last_escape_modrm := 0,
     fp_operation_ticks_min := 0,
     fp_operation_ticks_max := 0,
     fp_completion_remaining_ticks := 0,
     fp_tags := (\<lambda>_. X86_FPU_TAG_EMPTY),
     fp_registers := (\<lambda>_. fpu_zero_value)\<rparr>))"

text \<open>
  The profile argument is a C enumeration, so the code checks its range; \<open>allocated\<close> is the
  outcome of the allocation, which zeroes the object.
\<close>

definition x86_fpu_profile_of :: "int \<Rightarrow> x86_fpu_profile option" where
  "x86_fpu_profile_of n =
     (if n = 0 then Some X86_FPU_PROFILE_NONE else if n = 1 then Some X86_FPU_PROFILE_8087
      else if n = 2 then Some X86_FPU_PROFILE_80287 else if n = 3 then Some X86_FPU_PROFILE_80387
      else None)"

definition zero_fpu :: x86_fpu where
  "zero_fpu = \<lparr>fp_profile = X86_FPU_PROFILE_NONE, fp_control_word = 0, fp_status_word = 0,
     fp_top = 0, fp_tags = (\<lambda>_. X86_FPU_TAG_VALID), fp_registers = (\<lambda>_. fpu_zero_value),
     fp_pending_unmasked_exception = False, fp_busy = False, fp_last_escape_opcode = 0,
     fp_last_escape_modrm = 0, fp_operation_ticks_min = 0, fp_operation_ticks_max = 0,
     fp_completion_remaining_ticks = 0\<rparr>"

fun x86_fpu_create ::
  "int \<Rightarrow> bool \<Rightarrow> x86_fpu ptr ptr \<Rightarrow> lib_status \<times> x86_fpu ptr ptr" where
  "x86_fpu_create profile allocated None = (LIB_STATUS_INVALID_ARGUMENT, None)"
| "x86_fpu_create profile allocated (Some out_fpu) =
     (case x86_fpu_profile_of profile of
        None \<Rightarrow> (LIB_STATUS_INVALID_ARGUMENT, Some None)
      | Some p \<Rightarrow>
          if \<not> allocated then (LIB_STATUS_NO_MEMORY, Some None)
          else (LIB_STATUS_OK, Some (x86_fpu_reset (Some (zero_fpu\<lparr>fp_profile := p\<rparr>)))))"

fun x86_fpu_get_profile :: "x86_fpu ptr \<Rightarrow> x86_fpu_profile" where
  "x86_fpu_get_profile None = X86_FPU_PROFILE_NONE"
| "x86_fpu_get_profile (Some fpu) = fp_profile fpu"

definition x86_fpu_operation_metadata_get :: "lib_u8 \<Rightarrow> lib_u8 \<Rightarrow> x86_fpu_operation_metadata" where
  "x86_fpu_operation_metadata_get escape_opcode modrm =
     (let md = drop_bit 6 modrm; reg = drop_bit 3 modrm AND 7;
          operation =
            (if escape_opcode = 0xdb \<and> modrm = 0xe3 then X86_FPU_OPERATION_FNINIT
             else if escape_opcode = 0xd9 \<and> md \<noteq> 3 \<and> reg = 0 then X86_FPU_OPERATION_FLD_M32
             else if escape_opcode = 0xd9 \<and> md \<noteq> 3 \<and> reg = 3 then X86_FPU_OPERATION_FSTP_M32
             else if escape_opcode = 0xd9 \<and> md \<noteq> 3 \<and> reg = 5 then X86_FPU_OPERATION_FLDCW_M16
             else if escape_opcode = 0xd8 \<and> md = 3 then
               (if reg = 0 then X86_FPU_OPERATION_FADD_ST0_STI
                else if reg = 1 then X86_FPU_OPERATION_FMUL_ST0_STI
                else if reg = 4 then X86_FPU_OPERATION_FSUB_ST0_STI
                else if reg = 6 then X86_FPU_OPERATION_FDIV_ST0_STI
                else X86_FPU_OPERATION_UNSUPPORTED)
             else X86_FPU_OPERATION_UNSUPPORTED)
      in \<lparr>fm_minimum_fpu = X86_FPU_PROFILE_8087, fm_operation = operation,
          fm_valid = (operation \<noteq> X86_FPU_OPERATION_UNSUPPORTED)\<rparr>)"

definition x86_fpu_external_l2_ticks :: "x86_fpu_profile \<Rightarrow> x86_fpu_operation \<Rightarrow> lib_u32" where
  "x86_fpu_external_l2_ticks profile operation =
     (if profile = X86_FPU_PROFILE_80387 then
        (case operation of
           X86_FPU_OPERATION_FNINIT \<Rightarrow> 33
         | X86_FPU_OPERATION_FLD_M32 \<Rightarrow> 14
         | X86_FPU_OPERATION_FSTP_M32 \<Rightarrow> 34
         | X86_FPU_OPERATION_FLDCW_M16 \<Rightarrow> 19
         | X86_FPU_OPERATION_FADD_ST0_STI \<Rightarrow> 19
         | X86_FPU_OPERATION_FMUL_ST0_STI \<Rightarrow> 34
         | X86_FPU_OPERATION_FSUB_ST0_STI \<Rightarrow> 22
         | X86_FPU_OPERATION_FDIV_ST0_STI \<Rightarrow> 79
         | _ \<Rightarrow> 28)
      else
        (case operation of
           X86_FPU_OPERATION_FNINIT \<Rightarrow> 5
         | X86_FPU_OPERATION_FLD_M32 \<Rightarrow> 47
         | X86_FPU_OPERATION_FSTP_M32 \<Rightarrow> 87
         | X86_FPU_OPERATION_FLDCW_M16 \<Rightarrow> 11
         | X86_FPU_OPERATION_FADD_ST0_STI \<Rightarrow> 85
         | X86_FPU_OPERATION_FSUB_ST0_STI \<Rightarrow> 85
         | X86_FPU_OPERATION_FMUL_ST0_STI \<Rightarrow> 117
         | X86_FPU_OPERATION_FDIV_ST0_STI \<Rightarrow> 198
         | _ \<Rightarrow> 85))"

text \<open>The published interval of an 80387 command: its shortest and longest ticks.\<close>

definition fpu_80387_interval :: "x86_fpu_operation \<Rightarrow> lib_u32 \<times> lib_u32" where
  "fpu_80387_interval operation =
     (case operation of
        X86_FPU_OPERATION_FNINIT \<Rightarrow> (33, 33)
      | X86_FPU_OPERATION_FLD_M32 \<Rightarrow> (9, 18)
      | X86_FPU_OPERATION_FSTP_M32 \<Rightarrow> (25, 43)
      | X86_FPU_OPERATION_FLDCW_M16 \<Rightarrow> (19, 19)
      | X86_FPU_OPERATION_FADD_ST0_STI \<Rightarrow> (12, 26)
      | X86_FPU_OPERATION_FMUL_ST0_STI \<Rightarrow> (17, 50)
      | X86_FPU_OPERATION_FSUB_ST0_STI \<Rightarrow> (15, 29)
      | X86_FPU_OPERATION_FDIV_ST0_STI \<Rightarrow> (77, 80)
      | _ \<Rightarrow> (0, 0))"

fun x86_fpu_begin_command :: "x86_fpu ptr \<Rightarrow> lib_u8 \<Rightarrow> lib_u8 \<Rightarrow> x86_fpu ptr" where
  "x86_fpu_begin_command None escape_opcode modrm = None"
| "x86_fpu_begin_command (Some fpu) escape_opcode modrm =
     (let operation = fm_operation (x86_fpu_operation_metadata_get escape_opcode modrm)
      in if fp_profile fpu = X86_FPU_PROFILE_NONE then Some fpu
         else
           let fpu = fpu\<lparr>fp_busy := True, fp_last_escape_opcode := escape_opcode,
                 fp_last_escape_modrm := modrm, fp_operation_ticks_min := 0,
                 fp_operation_ticks_max := 0,
                 fp_completion_remaining_ticks :=
                   ucast (x86_fpu_external_l2_ticks (fp_profile fpu) operation)\<rparr>
           in if fp_profile fpu \<noteq> X86_FPU_PROFILE_80387 then Some fpu
              else Some (fpu\<lparr>fp_operation_ticks_min := fst (fpu_80387_interval operation),
                     fp_operation_ticks_max := snd (fpu_80387_interval operation)\<rparr>))"

definition x86_fpu_escape_dispatch :: "x86_fpu ptr \<Rightarrow> lib_u8 \<Rightarrow> lib_u8 \<Rightarrow> x86_fpu_escape_action" where
  "x86_fpu_escape_dispatch fpu escape_opcode modrm =
     (if escape_opcode < 0xd8 \<or> escape_opcode > 0xdf then X86_FPU_ESCAPE_UNSUPPORTED
      else case fpu of
             None \<Rightarrow> X86_FPU_ESCAPE_CONSUME_NONE
           | Some f \<Rightarrow>
               if fp_profile f = X86_FPU_PROFILE_NONE then X86_FPU_ESCAPE_CONSUME_NONE
               else if fp_profile f = X86_FPU_PROFILE_8087 \<and>
                       fm_valid (x86_fpu_operation_metadata_get escape_opcode modrm)
               then X86_FPU_ESCAPE_EXECUTE_8087 else X86_FPU_ESCAPE_HANDOFF)"

definition fpu_elapse :: "lib_u64 \<Rightarrow> x86_fpu \<Rightarrow> x86_fpu" where
  "fpu_elapse elapsed_ticks fpu =
     (if \<not> fp_busy fpu \<or> elapsed_ticks = 0 then fpu
      else if elapsed_ticks \<ge> fp_completion_remaining_ticks fpu
      then fpu\<lparr>fp_busy := False, fp_completion_remaining_ticks := 0\<rparr>
      else fpu\<lparr>fp_completion_remaining_ticks :=
             fp_completion_remaining_ticks fpu - elapsed_ticks\<rparr>)"

definition x86_fpu_advance :: "x86_fpu ptr \<Rightarrow> lib_u64 \<Rightarrow> x86_fpu ptr" where
  "x86_fpu_advance fpu elapsed_ticks = map_option (fpu_elapse elapsed_ticks) fpu"

fun x86_fpu_ticks_until_completion ::
  "x86_fpu ptr \<Rightarrow> lib_u64 ptr \<Rightarrow> lib_status \<times> lib_u64 ptr" where
  "x86_fpu_ticks_until_completion (Some fpu) (Some out_ticks) =
     (if \<not> fp_busy fpu \<or> fp_completion_remaining_ticks fpu = 0
      then (LIB_STATUS_INVALID_STATE, Some out_ticks)
      else (LIB_STATUS_OK, Some (fp_completion_remaining_ticks fpu)))"
| "x86_fpu_ticks_until_completion _ out_ticks = (LIB_STATUS_INVALID_STATE, out_ticks)"

fun x86_fpu_get_state :: "x86_fpu ptr \<Rightarrow> x86_fpu_state ptr \<Rightarrow> x86_fpu_state ptr" where
  "x86_fpu_get_state (Some fpu) (Some out_state) = Some \<lparr>
     fs_control_word = fp_control_word fpu, fs_status_word = fp_status_word fpu,
     fs_top = fp_top fpu, fs_tags = fp_tags fpu,
     fs_pending_unmasked_exception = fp_pending_unmasked_exception fpu\<rparr>"
| "x86_fpu_get_state _ out_state = out_state"

definition x86_fpu_load_m32 :: "x86_fpu ptr \<Rightarrow> lib_u32 \<Rightarrow> x86_fpu_execute_result \<times> x86_fpu ptr" where
  "x86_fpu_load_m32 fpu bits =
     (case fpu of
        None \<Rightarrow> (X86_FPU_EXECUTE_UNSUPPORTED, None)
      | Some f \<Rightarrow>
          (case x86_fpu_decode_m32 bits of
             None \<Rightarrow> (X86_FPU_EXECUTE_UNSUPPORTED, fpu)
           | Some v \<Rightarrow> (X86_FPU_EXECUTE_COMPLETED, Some (snd (x86_fpu_push v f)))))"

fun x86_fpu_store_m32 ::
  "x86_fpu ptr \<Rightarrow> lib_u32 ptr \<Rightarrow> x86_fpu_execute_result \<times> x86_fpu ptr \<times> lib_u32 ptr" where
  "x86_fpu_store_m32 None out_bits =
     (X86_FPU_EXECUTE_COMPLETED, None, map_option (\<lambda>_. 0) out_bits)"
| "x86_fpu_store_m32 (Some fpu) None =
     (X86_FPU_EXECUTE_COMPLETED, Some (x86_fpu_stack_fault fpu), None)"
| "x86_fpu_store_m32 (Some fpu) (Some out_bits) =
     (case x86_fpu_st fpu 0 of
        None \<Rightarrow> (X86_FPU_EXECUTE_COMPLETED, Some (x86_fpu_stack_fault fpu), Some 0)
      | Some (v, index) \<Rightarrow>
          (case x86_fpu_encode_m32 v of
             None \<Rightarrow> (X86_FPU_EXECUTE_UNSUPPORTED, Some fpu, Some out_bits)
           | Some bits \<Rightarrow>
               (X86_FPU_EXECUTE_COMPLETED,
                Some (x86_fpu_sync_top (fpu\<lparr>
                  fp_tags := (fp_tags fpu)(unat index := X86_FPU_TAG_EMPTY),
                  fp_top := (fp_top fpu + 1) AND 7\<rparr>)),
                Some bits)))"

fun x86_fpu_load_control_word :: "x86_fpu ptr \<Rightarrow> lib_u16 \<Rightarrow> x86_fpu ptr" where
  "x86_fpu_load_control_word None control_word = None"
| "x86_fpu_load_control_word (Some fpu) control_word =
     (let fpu = fpu\<lparr>fp_control_word := (control_word AND X86_FPU_CONTROL_EXCEPTION_MASK) OR
            (X86_FPU_CONTROL_DEFAULT AND NOT X86_FPU_CONTROL_EXCEPTION_MASK)\<rparr>;
          flags = fp_status_word fpu AND X86_FPU_CONTROL_EXCEPTION_MASK
      in if fp_status_word fpu AND X86_FPU_STATUS_ES \<noteq> 0 \<and> fp_control_word fpu AND flags \<noteq> flags
         then Some (fpu\<lparr>fp_pending_unmasked_exception := True\<rparr>) else Some fpu)"

text \<open>
  The result of the arithmetic for an operation code: \<open>None\<close> when the addition does not
  return; otherwise the value, if the code completed it, and the coprocessor.
\<close>

definition fpu_binary_result ::
  "x86_fpu \<Rightarrow> x86_fpu_operation \<Rightarrow> x86_fpu_value \<Rightarrow> x86_fpu_value \<Rightarrow>
     (x86_fpu_value option \<times> x86_fpu) option" where
  "fpu_binary_result fpu operation left right =
     (if operation = X86_FPU_OPERATION_FSUB_ST0_STI then
        map_option (\<lambda>r. (r, fpu)) (x86_fpu_add left (right\<lparr>fv_negative := \<not> fv_negative right\<rparr>))
      else if operation = X86_FPU_OPERATION_FADD_ST0_STI then
        map_option (\<lambda>r. (r, fpu)) (x86_fpu_add left right)
      else if operation = X86_FPU_OPERATION_FMUL_ST0_STI then Some (x86_fpu_multiply left right, fpu)
      else if operation = X86_FPU_OPERATION_FDIV_ST0_STI then Some (x86_fpu_divide fpu left right)
      else Some (None, fpu))"

fun x86_fpu_binary_st0_sti ::
  "x86_fpu ptr \<Rightarrow> x86_fpu_operation \<Rightarrow> lib_u8 \<Rightarrow> (x86_fpu_execute_result \<times> x86_fpu ptr) option" where
  "x86_fpu_binary_st0_sti None operation index = Some (X86_FPU_EXECUTE_COMPLETED, None)"
| "x86_fpu_binary_st0_sti (Some fpu) operation index =
     (case x86_fpu_st fpu 0 of
        None \<Rightarrow> Some (X86_FPU_EXECUTE_COMPLETED, Some (x86_fpu_stack_fault fpu))
      | Some (left, destination) \<Rightarrow>
          (case x86_fpu_st fpu index of
             None \<Rightarrow> Some (X86_FPU_EXECUTE_COMPLETED, Some (x86_fpu_stack_fault fpu))
           | Some (right, _) \<Rightarrow>
               (case fpu_binary_result fpu operation left right of
                  None \<Rightarrow> None
                | Some (None, fpu) \<Rightarrow> Some (X86_FPU_EXECUTE_UNSUPPORTED, Some fpu)
                | Some (Some result, fpu) \<Rightarrow>
                    Some (X86_FPU_EXECUTE_COMPLETED, Some (fpu\<lparr>fp_registers :=
                      (fp_registers fpu)(unat destination := result)\<rparr>)))))"

fun x86_fpu_wait_pending :: "x86_fpu ptr \<Rightarrow> bool" where
  "x86_fpu_wait_pending None = False"
| "x86_fpu_wait_pending (Some fpu) = fp_pending_unmasked_exception fpu"

end
