(* ===== verification/Fpu_Arith.thy ===== *)
theory Fpu_Arith
  imports Fpu
begin

unbundle bit_operations_syntax

text \<open>
  What the arithmetic of theory \<open>Fpu\<close> computes: the real number a register value stands for,
  truncation of products and quotients, the normalisation loops of the addition and its error
  bound.
\<close>

section \<open>The numbers the register values stand for\<close>

definition fpu_magnitude :: "x86_fpu_value \<Rightarrow> real" where
  "fpu_magnitude v =
     (if fv_kind v = X86_FPU_VALUE_FINITE
      then real (unat (fv_significand v)) * 2 powi (sint (fv_exponent v) - 23) else 0)"

definition fpu_real :: "x86_fpu_value \<Rightarrow> real" where
  "fpu_real v = (if fv_negative v then - fpu_magnitude v else fpu_magnitude v)"

definition fpu_ulp :: "x86_fpu_value \<Rightarrow> real" where
  "fpu_ulp v = 2 powi (sint (fv_exponent v) - 23)"

text \<open>A finite value is kept with its leading bit at position 23.\<close>

definition fpu_normal :: "x86_fpu_value \<Rightarrow> bool" where
  "fpu_normal v \<longleftrightarrow>
     (fv_kind v = X86_FPU_VALUE_FINITE \<longrightarrow> 0x800000 \<le> unat (fv_significand v) \<and>
        unat (fv_significand v) < 0x1000000)"

text \<open>Exponents this small cannot wrap in one operation.\<close>

definition fpu_in_range :: "x86_fpu_value \<Rightarrow> bool" where
  "fpu_in_range v \<longleftrightarrow> \<bar>sint (fv_exponent v)\<bar> \<le> 16000"

definition fpu_finite :: "x86_fpu_value \<Rightarrow> bool" where
  "fpu_finite v \<longleftrightarrow> fv_kind v = X86_FPU_VALUE_FINITE \<and> fpu_normal v \<and> fpu_in_range v"

lemma powi_two_pos [simp]: "0 < (2::real) powi n"
  by (simp add: zero_less_power_int)

lemma powi_two_add: "(2::real) powi (m + n) = 2 powi m * 2 powi n"
  by (simp add: power_int_add)

lemma sint_i16: "- 32768 \<le> n \<Longrightarrow> n < 32768 \<Longrightarrow> sint (word_of_int n :: 16 word) = n"
  by (simp add: sint_sbintrunc' signed_take_bit_int_eq_self)

lemma sint_i16_add:
  fixes a b :: lib_i16
  shows "- 32768 \<le> sint a + sint b \<Longrightarrow> sint a + sint b < 32768 \<Longrightarrow> sint (a + b) = sint a + sint b"
  using sint_i16 [of "sint a + sint b"] by simp

lemma sint_i16_diff:
  fixes a b :: lib_i16
  shows "- 32768 \<le> sint a - sint b \<Longrightarrow> sint a - sint b < 32768 \<Longrightarrow> sint (a - b) = sint a - sint b"
  using sint_i16 [of "sint a - sint b"] by simp

text \<open>Dropping low digits of a significand keeps a lower bound that is off by less than one unit.\<close>

lemma floor_scaled:
  fixes x :: real
  assumes "real d \<le> x" and "x < real d + 1"
  shows "real d * 2 powi E \<le> x * 2 powi E" and "x * 2 powi E < real d * 2 powi E + 2 powi E"
proof -
  show "real d * 2 powi E \<le> x * 2 powi E"
    using assms by simp
  have "x * 2 powi E < (real d + 1) * 2 powi E"
    using assms by simp
  then show "x * 2 powi E < real d * 2 powi E + 2 powi E"
    by (simp add: algebra_simps)
qed

lemma div_floor:
  assumes "0 < (b::nat)"
  shows "real (a div b) \<le> real a / real b" and "real a / real b < real (a div b) + 1"
proof -
  have "a div b * b \<le> a" by simp
  then have "real (a div b) * real b \<le> real a" by (metis of_nat_le_iff of_nat_mult)
  then show "real (a div b) \<le> real a / real b" using assms by (simp add: le_divide_eq)
  have "a < (a div b + 1) * b" using assms by (simp add: dividend_less_div_times)
  then have "real a < (real (a div b) + 1) * real b"
    by (metis of_nat_1 of_nat_add of_nat_less_iff of_nat_mult)
  then show "real a / real b < real (a div b) + 1" using assms by (simp add: divide_less_eq)
qed

lemma unat_ucast_small:
  fixes x :: "'a::len word"
  shows "unat x < 2 ^ LENGTH('b::len) \<Longrightarrow> unat (ucast x :: 'b word) = unat x"
  by (simp add: unsigned_ucast_eq take_bit_nat_eq_self)

lemma unat_drop_div: "unat (drop_bit n (w :: 'a::len word)) = unat w div 2 ^ n"
  by (simp only: unat_drop_bit_eq) (simp only: drop_bit_eq_div)

section \<open>Multiplication and division truncate\<close>

definition fpu_chops :: "x86_fpu_value \<Rightarrow> bool \<Rightarrow> real \<Rightarrow> bool" where
  "fpu_chops v negative exact \<longleftrightarrow>
     fv_kind v = X86_FPU_VALUE_FINITE \<and> fpu_normal v \<and> fv_negative v = negative \<and>
     fpu_magnitude v \<le> exact \<and> exact < fpu_magnitude v + fpu_ulp v"

text \<open>The significand of a product needs no bound on the exponents.\<close>

lemma fpu_multiply_significand:
  assumes kl: "fv_kind l = X86_FPU_VALUE_FINITE" and kr: "fv_kind r = X86_FPU_VALUE_FINITE"
    and "fpu_normal l" and "fpu_normal r"
  shows "\<exists>v s. x86_fpu_multiply l r = Some v \<and> (s = 23 \<or> s = 24) \<and>
    fv_kind v = X86_FPU_VALUE_FINITE \<and> fv_negative v = (fv_negative l \<noteq> fv_negative r) \<and>
    fv_exponent v = fv_exponent l + fv_exponent r + (if s = 24 then 1 else 0) \<and>
    unat (fv_significand v) = unat (fv_significand l) * unat (fv_significand r) div 2 ^ s \<and>
    fpu_normal v"
proof -
  define a b where "a = unat (fv_significand l)" and "b = unat (fv_significand r)"
  have a: "0x800000 \<le> a" "a < 0x1000000" and b: "0x800000 \<le> b" "b < 0x1000000"
    using assms by (auto simp: fpu_normal_def a_def b_def)
  define product where "product = (ucast (fv_significand l) :: lib_u64) * ucast (fv_significand r)"
  have lo: "0x400000000000 \<le> a * b" using mult_le_mono [OF a(1) b(1)] by simp
  have hi: "a * b < 0x1000000000000"
    using mult_strict_mono [OF a(2) b(2)] b by simp
  have product: "unat product = a * b"
    using hi by (simp add: product_def a_def b_def unat_word_ariths unat_ucast_up)
  define s :: nat where "s = (if product \<ge> 0x0000800000000000 then 24 else 23)"
  have s: "a * b div 2 ^ s < 0x1000000" "0x800000 \<le> a * b div 2 ^ s" "s = 23 \<or> s = 24"
    using lo hi by (auto simp: s_def word_le_nat_alt product)
  define v where "v = \<lparr>fv_kind = X86_FPU_VALUE_FINITE,
     fv_negative = (fv_negative l \<noteq> fv_negative r),
     fv_exponent = fv_exponent l + fv_exponent r + (if s = 24 then 1 else 0),
     fv_significand = ucast (drop_bit s product)\<rparr>"
  have "x86_fpu_multiply l r = Some v"
    by (simp add: x86_fpu_multiply_def kl kr v_def s_def product_def Let_def)
  moreover have "unat (fv_significand v) = a * b div 2 ^ s"
    using s(1) unat_drop_div [of s product] unat_ucast_small [of "drop_bit s product", where 'b = 32]
    by (simp add: v_def product)
  ultimately show ?thesis
    using s by (intro exI [of _ v] exI [of _ s]) (auto simp: v_def a_def b_def fpu_normal_def)
qed

lemma fpu_multiply_chops:
  assumes l: "fpu_finite l" and r: "fpu_finite r"
  shows "\<exists>v. x86_fpu_multiply l r = Some v \<and>
    fpu_chops v (fv_negative l \<noteq> fv_negative r) (fpu_magnitude l * fpu_magnitude r)"
proof -
  define a b where "a = unat (fv_significand l)" and "b = unat (fv_significand r)"
  have kl: "fv_kind l = X86_FPU_VALUE_FINITE" and kr: "fv_kind r = X86_FPU_VALUE_FINITE"
    and range: "\<bar>sint (fv_exponent l)\<bar> \<le> 16000" "\<bar>sint (fv_exponent r)\<bar> \<le> 16000"
    using l r by (auto simp: fpu_finite_def fpu_in_range_def)
  obtain v s where mult: "x86_fpu_multiply l r = Some v" and s: "s = 23 \<or> s = 24"
    and v: "fv_kind v = X86_FPU_VALUE_FINITE" "fv_negative v = (fv_negative l \<noteq> fv_negative r)"
      "fv_exponent v = fv_exponent l + fv_exponent r + (if s = 24 then 1 else 0)"
      "unat (fv_significand v) = a * b div 2 ^ s" "fpu_normal v"
    using fpu_multiply_significand [OF kl kr] l r by (auto simp: fpu_finite_def a_def b_def)
  have "sint (fv_exponent l + fv_exponent r) = sint (fv_exponent l) + sint (fv_exponent r)"
    by (rule sint_i16_add) (use range in auto)
  then have e: "sint (fv_exponent v) = sint (fv_exponent l) + sint (fv_exponent r) + (int s - 23)"
    using range s sint_i16_add [of "fv_exponent l + fv_exponent r" 1] by (auto simp: v(3))
  define E where "E = sint (fv_exponent v) - 23"
  have "fpu_magnitude l * fpu_magnitude r =
      real (a * b) * (2 powi (sint (fv_exponent l) - 23) * 2 powi (sint (fv_exponent r) - 23))"
    by (simp add: fpu_magnitude_def kl kr a_def b_def)
  also have "\<dots> = real (a * b) * 2 powi (E + - int s)"
    by (simp only: powi_two_add [symmetric]) (simp add: E_def e algebra_simps)
  also have "\<dots> = real (a * b) / real (2 ^ s) * 2 powi E"
    by (simp only: powi_two_add) (simp add: power_int_minus divide_inverse)
  finally have exact: "fpu_magnitude l * fpu_magnitude r = real (a * b) / real (2 ^ s) * 2 powi E" .
  have mag: "fpu_magnitude v = real (a * b div 2 ^ s) * 2 powi E"
    by (simp add: fpu_magnitude_def v E_def)
  have "fpu_chops v (fv_negative l \<noteq> fv_negative r) (fpu_magnitude l * fpu_magnitude r)"
    using floor_scaled [OF div_floor(1) div_floor(2), of "2 ^ s" "a * b" E] v
    unfolding fpu_chops_def exact mag fpu_ulp_def E_def by simp
  with mult show ?thesis by blast
qed

lemma fpu_divide_significand:
  assumes kl: "fv_kind l = X86_FPU_VALUE_FINITE" and kr: "fv_kind r = X86_FPU_VALUE_FINITE"
    and "fpu_normal l" and "fpu_normal r"
  shows "\<exists>v s. x86_fpu_divide fpu l r = (Some v, fpu) \<and> (s = 0 \<or> s = 1) \<and>
    fv_kind v = X86_FPU_VALUE_FINITE \<and> fv_negative v = (fv_negative l \<noteq> fv_negative r) \<and>
    fv_exponent v = fv_exponent l - fv_exponent r - 1 + of_nat s \<and>
    unat (fv_significand v) =
      unat (fv_significand l) * 2 ^ 24 div (unat (fv_significand r) * 2 ^ s) \<and>
    fpu_normal v"
proof -
  define a b where "a = unat (fv_significand l)" and "b = unat (fv_significand r)"
  have a: "0x800000 \<le> a" "a < 0x1000000" and b: "0x800000 \<le> b" "b < 0x1000000"
    using assms by (auto simp: fpu_normal_def a_def b_def)
  define quotient where
    "quotient = push_bit 24 (ucast (fv_significand l) :: lib_u64) div ucast (fv_significand r)"
  have "unat (push_bit 24 (ucast (fv_significand l) :: lib_u64)) = a * 2 ^ 24"
    using a by (simp add: push_bit_eq_mult unat_word_ariths unat_ucast_up a_def)
  then have quotient: "unat quotient = a * 2 ^ 24 div b"
    by (simp add: quotient_def unat_div unat_ucast_up b_def)
  define s :: nat where "s = (if quotient \<ge> 0x01000000 then 1 else 0)"
  have lo: "0x800000 \<le> a * 2 ^ 24 div b" and hi: "a * 2 ^ 24 div b < 0x2000000"
    using a b by (auto simp: less_eq_div_iff_mult_less_eq div_less_iff_less_mult)
  have s: "a * 2 ^ 24 div b div 2 ^ s < 0x1000000" "0x800000 \<le> a * 2 ^ 24 div b div 2 ^ s"
    using lo hi by (auto simp: s_def word_le_nat_alt quotient)
  define v where "v = \<lparr>fv_kind = X86_FPU_VALUE_FINITE,
     fv_negative = (fv_negative l \<noteq> fv_negative r),
     fv_exponent = fv_exponent l - fv_exponent r - 1 + of_nat s,
     fv_significand = ucast (drop_bit s quotient)\<rparr>"
  have "x86_fpu_divide fpu l r = (Some v, fpu)"
    by (simp add: x86_fpu_divide_def kl kr v_def s_def quotient_def Let_def)
  moreover have "unat (fv_significand v) = a * 2 ^ 24 div (b * 2 ^ s)"
    using s(1) unat_drop_div [of s quotient] unat_ucast_small [of "drop_bit s quotient", where 'b = 32]
    by (simp add: v_def quotient div_mult2_eq)
  ultimately show ?thesis
    using s by (intro exI [of _ v] exI [of _ s])
      (auto simp: v_def a_def b_def fpu_normal_def div_mult2_eq s_def)
qed

lemma fpu_divide_chops:
  assumes l: "fpu_finite l" and r: "fpu_finite r"
  shows "\<exists>v. x86_fpu_divide fpu l r = (Some v, fpu) \<and>
    fpu_chops v (fv_negative l \<noteq> fv_negative r) (fpu_magnitude l / fpu_magnitude r)"
proof -
  define a b where "a = unat (fv_significand l)" and "b = unat (fv_significand r)"
  have b: "0 < b" and kl: "fv_kind l = X86_FPU_VALUE_FINITE" and kr: "fv_kind r = X86_FPU_VALUE_FINITE"
    and range: "\<bar>sint (fv_exponent l)\<bar> \<le> 16000" "\<bar>sint (fv_exponent r)\<bar> \<le> 16000"
    using l r by (auto simp: fpu_finite_def fpu_in_range_def fpu_normal_def b_def)
  obtain v s where divide: "x86_fpu_divide fpu l r = (Some v, fpu)" and s: "s = 0 \<or> s = 1"
    and v: "fv_kind v = X86_FPU_VALUE_FINITE" "fv_negative v = (fv_negative l \<noteq> fv_negative r)"
      "fv_exponent v = fv_exponent l - fv_exponent r - 1 + of_nat s"
      "unat (fv_significand v) = a * 2 ^ 24 div (b * 2 ^ s)" "fpu_normal v"
    using fpu_divide_significand [OF kl kr, of fpu] l r
    unfolding fpu_finite_def a_def b_def by blast
  have "sint (fv_exponent l - fv_exponent r) = sint (fv_exponent l) - sint (fv_exponent r)"
    by (rule sint_i16_diff) (use range in auto)
  then have "sint (fv_exponent l - fv_exponent r - 1) =
      sint (fv_exponent l) - sint (fv_exponent r) - 1"
    using range sint_i16_diff [of "fv_exponent l - fv_exponent r" 1] by auto
  then have e: "sint (fv_exponent v) = sint (fv_exponent l) - sint (fv_exponent r) - 1 + int s"
    using s range sint_i16_add [of "fv_exponent l - fv_exponent r - 1" 1] by (auto simp: v(3))
  define E where "E = sint (fv_exponent v) - 23"
  have "fpu_magnitude l / fpu_magnitude r =
      real a / real b * (2 powi (sint (fv_exponent l) - 23) / 2 powi (sint (fv_exponent r) - 23))"
    by (simp add: fpu_magnitude_def kl kr a_def b_def)
  also have "\<dots> = real a / real b * 2 powi (E + (24 - int s))"
    by (simp add: power_int_diff [symmetric] E_def e)
  also have "\<dots> = real a / real b * (2 ^ 24 / 2 ^ s) * 2 powi E"
    by (simp add: powi_two_add power_int_diff)
  also have "\<dots> = real (a * 2 ^ 24) / real (b * 2 ^ s) * 2 powi E"
    by simp
  finally have exact: "fpu_magnitude l / fpu_magnitude r =
      real (a * 2 ^ 24) / real (b * 2 ^ s) * 2 powi E" .
  have mag: "fpu_magnitude v = real (a * 2 ^ 24 div (b * 2 ^ s)) * 2 powi E"
    by (simp add: fpu_magnitude_def v E_def)
  have "fpu_chops v (fv_negative l \<noteq> fv_negative r) (fpu_magnitude l / fpu_magnitude r)"
    using floor_scaled [OF div_floor(1) div_floor(2), of "b * 2 ^ s" "a * 2 ^ 24" E] v b
    unfolding fpu_chops_def exact mag fpu_ulp_def E_def by simp
  with divide show ?thesis by blast
qed

section \<open>Normalisation\<close>

declare fpu_normalise_down.simps [simp del]

lemma fpu_normalise_down_result:
  assumes "m < 0x200000000"
  shows "fpu_normalise_down m e =
    (if m \<ge> 0x100000000 then (drop_bit 1 m, e + 1) else (m, e))"
proof -
  define h where "h = drop_bit (Suc 0) m"
  have "h < 0x100000000"
    using assms by (simp only: word_less_nat_alt unat_drop_div h_def) simp
  then have "fpu_normalise_down h e' = (h, e')" for e'
    by (subst fpu_normalise_down.simps) (simp add: not_le [symmetric])
  then show ?thesis
    by (simp add: fpu_normalise_down.simps [of m] h_def [symmetric])
qed

text \<open>From any nonzero magnitude the loop returns after as many shifts as it has leading zeros.\<close>

lemma fpu_normalise_up_returns:
  assumes "0 < unat m" and "unat m < 2 ^ 32"
  shows "\<exists>k \<le> 31. fpu_normalise_up m e = Some (push_bit k m, e - of_nat k) \<and>
    2 ^ 31 \<le> unat m * 2 ^ k \<and> unat m * 2 ^ k < 2 ^ 32"
proof -
  have "unat m * 2 ^ j \<ge> 2 ^ 31 \<Longrightarrow> 0 < unat m \<Longrightarrow> unat m < 2 ^ 32 \<Longrightarrow>
      \<exists>k \<le> j. fpu_normalise_up m e = Some (push_bit k m, e - of_nat k) \<and>
        2 ^ 31 \<le> unat m * 2 ^ k \<and> unat m * 2 ^ k < 2 ^ 32" for j
  proof (induction j arbitrary: m e)
    case 0
    then have "\<not> m < 0x80000000" by (simp add: word_less_nat_alt)
    then have "fpu_normalise_up m e = Some (push_bit 0 m, e - of_nat 0)"
      by (subst fpu_normalise_up.simps) simp
    with 0 show ?case by (intro exI [of _ 0]) simp
  next
    case (Suc j)
    show ?case
    proof (cases "m < 0x80000000")
      case False
      then have "2 ^ 31 \<le> unat m" by (simp add: word_less_nat_alt)
      moreover have "fpu_normalise_up m e = Some (push_bit 0 m, e - of_nat 0)"
        using False by (subst fpu_normalise_up.simps) simp
      ultimately show ?thesis using Suc.prems by (intro exI [of _ 0]) simp
    next
      case True
      then have small: "unat m < 2 ^ 31" by (simp add: word_less_nat_alt)
      define m2 where "m2 = push_bit 1 m"
      have double: "unat m2 = unat m * 2"
        using small by (simp add: m2_def push_bit_eq_mult unat_word_ariths)
      obtain k where "k \<le> j"
        and k: "fpu_normalise_up m2 (e - 1) = Some (push_bit k m2, e - 1 - of_nat k)"
          "2 ^ 31 \<le> unat m2 * 2 ^ k" "unat m2 * 2 ^ k < 2 ^ 32"
        using Suc.IH [of m2 "e - 1"] Suc.prems small by (auto simp: double)
      have "fpu_normalise_up m e = fpu_normalise_up m2 (e - 1)"
        using True by (subst fpu_normalise_up.simps) (simp add: m2_def)
      moreover have "push_bit k m2 = push_bit (Suc k) m"
        by (simp add: m2_def)
      ultimately have "fpu_normalise_up m e = Some (push_bit (Suc k) m, e - of_nat (Suc k))"
        using k(1) by (simp add: algebra_simps)
      with k(2,3) \<open>k \<le> j\<close> show ?thesis
        by (intro exI [of _ "Suc k"]) (simp add: double mult.assoc)
    qed
  qed
  from this [of 31] assms show ?thesis by simp
qed

section \<open>Addition is accurate to two units in the last place\<close>

text \<open>
  An operand aligned to the larger exponent \<open>E\<close>, in units of \<open>2 powi (E - 31)\<close>: its
  magnitude \<open>a\<close> is the truncation of the exact value \<open>x\<close>.
\<close>

definition fpu_unit :: "lib_i16 \<Rightarrow> real" where
  "fpu_unit e = 2 powi (sint e - 31)"

definition aligned_ok :: "nat \<Rightarrow> real \<Rightarrow> nat \<Rightarrow> bool" where
  "aligned_ok a x shift \<longleftrightarrow>
     real a \<le> x \<and> x < real a + 1 \<and> a < 2 ^ 32 \<and> (shift \<le> 8 \<longrightarrow> x = real a) \<and>
     (shift = 0 \<longrightarrow> 2 ^ 31 \<le> a) \<and> (8 < shift \<longrightarrow> a < 2 ^ 23)"

lemma fpu_aligned_ok:
  assumes v: "fpu_finite v" and e: "sint (fv_exponent v) \<le> sint e"
  shows "\<exists>a x. aligned_ok a x (nat (sint e - sint (fv_exponent v))) \<and>
    fpu_aligned e v = (if fv_negative v then - int a else int a) \<and>
    fpu_real v = (if fv_negative v then - x else x) * fpu_unit e"
proof -
  define sig d where "sig = unat (fv_significand v)"
    and "d = nat (sint e - sint (fv_exponent v))"
  define a where "a = sig * 2 ^ 8 div 2 ^ d"
  define x where "x = real (sig * 2 ^ 8) / real (2 ^ d)"
  have sig: "2 ^ 23 \<le> sig" "sig < 2 ^ 24" and kind: "fv_kind v = X86_FPU_VALUE_FINITE"
    using v by (auto simp: fpu_finite_def fpu_normal_def sig_def)
  have big: "a = 0" if "32 \<le> d"
  proof -
    have "(2::nat) ^ 32 \<le> 2 ^ d" using that by (rule power_increasing) simp
    moreover have "sig * 2 ^ 8 < 2 ^ 32" using sig by simp
    ultimately have "sig * 2 ^ 8 < 2 ^ d" by (rule less_le_trans [rotated])
    then show ?thesis unfolding a_def by (rule div_less)
  qed
  have small: "a < 2 ^ 23" if "8 < d"
  proof -
    have "(2::nat) ^ 9 \<le> 2 ^ d" using that by (intro power_increasing) auto
    then have "a \<le> sig * 2 ^ 8 div 2 ^ 9" unfolding a_def by (intro div_le_mono2) auto
    then show ?thesis using sig by simp
  qed
  have exact: "x = real a" if "d \<le> 8"
  proof -
    have "(2::nat) ^ d dvd 2 ^ 8" using that by (rule le_imp_power_dvd)
    then have "2 ^ d dvd sig * 2 ^ 8" by (rule dvd_mult)
    then show ?thesis unfolding x_def a_def by (simp only: real_of_nat_div)
  qed
  have "a \<le> sig * 2 ^ 8" by (simp add: a_def)
  then have "a < 2 ^ 32" using sig by simp
  then have "aligned_ok a x d"
    using div_floor [of "2 ^ d" "sig * 2 ^ 8"] sig small exact
    by (auto simp: aligned_ok_def x_def a_def)
  moreover have "fpu_aligned e v = (if fv_negative v then - int a else int a)"
  proof (cases "d \<ge> 32")
    case True
    then show ?thesis using big by (simp add: fpu_aligned_def d_def Let_def)
  next
    case False
    have "int a = drop_bit d (push_bit 8 (uint (fv_significand v)))"
      by (simp add: a_def sig_def drop_bit_eq_div push_bit_eq_mult zdiv_int)
    then show ?thesis using False by (simp add: fpu_aligned_def d_def Let_def)
  qed
  moreover have "fpu_magnitude v = x * fpu_unit e"
  proof -
    have "sint (fv_exponent v) - 23 = sint e - 31 + (8 - int d)"
      using e by (simp add: d_def)
    then have "2 powi (sint (fv_exponent v) - 23) = fpu_unit e * (2 ^ 8 / 2 ^ d)"
      by (simp add: fpu_unit_def powi_two_add power_int_diff)
    then show ?thesis by (simp add: fpu_magnitude_def kind x_def sig_def)
  qed
  ultimately show ?thesis by (auto simp: fpu_real_def d_def)
qed

lemma fpu_aligned_sum:
  assumes "aligned_ok a x dl" and "aligned_ok b y dr" and "dl = 0 \<or> dr = 0"
    and R: "R = (if nl then - int a else int a) + (if nr then - int b else int b)"
    and X: "X = (if nl then - x else x) + (if nr then - y else (y::real))"
  shows "\<bar>R\<bar> < 2 ^ 33" and "\<bar>real_of_int R - X\<bar> < 1" and "\<bar>R\<bar> < 2 ^ 30 \<longrightarrow> X = real_of_int R"
proof -
  have a: "real a \<le> x" "x < real a + 1" "a < 2 ^ 32" "dl \<le> 8 \<longrightarrow> x = real a"
      "dl = 0 \<longrightarrow> 2 ^ 31 \<le> a" "8 < dl \<longrightarrow> a < 2 ^ 23"
    and b: "real b \<le> y" "y < real b + 1" "b < 2 ^ 32" "dr \<le> 8 \<longrightarrow> y = real b"
      "dr = 0 \<longrightarrow> 2 ^ 31 \<le> b" "8 < dr \<longrightarrow> b < 2 ^ 23"
    using assms(1,2) by (auto simp: aligned_ok_def)
  show "\<bar>R\<bar> < 2 ^ 33" using a(3) b(3) by (auto simp: R)
  have "x = real a \<or> y = real b" using a(4) b(4) assms(3) by auto
  with a(1,2) b(1,2) show "\<bar>real_of_int R - X\<bar> < 1" by (auto simp: R X)
  show "\<bar>R\<bar> < 2 ^ 30 \<longrightarrow> X = real_of_int R"
  proof
    assume small: "\<bar>R\<bar> < 2 ^ 30"
    have "dl \<le> 8 \<and> dr \<le> 8"
      using assms(3) a(5,6) b(5,6) small by (cases "dl \<le> 8"; cases "dr \<le> 8") (auto simp: R split: if_splits)
    then show "X = real_of_int R" using a(4) b(4) by (simp add: R X)
  qed
qed


definition fpu_close :: "x86_fpu_value \<Rightarrow> real \<Rightarrow> bool" where
  "fpu_close v exact \<longleftrightarrow>
     (if exact = 0 then fv_kind v = X86_FPU_VALUE_ZERO
      else fv_kind v = X86_FPU_VALUE_FINITE \<and> fpu_normal v \<and>
        \<bar>fpu_real v - exact\<bar> < 2 * fpu_ulp v)"

text \<open>The loops bring a magnitude of at most 33 bits to 32 bits; the low eight are dropped.\<close>

definition fpu_normalised :: "lib_i16 \<Rightarrow> nat \<Rightarrow> lib_u64 \<Rightarrow> lib_i16 \<Rightarrow> bool" where
  "fpu_normalised e M m e' \<longleftrightarrow>
     (let sig = unat m div 2 ^ 8; ulp = 2 powi (sint e' - 23)
      in 2 ^ 23 \<le> sig \<and> sig < 2 ^ 24 \<and> \<bar>real sig * ulp - real M * fpu_unit e\<bar> < ulp \<and>
         (2 ^ 30 \<le> M \<longrightarrow> fpu_unit e \<le> ulp))"

lemma fpu_normalisedI:
  assumes m: "unat m div 2 ^ 8 = a div b" "0 < b" and sig: "2 ^ 23 \<le> a div b" "a div b < 2 ^ 24"
    and M: "real a / real b * 2 powi (sint e' - 23) = real M * fpu_unit e"
    and u: "2 ^ 30 \<le> M \<Longrightarrow> sint e \<le> sint e' + 8"
  shows "fpu_normalised e M m e'"
proof -
  have "fpu_unit e \<le> 2 powi (sint e' - 23)" if "2 ^ 30 \<le> M"
    using u [OF that] unfolding fpu_unit_def by (intro power_int_increasing) auto
  moreover have "real (a div b) * 2 powi (sint e' - 23) \<le> real M * fpu_unit e"
    and "real M * fpu_unit e < real (a div b) * 2 powi (sint e' - 23) + 2 powi (sint e' - 23)"
    using floor_scaled [OF div_floor [OF m(2), of a], where E = "sint e' - 23"]
    by (simp_all only: M)
  ultimately show ?thesis using m(1) sig by (auto simp: fpu_normalised_def Let_def abs_less_iff)
qed

lemma fpu_normalise:
  assumes M: "0 < M" "M < 2 ^ 33" and e: "\<bar>sint e\<bar> \<le> 16000"
  shows "\<exists>m e'. fpu_normalise_up (fst (fpu_normalise_down (of_nat M) e))
      (snd (fpu_normalise_down (of_nat M) e)) = Some (m, e') \<and> fpu_normalised e M m e'"
proof -
  define m1 :: lib_u64 where "m1 = of_nat M"
  have m1: "unat m1 = M" using M(2) by (simp add: m1_def unat_of_nat)
  have down: "fpu_normalise_down m1 e = (if m1 \<ge> 0x100000000 then (drop_bit 1 m1, e + 1) else (m1, e))"
    by (rule fpu_normalise_down_result) (use M(2) in \<open>simp add: word_less_nat_alt m1\<close>)
  show ?thesis
  proof (cases "m1 \<ge> 0x100000000")
    case True
    then have big: "2 ^ 32 \<le> M" by (simp add: word_le_nat_alt m1)
    define h where "h = drop_bit 1 m1"
    have h: "unat h = M div 2" by (simp only: h_def unat_drop_div m1) simp
    have "\<not> h < 0x80000000" using big by (simp add: word_less_nat_alt h)
    then have up: "fpu_normalise_up h (e + 1) = Some (h, e + 1)"
      by (subst fpu_normalise_up.simps) simp
    have e1: "sint (e + 1) = sint e + 1" using sint_i16_add [of e 1] e by simp
    have "fpu_normalised e M h (e + 1)"
    proof (rule fpu_normalisedI [where a = M and b = "2 ^ 9"])
      show "unat h div 2 ^ 8 = M div 2 ^ 9" by (simp add: h div_mult2_eq [symmetric])
      show "2 ^ 23 \<le> M div 2 ^ 9" "M div 2 ^ 9 < 2 ^ 24" using big M(2) by auto
      have "2 powi (sint e + 1 - 23) = fpu_unit e * 2 ^ 9"
        by (simp add: fpu_unit_def powi_two_add [symmetric] power_int_add [symmetric]
            power_int_diff)
      then show "real M / real (2 ^ 9) * 2 powi (sint (e + 1) - 23) = real M * fpu_unit e"
        by (simp add: e1)
    qed (simp_all add: e1)
    with up True down show ?thesis by (auto simp: m1_def [symmetric] h_def)
  next
    case False
    then have small: "M < 2 ^ 32" by (simp add: word_le_nat_alt m1)
    obtain k where k: "k \<le> 31" "fpu_normalise_up m1 e = Some (push_bit k m1, e - of_nat k)"
      "2 ^ 31 \<le> M * 2 ^ k" "M * 2 ^ k < 2 ^ 32"
      using fpu_normalise_up_returns [of m1 e] M(1) small by (auto simp: m1)
    have m: "unat (push_bit k m1) = M * 2 ^ k"
      using k(4) by (simp only: unsigned_push_bit_eq m1) (simp add: push_bit_eq_mult take_bit_nat_eq_self)
    have ek: "sint (e - of_nat k) = sint e - int k"
    proof -
      have "sint (of_nat k :: 16 word) = int k"
        using sint_i16 [of "int k"] k(1) by simp
      then show ?thesis using sint_i16_diff [of e "of_nat k"] e k(1) by auto
    qed
    have "fpu_normalised e M (push_bit k m1) (e - of_nat k)"
    proof (rule fpu_normalisedI [where a = "M * 2 ^ k" and b = "2 ^ 8"])
      show "unat (push_bit k m1) div 2 ^ 8 = M * 2 ^ k div 2 ^ 8" by (simp only: m)
      show "2 ^ 23 \<le> M * 2 ^ k div 2 ^ 8" "M * 2 ^ k div 2 ^ 8 < 2 ^ 24" using k(3,4) by auto
      have "2 powi (sint e - int k - 23) = fpu_unit e * (2 ^ 8 / 2 ^ k)"
        by (simp add: fpu_unit_def power_int_diff)
      then show "real (M * 2 ^ k) / real (2 ^ 8) * 2 powi (sint (e - of_nat k) - 23) =
          real M * fpu_unit e"
        by (simp add: ek)
      show "sint e \<le> sint (e - of_nat k) + 8" if "2 ^ 30 \<le> M"
      proof -
        have "\<not> 2 \<le> k"
        proof
          assume "2 \<le> k"
          then have "(2::nat) ^ 2 \<le> 2 ^ k" by (rule power_increasing) simp
          with that have "2 ^ 30 * 2 ^ 2 \<le> M * 2 ^ k" by (rule mult_le_mono)
          with k(4) show False by simp
        qed
        then show ?thesis by (simp add: ek)
      qed
    qed simp
    with k(2) False down show ?thesis by (auto simp: m1_def [symmetric])
  qed
qed

lemma fpu_normalised_close:
  assumes norm: "fpu_normalised e M m e'" and M: "int M = \<bar>R\<bar>" "R \<noteq> 0"
    and near: "\<bar>real_of_int R - X\<bar> < 1" "\<bar>R\<bar> < 2 ^ 30 \<longrightarrow> X = real_of_int R"
    and v: "v = \<lparr>fv_kind = X86_FPU_VALUE_FINITE, fv_negative = (R < 0), fv_exponent = e',
      fv_significand = ucast (drop_bit 8 m)\<rparr>"
  shows "fpu_close v (X * fpu_unit e)"
proof -
  have sig: "2 ^ 23 \<le> unat m div 2 ^ 8" "unat m div 2 ^ 8 < 2 ^ 24"
    and err: "\<bar>real (unat m div 2 ^ 8) * fpu_ulp v - real M * fpu_unit e\<bar> < fpu_ulp v"
    and unit: "2 ^ 30 \<le> M \<longrightarrow> fpu_unit e \<le> fpu_ulp v"
    using norm by (auto simp: fpu_normalised_def Let_def fpu_ulp_def v)
  have u: "0 < fpu_unit e" by (simp add: fpu_unit_def)
  have "unat (fv_significand v) = unat m div 2 ^ 8"
    using unat_drop_div [of 8 m] unat_ucast_small [of "drop_bit 8 m", where 'b = 32] sig(2)
    by (simp add: v)
  then have normal: "fpu_normal v" and mag: "fpu_magnitude v = real (unat m div 2 ^ 8) * fpu_ulp v"
    using sig by (auto simp: fpu_normal_def fpu_magnitude_def fpu_ulp_def v)
  have real_v: "fpu_real v = (if R < 0 then - fpu_magnitude v else fpu_magnitude v)"
    by (simp add: fpu_real_def v)
  have "R = (if R < 0 then - int M else int M)" using M by simp
  then have "real_of_int R = (if R < 0 then - real M else real M)"
    by (metis of_int_minus of_int_of_nat_eq)
  with err have chop: "\<bar>fpu_real v - real_of_int R * fpu_unit e\<bar> < fpu_ulp v"
    by (auto simp: real_v mag)
  have step: "\<bar>real_of_int R * fpu_unit e - X * fpu_unit e\<bar> < fpu_ulp v"
  proof (cases "2 ^ 30 \<le> M")
    case True
    have "\<bar>real_of_int R * fpu_unit e - X * fpu_unit e\<bar> = \<bar>real_of_int R - X\<bar> * fpu_unit e"
      using u by (simp add: abs_mult left_diff_distrib [symmetric])
    also have "\<dots> < 1 * fpu_unit e" using near(1) u by (rule mult_strict_right_mono)
    finally show ?thesis using unit True by simp
  next
    case False
    then have "X = real_of_int R" using near(2) M by auto
    then show ?thesis by (simp add: fpu_ulp_def)
  qed
  have "X \<noteq> 0" using near M(2) by (cases "\<bar>R\<bar> < 2 ^ 30") auto
  then have "X * fpu_unit e \<noteq> 0" using u by simp
  moreover have "\<bar>fpu_real v - X * fpu_unit e\<bar> < 2 * fpu_ulp v"
    using chop step by linarith
  ultimately show ?thesis
    using normal by (simp add: fpu_close_def) (simp add: v)
qed

lemma x86_fpu_add_finite:
  assumes "fv_kind l = X86_FPU_VALUE_FINITE" and "fv_kind r = X86_FPU_VALUE_FINITE"
    and e: "e = (if sint (fv_exponent l) \<ge> sint (fv_exponent r)
      then fv_exponent l else fv_exponent r)"
    and R: "R = fpu_aligned e l + fpu_aligned e r"
  shows "x86_fpu_add l r =
    (if R = 0 then Some (Some fpu_zero_value)
     else map_option (\<lambda>(m, e'). Some \<lparr>fv_kind = X86_FPU_VALUE_FINITE, fv_negative = (R < 0),
        fv_exponent = e', fv_significand = ucast (drop_bit 8 m)\<rparr>)
        (fpu_normalise_up (fst (fpu_normalise_down (of_nat (nat \<bar>R\<bar>)) e))
          (snd (fpu_normalise_down (of_nat (nat \<bar>R\<bar>)) e))))"
  using assms(1,2)
  by (simp add: x86_fpu_add_def Let_def e [symmetric] R [symmetric] fpu_zero_value_def
      case_prod_beta split: option.split)

lemma fpu_add_close:
  assumes l: "fpu_finite l" and r: "fpu_finite r"
  shows "\<exists>v. x86_fpu_add l r = Some (Some v) \<and> fpu_close v (fpu_real l + fpu_real r)"
proof -
  define e where "e = (if sint (fv_exponent l) \<ge> sint (fv_exponent r)
    then fv_exponent l else fv_exponent r)"
  have e: "\<bar>sint e\<bar> \<le> 16000" and le: "sint (fv_exponent l) \<le> sint e" "sint (fv_exponent r) \<le> sint e"
    and one: "sint e = sint (fv_exponent l) \<or> sint e = sint (fv_exponent r)"
    and kl: "fv_kind l = X86_FPU_VALUE_FINITE" and kr: "fv_kind r = X86_FPU_VALUE_FINITE"
    using l r by (auto simp: e_def fpu_finite_def fpu_in_range_def)
  obtain a x where a: "aligned_ok a x (nat (sint e - sint (fv_exponent l)))"
      "fpu_aligned e l = (if fv_negative l then - int a else int a)"
      "fpu_real l = (if fv_negative l then - x else x) * fpu_unit e"
    using fpu_aligned_ok [OF l le(1)] by blast
  obtain b y where b: "aligned_ok b y (nat (sint e - sint (fv_exponent r)))"
      "fpu_aligned e r = (if fv_negative r then - int b else int b)"
      "fpu_real r = (if fv_negative r then - y else y) * fpu_unit e"
    using fpu_aligned_ok [OF r le(2)] by blast
  define R X where "R = fpu_aligned e l + fpu_aligned e r"
    and "X = (if fv_negative l then - x else x) + (if fv_negative r then - y else y)"
  have "R = (if fv_negative l then - int a else int a) + (if fv_negative r then - int b else int b)"
    by (simp add: R_def a(2) b(2))
  note sum = fpu_aligned_sum [OF a(1) b(1) _ this X_def]
  have R: "\<bar>R\<bar> < 2 ^ 33" "\<bar>real_of_int R - X\<bar> < 1" "\<bar>R\<bar> < 2 ^ 30 \<longrightarrow> X = real_of_int R"
    using sum one by auto
  have exact: "fpu_real l + fpu_real r = X * fpu_unit e"
    by (simp add: X_def a(3) b(3) algebra_simps)
  note add = x86_fpu_add_finite [OF kl kr e_def R_def]
  show ?thesis
  proof (cases "R = 0")
    case True
    then have "fpu_real l + fpu_real r = 0" using R(3) exact by simp
    with True show ?thesis by (simp add: add fpu_close_def fpu_zero_value_def)
  next
    case False
    obtain m e' where "fpu_normalise_up (fst (fpu_normalise_down (of_nat (nat \<bar>R\<bar>)) e))
        (snd (fpu_normalise_down (of_nat (nat \<bar>R\<bar>)) e)) = Some (m, e')"
      and "fpu_normalised e (nat \<bar>R\<bar>) m e'"
      using fpu_normalise [OF _ _ e, of "nat \<bar>R\<bar>"] False R(1) by (auto simp: nat_less_iff)
    with False R(2,3) show ?thesis
      unfolding exact by (auto simp: add intro: fpu_normalised_close)
  qed
qed

end
