(* ===== verification/Fpu_Run.thy ===== *)
theory Fpu_Run
  imports Fpu_Arith
begin

unbundle bit_operations_syntax

text \<open>
  The coprocessor of theory \<open>Fpu\<close> in operation: its invariant on every reachable state, the
  completion timer as a component driven by elapsed ticks, the single precision round trip and
  the properties.
\<close>

section \<open>The operations keep the coprocessor well formed\<close>

lemma fpu_aligned_bound:
  assumes "unat (fv_significand v) < 0x1000000"
  shows "\<bar>fpu_aligned e v\<bar> < 2 ^ 32"
proof -
  have "int (unat (fv_significand v)) < int 0x1000000"
    using assms by (simp only: of_nat_less_iff)
  then have u: "uint (fv_significand v) < 0x1000000" by simp
  define x where "x = push_bit 8 (uint (fv_significand v))"
  have x: "0 \<le> x" "x < 2 ^ 32" using u by (simp_all add: x_def push_bit_eq_mult)
  define d where "d = nat (sint e - sint (fv_exponent v))"
  have "0 \<le> drop_bit d x \<and> drop_bit d x \<le> x"
    using x(1) zdiv_mono2 [of x 1 "2 ^ d"] by (simp add: drop_bit_eq_div pos_imp_zdiv_nonneg_iff)
  with x show ?thesis
    by (auto simp: fpu_aligned_def Let_def x_def [symmetric] d_def [symmetric])
qed

lemma fpu_normalise_significand:
  assumes M: "0 < M" "M < 2 ^ 33"
  shows "\<exists>m e'. fpu_normalise_up (fst (fpu_normalise_down (of_nat M) e))
      (snd (fpu_normalise_down (of_nat M) e)) = Some (m, e') \<and> 2 ^ 31 \<le> unat m \<and> unat m < 2 ^ 32"
proof -
  define m1 :: lib_u64 where "m1 = of_nat M"
  have m1: "unat m1 = M" using M(2) by (simp add: m1_def unat_of_nat)
  define d where "d = fst (fpu_normalise_down m1 e)"
  have "unat d = (if m1 \<ge> 0x100000000 then M div 2 else M)"
    using M(2) fpu_normalise_down_result [of m1 e] unat_drop_div [of 1 m1]
    by (simp add: d_def word_less_nat_alt m1)
  then have d: "0 < unat d" "unat d < 2 ^ 32"
    using M by (auto simp: word_le_nat_alt m1 split: if_splits)
  obtain k where k: "fpu_normalise_up d (snd (fpu_normalise_down m1 e)) =
      Some (push_bit k d, snd (fpu_normalise_down m1 e) - of_nat k)"
    "2 ^ 31 \<le> unat d * 2 ^ k" "unat d * 2 ^ k < 2 ^ 32"
    using fpu_normalise_up_returns [OF d] by blast
  have "unat (push_bit k d) = unat d * 2 ^ k"
    using k(3) by (simp only: unsigned_push_bit_eq) (simp add: push_bit_eq_mult take_bit_nat_eq_self)
  with k show ?thesis by (auto simp: d_def m1_def)
qed

lemma fpu_add_returns:
  assumes l: "fpu_normal l" and r: "fpu_normal r"
  shows "\<exists>res. x86_fpu_add l r = Some res \<and> (\<forall>v. res = Some v \<longrightarrow> fpu_normal v)"
proof (cases "fv_kind l = X86_FPU_VALUE_FINITE \<and> fv_kind r = X86_FPU_VALUE_FINITE")
  case False
  then show ?thesis
    using l r by (cases "fv_kind l"; cases "fv_kind r") (auto simp: x86_fpu_add_def)
next
  case True
  define e where "e = (if sint (fv_exponent l) \<ge> sint (fv_exponent r)
    then fv_exponent l else fv_exponent r)"
  define R where "R = fpu_aligned e l + fpu_aligned e r"
  note add = x86_fpu_add_finite [OF conjunct1 [OF True] conjunct2 [OF True] e_def R_def]
  show ?thesis
  proof (cases "R = 0")
    case True
    then show ?thesis by (simp add: add fpu_normal_def fpu_zero_value_def)
  next
    case False
    have "\<bar>R\<bar> < 2 ^ 33"
      using True l r fpu_aligned_bound [of l e] fpu_aligned_bound [of r e]
      by (auto simp: R_def fpu_normal_def)
    then obtain m e' where m: "fpu_normalise_up (fst (fpu_normalise_down (of_nat (nat \<bar>R\<bar>)) e))
        (snd (fpu_normalise_down (of_nat (nat \<bar>R\<bar>)) e)) = Some (m, e')"
        "2 ^ 31 \<le> unat m" "unat m < 2 ^ 32"
      using fpu_normalise_significand [of "nat \<bar>R\<bar>" e] False by (auto simp: nat_less_iff)
    have "unat (ucast (drop_bit 8 m) :: lib_u32) = unat m div 2 ^ 8"
      using unat_drop_div [of 8 m] unat_ucast_small [of "drop_bit 8 m", where 'b = 32] m(3) by simp
    with m False show ?thesis by (auto simp: add fpu_normal_def)
  qed
qed

lemma fpu_multiply_normal:
  assumes "fpu_normal l" and "fpu_normal r" and "x86_fpu_multiply l r = Some v"
  shows "fpu_normal v"
proof (cases "fv_kind l = X86_FPU_VALUE_FINITE \<and> fv_kind r = X86_FPU_VALUE_FINITE")
  case True
  then show ?thesis using fpu_multiply_significand [of l r] assms by auto
next
  case False
  then show ?thesis using assms(3)
    by (auto simp: x86_fpu_multiply_def fpu_normal_def split: if_splits)
qed

text \<open>The part of the state that the stack and the exceptions share.\<close>

definition fpu_ok :: "x86_fpu \<Rightarrow> bool" where
  "fpu_ok f \<longleftrightarrow>
     unat (fp_top f) < 8 \<and>
     fp_status_word f AND X86_FPU_STATUS_TOP = push_bit 11 (ucast (fp_top f)) \<and>
     (\<forall>i. fpu_normal (fp_registers f i)) \<and>
     (fp_pending_unmasked_exception f \<longrightarrow> bit (fp_status_word f) 7) \<and>
     (fp_busy f \<longleftrightarrow> fp_completion_remaining_ticks f \<noteq> 0)"

lemma fpu_okI:
  assumes "unat (fp_top f) < 8"
    and "fp_status_word f AND X86_FPU_STATUS_TOP = push_bit 11 (ucast (fp_top f))"
    and "\<And>i. fpu_normal (fp_registers f i)"
    and "fp_pending_unmasked_exception f \<Longrightarrow> bit (fp_status_word f) 7"
    and "fp_busy f \<longleftrightarrow> fp_completion_remaining_ticks f \<noteq> 0"
  shows "fpu_ok f"
  using assms by (simp add: fpu_ok_def)

lemma word_and_7_less: "unat ((w :: lib_u8) AND 7) < 8"
proof -
  have "w AND 7 = take_bit 3 w" by (simp add: take_bit_eq_mask mask_eq_exp_minus_1)
  then show ?thesis using take_bit_nat_less_exp [of 3 "unat w"] by (simp add: unsigned_take_bit_eq)
qed

lemma replace_field:
  fixes p m s :: "'a::len word"
  shows "p AND m = p \<Longrightarrow> ((s AND NOT m) OR p) AND m = p"
  by (auto simp: bit_eq_iff bit_and_iff bit_or_iff bit_not_iff)

lemma push_field:
  assumes "unat (t :: 'a::len word) < 2 ^ k"
  shows "push_bit n (ucast t :: 'b::len word) AND push_bit n (mask k) = push_bit n (ucast t)"
proof -
  have "unat t = unat (take_bit k t)"
    using assms by (simp add: unsigned_take_bit_eq take_bit_nat_eq_self)
  then have "t = take_bit k t" by (rule unsigned_word_eqI)
  then have "bit t m \<Longrightarrow> m < k" for m by (metis bit_take_bit_iff)
  then show ?thesis
    by (auto intro!: bit_word_eqI simp: bit_and_iff bit_push_bit_iff bit_mask_iff bit_ucast_iff)
qed

lemma push_top:
  assumes "unat (t :: lib_u8) < 8"
  shows "push_bit 11 (ucast t) AND X86_FPU_STATUS_TOP = push_bit 11 (ucast t)"
proof -
  have "push_bit 11 (mask 3) = X86_FPU_STATUS_TOP"
    by (simp add: mask_eq_exp_minus_1 push_bit_eq_mult)
  moreover have "unat t < 2 ^ 3" using assms by simp
  note push_field [OF this, of 11, where 'b = 16]
  ultimately show ?thesis by (simp only:)
qed

lemmas sync_top_field = replace_field [OF push_top]

lemma fpu_raise_ok:
  assumes "fpu_ok f" and "bits = X86_FPU_STATUS_IE OR X86_FPU_STATUS_SF \<or> bits = X86_FPU_STATUS_ZE"
  shows "fpu_ok (x86_fpu_raise bits flag f)"
proof -
  have "(s OR bits) AND X86_FPU_STATUS_TOP = s AND X86_FPU_STATUS_TOP"
    "((s OR bits) OR X86_FPU_STATUS_ES) AND X86_FPU_STATUS_TOP = s AND X86_FPU_STATUS_TOP"
    for s :: lib_u16
    using assms(2) by (auto simp: bit.conj_disj_distrib2)
  then show ?thesis
    using assms(1) by (auto simp: fpu_ok_def x86_fpu_raise_def Let_def bit_or_iff bit_simps)
qed

lemma sync_top_fields [simp]:
  "fp_top (x86_fpu_sync_top f) = fp_top f"
  "fp_registers (x86_fpu_sync_top f) = fp_registers f"
  "fp_tags (x86_fpu_sync_top f) = fp_tags f"
  "fp_pending_unmasked_exception (x86_fpu_sync_top f) = fp_pending_unmasked_exception f"
  "fp_busy (x86_fpu_sync_top f) = fp_busy f"
  "fp_completion_remaining_ticks (x86_fpu_sync_top f) = fp_completion_remaining_ticks f"
  by (simp_all add: x86_fpu_sync_top_def)

lemma sync_top_es: "bit (fp_status_word (x86_fpu_sync_top f)) 7 = bit (fp_status_word f) 7"
  by (simp add: x86_fpu_sync_top_def bit_or_iff bit_and_iff bit_not_iff bit_push_bit_iff bit_simps)

lemma fpu_sync_top_ok:
  assumes "fpu_ok f" and "unat t < 8" and "\<And>i. fpu_normal (regs i)"
  shows "fpu_ok (x86_fpu_sync_top (f\<lparr>fp_top := t, fp_registers := regs, fp_tags := tags\<rparr>))"
proof (rule fpu_okI)
  show "fp_status_word (x86_fpu_sync_top (f\<lparr>fp_top := t, fp_registers := regs, fp_tags := tags\<rparr>))
      AND X86_FPU_STATUS_TOP =
    push_bit 11 (ucast (fp_top (x86_fpu_sync_top (f\<lparr>fp_top := t, fp_registers := regs, fp_tags := tags\<rparr>))))"
    using sync_top_field [OF assms(2)] by (simp add: x86_fpu_sync_top_def)
qed (use assms in \<open>auto simp: fpu_ok_def sync_top_es\<close>)

lemma fpu_push_ok: "fpu_ok f \<Longrightarrow> fpu_normal v \<Longrightarrow> fpu_ok (snd (x86_fpu_push v f))"
proof -
  assume f: "fpu_ok f" and v: "fpu_normal v"
  have "fpu_ok (x86_fpu_sync_top (f\<lparr>fp_top := (fp_top f + 7) AND 7,
      fp_registers := (fp_registers f)(unat ((fp_top f + 7) AND 7) := v),
      fp_tags := (fp_tags f)(unat ((fp_top f + 7) AND 7) := X86_FPU_TAG_VALID)\<rparr>))"
    using f v word_and_7_less by (intro fpu_sync_top_ok) (auto simp: fpu_ok_def)
  then show ?thesis
    using fpu_raise_ok [OF f] by (simp add: x86_fpu_push_def Let_def)
qed

lemma fpu_stack_fault_ok: "fpu_ok f \<Longrightarrow> fpu_ok (x86_fpu_stack_fault f)"
  by (simp add: x86_fpu_stack_fault_def fpu_raise_ok)

lemma fpu_decode_normal: "x86_fpu_decode_m32 bits = Some v \<Longrightarrow> fpu_normal v"
proof -
  assume v: "x86_fpu_decode_m32 bits = Some v"
  define fraction where "fraction = bits AND 0x007fffff"
  have fraction: "fraction = take_bit 23 bits"
    by (simp add: fraction_def take_bit_eq_mask mask_eq_exp_minus_1)
  have low: "unat fraction < 2 ^ 23"
    using take_bit_nat_less_exp [of 23 "unat bits"] by (simp add: fraction unsigned_take_bit_eq)
  have "unat (0x00800000 OR fraction) = 2 ^ 23 + unat fraction"
  proof -
    have "(0x00800000 :: lib_u32) = BIT_MASK 23" by (simp add: BIT_MASK_def push_bit_eq_mult)
    moreover have "BIT_MASK 23 OR fraction = BIT_MASK 23 + fraction"
      by (rule disjunctive_add [symmetric]) (auto simp: fraction bit_take_bit_iff)
    ultimately have "0x00800000 OR fraction = 0x00800000 + fraction" by simp
    then show ?thesis using low by (simp add: unat_word_ariths)
  qed
  with low v show ?thesis
    by (auto simp: x86_fpu_decode_m32_def Let_def fraction_def [symmetric] fpu_normal_def split: if_splits)
qed

lemma fpu_register_ok:
  "fpu_ok f \<Longrightarrow> fpu_normal v \<Longrightarrow> fpu_ok (f\<lparr>fp_registers := (fp_registers f)(i := v)\<rparr>)"
  by (simp add: fpu_ok_def)

lemma fpu_st_normal: "fpu_ok f \<Longrightarrow> x86_fpu_st f i = Some (v, p) \<Longrightarrow> fpu_normal v"
  by (auto simp: x86_fpu_st_def Let_def fpu_ok_def split: if_splits)

lemma fpu_divide_ok:
  assumes "fpu_ok f" and "fpu_normal l" and "fpu_normal r"
  shows "fpu_ok (snd (x86_fpu_divide f l r)) \<and>
    (\<forall>v. fst (x86_fpu_divide f l r) = Some v \<longrightarrow> fpu_normal v)"
proof (cases "fv_kind l = X86_FPU_VALUE_FINITE \<and> fv_kind r = X86_FPU_VALUE_FINITE")
  case True
  then show ?thesis using fpu_divide_significand [of l r f] assms by auto
next
  case False
  then show ?thesis
    using fpu_raise_ok [OF assms(1)] assms(1) by (auto simp: x86_fpu_divide_def fpu_normal_def)
qed

lemma fpu_binary_result_ok:
  assumes "fpu_ok f" and "fpu_normal l" and "fpu_normal r"
  shows "\<exists>res f'. fpu_binary_result f operation l r = Some (res, f') \<and> fpu_ok f' \<and>
    (\<forall>v. res = Some v \<longrightarrow> fpu_normal v)"
proof -
  have neg: "fpu_normal (r\<lparr>fv_negative := \<not> fv_negative r\<rparr>)"
    using assms(3) by (simp add: fpu_normal_def)
  show ?thesis
    using assms(1) fpu_add_returns [OF assms(2) neg] fpu_add_returns [OF assms(2,3)]
      fpu_multiply_normal [OF assms(2,3)] fpu_divide_ok [OF assms]
    by (cases "x86_fpu_divide f l r") (auto simp: fpu_binary_result_def)
qed

lemma fpu_binary_ok:
  assumes f: "fpu_ok f"
  shows "\<exists>res f'. x86_fpu_binary_st0_sti (Some f) operation index = Some (res, Some f') \<and> fpu_ok f'"
proof (cases "x86_fpu_st f 0")
  case None
  then show ?thesis using fpu_stack_fault_ok [OF f] by simp
next
  case (Some st0)
  obtain l destination where l: "x86_fpu_st f 0 = Some (l, destination)"
    using Some by (cases st0) simp
  show ?thesis
  proof (cases "x86_fpu_st f index")
    case None
    then show ?thesis using fpu_stack_fault_ok [OF f] l by simp
  next
    case (Some sti)
    obtain r p where r: "x86_fpu_st f index = Some (r, p)" using Some by (cases sti) simp
    obtain res f' where "fpu_binary_result f operation l r = Some (res, f')" "fpu_ok f'"
      "\<forall>v. res = Some v \<longrightarrow> fpu_normal v"
      using fpu_binary_result_ok [OF f fpu_st_normal [OF f l] fpu_st_normal [OF f r]] by blast
    then show ?thesis using l r by (cases res) (auto simp: fpu_register_ok)
  qed
qed

lemma fpu_load_ok: "fpu_ok f \<Longrightarrow> \<exists>f'. snd (x86_fpu_load_m32 (Some f) bits) = Some f' \<and> fpu_ok f'"
  by (auto simp: x86_fpu_load_m32_def fpu_push_ok dest: fpu_decode_normal split: option.split)

lemma fpu_store_ok:
  assumes f: "fpu_ok f"
  shows "\<exists>f'. fst (snd (x86_fpu_store_m32 (Some f) out_bits)) = Some f' \<and> fpu_ok f'"
proof -
  have "f\<lparr>fp_tags := tags, fp_top := t\<rparr> =
      f\<lparr>fp_top := t, fp_registers := fp_registers f, fp_tags := tags\<rparr>" for tags t
    by simp
  then have "fpu_ok (x86_fpu_sync_top (f\<lparr>fp_tags := tags, fp_top := (fp_top f + 1) AND 7\<rparr>))" for tags
    using fpu_sync_top_ok [OF f, of "(fp_top f + 1) AND 7" "fp_registers f" tags] f word_and_7_less
    by (simp only: fpu_ok_def) blast
  then show ?thesis
    using f fpu_stack_fault_ok [OF f]
    by (cases out_bits) (auto split: option.split)
qed

lemma fpu_reset_ok: "x86_fpu_reset (Some f) = Some f' \<Longrightarrow> fpu_ok f'"
  by (auto simp: fpu_ok_def x86_fpu_sync_top_def fpu_normal_def fpu_zero_value_def)

lemma fpu_begin_ok:
  assumes "fpu_ok f"
  shows "\<exists>f'. x86_fpu_begin_command (Some f) escape modrm = Some f' \<and> fpu_ok f'"
proof -
  have "x86_fpu_external_l2_ticks p operation \<noteq> 0" for p operation
    by (cases operation) (auto simp: x86_fpu_external_l2_ticks_def)
  then have ticks: "(ucast (x86_fpu_external_l2_ticks p operation) :: lib_u64) \<noteq> 0" for p operation
    by (simp add: unat_eq_0 [symmetric] unat_ucast_up)
  show ?thesis
    using assms ticks unfolding x86_fpu_begin_command.simps Let_def fpu_ok_def
    by (simp split: if_splits)
qed

lemma fpu_elapse_ok: "fpu_ok f \<Longrightarrow> fpu_ok (fpu_elapse n f)"
  by (auto simp: fpu_ok_def fpu_elapse_def)

lemma fpu_load_control_word_ok:
  "fpu_ok f \<Longrightarrow> \<exists>f'. x86_fpu_load_control_word (Some f) cw = Some f' \<and> fpu_ok f'"
  by (auto simp: fpu_ok_def Let_def BIT_IS_SET_flags(8) [unfolded BIT_IS_SET_def])

section \<open>Reachable coprocessors\<close>

inductive fpu_reachable :: "x86_fpu \<Rightarrow> bool" where
  fpu_created: "x86_fpu_create profile True (Some p) = (LIB_STATUS_OK, Some (Some f)) \<Longrightarrow>
    fpu_reachable f"
| fpu_was_reset: "fpu_reachable f \<Longrightarrow> x86_fpu_reset (Some f) = Some f' \<Longrightarrow> fpu_reachable f'"
| fpu_began: "fpu_reachable f \<Longrightarrow> x86_fpu_begin_command (Some f) escape modrm = Some f' \<Longrightarrow>
    fpu_reachable f'"
| fpu_advanced: "fpu_reachable f \<Longrightarrow> x86_fpu_advance (Some f) n = Some f' \<Longrightarrow> fpu_reachable f'"
| fpu_loaded: "fpu_reachable f \<Longrightarrow> x86_fpu_load_m32 (Some f) bits = (res, Some f') \<Longrightarrow>
    fpu_reachable f'"
| fpu_stored: "fpu_reachable f \<Longrightarrow> x86_fpu_store_m32 (Some f) out_bits = (res, Some f', out') \<Longrightarrow>
    fpu_reachable f'"
| fpu_control: "fpu_reachable f \<Longrightarrow> x86_fpu_load_control_word (Some f) cw = Some f' \<Longrightarrow>
    fpu_reachable f'"
| fpu_computed: "fpu_reachable f \<Longrightarrow>
    x86_fpu_binary_st0_sti (Some f) operation i = Some (res, Some f') \<Longrightarrow> fpu_reachable f'"

lemma fpu_reachable_ok: "fpu_reachable f \<Longrightarrow> fpu_ok f"
proof (induction rule: fpu_reachable.induct)
  case (fpu_created profile p f)
  then show ?case
    by (auto split: option.splits simp del: x86_fpu_reset.simps intro: fpu_reset_ok)
next
  case (fpu_was_reset f f')
  then show ?case by (metis fpu_reset_ok)
next
  case (fpu_began f escape modrm f')
  then show ?case using fpu_begin_ok [of f escape modrm] by auto
next
  case (fpu_advanced f n f')
  then show ?case by (auto simp: x86_fpu_advance_def fpu_elapse_ok)
next
  case (fpu_loaded f bits res f')
  then show ?case using fpu_load_ok [of f bits] by auto
next
  case (fpu_stored f out_bits res f' out')
  then show ?case using fpu_store_ok [of f out_bits] by auto
next
  case (fpu_control f cw f')
  then show ?case using fpu_load_control_word_ok [of f cw] by auto
next
  case (fpu_computed f operation i res f')
  then show ?case using fpu_binary_ok [of f operation i] by auto
qed

section \<open>The completion timer\<close>

lemma fpu_elapse_sat_sub:
  assumes "fpu_ok f"
  shows "fpu_elapse n f =
    f\<lparr>fp_busy := sat_sub (fp_completion_remaining_ticks f) n \<noteq> 0,
      fp_completion_remaining_ticks := sat_sub (fp_completion_remaining_ticks f) n\<rparr>"
proof -
  have "fp_busy f \<longleftrightarrow> fp_completion_remaining_ticks f \<noteq> 0" using assms by (simp add: fpu_ok_def)
  then show ?thesis by (cases f) (auto simp: fpu_elapse_def sat_sub_def)
qed

lemma fpu_elapse_add:
  assumes "fpu_ok f" and "unat m + unat n < 2 ^ 64"
  shows "fpu_elapse (m + n) f = fpu_elapse n (fpu_elapse m f)"
  using fpu_elapse_sat_sub [OF fpu_elapse_ok [OF assms(1)], of n m] assms
  by (simp add: fpu_elapse_sat_sub sat_sub_add)

interpretation fpu_time: tick_component fpu_elapse fpu_ok
proof
  show "fpu_elapse 0 f = f" for f by (simp add: fpu_elapse_def)
qed (auto simp: fpu_elapse_add fpu_elapse_ok)

lemma fpu_completion_exact:
  assumes "fpu_ok f" and "x86_fpu_ticks_until_completion (Some f) (Some out) = (LIB_STATUS_OK, Some t)"
  shows "fp_busy (fpu_elapse n f) \<longleftrightarrow> n < t"
  using assms by (auto simp: fpu_elapse_sat_sub sat_sub_eq_0 split: if_splits)

section \<open>Single precision round trip\<close>

lemma m32_fields:
  fixes bits :: lib_u32
  shows "bits = (if bit bits 31 then 0x80000000 else 0) OR
    push_bit 23 (drop_bit 23 bits AND 0xff) OR (bits AND 0x007fffff)"
proof -
  have "(0xff :: lib_u32) = mask 8" and "(0x007fffff :: lib_u32) = mask 23"
    by (simp_all add: mask_eq_exp_minus_1)
  then have fields: "drop_bit 23 bits AND 0xff = take_bit 8 (drop_bit 23 bits)"
      "bits AND 0x007fffff = take_bit 23 bits"
    by (simp_all only: take_bit_eq_mask)
  have sign: "(0x80000000 :: lib_u32) = BIT_MASK 31" by (simp add: BIT_MASK_def push_bit_eq_mult)
  show ?thesis
    unfolding fields sign
  proof (rule bit_word_eqI)
    fix n assume "n < LENGTH(32)"
    then consider "n < 23" | "23 \<le> n" "n < 31" | "n = 31" by fastforce
    then show "bit bits n = bit ((if bit bits 31 then BIT_MASK 31 else 0) OR
        push_bit 23 (take_bit 8 (drop_bit 23 bits)) OR take_bit 23 bits) n"
      by cases (auto simp: bit_or_iff bit_push_bit_iff bit_take_bit_iff bit_drop_bit_eq)
  qed
qed

lemma bit_top_iff: "drop_bit 31 (bits :: lib_u32) \<noteq> 0 \<longleftrightarrow> bit bits 31"
proof -
  define d where "d = unat bits div 2 ^ 31"
  have "unat bits < 2 ^ 32" using unsigned_less [of bits, where 'a = nat] by simp
  then have "d < 2" by (simp add: d_def)
  moreover have "bit bits 31 = odd d"
  proof -
    have "bit bits 31 = bit (unat bits) 31" by (simp only: bit_unsigned_iff possible_bit_nat simp_thms)
    then show ?thesis by (simp only: bit_iff_odd d_def)
  qed
  moreover have "drop_bit 31 bits = 0 \<longleftrightarrow> d = 0"
    by (simp only: unat_eq_0 [symmetric] unat_drop_div d_def)
  ultimately show ?thesis by (auto simp: less_2_cases_iff)
qed

lemma fpu_encode_decode:
  assumes v: "x86_fpu_decode_m32 bits = Some v"
  shows "x86_fpu_encode_m32 v = Some bits"
proof -
  define exponent fraction where "exponent = drop_bit 23 bits AND 0xff"
    and "fraction = bits AND 0x007fffff"
  define sign :: lib_u32 where "sign = (if bit bits 31 then 0x80000000 else 0)"
  have bits: "bits = sign OR push_bit 23 exponent OR fraction"
    unfolding exponent_def fraction_def sign_def by (rule m32_fields)
  have not: "exponent \<noteq> 0xff" "exponent = 0 \<Longrightarrow> fraction = 0"
    using v by (auto simp: x86_fpu_decode_m32_def Let_def exponent_def fraction_def split: if_splits)
  show ?thesis
  proof (cases "exponent = 0")
    case True
    then have "v = \<lparr>fv_kind = X86_FPU_VALUE_ZERO, fv_negative = bit bits 31, fv_exponent = 0,
        fv_significand = 0\<rparr>"
      using v not(2) by (simp add: x86_fpu_decode_m32_def Let_def exponent_def fraction_def bit_top_iff)
    then show ?thesis
      using bits [symmetric] True not(2) by (simp add: x86_fpu_encode_m32_def sign_def [symmetric])
  next
    case False
    then have v: "v = \<lparr>fv_kind = X86_FPU_VALUE_FINITE, fv_negative = bit bits 31,
        fv_exponent = ucast exponent - 127, fv_significand = 0x00800000 OR fraction\<rparr>"
      using v not by (simp add: x86_fpu_decode_m32_def Let_def exponent_def fraction_def bit_top_iff)
    have "(0xff :: lib_u32) = mask 8" by (simp add: mask_eq_exp_minus_1)
    then have "exponent = take_bit 8 (drop_bit 23 bits)"
      by (simp only: exponent_def take_bit_eq_mask)
    then have "unat exponent < 2 ^ 8"
      using take_bit_nat_less_exp [of 8 "unat (drop_bit 23 bits)"]
      by (simp only: unsigned_take_bit_eq)
    moreover have "unat exponent \<noteq> unat (0xff :: lib_u32)" and "unat exponent \<noteq> unat (0 :: lib_u32)"
      using not(1) False by (simp_all only: word_unat_eq_iff not_False_eq_True)
    ultimately have "unat exponent < 0xff" "0 < unat exponent"
      by simp_all
    then have "int (unat exponent) < int 0xff" "int 0 < int (unat exponent)"
      by (simp_all only: of_nat_less_iff)
    then have usmall: "uint exponent < 0xff" "0 < uint exponent" by simp_all
    have "sint (ucast exponent - 127 :: lib_i16) = int (unat exponent) - 127"
    proof -
      have "(ucast exponent - 127 :: lib_i16) = word_of_int (int (unat exponent) - 127)"
        by simp
      then show ?thesis using sint_i16 [of "int (unat exponent) - 127"] usmall by simp
    qed
    moreover have "(word_of_int (int (unat exponent)) :: lib_u32) = exponent" by simp
    moreover have "(0x00800000 OR fraction) AND 0x007fffff = fraction"
      by (simp add: fraction_def bit.conj_disj_distrib2 and.assoc)
    moreover have "0x00800000 \<le> 0x00800000 OR fraction" "0x00800000 OR fraction < 0x01000000"
      using fpu_decode_normal [OF assms] by (simp_all add: v fpu_normal_def word_le_nat_alt word_less_nat_alt)
    ultimately show ?thesis
      using usmall bits [symmetric]
      by (simp add: x86_fpu_encode_m32_def v sign_def [symmetric] Let_def not_le)
  qed
qed

lemma refill_field:
  fixes p q m s :: "'a::len word"
  assumes "p AND m = p" and "s AND m = q"
  shows "(((s AND NOT m) OR p) AND NOT m) OR q = s"
  using assms by (auto simp: bit_eq_iff bit_and_iff bit_or_iff bit_not_iff)

definition fpu_free_slot :: "x86_fpu \<Rightarrow> bool" where
  "fpu_free_slot f \<longleftrightarrow> fp_tags f (unat ((fp_top f + 7) AND 7)) = X86_FPU_TAG_EMPTY"

lemma fpu_load_store:
  assumes f: "fpu_ok f" and free: "fpu_free_slot f" and v: "x86_fpu_decode_m32 bits = Some v"
  shows "\<exists>g. x86_fpu_load_m32 (Some f) bits = (X86_FPU_EXECUTE_COMPLETED, Some g) \<and>
    x86_fpu_store_m32 (Some g) (Some out_bits) =
      (X86_FPU_EXECUTE_COMPLETED,
       Some (f\<lparr>fp_registers := (fp_registers f)(unat ((fp_top f + 7) AND 7) := v)\<rparr>), Some bits)"
proof -
  define i where "i = (fp_top f + 7) AND 7"
  define g where "g = x86_fpu_sync_top (f\<lparr>fp_top := i,
    fp_registers := (fp_registers f)(unat i := v),
    fp_tags := (fp_tags f)(unat i := X86_FPU_TAG_VALID)\<rparr>)"
  have load: "x86_fpu_load_m32 (Some f) bits = (X86_FPU_EXECUTE_COMPLETED, Some g)"
    using free by (simp add: x86_fpu_load_m32_def v x86_fpu_push_def Let_def fpu_free_slot_def
        i_def g_def)
  have low: "w AND 7 = take_bit 3 w" for w :: lib_u8
    by (simp add: take_bit_eq_mask mask_eq_exp_minus_1)
  have i: "(i + 0) AND 7 = i" by (simp add: i_def and.assoc)
  have top: "(i + 1) AND 7 = fp_top f"
  proof -
    have "unat (fp_top f) < 8" using f by (simp add: fpu_ok_def)
    moreover have "unat (w AND 7) = unat w mod 8" for w :: lib_u8
      by (simp only: low unsigned_take_bit_eq) (simp add: take_bit_eq_mod)
    ultimately have "unat ((i + 1) AND 7) = unat (fp_top f)"
      by (simp add: i_def unat_word_ariths mod_simps)
    then show ?thesis by (rule unsigned_word_eqI)
  qed
  have st: "x86_fpu_st g 0 = Some (v, i)"
    using i by (simp add: x86_fpu_st_def x86_fpu_physical_index_def g_def)
  have "x86_fpu_sync_top (g\<lparr>fp_tags := (fp_tags g)(unat i := X86_FPU_TAG_EMPTY),
      fp_top := (fp_top g + 1) AND 7\<rparr>) =
    f\<lparr>fp_registers := (fp_registers f)(unat i := v)\<rparr>"
  proof -
    have "fp_tags g = (fp_tags f)(unat i := X86_FPU_TAG_VALID)" "fp_top g = i"
      by (simp_all add: g_def)
    moreover have "(fp_tags f)(unat i := X86_FPU_TAG_EMPTY) = fp_tags f"
      using free by (simp add: fpu_free_slot_def i_def fun_upd_idem)
    moreover have "(fp_status_word g AND NOT X86_FPU_STATUS_TOP) OR push_bit 11 (ucast (fp_top f)) =
        fp_status_word f"
    proof -
      have "fp_status_word g = (fp_status_word f AND NOT X86_FPU_STATUS_TOP) OR push_bit 11 (ucast i)"
        by (simp add: g_def x86_fpu_sync_top_def)
      moreover have "push_bit 11 (ucast i) AND X86_FPU_STATUS_TOP = push_bit 11 (ucast i)"
        by (rule push_top) (simp add: i_def word_and_7_less)
      moreover have "fp_status_word f AND X86_FPU_STATUS_TOP = push_bit 11 (ucast (fp_top f))"
        using f by (simp add: fpu_ok_def)
      ultimately show ?thesis by (simp only: refill_field)
    qed
    ultimately show ?thesis using top by (simp add: x86_fpu_sync_top_def g_def)
  qed
  with load st fpu_encode_decode [OF v] show ?thesis by (auto simp: i_def)
qed

section \<open>Properties\<close>

text \<open>C28: every coprocessor that the operations can produce is well formed: the stack top is below 8
  and is the TOP field of the status word, every finite register is normalised, a pending exception
  shows in the status word, and the chip is busy exactly while ticks remain. In such a state every
  arithmetic operation returns: the normalisation loops end.\<close>

theorem fpu_type_invariant:
  assumes "fpu_reachable f"
  shows "unat (fp_top f) < 8 \<and>
    fp_status_word f AND X86_FPU_STATUS_TOP = push_bit 11 (ucast (fp_top f)) \<and>
    (\<forall>i. fpu_normal (fp_registers f i)) \<and>
    (fp_pending_unmasked_exception f \<longrightarrow> fp_status_word f AND X86_FPU_STATUS_ES \<noteq> 0) \<and>
    (fp_busy f \<longleftrightarrow> fp_completion_remaining_ticks f \<noteq> 0) \<and>
    x86_fpu_binary_st0_sti (Some f) operation i \<noteq> None"
  using fpu_reachable_ok [OF assms] fpu_binary_ok [OF fpu_reachable_ok [OF assms], of operation i]
  by (auto simp: fpu_ok_def BIT_IS_SET_flags(8) [unfolded BIT_IS_SET_def])

text \<open>The accuracy of each operation code on finite operands.\<close>

definition fpu_accurate ::
  "x86_fpu_operation \<Rightarrow> x86_fpu_value \<Rightarrow> x86_fpu_value \<Rightarrow> x86_fpu_value \<Rightarrow> bool" where
  "fpu_accurate operation l r v \<longleftrightarrow>
     (case operation of
        X86_FPU_OPERATION_FADD_ST0_STI \<Rightarrow> fpu_close v (fpu_real l + fpu_real r)
      | X86_FPU_OPERATION_FSUB_ST0_STI \<Rightarrow> fpu_close v (fpu_real l - fpu_real r)
      | X86_FPU_OPERATION_FMUL_ST0_STI \<Rightarrow>
          fpu_chops v (fv_negative l \<noteq> fv_negative r) (fpu_magnitude l * fpu_magnitude r)
      | X86_FPU_OPERATION_FDIV_ST0_STI \<Rightarrow>
          fpu_chops v (fv_negative l \<noteq> fv_negative r) (fpu_magnitude l / fpu_magnitude r)
      | _ \<Rightarrow> False)"

text \<open>C27: on finite operands whose exponents are below 16000 in size, the four arithmetic operations
  complete and write ST(0) only; products and quotients are the exact ones truncated towards zero
  to 24 bits, sums and differences are within two units in the last place, and they are zero
  exactly when the exact result is.\<close>

theorem fpu_arithmetic:
  assumes "x86_fpu_st f 0 = Some (l, destination)" and "x86_fpu_st f index = Some (r, p)"
    and "fpu_finite l" and "fpu_finite r"
    and "operation \<in> {X86_FPU_OPERATION_FADD_ST0_STI, X86_FPU_OPERATION_FSUB_ST0_STI,
      X86_FPU_OPERATION_FMUL_ST0_STI, X86_FPU_OPERATION_FDIV_ST0_STI}"
  shows "\<exists>v. x86_fpu_binary_st0_sti (Some f) operation index =
      Some (X86_FPU_EXECUTE_COMPLETED,
        Some (f\<lparr>fp_registers := (fp_registers f)(unat destination := v)\<rparr>)) \<and>
    fpu_accurate operation l r v"
proof -
  define r' where "r' = r\<lparr>fv_negative := \<not> fv_negative r\<rparr>"
  have r': "fpu_finite r'" "fpu_real r' = - fpu_real r"
    using assms(4)
    by (auto simp: r'_def fpu_finite_def fpu_normal_def fpu_in_range_def fpu_real_def fpu_magnitude_def)
  have "\<exists>v. fpu_binary_result f operation l r = Some (Some v, f) \<and> fpu_accurate operation l r v"
    using assms(5) fpu_add_close [OF assms(3,4)] fpu_add_close [OF assms(3) r'(1)]
      fpu_multiply_chops [OF assms(3,4)] fpu_divide_chops [OF assms(3,4), of f]
    by (auto simp: fpu_binary_result_def fpu_accurate_def r'(2) r'_def [symmetric])
  then show ?thesis using assms(1,2) by auto
qed

text \<open>C29: a single precision number loaded onto a stack with a free slot is stored back as the same
  32 bits, and the store leaves everything but the contents of the freed register as it was.\<close>

theorem fpu_m32_roundtrip:
  assumes "fpu_reachable f" and "fpu_free_slot f"
    and "x86_fpu_load_m32 (Some f) bits = (X86_FPU_EXECUTE_COMPLETED, g)"
  shows "\<exists>v. x86_fpu_store_m32 g (Some out_bits) =
      (X86_FPU_EXECUTE_COMPLETED,
       Some (f\<lparr>fp_registers := (fp_registers f)(unat ((fp_top f + 7) AND 7) := v)\<rparr>), Some bits)"
proof -
  obtain v where "x86_fpu_decode_m32 bits = Some v"
    using assms(3) by (auto simp: x86_fpu_load_m32_def split: option.splits)
  from fpu_load_store [OF fpu_reachable_ok [OF assms(1)] assms(2) this, of out_bits] assms(3)
  show ?thesis by auto
qed

section \<open>Witnesses\<close>

text \<open>An 8087 with 1.5 and 3.0 loaded.\<close>

definition fpu_demo0 :: x86_fpu where
  "fpu_demo0 = the (x86_fpu_reset (Some (zero_fpu\<lparr>fp_profile := X86_FPU_PROFILE_8087\<rparr>)))"

definition fpu_demo1 :: x86_fpu where
  "fpu_demo1 = the (snd (x86_fpu_load_m32 (Some fpu_demo0) 0x40400000))"

definition fpu_demo2 :: x86_fpu where
  "fpu_demo2 = the (snd (x86_fpu_load_m32 (Some fpu_demo1) 0x3fc00000))"

lemma fpu_demo0_reachable: "fpu_reachable fpu_demo0"
  by (rule fpu_created [of 1 None]) (simp add: fpu_demo0_def x86_fpu_profile_of_def)

lemma fpu_demo1_load:
  "x86_fpu_load_m32 (Some fpu_demo0) 0x40400000 = (X86_FPU_EXECUTE_COMPLETED, Some fpu_demo1)"
  by (simp add: fpu_demo1_def x86_fpu_load_m32_def x86_fpu_decode_m32_def Let_def)

lemma fpu_demo2_load:
  "x86_fpu_load_m32 (Some fpu_demo1) 0x3fc00000 = (X86_FPU_EXECUTE_COMPLETED, Some fpu_demo2)"
  by (simp add: fpu_demo2_def x86_fpu_load_m32_def x86_fpu_decode_m32_def Let_def)

theorem fpu_type_invariant_witness:
  "fp_status_word fpu_demo2 AND X86_FPU_STATUS_TOP = push_bit 11 (ucast (fp_top fpu_demo2))"
  using fpu_type_invariant [OF fpu_loaded [OF fpu_loaded [OF fpu_demo0_reachable fpu_demo1_load]
    fpu_demo2_load]] by blast

lemma fpu_demo2_st:
  "x86_fpu_st fpu_demo2 0 = Some (\<lparr>fv_kind = X86_FPU_VALUE_FINITE, fv_negative = False,
     fv_exponent = 0, fv_significand = 0xc00000\<rparr>, 6)"
  "x86_fpu_st fpu_demo2 1 = Some (\<lparr>fv_kind = X86_FPU_VALUE_FINITE, fv_negative = False,
     fv_exponent = 1, fv_significand = 0xc00000\<rparr>, 7)"
  by code_simp+

theorem fpu_arithmetic_witness:
  "\<exists>v. x86_fpu_binary_st0_sti (Some fpu_demo2) X86_FPU_OPERATION_FSUB_ST0_STI 1 =
      Some (X86_FPU_EXECUTE_COMPLETED,
        Some (fpu_demo2\<lparr>fp_registers := (fp_registers fpu_demo2)(unat (6 :: lib_u8) := v)\<rparr>))"
  using fpu_arithmetic [OF fpu_demo2_st, of X86_FPU_OPERATION_FSUB_ST0_STI]
  by (auto simp: fpu_finite_def fpu_normal_def fpu_in_range_def)

theorem fpu_m32_roundtrip_witness:
  "\<exists>v. x86_fpu_store_m32 (Some fpu_demo1) (Some 0) =
      (X86_FPU_EXECUTE_COMPLETED,
       Some (fpu_demo0\<lparr>fp_registers := (fp_registers fpu_demo0)(unat ((fp_top fpu_demo0 + 7) AND 7) := v)\<rparr>),
       Some 0x40400000)"
proof (rule fpu_m32_roundtrip [OF fpu_demo0_reachable _ fpu_demo1_load])
  show "fpu_free_slot fpu_demo0" by code_simp
qed

end
