(* ===== verification/Scheduler.thy ===== *)
theory Scheduler
  imports Timeline Clock Transaction Fpu_Run Ports
begin

unbundle bit_operations_syntax

text \<open>
  The scheduler of the core machine, \<^verbatim>\<open>src/src/x86-core/machine/machine_scheduler.c\<close>:
  it composes the next deadline out of the event timeline, the coprocessor, a waiting processor, a
  refresh cycle in progress and the board, advances guest time from deadline to deadline, and
  arbitrates the bus between refresh, DMA and the processor.

  The state is the part of the machine the scheduler reads or writes, together with a world of any
  type for everything behind the callbacks. The attachment's callbacks, the interpreter of timeline
  callbacks and the two processor operations whose code is not modelled here (prefetch and write
  buffer service) are the fields of an environment; a callback may change the machine and the
  world. Only the trace records are left out. The main loop is a partial function whose value
  \<open>None\<close> stands for not returning.
\<close>

section \<open>State\<close>

datatype x86_core_cpu_profile =
    X86_CORE_CPU_PROFILE_DEFAULT | X86_CORE_CPU_PROFILE_8086 | X86_CORE_CPU_PROFILE_8088
  | X86_CORE_CPU_PROFILE_80186 | X86_CORE_CPU_PROFILE_80286 | X86_CORE_CPU_PROFILE_80386
  | X86_CORE_CPU_PROFILE_80486SX | X86_CORE_CPU_PROFILE_V30

datatype x86_core_machine_time_axis_kind =
    X86_CORE_MACHINE_TIME_AXIS_UNQUALIFIED
  | X86_CORE_MACHINE_TIME_AXIS_MACRO_PROPORTIONAL
  | X86_CORE_MACHINE_TIME_AXIS_VERIFIED_PHYSICAL

record x86_core_machine_time_axis =
  ax_kind :: x86_core_machine_time_axis_kind
  ax_ticks_per_second :: lib_u64

datatype x86_core_machine_retirement_time_contract =
    X86_CORE_MACHINE_RETIREMENT_TIME_DETERMINISTIC
  | X86_CORE_MACHINE_RETIREMENT_TIME_PHYSICAL

record x86_core_machine_transaction_contract =
  ct_dma_cycle_wait_quanta :: lib_u32
  ct_dma_cycle_bus_ready_gate_enabled :: bool
  ct_cpu_cycle_bus_ready_gate_enabled :: bool
  ct_cpu_prefetch_reservation_enabled :: bool
  ct_refresh_cycle_source_ticks :: lib_u32

datatype cpu_wait_state = CPU_WAIT_STATE_NONE | CPU_WAIT_STATE_TEST | CPU_WAIT_STATE_ESC_RESTART

text \<open>The part of the processor's execution context that waits for the TEST input.\<close>

record cpu_wait =
  cw_wait_state :: cpu_wait_state
  cw_wait_poll_remaining_ticks :: lib_u64
  cw_flagHalt :: bool

record 'cb x86_core_machine =
  mc_lifecycle :: x86_core_machine_lifecycle
  mc_firmware_operation_active :: bool
  mc_elapsed_ticks :: lib_u64
  mc_timeline :: "'cb timeline"
  mc_transaction :: transaction
  mc_contract :: x86_core_machine_transaction_contract
  mc_bus_invalidation_cycles :: lib_u64
  mc_cpu_retirement_source_ticks :: lib_u64
  mc_cpu_retirement_wait_pending :: bool
  mc_retirement_time_contract :: x86_core_machine_retirement_time_contract
  mc_provider_clock :: x86_core_machine_clock_domain
  mc_time_axis :: x86_core_machine_time_axis
  mc_cpu_profile :: x86_core_cpu_profile
  mc_fpu :: "x86_fpu ptr"
  mc_wait :: cpu_wait
  mc_dma_cycle_wait_remaining :: lib_u32
  mc_refresh_cycle_ticks_remaining :: lib_u32
  mc_dma_cycle_bus_ready :: bool
  mc_cpu_cycle_bus_ready :: bool

type_synonym ('cb, 'w) core = "'cb x86_core_machine \<times> 'w"

record x86_core_machine_attachment_deadline_observation =
  dl_source_ticks :: lib_u64
  dl_immediate_due :: bool
  dl_l1_compatibility :: bool
  dl_fast_advance_blocked :: bool

definition no_deadline :: x86_core_machine_attachment_deadline_observation where
  "no_deadline = \<lparr>dl_source_ticks = 0, dl_immediate_due = False, dl_l1_compatibility = False,
     dl_fast_advance_blocked = False\<rparr>"

record ('cb, 'w) scheduler_env =
  en_deadline :: "(('cb, 'w) core \<Rightarrow> lib_u64 \<Rightarrow> x86_core_machine_attachment_deadline_observation) ptr"
  en_refresh_request :: "(('cb, 'w) core \<Rightarrow> bool \<times> lib_u8) ptr"
  en_refresh_complete :: "(('cb, 'w) core \<Rightarrow> ('cb, 'w) core) ptr"
  en_dma_ticks :: "(lib_u64 \<Rightarrow> ('cb, 'w) core \<Rightarrow> lib_u64 \<times> ('cb, 'w) core) ptr"
  en_dma_request :: "(('cb, 'w) core \<Rightarrow> bool) ptr"
  en_dma_advance :: "(lib_u64 \<Rightarrow> ('cb, 'w) core \<Rightarrow> ('cb, 'w) core) ptr"
  en_before_internal_advance :: "(lib_u64 \<Rightarrow> lib_u64 \<Rightarrow> ('cb, 'w) core \<Rightarrow> ('cb, 'w) core) ptr"
  en_after_internal_advance :: "(lib_u64 \<Rightarrow> lib_u64 \<Rightarrow> ('cb, 'w) core \<Rightarrow> ('cb, 'w) core) ptr"
  en_wait_test_asserted :: "(('cb, 'w) core \<Rightarrow> bool) ptr"
  en_provider_advance_time :: "(lib_u64 \<Rightarrow> ('cb, 'w) core \<Rightarrow> ('cb, 'w) core) ptr"
  en_timeline_callback :: "'cb \<Rightarrow> lib_u64 \<Rightarrow> ('cb, 'w) core \<Rightarrow> ('cb, ('cb, 'w) core) timeline_program"
  en_cpu_advance_bus :: "lib_u64 \<Rightarrow> bool \<Rightarrow> lib_u64 \<Rightarrow> ('cb, 'w) core \<Rightarrow> ('cb, 'w) core"
  en_cpu_advance_prefetch_reservation :: "('cb, 'w) core \<Rightarrow> ('cb, 'w) core"
  en_retirement_time_is_qualified :: "('cb, 'w) core \<Rightarrow> bool"

section \<open>Bus ready inputs\<close>

fun x86_core_machine_mutable_operation_is_allowed :: "'cb x86_core_machine ptr \<Rightarrow> bool" where
  "x86_core_machine_mutable_operation_is_allowed None = False"
| "x86_core_machine_mutable_operation_is_allowed (Some machine) =
     (\<not> mc_firmware_operation_active machine)"

fun x86_core_machine_set_dma_bus_ready ::
  "'cb x86_core_machine ptr \<Rightarrow> bool \<Rightarrow> lib_status \<times> 'cb x86_core_machine ptr" where
  "x86_core_machine_set_dma_bus_ready None ready = (LIB_STATUS_INVALID_ARGUMENT, None)"
| "x86_core_machine_set_dma_bus_ready (Some machine) ready =
     (if \<not> x86_core_machine_mutable_operation_is_allowed (Some machine) \<or>
         \<not> ct_dma_cycle_bus_ready_gate_enabled (mc_contract machine)
      then (LIB_STATUS_INVALID_ARGUMENT, Some machine)
      else (LIB_STATUS_OK, Some (machine\<lparr>mc_dma_cycle_bus_ready := ready\<rparr>)))"

fun x86_core_machine_set_cpu_bus_ready ::
  "'cb x86_core_machine ptr \<Rightarrow> bool \<Rightarrow> lib_status \<times> 'cb x86_core_machine ptr" where
  "x86_core_machine_set_cpu_bus_ready None ready = (LIB_STATUS_INVALID_ARGUMENT, None)"
| "x86_core_machine_set_cpu_bus_ready (Some machine) ready =
     (if \<not> x86_core_machine_mutable_operation_is_allowed (Some machine) \<or>
         \<not> ct_cpu_cycle_bus_ready_gate_enabled (mc_contract machine)
      then (LIB_STATUS_INVALID_ARGUMENT, Some machine)
      else (LIB_STATUS_OK, Some (machine\<lparr>mc_cpu_cycle_bus_ready := ready\<rparr>)))"

section \<open>The waiting processor\<close>

definition x86_core_cpu_execution_poll_wait ::
  "('cb, 'w) scheduler_env \<Rightarrow> ('cb, 'w) core \<Rightarrow> ('cb, 'w) core" where
  "x86_core_cpu_execution_poll_wait env s =
     (let wait = mc_wait (fst s)
      in if cw_wait_state wait = CPU_WAIT_STATE_NONE \<or> cw_wait_poll_remaining_ticks wait \<noteq> 0 then s
         else case en_wait_test_asserted env of
                None \<Rightarrow> s
              | Some asserted \<Rightarrow>
                  if asserted s then s
                  else ((fst s)\<lparr>mc_wait := wait\<lparr>cw_wait_state := CPU_WAIT_STATE_NONE,
                          cw_flagHalt := False\<rparr>\<rparr>, snd s))"

definition set_wait :: "(cpu_wait \<Rightarrow> cpu_wait) \<Rightarrow> ('cb, 'w) core \<Rightarrow> ('cb, 'w) core" where
  "set_wait f s = ((fst s)\<lparr>mc_wait := f (mc_wait (fst s))\<rparr>, snd s)"

definition x86_core_cpu_execution_advance_wait ::
  "('cb, 'w) scheduler_env \<Rightarrow> lib_u64 \<Rightarrow> ('cb, 'w) core \<Rightarrow> ('cb, 'w) core" where
  "x86_core_cpu_execution_advance_wait env elapsed_ticks s =
     (let wait = mc_wait (fst s)
      in if cw_wait_state wait = CPU_WAIT_STATE_NONE \<or> cw_wait_poll_remaining_ticks wait = 0 \<or>
            elapsed_ticks = 0 then s
         else if elapsed_ticks < cw_wait_poll_remaining_ticks wait then
           set_wait (\<lambda>wait. wait\<lparr>cw_wait_poll_remaining_ticks :=
             cw_wait_poll_remaining_ticks wait - elapsed_ticks\<rparr>) s
         else
           let s = x86_core_cpu_execution_poll_wait env
                     (set_wait (\<lambda>wait. wait\<lparr>cw_wait_poll_remaining_ticks := 0\<rparr>) s)
           in if cw_wait_state (mc_wait (fst s)) \<noteq> CPU_WAIT_STATE_NONE
              then set_wait (\<lambda>wait. wait\<lparr>cw_wait_poll_remaining_ticks := 5\<rparr>) s else s)"

text \<open>The status and, when it is OK, the ticks written.\<close>

definition x86_core_cpu_execution_wait_poll_ticks ::
  "('cb, 'w) scheduler_env \<Rightarrow> ('cb, 'w) core \<Rightarrow> lib_u64 ptr" where
  "x86_core_cpu_execution_wait_poll_ticks env s =
     (if cw_wait_state (mc_wait (fst s)) = CPU_WAIT_STATE_NONE \<or> en_wait_test_asserted env = None
      then None else Some (cw_wait_poll_remaining_ticks (mc_wait (fst s))))"

section \<open>The next deadline\<close>

datatype x86_core_machine_time_progress_disposition =
    X86_CORE_MACHINE_TIME_PROGRESS_IDLE
  | X86_CORE_MACHINE_TIME_PROGRESS_DEADLINE
  | X86_CORE_MACHINE_TIME_PROGRESS_IMMEDIATE
  | X86_CORE_MACHINE_TIME_PROGRESS_L1_COMPATIBILITY

record x86_core_machine_time_observation =
  ob_elapsed_ticks :: lib_u64
  ob_next_deadline_tick :: lib_u64
  ob_pacing_ticks_per_second :: lib_u64
  ob_physical_ticks_per_second :: lib_u64
  ob_next_deadline_valid :: bool
  ob_pacing_time_available :: bool
  ob_physical_time_available :: bool
  ob_progress_disposition :: x86_core_machine_time_progress_disposition

text \<open>The result and the new nearest distance.\<close>

definition x86_core_machine_deadline_consider_absolute ::
  "'cb x86_core_machine \<Rightarrow> lib_u64 \<Rightarrow> lib_u64 \<Rightarrow> bool \<times> lib_u64" where
  "x86_core_machine_deadline_consider_absolute machine due_tick io_source_ticks =
     (if due_tick \<le> mc_elapsed_ticks machine then (True, io_source_ticks)
      else
        let source_ticks = due_tick - mc_elapsed_ticks machine
        in (False, if io_source_ticks = 0 \<or> source_ticks < io_source_ticks then source_ticks
                   else io_source_ticks))"

definition deadline_absolute ::
  "'cb x86_core_machine \<Rightarrow> lib_u64 \<Rightarrow> bool \<times> lib_u64 \<Rightarrow> bool \<times> lib_u64" where
  "deadline_absolute machine due_tick acc =
     (let (due, source_ticks) =
        x86_core_machine_deadline_consider_absolute machine due_tick (snd acc)
      in (fst acc \<or> due, source_ticks))"

text \<open>A distance from a device; it is ignored when the tick it names is beyond 64 bits.\<close>

definition deadline_relative ::
  "'cb x86_core_machine \<Rightarrow> lib_u64 ptr \<Rightarrow> bool \<times> lib_u64 \<Rightarrow> bool \<times> lib_u64" where
  "deadline_relative machine device_ticks acc =
     (case device_ticks of
        None \<Rightarrow> acc
      | Some ticks \<Rightarrow>
          if ticks \<le> LIB_UINT64_MAX - mc_elapsed_ticks machine
          then deadline_absolute machine (mc_elapsed_ticks machine + ticks) acc else acc)"

definition fpu_deadline :: "x86_fpu ptr \<Rightarrow> lib_u64 ptr" where
  "fpu_deadline fpu =
     (case x86_fpu_ticks_until_completion fpu (Some 0) of
        (status, out) \<Rightarrow> if status = LIB_STATUS_OK then out else None)"

text \<open>Distances that are compared as they are.\<close>

definition nearer :: "lib_u64 \<Rightarrow> bool \<times> lib_u64 \<Rightarrow> bool \<times> lib_u64" where
  "nearer ticks acc =
     (if ticks \<noteq> 0 \<and> (snd acc = 0 \<or> ticks < snd acc) then (fst acc, ticks) else acc)"

definition event_deadline :: "'cb x86_core_machine \<Rightarrow> bool \<times> lib_u64" where
  "event_deadline machine =
     (case x86_core_machine_timeline_next_due (Some (mc_timeline machine)) (Some 0) of
        (status, out) \<Rightarrow>
          if status = LIB_STATUS_OK then deadline_absolute machine (the out) (False, 0) else (False, 0))"

definition poll_deadline :: "('cb, 'w) scheduler_env \<Rightarrow> ('cb, 'w) core \<Rightarrow> lib_u64 ptr" where
  "poll_deadline env s =
     (if mc_cpu_profile (fst s) = X86_CORE_CPU_PROFILE_V30 \<and>
         (mc_cpu_retirement_source_ticks (fst s) \<noteq> 0 \<or> mc_cpu_retirement_wait_pending (fst s))
      then None else x86_core_cpu_execution_wait_poll_ticks env s)"

text \<open>Everything the machine itself waits for: whether something is due now, and the nearest distance.\<close>

definition machine_deadlines ::
  "('cb, 'w) scheduler_env \<Rightarrow> ('cb, 'w) core \<Rightarrow> bool \<times> lib_u64" where
  "machine_deadlines env s =
     (let machine = fst s;
          acc = event_deadline machine;
          acc = deadline_relative machine (fpu_deadline (mc_fpu machine)) acc;
          acc = deadline_relative machine (poll_deadline env s) acc
      in nearer (ucast (mc_refresh_cycle_ticks_remaining machine)) acc)"

definition time_observation_start :: "'cb x86_core_machine \<Rightarrow> x86_core_machine_time_observation" where
  "time_observation_start machine =
     (let kind = ax_kind (mc_time_axis machine);
          rate = ax_ticks_per_second (mc_time_axis machine);
          pacing = (kind = X86_CORE_MACHINE_TIME_AXIS_MACRO_PROPORTIONAL \<or>
                    kind = X86_CORE_MACHINE_TIME_AXIS_VERIFIED_PHYSICAL);
          physical = (kind = X86_CORE_MACHINE_TIME_AXIS_VERIFIED_PHYSICAL)
      in \<lparr>ob_elapsed_ticks = mc_elapsed_ticks machine, ob_next_deadline_tick = 0,
          ob_pacing_ticks_per_second = (if pacing then rate else 0),
          ob_physical_ticks_per_second = (if physical then rate else 0),
          ob_next_deadline_valid = False, ob_pacing_time_available = pacing,
          ob_physical_time_available = physical,
          ob_progress_disposition = X86_CORE_MACHINE_TIME_PROGRESS_IDLE\<rparr>)"

definition x86_core_machine_capture_time_with_board ::
  "('cb, 'w) scheduler_env \<Rightarrow> ('cb, 'w) core \<Rightarrow>
     x86_core_machine_time_observation \<times> x86_core_machine_attachment_deadline_observation" where
  "x86_core_machine_capture_time_with_board env s =
     (let machine = fst s;
          observation = time_observation_start machine;
          board = (case en_deadline env of None \<Rightarrow> no_deadline
                   | Some deadline \<Rightarrow> deadline s (mc_elapsed_ticks machine));
          (immediate_due, source_ticks) =
            nearer (dl_source_ticks board) (machine_deadlines env s);
          immediate_due = (immediate_due \<or> dl_immediate_due board)
      in if immediate_due then
           (observation\<lparr>ob_progress_disposition := X86_CORE_MACHINE_TIME_PROGRESS_IMMEDIATE\<rparr>, board)
         else if dl_l1_compatibility board then
           (observation\<lparr>ob_progress_disposition :=
              X86_CORE_MACHINE_TIME_PROGRESS_L1_COMPATIBILITY\<rparr>, board)
         else
           let observation = (if source_ticks \<noteq> 0 then observation\<lparr>ob_progress_disposition :=
                 X86_CORE_MACHINE_TIME_PROGRESS_DEADLINE\<rparr> else observation)
           in if dl_fast_advance_blocked board then (observation, board)
              else if source_ticks \<noteq> 0 \<and> source_ticks \<le> LIB_UINT64_MAX - mc_elapsed_ticks machine
              then (observation\<lparr>ob_next_deadline_tick := mc_elapsed_ticks machine + source_ticks,
                      ob_next_deadline_valid := True\<rparr>, board)
              else (observation, board))"

definition x86_core_machine_capture_time_observation_private ::
  "('cb, 'w) scheduler_env \<Rightarrow> ('cb, 'w) core \<Rightarrow> x86_core_machine_time_observation" where
  "x86_core_machine_capture_time_observation_private env s =
     fst (x86_core_machine_capture_time_with_board env s)"

section \<open>Bus arbitration\<close>

definition set_transaction :: "transaction ptr \<Rightarrow> ('cb, 'w) core \<Rightarrow> ('cb, 'w) core" where
  "set_transaction t s = ((fst s)\<lparr>mc_transaction := the t\<rparr>, snd s)"

definition set_refresh_remaining :: "lib_u32 \<Rightarrow> ('cb, 'w) core \<Rightarrow> ('cb, 'w) core" where
  "set_refresh_remaining n s = ((fst s)\<lparr>mc_refresh_cycle_ticks_remaining := n\<rparr>, snd s)"

text \<open>An optional callback that changes the state.\<close>

definition call_optional :: "('s \<Rightarrow> 's) ptr \<Rightarrow> 's \<Rightarrow> 's" where
  "call_optional callback s = (case callback of None \<Rightarrow> s | Some f \<Rightarrow> f s)"

definition release_hold ::
  "x86_core_machine_transaction_owner \<Rightarrow> ('cb, 'w) core \<Rightarrow> ('cb, 'w) core" where
  "release_hold owner s = set_transaction
     (x86_core_machine_transaction_hold_release owner (Some (mc_transaction (fst s)))) s"

definition commit_transaction :: "('cb, 'w) core \<Rightarrow> ('cb, 'w) core" where
  "commit_transaction s = set_transaction
     (x86_core_machine_transaction_commit (Some (mc_transaction (fst s)))) s"

definition holds_cpu_bus :: "'cb x86_core_machine \<Rightarrow> bool" where
  "holds_cpu_bus machine \<longleftrightarrow>
     mc_cpu_profile machine \<in> {X86_CORE_CPU_PROFILE_80286, X86_CORE_CPU_PROFILE_80386,
       X86_CORE_CPU_PROFILE_80486SX}"

definition dma_requested :: "('cb, 'w) scheduler_env \<Rightarrow> ('cb, 'w) core \<Rightarrow> bool" where
  "dma_requested env s = (case en_dma_request env of None \<Rightarrow> False | Some request \<Rightarrow> request s)"

definition dma_advance :: "('cb, 'w) scheduler_env \<Rightarrow> lib_u64 \<Rightarrow> ('cb, 'w) core \<Rightarrow> ('cb, 'w) core" where
  "dma_advance env ticks s = call_optional (map_option (\<lambda>f. f ticks) (en_dma_advance env)) s"

text \<open>
  The grant by hold: \<open>None\<close> when the request is refused, so that the code takes its other branch
  with the state unchanged.
\<close>

definition dma_hold_grant ::
  "('cb, 'w) scheduler_env \<Rightarrow> lib_u64 \<Rightarrow> ('cb, 'w) core \<Rightarrow> ('cb, 'w) core option" where
  "dma_hold_grant env ticks s =
     (case x86_core_machine_transaction_hold_request X86_CORE_MACHINE_TRANSACTION_OWNER_DMA 0
             (Some (mc_transaction (fst s))) of
        (status, t) \<Rightarrow>
          if status \<noteq> LIB_STATUS_OK then None
          else
            case x86_core_machine_transaction_hold_acknowledge
                   X86_CORE_MACHINE_TRANSACTION_OWNER_DMA t of
              (status, t) \<Rightarrow>
                let s = set_transaction t s;
                    s = (if status = LIB_STATUS_OK then dma_advance env ticks s else s)
                in Some (release_hold X86_CORE_MACHINE_TRANSACTION_OWNER_DMA s))"

definition x86_core_machine_dma_grant_advance ::
  "('cb, 'w) scheduler_env \<Rightarrow> ('cb, 'w) core \<Rightarrow> ('cb, 'w) core" where
  "x86_core_machine_dma_grant_advance env s =
     (case (if holds_cpu_bus (fst s) \<and> dma_requested env s then dma_hold_grant env 1 s else None) of
        Some s' \<Rightarrow> s'
      | None \<Rightarrow> dma_advance env 1 s)"

definition refresh_requested :: "('cb, 'w) scheduler_env \<Rightarrow> ('cb, 'w) core \<Rightarrow> lib_u8 ptr" where
  "refresh_requested env s =
     (case en_refresh_request env of
        None \<Rightarrow> None
      | Some request \<Rightarrow> (if fst (request s) then Some (snd (request s)) else None))"

definition refresh_complete :: "('cb, 'w) scheduler_env \<Rightarrow> ('cb, 'w) core \<Rightarrow> ('cb, 'w) core" where
  "refresh_complete env s = call_optional (en_refresh_complete env) s"

text \<open>The cycle in progress, and the start of a new one.\<close>

definition refresh_continue ::
  "('cb, 'w) scheduler_env \<Rightarrow> lib_u64 \<Rightarrow> ('cb, 'w) core \<Rightarrow> ('cb, 'w) core" where
  "refresh_continue env source_ticks s =
     (let remaining = mc_refresh_cycle_ticks_remaining (fst s)
      in if source_ticks < ucast remaining then set_refresh_remaining (remaining - ucast source_ticks) s
         else release_hold X86_CORE_MACHINE_TRANSACTION_OWNER_REFRESH
                (refresh_complete env (commit_transaction (set_refresh_remaining 0 s))))"

definition refresh_start ::
  "('cb, 'w) scheduler_env \<Rightarrow> lib_u8 \<Rightarrow> ('cb, 'w) core \<Rightarrow> ('cb, 'w) core" where
  "refresh_start env address s =
     (case x86_core_machine_transaction_hold_request X86_CORE_MACHINE_TRANSACTION_OWNER_REFRESH
             (ucast address) (Some (mc_transaction (fst s))) of
        (status, t) \<Rightarrow>
          if status \<noteq> LIB_STATUS_OK then set_transaction t s
          else
            case x86_core_machine_transaction_hold_acknowledge
                   X86_CORE_MACHINE_TRANSACTION_OWNER_REFRESH t of
              (status, t) \<Rightarrow>
                let (begun, t) =
                      (if status = LIB_STATUS_OK then
                         x86_core_machine_transaction_begin
                           X86_CORE_MACHINE_TRANSACTION_OWNER_REFRESH
                           X86_CORE_MACHINE_TRANSACTION_REFRESH_MEMORY_CYCLE (ucast address) 0 0 t
                       else (status, t));
                    s = set_transaction t s
                in if begun = LIB_STATUS_OK then
                     let s = set_refresh_remaining
                               (ct_refresh_cycle_source_ticks (mc_contract (fst s))) s
                     in if mc_refresh_cycle_ticks_remaining (fst s) \<noteq> 0 then s
                        else release_hold X86_CORE_MACHINE_TRANSACTION_OWNER_REFRESH
                               (refresh_complete env (commit_transaction s))
                   else release_hold X86_CORE_MACHINE_TRANSACTION_OWNER_REFRESH s)"

definition x86_core_machine_refresh_hold_advance ::
  "('cb, 'w) scheduler_env \<Rightarrow> lib_u64 \<Rightarrow> ('cb, 'w) core \<Rightarrow> ('cb, 'w) core" where
  "x86_core_machine_refresh_hold_advance env source_ticks s =
     (if mc_refresh_cycle_ticks_remaining (fst s) \<noteq> 0 then refresh_continue env source_ticks s
      else case refresh_requested env s of
             None \<Rightarrow> s
           | Some address \<Rightarrow> refresh_start env address s)"

text \<open>The loop over the DMA ticks when every cycle has wait quanta; it also reports bus use.\<close>

definition dma_wait_tick ::
  "('cb, 'w) scheduler_env \<Rightarrow> ('cb, 'w) core \<times> bool \<Rightarrow> ('cb, 'w) core \<times> bool" where
  "dma_wait_tick env su =
     (let s = fst su; machine = fst s
      in if \<not> dma_requested env s then su
         else if ct_dma_cycle_bus_ready_gate_enabled (mc_contract machine) \<and>
                 \<not> mc_dma_cycle_bus_ready machine then (s, True)
         else if mc_dma_cycle_wait_remaining machine < ct_dma_cycle_wait_quanta (mc_contract machine)
         then ((machine\<lparr>mc_dma_cycle_wait_remaining := mc_dma_cycle_wait_remaining machine + 1\<rparr>,
                snd s), True)
         else
           let s = x86_core_machine_dma_grant_advance env s
           in (((fst s)\<lparr>mc_dma_cycle_wait_remaining := 0\<rparr>, snd s), True))"

definition arbitration_dma ::
  "('cb, 'w) scheduler_env \<Rightarrow> lib_u64 \<Rightarrow> bool \<Rightarrow> ('cb, 'w) core \<times> bool \<Rightarrow> ('cb, 'w) core \<times> bool" where
  "arbitration_dma env dma_ticks refresh_occupied su =
     (let s = fst su; machine = fst s
      in if refresh_occupied then su
         else if ct_dma_cycle_wait_quanta (mc_contract machine) \<noteq> 0 \<and> dma_ticks \<noteq> 0 then
           (dma_wait_tick env ^^ unat dma_ticks) su
         else case (if holds_cpu_bus machine \<and> dma_ticks \<noteq> 0 \<and> dma_requested env s
                    then dma_hold_grant env dma_ticks s else None) of
                Some s' \<Rightarrow> (s', True)
              | None \<Rightarrow> (dma_advance env dma_ticks s, snd su))"

definition bus_is_free :: "'cb x86_core_machine \<Rightarrow> bool" where
  "bus_is_free machine \<longleftrightarrow>
     tx_owner (mc_transaction machine) = NO_OWNER \<and> tx_hold_owner (mc_transaction machine) = NO_OWNER"

text \<open>The processor's share of the interval, and its next prefetch.\<close>

definition arbitration_cpu ::
  "('cb, 'w) scheduler_env \<Rightarrow> lib_u64 \<Rightarrow> bool \<Rightarrow> bool \<Rightarrow> ('cb, 'w) core \<Rightarrow> ('cb, 'w) core" where
  "arbitration_cpu env source_ticks refresh_pending bus_used s =
     (let machine = fst s;
          s = en_cpu_advance_bus env source_ticks
            (\<not> bus_used \<and>
             (\<not> ct_cpu_cycle_bus_ready_gate_enabled (mc_contract machine) \<or>
              mc_cpu_cycle_bus_ready machine) \<and> bus_is_free machine)
            (if mc_cpu_retirement_source_ticks machine \<noteq> 0 \<or> mc_cpu_retirement_wait_pending machine
             then mc_bus_invalidation_cycles machine else 0) s
      in if ct_cpu_prefetch_reservation_enabled (mc_contract (fst s)) \<and> \<not> refresh_pending \<and>
            refresh_requested env s = None \<and> \<not> dma_requested env s \<and> bus_is_free (fst s)
         then en_cpu_advance_prefetch_reservation env s else s)"

definition x86_core_machine_arbitration_advance ::
  "('cb, 'w) scheduler_env \<Rightarrow> lib_u64 \<Rightarrow> ('cb, 'w) core \<Rightarrow> ('cb, 'w) core" where
  "x86_core_machine_arbitration_advance env source_ticks s =
     (if source_ticks = 0 then s
      else
        let s = ((fst s)\<lparr>mc_bus_invalidation_cycles := 0\<rparr>, snd s);
            (dma_ticks, s) = (case en_dma_ticks env of None \<Rightarrow> (0, s) | Some f \<Rightarrow> f source_ticks s);
            refresh_pending = (refresh_requested env s \<noteq> None);
            refresh_occupied = (mc_refresh_cycle_ticks_remaining (fst s) \<noteq> 0);
            s = x86_core_machine_refresh_hold_advance env source_ticks s;
            refresh_occupied = (refresh_occupied \<or> mc_refresh_cycle_ticks_remaining (fst s) \<noteq> 0);
            (s, bus_used) = arbitration_dma env dma_ticks refresh_occupied
              (s, refresh_pending \<or> refresh_occupied)
        in arbitration_cpu env source_ticks refresh_pending bus_used s)"

section \<open>The main loop\<close>

definition x86_core_machine_internal_advance ::
  "('cb, 'w) scheduler_env \<Rightarrow> lib_u64 \<Rightarrow> ('cb, 'w) core \<Rightarrow> ('cb, 'w) core" where
  "x86_core_machine_internal_advance env source_ticks s =
     (if source_ticks = 0 then s
      else
        let s = ((fst s)\<lparr>mc_fpu := x86_fpu_advance (mc_fpu (fst s)) source_ticks\<rparr>, snd s);
            machine = fst s
        in if mc_cpu_profile machine \<noteq> X86_CORE_CPU_PROFILE_V30 \<or>
              (mc_cpu_retirement_source_ticks machine = 0 \<and> \<not> mc_cpu_retirement_wait_pending machine)
           then x86_core_cpu_execution_advance_wait env source_ticks s else s)"

text \<open>
  The dispatch of the timeline. Its callbacks see the machine as it is and change it through the
  timeline's interface or otherwise; the timeline they leave is the one of the dispatch.
\<close>

definition timeline_dispatch ::
  "('cb, 'w) scheduler_env \<Rightarrow> lib_u64 \<Rightarrow> ('cb, 'w) core \<Rightarrow> ('cb, 'w) core \<times> (timeline_key \<times> 'cb) list" where
  "timeline_dispatch env due_tick s =
     (case x86_core_machine_timeline_advance (en_timeline_callback env)
             (Some (mc_timeline (fst s))) due_tick s of
        (status, timeline, s', events) \<Rightarrow> (((fst s')\<lparr>mc_timeline := the timeline\<rparr>, snd s'), events))"

definition scheduler_due_tick ::
  "('cb, 'w) scheduler_env \<Rightarrow> lib_u64 \<Rightarrow> ('cb, 'w) core \<Rightarrow> lib_u64" where
  "scheduler_due_tick env target_tick s =
     (let (observation, board) = x86_core_machine_capture_time_with_board env s;
          elapsed = mc_elapsed_ticks (fst s)
      in if dl_l1_compatibility board then elapsed + 1
         else if ob_next_deadline_valid observation \<and> ob_next_deadline_tick observation > elapsed \<and>
                 ob_next_deadline_tick observation < target_tick
         then ob_next_deadline_tick observation
         else if dl_fast_advance_blocked board then elapsed + 1
         else target_tick)"

text \<open>One pass of the loop; what it did is kept as a record of the run.\<close>

record 'cb scheduler_pass =
  sp_source_ticks :: lib_u64
  sp_due_tick :: lib_u64
  sp_disposition :: x86_core_machine_time_progress_disposition
  sp_events :: "(timeline_key \<times> 'cb) list"

definition call_advance ::
  "(lib_u64 \<Rightarrow> lib_u64 \<Rightarrow> 's \<Rightarrow> 's) ptr \<Rightarrow> lib_u64 \<Rightarrow> lib_u64 \<Rightarrow> 's \<Rightarrow> 's" where
  "call_advance callback source_ticks due_tick s =
     call_optional (map_option (\<lambda>f. f source_ticks due_tick) callback) s"

definition refresh_poll :: "('cb, 'w) scheduler_env \<Rightarrow> ('cb, 'w) core \<Rightarrow> ('cb, 'w) core" where
  "refresh_poll env s =
     (if ct_refresh_cycle_source_ticks (mc_contract (fst s)) \<noteq> 0
      then x86_core_machine_refresh_hold_advance env 0 s else s)"

definition scheduler_pass ::
  "('cb, 'w) scheduler_env \<Rightarrow> lib_u64 \<Rightarrow> ('cb, 'w) core \<Rightarrow> 'cb scheduler_pass \<times> ('cb, 'w) core" where
  "scheduler_pass env target_tick s =
     (let s = refresh_poll env s;
          due_tick = scheduler_due_tick env target_tick s;
          disposition =
            ob_progress_disposition (fst (x86_core_machine_capture_time_with_board env s));
          source_ticks = due_tick - mc_elapsed_ticks (fst s);
          s = ((fst s)\<lparr>mc_elapsed_ticks := due_tick\<rparr>, snd s);
          (s, events) = timeline_dispatch env due_tick s;
          s = x86_core_machine_arbitration_advance env source_ticks s;
          s = call_advance (en_before_internal_advance env) source_ticks due_tick s;
          s = x86_core_machine_internal_advance env source_ticks s;
          s = call_advance (en_after_internal_advance env) source_ticks due_tick s
      in (\<lparr>sp_source_ticks = source_ticks, sp_due_tick = due_tick, sp_disposition = disposition,
            sp_events = events\<rparr>, s))"

partial_function (option) scheduler_loop ::
  "('cb, 'w) scheduler_env \<Rightarrow> lib_u64 \<Rightarrow> ('cb, 'w) core \<Rightarrow>
     ('cb scheduler_pass list \<times> ('cb, 'w) core) option" where
  "scheduler_loop env target_tick s =
     (if mc_elapsed_ticks (fst s) < target_tick then
        Option.bind (scheduler_loop env target_tick (snd (scheduler_pass env target_tick s)))
          (\<lambda>(passes, s'). Some (fst (scheduler_pass env target_tick s) # passes, s'))
      else Some ([], s))"

definition provider_advance ::
  "('cb, 'w) scheduler_env \<Rightarrow> lib_u64 \<Rightarrow> ('cb, 'w) core \<Rightarrow> ('cb, 'w) core" where
  "provider_advance env elapsed_ticks s =
     (let (provider_ticks, clock) =
            x86_core_machine_clock_domain_advance (Some (mc_provider_clock (fst s))) elapsed_ticks
      in call_optional (map_option (\<lambda>f. f provider_ticks) (en_provider_advance_time env))
           ((fst s)\<lparr>mc_provider_clock := the clock\<rparr>, snd s))"

definition x86_core_machine_advance_scheduler ::
  "('cb, 'w) scheduler_env \<Rightarrow> lib_u64 \<Rightarrow> ('cb, 'w) core \<Rightarrow>
     ('cb scheduler_pass list \<times> ('cb, 'w) core) option" where
  "x86_core_machine_advance_scheduler env elapsed_ticks s =
     (if elapsed_ticks = 0 \<or> LIB_UINT64_MAX - mc_elapsed_ticks (fst s) < elapsed_ticks
      then Some ([], s)
      else Option.bind (scheduler_loop env (mc_elapsed_ticks (fst s) + elapsed_ticks) s)
             (\<lambda>(passes, s'). Some (passes, provider_advance env elapsed_ticks s')))"

datatype x86_core_machine_time_publication_origin =
    X86_CORE_MACHINE_TIME_PUBLICATION_CPU_RETIREMENT
  | X86_CORE_MACHINE_TIME_PUBLICATION_EXTERNAL_WAIT
  | X86_CORE_MACHINE_TIME_PUBLICATION_DEADLINE
  | X86_CORE_MACHINE_TIME_PUBLICATION_DETERMINISTIC_ADVANCE
  | X86_CORE_MACHINE_TIME_PUBLICATION_L1_COMPATIBILITY
  | X86_CORE_MACHINE_TIME_PUBLICATION_CPU_EVENT
  | X86_CORE_MACHINE_TIME_PUBLICATION_CPU_EXECUTION

definition publication_refused ::
  "('cb, 'w) scheduler_env \<Rightarrow> x86_core_machine_time_publication_origin \<Rightarrow> ('cb, 'w) core \<Rightarrow> bool" where
  "publication_refused env origin s \<longleftrightarrow>
     mc_retirement_time_contract (fst s) = X86_CORE_MACHINE_RETIREMENT_TIME_PHYSICAL \<and>
     origin \<noteq> X86_CORE_MACHINE_TIME_PUBLICATION_CPU_RETIREMENT \<and>
     origin \<noteq> X86_CORE_MACHINE_TIME_PUBLICATION_DEADLINE \<and>
     (origin \<noteq> X86_CORE_MACHINE_TIME_PUBLICATION_CPU_EXECUTION \<or>
      \<not> en_retirement_time_is_qualified env s)"

definition x86_core_machine_publish_elapsed_ticks ::
  "('cb, 'w) scheduler_env \<Rightarrow> lib_u64 \<Rightarrow> x86_core_machine_time_publication_origin \<Rightarrow>
     ('cb, 'w) core \<Rightarrow> (lib_status \<times> 'cb scheduler_pass list \<times> ('cb, 'w) core) option" where
  "x86_core_machine_publish_elapsed_ticks env elapsed_ticks origin s =
     (if elapsed_ticks = 0 \<or> LIB_UINT64_MAX - mc_elapsed_ticks (fst s) < elapsed_ticks
      then Some (LIB_STATUS_INVALID_ARGUMENT, [], s)
      else if publication_refused env origin s then Some (LIB_STATUS_INVALID_STATE, [], s)
      else Option.bind (x86_core_machine_advance_scheduler env elapsed_ticks s)
             (\<lambda>(passes, s'). Some
               (if mc_lifecycle (fst s') = X86_CORE_MACHINE_FAULTED
                then LIB_STATUS_INTERNAL_ERROR else LIB_STATUS_OK, passes, s')))"

end
