(* ===== verification/Scheduler_Run.thy ===== *)
theory Scheduler_Run
  imports Scheduler
begin

unbundle bit_operations_syntax

text \<open>
  What the scheduler promises, given what it may rely on: a locale states the contract of the
  attachment's callbacks, the lemmas follow each operation of one pass, and the properties say that
  publishing time always returns, that it slices guest time exactly, that no timeline event is late,
  and that the refresh cycle and the bus always agree.
\<close>

section \<open>The bus seen by the scheduler\<close>

definition bus_of :: "transaction \<Rightarrow>
    x86_core_machine_transaction_owner \<times> x86_core_machine_transaction_owner \<times> bool" where
  "bus_of t = (tx_owner t, tx_hold_owner t, tx_hold_acknowledged t)"

lemma bus_request:
  assumes "x86_core_machine_transaction_hold_request owner d (Some t) = (status, t')" "owner \<noteq> NO_OWNER"
  shows "if tx_owner t = NO_OWNER \<and> tx_hold_owner t = NO_OWNER
    then status = LIB_STATUS_OK \<and> (\<exists>u. t' = Some u \<and> bus_of u = (NO_OWNER, owner, False))
    else status \<noteq> LIB_STATUS_OK \<and> t' = Some t"
  using assms by (auto simp: bus_of_def Let_def split: if_splits)

lemma bus_acknowledge:
  assumes "x86_core_machine_transaction_hold_acknowledge owner (Some t) = (status, t')"
    "bus_of t = (NO_OWNER, owner, False)" "owner \<noteq> NO_OWNER"
  shows "status = LIB_STATUS_OK \<and> (\<exists>u. t' = Some u \<and> bus_of u = (NO_OWNER, owner, True))"
  using assms by (auto simp: bus_of_def Let_def split: if_splits)

lemma bus_begin:
  assumes "x86_core_machine_transaction_begin owner kind a v d (Some t) = (status, t')"
    "bus_of t = (NO_OWNER, owner, True)" "owner \<noteq> NO_OWNER" "1 \<le> kind" "kind \<le> 13"
  shows "status = LIB_STATUS_OK \<and> (\<exists>u. t' = Some u \<and> bus_of u = (owner, owner, True))"
  using assms by (auto simp: bus_of_def Let_def split: if_splits)

lemma bus_commit:
  "\<exists>u. x86_core_machine_transaction_commit (Some t) = Some u \<and>
    bus_of u = (NO_OWNER, tx_hold_owner t, tx_hold_acknowledged t)"
  by (auto simp: bus_of_def Let_def)

lemma bus_release:
  assumes "bus_of t = (NO_OWNER, owner, True)" "owner \<noteq> NO_OWNER"
  shows "\<exists>u. x86_core_machine_transaction_hold_release owner (Some t) = Some u \<and>
    bus_of u = (NO_OWNER, NO_OWNER, False)"
  using assms by (auto simp: bus_of_def Let_def)


declare
  x86_core_machine_transaction_hold_request.simps [simp del]
  x86_core_machine_transaction_hold_acknowledge.simps [simp del]
  x86_core_machine_transaction_hold_release.simps [simp del]
  x86_core_machine_transaction_begin.simps [simp del]
  x86_core_machine_transaction_commit.simps [simp del]

text \<open>
  Between the operations of a pass: a refresh cycle in progress runs the bus under an acknowledged
  hold, and otherwise nobody holds it and at most the processor has a transaction open.
\<close>

definition bus_ok :: "'cb x86_core_machine \<Rightarrow> bool" where
  "bus_ok m \<longleftrightarrow>
     (if mc_refresh_cycle_ticks_remaining m \<noteq> 0
      then bus_of (mc_transaction m) = (X86_CORE_MACHINE_TRANSACTION_OWNER_REFRESH,
        X86_CORE_MACHINE_TRANSACTION_OWNER_REFRESH, True)
      else tx_owner (mc_transaction m) \<in> {NO_OWNER, X86_CORE_MACHINE_TRANSACTION_OWNER_CPU} \<and>
        tx_hold_owner (mc_transaction m) = NO_OWNER)"

text \<open>The timeline stands at the machine's time.\<close>

definition core_ok :: "('cb, 'w) core \<Rightarrow> bool" where
  "core_ok s \<longleftrightarrow> tl_inv (mc_timeline (fst s)) \<and> tl_now (mc_timeline (fst s)) = mc_elapsed_ticks (fst s)"

text \<open>
  The bus is given back as it was found; only on a bus nobody holds the processor may begin or end
  a transaction of its own.
\<close>

definition bus_lent :: "'cb x86_core_machine \<Rightarrow> 'cb x86_core_machine \<Rightarrow> bool" where
  "bus_lent m m' \<longleftrightarrow>
     mc_refresh_cycle_ticks_remaining m' = mc_refresh_cycle_ticks_remaining m \<and>
     snd (bus_of (mc_transaction m')) = snd (bus_of (mc_transaction m)) \<and>
     (tx_owner (mc_transaction m') = tx_owner (mc_transaction m) \<or>
      tx_hold_owner (mc_transaction m) = NO_OWNER \<and>
      {tx_owner (mc_transaction m), tx_owner (mc_transaction m')} \<subseteq>
        {NO_OWNER, X86_CORE_MACHINE_TRANSACTION_OWNER_CPU})"

lemma bus_lent_refl [simp]: "bus_lent m m"
  by (simp add: bus_lent_def)

lemma bus_lent_trans: "bus_lent a b \<Longrightarrow> bus_lent b c \<Longrightarrow> bus_lent a c"
  by (auto simp: bus_lent_def bus_of_def)

lemma bus_lent_ok: "bus_lent m m' \<Longrightarrow> bus_ok m \<Longrightarrow> bus_ok m'"
  by (auto simp: bus_lent_def bus_ok_def bus_of_def split: if_splits)

text \<open>A step that keeps guest time, the timeline's state and the bus.\<close>

definition keeps :: "('cb, 'w) core \<Rightarrow> ('cb, 'w) core \<Rightarrow> bool" where
  "keeps s s' \<longleftrightarrow> (core_ok s \<and> bus_ok (fst s) \<longrightarrow>
     mc_elapsed_ticks (fst s') = mc_elapsed_ticks (fst s) \<and> core_ok s' \<and> bus_ok (fst s'))"

definition lends :: "('cb, 'w) core \<Rightarrow> ('cb, 'w) core \<Rightarrow> bool" where
  "lends s s' \<longleftrightarrow> mc_elapsed_ticks (fst s') = mc_elapsed_ticks (fst s) \<and> (core_ok s \<longrightarrow> core_ok s') \<and>
     bus_lent (fst s) (fst s')"

lemma keeps_refl [simp]: "keeps s s" and lends_refl [simp]: "lends s s"
  by (simp_all add: keeps_def lends_def)

lemma keeps_trans [trans]: "keeps a b \<Longrightarrow> keeps b c \<Longrightarrow> keeps a c"
  by (simp add: keeps_def)

lemma lends_trans [trans]: "lends a b \<Longrightarrow> lends b c \<Longrightarrow> lends a c"
  using bus_lent_trans by (fastforce simp: lends_def)

lemma lends_keeps: "lends s s' \<Longrightarrow> keeps s s'"
  using bus_lent_ok by (fastforce simp: lends_def keeps_def)

lemma lends_fields [simp]:
  "lends s (set_wait g s)"
  "lends s ((fst s)\<lparr>mc_bus_invalidation_cycles := b\<rparr>, snd s)"
  "lends s ((fst s)\<lparr>mc_dma_cycle_wait_remaining := n\<rparr>, snd s)"
  "lends s ((fst s)\<lparr>mc_fpu := fp\<rparr>, snd s)"
  "lends s ((fst s)\<lparr>mc_wait := wt\<rparr>, snd s)"
  "lends s ((fst s)\<lparr>mc_provider_clock := ck\<rparr>, snd s)"
  by (simp_all add: lends_def core_ok_def set_wait_def bus_lent_def)

lemma keeps_fields [simp]:
  "keeps s (set_wait g s)"
  "keeps s ((fst s)\<lparr>mc_bus_invalidation_cycles := b\<rparr>, snd s)"
  "keeps s ((fst s)\<lparr>mc_dma_cycle_wait_remaining := n\<rparr>, snd s)"
  "keeps s ((fst s)\<lparr>mc_fpu := fp\<rparr>, snd s)"
  "keeps s ((fst s)\<lparr>mc_wait := wt\<rparr>, snd s)"
  "keeps s ((fst s)\<lparr>mc_provider_clock := ck\<rparr>, snd s)"
  by (simp_all add: lends_keeps)

lemma core_ok_fields [simp]:
  "core_ok (set_transaction t s) = core_ok s" "core_ok (set_refresh_remaining n s) = core_ok s"
  "mc_elapsed_ticks (fst (set_transaction t s)) = mc_elapsed_ticks (fst s)"
  "mc_elapsed_ticks (fst (set_refresh_remaining n s)) = mc_elapsed_ticks (fst s)"
  "mc_transaction (fst (set_transaction t s)) = the t"
  "mc_transaction (fst (set_refresh_remaining n s)) = mc_transaction (fst s)"
  "mc_refresh_cycle_ticks_remaining (fst (set_transaction t s)) = mc_refresh_cycle_ticks_remaining (fst s)"
  "mc_refresh_cycle_ticks_remaining (fst (set_refresh_remaining n s)) = n"
  "mc_contract (fst (set_transaction t s)) = mc_contract (fst s)"
  by (simp_all add: core_ok_def set_transaction_def set_refresh_remaining_def)

section \<open>The contract of the attachment\<close>

text \<open>
  The attachment's documented contract: a callback uses bounded core operations, so it may schedule
  and cancel events and run whole bus cycles, but it does not advance guest time, and it gives the
  bus back as it found it.
\<close>

locale scheduler_client =
  fixes env :: "('cb, 'w) scheduler_env"
  assumes refresh_complete_lends: "en_refresh_complete env = Some f \<Longrightarrow> lends s (f s)"
    and dma_ticks_lends: "en_dma_ticks env = Some g \<Longrightarrow> lends s (snd (g n s))"
    and dma_advance_lends: "en_dma_advance env = Some h \<Longrightarrow> lends s (h n s)"
    and before_lends: "en_before_internal_advance env = Some h2 \<Longrightarrow> lends s (h2 n due s)"
    and after_lends: "en_after_internal_advance env = Some h2 \<Longrightarrow> lends s (h2 n due s)"
    and provider_lends: "en_provider_advance_time env = Some h \<Longrightarrow> lends s (h n s)"
    and cpu_bus_lends: "lends s (en_cpu_advance_bus env n free k s)"
    and cpu_prefetch_lends: "lends s (en_cpu_advance_prefetch_reservation env s)"
    and event_time: "mc_elapsed_ticks (fst (snd (timeline_call (en_timeline_callback env cb due s) tm))) =
        mc_elapsed_ticks (fst s)"
    and event_bus: "bus_lent (fst s) (fst (snd (timeline_call (en_timeline_callback env cb due s) tm)))"
begin

lemma lends_dma_advance [simp]: "lends s (dma_advance env n s)"
  by (simp add: dma_advance_def call_optional_def dma_advance_lends split: option.split)

lemma lends_refresh_complete [simp]: "lends s (refresh_complete env s)"
  by (simp add: refresh_complete_def call_optional_def refresh_complete_lends split: option.split)

lemma lends_calls [simp]: "lends s (call_advance (en_before_internal_advance env) n due s)"
  "lends s (call_advance (en_after_internal_advance env) n due s)"
  by (simp_all add: call_advance_def call_optional_def before_lends after_lends split: option.split)

lemma lends_provider [simp]: "lends s (provider_advance env n s)"
proof -
  obtain ticks clock where c:
    "x86_core_machine_clock_domain_advance (Some (mc_provider_clock (fst s))) n = (ticks, clock)"
    by fastforce
  show ?thesis
  proof (cases "en_provider_advance_time env")
    case (Some f)
    then have "lends u (f ticks u)" for u by (rule provider_lends)
    then show ?thesis
      using lends_trans [OF lends_fields(6)] Some c by (fastforce simp: provider_advance_def call_optional_def)
  qed (simp add: provider_advance_def call_optional_def c)
qed

subsection \<open>Holds and the refresh cycle\<close>

text \<open>Giving back a held bus after the callback of its owner.\<close>

lemma keeps_give_back:
  assumes "bus_of (mc_transaction (fst t)) = (NO_OWNER, owner, True)" "owner \<noteq> NO_OWNER"
    "mc_refresh_cycle_ticks_remaining (fst t) = 0" "lends t u"
    "mc_elapsed_ticks (fst t) = mc_elapsed_ticks (fst s)" "core_ok t = core_ok s"
  shows "keeps s (release_hold owner u)"
proof -
  have b: "bus_of (mc_transaction (fst u)) = (NO_OWNER, owner, True)"
    and r: "mc_refresh_cycle_ticks_remaining (fst u) = 0"
    and e: "mc_elapsed_ticks (fst u) = mc_elapsed_ticks (fst s)" "core_ok s \<longrightarrow> core_ok u"
    using assms by (auto simp: lends_def bus_lent_def bus_of_def)
  obtain v where "x86_core_machine_transaction_hold_release owner (Some (mc_transaction (fst u))) = Some v"
    "bus_of v = (NO_OWNER, NO_OWNER, False)"
    using bus_release [OF b assms(2)] by blast
  then show ?thesis using r e by (auto simp: keeps_def release_hold_def bus_ok_def bus_of_def)
qed

lemma keeps_dma_hold:
  assumes "dma_hold_grant env n s = Some s'"
  shows "keeps s s'"
proof (cases "bus_ok (fst s)")
  case True
  obtain st t where q: "x86_core_machine_transaction_hold_request X86_CORE_MACHINE_TRANSACTION_OWNER_DMA 0
      (Some (mc_transaction (fst s))) = (st, t)" by fastforce
  from bus_request [OF q] assms q obtain u where
    free: "tx_owner (mc_transaction (fst s)) = NO_OWNER" and
    t: "t = Some u" and b: "bus_of u = (NO_OWNER, X86_CORE_MACHINE_TRANSACTION_OWNER_DMA, False)"
    by (auto simp: dma_hold_grant_def split: if_splits)
  obtain st' t' where a: "x86_core_machine_transaction_hold_acknowledge
      X86_CORE_MACHINE_TRANSACTION_OWNER_DMA (Some u) = (st', t')" by fastforce
  from bus_acknowledge [OF a b] obtain v where ok: "st' = LIB_STATUS_OK" "t' = Some v"
    and bv: "bus_of v = (NO_OWNER, X86_CORE_MACHINE_TRANSACTION_OWNER_DMA, True)" by auto
  have r: "mc_refresh_cycle_ticks_remaining (fst s) = 0"
    using True free by (auto simp: bus_ok_def bus_of_def split: if_splits)
  have s': "s' = release_hold X86_CORE_MACHINE_TRANSACTION_OWNER_DMA
      (dma_advance env n (set_transaction (Some v) s))"
    using assms q t a ok bus_request [OF q] free by (auto simp: dma_hold_grant_def split: if_splits)
  show ?thesis unfolding s'
    by (rule keeps_give_back [where t = "set_transaction (Some v) s"]) (use r bv in simp_all)
qed (simp add: keeps_def)

lemma keeps_dma_grant [simp]: "keeps s (x86_core_machine_dma_grant_advance env s)"
  by (auto simp: x86_core_machine_dma_grant_advance_def keeps_dma_hold lends_keeps split: option.split if_splits)


lemma keeps_refresh_finish:
  assumes "bus_of (mc_transaction (fst t)) = (X86_CORE_MACHINE_TRANSACTION_OWNER_REFRESH,
      X86_CORE_MACHINE_TRANSACTION_OWNER_REFRESH, True)"
    "mc_refresh_cycle_ticks_remaining (fst t) = 0"
    "mc_elapsed_ticks (fst t) = mc_elapsed_ticks (fst s)" "core_ok t = core_ok s"
  shows "keeps s (release_hold X86_CORE_MACHINE_TRANSACTION_OWNER_REFRESH
    (refresh_complete env (commit_transaction t)))"
proof -
  obtain u where u: "x86_core_machine_transaction_commit (Some (mc_transaction (fst t))) = Some u"
    "bus_of u = (NO_OWNER, X86_CORE_MACHINE_TRANSACTION_OWNER_REFRESH, True)"
    using bus_commit [of "mc_transaction (fst t)"] assms(1) by (auto simp: bus_of_def)
  show ?thesis
    by (rule keeps_give_back [where t = "commit_transaction t"])
      (use assms u in \<open>simp_all add: commit_transaction_def\<close>)
qed

lemma keeps_refresh_continue:
  assumes "mc_refresh_cycle_ticks_remaining (fst s) \<noteq> 0"
  shows "keeps s (refresh_continue env n s)"
proof (cases "bus_ok (fst s)")
  case ok: True
  let ?r = "mc_refresh_cycle_ticks_remaining (fst s)"
  from ok assms have b: "bus_of (mc_transaction (fst s)) = (X86_CORE_MACHINE_TRANSACTION_OWNER_REFRESH,
      X86_CORE_MACHINE_TRANSACTION_OWNER_REFRESH, True)" by (simp add: bus_ok_def)
  show ?thesis
  proof (cases "n < ucast ?r")
    case True
    then have "unat n < unat ?r" by (simp add: word_less_nat_alt unat_ucast_up)
    moreover from this have "unat n < 2 ^ LENGTH(32)"
      using unsigned_less [of ?r, where 'a = nat] by (rule less_trans)
    then have "unat (ucast n :: lib_u32) = unat n"
      by (simp only: unsigned_ucast_eq take_bit_nat_eq_self_iff)
    ultimately have "?r \<noteq> ucast n" by auto
    then show ?thesis using True b by (simp add: refresh_continue_def Let_def keeps_def bus_ok_def)
  next
    case False
    have "keeps s (release_hold X86_CORE_MACHINE_TRANSACTION_OWNER_REFRESH
        (refresh_complete env (commit_transaction (set_refresh_remaining 0 s))))"
      by (rule keeps_refresh_finish) (simp_all add: b)
    then show ?thesis using False by (simp add: refresh_continue_def Let_def)
  qed
qed (simp add: keeps_def)

lemma keeps_refresh_start:
  assumes "mc_refresh_cycle_ticks_remaining (fst s) = 0"
  shows "keeps s (refresh_start env address s)"
proof (cases "bus_ok (fst s)")
  case True
  let ?R = "X86_CORE_MACHINE_TRANSACTION_OWNER_REFRESH"
  obtain st t where q: "x86_core_machine_transaction_hold_request ?R (ucast address)
      (Some (mc_transaction (fst s))) = (st, t)" by fastforce
  show ?thesis
  proof (cases "st = LIB_STATUS_OK")
    case False
    then have "t = Some (mc_transaction (fst s))" using bus_request [OF q] by (simp split: if_splits)
    then show ?thesis using False q True assms
      by (simp add: refresh_start_def keeps_def bus_ok_def)
  next
    case ok: True
    from bus_request [OF q] ok obtain u where t: "t = Some u" "bus_of u = (NO_OWNER, ?R, False)"
      by (auto split: if_splits)
    obtain st' t' where a: "x86_core_machine_transaction_hold_acknowledge ?R (Some u) = (st', t')"
      by fastforce
    from bus_acknowledge [OF a t(2)] obtain v where ok': "st' = LIB_STATUS_OK" "t' = Some v"
      and bv: "bus_of v = (NO_OWNER, ?R, True)" by auto
    obtain st'' t'' where g: "x86_core_machine_transaction_begin ?R
        X86_CORE_MACHINE_TRANSACTION_REFRESH_MEMORY_CYCLE (ucast address) 0 0 (Some v) = (st'', t'')"
      by fastforce
    from bus_begin [OF g bv] obtain w where ok'': "st'' = LIB_STATUS_OK" "t'' = Some w"
      and bw: "bus_of w = (?R, ?R, True)" by auto
    define n where "n = ct_refresh_cycle_source_ticks (mc_contract (fst s))"
    define z where "z = set_refresh_remaining n (set_transaction (Some w) s)"
    have start: "refresh_start env address s =
        (if n \<noteq> 0 then z else release_hold ?R (refresh_complete env (commit_transaction z)))"
      using q a g by (simp add: refresh_start_def ok ok' ok'' t(1) n_def z_def Let_def)
    have "keeps s z" if "n \<noteq> 0"
      using that bw by (simp add: keeps_def z_def bus_ok_def)
    moreover have "keeps s (release_hold ?R (refresh_complete env (commit_transaction z)))" if "n = 0"
      by (rule keeps_refresh_finish) (use that bw in \<open>simp_all add: z_def\<close>)
    ultimately show ?thesis by (simp add: start)
  qed
qed (simp add: keeps_def)

lemma keeps_refresh [simp]: "keeps s (x86_core_machine_refresh_hold_advance env n s)"
  by (simp add: x86_core_machine_refresh_hold_advance_def keeps_refresh_continue keeps_refresh_start
      split: option.split)

lemma keeps_dma_wait: "keeps (fst su) (fst (dma_wait_tick env su))"
  by (auto simp: dma_wait_tick_def Let_def intro: keeps_trans [OF keeps_dma_grant])

lemma keeps_dma_waits: "keeps (fst su) (fst ((dma_wait_tick env ^^ k) su))"
  by (induction k) (auto intro: keeps_trans [OF _ keeps_dma_wait])

lemma keeps_arbitration_dma: "keeps (fst su) (fst (arbitration_dma env n occupied su))"
  by (auto simp: arbitration_dma_def Let_def keeps_dma_waits keeps_dma_hold lends_keeps
      split: option.split if_splits)

lemma lends_arbitration_cpu: "lends s (arbitration_cpu env n pending used s)"
  using lends_trans [OF cpu_bus_lends cpu_prefetch_lends] by (simp add: arbitration_cpu_def Let_def cpu_bus_lends)

lemma keeps_arbitration [simp]: "keeps s (x86_core_machine_arbitration_advance env n s)"
proof (cases "n = 0")
  case False
  define s1 where "s1 = ((fst s)\<lparr>mc_bus_invalidation_cycles := 0\<rparr>, snd s)"
  obtain d s2 where s2: "(case en_dma_ticks env of None \<Rightarrow> (0, s1) | Some f \<Rightarrow> f n s1) = (d, s2)"
    by (metis surj_pair)
  have k2: "keeps s s2"
  proof -
    have "keeps s1 s2"
      using s2 dma_ticks_lends [of _ s1 n] by (force split: option.splits dest: lends_keeps)
    then show ?thesis by (rule keeps_trans [rotated]) (simp add: s1_def)
  qed
  define s3 where "s3 = x86_core_machine_refresh_hold_advance env n s2"
  define pending where "pending \<longleftrightarrow> refresh_requested env s2 \<noteq> None"
  define occupied where "occupied \<longleftrightarrow> mc_refresh_cycle_ticks_remaining (fst s2) \<noteq> 0 \<or>
    mc_refresh_cycle_ticks_remaining (fst s3) \<noteq> 0"
  obtain s4 used where s4: "arbitration_dma env d occupied (s3, pending \<or> occupied) = (s4, used)"
    by (metis surj_pair)
  have "keeps s2 s3" by (simp add: s3_def)
  moreover have "keeps s3 s4"
    using keeps_arbitration_dma [of "(s3, pending \<or> occupied)" d occupied] s4 by simp
  ultimately have k4: "keeps s s4" using k2 by (blast intro: keeps_trans)
  have "x86_core_machine_arbitration_advance env n s = arbitration_cpu env n pending used s4"
    using False s4 by (simp add: x86_core_machine_arbitration_advance_def Let_def s1_def [symmetric] s2
        s3_def [symmetric] pending_def occupied_def)
  then show ?thesis using k4 lends_keeps [OF lends_arbitration_cpu] keeps_trans by metis
qed (simp add: x86_core_machine_arbitration_advance_def)

lemma lends_poll [simp]: "lends s (x86_core_cpu_execution_poll_wait env s)"
  by (simp add: x86_core_cpu_execution_poll_wait_def Let_def split: option.split)

lemma lends_wait [simp]: "lends s (x86_core_cpu_execution_advance_wait env n s)"
proof -
  define t where "t = x86_core_cpu_execution_poll_wait env
    (set_wait (\<lambda>wait. wait\<lparr>cw_wait_poll_remaining_ticks := 0\<rparr>) s)"
  have "lends s t" unfolding t_def by (rule lends_trans [OF lends_fields(1) lends_poll])
  then show ?thesis
    by (auto simp: x86_core_cpu_execution_advance_wait_def Let_def t_def [symmetric]
        intro: lends_trans [OF _ lends_fields(1)])
qed

lemma lends_internal [simp]: "lends s (x86_core_machine_internal_advance env n s)"
  using lends_trans [OF lends_fields(4) lends_wait]
  by (simp add: x86_core_machine_internal_advance_def Let_def)

subsection \<open>Timeline events\<close>

lemma dispatch_loop_lends:
  "timeline_advance_loop (en_timeline_callback env) target tm s = (tm', s', events) \<Longrightarrow>
    mc_elapsed_ticks (fst s') = mc_elapsed_ticks (fst s) \<and> bus_lent (fst s) (fst s')"
proof (induction "en_timeline_callback env" target tm s arbitrary: tm' s' events rule: timeline_advance_loop.induct)
  case (1 target tm w)
  show ?case
  proof (cases "tl_heap_size tm = 0 \<or> ev_due_tick (tl_at tm 0) > target")
    case False
    define event where "event = tl_at tm 0"
    define program where "program = (case ev_callback event of
        Some callback \<Rightarrow> en_timeline_callback env callback (ev_due_tick event) w | None \<Rightarrow> CB_RETURN w)"
    obtain tm1 w1 where c: "timeline_call program (timeline_pop tm) = (tm1, w1)" by (metis surj_pair)
    obtain tm2 w2 events2 where l:
      "timeline_advance_loop (en_timeline_callback env) target tm1 w1 = (tm2, w2, events2)" by (metis prod_cases3)
    have "mc_elapsed_ticks (fst (snd (timeline_call program (timeline_pop tm)))) = mc_elapsed_ticks (fst w) \<and>
        bus_lent (fst w) (fst (snd (timeline_call program (timeline_pop tm))))"
      by (cases "ev_callback event") (simp_all add: program_def event_time event_bus)
    then have "mc_elapsed_ticks (fst w1) = mc_elapsed_ticks (fst w) \<and> bus_lent (fst w) (fst w1)"
      by (simp add: c)
    moreover have "mc_elapsed_ticks (fst w2) = mc_elapsed_ticks (fst w1) \<and> bus_lent (fst w1) (fst w2)"
      by (rule "1.hyps" [OF _ _ event_def program_def c [symmetric] refl l]) (use False in auto)
    moreover have "s' = w2"
      using "1.prems" False c l
      by (subst (asm) timeline_advance_loop.simps)
        (simp add: event_def [symmetric] program_def [symmetric] Let_def)
    ultimately show ?thesis by (auto intro: bus_lent_trans)
  qed (use "1.prems" in \<open>auto simp: timeline_advance_loop.simps [of _ target tm] split: if_splits\<close>)
qed

text \<open>Dispatching up to the current time: in order, none late, and none before the first one due.\<close>

lemma timeline_dispatch_ok:
  assumes d: "timeline_dispatch env due s = (s', events)"
    and tm: "tl_inv (mc_timeline (fst s))" "tl_now (mc_timeline (fst s)) \<le> due"
  shows "mc_elapsed_ticks (fst s') = mc_elapsed_ticks (fst s)" "bus_lent (fst s) (fst s')"
    "tl_inv (mc_timeline (fst s'))" "tl_now (mc_timeline (fst s')) = due"
    "\<forall>(k, c) \<in> set events. key_due k \<le> due" "\<forall>(k, c) \<in> tl_pending (mc_timeline (fst s')). due < key_due k"
    "(\<And>k c. (k, c) \<in> tl_pending (mc_timeline (fst s)) \<Longrightarrow> due \<le> key_due k) \<Longrightarrow>
      \<forall>(k, c) \<in> set events. key_due k = due"
proof -
  obtain status tm' w' where a: "x86_core_machine_timeline_advance (en_timeline_callback env)
      (Some (mc_timeline (fst s))) due s = (status, tm', w', events)"
    and s': "s' = ((fst w')\<lparr>mc_timeline := the tm'\<rparr>, snd w')"
    using d by (auto simp: timeline_dispatch_def split: prod.splits)
  obtain tm1 where l: "timeline_advance_loop (en_timeline_callback env) due (mc_timeline (fst s)) s = (tm1, w', events)"
    and tm': "tm' = Some (tm1\<lparr>tl_now := due\<rparr>)"
    using a tm(2) by (auto simp: not_less [symmetric] split: prod.splits)
  note A = timeline_advance_ok [OF tm a [unfolded tm']]
  show "mc_elapsed_ticks (fst s') = mc_elapsed_ticks (fst s)" "bus_lent (fst s) (fst s')"
    using dispatch_loop_lends [OF l] by (simp_all add: s' bus_lent_def)
  show "tl_inv (mc_timeline (fst s'))" "tl_now (mc_timeline (fst s')) = due"
    and le: "\<forall>(k, c) \<in> set events. key_due k \<le> due"
    and "\<forall>(k, c) \<in> tl_pending (mc_timeline (fst s')). due < key_due k"
    using A by (simp_all add: s' tm')
  assume pend: "\<And>k c. (k, c) \<in> tl_pending (mc_timeline (fst s)) \<Longrightarrow> due \<le> key_due k"
  have D: "tlq.dispatches (\<lambda>_ :: ('cb, ('cb, 'w) core) timeline_program. True) due (mc_timeline (fst s)) events tm1"
    by (rule timeline_loop_dispatches [OF _ _ tm(1) l]) simp_all
  have "due \<le> key_due k" if "(k, c) \<in> set events" for k c
    using D
  proof cases
    case (dispatch_next k0 c0 p rest)
    then have "due \<le> key_due k0" using tlq.first_least [OF tm(1)] pend by blast
    moreover have "k0 \<le> k" using A(4) that dispatch_next by fastforce
    ultimately show ?thesis by (auto simp: less_eq_timeline_key_def)
  qed (use that in simp)
  with le show "\<forall>(k, c) \<in> set events. key_due k = due" by fastforce
qed

end

section \<open>Deadlines\<close>

lemma u64_room: "(n :: lib_u64) \<le> LIB_UINT64_MAX - m \<longleftrightarrow> unat m + unat n < 2 ^ 64"
proof -
  have "unat LIB_UINT64_MAX = 2 ^ 64 - 1"
    by (simp add: LIB_UINT64_MAX_def unsigned_minus_1_eq_mask mask_eq_exp_minus_1)
  moreover have "m \<le> LIB_UINT64_MAX" by (simp add: LIB_UINT64_MAX_def)
  ultimately show ?thesis
    using unsigned_less [of m, where 'a = nat] by (simp add: word_le_nat_alt unat_sub less_diff_conv2) linarith
qed

lemma u64_add: "unat (m :: lib_u64) + unat n < 2 ^ 64 \<Longrightarrow> unat (m + n) = unat m + unat n"
  using unat_plus_if' [of m n] by simp

lemma u64_less_Suc': "(m :: lib_u64) < t \<Longrightarrow> unat (m + 1) = Suc (unat m)"
  using unat_plus_if' [of m 1] unsigned_less [of t, where 'a = nat] by (simp add: word_less_nat_alt)

text \<open>
  What a pending deadline asks of the accumulated result: nothing when something is due now, and
  otherwise that the deadline lies ahead and the nearest distance does not reach beyond it. Ticks
  are natural numbers here, so a deadline beyond 64 bits is a deadline too.
\<close>

definition covers :: "'cb x86_core_machine \<Rightarrow> bool \<times> lib_u64 \<Rightarrow> nat \<Rightarrow> bool" where
  "covers m acc d \<longleftrightarrow> fst acc \<or>
     unat (mc_elapsed_ticks m) < d \<and> snd acc \<noteq> 0 \<and>
     unat (mc_elapsed_ticks m) + unat (snd acc) \<le> d"

lemma covers_absolute: "covers m (deadline_absolute m a acc) (unat a)"
  by (auto simp: covers_def deadline_absolute_def x86_core_machine_deadline_consider_absolute_def
      not_le word_less_nat_alt unat_sub word_le_nat_alt split: if_splits)

lemma covers_absolute_keep: "covers m acc d \<Longrightarrow> covers m (deadline_absolute m a acc) d"
  by (auto simp: covers_def deadline_absolute_def x86_core_machine_deadline_consider_absolute_def
      not_le word_less_nat_alt Let_def split: if_splits)

lemma covers_relative_keep: "covers m acc d \<Longrightarrow> covers m (deadline_relative m ticks acc) d"
  by (simp add: deadline_relative_def covers_absolute_keep split: option.split)

lemma covers_relative:
  assumes "unat (mc_elapsed_ticks m) + unat t < 2 ^ 64"
  shows "covers m (deadline_relative m (Some t) acc) (unat (mc_elapsed_ticks m) + unat t)"
proof -
  have "t \<le> LIB_UINT64_MAX - mc_elapsed_ticks m" using assms by (simp add: u64_room)
  moreover note u64_add [OF assms]
  ultimately show ?thesis using covers_absolute [of m "mc_elapsed_ticks m + t" acc]
    by (simp add: deadline_relative_def)
qed


text \<open>The deadlines of a machine, as its parts name them.\<close>

inductive machine_deadline :: "('cb, 'w) scheduler_env \<Rightarrow> ('cb, 'w) core \<Rightarrow> nat \<Rightarrow> bool"
  for env and s :: "('cb, 'w) core" where
  deadline_event: "(k, c) \<in> tl_pending (mc_timeline (fst s)) \<Longrightarrow>
    machine_deadline env s (unat (key_due k))"
| deadline_fpu: "fpu_deadline (mc_fpu (fst s)) = Some t \<Longrightarrow>
    machine_deadline env s (unat (mc_elapsed_ticks (fst s)) + unat t)"
| deadline_poll: "x86_core_cpu_execution_wait_poll_ticks env s = Some t \<Longrightarrow>
    \<not> (mc_cpu_profile (fst s) = X86_CORE_CPU_PROFILE_V30 \<and>
       (mc_cpu_retirement_source_ticks (fst s) \<noteq> 0 \<or> mc_cpu_retirement_wait_pending (fst s))) \<Longrightarrow>
    machine_deadline env s (unat (mc_elapsed_ticks (fst s)) + unat t)"
| deadline_refresh: "mc_refresh_cycle_ticks_remaining (fst s) \<noteq> 0 \<Longrightarrow>
    machine_deadline env s (unat (mc_elapsed_ticks (fst s)) +
      unat (mc_refresh_cycle_ticks_remaining (fst s)))"
| deadline_board: "en_deadline env = Some f \<Longrightarrow>
    dl_source_ticks (f s (mc_elapsed_ticks (fst s))) \<noteq> 0 \<Longrightarrow>
    machine_deadline env s (unat (mc_elapsed_ticks (fst s)) +
      unat (dl_source_ticks (f s (mc_elapsed_ticks (fst s)))))"

lemma covers_nearer: "ticks \<noteq> 0 \<Longrightarrow> covers m (nearer ticks acc) (unat (mc_elapsed_ticks m) + unat ticks)"
  by (auto simp: covers_def nearer_def word_less_nat_alt not_less unat_gt_0)

lemma covers_nearer_keep: "covers m acc d \<Longrightarrow> covers m (nearer ticks acc) d"
  by (auto simp: covers_def nearer_def word_less_nat_alt)

lemma covers_due: "covers m (True, t) d" "fst acc \<Longrightarrow> covers m acc d"
  by (simp_all add: covers_def)

lemma covers_event:
  assumes "tl_inv (mc_timeline (fst s))" "(k, c) \<in> tl_pending (mc_timeline (fst s))"
  shows "covers (fst s) (event_deadline (fst s)) (unat (key_due k))"
proof -
  let ?tm = "mc_timeline (fst s)"
  have nz: "tl_heap_size ?tm \<noteq> 0"
    using tl_active_position(1) [OF assms(1)] assms(2) by (fastforce simp: tl_pending_def)
  obtain k0 c0 where f: "tl_first ?tm = Some (k0, c0)" and k0: "k0 = ev_key (tl_at ?tm 0)"
    using nz by (auto simp: tl_first_def ev_entry_def)
  have "k0 \<le> k" using tlq.first_least [OF assms(1) f] assms(2) by auto
  then have le: "unat (key_due k0) \<le> unat (key_due k)"
    by (auto simp: less_eq_timeline_key_def word_less_nat_alt)
  have "event_deadline (fst s) = deadline_absolute (fst s) (key_due k0) (False, 0)"
    using nz by (simp add: event_deadline_def k0 ev_key_def)
  then have "covers (fst s) (event_deadline (fst s)) (unat (key_due k0))" by (simp add: covers_absolute)
  then show ?thesis using le by (auto simp: covers_def)
qed

definition board_deadline ::
  "('cb, 'w) scheduler_env \<Rightarrow> ('cb, 'w) core \<Rightarrow> x86_core_machine_attachment_deadline_observation" where
  "board_deadline env s = (case en_deadline env of None \<Rightarrow> no_deadline
     | Some deadline \<Rightarrow> deadline s (mc_elapsed_ticks (fst s)))"

lemma machine_deadline_covered:
  assumes "tl_inv (mc_timeline (fst s))" "machine_deadline env s d" "d < 2 ^ 64"
  shows "covers (fst s) (nearer (dl_source_ticks (board_deadline env s)) (machine_deadlines env s)) d"
  using assms(2)
proof cases
  case (deadline_event k c)
  then show ?thesis using covers_event [OF assms(1)]
    by (simp add: machine_deadlines_def Let_def covers_nearer_keep covers_relative_keep)
next
  case (deadline_fpu t)
  then have "covers (fst s) (deadline_relative (fst s) (Some t) acc) d" for acc
    using covers_relative [of "fst s" t acc] assms(3) by simp
  then show ?thesis using deadline_fpu
    by (simp add: machine_deadlines_def Let_def covers_nearer_keep covers_relative_keep)
next
  case (deadline_poll t)
  then have "covers (fst s) (deadline_relative (fst s) (Some t) acc) d" for acc
    using covers_relative [of "fst s" t acc] assms(3) by simp
  moreover have "poll_deadline env s = Some t" using deadline_poll by (auto simp: poll_deadline_def)
  ultimately show ?thesis
    by (simp add: machine_deadlines_def Let_def covers_nearer_keep covers_relative_keep)
next
  case deadline_refresh
  let ?r = "mc_refresh_cycle_ticks_remaining (fst s)"
  have r: "unat (ucast ?r :: lib_u64) = unat ?r" by (rule unat_ucast_up) simp
  then have "(ucast ?r :: lib_u64) \<noteq> 0" using deadline_refresh by (metis unat_0 unat_eq_zero)
  then show ?thesis using covers_nearer [of "ucast ?r" "fst s"] r deadline_refresh
    by (simp add: machine_deadlines_def Let_def covers_nearer_keep)
next
  case (deadline_board f)
  then show ?thesis using covers_nearer by (simp add: board_deadline_def)
qed

text \<open>What a pass aims at.\<close>

lemma capture_cases:
  assumes "x86_core_machine_capture_time_with_board env s = (ob, board)"
    "nearer (dl_source_ticks (board_deadline env s)) (machine_deadlines env s) = (due, ticks)"
  shows "board = board_deadline env s"
    "ob_progress_disposition ob \<noteq> X86_CORE_MACHINE_TIME_PROGRESS_IMMEDIATE \<Longrightarrow> \<not> due"
    "ob_next_deadline_valid ob \<Longrightarrow> ticks \<noteq> 0 \<and> ticks \<le> LIB_UINT64_MAX - mc_elapsed_ticks (fst s) \<and>
       ob_next_deadline_tick ob = mc_elapsed_ticks (fst s) + ticks"
    "ob_progress_disposition ob \<noteq> X86_CORE_MACHINE_TIME_PROGRESS_IMMEDIATE \<Longrightarrow>
       \<not> dl_l1_compatibility board \<Longrightarrow> \<not> dl_fast_advance_blocked board \<Longrightarrow> ticks \<noteq> 0 \<Longrightarrow>
       ticks \<le> LIB_UINT64_MAX - mc_elapsed_ticks (fst s) \<Longrightarrow> ob_next_deadline_valid ob"
  using assms
  by (auto simp: x86_core_machine_capture_time_with_board_def Let_def board_deadline_def
      time_observation_start_def split: if_splits)

lemma due_tick_bounds:
  assumes "mc_elapsed_ticks (fst s) < target"
  shows "mc_elapsed_ticks (fst s) < scheduler_due_tick env target s \<and> scheduler_due_tick env target s \<le> target"
proof -
  obtain ob board where c: "x86_core_machine_capture_time_with_board env s = (ob, board)" by (metis surj_pair)
  show ?thesis
    using assms u64_less_Suc' [OF assms]
    by (auto simp: scheduler_due_tick_def Let_def c word_less_nat_alt word_le_nat_alt)
qed

lemma due_tick_deadline:
  assumes "tl_inv (mc_timeline (fst s))" "mc_elapsed_ticks (fst s) < target" "machine_deadline env s d"
    "ob_progress_disposition (fst (x86_core_machine_capture_time_with_board env s))
       \<noteq> X86_CORE_MACHINE_TIME_PROGRESS_IMMEDIATE"
  shows "unat (scheduler_due_tick env target s) \<le> d"
proof (cases "d < 2 ^ 64")
  case False
  then show ?thesis
    using unsigned_less [of "scheduler_due_tick env target s", where 'a = nat] by simp
next
  case True
  obtain ob board where c: "x86_core_machine_capture_time_with_board env s = (ob, board)" by (metis surj_pair)
  obtain due ticks where n: "nearer (dl_source_ticks (board_deadline env s)) (machine_deadlines env s) = (due, ticks)"
    by (metis surj_pair)
  note C = capture_cases [OF c n]
  have "\<not> due" using C(2) assms(4) c by simp
  then have cov: "unat (mc_elapsed_ticks (fst s)) < d" "ticks \<noteq> 0"
    "unat (mc_elapsed_ticks (fst s)) + unat ticks \<le> d"
    using machine_deadline_covered [OF assms(1,3) True] by (simp_all add: n covers_def)
  have room: "unat (mc_elapsed_ticks (fst s)) + unat ticks < 2 ^ 64" using cov(3) True by linarith
  note add = u64_add [OF room] and suc = u64_less_Suc' [OF assms(2)]
  have nz: "unat ticks \<noteq> 0" using cov(2) by (simp add: unat_eq_0)
  show ?thesis
  proof (cases "dl_l1_compatibility board \<or> dl_fast_advance_blocked board \<and> \<not> ob_next_deadline_valid ob")
    case True
    then show ?thesis using cov(1) suc by (auto simp: scheduler_due_tick_def Let_def c)
  next
    case False
    then have "ob_next_deadline_valid ob"
      using C(4) assms(4) c cov(2) room by (auto simp: u64_room)
    then show ?thesis using C(3) False cov suc nz add
      by (auto simp: scheduler_due_tick_def Let_def c word_less_nat_alt not_less)
  qed
qed

section \<open>One pass\<close>

text \<open>What is said of a pass that starts at tick \<open>t\<close>.\<close>

definition pass_ok :: "lib_u64 \<Rightarrow> 'cb scheduler_pass \<Rightarrow> bool" where
  "pass_ok t p \<longleftrightarrow> t < sp_due_tick p \<and> sp_source_ticks p = sp_due_tick p - t \<and>
     (\<forall>(k, c) \<in> set (sp_events p). key_due k \<le> sp_due_tick p \<and>
        (sp_disposition p \<noteq> X86_CORE_MACHINE_TIME_PROGRESS_IMMEDIATE \<longrightarrow> key_due k = sp_due_tick p))"

context scheduler_client
begin

lemma keeps_refresh_poll: "keeps s (refresh_poll env s)"
  by (simp add: refresh_poll_def)

lemma scheduler_pass_ok:
  assumes p: "scheduler_pass env target s = (p, s')" and ok: "core_ok s" "bus_ok (fst s)"
    and lt: "mc_elapsed_ticks (fst s) < target"
  shows "core_ok s'" "bus_ok (fst s')" "mc_elapsed_ticks (fst s') = sp_due_tick p"
    "sp_due_tick p \<le> target" "pass_ok (mc_elapsed_ticks (fst s)) p"
    "sp_disposition p \<noteq> X86_CORE_MACHINE_TIME_PROGRESS_IMMEDIATE \<Longrightarrow>
      machine_deadline env (refresh_poll env s) d \<Longrightarrow> unat (sp_due_tick p) \<le> d"
    "\<forall>(k, c) \<in> tl_pending (mc_timeline (fst s')). sp_due_tick p \<le> key_due k"
proof -
  define s0 where "s0 = refresh_poll env s"
  have s0: "core_ok s0" "bus_ok (fst s0)" "mc_elapsed_ticks (fst s0) = mc_elapsed_ticks (fst s)"
    using keeps_refresh_poll [of s] ok by (simp_all add: keeps_def s0_def)
  define due where "due = scheduler_due_tick env target s0"
  have B: "mc_elapsed_ticks (fst s) < due" "due \<le> target"
    using due_tick_bounds [of s0 target env] lt by (simp_all add: due_def s0(3))
  define s1 where "s1 = ((fst s0)\<lparr>mc_elapsed_ticks := due\<rparr>, snd s0)"
  have tm: "mc_timeline (fst s1) = mc_timeline (fst s0)" "tl_inv (mc_timeline (fst s1))"
    "tl_now (mc_timeline (fst s1)) \<le> due"
    using s0 B(1) by (simp_all add: s1_def core_ok_def)
  have b1: "bus_ok (fst s1)" using s0(2) by (auto simp: s1_def bus_ok_def)
  obtain s2 events where d2: "timeline_dispatch env due s1 = (s2, events)" by (metis surj_pair)
  note D = timeline_dispatch_ok [OF d2 tm(2,3)]
  have e2: "mc_elapsed_ticks (fst s2) = due" using D(1) by (simp add: s1_def)
  have s2: "core_ok s2" "bus_ok (fst s2)"
    using D(3,4) e2 bus_lent_ok [OF D(2) b1] by (simp_all add: core_ok_def)
  let ?n = "due - mc_elapsed_ticks (fst s)"
  define s3 where "s3 = x86_core_machine_arbitration_advance env ?n s2"
  define s4 where "s4 = call_advance (en_before_internal_advance env) ?n due s3"
  define s5 where "s5 = x86_core_machine_internal_advance env ?n s4"
  have "keeps s2 s3" "keeps s3 s4" "keeps s4 s5" "keeps s5 (call_advance (en_after_internal_advance env) ?n due s5)"
    by (simp_all add: s3_def s4_def s5_def lends_keeps)
  then have k: "keeps s2 (call_advance (en_after_internal_advance env) ?n due s5)"
    by (meson keeps_trans)
  have ps: "p = \<lparr>sp_source_ticks = ?n, sp_due_tick = due,
      sp_disposition = ob_progress_disposition (fst (x86_core_machine_capture_time_with_board env s0)),
      sp_events = events\<rparr>" "s' = call_advance (en_after_internal_advance env) ?n due s5"
    using p by (simp_all add: scheduler_pass_def Let_def s0_def [symmetric] s0(3) due_def [symmetric]
        s1_def [symmetric] d2 s3_def [symmetric] s4_def [symmetric] s5_def [symmetric])
  show "core_ok s'" "bus_ok (fst s')" "mc_elapsed_ticks (fst s') = sp_due_tick p"
    using k s2 e2 by (simp_all add: ps keeps_def)
  show "sp_due_tick p \<le> target" using B(2) by (simp add: ps)
  show late: "unat (sp_due_tick p) \<le> d" if "sp_disposition p \<noteq> X86_CORE_MACHINE_TIME_PROGRESS_IMMEDIATE"
    "machine_deadline env (refresh_poll env s) d" for d
    using due_tick_deadline [of s0 target env d] that s0 lt
    by (simp add: ps due_def s0_def core_ok_def)
  have "\<forall>(k, c) \<in> set events. key_due k = due"
    if "sp_disposition p \<noteq> X86_CORE_MACHINE_TIME_PROGRESS_IMMEDIATE"
  proof (rule D(7))
    fix k c assume "(k, c) \<in> tl_pending (mc_timeline (fst s1))"
    then have "machine_deadline env (refresh_poll env s) (unat (key_due k))"
      unfolding tm(1) s0_def by (rule deadline_event)
    then show "due \<le> key_due k" using late [OF that] by (simp add: ps word_le_nat_alt)
  qed
  then show "pass_ok (mc_elapsed_ticks (fst s)) p" using B(1) D(5) by (auto simp: pass_ok_def ps)
  show "\<forall>(k, c) \<in> tl_pending (mc_timeline (fst s')). sp_due_tick p \<le> key_due k"
  proof -
    have "core_ok s'" "mc_elapsed_ticks (fst s') = due" using k s2 e2 by (simp_all add: ps keeps_def)
    then show ?thesis using tlq.pend_bound [of "mc_timeline (fst s')"] by (auto simp: core_ok_def ps)
  qed
qed

end

section \<open>The whole advance\<close>

primrec pass_chain :: "lib_u64 \<Rightarrow> 'cb scheduler_pass list \<Rightarrow> lib_u64 \<Rightarrow> bool" where
  "pass_chain t [] e \<longleftrightarrow> t = e"
| "pass_chain t (p # passes) e \<longleftrightarrow> pass_ok t p \<and> pass_chain (sp_due_tick p) passes e"

lemma pass_chain_le: "pass_chain t passes e \<Longrightarrow> t \<le> e"
  by (induction passes arbitrary: t) (auto simp: pass_ok_def, meson order.strict_trans2 less_imp_le)

lemma pass_chain_sum:
  "pass_chain t passes e \<Longrightarrow> (\<Sum>p\<leftarrow>passes. unat (sp_source_ticks p)) = unat e - unat t"
proof (induction passes arbitrary: t)
  case (Cons p passes)
  then have "sp_due_tick p \<le> e" "t < sp_due_tick p" "sp_source_ticks p = sp_due_tick p - t"
    using pass_chain_le by (auto simp: pass_ok_def)
  moreover have "(\<Sum>p\<leftarrow>passes. unat (sp_source_ticks p)) = unat e - unat (sp_due_tick p)"
    using Cons by simp
  ultimately show ?case by (simp add: word_le_nat_alt word_less_nat_alt unat_sub)
qed simp

context scheduler_client
begin

lemma scheduler_loop_ok:
  "core_ok s \<Longrightarrow> bus_ok (fst s) \<Longrightarrow> mc_elapsed_ticks (fst s) \<le> target \<Longrightarrow>
    \<exists>passes s'. scheduler_loop env target s = Some (passes, s') \<and> core_ok s' \<and> bus_ok (fst s') \<and>
      mc_elapsed_ticks (fst s') = target \<and> pass_chain (mc_elapsed_ticks (fst s)) passes target"
proof (induction "unat target - unat (mc_elapsed_ticks (fst s))" arbitrary: s rule: less_induct)
  case less
  show ?case
  proof (cases "mc_elapsed_ticks (fst s) < target")
    case False
    then have "mc_elapsed_ticks (fst s) = target" using less.prems(3) by simp
    then show ?thesis using less.prems by (auto simp: scheduler_loop.simps)
  next
    case True
    obtain p s1 where p: "scheduler_pass env target s = (p, s1)" by (metis surj_pair)
    note P = scheduler_pass_ok [OF p less.prems(1,2) True]
    have "unat (mc_elapsed_ticks (fst s)) < unat (sp_due_tick p)" "unat (sp_due_tick p) \<le> unat target"
      using P(4,5) by (auto simp: pass_ok_def word_less_nat_alt word_le_nat_alt)
    then have "\<exists>passes s'. scheduler_loop env target s1 = Some (passes, s') \<and> core_ok s' \<and>
        bus_ok (fst s') \<and> mc_elapsed_ticks (fst s') = target \<and> pass_chain (sp_due_tick p) passes target"
      using less.hyps [of s1] P(1-4) by (simp add: diff_less_mono2)
    then show ?thesis using True P(5) p by (auto simp: scheduler_loop.simps [of env target s])
  qed
qed

text \<open>Publishing time: it returns, and it advances guest time by exactly the published ticks.\<close>

lemma publish_ok:
  assumes "core_ok s" "bus_ok (fst s)" "n \<noteq> 0" "unat (mc_elapsed_ticks (fst s)) + unat n < 2 ^ 64"
    "\<not> publication_refused env origin s"
  shows "\<exists>status passes s'. x86_core_machine_publish_elapsed_ticks env n origin s = Some (status, passes, s') \<and>
    status = (if mc_lifecycle (fst s') = X86_CORE_MACHINE_FAULTED then LIB_STATUS_INTERNAL_ERROR else LIB_STATUS_OK) \<and>
    core_ok s' \<and> bus_ok (fst s') \<and> mc_elapsed_ticks (fst s') = mc_elapsed_ticks (fst s) + n \<and>
    pass_chain (mc_elapsed_ticks (fst s)) passes (mc_elapsed_ticks (fst s) + n) \<and>
    (\<Sum>p\<leftarrow>passes. unat (sp_source_ticks p)) = unat n"
proof -
  let ?t = "mc_elapsed_ticks (fst s) + n"
  have t: "unat ?t = unat (mc_elapsed_ticks (fst s)) + unat n" by (rule u64_add [OF assms(4)])
  then obtain passes s1 where l: "scheduler_loop env ?t s = Some (passes, s1)" "core_ok s1" "bus_ok (fst s1)"
    "mc_elapsed_ticks (fst s1) = ?t" "pass_chain (mc_elapsed_ticks (fst s)) passes ?t"
    using scheduler_loop_ok [OF assms(1,2), of ?t] by (auto simp: word_le_nat_alt)
  have "lends s1 (provider_advance env n s1)" by simp
  then have k: "keeps s1 (provider_advance env n s1)" by (rule lends_keeps)
  have room: "\<not> LIB_UINT64_MAX - mc_elapsed_ticks (fst s) < n"
    using assms(4) by (simp add: not_less u64_room)
  have "x86_core_machine_publish_elapsed_ticks env n origin s = Some
      (if mc_lifecycle (fst (provider_advance env n s1)) = X86_CORE_MACHINE_FAULTED
       then LIB_STATUS_INTERNAL_ERROR else LIB_STATUS_OK, passes, provider_advance env n s1)"
    using assms(3,5) room l(1)
    by (simp add: x86_core_machine_publish_elapsed_ticks_def x86_core_machine_advance_scheduler_def)
  then show ?thesis
    using k l pass_chain_sum [OF l(5)] t by (auto simp: keeps_def)
qed

end

section \<open>Properties\<close>

text \<open>C1: under the attachment's contract, publishing elapsed ticks always returns; guest time ends
  exactly that many ticks later, reached by passes with strictly increasing due ticks whose source
  ticks sum up to the published ones; and afterwards the timeline stands at guest time and the
  refresh cycle and the bus still agree.\<close>

theorem scheduler_publish_exact:
  assumes "scheduler_client env" "core_ok s" "bus_ok (fst s)" "n \<noteq> 0"
    "unat (mc_elapsed_ticks (fst s)) + unat n < 2 ^ 64" "\<not> publication_refused env origin s"
  shows "\<exists>status passes s'. x86_core_machine_publish_elapsed_ticks env n origin s = Some (status, passes, s') \<and>
    status = (if mc_lifecycle (fst s') = X86_CORE_MACHINE_FAULTED then LIB_STATUS_INTERNAL_ERROR else LIB_STATUS_OK) \<and>
    core_ok s' \<and> bus_ok (fst s') \<and> mc_elapsed_ticks (fst s') = mc_elapsed_ticks (fst s) + n \<and>
    pass_chain (mc_elapsed_ticks (fst s)) passes (mc_elapsed_ticks (fst s) + n) \<and>
    (\<Sum>p\<leftarrow>passes. unat (sp_source_ticks p)) = unat n"
  by (rule scheduler_client.publish_ok [OF assms])

text \<open>C2: a pass that finds nothing due at its start does not sleep through a deadline: it ends at the
  latest at the first pending timeline event, the coprocessor's completion, the processor's next
  poll, the end of the refresh cycle and the board's next deadline, and every timeline event it
  dispatches is due at exactly the tick at which its callback runs.\<close>

theorem scheduler_never_oversleeps:
  assumes "scheduler_client env" "core_ok s" "bus_ok (fst s)" "mc_elapsed_ticks (fst s) < target"
    "scheduler_pass env target s = (p, s')"
    "sp_disposition p \<noteq> X86_CORE_MACHINE_TIME_PROGRESS_IMMEDIATE"
  shows "(\<forall>d. machine_deadline env (refresh_poll env s) d \<longrightarrow> unat (sp_due_tick p) \<le> d) \<and>
    (\<forall>(k, c) \<in> set (sp_events p). key_due k = sp_due_tick p)"
  using scheduler_client.scheduler_pass_ok [OF assms(1,5,2-4)] assms(6) by (auto simp: pass_ok_def)

text \<open>C15: while a refresh cycle occupies the bus the DMA controller makes no progress: the arbitration of
  such an interval is the same whatever the DMA service would do.\<close>

theorem scheduler_refresh_excludes_dma:
  assumes "scheduler_client env" "mc_refresh_cycle_ticks_remaining (fst s) \<noteq> 0"
  shows "x86_core_machine_arbitration_advance (env\<lparr>en_dma_advance := service\<rparr>) n s =
    x86_core_machine_arbitration_advance env n s"
proof -
  let ?env = "env\<lparr>en_dma_advance := service\<rparr>"
  define s1 where "s1 = ((fst s)\<lparr>mc_bus_invalidation_cycles := 0\<rparr>, snd s)"
  obtain d s2 where s2: "(case en_dma_ticks env of None \<Rightarrow> (0, s1) | Some f \<Rightarrow> f n s1) = (d, s2)"
    by (metis surj_pair)
  have r: "mc_refresh_cycle_ticks_remaining (fst s2) \<noteq> 0"
  proof (cases "en_dma_ticks env")
    case (Some f)
    then show ?thesis
      using scheduler_client.dma_ticks_lends [OF assms(1) Some, of s1 n] s2 assms(2)
      by (simp add: lends_def bus_lent_def s1_def)
  qed (use s2 assms(2) in \<open>auto simp: s1_def\<close>)
  have h: "x86_core_machine_refresh_hold_advance ?env n s2 = x86_core_machine_refresh_hold_advance env n s2"
    using r by (simp add: x86_core_machine_refresh_hold_advance_def refresh_continue_def refresh_complete_def Let_def)
  have c: "arbitration_cpu ?env n pending used t = arbitration_cpu env n pending used t"
    "refresh_requested ?env t = refresh_requested env t" for pending used t
    by (simp_all add: arbitration_cpu_def Let_def refresh_requested_def dma_requested_def)
  have a: "arbitration_dma e d True su = su" for e and su :: "('a, 'b) core \<times> bool"
    by (simp add: arbitration_dma_def)
  show ?thesis
    using r by (simp add: x86_core_machine_arbitration_advance_def Let_def s1_def [symmetric] s2 h c a)
qed

end
