(* ===== verification/Dma.thy ===== *)
theory Dma
  imports Prelude
begin

unbundle bit_operations_syntax

text \<open>
  The 8237A DMA controller, \<^verbatim>\<open>src/src/x86-nxvm/chips/dma8237/dma.c\<close>. The board's bus
  (\<^verbatim>\<open>x86_dma_bus\<close>) is a parameter of the operations that perform cycles: a cycle takes the
  controller and the world \<open>'w\<close> behind the bus, so that a provider may change the request and
  end-of-process inputs of the controller as the interface allows. Channel numbers are natural
  numbers; arrays indexed by the channel are functions.
\<close>

section \<open>State\<close>

abbreviation VDMA_CHANNEL_COUNT :: nat where "VDMA_CHANNEL_COUNT \<equiv> 4"

record x86_dma =
  da_baseAddr :: "nat \<Rightarrow> lib_u16"
  da_baseCount :: "nat \<Rightarrow> lib_u16"
  da_currAddr :: "nat \<Rightarrow> lib_u16"
  da_currCount :: "nat \<Rightarrow> lib_u16"
  da_mode :: "nat \<Rightarrow> lib_u8"
  da_command :: lib_u8
  da_status :: lib_u8
  da_mask :: lib_u8
  da_request :: lib_u8
  da_acknowledged :: lib_u8
  da_temp :: lib_u8
  da_drx :: nat
  da_flagMSB :: bool
  da_flagEOP :: bool
  da_flagM2MWrite :: bool
  da_phase :: lib_u8
  da_isr :: lib_u8

datatype x86_dma_cycle =
    X86_DMA_VERIFY
  | X86_DMA_DEVICE_TO_MEMORY
  | X86_DMA_MEMORY_TO_DEVICE
  | X86_DMA_MEMORY_READ
  | X86_DMA_MEMORY_WRITE

record 'w x86_dma_bus =
  bus_cycle :: "x86_dma_cycle \<Rightarrow> nat \<Rightarrow> lib_u16 \<Rightarrow> lib_u8 \<Rightarrow> x86_dma \<times> 'w \<Rightarrow>
    lib_status \<times> lib_u8 \<times> x86_dma \<times> 'w"
  bus_terminal :: "(nat \<Rightarrow> x86_dma \<times> 'w \<Rightarrow> x86_dma \<times> 'w) ptr"

record x86_dma_signals =
  sg_requests :: lib_u8
  sg_active_channel :: nat
  sg_enabled :: bool

abbreviation VDMA_COMMAND_M2M :: lib_u8 where "VDMA_COMMAND_M2M \<equiv> 0x01"
abbreviation VDMA_COMMAND_C0AD :: lib_u8 where "VDMA_COMMAND_C0AD \<equiv> 0x02"
abbreviation VDMA_COMMAND_CTRL :: lib_u8 where "VDMA_COMMAND_CTRL \<equiv> 0x04"
abbreviation VDMA_COMMAND_TM :: lib_u8 where "VDMA_COMMAND_TM \<equiv> 0x08"
abbreviation VDMA_COMMAND_R :: lib_u8 where "VDMA_COMMAND_R \<equiv> 0x10"
abbreviation VDMA_MODE_AI :: lib_u8 where "VDMA_MODE_AI \<equiv> 0x10"
abbreviation VDMA_MODE_AIDS :: lib_u8 where "VDMA_MODE_AIDS \<equiv> 0x20"
abbreviation VDMA_MASK_VALID :: lib_u8 where "VDMA_MASK_VALID \<equiv> 0x0f"
abbreviation VDMA_REQSC_SR :: lib_u8 where "VDMA_REQSC_SR \<equiv> 0x04"
abbreviation VDMA_MASKSC_SM :: lib_u8 where "VDMA_MASKSC_SM \<equiv> 0x04"
abbreviation VDMA_ISR_IS :: lib_u8 where "VDMA_ISR_IS \<equiv> 0x01"
abbreviation VDMA_REQUEST_DRQ :: "nat \<Rightarrow> lib_u8" where "VDMA_REQUEST_DRQ n \<equiv> BIT_MASK n"
abbreviation VDMA_MASK_DRQ :: "nat \<Rightarrow> lib_u8" where "VDMA_MASK_DRQ n \<equiv> BIT_MASK n"
abbreviation VDMA_STATUS_TC :: "nat \<Rightarrow> lib_u8" where "VDMA_STATUS_TC n \<equiv> BIT_MASK n"
abbreviation VDMA_STATUS_DRQ :: "nat \<Rightarrow> lib_u8" where "VDMA_STATUS_DRQ n \<equiv> BIT_MASK (n + 4)"
abbreviation VDMA_PHASE_IDLE :: lib_u8 where "VDMA_PHASE_IDLE \<equiv> 0"
abbreviation VDMA_PHASE_S1 :: lib_u8 where "VDMA_PHASE_S1 \<equiv> 1"
abbreviation VDMA_PHASE_S2 :: lib_u8 where "VDMA_PHASE_S2 \<equiv> 2"
abbreviation VDMA_PHASE_S3 :: lib_u8 where "VDMA_PHASE_S3 \<equiv> 3"
abbreviation VDMA_PHASE_S4 :: lib_u8 where "VDMA_PHASE_S4 \<equiv> 4"
abbreviation VDMA_PHASE_S11 :: lib_u8 where "VDMA_PHASE_S11 \<equiv> 5"
abbreviation VDMA_PHASE_S12 :: lib_u8 where "VDMA_PHASE_S12 \<equiv> 6"
abbreviation VDMA_PHASE_S13 :: lib_u8 where "VDMA_PHASE_S13 \<equiv> 7"
abbreviation VDMA_PHASE_S14 :: lib_u8 where "VDMA_PHASE_S14 \<equiv> 8"
abbreviation VDMA_PHASE_S21 :: lib_u8 where "VDMA_PHASE_S21 \<equiv> 9"
abbreviation VDMA_PHASE_S22 :: lib_u8 where "VDMA_PHASE_S22 \<equiv> 10"
abbreviation VDMA_PHASE_S23 :: lib_u8 where "VDMA_PHASE_S23 \<equiv> 11"
abbreviation VDMA_PHASE_S24 :: lib_u8 where "VDMA_PHASE_S24 \<equiv> 12"

definition DMA_BIT_MAKE :: "lib_u8 \<Rightarrow> lib_u8 \<Rightarrow> bool \<Rightarrow> lib_u8" where
  "DMA_BIT_MAKE destination source enabled =
     (if enabled then BIT_SET destination source else BIT_CLEAR destination source)"

definition VDMA_GetMODE_CS :: "lib_u8 \<Rightarrow> nat" where
  "VDMA_GetMODE_CS cmode = unat (cmode AND 0x03)"

definition VDMA_GetMODE_TT :: "lib_u8 \<Rightarrow> lib_u8" where
  "VDMA_GetMODE_TT cmode = drop_bit 2 (cmode AND 0x0c)"

definition VDMA_GetMODE_M :: "lib_u8 \<Rightarrow> lib_u8" where
  "VDMA_GetMODE_M cmode = drop_bit 6 (cmode AND 0xc0)"

definition VDMA_GetSTATUS_DRQS :: "lib_u8 \<Rightarrow> lib_u8" where
  "VDMA_GetSTATUS_DRQS cstatus = drop_bit 4 (cstatus AND 0xf0)"

definition VDMA_GetISR_ISR :: "lib_u8 \<Rightarrow> nat" where
  "VDMA_GetISR_ISR cisr = unat (drop_bit 4 (cisr AND 0x30))"

definition VDMA_SetISR :: "nat \<Rightarrow> lib_u8" where
  "VDMA_SetISR channel = VDMA_ISR_IS OR push_bit 4 (of_nat channel)"

section \<open>Reset, grant and release\<close>

definition x86_dma_reset :: "x86_dma \<Rightarrow> x86_dma" where
  "x86_dma_reset rdma = rdma\<lparr>da_command := 0, da_status := 0, da_mask := VDMA_MASK_VALID,
     da_request := 0, da_acknowledged := 0, da_temp := 0, da_drx := 0, da_flagMSB := False,
     da_flagEOP := False, da_flagM2MWrite := False, da_phase := VDMA_PHASE_IDLE, da_isr := 0\<rparr>"

definition x86_dma_grant :: "nat \<Rightarrow> bool \<Rightarrow> x86_dma \<Rightarrow> x86_dma" where
  "x86_dma_grant channel cascade dma =
     (let dma = dma\<lparr>da_isr := VDMA_SetISR channel,
            da_acknowledged := BIT_SET (da_acknowledged dma) (VDMA_REQUEST_DRQ channel),
            da_phase := (if channel = 0 \<and> BIT_IS_SET (da_command dma) VDMA_COMMAND_M2M
              then VDMA_PHASE_S11 else VDMA_PHASE_S1)\<rparr>
      in if cascade \<and> BIT_IS_SET (da_command dma) VDMA_COMMAND_R
         then dma\<lparr>da_drx := (channel + 1) mod VDMA_CHANNEL_COUNT\<rparr> else dma)"

definition x86_dma_release :: "x86_dma \<Rightarrow> x86_dma" where
  "x86_dma_release dma =
     (let dma = (if BIT_IS_SET (da_isr dma) VDMA_ISR_IS
                 then dma\<lparr>da_acknowledged := BIT_CLEAR (da_acknowledged dma)
                   (VDMA_REQUEST_DRQ (VDMA_GetISR_ISR (da_isr dma)))\<rparr>
                 else dma)
      in dma\<lparr>da_flagM2MWrite := False, da_phase := VDMA_PHASE_IDLE, da_isr := 0\<rparr>)"

section \<open>Registers\<close>

definition dma_read_address :: "nat \<Rightarrow> x86_dma \<Rightarrow> lib_u8 \<times> x86_dma" where
  "dma_read_address channel dma =
     (if \<not> da_flagMSB dma then ucast (da_currAddr dma channel)
      else ucast (drop_bit 8 (da_currAddr dma channel)),
      dma\<lparr>da_flagMSB := \<not> da_flagMSB dma\<rparr>)"

definition dma_read_count :: "nat \<Rightarrow> x86_dma \<Rightarrow> lib_u8 \<times> x86_dma" where
  "dma_read_count channel dma =
     (if \<not> da_flagMSB dma then ucast (da_currCount dma channel)
      else ucast (drop_bit 8 (da_currCount dma channel)),
      dma\<lparr>da_flagMSB := \<not> da_flagMSB dma\<rparr>)"

definition dma_write_address :: "lib_u8 \<Rightarrow> nat \<Rightarrow> x86_dma \<Rightarrow> x86_dma" where
  "dma_write_address value channel dma =
     (let base = (if \<not> da_flagMSB dma then ucast value
                  else da_baseAddr dma channel OR push_bit 8 (ucast value))
      in dma\<lparr>da_baseAddr := (da_baseAddr dma)(channel := base),
           da_currAddr := (da_currAddr dma)(channel := base),
           da_flagMSB := \<not> da_flagMSB dma\<rparr>)"

definition dma_write_count :: "lib_u8 \<Rightarrow> nat \<Rightarrow> x86_dma \<Rightarrow> x86_dma" where
  "dma_write_count value channel dma =
     (let base = (if \<not> da_flagMSB dma then ucast value
                  else da_baseCount dma channel OR push_bit 8 (ucast value))
      in dma\<lparr>da_baseCount := (da_baseCount dma)(channel := base),
           da_currCount := (da_currCount dma)(channel := base),
           da_flagMSB := \<not> da_flagMSB dma\<rparr>)"

definition dma_write_request :: "lib_u8 \<Rightarrow> x86_dma \<Rightarrow> x86_dma" where
  "dma_write_request value dma =
     dma\<lparr>da_request := DMA_BIT_MAKE (da_request dma)
       (VDMA_REQUEST_DRQ (unat (value AND 0x03))) (BIT_IS_SET value VDMA_REQSC_SR)\<rparr>"

definition dma_write_mask :: "lib_u8 \<Rightarrow> x86_dma \<Rightarrow> x86_dma" where
  "dma_write_mask value dma =
     dma\<lparr>da_mask := DMA_BIT_MAKE (da_mask dma)
       (VDMA_MASK_DRQ (unat (value AND 0x03))) (BIT_IS_SET value VDMA_MASKSC_SM)\<rparr>"

section \<open>Priority and requests\<close>

definition dma_GetRegTopId :: "x86_dma \<Rightarrow> lib_u8 \<Rightarrow> nat" where
  "dma_GetRegTopId rdma reg =
     (if reg = 0 then 0x08
      else
        let reg = push_bit (VDMA_CHANNEL_COUNT - da_drx rdma) reg OR drop_bit (da_drx rdma) reg
        in (scan_set_bit VDMA_CHANNEL_COUNT reg 0 + da_drx rdma) mod VDMA_CHANNEL_COUNT)"

definition dma_software_request_is_valid :: "x86_dma \<Rightarrow> nat \<Rightarrow> bool" where
  "dma_software_request_is_valid dma channel \<longleftrightarrow>
     BIT_IS_SET (da_request dma) (VDMA_REQUEST_DRQ channel) \<and>
     (VDMA_GetMODE_M (da_mode dma channel) = 0x02 \<or>
      (channel = 0 \<and> BIT_IS_SET (da_command dma) VDMA_COMMAND_M2M))"

definition dma_pending_requests :: "x86_dma \<Rightarrow> lib_u8" where
  "dma_pending_requests dma =
     (let pending = VDMA_GetSTATUS_DRQS (da_status dma) AND NOT (da_mask dma)
      in if da_request dma = 0 then pending
         else fold (\<lambda>channel pending. if dma_software_request_is_valid dma channel
                then BIT_SET pending (VDMA_REQUEST_DRQ channel) else pending)
              [0..<VDMA_CHANNEL_COUNT] pending)"

definition IncreaseCurrAddr :: "nat \<Rightarrow> x86_dma \<Rightarrow> x86_dma" where
  "IncreaseCurrAddr k rdma =
     rdma\<lparr>da_currAddr := (da_currAddr rdma)(k := da_currAddr rdma k + 1)\<rparr>"

definition DecreaseCurrAddr :: "nat \<Rightarrow> x86_dma \<Rightarrow> x86_dma" where
  "DecreaseCurrAddr k rdma =
     rdma\<lparr>da_currAddr := (da_currAddr rdma)(k := da_currAddr rdma k - 1)\<rparr>"

definition zero_dma :: x86_dma where
  "zero_dma = \<lparr>da_baseAddr = (\<lambda>_. 0), da_baseCount = (\<lambda>_. 0), da_currAddr = (\<lambda>_. 0),
     da_currCount = (\<lambda>_. 0), da_mode = (\<lambda>_. 0), da_command = 0, da_status = 0, da_mask = 0,
     da_request = 0, da_acknowledged = 0, da_temp = 0, da_drx = 0, da_flagMSB = False,
     da_flagEOP = False, da_flagM2MWrite = False, da_phase = 0, da_isr = 0\<rparr>"

fun x86_dma_create :: "bool \<Rightarrow> x86_dma ptr ptr \<Rightarrow> lib_status \<times> x86_dma ptr ptr" where
  "x86_dma_create allocated None = (LIB_STATUS_INVALID_ARGUMENT, None)"
| "x86_dma_create allocated (Some out_dma) =
     (if \<not> allocated then (LIB_STATUS_NO_MEMORY, Some None)
      else (LIB_STATUS_OK, Some (Some (x86_dma_reset zero_dma))))"

definition x86_dma_read_register :: "nat \<Rightarrow> lib_u8 \<Rightarrow> x86_dma \<Rightarrow> lib_u8 \<times> x86_dma" where
  "x86_dma_read_register selector io_value dma =
     (if selector < 8 then
        if even selector then dma_read_address (selector div 2) dma
        else dma_read_count (selector div 2) dma
      else if selector = 8 then
        (da_status dma OR push_bit 4 (da_request dma),
         dma\<lparr>da_status := BIT_CLEAR (da_status dma) 0x0f\<rparr>)
      else if selector = 13 then (da_temp dma, dma)
      else (io_value, dma))"

definition x86_dma_write_register :: "nat \<Rightarrow> lib_u8 \<Rightarrow> x86_dma \<Rightarrow> x86_dma" where
  "x86_dma_write_register selector value dma =
     (if selector < 8 then
        if even selector then dma_write_address value (selector div 2) dma
        else dma_write_count value (selector div 2) dma
      else if selector = 8 then dma\<lparr>da_command := value\<rparr>
      else if selector = 9 then dma_write_request value dma
      else if selector = 10 then dma_write_mask value dma
      else if selector = 11 then dma\<lparr>da_mode := (da_mode dma)(VDMA_GetMODE_CS value := value)\<rparr>
      else if selector = 12 then dma\<lparr>da_flagMSB := False\<rparr>
      else if selector = 13 then x86_dma_reset dma
      else if selector = 14 then dma\<lparr>da_mask := 0\<rparr>
      else if selector = 15 then dma\<lparr>da_mask := value AND 0x0f\<rparr>
      else dma)"

definition x86_dma_set_request :: "nat \<Rightarrow> bool \<Rightarrow> x86_dma \<Rightarrow> x86_dma" where
  "x86_dma_set_request channel asserted dma =
     (if channel < VDMA_CHANNEL_COUNT
      then dma\<lparr>da_status := DMA_BIT_MAKE (da_status dma) (VDMA_STATUS_DRQ channel) asserted\<rparr>
      else dma)"

definition x86_dma_terminate :: "x86_dma \<Rightarrow> x86_dma" where
  "x86_dma_terminate dma = dma\<lparr>da_flagEOP := True\<rparr>"

definition x86_dma_get_signals :: "x86_dma \<Rightarrow> x86_dma_signals" where
  "x86_dma_get_signals dma =
     \<lparr>sg_requests = dma_pending_requests dma,
      sg_active_channel = (if BIT_IS_SET (da_isr dma) VDMA_ISR_IS
        then VDMA_GetISR_ISR (da_isr dma) else VDMA_CHANNEL_COUNT),
      sg_enabled = (\<not> BIT_IS_SET (da_command dma) VDMA_COMMAND_CTRL)\<rparr>"

definition x86_dma_select :: "x86_dma \<Rightarrow> lib_u8 \<Rightarrow> nat" where
  "x86_dma_select dma requests =
     (let requests = requests AND VDMA_MASK_VALID
      in if requests \<noteq> 0 then dma_GetRegTopId dma requests else VDMA_CHANNEL_COUNT)"

section \<open>Transfers\<close>

text \<open>The cast of the two transfer-type bits to \<^verbatim>\<open>x86_dma_cycle\<close> (3 is refused before).\<close>

definition dma_cycle_kind :: "lib_u8 \<Rightarrow> x86_dma_cycle" where
  "dma_cycle_kind kind =
     (if kind = 0 then X86_DMA_VERIFY else if kind = 1 then X86_DMA_DEVICE_TO_MEMORY
      else X86_DMA_MEMORY_TO_DEVICE)"

definition dma_step_address :: "nat \<Rightarrow> x86_dma \<Rightarrow> x86_dma" where
  "dma_step_address channel dma =
     (if BIT_IS_SET (da_mode dma channel) VDMA_MODE_AIDS then DecreaseCurrAddr channel dma
      else IncreaseCurrAddr channel dma)"

definition dma_count_down :: "nat \<Rightarrow> x86_dma \<Rightarrow> x86_dma" where
  "dma_count_down channel dma =
     (let dma = dma\<lparr>da_currCount :=
            (da_currCount dma)(channel := da_currCount dma channel - 1)\<rparr>
      in if da_currCount dma channel = 0xffff then dma\<lparr>da_flagEOP := True\<rparr> else dma)"

definition Transmission :: "'w x86_dma_bus \<Rightarrow> nat \<Rightarrow> x86_dma \<times> 'w \<Rightarrow> bool \<times> x86_dma \<times> 'w" where
  "Transmission bus channel s =
     (let dma = fst s; kind = VDMA_GetMODE_TT (da_mode dma channel)
      in if kind = 3 then (False, s)
         else
           let (status, byte, dma, w) =
             bus_cycle bus (dma_cycle_kind kind) channel (da_currAddr dma channel) 0 s
           in if status \<noteq> LIB_STATUS_OK then (False, dma, w)
              else (True, dma_step_address channel (dma_count_down channel dma), w))"

definition dma_complete_channel :: "'w x86_dma_bus \<Rightarrow> nat \<Rightarrow> x86_dma \<times> 'w \<Rightarrow> x86_dma \<times> 'w" where
  "dma_complete_channel bus index s =
     (let (dma, w) = s;
          dma = dma\<lparr>da_request := BIT_CLEAR (da_request dma) (VDMA_REQUEST_DRQ index)\<rparr>;
          (dma, w) = (case bus_terminal bus of None \<Rightarrow> (dma, w) | Some f \<Rightarrow> f index (dma, w))
      in if BIT_IS_SET (da_mode dma index) VDMA_MODE_AI
         then (dma\<lparr>da_currAddr := (da_currAddr dma)(index := da_baseAddr dma index),
                 da_currCount := (da_currCount dma)(index := da_baseCount dma index)\<rparr>, w)
         else (dma\<lparr>da_mask := BIT_SET (da_mask dma) (VDMA_MASK_DRQ index)\<rparr>, w))"

definition dma_complete_transfer ::
  "'w x86_dma_bus \<Rightarrow> nat \<Rightarrow> bool \<Rightarrow> x86_dma \<times> 'w \<Rightarrow> x86_dma \<times> 'w" where
  "dma_complete_transfer bus channel memory_to_memory s =
     (let (dma, w) = s;
          (dma, w) = fold (dma_complete_channel bus)
            (if memory_to_memory then [0, 1] else [channel]) (x86_dma_release dma, w)
      in (dma\<lparr>da_status := BIT_SET (da_status dma)
            (VDMA_STATUS_TC (if memory_to_memory then 1 else channel))\<rparr>, w))"

text \<open>
  The two halves of \<^verbatim>\<open>Execute\<close>. Each returns whether the function returns early, before
  the test of the end-of-process flag.
\<close>

definition dma_execute_m2m :: "'w x86_dma_bus \<Rightarrow> x86_dma \<times> 'w \<Rightarrow> bool \<times> x86_dma \<times> 'w" where
  "dma_execute_m2m bus s =
     (let (rdma, w) = s
      in if da_flagEOP rdma then (False, s)
         else if \<not> da_flagM2MWrite rdma then
           let (status, byte, rdma, w) =
             bus_cycle bus X86_DMA_MEMORY_READ 0 (da_currAddr rdma 0) (da_temp rdma) s
           in if status \<noteq> LIB_STATUS_OK then (True, x86_dma_release rdma, w)
              else (True, rdma\<lparr>da_temp := byte, da_flagM2MWrite := True\<rparr>, w)
         else
           let (status, byte, rdma, w) =
             bus_cycle bus X86_DMA_MEMORY_WRITE 1 (da_currAddr rdma 1) (da_temp rdma) s
           in if status \<noteq> LIB_STATUS_OK then (True, x86_dma_release rdma, w)
              else
                let rdma = rdma\<lparr>da_flagM2MWrite := False\<rparr>;
                    rdma = dma_step_address 1 (dma_count_down 1 rdma);
                    rdma = (if \<not> BIT_IS_SET (da_command rdma) VDMA_COMMAND_C0AD
                            then dma_step_address 0 rdma else rdma)
                in (False, rdma, w))"

definition dma_execute_channel ::
  "'w x86_dma_bus \<Rightarrow> nat \<Rightarrow> bool \<Rightarrow> x86_dma \<times> 'w \<Rightarrow> bool \<times> x86_dma \<times> 'w" where
  "dma_execute_channel bus k request_asserted s =
     (let (rdma, w) = s; m = VDMA_GetMODE_M (da_mode rdma k)
      in if m = 0x00 then
           let (ok, rdma, w) =
             (if request_asserted \<and> \<not> da_flagEOP rdma then Transmission bus k s else (True, s))
           in if \<not> ok then (True, x86_dma_release rdma, w)
              else (False, if \<not> da_flagEOP rdma \<and> \<not> request_asserted
                then x86_dma_release rdma else rdma, w)
         else if m = 0x01 then
           let (ok, rdma, w) = (if \<not> da_flagEOP rdma then Transmission bus k s else (True, s))
           in if \<not> ok then (True, x86_dma_release rdma, w)
              else (False, if \<not> da_flagEOP rdma then x86_dma_release rdma else rdma, w)
         else if m = 0x02 then
           let (ok, rdma, w) = (if \<not> da_flagEOP rdma then Transmission bus k s else (True, s))
           in if \<not> ok then (True, x86_dma_release rdma, w) else (False, rdma, w)
         else (True, x86_dma_release rdma, w))"

definition Execute :: "'w x86_dma_bus \<Rightarrow> nat \<Rightarrow> x86_dma \<times> 'w \<Rightarrow> x86_dma \<times> 'w" where
  "Execute bus k s =
     (let (rdma, w) = s;
          flagM2M = (k = 0 \<and> BIT_IS_SET (da_request rdma) (VDMA_REQUEST_DRQ 0) \<and>
            BIT_IS_SET (da_command rdma) VDMA_COMMAND_M2M);
          request_asserted = BIT_IS_SET (da_status rdma) (VDMA_STATUS_DRQ k);
          rdma = (if BIT_IS_SET (da_command rdma) VDMA_COMMAND_R
                  then rdma\<lparr>da_drx := (k + 1) mod VDMA_CHANNEL_COUNT\<rparr> else rdma);
          (early, rdma, w) = (if flagM2M then dma_execute_m2m bus (rdma, w)
            else dma_execute_channel bus k request_asserted (rdma, w))
      in if early then (rdma, w)
         else
           let (rdma, w) = (if da_flagEOP rdma then dma_complete_transfer bus k flagM2M (rdma, w)
                            else (rdma, w))
           in (rdma\<lparr>da_flagEOP := False\<rparr>, w))"

definition dma_address_high_changed :: "lib_u16 \<Rightarrow> lib_u16 \<Rightarrow> bool" where
  "dma_address_high_changed before after \<longleftrightarrow> before AND 0xff00 \<noteq> after AND 0xff00"

definition x86_dma_advance :: "'w x86_dma_bus \<Rightarrow> x86_dma \<times> 'w \<Rightarrow> x86_dma \<times> 'w" where
  "x86_dma_advance bus s =
     (let (dma, w) = s; channel = VDMA_GetISR_ISR (da_isr dma); phase = da_phase dma
      in if \<not> BIT_IS_SET (da_isr dma) VDMA_ISR_IS then s
         else if phase = VDMA_PHASE_S1 then (dma\<lparr>da_phase := VDMA_PHASE_S2\<rparr>, w)
         else if phase = VDMA_PHASE_S2 then
           (dma\<lparr>da_phase := (if BIT_IS_SET (da_command dma) VDMA_COMMAND_TM
              then VDMA_PHASE_S4 else VDMA_PHASE_S3)\<rparr>, w)
         else if phase = VDMA_PHASE_S3 then (dma\<lparr>da_phase := VDMA_PHASE_S4\<rparr>, w)
         else if phase = VDMA_PHASE_S4 then
           let channel_before = da_currAddr dma channel; (dma, w) = Execute bus channel s
           in if BIT_IS_SET (da_isr dma) VDMA_ISR_IS
              then (dma\<lparr>da_phase := (if dma_address_high_changed channel_before
                      (da_currAddr dma channel) then VDMA_PHASE_S1 else VDMA_PHASE_S2)\<rparr>, w)
              else (dma, w)
         else if phase = VDMA_PHASE_S11 then (dma\<lparr>da_phase := VDMA_PHASE_S12\<rparr>, w)
         else if phase = VDMA_PHASE_S12 then (dma\<lparr>da_phase := VDMA_PHASE_S13\<rparr>, w)
         else if phase = VDMA_PHASE_S13 then (dma\<lparr>da_phase := VDMA_PHASE_S14\<rparr>, w)
         else if phase = VDMA_PHASE_S14 then
           let (dma, w) = Execute bus channel s
           in if BIT_IS_SET (da_isr dma) VDMA_ISR_IS \<and> da_flagM2MWrite dma
              then (dma\<lparr>da_phase := VDMA_PHASE_S21\<rparr>, w) else (dma, w)
         else if phase = VDMA_PHASE_S21 then (dma\<lparr>da_phase := VDMA_PHASE_S22\<rparr>, w)
         else if phase = VDMA_PHASE_S22 then (dma\<lparr>da_phase := VDMA_PHASE_S23\<rparr>, w)
         else if phase = VDMA_PHASE_S23 then (dma\<lparr>da_phase := VDMA_PHASE_S24\<rparr>, w)
         else if phase = VDMA_PHASE_S24 then
           let source_before = da_currAddr dma 0; (dma, w) = Execute bus channel s
           in if BIT_IS_SET (da_isr dma) VDMA_ISR_IS
              then (dma\<lparr>da_phase := (if dma_address_high_changed source_before
                      (da_currAddr dma 0) then VDMA_PHASE_S11 else VDMA_PHASE_S12)\<rparr>, w)
              else (dma, w)
         else (x86_dma_release dma, w))"

section \<open>Priority\<close>

text \<open>The distance of a channel from the channel of highest priority.\<close>

definition dma_rank :: "x86_dma \<Rightarrow> nat \<Rightarrow> nat" where
  "dma_rank dma c = (c + 4 - da_drx dma) mod 4"

lemma bit_rotated_nibble:
  fixes reg :: lib_u8
  assumes "r < 4" and "d < 4" and "\<And>i. bit reg i \<Longrightarrow> i < 4"
  shows "bit (push_bit (4 - r) reg OR drop_bit r reg) d \<longleftrightarrow> bit reg ((d + r) mod 4)"
proof (cases "d + r < 4")
  case True
  then have "\<not> 4 - r \<le> d" using assms(1) by linarith
  then show ?thesis using True assms(2) by (simp add: bit_simps add.commute)
next
  case False
  then have "(d + r) mod 4 = d - (4 - r)" using assms(1,2) by (simp add: mod_if)
  moreover have "\<not> bit reg (d + r)" using False assms(3) [of "d + r"] by blast
  ultimately show ?thesis using False assms(1,2) by (auto simp: bit_simps add.commute)
qed

lemma dma_top:
  assumes drx: "da_drx dma < 4" and reg: "\<And>i. bit reg i \<Longrightarrow> i < 4" and j: "bit reg j"
  shows "dma_GetRegTopId dma reg < 4 \<and> bit reg (dma_GetRegTopId dma reg) \<and>
    dma_rank dma (dma_GetRegTopId dma reg) \<le> dma_rank dma j"
proof -
  let ?r = "da_drx dma"
  let ?rot = "push_bit (4 - ?r) reg OR drop_bit ?r reg"
  let ?d = "dma_rank dma j"
  let ?s = "scan_set_bit 4 ?rot 0"
  have j4: "j < 4" using reg j by blast
  have d4: "?d < 4" by (simp add: dma_rank_def)
  have "(?d + ?r) mod 4 = j"
    using rotate_offset_rank [OF drx j4] by (simp add: dma_rank_def add.commute)
  then have "bit ?rot ?d" using bit_rotated_nibble [OF drx d4 reg] j by simp
  then have s: "?s \<le> ?d" "bit ?rot ?s" using scan_set_bit_found [of ?rot ?d 4] d4 by simp_all
  then have lt: "?s < 4" using d4 by linarith
  have top: "dma_GetRegTopId dma reg = (?r + ?s) mod 4"
    using j by (auto simp: dma_GetRegTopId_def Let_def add.commute)
  have "dma_rank dma (dma_GetRegTopId dma reg) = ?s"
    unfolding top dma_rank_def by (rule rotate_rank_offset [OF drx lt])
  moreover have "bit reg (dma_GetRegTopId dma reg)"
    using s(2) bit_rotated_nibble [OF drx lt reg] by (simp add: top add.commute)
  ultimately show ?thesis using s(1) by (simp add: top)
qed

lemma bit_low_nibble: "bit ((w :: lib_u8) AND 0x0f) i \<longleftrightarrow> bit w i \<and> i < 4"
proof -
  have m: "(0x0f :: lib_u8) = mask 4" by (simp add: mask_eq_exp_minus_1)
  show ?thesis unfolding m by (auto simp: bit_simps)
qed

lemma dma_select_cases:
  assumes "da_drx dma < 4"
  shows "if \<exists>c < 4. bit requests c
    then x86_dma_select dma requests < 4 \<and> bit requests (x86_dma_select dma requests) \<and>
      (\<forall>c < 4. bit requests c \<longrightarrow>
        dma_rank dma (x86_dma_select dma requests) \<le> dma_rank dma c)
    else x86_dma_select dma requests = 4"
proof (cases "\<exists>c < 4. bit requests c")
  case True
  let ?m = "requests AND VDMA_MASK_VALID"
  have top: "dma_GetRegTopId dma ?m < 4 \<and> bit ?m (dma_GetRegTopId dma ?m) \<and>
      dma_rank dma (dma_GetRegTopId dma ?m) \<le> dma_rank dma c" if "c < 4" "bit requests c" for c
    by (rule dma_top [OF assms]) (use that in \<open>auto simp: bit_low_nibble\<close>)
  from True obtain c where c: "c < 4" "bit requests c" by blast
  then have "bit ?m c" by (simp add: bit_low_nibble)
  then have "?m \<noteq> 0" by auto
  then have "x86_dma_select dma requests = dma_GetRegTopId dma ?m"
    by (simp add: x86_dma_select_def)
  with True top top [OF c] show ?thesis by (auto simp: bit_low_nibble)
next
  case False
  then have "requests AND VDMA_MASK_VALID = 0"
    by (auto simp: word_eq_0_bits bit_low_nibble)
  with False show ?thesis by (simp add: x86_dma_select_def)
qed

section \<open>The invariant\<close>

lemma isr_fields [simp]:
  assumes "c < 4"
  shows "bit (VDMA_SetISR c) 0" "VDMA_GetISR_ISR (VDMA_SetISR c) = c"
proof -
  have "c = 0 \<or> c = 1 \<or> c = 2 \<or> c = 3" using assms by linarith
  then show "bit (VDMA_SetISR c) 0" "VDMA_GetISR_ISR (VDMA_SetISR c) = c"
    by (auto simp: VDMA_SetISR_def VDMA_GetISR_ISR_def)
qed

text \<open>
  The rotation stays within the channels; at most one channel is in service, its acknowledge is
  the only one asserted, and exactly then the service has a phase.
\<close>

definition dma_idle :: "x86_dma \<Rightarrow> bool" where
  "dma_idle d \<longleftrightarrow> da_isr d = 0 \<and> da_acknowledged d = 0 \<and> da_phase d = 0 \<and> \<not> da_flagM2MWrite d"

definition dma_serving :: "nat \<Rightarrow> x86_dma \<Rightarrow> bool" where
  "dma_serving c d \<longleftrightarrow> c < 4 \<and> da_isr d = VDMA_SetISR c \<and> da_acknowledged d = BIT_MASK c \<and>
     da_phase d \<noteq> 0 \<and> da_phase d \<le> 12"

definition dma_ok :: "x86_dma \<Rightarrow> bool" where
  "dma_ok d \<longleftrightarrow> da_drx d < 4 \<and> (dma_idle d \<or> (\<exists>c. dma_serving c d))"

text \<open>What a bus provider may change of the controller: the inputs.\<close>

definition dma_inputs_only :: "x86_dma \<Rightarrow> x86_dma \<Rightarrow> bool" where
  "dma_inputs_only d d' \<longleftrightarrow> (\<exists>st e. d' = d\<lparr>da_status := st, da_flagEOP := e\<rparr>)"

definition polite_bus :: "'w x86_dma_bus \<Rightarrow> bool" where
  "polite_bus bus \<longleftrightarrow>
     (\<forall>kind c a b d w. dma_inputs_only d (fst (snd (snd (bus_cycle bus kind c a b (d, w)))))) \<and>
     (\<forall>f. bus_terminal bus = Some f \<longrightarrow> (\<forall>c d w. dma_inputs_only d (fst (f c (d, w)))))"

lemma release_idle: "dma_serving c d \<or> dma_idle d \<Longrightarrow> dma_idle (x86_dma_release d)"
proof -
  have "BIT_CLEAR (BIT_MASK c :: lib_u8) (BIT_MASK c) = 0" for c
    by (rule bit_word_eqI) simp
  then show "dma_serving c d \<or> dma_idle d \<Longrightarrow> dma_idle (x86_dma_release d)"
    by (auto simp: dma_serving_def dma_idle_def x86_dma_release_def Let_def)
qed

lemma release_drx [simp]: "da_drx (x86_dma_release d) = da_drx d"
  by (simp add: x86_dma_release_def Let_def)

lemma grant_serving:
  "dma_idle d \<Longrightarrow> c < 4 \<Longrightarrow> dma_serving c (x86_dma_grant c cascade d)"
  by (simp add: dma_idle_def dma_serving_def x86_dma_grant_def BIT_SET_def Let_def)

text \<open>The fields that say who is being served, and the steps that leave them alone.\<close>

definition dma_core :: "x86_dma \<Rightarrow> lib_u8 \<times> lib_u8 \<times> lib_u8 \<times> bool \<times> nat" where
  "dma_core d = (da_isr d, da_acknowledged d, da_phase d, da_flagM2MWrite d, da_drx d)"

lemma core_idle: "dma_core d = dma_core d' \<Longrightarrow> dma_idle d = dma_idle d'"
  by (simp add: dma_core_def dma_idle_def)

lemma core_serving: "dma_core d = dma_core d' \<Longrightarrow> dma_serving c d = dma_serving c d'"
  by (simp add: dma_core_def dma_serving_def)

lemma core_drx: "dma_core d = dma_core d' \<Longrightarrow> da_drx d = da_drx d'"
  by (simp add: dma_core_def)

lemma core_steps [simp]:
  "dma_core (dma_count_down k d) = dma_core d"
  "dma_core (dma_step_address k d) = dma_core d"
  "dma_core (d\<lparr>da_flagEOP := e\<rparr>) = dma_core d"
  "dma_core (d\<lparr>da_status := st\<rparr>) = dma_core d"
  by (simp_all add: dma_core_def dma_count_down_def dma_step_address_def IncreaseCurrAddr_def
      DecreaseCurrAddr_def Let_def)

lemma core_inputs: "dma_inputs_only d d' \<Longrightarrow> dma_core d' = dma_core d"
  by (auto simp: dma_inputs_only_def dma_core_def)

lemma polite_cycle:
  assumes "polite_bus bus" and "bus_cycle bus kind c a b (d, w) = (st, b', d', w')"
  shows "dma_core d' = dma_core d"
proof -
  have "dma_inputs_only d (fst (snd (snd (bus_cycle bus kind c a b (d, w)))))"
    using assms(1) unfolding polite_bus_def by blast
  then show ?thesis using assms(2) core_inputs by simp
qed

lemma transmission_core:
  assumes "polite_bus bus" and "Transmission bus k (d, w) = (ok, d', w')"
  shows "dma_core d' = dma_core d"
  using assms polite_cycle [OF assms(1)]
  by (auto simp: Transmission_def Let_def split: if_splits prod.splits)

lemma complete_channel_core:
  assumes "polite_bus bus" and "dma_complete_channel bus k (d, w) = (d', w')"
  shows "dma_core d' = dma_core d"
proof -
  let ?d = "d\<lparr>da_request := BIT_CLEAR (da_request d) (VDMA_REQUEST_DRQ k)\<rparr>"
  obtain d1 w1 where t: "(case bus_terminal bus of None \<Rightarrow> (?d, w) | Some f \<Rightarrow> f k (?d, w)) = (d1, w1)"
    by (cases "case bus_terminal bus of None \<Rightarrow> (?d, w) | Some f \<Rightarrow> f k (?d, w)")
  have "dma_inputs_only ?d d1"
  proof (cases "bus_terminal bus")
    case None
    have "d1 = ?d" using t None by simp
    moreover have "?d = ?d\<lparr>da_status := da_status ?d, da_flagEOP := da_flagEOP ?d\<rparr>" by simp
    ultimately have "d1 = ?d\<lparr>da_status := da_status ?d, da_flagEOP := da_flagEOP ?d\<rparr>" by metis
    then show ?thesis unfolding dma_inputs_only_def by blast
  next
    case (Some f)
    then have "dma_inputs_only ?d (fst (f k (?d, w)))"
      using assms(1) unfolding polite_bus_def by blast
    then show ?thesis using t Some by simp
  qed
  then have "dma_core d1 = dma_core d" by (auto simp: dma_inputs_only_def dma_core_def)
  moreover have "dma_core d' = dma_core d1"
    using assms(2) t by (auto simp: dma_complete_channel_def Let_def dma_core_def split: if_splits)
  ultimately show ?thesis by simp
qed

lemma complete_transfer_core:
  assumes "polite_bus bus" and "dma_complete_transfer bus k m (d, w) = (d', w')"
  shows "dma_core d' = dma_core (x86_dma_release d)"
proof -
  have "dma_core (fst (fold (dma_complete_channel bus) ks (e, v))) = dma_core e" for ks e v
  proof (induction ks arbitrary: e v)
    case Nil
    then show ?case by simp
  next
    case (Cons j ks)
    obtain e1 v1 where "dma_complete_channel bus j (e, v) = (e1, v1)"
      by (cases "dma_complete_channel bus j (e, v)")
    then show ?case using Cons complete_channel_core [OF assms(1)] by simp
  qed
  from this [of "if m then [0, 1] else [k]" "x86_dma_release d" w] show ?thesis
    using assms(2) by (auto simp: dma_complete_transfer_def Let_def split: prod.splits)
qed

definition dma_live :: "nat \<Rightarrow> x86_dma \<Rightarrow> bool" where
  "dma_live c d \<longleftrightarrow> c < 4 \<and> da_drx d < 4 \<and> (dma_idle d \<or> dma_serving c d)"

lemma live_core: "dma_core d' = dma_core d \<Longrightarrow> dma_live c d' = dma_live c d"
  using core_idle [of d' d] core_serving [of d' d] core_drx [of d' d] by (simp add: dma_live_def)

lemma live_release: "dma_live c d \<Longrightarrow> dma_live c (x86_dma_release d)"
  using release_idle by (auto simp: dma_live_def)

lemma execute_m2m_live:
  assumes "polite_bus bus" and "dma_serving c d" and "da_drx d < 4"
    and ex: "dma_execute_m2m bus (d, w) = (early, d', w')"
  shows "dma_live c d'"
proof -
  have live: "dma_live c d" using assms by (simp add: dma_live_def dma_serving_def)
  have upd: "dma_live c (e\<lparr>da_temp := v, da_flagM2MWrite := f\<rparr>)" "dma_live c (e\<lparr>da_flagM2MWrite := f\<rparr>)"
    if "dma_core e = dma_core d" for e v f
    using that assms(2,3) by (auto simp: dma_live_def dma_serving_def dma_core_def)
  show ?thesis
  proof (cases "da_flagEOP d")
    case True
    then show ?thesis using ex live by (auto simp: dma_execute_m2m_def Let_def)
  next
    case eop: False
    obtain st b e v where cyc: "bus_cycle bus (if da_flagM2MWrite d then X86_DMA_MEMORY_WRITE
        else X86_DMA_MEMORY_READ) (if da_flagM2MWrite d then 1 else 0)
        (da_currAddr d (if da_flagM2MWrite d then 1 else 0)) (da_temp d) (d, w) = (st, b, e, v)"
      by (cases "bus_cycle bus (if da_flagM2MWrite d then X86_DMA_MEMORY_WRITE
        else X86_DMA_MEMORY_READ) (if da_flagM2MWrite d then 1 else 0)
        (da_currAddr d (if da_flagM2MWrite d then 1 else 0)) (da_temp d) (d, w)")
    have core: "dma_core e = dma_core d" by (rule polite_cycle [OF assms(1) cyc])
    then have rel: "dma_live c (x86_dma_release e)" using live live_core live_release by blast
    show ?thesis
      using ex eop cyc rel upd [OF core]
      by (auto simp: dma_execute_m2m_def Let_def live_core [OF core_steps(2)]
          live_core [OF core_steps(1)] split: if_splits)
  qed
qed

lemma execute_channel_live:
  assumes "polite_bus bus" and live: "dma_live c d"
    and ex: "dma_execute_channel bus k ra (d, w) = (early, d', w')"
  shows "dma_live c d'"
proof -
  obtain ok e v where tr: "Transmission bus k (d, w) = (ok, e, v)" by (cases "Transmission bus k (d, w)")
  have "dma_core e = dma_core d" by (rule transmission_core [OF assms(1) tr])
  then have e: "dma_live c e" "dma_live c (x86_dma_release e)"
    using live live_core live_release by blast+
  moreover have "dma_live c (x86_dma_release d)" using live live_release by blast
  ultimately show ?thesis using ex live tr
    by (auto simp: dma_execute_channel_def Let_def split: if_splits)
qed

lemma execute_live:
  assumes "polite_bus bus" and "dma_serving c d" and "da_drx d < 4"
    and ex: "Execute bus c (d, w) = (d', w')"
  shows "dma_live c d'"
proof -
  let ?m = "c = 0 \<and> BIT_IS_SET (da_request d) (VDMA_REQUEST_DRQ 0) \<and>
    BIT_IS_SET (da_command d) VDMA_COMMAND_M2M"
  let ?r = "if BIT_IS_SET (da_command d) VDMA_COMMAND_R
    then d\<lparr>da_drx := (c + 1) mod VDMA_CHANNEL_COUNT\<rparr> else d"
  have s: "dma_serving c ?r" "da_drx ?r < 4" using assms(2,3) by (auto simp: dma_serving_def)
  then have l: "dma_live c ?r" by (auto simp: dma_live_def dma_serving_def)
  obtain early e v where half: "(if ?m then dma_execute_m2m bus (?r, w)
      else dma_execute_channel bus c (BIT_IS_SET (da_status d) (VDMA_STATUS_DRQ c)) (?r, w)) =
      (early, e, v)"
    by (metis prod_cases3)
  have e: "dma_live c e"
    using half execute_m2m_live [OF assms(1) s] execute_channel_live [OF assms(1) l]
    by (auto split: if_splits)
  obtain f u where comp: "(if da_flagEOP e then dma_complete_transfer bus c ?m (e, v) else (e, v)) = (f, u)"
    by (metis prod.exhaust)
  have f: "dma_live c f"
  proof (cases "da_flagEOP e")
    case True
    then have "dma_complete_transfer bus c ?m (e, v) = (f, u)" using comp by simp
    then have "dma_core f = dma_core (x86_dma_release e)" by (rule complete_transfer_core [OF assms(1)])
    then show ?thesis using live_core live_release [OF e] by blast
  next
    case False
    then show ?thesis using comp e by simp
  qed
  have "Execute bus c (d, w) = (if early then (e, v) else (f\<lparr>da_flagEOP := False\<rparr>, u))"
    by (simp only: Execute_def Let_def prod.case half comp)
  then have "d' = (if early then e else f\<lparr>da_flagEOP := False\<rparr>)"
    using ex by (simp split: if_splits)
  then show ?thesis using e f by (simp add: live_core [OF core_steps(3)])
qed

lemma live_phase:
  "dma_live c d \<Longrightarrow> bit (da_isr d) 0 \<Longrightarrow> ph \<noteq> 0 \<Longrightarrow> ph \<le> 12 \<Longrightarrow> dma_live c (d\<lparr>da_phase := ph\<rparr>)"
  by (auto simp: dma_live_def dma_idle_def dma_serving_def)

text \<open>One clock: the phase sequencer moves on, or executes the cycle of its channel.\<close>

lemma advance_serving:
  assumes "polite_bus bus" and s: "dma_serving c d" and "da_drx d < 4"
    and adv: "x86_dma_advance bus (d, w) = (d', w')"
  shows "dma_live c d'"
proof -
  have c: "c < 4" and isr: "da_isr d = VDMA_SetISR c" using s by (simp_all add: dma_serving_def)
  have live: "dma_live c d" using assms by (simp add: dma_live_def dma_serving_def)
  obtain e v where ex: "Execute bus c (d, w) = (e, v)" by (cases "Execute bus c (d, w)")
  have e: "dma_live c e" by (rule execute_live [OF assms(1) s assms(3) ex])
  note ph = live_phase [OF e] live_phase [OF live]
  have "dma_live c (x86_dma_release d)" by (rule live_release [OF live])
  then show ?thesis
    using adv ex e ph c isr
    by (auto simp: x86_dma_advance_def Let_def split: if_splits)
qed

lemma advance_ok:
  assumes "polite_bus bus" and "dma_ok d" and "x86_dma_advance bus (d, w) = (d', w')"
  shows "dma_ok d'"
proof (cases "dma_idle d")
  case True
  then show ?thesis using assms by (auto simp: x86_dma_advance_def dma_idle_def Let_def)
next
  case False
  then obtain c where "dma_serving c d" using assms(2) by (auto simp: dma_ok_def)
  with advance_serving [OF assms(1) this _ assms(3)] assms(2) show ?thesis
    by (auto simp: dma_ok_def dma_live_def)
qed

lemma ok_core: "dma_core d' = dma_core d \<Longrightarrow> dma_ok d' = dma_ok d"
  using core_idle [of d' d] core_serving [of d' d] core_drx [of d' d] by (simp add: dma_ok_def)

lemma register_cores:
  "dma_core (snd (dma_read_address c d)) = dma_core d"
  "dma_core (snd (dma_read_count c d)) = dma_core d"
  "dma_core (dma_write_address v c d) = dma_core d"
  "dma_core (dma_write_count v c d) = dma_core d"
  "dma_core (dma_write_request v d) = dma_core d"
  "dma_core (dma_write_mask v d) = dma_core d"
  by (simp_all add: dma_core_def dma_read_address_def dma_read_count_def dma_write_address_def
      dma_write_count_def dma_write_request_def dma_write_mask_def Let_def)

lemma dma_reset_ok: "dma_ok (x86_dma_reset d)"
  by (simp add: dma_ok_def dma_idle_def x86_dma_reset_def)

lemma read_register_ok: "dma_ok d \<Longrightarrow> dma_ok (snd (x86_dma_read_register k v d))"
  by (simp add: x86_dma_read_register_def ok_core [OF register_cores(1)]
      ok_core [OF register_cores(2)] ok_core [OF core_steps(4)])

lemma dma_write_register_ok: "dma_ok d \<Longrightarrow> dma_ok (x86_dma_write_register k v d)"
proof -
  have "dma_core (d\<lparr>da_command := v\<rparr>) = dma_core d" "dma_core (d\<lparr>da_mode := f\<rparr>) = dma_core d"
    "dma_core (d\<lparr>da_flagMSB := b\<rparr>) = dma_core d" "dma_core (d\<lparr>da_mask := v\<rparr>) = dma_core d"
    for v f b by (simp_all add: dma_core_def)
  note cores = this register_cores
  assume "dma_ok d"
  then show ?thesis
    by (simp add: x86_dma_write_register_def dma_reset_ok ok_core [OF cores(1)] ok_core [OF cores(2)]
        ok_core [OF cores(3)] ok_core [OF cores(4)] ok_core [OF cores(7)] ok_core [OF cores(8)]
        ok_core [OF cores(9)] ok_core [OF cores(10)])
qed

section \<open>Block transfers\<close>

text \<open>
  A bus whose cycles succeed and leave the controller's inputs alone: a cycle acts on the world
  by \<open>act\<close>, the terminal-count callback by \<open>fin\<close>.
\<close>

definition quiet_bus ::
  "'w x86_dma_bus \<Rightarrow> (x86_dma_cycle \<Rightarrow> nat \<Rightarrow> lib_u16 \<Rightarrow> 'w \<Rightarrow> 'w) \<Rightarrow> (nat \<Rightarrow> 'w \<Rightarrow> 'w) \<Rightarrow> bool" where
  "quiet_bus bus act fin \<longleftrightarrow>
     (\<forall>kind c a b d w. \<exists>b'. bus_cycle bus kind c a b (d, w) = (LIB_STATUS_OK, b', d, act kind c a w)) \<and>
     (\<exists>f. bus_terminal bus = Some f \<and> (\<forall>c d w. f c (d, w) = (d, fin c w)))"

definition block_service :: "nat \<Rightarrow> x86_dma \<Rightarrow> bool" where
  "block_service c d \<longleftrightarrow> c < 4 \<and> da_isr d = VDMA_SetISR c \<and> da_phase d \<in> {1, 2, 3, 4} \<and>
     VDMA_GetMODE_M (da_mode d c) = 2 \<and> VDMA_GetMODE_TT (da_mode d c) \<noteq> 3 \<and>
     \<not> da_flagEOP d \<and> \<not> (c = 0 \<and> bit (da_request d) 0 \<and> bit (da_command d) 0)"

definition dma_rotate :: "nat \<Rightarrow> x86_dma \<Rightarrow> x86_dma" where
  "dma_rotate c d = (if bit (da_command d) 4 then d\<lparr>da_drx := (c + 1) mod 4\<rparr> else d)"

definition dma_next_address :: "x86_dma \<Rightarrow> nat \<Rightarrow> lib_u16" where
  "dma_next_address d c =
     (if bit (da_mode d c) 5 then da_currAddr d c - 1 else da_currAddr d c + 1)"

text \<open>The registers after one unit of the transfer.\<close>

definition dma_unit :: "nat \<Rightarrow> x86_dma \<Rightarrow> x86_dma" where
  "dma_unit c d = (dma_rotate c d)\<lparr>
     da_currCount := (da_currCount d)(c := da_currCount d c - 1),
     da_currAddr := (da_currAddr d)(c := dma_next_address d c)\<rparr>"

lemma rotate_fields [simp]:
  "da_currCount (dma_rotate c d) = da_currCount d" "da_currAddr (dma_rotate c d) = da_currAddr d"
  "da_mode (dma_rotate c d) = da_mode d" "da_flagEOP (dma_rotate c d) = da_flagEOP d"
  "da_baseAddr (dma_rotate c d) = da_baseAddr d" "da_baseCount (dma_rotate c d) = da_baseCount d"
  "da_mask (dma_rotate c d) = da_mask d" "da_status (dma_rotate c d) = da_status d"
  "da_request (dma_rotate c d) = da_request d" "da_command (dma_rotate c d) = da_command d"
  "da_isr (dma_rotate c d) = da_isr d" "da_phase (dma_rotate c d) = da_phase d"
  "da_acknowledged (dma_rotate c d) = da_acknowledged d"
  by (simp_all add: dma_rotate_def)

lemma underflow_16: "(x :: lib_u16) - 1 = 0xffff \<longleftrightarrow> x = 0"
proof
  assume "x - 1 = 0xffff"
  then have "x - 1 + 1 = 0xffff + 1" by (rule arg_cong)
  then show "x = 0" by simp
qed simp

lemma block_unit:
  assumes "block_service c d"
  shows "dma_step_address c (dma_count_down c (dma_rotate c d)) =
    (if da_currCount d c = 0 then (dma_unit c d)\<lparr>da_flagEOP := True\<rparr> else dma_unit c d)"
proof -
  note underflow_16 [of "da_currCount d c"]
  then show ?thesis
    by (simp add: dma_step_address_def dma_count_down_def Let_def IncreaseCurrAddr_def
        DecreaseCurrAddr_def dma_unit_def dma_next_address_def)
qed

lemma execute_block:
  fixes w :: 'w
  assumes "block_service c d" and q: "quiet_bus bus act fin"
  defines "w' \<equiv> act (dma_cycle_kind (VDMA_GetMODE_TT (da_mode d c))) c (da_currAddr d c) w"
  shows "Execute bus c (d, w) =
    (if da_currCount d c = 0
     then (let (e, v) = dma_complete_transfer bus c False ((dma_unit c d)\<lparr>da_flagEOP := True\<rparr>, w')
           in (e\<lparr>da_flagEOP := False\<rparr>, v))
     else (dma_unit c d, w'))"
proof -
  have blk: "VDMA_GetMODE_M (da_mode d c) = 2" "VDMA_GetMODE_TT (da_mode d c) \<noteq> 3" "\<not> da_flagEOP d"
    and m: "\<not> (c = 0 \<and> bit (da_request d) 0 \<and> bit (da_command d) 0)"
    using assms(1) by (simp_all add: block_service_def)
  obtain b' where cyc: "bus_cycle bus (dma_cycle_kind (VDMA_GetMODE_TT (da_mode d c))) c
      (da_currAddr d c) 0 (dma_rotate c d, w) = (LIB_STATUS_OK, b', dma_rotate c d, w')"
    using q unfolding quiet_bus_def w'_def by blast
  have tr: "Transmission bus c (dma_rotate c d, w) =
      (True, dma_step_address c (dma_count_down c (dma_rotate c d)), w')"
    using blk(2) cyc by (simp add: Transmission_def Let_def)
  have ch: "dma_execute_channel bus c r (dma_rotate c d, w) =
      (False, dma_step_address c (dma_count_down c (dma_rotate c d)), w')" for r
    using blk(1,3) tr by (simp add: dma_execute_channel_def Let_def)
  have eop: "\<not> da_flagEOP (dma_unit c d)" using blk(3) by (simp add: dma_unit_def)
  have same: "(dma_unit c d)\<lparr>da_flagEOP := False\<rparr> = dma_unit c d"
    using eop by (cases "dma_unit c d") simp
  have "Execute bus c (d, w) =
      (let (early, rdma, w) = dma_execute_channel bus c (bit (da_status d) (c + 4)) (dma_rotate c d, w)
       in if early then (rdma, w)
          else let (rdma, w) = (if da_flagEOP rdma then dma_complete_transfer bus c False (rdma, w)
                 else (rdma, w))
               in (rdma\<lparr>da_flagEOP := False\<rparr>, w))"
  proof -
    have f: "(c = 0 \<and> bit (da_request d) 0 \<and> bit (da_command d) 0) = False" using m by auto
    have r: "(if bit (da_command d) 4
        then d\<lparr>da_drx := (c + 1) mod VDMA_CHANNEL_COUNT\<rparr> else d) = dma_rotate c d"
      by (simp add: dma_rotate_def)
    show ?thesis by (simp only: Execute_def Let_def prod.case f if_False r BIT_IS_SET_mask
          BIT_IS_SET_flags)
  qed
  then show ?thesis
    unfolding ch block_unit [OF assms(1)] Let_def prod.case using eop same by simp
qed

text \<open>The phases up to S4 take at most three clocks and change nothing else.\<close>

lemma reach_S4:
  assumes "block_service c d"
  obtains t where "(x86_dma_advance bus ^^ t) (d, w) = (d\<lparr>da_phase := 4\<rparr>, w)" "t \<le> 3"
proof -
  have isr: "bit (da_isr d) 0" using assms by (simp add: block_service_def)
  have s3: "x86_dma_advance bus (d\<lparr>da_phase := 3\<rparr>, w) = (d\<lparr>da_phase := 4\<rparr>, w)"
    using isr by (simp add: x86_dma_advance_def Let_def)
  have s2: "x86_dma_advance bus (d\<lparr>da_phase := 2\<rparr>, w) =
      (d\<lparr>da_phase := (if bit (da_command d) 3 then 4 else 3)\<rparr>, w)"
    using isr by (simp add: x86_dma_advance_def Let_def)
  have s1: "x86_dma_advance bus (d\<lparr>da_phase := 1\<rparr>, w) = (d\<lparr>da_phase := 2\<rparr>, w)"
    using isr by (simp add: x86_dma_advance_def Let_def)
  have t2: "\<exists>t\<le>2. (x86_dma_advance bus ^^ t) (d\<lparr>da_phase := 2\<rparr>, w) = (d\<lparr>da_phase := 4\<rparr>, w)"
  proof (cases "bit (da_command d) 3")
    case True
    then have "(x86_dma_advance bus ^^ 1) (d\<lparr>da_phase := 2\<rparr>, w) = (d\<lparr>da_phase := 4\<rparr>, w)"
      using s2 by simp
    then show ?thesis by (intro exI [of _ 1]) simp
  next
    case False
    then have "(x86_dma_advance bus ^^ 2) (d\<lparr>da_phase := 2\<rparr>, w) = (d\<lparr>da_phase := 4\<rparr>, w)"
      using s2 s3 by (simp add: numeral_2_eq_2)
    then show ?thesis by blast
  qed
  then obtain t where t: "t \<le> 2"
    "(x86_dma_advance bus ^^ t) (d\<lparr>da_phase := 2\<rparr>, w) = (d\<lparr>da_phase := 4\<rparr>, w)" by blast
  consider "d\<lparr>da_phase := 1\<rparr> = d" | "d\<lparr>da_phase := 2\<rparr> = d" | "d\<lparr>da_phase := 3\<rparr> = d"
    | "d\<lparr>da_phase := 4\<rparr> = d"
    using assms by (cases d) (auto simp: block_service_def)
  then show thesis
  proof cases
    case 1
    then have "(x86_dma_advance bus ^^ Suc t) (d, w) = (d\<lparr>da_phase := 4\<rparr>, w)"
      using s1 t(2) by (simp only: funpow_Suc_right comp_apply)
    then show thesis by (rule that) (use t(1) in simp)
  next
    case 2
    then have "(x86_dma_advance bus ^^ t) (d, w) = (d\<lparr>da_phase := 4\<rparr>, w)" using t(2) by simp
    then show thesis by (rule that) (use t(1) in simp)
  next
    case 3
    then have "(x86_dma_advance bus ^^ 1) (d, w) = (d\<lparr>da_phase := 4\<rparr>, w)" using s3 by simp
    then show thesis by (rule that) simp
  next
    case 4
    then have "(x86_dma_advance bus ^^ 0) (d, w) = (d\<lparr>da_phase := 4\<rparr>, w)" by simp
    then show thesis by (rule that) simp
  qed
qed

lemma advance_S4:
  assumes "block_service c d"
  shows "x86_dma_advance bus (d\<lparr>da_phase := 4\<rparr>, w) =
    (let (e, v) = Execute bus c (d\<lparr>da_phase := 4\<rparr>, w)
     in if bit (da_isr e) 0
        then (e\<lparr>da_phase := (if dma_address_high_changed (da_currAddr d c) (da_currAddr e c)
                then 1 else 2)\<rparr>, v)
        else (e, v))"
  using assms by (simp add: x86_dma_advance_def block_service_def Let_def split: prod.split)

lemma unit_fields [simp]:
  "da_isr (dma_unit c d) = da_isr d" "da_mode (dma_unit c d) = da_mode d"
  "da_flagEOP (dma_unit c d) = da_flagEOP d" "da_request (dma_unit c d) = da_request d"
  "da_command (dma_unit c d) = da_command d" "da_mask (dma_unit c d) = da_mask d"
  "da_baseAddr (dma_unit c d) = da_baseAddr d" "da_baseCount (dma_unit c d) = da_baseCount d"
  "da_status (dma_unit c d) = da_status d"
  "da_currCount (dma_unit c d) = (da_currCount d)(c := da_currCount d c - 1)"
  "da_currAddr (dma_unit c d) = (da_currAddr d)(c := dma_next_address d c)"
  by (simp_all add: dma_unit_def)

lemma block_step:
  assumes "block_service c d" and q: "quiet_bus bus act fin" and "da_currCount d c \<noteq> 0"
  shows "\<exists>ph \<in> {1, 2}. x86_dma_advance bus (d\<lparr>da_phase := 4\<rparr>, w) =
    ((dma_unit c d)\<lparr>da_phase := ph\<rparr>,
     act (dma_cycle_kind (VDMA_GetMODE_TT (da_mode d c))) c (da_currAddr d c) w)"
proof -
  let ?d = "d\<lparr>da_phase := 4\<rparr>"
  have b: "block_service c ?d" using assms(1) by (simp add: block_service_def)
  have u: "(dma_unit c ?d)\<lparr>da_phase := ph\<rparr> = (dma_unit c d)\<lparr>da_phase := ph\<rparr>" for ph
    by (simp add: dma_unit_def dma_rotate_def dma_next_address_def)
  have isr: "bit (da_isr d) 0" using assms(1) by (simp add: block_service_def)
  show ?thesis
    using assms(3) isr
    by (simp add: advance_S4 [OF assms(1)] execute_block [OF b q] u)
qed

text \<open>The addresses of a transfer of \<open>n\<close> units, and the address behind it.\<close>

definition dma_offset :: "lib_u8 \<Rightarrow> lib_u16 \<Rightarrow> nat \<Rightarrow> lib_u16" where
  "dma_offset mode a i = (if bit mode 5 then a - of_nat i else a + of_nat i)"

definition dma_addresses :: "lib_u8 \<Rightarrow> lib_u16 \<Rightarrow> nat \<Rightarrow> lib_u16 list" where
  "dma_addresses mode a n = map (dma_offset mode a) [0..<n]"

lemma dma_offset_Suc: "dma_offset mode a (Suc i) = dma_offset mode (dma_offset mode a 1) i"
  by (simp add: dma_offset_def)

lemma dma_addresses_Suc:
  "dma_addresses mode a (Suc n) = a # dma_addresses mode (dma_offset mode a 1) n"
proof -
  have "[0..<Suc n] = 0 # map Suc [0..<n]"
    by (metis map_Suc_upt upt_conv_Cons zero_less_Suc)
  then have "dma_addresses mode a (Suc n) =
      dma_offset mode a 0 # map (\<lambda>i. dma_offset mode a (Suc i)) [0..<n]"
    by (simp add: dma_addresses_def comp_def)
  then show ?thesis
    by (cases "bit mode 5") (simp_all add: dma_addresses_def dma_offset_def algebra_simps)
qed

text \<open>The controller after the last unit: released, terminal count reached.\<close>

definition block_done :: "nat \<Rightarrow> x86_dma \<Rightarrow> nat \<Rightarrow> x86_dma \<Rightarrow> bool" where
  "block_done c d n d' \<longleftrightarrow>
     da_isr d' = 0 \<and> da_phase d' = VDMA_PHASE_IDLE \<and> \<not> da_flagEOP d' \<and>
     da_status d' = BIT_SET (da_status d) (VDMA_STATUS_TC c) \<and>
     da_request d' = BIT_CLEAR (da_request d) (VDMA_REQUEST_DRQ c) \<and>
     (if bit (da_mode d c) 4
      then da_currAddr d' c = da_baseAddr d c \<and> da_currCount d' c = da_baseCount d c \<and>
        da_mask d' = da_mask d
      else da_currAddr d' c = dma_offset (da_mode d c) (da_currAddr d c) n \<and>
        da_currCount d' c = 0xffff \<and> da_mask d' = BIT_SET (da_mask d) (VDMA_MASK_DRQ c))"

lemma release_fields [simp]:
  "da_isr (x86_dma_release d) = 0" "da_phase (x86_dma_release d) = 0"
  "da_status (x86_dma_release d) = da_status d" "da_request (x86_dma_release d) = da_request d"
  "da_mode (x86_dma_release d) = da_mode d" "da_mask (x86_dma_release d) = da_mask d"
  "da_baseAddr (x86_dma_release d) = da_baseAddr d" "da_currAddr (x86_dma_release d) = da_currAddr d"
  "da_baseCount (x86_dma_release d) = da_baseCount d"
  "da_currCount (x86_dma_release d) = da_currCount d"
  "da_flagEOP (x86_dma_release d) = da_flagEOP d"
  by (simp_all add: x86_dma_release_def Let_def)

lemma block_final:
  assumes b: "block_service c d" and q: "quiet_bus bus act fin" and z: "da_currCount d c = 0"
  shows "\<exists>d'. x86_dma_advance bus (d\<lparr>da_phase := 4\<rparr>, w) =
    (d', fin c (act (dma_cycle_kind (VDMA_GetMODE_TT (da_mode d c))) c (da_currAddr d c) w)) \<and>
    block_done c d 1 d'"
proof -
  let ?d = "d\<lparr>da_phase := 4\<rparr>"
  let ?w = "act (dma_cycle_kind (VDMA_GetMODE_TT (da_mode d c))) c (da_currAddr d c) w"
  have b': "block_service c ?d" using b by (simp add: block_service_def)
  obtain f where f: "bus_terminal bus = Some f" "\<And>c d w. f c (d, w) = (d, fin c w)"
    using q unfolding quiet_bus_def by blast
  obtain e where e: "dma_complete_transfer bus c False ((dma_unit c ?d)\<lparr>da_flagEOP := True\<rparr>, ?w) =
      (e, fin c ?w)" and fin1: "block_done c d 1 (e\<lparr>da_flagEOP := False\<rparr>)"
    using z f
    by (cases "bit (da_mode d c) 4") (simp_all add: dma_complete_transfer_def
        dma_complete_channel_def Let_def block_done_def dma_offset_def dma_next_address_def)
  have ex: "Execute bus c (?d, w) = (e\<lparr>da_flagEOP := False\<rparr>, fin c ?w)"
    using z e by (simp add: execute_block [OF b' q])
  have "\<not> bit (da_isr e) 0" using fin1 by (simp add: block_done_def)
  then show ?thesis unfolding advance_S4 [OF b] ex using fin1 by simp
qed

lemma block_run:
  assumes "quiet_bus bus act fin" and "block_service c d" and "unat (da_currCount d c) = n"
  shows "\<exists>t d'. t \<le> 4 * Suc n \<and> (x86_dma_advance bus ^^ t) (d, w) =
    (d', fin c (fold (act (dma_cycle_kind (VDMA_GetMODE_TT (da_mode d c))) c)
      (dma_addresses (da_mode d c) (da_currAddr d c) (Suc n)) w)) \<and>
    block_done c d (Suc n) d'"
  using assms(2,3)
proof (induction n arbitrary: d w)
  case 0
  obtain t where t: "(x86_dma_advance bus ^^ t) (d, w) = (d\<lparr>da_phase := 4\<rparr>, w)" "t \<le> 3"
    by (rule reach_S4 [OF 0(1)])
  obtain d' where d': "x86_dma_advance bus (d\<lparr>da_phase := 4\<rparr>, w) =
    (d', fin c (act (dma_cycle_kind (VDMA_GetMODE_TT (da_mode d c))) c (da_currAddr d c) w))"
    "block_done c d 1 d'"
    using block_final [OF 0(1) assms(1)] 0(2) unsigned_word_eqI [of "da_currCount d c" 0, where 'a = nat]
    by auto
  have "(x86_dma_advance bus ^^ Suc t) (d, w) =
    (d', fin c (act (dma_cycle_kind (VDMA_GetMODE_TT (da_mode d c))) c (da_currAddr d c) w))"
    using t(1) d'(1) by simp
  then show ?case using d'(2) t(2)
    by (intro exI [of _ "Suc t"] exI [of _ d']) (simp add: dma_addresses_def dma_offset_def)
next
  case (Suc n)
  let ?k = "dma_cycle_kind (VDMA_GetMODE_TT (da_mode d c))"
  let ?w = "act ?k c (da_currAddr d c) w"
  obtain t where t: "(x86_dma_advance bus ^^ t) (d, w) = (d\<lparr>da_phase := 4\<rparr>, w)" "t \<le> 3"
    by (rule reach_S4 [OF Suc.prems(1)])
  have nz: "da_currCount d c \<noteq> 0" using Suc.prems(2) by auto
  obtain ph where ph: "ph \<in> {1, 2}" "x86_dma_advance bus (d\<lparr>da_phase := 4\<rparr>, w) =
      ((dma_unit c d)\<lparr>da_phase := ph\<rparr>, ?w)"
    using block_step [OF Suc.prems(1) assms(1) nz] by blast
  let ?e = "(dma_unit c d)\<lparr>da_phase := ph\<rparr>"
  have e: "block_service c ?e" using Suc.prems(1) ph(1) by (auto simp: block_service_def)
  have cnt: "unat (da_currCount ?e c) = n"
    using Suc.prems(2) nz by (simp add: unat_minus_one)
  have next_a: "dma_next_address d c = dma_offset (da_mode d c) (da_currAddr d c) 1"
    by (simp add: dma_next_address_def dma_offset_def)
  obtain t2 d' where d': "t2 \<le> 4 * Suc n" "(x86_dma_advance bus ^^ t2) (?e, ?w) =
      (d', fin c (fold (act ?k c) (dma_addresses (da_mode d c) (dma_next_address d c) (Suc n)) ?w))"
    "block_done c ?e (Suc n) d'"
    using Suc.IH [OF e cnt, of ?w] by auto
  have "(x86_dma_advance bus ^^ (t2 + Suc t)) (d, w) = (x86_dma_advance bus ^^ t2) (?e, ?w)"
    by (simp only: funpow_add comp_apply funpow.simps(2) t(1) ph(2))
  moreover have "block_done c d (Suc (Suc n)) d'"
    using d'(3) by (simp add: block_done_def next_a dma_offset_Suc [of _ _ "Suc n"] split: if_splits)
  ultimately show ?case using d'(1,2) t(2)
    by (intro exI [of _ "t2 + Suc t"] exI [of _ d'])
      (simp add: dma_addresses_Suc [of _ _ "Suc n"] next_a)
qed

lemma grant_block_service:
  assumes "c < 4" and "VDMA_GetMODE_M (da_mode d c) = 2" and "VDMA_GetMODE_TT (da_mode d c) \<noteq> 3"
    and "\<not> da_flagEOP d" and "\<not> (c = 0 \<and> bit (da_command d) 0)"
  shows "block_service c (x86_dma_grant c cascade d)"
  using assms by (auto simp: block_service_def x86_dma_grant_def Let_def)

lemma grant_fields [simp]:
  "da_status (x86_dma_grant c x d) = da_status d" "da_request (x86_dma_grant c x d) = da_request d"
  "da_mode (x86_dma_grant c x d) = da_mode d" "da_mask (x86_dma_grant c x d) = da_mask d"
  "da_baseAddr (x86_dma_grant c x d) = da_baseAddr d"
  "da_baseCount (x86_dma_grant c x d) = da_baseCount d"
  "da_currAddr (x86_dma_grant c x d) = da_currAddr d"
  "da_currCount (x86_dma_grant c x d) = da_currCount d"
  by (simp_all add: x86_dma_grant_def Let_def)

lemma block_done_grant: "block_done c (x86_dma_grant c x d) n d' = block_done c d n d'"
  by (cases "bit (da_mode d c) 4") (simp_all add: block_done_def)

text \<open>
  C25: A granted block transfer runs to its end. On a bus whose cycles succeed, a channel granted in
  block mode performs exactly count + 1 cycles, at the programmed address and the ones after it (or
  before it, when the address decrements), in order and modulo 64 KiB, then signals terminal count
  once and releases the bus, within four clocks per cycle. The terminal-count status bit is set,
  the software request is cleared, and the channel is masked, or reloaded from its base registers
  when it auto-initialises.
\<close>

theorem dma_block_transfer:
  fixes w :: 'w
  assumes "quiet_bus bus act fin" and "c < 4" and "VDMA_GetMODE_M (da_mode d c) = 2"
    and "VDMA_GetMODE_TT (da_mode d c) \<noteq> 3" and "\<not> da_flagEOP d"
    and "\<not> (c = 0 \<and> BIT_IS_SET (da_command d) VDMA_COMMAND_M2M)"
  defines "n \<equiv> unat (da_currCount d c) + 1"
  shows "\<exists>t d'. t \<le> 4 * n \<and> (x86_dma_advance bus ^^ t) (x86_dma_grant c cascade d, w) =
    (d', fin c (fold (act (dma_cycle_kind (VDMA_GetMODE_TT (da_mode d c))) c)
      (dma_addresses (da_mode d c) (da_currAddr d c) n) w)) \<and> block_done c d n d'"
proof -
  have "block_service c (x86_dma_grant c cascade d)"
    by (rule grant_block_service) (use assms in auto)
  from block_run [OF assms(1) this refl, of w] show ?thesis
    by (simp add: n_def block_done_grant)
qed

text \<open>A bus that records its cycles.\<close>

definition recording_bus :: "(x86_dma_cycle \<times> nat \<times> lib_u16) list x86_dma_bus" where
  "recording_bus = \<lparr>bus_cycle = (\<lambda>kind c a b s. (LIB_STATUS_OK, b, fst s, snd s @ [(kind, c, a)])),
     bus_terminal = Some (\<lambda>c s. s)\<rparr>"

definition sample_dma :: x86_dma where
  "sample_dma = (x86_dma_reset zero_dma)\<lparr>da_mode := (\<lambda>_. 0)(2 := 0x86),
     da_currAddr := (\<lambda>_. 0)(2 := 0xffff), da_currCount := (\<lambda>_. 0)(2 := 1)\<rparr>"

theorem dma_block_transfer_witness:
  "\<exists>t d'. t \<le> 8 \<and> (x86_dma_advance recording_bus ^^ t) (x86_dma_grant 2 False sample_dma, []) =
     (d', [(X86_DMA_DEVICE_TO_MEMORY, 2, 0xffff), (X86_DMA_DEVICE_TO_MEMORY, 2, 0)]) \<and>
     block_done 2 sample_dma 2 d'"
proof -
  have q: "quiet_bus recording_bus (\<lambda>kind c a w. w @ [(kind, c, a)]) (\<lambda>c w. w)"
    by (simp add: quiet_bus_def recording_bus_def)
  have mode: "da_mode sample_dma 2 = 0x86" by (simp add: sample_dma_def)
  have "VDMA_GetMODE_M 0x86 = 2" "VDMA_GetMODE_TT 0x86 = 1"
    by (simp_all add: VDMA_GetMODE_M_def VDMA_GetMODE_TT_def)
  moreover have "dma_addresses 0x86 0xffff 2 = [0xffff, 0]"
    by (simp add: dma_addresses_def dma_offset_def upt_rec)
  moreover have "\<not> da_flagEOP sample_dma" "da_currAddr sample_dma 2 = 0xffff"
    "da_currCount sample_dma 2 = 1"
    by (simp_all add: sample_dma_def x86_dma_reset_def)
  ultimately show ?thesis
    using dma_block_transfer [OF q, of 2 sample_dma False "[]"]
    by (simp add: mode dma_cycle_kind_def flip: numeral_2_eq_2)
qed

text \<open>
  A cycle the bus refuses commits nothing. When the bus answers a transfer cycle of the
  channel in service with an error (leaving the controller alone), the controller releases the
  channel, keeps its address and count, and raises no terminal count, in every transfer mode.
\<close>

theorem dma_failed_cycle:
  assumes "dma_serving c d" and "da_phase d = VDMA_PHASE_S4" and "\<not> da_flagEOP d"
    and "\<not> (c = 0 \<and> BIT_IS_SET (da_request d) (VDMA_REQUEST_DRQ 0) \<and>
      BIT_IS_SET (da_command d) VDMA_COMMAND_M2M)"
    and "VDMA_GetMODE_M (da_mode d c) \<noteq> 0 \<or> BIT_IS_SET (da_status d) (VDMA_STATUS_DRQ c)"
    and "\<And>kind a b e. \<exists>byte. bus_cycle bus kind c a b (e, w) = (status, byte, e, w')"
    and "status \<noteq> LIB_STATUS_OK"
  shows "\<exists>d' w''. x86_dma_advance bus (d, w) = (d', w'') \<and> dma_idle d' \<and>
    da_currAddr d' = da_currAddr d \<and> da_currCount d' = da_currCount d \<and>
    da_status d' = da_status d \<and> da_mask d' = da_mask d"
proof -
  have c: "c < 4" "da_isr d = VDMA_SetISR c" using assms(1) by (simp_all add: dma_serving_def)
  have tr: "\<exists>v. Transmission bus c (dma_rotate c d, w) = (False, dma_rotate c d, v)"
    using assms(7) assms(6) [of "dma_cycle_kind (VDMA_GetMODE_TT (da_mode d c))" "da_currAddr d c" 0
        "dma_rotate c d"]
    by (auto simp: Transmission_def Let_def)
  have sr: "dma_serving c (dma_rotate c d)" using assms(1) by (simp add: dma_serving_def)
  have "\<exists>v. dma_execute_channel bus c (bit (da_status d) (c + 4)) (dma_rotate c d, w) =
      (True, x86_dma_release (dma_rotate c d), v)"
    using tr assms(3,5) by (auto simp: dma_execute_channel_def Let_def)
  then obtain v where ch: "dma_execute_channel bus c (bit (da_status d) (c + 4)) (dma_rotate c d, w) =
      (True, x86_dma_release (dma_rotate c d), v)" by blast
  have f: "(c = 0 \<and> bit (da_request d) 0 \<and> bit (da_command d) 0) = False" using assms(4) by auto
  have r: "(if bit (da_command d) 4 then d\<lparr>da_drx := (c + 1) mod VDMA_CHANNEL_COUNT\<rparr> else d) =
      dma_rotate c d" by (simp add: dma_rotate_def)
  have "Execute bus c (d, w) = (x86_dma_release (dma_rotate c d), v)"
    by (simp only: Execute_def Let_def prod.case f if_False if_True r BIT_IS_SET_mask
        BIT_IS_SET_flags ch)
  then have "x86_dma_advance bus (d, w) = (x86_dma_release (dma_rotate c d), v)"
    using c assms(2) by (simp add: x86_dma_advance_def Let_def)
  moreover have "dma_idle (x86_dma_release (dma_rotate c d))" using sr release_idle by blast
  ultimately show ?thesis by simp
qed

definition refusing_bus :: "unit x86_dma_bus" where
  "refusing_bus = \<lparr>bus_cycle = (\<lambda>kind c a b s. (LIB_STATUS_IO_ERROR, b, s)), bus_terminal = None\<rparr>"

definition sample_serving :: x86_dma where
  "sample_serving = (x86_dma_grant 2 False sample_dma)\<lparr>da_phase := VDMA_PHASE_S4\<rparr>"

theorem dma_failed_cycle_witness:
  "\<exists>d' w. x86_dma_advance refusing_bus (sample_serving, ()) = (d', w) \<and> dma_idle d' \<and>
     da_currAddr d' 2 = 0xffff \<and> da_currCount d' 2 = 1"
proof -
  have m: "VDMA_GetMODE_M (da_mode sample_serving 2) = 2"
    by (simp add: sample_serving_def sample_dma_def VDMA_GetMODE_M_def)
  have "dma_idle sample_dma" by (simp add: sample_dma_def dma_idle_def x86_dma_reset_def)
  then have s: "dma_serving 2 sample_serving"
    using grant_serving [of sample_dma 2 False] by (simp add: sample_serving_def dma_serving_def)
  have "\<not> da_flagEOP sample_serving" "da_phase sample_serving = VDMA_PHASE_S4"
    "da_currAddr sample_serving 2 = 0xffff" "da_currCount sample_serving 2 = 1"
    by (simp_all add: sample_serving_def sample_dma_def x86_dma_reset_def x86_dma_grant_def)
  then show ?thesis
    using dma_failed_cycle [OF s, of refusing_bus "()" LIB_STATUS_IO_ERROR "()"] m
    by (auto simp: refusing_bus_def)
qed

section \<open>Every reachable controller\<close>

inductive dma_reachable :: "'w x86_dma_bus \<Rightarrow> x86_dma \<Rightarrow> bool" for bus where
  dma_created: "x86_dma_create True (Some cell) = (LIB_STATUS_OK, Some (Some d)) \<Longrightarrow>
    dma_reachable bus d"
| dma_was_reset: "dma_reachable bus d \<Longrightarrow> dma_reachable bus (x86_dma_reset d)"
| dma_register_read: "dma_reachable bus d \<Longrightarrow>
    dma_reachable bus (snd (x86_dma_read_register k v d))"
| dma_register_written: "dma_reachable bus d \<Longrightarrow> dma_reachable bus (x86_dma_write_register k v d)"
| dma_requested: "dma_reachable bus d \<Longrightarrow> dma_reachable bus (x86_dma_set_request k a d)"
| dma_terminated: "dma_reachable bus d \<Longrightarrow> dma_reachable bus (x86_dma_terminate d)"
| dma_granted: "dma_reachable bus d \<Longrightarrow> sg_active_channel (x86_dma_get_signals d) = 4 \<Longrightarrow>
    c < 4 \<Longrightarrow> dma_reachable bus (x86_dma_grant c cascade d)"
| dma_released: "dma_reachable bus d \<Longrightarrow> dma_reachable bus (x86_dma_release d)"
| dma_advanced: "dma_reachable bus d \<Longrightarrow> x86_dma_advance bus (d, w) = (d', w') \<Longrightarrow>
    dma_reachable bus d'"

lemma active_channel:
  "dma_idle d \<Longrightarrow> sg_active_channel (x86_dma_get_signals d) = 4"
  "dma_serving c d \<Longrightarrow> sg_active_channel (x86_dma_get_signals d) = c"
  by (auto simp: x86_dma_get_signals_def dma_idle_def dma_serving_def)

lemma grant_drx: "da_drx d < 4 \<Longrightarrow> da_drx (x86_dma_grant c cascade d) < 4"
  by (simp add: x86_dma_grant_def Let_def)

lemma dma_reachable_ok: "dma_reachable bus d \<Longrightarrow> polite_bus bus \<Longrightarrow> dma_ok d"
proof (induction rule: dma_reachable.induct)
  case (dma_created cell d)
  then show ?case using dma_reset_ok by auto
next
  case (dma_was_reset d)
  then show ?case by (simp add: dma_reset_ok)
next
  case (dma_register_read d k v)
  then show ?case by (simp add: read_register_ok)
next
  case (dma_register_written d k v)
  then show ?case by (simp add: dma_write_register_ok)
next
  case (dma_requested d k a)
  then show ?case by (simp add: x86_dma_set_request_def ok_core [OF core_steps(4)])
next
  case (dma_terminated d)
  then show ?case by (simp add: x86_dma_terminate_def ok_core [OF core_steps(3)])
next
  case (dma_granted d c cascade)
  then have ok: "dma_ok d" by blast
  then have "dma_idle d" using dma_granted(2) active_channel(2) [of _ d]
    by (auto simp: dma_ok_def dma_serving_def)
  then show ?case using ok grant_serving [of d c cascade] grant_drx [of d c cascade] dma_granted(3)
    by (auto simp: dma_ok_def)
next
  case (dma_released d)
  then show ?case using release_idle by (auto simp: dma_ok_def)
next
  case (dma_advanced d w d' w')
  then show ?case using advance_ok [of bus d w d' w'] by simp
qed

text \<open>
  At most one channel is ever in service. In every reachable state of the controller, on a bus
  that changes nothing of it but its request and end-of-process inputs, the rotation base is a
  channel number; when the signals report an active channel, that channel's acknowledge is the
  only one asserted and its service is in one of the twelve phases; when they report none, no
  acknowledge is asserted and the phase is idle.
\<close>

theorem dma_single_service:
  assumes "dma_reachable bus d" and "polite_bus bus"
  shows "da_drx d < 4 \<and>
    (let c = sg_active_channel (x86_dma_get_signals d)
     in if c < 4 then da_acknowledged d = VDMA_REQUEST_DRQ c \<and> da_phase d \<noteq> VDMA_PHASE_IDLE \<and>
          da_phase d \<le> VDMA_PHASE_S24
        else da_acknowledged d = 0 \<and> da_phase d = VDMA_PHASE_IDLE)"
proof -
  have ok: "dma_ok d" by (rule dma_reachable_ok [OF assms])
  show ?thesis
  proof (cases "dma_idle d")
    case True
    then show ?thesis using ok active_channel(1) [OF True] by (simp add: dma_ok_def dma_idle_def)
  next
    case False
    then obtain c where c: "dma_serving c d" using ok by (auto simp: dma_ok_def)
    then show ?thesis using ok active_channel(2) [OF c] by (simp add: dma_ok_def dma_serving_def)
  qed
qed

lemma dma_inputs_refl: "dma_inputs_only d d"
  unfolding dma_inputs_only_def by (intro exI [of _ "da_status d"] exI [of _ "da_flagEOP d"]) simp

lemma sample_dma_reachable: "dma_reachable bus (x86_dma_grant 3 False (x86_dma_reset zero_dma))"
  by (rule dma_granted [OF dma_created [where cell = None]])
    (simp_all add: x86_dma_get_signals_def x86_dma_reset_def)

theorem dma_single_service_witness:
  "da_acknowledged (x86_dma_grant 3 False (x86_dma_reset zero_dma)) = 8"
proof -
  have "polite_bus recording_bus"
    by (simp add: polite_bus_def recording_bus_def dma_inputs_refl)
  then show ?thesis
    using dma_single_service [OF sample_dma_reachable, of recording_bus]
    by (simp add: x86_dma_get_signals_def x86_dma_grant_def Let_def BIT_MASK_def)
qed

text \<open>
  The controller grants by rotating priority. Selection among board-resolved requests returns
  4 exactly when no channel requests; otherwise it returns a requesting channel, and no requesting
  channel is closer to the rotation base. With rotating priority, executing a channel makes it the
  one of lowest priority.
\<close>

theorem dma_select_priority:
  assumes "dma_reachable bus d" and "polite_bus bus"
  shows "(if \<exists>c < 4. bit requests c
      then x86_dma_select d requests < 4 \<and> bit requests (x86_dma_select d requests) \<and>
        (\<forall>c < 4. bit requests c \<longrightarrow> dma_rank d (x86_dma_select d requests) \<le> dma_rank d c)
      else x86_dma_select d requests = 4) \<and>
    (\<forall>c < 4. BIT_IS_SET (da_command d) VDMA_COMMAND_R \<longrightarrow>
      dma_rank (x86_dma_grant c True d) c = 3)"
proof -
  have drx: "da_drx d < 4" using dma_reachable_ok [OF assms] by (simp add: dma_ok_def)
  have "dma_rank (x86_dma_grant c True d) c = 3" if "c < 4" "bit (da_command d) 4" for c
  proof -
    have "c = 0 \<or> c = 1 \<or> c = 2 \<or> c = 3" using that(1) by linarith
    then show ?thesis using that(2) by (auto simp: dma_rank_def x86_dma_grant_def Let_def)
  qed
  then show ?thesis using dma_select_cases [OF drx, of requests] by auto
qed

theorem dma_select_priority_witness:
  "x86_dma_select (x86_dma_reset zero_dma) 0x0c < 4 \<and>
   bit (0x0c :: lib_u8) (x86_dma_select (x86_dma_reset zero_dma) 0x0c)"
proof -
  have p: "polite_bus recording_bus"
    by (simp add: polite_bus_def recording_bus_def dma_inputs_refl)
  have r: "dma_reachable recording_bus (x86_dma_reset zero_dma)"
    by (rule dma_created [where cell = None]) simp
  have "bit (0x0c :: lib_u8) 2" by simp
  then have "\<exists>c < 4. bit (0x0c :: lib_u8) c" by (intro exI [of _ 2]) simp
  then show ?thesis using dma_select_priority [OF r p, of "0x0c"] by presburger
qed

section \<open>Address and count registers\<close>

lemma bytes_16: "ucast (ucast (lo :: lib_u8) OR push_bit 8 (ucast (hi :: lib_u8)) :: lib_u16) = lo"
  "ucast (drop_bit 8 (ucast (lo :: lib_u8)) OR drop_bit 8 (push_bit 8 (ucast (hi :: lib_u8)))
     :: lib_u16) = hi"
  by (rule bit_word_eqI, auto simp: bit_simps dest: bit_imp_le_length)+

text \<open>
  C26: Both bytes of an address or count register come back. After the byte pointer is cleared, two
  writes to one of the eight address and count registers followed by a clear and two reads return
  the two bytes, low byte first, from any state of the controller.
\<close>

theorem dma_register_roundtrip:
  assumes "k < 8"
  shows "let d1 = x86_dma_write_register 12 x d;
      d2 = x86_dma_write_register k hi (x86_dma_write_register k lo d1);
      (b1, d3) = x86_dma_read_register k y (x86_dma_write_register 12 z d2);
      (b2, d4) = x86_dma_read_register k y d3
    in b1 = lo \<and> b2 = hi \<and> \<not> da_flagMSB d4"
  using assms
  by (cases "even k") (simp_all add: x86_dma_write_register_def x86_dma_read_register_def
      dma_write_address_def dma_write_count_def dma_read_address_def dma_read_count_def Let_def bytes_16)

theorem dma_register_roundtrip_witness:
  "let d1 = x86_dma_write_register 12 0 zero_dma;
      d2 = x86_dma_write_register 5 0x12 (x86_dma_write_register 5 0x34 d1);
      (b1, d3) = x86_dma_read_register 5 0 (x86_dma_write_register 12 0 d2);
      (b2, d4) = x86_dma_read_register 5 0 d3
    in b1 = 0x34 \<and> b2 = 0x12 \<and> \<not> da_flagMSB d4"
  by (rule dma_register_roundtrip) simp

end
