(* ===== verification/Dma_Bus.thy ===== *)
theory Dma_Bus
  imports Scheduler_Run Dma
begin

unbundle bit_operations_syntax

text \<open>
  The board's DMA bus, \<^verbatim>\<open>src/src/x86-nxvm/board-base/dma_bus.c\<close>: one or two 8237A
  controllers, the page registers and the transfer latch, the port decoding, the providers of the
  devices on the channels, and the service that runs one controller tick at a time. The memory cycle
  of \<^verbatim>\<open>src/src/x86-core/machine/memory_interface.c\<close> that every transfer makes is here too.

  A state is the core machine, the bus and the rest of the world. Guest memory and the device
  providers are parameters; a provider may change the whole state. The controller being advanced is
  passed beside the state, as the chip's interface has it; the copy in the state is refreshed before
  a provider is called and read back after it.
\<close>

section \<open>State\<close>

record dma_data =
  dd_page :: "nat \<Rightarrow> lib_u8"
  dd_page_spare :: "nat \<Rightarrow> lib_u8"
  dd_page_scratch :: "nat \<Rightarrow> lib_u8"

text \<open>
  \<open>td_linked\<close> tells that the latch and peer pointers are set, which the initialisation does for
  both controllers at once; providers are names of type \<open>'p\<close>, owners opaque pointers.
\<close>

record 'p t_dma =
  td_device :: "x86_dma ptr"
  td_data :: dma_data
  td_linked :: bool
  td_read_provider :: "nat \<Rightarrow> 'p ptr"
  td_write_provider :: "nat \<Rightarrow> 'p ptr"
  td_close_provider :: "nat \<Rightarrow> 'p ptr"
  td_device_owner :: "nat \<Rightarrow> nat ptr"
  td_request_token :: lib_u64
  td_page_ports_plain_scratch :: bool

text \<open>The latch is the union of a word and its low byte.\<close>

type_synonym t_latch = lib_u16

record 'p x86_nxvm_board_dma_bus =
  db_latch :: t_latch
  db_primary :: "'p t_dma"
  db_secondary :: "'p t_dma"

type_synonym 'p dma_bus = "'p x86_nxvm_board_dma_bus"
type_synonym ('cb, 'p, 'x) dma_state = "('cb, 'p dma_bus \<times> 'x) core"

datatype dma_end = DMA_PRIMARY | DMA_SECONDARY

definition dma_at :: "dma_end \<Rightarrow> 'p dma_bus \<Rightarrow> 'p t_dma" where
  "dma_at e bus = (case e of DMA_PRIMARY \<Rightarrow> db_primary bus | DMA_SECONDARY \<Rightarrow> db_secondary bus)"

definition set_dma :: "dma_end \<Rightarrow> 'p t_dma \<Rightarrow> 'p dma_bus \<Rightarrow> 'p dma_bus" where
  "set_dma e dma bus = (case e of DMA_PRIMARY \<Rightarrow> bus\<lparr>db_primary := dma\<rparr>
     | DMA_SECONDARY \<Rightarrow> bus\<lparr>db_secondary := dma\<rparr>)"

definition set_device :: "dma_end \<Rightarrow> x86_dma ptr \<Rightarrow> 'p dma_bus \<Rightarrow> 'p dma_bus" where
  "set_device e device bus = set_dma e ((dma_at e bus)\<lparr>td_device := device\<rparr>) bus"

definition dma_signals :: "x86_dma ptr \<Rightarrow> x86_dma_signals" where
  "dma_signals device = x86_dma_get_signals (the device)"

section \<open>Request tokens\<close>

text \<open>The next token of the process-wide counter, and the counter after it; 0 when they run out.\<close>

definition x86_nxvm_board_dma_request_token_allocate :: "lib_u64 \<Rightarrow> lib_u64 \<times> lib_u64" where
  "x86_nxvm_board_dma_request_token_allocate expected =
     (if expected \<noteq> LIB_UINT64_MAX then (expected, expected + 1) else (0, expected))"

section \<open>Reset and the cascade line\<close>

definition zero_data :: dma_data where
  "zero_data = \<lparr>dd_page = (\<lambda>_. 0), dd_page_spare = (\<lambda>_. 0), dd_page_scratch = (\<lambda>_. 0)\<rparr>"

definition x86_nxvm_board_dma_controller_reset :: "'p t_dma \<Rightarrow> 'p t_dma" where
  "x86_nxvm_board_dma_controller_reset dma =
     dma\<lparr>td_data := zero_data, td_device := map_option x86_dma_reset (td_device dma)\<rparr>"

definition cascade_request :: "x86_dma_signals \<Rightarrow> bool" where
  "cascade_request signals \<longleftrightarrow>
     sg_enabled signals \<and> (sg_requests signals \<noteq> 0 \<or> sg_active_channel signals < 4)"

definition x86_nxvm_board_dma_update_cascade :: "'p dma_bus \<Rightarrow> 'p dma_bus" where
  "x86_nxvm_board_dma_update_cascade bus =
     (case td_device (db_secondary bus) of
        None \<Rightarrow> bus
      | Some device \<Rightarrow>
          set_device DMA_SECONDARY (Some (x86_dma_set_request 0
            (cascade_request (dma_signals (td_device (db_primary bus)))) device)) bus)"

definition x86_nxvm_board_dma_reset :: "'p dma_bus \<Rightarrow> 'p dma_bus" where
  "x86_nxvm_board_dma_reset bus =
     bus\<lparr>db_latch := 0, db_primary := x86_nxvm_board_dma_controller_reset (db_primary bus),
       db_secondary := x86_nxvm_board_dma_controller_reset (db_secondary bus)\<rparr>"

section \<open>Ports\<close>

definition dma_controller :: "lib_u16 \<Rightarrow> dma_end" where
  "dma_controller port_id =
     (if (port_id \<ge> 0x89 \<and> port_id \<le> 0x8f) \<or> port_id \<ge> 0xc0 then DMA_SECONDARY else DMA_PRIMARY)"

definition dma_page_channel :: "lib_u16 \<Rightarrow> nat" where
  "dma_page_channel port_id =
     (if port_id = 0x81 \<or> port_id = 0x89 then 2
      else if port_id = 0x82 \<or> port_id = 0x8a then 3
      else if port_id = 0x83 \<or> port_id = 0x8b then 1 else 0)"

definition dma_page_spare_index :: "lib_u16 \<Rightarrow> nat" where
  "dma_page_spare_index port_id =
     (if port_id = 0x84 then 0 else if port_id = 0x85 then 1 else if port_id = 0x86 then 2
      else if port_id = 0x88 then 3 else if port_id = 0x8c then 4 else if port_id = 0x8d then 5
      else if port_id = 0x8e then 6 else 7)"

definition dma_spare_port :: "lib_u16 \<Rightarrow> bool" where
  "dma_spare_port port_id \<longleftrightarrow> port_id = 0x80 \<or> port_id = 0x84 \<or> port_id = 0x85 \<or> port_id = 0x86 \<or>
     port_id = 0x88 \<or> (port_id \<ge> 0x8c \<and> port_id \<le> 0x8e)"

definition dma_scratch_port :: "'p dma_bus \<Rightarrow> lib_u16 \<Rightarrow> bool" where
  "dma_scratch_port bus port_id \<longleftrightarrow>
     td_page_ports_plain_scratch (db_primary bus) \<and> port_id \<ge> 0x80 \<and> port_id \<le> 0x8f"

text \<open>A register access of a controller; the routes exist only where the controller does.\<close>

definition dma_read_device :: "dma_end \<Rightarrow> nat \<Rightarrow> lib_u8 \<Rightarrow> 'p dma_bus \<Rightarrow> lib_u8 \<times> 'p dma_bus" where
  "dma_read_device e selector value bus =
     (case td_device (dma_at e bus) of
        None \<Rightarrow> (value, bus)
      | Some device \<Rightarrow>
          let (value, device) = x86_dma_read_register selector value device
          in (value, set_device e (Some device) bus))"

definition dma_port_read ::
  "lib_u16 \<Rightarrow> lib_u32 ptr \<Rightarrow> 'p dma_bus ptr \<Rightarrow> lib_status \<times> lib_u32 ptr \<times> 'p dma_bus ptr" where
  "dma_port_read port_id out owner =
     (case (owner, out) of
        (Some bus, Some out_value) \<Rightarrow>
          let value = (ucast out_value :: lib_u8);
              (value, bus) =
                (if dma_scratch_port bus port_id then
                   (dd_page_scratch (td_data (db_primary bus)) (unat (port_id AND 0x0f)), bus)
                 else if port_id < 0x10 then dma_read_device DMA_PRIMARY (unat port_id) value bus
                 else if port_id \<ge> 0xc0 \<and> port_id \<le> 0xde \<and> port_id AND 1 = 0 then
                   dma_read_device DMA_SECONDARY (unat (drop_bit 1 (port_id - 0xc0))) value bus
                 else if dma_spare_port port_id then
                   (dd_page_spare (td_data (db_primary bus)) (dma_page_spare_index port_id), bus)
                 else if port_id \<ge> 0x81 \<and> port_id \<le> 0x8f then
                   (dd_page (td_data (dma_at (dma_controller port_id) bus)) (dma_page_channel port_id), bus)
                 else (value, bus))
          in (LIB_STATUS_OK, Some (out_value AND NOT 0xff OR ucast value), Some bus)
      | _ \<Rightarrow> (LIB_STATUS_INVALID_ARGUMENT, out, owner))"

definition set_data :: "dma_end \<Rightarrow> (dma_data \<Rightarrow> dma_data) \<Rightarrow> 'p dma_bus \<Rightarrow> 'p dma_bus" where
  "set_data e f bus = set_dma e ((dma_at e bus)\<lparr>td_data := f (td_data (dma_at e bus))\<rparr>) bus"

definition dma_port_write :: "lib_u16 \<Rightarrow> lib_u32 \<Rightarrow> 'p dma_bus \<Rightarrow> lib_status \<times> 'p dma_bus" where
  "dma_port_write port_id value bus =
     (let byte = (ucast value :: lib_u8)
      in if dma_scratch_port bus port_id then
           (LIB_STATUS_OK, set_data DMA_PRIMARY (\<lambda>d. d\<lparr>dd_page_scratch :=
              (dd_page_scratch d)(unat (port_id AND 0x0f) := byte)\<rparr>) bus)
         else if dma_spare_port port_id then
           (LIB_STATUS_OK, set_data DMA_PRIMARY (\<lambda>d. d\<lparr>dd_page_spare :=
              (dd_page_spare d)(dma_page_spare_index port_id := byte)\<rparr>) bus)
         else if port_id \<ge> 0x81 \<and> port_id \<le> 0x8f then
           (LIB_STATUS_OK, set_data (dma_controller port_id) (\<lambda>d. d\<lparr>dd_page :=
              (dd_page d)(dma_page_channel port_id := byte)\<rparr>) bus)
         else
           let e = (if port_id \<ge> 0xc0 then DMA_SECONDARY else DMA_PRIMARY);
               selector = (ucast (if port_id \<ge> 0xc0 then drop_bit 1 (port_id - 0xc0) else port_id) :: lib_u8);
               bus = set_device e (map_option (x86_dma_write_register (unat selector) byte)
                       (td_device (dma_at e bus))) bus
           in (LIB_STATUS_OK, x86_nxvm_board_dma_update_cascade bus))"

section \<open>The memory cycle of the core machine\<close>

abbreviation X86_CORE_MACHINE_TRANSACTION_DMA_MEMORY_READ :: nat where
  "X86_CORE_MACHINE_TRANSACTION_DMA_MEMORY_READ \<equiv> 5"
abbreviation X86_CORE_MACHINE_TRANSACTION_DMA_MEMORY_WRITE :: nat where
  "X86_CORE_MACHINE_TRANSACTION_DMA_MEMORY_WRITE \<equiv> 6"

text \<open>
  Guest memory as the cycle uses it: the query of a physical range for an access, and the read and
  the write of up to two bytes at an address; the flag of the query tells a write. All of them may
  reach devices behind the memory.
\<close>

record 'w dma_memory =
  dm_query :: "lib_u32 \<Rightarrow> lib_u8 \<Rightarrow> bool \<Rightarrow> 'w \<Rightarrow> lib_status \<times> 'w"
  dm_read :: "lib_u32 \<Rightarrow> lib_u8 \<Rightarrow> lib_u16 \<Rightarrow> 'w \<Rightarrow> lib_status \<times> lib_u16 \<times> 'w"
  dm_write :: "lib_u32 \<Rightarrow> lib_u8 \<Rightarrow> lib_u16 \<Rightarrow> 'w \<Rightarrow> lib_status \<times> 'w"

type_synonym 's device_effect = "nat \<Rightarrow> lib_u16 \<Rightarrow> 's \<Rightarrow> lib_u16 \<times> 's"

definition call_effect :: "'s device_effect ptr \<Rightarrow> nat \<Rightarrow> lib_u16 \<Rightarrow> 's \<Rightarrow> lib_u16 \<times> 's" where
  "call_effect effect channel v s = (case effect of None \<Rightarrow> (v, s) | Some f \<Rightarrow> f channel v s)"

definition dma_memory_access ::
  "'w dma_memory \<Rightarrow> lib_u32 \<Rightarrow> lib_u8 \<Rightarrow> bool \<Rightarrow> lib_u16 \<Rightarrow> ('cb, 'w) core \<Rightarrow>
     lib_status \<times> lib_u16 \<times> ('cb, 'w) core" where
  "dma_memory_access memory physical bytes is_write v s =
     (if is_write
      then let (status, w) = dm_write memory physical bytes v (snd s) in (status, v, fst s, w)
      else let (status, v, w) = dm_read memory physical bytes v (snd s) in (status, v, fst s, w))"

definition x86_core_machine_dma_memory_cycle ::
  "'w dma_memory \<Rightarrow> lib_u32 \<Rightarrow> lib_u8 \<Rightarrow> nat \<Rightarrow> bool \<Rightarrow> lib_u16 \<Rightarrow>
     ('cb, 'w) core device_effect ptr \<Rightarrow> ('cb, 'w) core device_effect ptr \<Rightarrow> ('cb, 'w) core \<Rightarrow>
     lib_status \<times> lib_u16 \<times> ('cb, 'w) core" where
  "x86_core_machine_dma_memory_cycle memory physical bytes channel is_write v before after s =
     (if bytes \<noteq> 1 \<and> bytes \<noteq> 2 then (LIB_STATUS_INVALID_ARGUMENT, v, s)
      else
        let (status, w) = dm_query memory physical bytes is_write (snd s); s = (fst s, w)
        in if status \<noteq> LIB_STATUS_OK then (status, v, s)
           else
             case x86_core_machine_transaction_begin X86_CORE_MACHINE_TRANSACTION_OWNER_DMA
                    (if is_write then X86_CORE_MACHINE_TRANSACTION_DMA_MEMORY_WRITE
                     else X86_CORE_MACHINE_TRANSACTION_DMA_MEMORY_READ)
                    physical (ucast bytes) (of_nat channel) (Some (mc_transaction (fst s))) of
               (status, t) \<Rightarrow>
                 let s = set_transaction t s
                 in if status \<noteq> LIB_STATUS_OK then (status, v, s)
                    else
                      let (v, s) = call_effect before channel v s;
                          (status, v, s) = dma_memory_access memory physical bytes is_write v s
                      in if status \<noteq> LIB_STATUS_OK
                         then (status, v, set_transaction (x86_core_machine_transaction_cancel
                                 (Some (mc_transaction (fst s)))) s)
                         else
                           let (v, s) = call_effect after channel v s
                           in (LIB_STATUS_OK, v, commit_transaction s))"

section \<open>Bus cycles of a controller\<close>

text \<open>What the bus uses that is not modelled here: memory and the devices' providers.\<close>

record ('cb, 'p, 'x) dma_env =
  de_memory :: "('p dma_bus \<times> 'x) dma_memory"
  de_provider :: "'p \<Rightarrow> nat ptr \<Rightarrow> t_latch \<Rightarrow> ('cb, 'p, 'x) dma_state \<Rightarrow> t_latch \<times> ('cb, 'p, 'x) dma_state"

abbreviation the_bus :: "('cb, 'p, 'x) dma_state \<Rightarrow> 'p dma_bus" where
  "the_bus s \<equiv> fst (snd s)"

definition set_bus :: "'p dma_bus \<Rightarrow> ('cb, 'p, 'x) dma_state \<Rightarrow> ('cb, 'p, 'x) dma_state" where
  "set_bus bus s = (fst s, bus, snd (snd s))"

text \<open>The provider works on a copy of the latch.\<close>

definition dma_provider_call ::
  "('cb, 'p, 'x) dma_env \<Rightarrow> 'p ptr \<Rightarrow> nat ptr \<Rightarrow> ('cb, 'p, 'x) dma_state \<Rightarrow> ('cb, 'p, 'x) dma_state" where
  "dma_provider_call env provider owner s =
     (case provider of
        None \<Rightarrow> s
      | Some p \<Rightarrow>
          let (v, s) = de_provider env p owner (db_latch (the_bus s)) s
          in set_bus ((the_bus s)\<lparr>db_latch := v\<rparr>) s)"

definition latch_byte :: "t_latch \<Rightarrow> lib_u8 \<Rightarrow> t_latch" where
  "latch_byte latch byte = (latch AND 0xff00) OR ucast byte"

text \<open>\<open>word\<close> is the context of the 16-bit controller.\<close>

definition dma_end_of :: "bool \<Rightarrow> dma_end" where
  "dma_end_of word = (if word then DMA_SECONDARY else DMA_PRIMARY)"

definition dma_device_before_memory ::
  "('cb, 'p, 'x) dma_env \<Rightarrow> bool \<Rightarrow> ('cb, 'p, 'x) dma_state device_effect" where
  "dma_device_before_memory env word channel v s =
     (let dma = dma_at (dma_end_of word) (the_bus s);
          s = dma_provider_call env (td_read_provider dma channel) (td_device_owner dma channel) s;
          latch = db_latch (the_bus s)
      in (if word then latch else latch AND 0xff, s))"

definition dma_device_after_memory ::
  "('cb, 'p, 'x) dma_env \<Rightarrow> bool \<Rightarrow> ('cb, 'p, 'x) dma_state device_effect" where
  "dma_device_after_memory env word channel v s =
     (let dma = dma_at (dma_end_of word) (the_bus s);
          bus = the_bus s;
          s = set_bus (bus\<lparr>db_latch := (if word then v else latch_byte (db_latch bus) (ucast v))\<rparr>) s
      in (v, dma_provider_call env (td_write_provider dma channel) (td_device_owner dma channel) s))"

definition dma_page_index :: "bool \<Rightarrow> nat \<Rightarrow> nat" where
  "dma_page_index word channel = (if word then [15, 11, 9, 10] else [7, 3, 1, 2]) ! channel"

definition dma_page :: "bool \<Rightarrow> nat \<Rightarrow> 'p dma_bus \<Rightarrow> lib_u8" where
  "dma_page word channel bus =
     (if td_page_ports_plain_scratch (db_primary bus)
      then dd_page_scratch (td_data (db_primary bus)) (dma_page_index word channel)
      else dd_page (td_data (dma_at (dma_end_of word) bus)) channel)"

definition dma_physical :: "bool \<Rightarrow> lib_u8 \<Rightarrow> lib_u16 \<Rightarrow> lib_u32" where
  "dma_physical word page address =
     (let page = (if word then page AND 0xfe else page)
      in push_bit 16 (ucast page) + (if word then push_bit 1 (ucast address) else ucast address))"

definition dma_bus_cycle ::
  "('cb, 'p, 'x) dma_env \<Rightarrow> bool \<Rightarrow> x86_dma_cycle \<Rightarrow> nat \<Rightarrow> lib_u16 \<Rightarrow> lib_u8 \<Rightarrow> ('cb, 'p, 'x) dma_state \<Rightarrow>
     lib_status \<times> lib_u8 \<times> ('cb, 'p, 'x) dma_state" where
  "dma_bus_cycle env context_word kind channel address byte s =
     (let dma = dma_at (dma_end_of context_word) (the_bus s);
          memory_only = (kind = X86_DMA_MEMORY_READ \<or> kind = X86_DMA_MEMORY_WRITE);
          word = (context_word \<and> \<not> memory_only);
          is_write = (kind = X86_DMA_DEVICE_TO_MEMORY \<or> kind = X86_DMA_MEMORY_WRITE);
          v = (if memory_only \<and> is_write then ucast byte else 0)
      in if kind = X86_DMA_VERIFY then
           (LIB_STATUS_OK, byte, dma_provider_call env (td_read_provider dma channel)
              (td_device_owner dma channel) s)
         else
           let (status, v, s) = x86_core_machine_dma_memory_cycle (de_memory env)
                 (dma_physical word (dma_page context_word channel (the_bus s)) address)
                 (if word then 2 else 1) channel is_write v
                 (if kind = X86_DMA_DEVICE_TO_MEMORY
                  then Some (dma_device_before_memory env context_word) else None)
                 (if kind = X86_DMA_MEMORY_TO_DEVICE
                  then Some (dma_device_after_memory env context_word) else None) s
           in (status, if status = LIB_STATUS_OK \<and> memory_only \<and> \<not> is_write then ucast v else byte, s))"

definition dma_bus_terminal ::
  "('cb, 'p, 'x) dma_env \<Rightarrow> bool \<Rightarrow> nat \<Rightarrow> ('cb, 'p, 'x) dma_state \<Rightarrow> ('cb, 'p, 'x) dma_state" where
  "dma_bus_terminal env context_word channel s =
     (let dma = dma_at (dma_end_of context_word) (the_bus s)
      in dma_provider_call env (td_close_provider dma channel) (td_device_owner dma channel) s)"

text \<open>The controller being advanced, written into the state and read back.\<close>

definition put_device :: "bool \<Rightarrow> x86_dma \<Rightarrow> ('cb, 'p, 'x) dma_state \<Rightarrow> ('cb, 'p, 'x) dma_state" where
  "put_device word device s = set_bus (set_device (dma_end_of word) (Some device) (the_bus s)) s"

definition got_device :: "bool \<Rightarrow> ('cb, 'p, 'x) dma_state \<Rightarrow> x86_dma" where
  "got_device word s = the (td_device (dma_at (dma_end_of word) (the_bus s)))"

definition dma_chip_bus ::
  "('cb, 'p, 'x) dma_env \<Rightarrow> bool \<Rightarrow> ('cb, 'p, 'x) dma_state x86_dma_bus" where
  "dma_chip_bus env word = \<lparr>
     bus_cycle = (\<lambda>kind channel address byte (device, s).
       let (status, byte, s) = dma_bus_cycle env word kind channel address byte (put_device word device s)
       in (status, byte, got_device word s, s)),
     bus_terminal = Some (\<lambda>channel (device, s).
       let s = dma_bus_terminal env word channel (put_device word device s)
       in (got_device word s, s))\<rparr>"

definition dma_bus_advance ::
  "('cb, 'p, 'x) dma_env \<Rightarrow> bool \<Rightarrow> ('cb, 'p, 'x) dma_state \<Rightarrow> ('cb, 'p, 'x) dma_state" where
  "dma_bus_advance env word s =
     (let (device, s) = x86_dma_advance (dma_chip_bus env word) (got_device word s, s)
      in put_device word device s)"

section \<open>Requests\<close>

definition x86_nxvm_board_dma_set_drq :: "lib_u8 \<Rightarrow> bool \<Rightarrow> 'p dma_bus \<Rightarrow> 'p dma_bus" where
  "x86_nxvm_board_dma_set_drq channel asserted bus =
     (let e = (if channel < 4 then DMA_PRIMARY else DMA_SECONDARY)
      in case td_device (dma_at e bus) of
           None \<Rightarrow> bus
         | Some device \<Rightarrow>
             if channel = 4 \<or> channel > 7 then bus
             else x86_nxvm_board_dma_update_cascade (set_device e
                    (Some (x86_dma_set_request (unat (channel AND 3)) asserted device)) bus))"

record x86_nxvm_board_dma_request_binding =
  rb_core_token :: lib_u64
  rb_channel :: lib_u8

record 'p x86_nxvm_board_dma_channel_provider =
  cp_read_device :: "'p ptr"
  cp_write_device :: "'p ptr"
  cp_terminal_count :: "'p ptr"

text \<open>The controller and channel of a request line: 0 to 3, and 5 to 7.\<close>

definition drq_line :: "lib_u8 \<Rightarrow> (dma_end \<times> nat) option" where
  "drq_line drq_id =
     (if drq_id \<le> 3 then Some (DMA_PRIMARY, unat drq_id)
      else if drq_id \<ge> 5 \<and> drq_id \<le> 7 then Some (DMA_SECONDARY, unat (drq_id - 4))
      else None)"

text \<open>The result, the binding written, the bus, and the token counter.\<close>

definition x86_nxvm_board_dma_bind_channel ::
  "lib_u8 \<Rightarrow> 'p x86_nxvm_board_dma_channel_provider ptr \<Rightarrow> nat ptr \<Rightarrow>
     x86_nxvm_board_dma_request_binding ptr \<Rightarrow> 'p dma_bus ptr \<Rightarrow> lib_u64 \<Rightarrow>
     lib_status \<times> x86_nxvm_board_dma_request_binding ptr \<times> 'p dma_bus ptr \<times> lib_u64" where
  "x86_nxvm_board_dma_bind_channel drq_id provider owner out_binding bus0 counter =
     (case (bus0, provider, out_binding) of
        (Some bus, Some given, Some out) \<Rightarrow>
          (case drq_line drq_id of
             None \<Rightarrow> (LIB_STATUS_INVALID_ARGUMENT, out_binding, bus0, counter)
           | Some (e, channel) \<Rightarrow>
               let dma = dma_at e bus
               in if td_device dma = None \<or> \<not> td_linked dma \<or> td_device_owner dma channel \<noteq> None
                  then (LIB_STATUS_INVALID_STATE, out_binding, bus0, counter)
                  else
                    let (token, counter) = (if td_request_token (db_primary bus) = 0
                          then x86_nxvm_board_dma_request_token_allocate counter
                          else (td_request_token (db_primary bus), counter));
                        bus = bus\<lparr>db_primary := (db_primary bus)\<lparr>td_request_token := token\<rparr>\<rparr>
                    in if token = 0 then (LIB_STATUS_INTERNAL_ERROR, out_binding, Some bus, counter)
                       else
                         let dma = dma_at e bus;
                             dma = dma\<lparr>
                               td_read_provider := (td_read_provider dma)(channel := cp_read_device given),
                               td_write_provider := (td_write_provider dma)(channel := cp_write_device given),
                               td_close_provider := (td_close_provider dma)(channel := cp_terminal_count given),
                               td_device_owner := (td_device_owner dma)(channel := owner)\<rparr>
                         in (LIB_STATUS_OK, Some \<lparr>rb_core_token = token, rb_channel = drq_id\<rparr>,
                             Some (set_dma e dma bus), counter))
      | _ \<Rightarrow> (LIB_STATUS_INVALID_ARGUMENT, out_binding, bus0, counter))"

definition binding_refused :: "x86_nxvm_board_dma_request_binding \<Rightarrow> 'p dma_bus \<Rightarrow> bool" where
  "binding_refused binding bus \<longleftrightarrow>
     rb_core_token binding = 0 \<or> rb_core_token binding \<noteq> td_request_token (db_primary bus) \<or>
     \<not> td_linked (db_primary bus)"

definition dma_request_change ::
  "bool \<Rightarrow> x86_nxvm_board_dma_request_binding ptr \<Rightarrow> 'p dma_bus ptr \<Rightarrow> 'p dma_bus ptr" where
  "dma_request_change asserted binding bus =
     (case (bus, binding) of
        (Some b, Some bd) \<Rightarrow>
          if binding_refused bd b then bus
          else Some (x86_nxvm_board_dma_set_drq (rb_channel bd) asserted b)
      | _ \<Rightarrow> bus)"

definition x86_nxvm_board_dma_request_assert ::
  "x86_nxvm_board_dma_request_binding ptr \<Rightarrow> 'p dma_bus ptr \<Rightarrow> 'p dma_bus ptr" where
  "x86_nxvm_board_dma_request_assert = dma_request_change True"

definition x86_nxvm_board_dma_request_deassert ::
  "x86_nxvm_board_dma_request_binding ptr \<Rightarrow> 'p dma_bus ptr \<Rightarrow> 'p dma_bus ptr" where
  "x86_nxvm_board_dma_request_deassert = dma_request_change False"

definition x86_nxvm_board_dma_request_terminate ::
  "x86_nxvm_board_dma_request_binding ptr \<Rightarrow> 'p dma_bus ptr \<Rightarrow> 'p dma_bus ptr" where
  "x86_nxvm_board_dma_request_terminate binding bus =
     (case (bus, binding) of
        (Some b, Some bd) \<Rightarrow>
          if binding_refused bd b then bus
          else (case drq_line (rb_channel bd) of
                  None \<Rightarrow> bus
                | Some (e, channel) \<Rightarrow>
                    (case td_device (dma_at e b) of
                       None \<Rightarrow> bus
                     | Some device \<Rightarrow>
                         if sg_active_channel (x86_dma_get_signals device) = channel
                         then Some (set_device e (Some (x86_dma_terminate device)) b) else bus))
      | _ \<Rightarrow> bus)"

section \<open>Construction\<close>

text \<open>A decoded port, whether it can be read, and the end of its bank of byte lanes.\<close>

definition dma_register_routes :: "lib_u16 \<Rightarrow> lib_u16 \<Rightarrow> (lib_u16 \<times> bool \<times> lib_u16) list" where
  "dma_register_routes base stride =
     map (\<lambda>index. (base + of_nat index * stride, index \<le> 8 \<or> index = 13, 0)) [0..<16]"

definition dma_page_routes :: "lib_u16 list \<Rightarrow> (lib_u16 \<times> bool \<times> lib_u16) list" where
  "dma_page_routes ports = map (\<lambda>port. (port, True, 0x90)) ports"

definition dma_routes :: "nat \<Rightarrow> bool \<Rightarrow> (lib_u16 \<times> bool \<times> lib_u16) list" where
  "dma_routes controller_count plain =
     dma_register_routes 0 1 @
     (if plain then dma_page_routes (map (\<lambda>index. 0x80 + of_nat index) [0..<16])
      else dma_page_routes [0x81, 0x82, 0x83]) @
     (if controller_count = 2 \<and> \<not> plain
      then dma_page_routes [0x80, 0x84, 0x85, 0x86, 0x88, 0x8c, 0x8d, 0x8e] @
           dma_page_routes [0x87, 0x89, 0x8a, 0x8b, 0x8f] else []) @
     (if controller_count = 2 then dma_register_routes 0xc0 2 else [])"

definition zero_controller :: "'p t_dma" where
  "zero_controller = \<lparr>td_device = None, td_data = zero_data, td_linked = True,
     td_read_provider = (\<lambda>_. None), td_write_provider = (\<lambda>_. None), td_close_provider = (\<lambda>_. None),
     td_device_owner = (\<lambda>_. None), td_request_token = 0, td_page_ports_plain_scratch = False\<rparr>"

text \<open>
  The allocations of the bus and of the two controllers may fail, and so may the installation of the
  port routes, a function of the routes; a failed construction publishes no bus.
\<close>

definition x86_nxvm_board_dma_initialize ::
  "bool \<Rightarrow> bool \<Rightarrow> bool \<Rightarrow> ((lib_u16 \<times> bool \<times> lib_u16) list \<Rightarrow> lib_status) \<Rightarrow> bool \<Rightarrow> nat \<Rightarrow> bool \<Rightarrow>
     lib_status \<times> 'p dma_bus ptr" where
  "x86_nxvm_board_dma_initialize bus_allocated primary_allocated secondary_allocated install
       machine_present controller_count plain =
     (if \<not> machine_present \<or> (controller_count \<noteq> 1 \<and> controller_count \<noteq> 2)
      then (LIB_STATUS_INVALID_ARGUMENT, None)
      else if \<not> bus_allocated then (LIB_STATUS_NO_MEMORY, None)
      else
        let (status, first) = x86_dma_create primary_allocated (Some None);
            (status, second) = (if status = LIB_STATUS_OK \<and> controller_count = 2
              then x86_dma_create secondary_allocated (Some None) else (status, Some None))
        in if status \<noteq> LIB_STATUS_OK then (status, None)
           else
             let status = install (dma_routes controller_count plain)
             in if status \<noteq> LIB_STATUS_OK then (status, None)
                else (LIB_STATUS_OK, Some \<lparr>db_latch = 0,
                  db_primary = zero_controller\<lparr>td_device := the first,
                    td_page_ports_plain_scratch := plain\<rparr>,
                  db_secondary = zero_controller\<lparr>td_device := the second\<rparr>\<rparr>))"

section \<open>Service\<close>

definition x86_nxvm_board_dma_get_signals :: "'p dma_bus ptr \<Rightarrow> nat \<Rightarrow> x86_dma_signals" where
  "x86_nxvm_board_dma_get_signals bus controller =
     (let chip = (case bus of None \<Rightarrow> None
            | Some b \<Rightarrow> if controller > 1 then None
                else td_device (if controller = 1 then db_secondary b else db_primary b))
      in case chip of Some device \<Rightarrow> x86_dma_get_signals device
         | None \<Rightarrow> \<lparr>sg_requests = 0, sg_active_channel = 4, sg_enabled = False\<rparr>)"

definition x86_nxvm_board_dma_has_pending_request :: "'p dma_bus ptr \<Rightarrow> bool" where
  "x86_nxvm_board_dma_has_pending_request bus =
     (case bus of
        None \<Rightarrow> False
      | Some b \<Rightarrow>
          (case td_device (db_primary b) of
             None \<Rightarrow> False
           | Some primary \<Rightarrow>
               let first = x86_dma_get_signals primary
               in case td_device (db_secondary b) of
                    None \<Rightarrow> sg_enabled first \<and> (sg_requests first \<noteq> 0 \<or> sg_active_channel first < 4)
                  | Some secondary \<Rightarrow>
                      let second = x86_dma_get_signals secondary
                      in sg_enabled second \<and>
                         (sg_active_channel second < 4 \<or> sg_requests second AND 0x0e \<noteq> 0 \<or>
                          (sg_enabled first \<and> (sg_active_channel first < 4 \<or> sg_requests first \<noteq> 0) \<and>
                           sg_requests second AND 1 \<noteq> 0))))"

definition grant_device :: "dma_end \<Rightarrow> nat \<Rightarrow> bool \<Rightarrow> ('cb, 'p, 'x) dma_state \<Rightarrow> ('cb, 'p, 'x) dma_state" where
  "grant_device e channel cascade s =
     set_bus (set_device e (map_option (x86_dma_grant channel cascade) (td_device (dma_at e (the_bus s))))
       (the_bus s)) s"

definition release_device :: "dma_end \<Rightarrow> ('cb, 'p, 'x) dma_state \<Rightarrow> ('cb, 'p, 'x) dma_state" where
  "release_device e s =
     set_bus (set_device e (map_option x86_dma_release (td_device (dma_at e (the_bus s)))) (the_bus s)) s"

definition signals_at :: "dma_end \<Rightarrow> ('cb, 'p, 'x) dma_state \<Rightarrow> x86_dma_signals" where
  "signals_at e s = dma_signals (td_device (dma_at e (the_bus s)))"

definition device_at :: "dma_end \<Rightarrow> ('cb, 'p, 'x) dma_state \<Rightarrow> x86_dma" where
  "device_at e s = the (td_device (dma_at e (the_bus s)))"

text \<open>One tick with a single controller, and with two.\<close>

definition dma_advance_single ::
  "('cb, 'p, 'x) dma_env \<Rightarrow> ('cb, 'p, 'x) dma_state \<Rightarrow> ('cb, 'p, 'x) dma_state" where
  "dma_advance_single env s =
     (let first = signals_at DMA_PRIMARY s
      in if \<not> sg_enabled first then s
         else if sg_active_channel first < 4 then dma_bus_advance env False s
         else if sg_requests first \<noteq> 0 then
           grant_device DMA_PRIMARY (x86_dma_select (device_at DMA_PRIMARY s) (sg_requests first)) False s
         else s)"

definition dma_advance_grant :: "('cb, 'p, 'x) dma_state \<Rightarrow> ('cb, 'p, 'x) dma_state" where
  "dma_advance_grant s =
     (let first = signals_at DMA_PRIMARY s; second = signals_at DMA_SECONDARY s;
          requests = sg_requests second AND 0x0e;
          requests = (if sg_enabled first \<and> sg_requests first \<noteq> 0
            then requests OR (sg_requests second AND 1) else requests);
          channel = x86_dma_select (device_at DMA_SECONDARY s) requests
      in if channel = 4 then s
         else
           let s = grant_device DMA_SECONDARY channel (channel = 0) s
           in if channel = 0 then grant_device DMA_PRIMARY
                (x86_dma_select (device_at DMA_PRIMARY s) (sg_requests first)) False s
              else s)"

definition dma_advance_pair ::
  "('cb, 'p, 'x) dma_env \<Rightarrow> ('cb, 'p, 'x) dma_state \<Rightarrow> ('cb, 'p, 'x) dma_state" where
  "dma_advance_pair env s =
     (let first = signals_at DMA_PRIMARY s; second = signals_at DMA_SECONDARY s
      in if \<not> sg_enabled second then s
         else if sg_active_channel second < 4 then
           if sg_active_channel second \<noteq> 0 then dma_bus_advance env True s
           else if sg_enabled first \<and> sg_active_channel first < 4 then
             let s = dma_bus_advance env False s
             in if sg_active_channel (signals_at DMA_PRIMARY s) = 4
                then release_device DMA_SECONDARY s else s
           else s
         else if sg_enabled first \<and> sg_active_channel first < 4 then dma_bus_advance env False s
         else dma_advance_grant s)"

definition x86_nxvm_board_dma_advance_one ::
  "('cb, 'p, 'x) dma_env \<Rightarrow> ('cb, 'p, 'x) dma_state \<Rightarrow> ('cb, 'p, 'x) dma_state" where
  "x86_nxvm_board_dma_advance_one env s =
     (if td_device (db_secondary (the_bus s)) = None then dma_advance_single env s
      else dma_advance_pair env s)"

definition dma_tick ::
  "('cb, 'p, 'x) dma_env \<Rightarrow> ('cb, 'p, 'x) dma_state \<Rightarrow> ('cb, 'p, 'x) dma_state" where
  "dma_tick env s =
     (let s = x86_nxvm_board_dma_advance_one env s
      in set_bus (x86_nxvm_board_dma_update_cascade (the_bus s)) s)"

definition dma_quiet :: "'p dma_bus \<Rightarrow> bool" where
  "dma_quiet bus \<longleftrightarrow>
     (let first = dma_signals (td_device (db_primary bus));
          second = x86_nxvm_board_dma_get_signals (Some bus) 1
      in sg_requests first = 0 \<and> sg_active_channel first \<ge> 4 \<and>
         sg_requests second = 0 \<and> sg_active_channel second \<ge> 4)"

text \<open>The loop over the ticks that are left; it stops early when both controllers are quiet.\<close>

primrec dma_ticks_loop ::
  "('cb, 'p, 'x) dma_env \<Rightarrow> nat \<Rightarrow> ('cb, 'p, 'x) dma_state \<Rightarrow> ('cb, 'p, 'x) dma_state" where
  "dma_ticks_loop env 0 s = s"
| "dma_ticks_loop env (Suc n) s =
     (let s = dma_tick env s
      in if n \<noteq> 0 \<and> dma_quiet (the_bus s) then s else dma_ticks_loop env n s)"

definition x86_nxvm_board_dma_advance_transaction ::
  "('cb, 'p, 'x) dma_env \<Rightarrow> lib_u64 \<Rightarrow> ('cb, 'p, 'x) dma_state \<Rightarrow> ('cb, 'p, 'x) dma_state" where
  "x86_nxvm_board_dma_advance_transaction env elapsed_ticks s =
     (if td_device (db_primary (the_bus s)) = None then s
      else dma_ticks_loop env (unat elapsed_ticks) s)"

section \<open>Accessors\<close>

lemma dma_at_simps [simp]:
  "dma_at DMA_PRIMARY bus = db_primary bus" "dma_at DMA_SECONDARY bus = db_secondary bus"
  "dma_at e (set_dma e dma bus) = dma"
  "db_latch (set_dma e dma bus) = db_latch bus"
  by (simp_all add: dma_at_def set_dma_def split: dma_end.split)

lemma set_dma_sides [simp]:
  "db_primary (set_dma e dma bus) = (if e = DMA_PRIMARY then dma else db_primary bus)"
  "db_secondary (set_dma e dma bus) = (if e = DMA_SECONDARY then dma else db_secondary bus)"
  by (simp_all add: set_dma_def split: dma_end.split)

lemma set_device_sides [simp]:
  "db_primary (set_device e d bus) =
     (if e = DMA_PRIMARY then (db_primary bus)\<lparr>td_device := d\<rparr> else db_primary bus)"
  "db_secondary (set_device e d bus) =
     (if e = DMA_SECONDARY then (db_secondary bus)\<lparr>td_device := d\<rparr> else db_secondary bus)"
  "db_latch (set_device e d bus) = db_latch bus"
  by (simp_all add: set_device_def)

lemma set_bus_simps [simp]: "the_bus (set_bus bus s) = bus" "fst (set_bus bus s) = fst s"
  "snd (snd (set_bus bus s)) = snd (snd s)" "set_bus (the_bus s) s = s"
  by (simp_all add: set_bus_def)

lemma dma_bus_eqI:
  "db_latch a = db_latch b \<Longrightarrow> db_primary a = db_primary b \<Longrightarrow> db_secondary a = db_secondary b \<Longrightarrow> a = (b :: 'p dma_bus)"
  by simp

section \<open>The cascade line\<close>

text \<open>The request that the first controller sends to channel 0 of the second, as the second sees it.\<close>

definition cascade_ok :: "'p dma_bus \<Rightarrow> bool" where
  "cascade_ok bus \<longleftrightarrow> (\<forall>device. td_device (db_secondary bus) = Some device \<longrightarrow>
     bit (da_status device) 4 = cascade_request (dma_signals (td_device (db_primary bus))))"

lemma bit_make [simp]: "bit (DMA_BIT_MAKE w (BIT_MASK n) b :: lib_u8) m \<longleftrightarrow> (if m = n \<and> n < 8 then b else bit w m)"
  by (auto simp: DMA_BIT_MAKE_def dest: bit_imp_le_length)

lemma update_cascade_ok: "cascade_ok (x86_nxvm_board_dma_update_cascade bus)"
  by (auto simp: cascade_ok_def x86_nxvm_board_dma_update_cascade_def x86_dma_set_request_def
      split: option.split)

lemma make_same: "b = bit w n \<Longrightarrow> n < 8 \<Longrightarrow> DMA_BIT_MAKE w (BIT_MASK n) b = (w :: lib_u8)"
  by (rule bit_word_eqI) auto

lemma update_cascade_same: "cascade_ok bus \<Longrightarrow> x86_nxvm_board_dma_update_cascade bus = bus"
proof (cases "td_device (db_secondary bus)")
  case (Some device)
  assume ok: "cascade_ok bus"
  have "x86_dma_set_request 0 (cascade_request (dma_signals (td_device (db_primary bus)))) device = device"
    using ok Some by (simp add: cascade_ok_def x86_dma_set_request_def make_same)
  moreover have "set_device DMA_SECONDARY (Some device) bus = bus"
    using Some by (intro dma_bus_eqI) simp_all
  ultimately show ?thesis by (simp add: x86_nxvm_board_dma_update_cascade_def Some)
qed (simp add: x86_nxvm_board_dma_update_cascade_def)

section \<open>The early exit\<close>

lemma quiet_advance:
  assumes "dma_quiet (the_bus s)"
  shows "x86_nxvm_board_dma_advance_one env s = s"
proof -
  have z: "x86_dma_select d 0 = 4" for d by (simp add: x86_dma_select_def)
  show ?thesis
  proof (cases "td_device (db_secondary (the_bus s))")
    case None
    then show ?thesis using assms
      by (simp add: x86_nxvm_board_dma_advance_one_def dma_advance_single_def dma_quiet_def
          signals_at_def Let_def)
  next
    case (Some device)
    then show ?thesis using assms
      by (simp add: x86_nxvm_board_dma_advance_one_def dma_advance_pair_def dma_quiet_def z
          signals_at_def Let_def dma_advance_grant_def x86_nxvm_board_dma_get_signals_def dma_signals_def)
  qed
qed

lemma quiet_tick: "dma_quiet (the_bus s) \<Longrightarrow> cascade_ok (the_bus s) \<Longrightarrow> dma_tick env s = s"
  by (simp add: dma_tick_def quiet_advance update_cascade_same)

lemma tick_cascade_ok: "cascade_ok (the_bus (dma_tick env s))"
  by (simp add: dma_tick_def Let_def update_cascade_ok)

lemma quiet_ticks: "dma_quiet (the_bus s) \<Longrightarrow> cascade_ok (the_bus s) \<Longrightarrow> (dma_tick env ^^ n) s = s"
  by (induction n) (simp_all add: quiet_tick)

lemma ticks_loop_exact: "dma_ticks_loop env n s = (dma_tick env ^^ n) s"
proof (induction n arbitrary: s)
  case (Suc n)
  have "(dma_tick env ^^ n) (dma_tick env s) = dma_tick env s" if "dma_quiet (the_bus (dma_tick env s))"
    using that by (rule quiet_ticks [OF _ tick_cascade_ok])
  then show ?case using Suc by (simp add: Let_def funpow_swap1)
qed simp

section \<open>Page registers and physical addresses\<close>

text \<open>The port behind which the page of each channel lies, in the order of the channels.\<close>

definition dma_page_port :: "bool \<Rightarrow> nat \<Rightarrow> lib_u16" where
  "dma_page_port word channel = (if word then [0x8f, 0x8b, 0x89, 0x8a] else [0x87, 0x83, 0x81, 0x82]) ! channel"

lemma dma_channel_cases: "(c :: nat) < 4 \<Longrightarrow> c = 0 \<or> c = 1 \<or> c = 2 \<or> c = 3"
  by auto

lemma dma_physical_byte: "unat (dma_physical False page address) = unat page * 2 ^ 16 + unat address"
proof -
  have "unat (ucast page :: lib_u32) = unat page" "unat (ucast address :: lib_u32) = unat address"
    by (simp_all add: unat_ucast_up)
  moreover have "unat page < 2 ^ 8" "unat address < 2 ^ 16"
    using unsigned_less [of page, where 'a = nat] unsigned_less [of address, where 'a = nat] by simp_all
  ultimately show ?thesis
    by (simp add: dma_physical_def push_bit_eq_mult unat_word_ariths)
qed

lemma even_page: "unat ((page :: lib_u8) AND 0xfe) = 2 * (unat page div 2)"
proof -
  have e: "(0xfe :: lib_u8) = NOT (mask 1)" by (simp add: mask_eq_exp_minus_1)
  have "page AND 0xfe = push_bit 1 (drop_bit 1 page)"
    unfolding e by (rule bit_word_eqI)
      (auto simp only: bit_and_iff bit_not_iff bit_mask_iff bit_push_bit_iff bit_drop_bit_eq comp_def
        le_add_diff_inverse possible_bit_word not_less)
  moreover have "2 * (unat page div 2) < 2 ^ 8"
    using unsigned_less [of page, where 'a = nat] by simp
  ultimately show ?thesis by (simp add: unat_word_ariths unat_drop_bit_eq drop_bit_eq_div)
qed

lemma dma_physical_word: "unat (dma_physical True page address) = (unat page div 2) * 2 ^ 17 + 2 * unat address"
proof -
  have "unat (ucast (page AND 0xfe) :: lib_u32) = 2 * (unat page div 2)"
    "unat (ucast address :: lib_u32) = unat address"
    by (simp_all add: unat_ucast_up even_page)
  moreover have "unat page < 2 ^ 8" "unat address < 2 ^ 16"
    using unsigned_less [of page, where 'a = nat] unsigned_less [of address, where 'a = nat] by simp_all
  ultimately show ?thesis
    by (simp add: dma_physical_def push_bit_eq_mult unat_word_ariths)
qed

lemma page_port_write:
  assumes "port \<in> set [0x80, 0x81, 0x82, 0x83, 0x84, 0x85, 0x86, 0x87, 0x88, 0x89, 0x8a, 0x8b, 0x8c, 0x8d, 0x8e, 0x8f]"
    "channel < 4"
  shows "dma_page word channel (snd (dma_port_write port v bus)) =
    (if port = dma_page_port word channel then ucast v else dma_page word channel bus)"
  using dma_channel_cases [OF assms(2)] assms(1) [simplified]
  by (elim disjE; cases word) (simp_all add: dma_page_port_def dma_port_write_def dma_page_def dma_scratch_port_def Let_def
      dma_spare_port_def dma_controller_def dma_page_channel_def set_data_def dma_end_of_def dma_page_index_def)

lemma page_port_read:
  assumes "port \<in> set [0x80, 0x81, 0x82, 0x83, 0x84, 0x85, 0x86, 0x87, 0x88, 0x89, 0x8a, 0x8b, 0x8c, 0x8d, 0x8e, 0x8f]"
  shows "dma_port_read port (Some out) (Some (snd (dma_port_write port v bus))) =
    (LIB_STATUS_OK, Some (out AND NOT 0xff OR ucast (ucast v :: lib_u8)), Some (snd (dma_port_write port v bus)))"
  using assms [simplified]
  by (elim disjE) (simp_all add: dma_port_read_def dma_port_write_def dma_scratch_port_def Let_def
      dma_spare_port_def dma_controller_def dma_page_channel_def dma_page_spare_index_def set_data_def)

section \<open>Providers and the bus protocol\<close>

text \<open>
  What the documentation of the provider interface allows: a provider changes the request and
  end-of-process inputs of the controllers and its own part of the world. It neither advances guest
  time nor touches the transaction in progress.
\<close>

definition device_inputs_only :: "x86_dma ptr \<Rightarrow> x86_dma ptr \<Rightarrow> bool" where
  "device_inputs_only d d' \<longleftrightarrow>
     (case d of None \<Rightarrow> d' = None | Some x \<Rightarrow> (\<exists>y. d' = Some y \<and> dma_inputs_only x y))"

definition provider_step :: "('cb, 'p, 'x) dma_state \<Rightarrow> ('cb, 'p, 'x) dma_state \<Rightarrow> bool" where
  "provider_step s s' \<longleftrightarrow> lends s s' \<and>
     (\<exists>d1 d2. device_inputs_only (td_device (db_primary (the_bus s))) d1 \<and>
        device_inputs_only (td_device (db_secondary (the_bus s))) d2 \<and>
        db_primary (the_bus s') = (db_primary (the_bus s))\<lparr>td_device := d1\<rparr> \<and>
        db_secondary (the_bus s') = (db_secondary (the_bus s))\<lparr>td_device := d2\<rparr>)"

definition providers_ok :: "('cb, 'p, 'x) dma_env \<Rightarrow> bool" where
  "providers_ok env \<longleftrightarrow>
     (\<forall>p owner v s. provider_step s (snd (de_provider env p owner v s)))"

lemma inputs_only_refl [simp]: "dma_inputs_only d d"
  by (rule dma_inputs_refl)

lemma inputs_only_trans: "dma_inputs_only a b \<Longrightarrow> dma_inputs_only b c \<Longrightarrow> dma_inputs_only a c"
proof -
  assume "dma_inputs_only a b" "dma_inputs_only b c"
  then obtain st e where "c = a\<lparr>da_status := st, da_flagEOP := e\<rparr>" by (auto simp: dma_inputs_only_def)
  then show ?thesis unfolding dma_inputs_only_def by blast
qed

lemma device_inputs_refl [simp]: "device_inputs_only d d"
  by (simp add: device_inputs_only_def split: option.split)

lemma device_inputs_trans: "device_inputs_only a b \<Longrightarrow> device_inputs_only b c \<Longrightarrow> device_inputs_only a c"
  by (auto simp: device_inputs_only_def intro: inputs_only_trans split: option.splits)

lemma lends_world: "lends s (fst s, w)"
  by (simp add: lends_def core_ok_def)

lemma lends_set_bus [simp]: "lends s (set_bus bus s)"
  by (simp add: set_bus_def lends_world)

lemma provider_refl [simp]: "provider_step s s"
  unfolding provider_step_def
  by (intro conjI exI [of _ "td_device (db_primary (the_bus s))"] exI [of _ "td_device (db_secondary (the_bus s))"]) simp_all

lemma provider_trans: "provider_step a b \<Longrightarrow> provider_step b c \<Longrightarrow> provider_step a c"
  unfolding provider_step_def
  by (elim conjE exE) (auto intro: lends_trans device_inputs_trans)

lemma provider_latch: "provider_step s (set_bus ((the_bus s)\<lparr>db_latch := v\<rparr>) s)"
  unfolding provider_step_def
  by (intro conjI exI [of _ "td_device (db_primary (the_bus s))"] exI [of _ "td_device (db_secondary (the_bus s))"]) simp_all

lemma provider_call_step:
  assumes "providers_ok env"
  shows "provider_step s (dma_provider_call env p owner s)"
proof (cases p)
  case (Some q)
  obtain v t where t: "de_provider env q owner (db_latch (the_bus s)) s = (v, t)" by (metis surj_pair)
  have "provider_step s t" using assms t unfolding providers_ok_def by (metis snd_conv)
  then have "provider_step s (set_bus ((the_bus t)\<lparr>db_latch := v\<rparr>) t)"
    by (rule provider_trans [OF _ provider_latch])
  then show ?thesis by (simp add: dma_provider_call_def Some t)
qed (simp add: dma_provider_call_def)

lemma before_memory_step: "providers_ok env \<Longrightarrow> provider_step s (snd (dma_device_before_memory env word c v s))"
  by (simp add: dma_device_before_memory_def Let_def provider_call_step)

lemma after_memory_step: "providers_ok env \<Longrightarrow> provider_step s (snd (dma_device_after_memory env word c v s))"
  by (auto simp: dma_device_after_memory_def Let_def intro: provider_trans [OF provider_latch provider_call_step])

text \<open>Guest memory is a part of the world that keeps the bus.\<close>

definition memory_ok :: "('p dma_bus \<times> 'x) dma_memory \<Rightarrow> bool" where
  "memory_ok memory \<longleftrightarrow> (\<forall>a n v w. fst (snd (dm_write memory a n v w)) = fst w) \<and>
     (\<forall>a n v w. fst (snd (snd (dm_read memory a n v w))) = fst w) \<and>
     (\<forall>a n is_write w. fst (snd (dm_query memory a n is_write w)) = fst w)"

lemma world_step: "fst w = the_bus s \<Longrightarrow> provider_step s (fst s, w)"
  unfolding provider_step_def
  by (intro conjI exI [of _ "td_device (db_primary (the_bus s))"] exI [of _ "td_device (db_secondary (the_bus s))"])
    (simp_all add: lends_world)

lemma memory_access_step:
  assumes "memory_ok memory"
  shows "provider_step s (snd (snd (dma_memory_access memory a n is_write v s)))"
proof (cases is_write)
  case True
  obtain status w where w: "dm_write memory a n v (snd s) = (status, w)" by (metis surj_pair)
  then have "fst w = the_bus s" using assms by (metis memory_ok_def snd_conv)
  then show ?thesis using True w by (simp add: dma_memory_access_def world_step)
next
  case False
  obtain status u w where w: "dm_read memory a n v (snd s) = (status, u, w)" by (metis surj_pair)
  then have "fst w = the_bus s" using assms by (metis memory_ok_def snd_conv)
  then show ?thesis using False w by (simp add: dma_memory_access_def world_step)
qed

text \<open>The transaction of a cycle: begun on a bus that is free for the controller, ended afterwards.\<close>

lemma lends_transaction:
  assumes "snd (bus_of u) = snd (bus_of (mc_transaction (fst s)))" "tx_owner u = tx_owner (mc_transaction (fst s))"
  shows "lends s (set_transaction (Some u) s)"
  using assms by (simp add: lends_def bus_lent_def)

lemma begin_dma:
  assumes "x86_core_machine_transaction_begin X86_CORE_MACHINE_TRANSACTION_OWNER_DMA kind a v d (Some t) = (status, t')"
    "1 \<le> kind" "kind \<le> 13"
  shows "if status = LIB_STATUS_OK
    then tx_owner t = NO_OWNER \<and> (\<exists>u. t' = Some u \<and>
      bus_of u = (X86_CORE_MACHINE_TRANSACTION_OWNER_DMA, snd (bus_of t)))
    else t' = Some t"
  using assms
  by (auto simp: x86_core_machine_transaction_begin.simps Let_def bus_of_def split: if_splits)

lemma cancel_bus:
  "\<exists>u. x86_core_machine_transaction_cancel (Some t) = Some u \<and> bus_of u = (NO_OWNER, snd (bus_of t))"
  by (auto simp: bus_of_def Let_def)

lemma set_transaction_the_bus [simp]: "the_bus (set_transaction t s) = the_bus s"
  "snd (set_transaction t s) = snd s"
  by (simp_all add: set_transaction_def)

lemma close_cycle:
  assumes "tx_owner (mc_transaction (fst s)) = NO_OWNER"
    "bus_of u = (X86_CORE_MACHINE_TRANSACTION_OWNER_DMA, snd (bus_of (mc_transaction (fst s))))"
    "provider_step (set_transaction (Some u) s) s'"
    "bus_of t = (NO_OWNER, snd (bus_of (mc_transaction (fst s'))))"
  shows "provider_step s (set_transaction (Some t) s')"
  using assms by (auto simp: provider_step_def lends_def bus_lent_def bus_of_def)

lemma memory_cycle_step:
  assumes m: "memory_ok memory"
    and b: "\<And>c v s. provider_step s (snd (call_effect before c v s))"
    and a: "\<And>c v s. provider_step s (snd (call_effect after c v s))"
  shows "provider_step s (snd (snd (x86_core_machine_dma_memory_cycle memory physical bytes channel is_write v before after s)))"
proof -
  let ?kind = "if is_write then X86_CORE_MACHINE_TRANSACTION_DMA_MEMORY_WRITE
    else X86_CORE_MACHINE_TRANSACTION_DMA_MEMORY_READ"
  obtain q w0 where q: "dm_query memory physical bytes is_write (snd s) = (q, w0)" by (metis surj_pair)
  let ?s = "(fst s, w0)"
  have "fst w0 = the_bus s" using m q by (metis memory_ok_def snd_conv)
  then have k0: "provider_step s ?s" by (rule world_step)
  obtain status t where begin_eq: "x86_core_machine_transaction_begin X86_CORE_MACHINE_TRANSACTION_OWNER_DMA ?kind
      physical (ucast bytes) (of_nat channel) (Some (mc_transaction (fst s))) = (status, t)" by (metis surj_pair)
  have kind: "1 \<le> ?kind" "?kind \<le> 13" by simp_all
  note B = begin_dma [OF begin_eq kind]
  show ?thesis
  proof (cases "(bytes = 1 \<or> bytes = 2) \<and> q = LIB_STATUS_OK")
    case False
    then show ?thesis using q k0 by (auto simp: x86_core_machine_dma_memory_cycle_def Let_def)
  next
    case run: True
    show ?thesis
    proof (cases "status = LIB_STATUS_OK")
      case False
      then have "t = Some (mc_transaction (fst s))" using B by (simp split: if_splits)
      moreover have "set_transaction (Some (mc_transaction (fst s))) ?s = ?s" by (simp add: set_transaction_def)
      ultimately show ?thesis using run begin_eq False q k0
        by (auto simp: x86_core_machine_dma_memory_cycle_def Let_def)
    next
      case ok: True
      then obtain u where u: "t = Some u" "tx_owner (mc_transaction (fst s)) = NO_OWNER"
        "bus_of u = (X86_CORE_MACHINE_TRANSACTION_OWNER_DMA, snd (bus_of (mc_transaction (fst s))))"
        using B by (auto split: if_splits)
      obtain v1 s1 where s1: "call_effect before channel v (set_transaction (Some u) ?s) = (v1, s1)" by (metis surj_pair)
      obtain st2 v2 s2 where s2: "dma_memory_access memory physical bytes is_write v1 s1 = (st2, v2, s2)" by (metis surj_pair)
      obtain v3 s3 where s3: "call_effect after channel v2 s2 = (v3, s3)" by (metis surj_pair)
      have k1: "provider_step (set_transaction (Some u) ?s) s1" using b s1 by (metis snd_conv)
      have k2: "provider_step (set_transaction (Some u) ?s) s2"
        using provider_trans [OF k1] memory_access_step [OF m] s2 by (metis snd_conv)
      have k3: "provider_step (set_transaction (Some u) ?s) s3"
        using provider_trans [OF k2] a s3 by (metis snd_conv)
      obtain c where c: "x86_core_machine_transaction_cancel (Some (mc_transaction (fst s2))) = Some c"
        "bus_of c = (NO_OWNER, snd (bus_of (mc_transaction (fst s2))))" using cancel_bus by blast
      obtain d where d: "x86_core_machine_transaction_commit (Some (mc_transaction (fst s3))) = Some d"
        "bus_of d = (NO_OWNER, snd (bus_of (mc_transaction (fst s3))))"
        using bus_commit by (fastforce simp: bus_of_def)
      have cycle: "x86_core_machine_dma_memory_cycle memory physical bytes channel is_write v before after s =
          (if st2 \<noteq> LIB_STATUS_OK then (st2, v2, set_transaction (Some c) s2)
           else (LIB_STATUS_OK, v3, set_transaction (Some d) s3))"
        using run begin_eq ok u(1) q s1 s2 s3 c(1) d(1)
        by (auto simp: x86_core_machine_dma_memory_cycle_def Let_def commit_transaction_def)
      show ?thesis unfolding cycle
        using provider_trans [OF k0 close_cycle [of ?s, OF _ _ k2 c(2)]]
          provider_trans [OF k0 close_cycle [of ?s, OF _ _ k3 d(2)]] u(2,3) by simp
    qed
  qed
qed

lemma bus_cycle_step:
  assumes "providers_ok env" "memory_ok (de_memory env)"
  shows "provider_step s (snd (snd (dma_bus_cycle env word kind c address byte s)))"
proof -
  have "provider_step s (snd (snd (x86_core_machine_dma_memory_cycle (de_memory env) p n c w v
      (if x then Some (dma_device_before_memory env word) else None)
      (if y then Some (dma_device_after_memory env word) else None) s)))" for p n w v x y
    by (rule memory_cycle_step [OF assms(2)])
      (simp_all add: call_effect_def before_memory_step after_memory_step assms(1))
  then show ?thesis
    using provider_call_step [OF assms(1)]
    by (simp add: dma_bus_cycle_def Let_def case_prod_beta)
qed

lemma bus_terminal_step: "providers_ok env \<Longrightarrow> provider_step s (dma_bus_terminal env word c s)"
  by (simp add: dma_bus_terminal_def Let_def provider_call_step)

section \<open>One controller tick\<close>

text \<open>Advancing the controller at one end: everything else is as after a provider.\<close>

definition advance_step :: "dma_end \<Rightarrow> ('cb, 'p, 'x) dma_state \<Rightarrow> ('cb, 'p, 'x) dma_state \<Rightarrow> bool" where
  "advance_step e s s' \<longleftrightarrow> lends s s' \<and>
     (\<exists>d1 d2. (e = DMA_PRIMARY \<or> device_inputs_only (td_device (db_primary (the_bus s))) d1) \<and>
        (e = DMA_SECONDARY \<or> device_inputs_only (td_device (db_secondary (the_bus s))) d2) \<and>
        db_primary (the_bus s') = (db_primary (the_bus s))\<lparr>td_device := d1\<rparr> \<and>
        db_secondary (the_bus s') = (db_secondary (the_bus s))\<lparr>td_device := d2\<rparr>)"

lemma provider_advance_step: "provider_step s s' \<Longrightarrow> advance_step e s s'"
  unfolding provider_step_def advance_step_def by blast

lemma advance_step_trans: "advance_step e a b \<Longrightarrow> advance_step e b c \<Longrightarrow> advance_step e a c"
  unfolding advance_step_def by (elim conjE exE) (auto intro: lends_trans device_inputs_trans)

lemma advance_step_put: "advance_step (dma_end_of word) s (put_device word d s)"
  unfolding advance_step_def
  by (cases word; intro conjI exI [of _ "if word then td_device (db_primary (the_bus s)) else Some d"]
      exI [of _ "if word then Some d else td_device (db_secondary (the_bus s))"])
    (simp_all add: put_device_def dma_end_of_def)

lemma got_put [simp]: "got_device word (put_device word d s) = d"
  by (simp add: got_device_def put_device_def set_device_def)

lemma provider_got:
  assumes "provider_step (put_device word d s) s'"
  shows "dma_inputs_only d (got_device word s')"
  using assms
  by (cases word) (auto simp: provider_step_def device_inputs_only_def got_device_def put_device_def dma_end_of_def)

lemma chip_bus_polite:
  assumes "providers_ok env" "memory_ok (de_memory env)"
  shows "polite_bus (dma_chip_bus env word)"
  unfolding polite_bus_def
  by (auto simp: dma_chip_bus_def Let_def case_prod_beta intro!: provider_got bus_cycle_step bus_terminal_step assms)

text \<open>What every call of the bus keeps of the world, the chip keeps.\<close>

definition bus_keeps :: "'w x86_dma_bus \<Rightarrow> ('w \<Rightarrow> bool) \<Rightarrow> bool" where
  "bus_keeps bus P \<longleftrightarrow>
     (\<forall>kind c a b d w. P w \<longrightarrow> P (snd (snd (snd (bus_cycle bus kind c a b (d, w)))))) \<and>
     (\<forall>f. bus_terminal bus = Some f \<longrightarrow> (\<forall>c d w. P w \<longrightarrow> P (snd (f c (d, w)))))"

lemma bus_keeps_cycle:
  "bus_keeps bus P \<Longrightarrow> P w \<Longrightarrow> bus_cycle bus kind c a b (d, w) = (st, b', d', w') \<Longrightarrow> P w'"
  unfolding bus_keeps_def by (metis snd_conv)

lemma keeps_transmission:
  "bus_keeps bus P \<Longrightarrow> P w \<Longrightarrow> Transmission bus k (d, w) = (ok, d', w') \<Longrightarrow> P w'"
  using bus_keeps_cycle by (fastforce simp: Transmission_def Let_def split: if_splits prod.splits)

lemma keeps_channel:
  "bus_keeps bus P \<Longrightarrow> P w \<Longrightarrow> P (snd (dma_complete_channel bus k (d, w)))"
  by (cases "bus_terminal bus")
    (auto simp: dma_complete_channel_def Let_def bus_keeps_def split: prod.splits, (metis snd_conv)+)

lemma keeps_channels:
  "bus_keeps bus P \<Longrightarrow> P w \<Longrightarrow> P (snd (fold (dma_complete_channel bus) ks (d, w)))"
proof (induction ks arbitrary: d w)
  case (Cons k ks)
  obtain d1 w1 where c: "dma_complete_channel bus k (d, w) = (d1, w1)" by (metis surj_pair)
  then have "P w1" using keeps_channel [OF Cons.prems] by (metis snd_conv)
  then show ?case using Cons c by simp
qed simp

lemma keeps_transfer:
  "bus_keeps bus P \<Longrightarrow> P w \<Longrightarrow> P (snd (dma_complete_transfer bus k m (d, w)))"
  using keeps_channels [of bus P w "if m then [0, 1] else [k]" "x86_dma_release d"]
  by (simp add: dma_complete_transfer_def Let_def case_prod_beta del: fold.simps cong: if_cong)

lemma keeps_execute_m2m:
  "bus_keeps bus P \<Longrightarrow> P w \<Longrightarrow> dma_execute_m2m bus (d, w) = (early, d', w') \<Longrightarrow> P w'"
  using bus_keeps_cycle by (fastforce simp: dma_execute_m2m_def Let_def split: if_splits prod.splits)

lemma keeps_execute_channel:
  "bus_keeps bus P \<Longrightarrow> P w \<Longrightarrow> dma_execute_channel bus k r (d, w) = (early, d', w') \<Longrightarrow> P w'"
  using keeps_transmission by (fastforce simp: dma_execute_channel_def Let_def split: if_splits prod.splits)

lemma keeps_execute:
  assumes "bus_keeps bus P" "P w"
  shows "P (snd (Execute bus k (d, w)))"
proof -
  let ?m = "k = 0 \<and> BIT_IS_SET (da_request d) (VDMA_REQUEST_DRQ 0) \<and> BIT_IS_SET (da_command d) VDMA_COMMAND_M2M"
  let ?d = "if BIT_IS_SET (da_command d) VDMA_COMMAND_R
    then d\<lparr>da_drx := (k + 1) mod VDMA_CHANNEL_COUNT\<rparr> else d"
  obtain early d1 w1 where e: "(if ?m then dma_execute_m2m bus (?d, w)
      else dma_execute_channel bus k (BIT_IS_SET (da_status d) (VDMA_STATUS_DRQ k)) (?d, w)) = (early, d1, w1)"
    by (metis prod_cases3)
  then have "P w1"
    using keeps_execute_m2m [OF assms] keeps_execute_channel [OF assms] by (metis (no_types, lifting))
  moreover have "Execute bus k (d, w) = (if early then (d1, w1) else
      (let (r, v) = (if da_flagEOP d1 then dma_complete_transfer bus k ?m (d1, w1) else (d1, w1))
       in (r\<lparr>da_flagEOP := False\<rparr>, v)))"
    unfolding Execute_def Let_def prod.case e by simp
  ultimately show ?thesis using keeps_transfer [OF assms(1)] by (simp add: case_prod_beta)
qed

lemma keeps_advance:
  assumes "bus_keeps bus P" "P w"
  shows "P (snd (x86_dma_advance bus (d, w)))"
proof -
  have "P w'" if "Execute bus k (d, w) = (d', w')" for k d' w'
    using keeps_execute [OF assms, of k d] that by simp
  then show ?thesis
    using assms(2) by (auto simp: x86_dma_advance_def Let_def split: prod.split)
qed

lemma chip_bus_keeps:
  assumes "providers_ok env" "memory_ok (de_memory env)"
  shows "bus_keeps (dma_chip_bus env word) (advance_step (dma_end_of word) s)"
proof -
  have p: "advance_step (dma_end_of word) s t" if "advance_step (dma_end_of word) s u"
    "provider_step (put_device word d u) t" for t u d
    using that advance_step_trans advance_step_put provider_advance_step by metis
  show ?thesis
    unfolding bus_keeps_def
    by (auto simp: dma_chip_bus_def Let_def case_prod_beta
        intro: p bus_cycle_step bus_terminal_step assms)
qed

lemma dma_bus_advance_step:
  assumes "providers_ok env" "memory_ok (de_memory env)"
  shows "advance_step (dma_end_of word) s (dma_bus_advance env word s)"
    and "dma_ok (got_device word s) \<Longrightarrow> dma_ok (got_device word (dma_bus_advance env word s))"
proof -
  obtain d' s' where a: "x86_dma_advance (dma_chip_bus env word) (got_device word s, s) = (d', s')" by (metis surj_pair)
  have refl: "advance_step (dma_end_of word) s s" by (simp add: provider_advance_step)
  have "advance_step (dma_end_of word) s s'"
    using keeps_advance [OF chip_bus_keeps [OF assms] refl] a by (metis snd_conv)
  then show "advance_step (dma_end_of word) s (dma_bus_advance env word s)"
    using advance_step_trans [OF _ advance_step_put] by (simp add: dma_bus_advance_def a)
  show "dma_ok (got_device word (dma_bus_advance env word s))" if "dma_ok (got_device word s)"
    using advance_ok [OF chip_bus_polite [OF assms] that a] by (simp add: dma_bus_advance_def a)
qed

section \<open>Every reachable bus\<close>

text \<open>Both controllers serve at most one channel each.\<close>

definition devices_ok :: "'p dma_bus \<Rightarrow> bool" where
  "devices_ok bus \<longleftrightarrow> (\<forall>e d. td_device (dma_at e bus) = Some d \<longrightarrow> dma_ok d)"

lemma inputs_only_ok: "dma_inputs_only d d' \<Longrightarrow> dma_ok d \<Longrightarrow> dma_ok d'"
  using core_inputs ok_core by metis

lemma device_inputs_ok: "device_inputs_only d d' \<Longrightarrow> (\<forall>x. d = Some x \<longrightarrow> dma_ok x) \<Longrightarrow> d' = Some y \<Longrightarrow> dma_ok y"
  by (auto simp: device_inputs_only_def intro: inputs_only_ok split: option.splits)

lemma devices_ok_alt: "devices_ok bus \<longleftrightarrow>
    (\<forall>d. td_device (db_primary bus) = Some d \<longrightarrow> dma_ok d) \<and>
    (\<forall>d. td_device (db_secondary bus) = Some d \<longrightarrow> dma_ok d)"
  by (auto simp: devices_ok_def dma_at_def split: dma_end.splits)

lemma advance_devices_ok:
  assumes "advance_step (dma_end_of word) s s'" "devices_ok (the_bus s)" "dma_ok (got_device word s')"
  shows "devices_ok (the_bus s')"
proof -
  obtain d1 d2 where
    D: "dma_end_of word = DMA_PRIMARY \<or> device_inputs_only (td_device (db_primary (the_bus s))) d1"
      "dma_end_of word = DMA_SECONDARY \<or> device_inputs_only (td_device (db_secondary (the_bus s))) d2"
      "db_primary (the_bus s') = (db_primary (the_bus s))\<lparr>td_device := d1\<rparr>"
      "db_secondary (the_bus s') = (db_secondary (the_bus s))\<lparr>td_device := d2\<rparr>"
    using assms(1) unfolding advance_step_def by blast
  have O: "\<forall>d. td_device (db_primary (the_bus s)) = Some d \<longrightarrow> dma_ok d"
    "\<forall>d. td_device (db_secondary (the_bus s)) = Some d \<longrightarrow> dma_ok d"
    using assms(2) by (simp_all add: devices_ok_alt)
  show ?thesis
  proof (cases word)
    case True
    then have "dma_ok d" if "d1 = Some d" for d
      using D(1) device_inputs_ok [OF _ O(1)] that by (auto simp: dma_end_of_def)
    moreover have "dma_ok d" if "d2 = Some d" for d
      using assms(3) True that D(4) by (simp add: got_device_def dma_end_of_def)
    ultimately show ?thesis by (simp add: devices_ok_alt D)
  next
    case False
    then have "dma_ok d" if "d2 = Some d" for d
      using D(2) device_inputs_ok [OF _ O(2)] that by (auto simp: dma_end_of_def)
    moreover have "dma_ok d" if "d1 = Some d" for d
      using assms(3) False that D(3) by (simp add: got_device_def dma_end_of_def)
    ultimately show ?thesis by (simp add: devices_ok_alt D)
  qed
qed

text \<open>Grants and releases.\<close>

lemma lends_devices [simp]: "lends s (grant_device e c cascade s)" "lends s (release_device e s)"
  by (simp_all add: grant_device_def release_device_def)

lemma active_idle: "dma_ok d \<Longrightarrow> \<not> sg_active_channel (x86_dma_get_signals d) < 4 \<Longrightarrow> dma_idle d"
  using active_channel(2) by (fastforce simp: dma_ok_def dma_serving_def)

lemma grant_ok: "dma_ok d \<Longrightarrow> \<not> sg_active_channel (x86_dma_get_signals d) < 4 \<Longrightarrow> c < 4 \<Longrightarrow>
    dma_ok (x86_dma_grant c cascade d)"
  using active_idle grant_serving grant_drx by (fastforce simp: dma_ok_def)

lemma release_ok: "dma_ok d \<Longrightarrow> dma_ok (x86_dma_release d)"
  using release_idle by (auto simp: dma_ok_def)

lemma select_bound: "x86_dma_select d r \<noteq> 4 \<Longrightarrow> da_drx d < 4 \<Longrightarrow> x86_dma_select d r < 4"
  using dma_select_cases [of d r] by (auto split: if_splits)

lemma pending_low: "bit (dma_pending_requests d) i \<Longrightarrow> i < 4"
proof -
  have s: "bit (VDMA_GetSTATUS_DRQS w AND v) i \<Longrightarrow> i < 4" for w v
    by (auto simp: VDMA_GetSTATUS_DRQS_def bit_and_iff bit_drop_bit_eq dest: bit_imp_le_length)
  have f: "bit (fold (\<lambda>channel pending. if dma_software_request_is_valid d channel
      then BIT_SET pending (BIT_MASK channel) else pending) ks p) i \<Longrightarrow>
      bit p i \<or> i \<in> set ks" for ks and p :: lib_u8
    by (induction ks arbitrary: p) (auto split: if_splits, force)
  show "bit (dma_pending_requests d) i \<Longrightarrow> i < 4"
    using s f [of "[0..<4]"] by (auto simp: dma_pending_requests_def Let_def split: if_splits)
qed

lemma select_pending: "dma_pending_requests d \<noteq> 0 \<Longrightarrow> da_drx d < 4 \<Longrightarrow> x86_dma_select d (dma_pending_requests d) < 4"
proof -
  assume "dma_pending_requests d \<noteq> 0" and drx: "da_drx d < 4"
  then obtain i where "bit (dma_pending_requests d) i" by (auto simp: word_neq_0_bits)
  then have "\<exists>c < 4. bit (dma_pending_requests d) c" using pending_low by blast
  then show ?thesis using dma_select_cases [OF drx, of "dma_pending_requests d"] by simp
qed

lemma sg_simps [simp]: "sg_requests (x86_dma_get_signals d) = dma_pending_requests d"
  by (simp add: x86_dma_get_signals_def)

lemma devices_ok_set:
  "devices_ok bus \<Longrightarrow> (\<forall>x. d = Some x \<longrightarrow> dma_ok x) \<Longrightarrow> devices_ok (set_device e d bus)"
  by (cases e) (auto simp: devices_ok_alt)

lemma devices_okD: "devices_ok bus \<Longrightarrow> td_device (dma_at e bus) = Some d \<Longrightarrow> dma_ok d"
  by (simp add: devices_ok_def)

lemma drx_ok: "dma_ok d \<Longrightarrow> da_drx d < 4"
  by (simp add: dma_ok_def)

lemma update_cascade_devices: "devices_ok bus \<Longrightarrow> devices_ok (x86_nxvm_board_dma_update_cascade bus)"
proof (cases "td_device (db_secondary bus)")
  case (Some d)
  assume ok: "devices_ok bus"
  have "dma_ok (x86_dma_set_request 0 b d)" for b
    using devices_okD [OF ok, of DMA_SECONDARY d] Some
    by (simp add: x86_dma_set_request_def ok_core [OF core_steps(4)])
  then show ?thesis using ok Some
    by (simp add: x86_nxvm_board_dma_update_cascade_def devices_ok_set)
qed (simp add: x86_nxvm_board_dma_update_cascade_def)

text \<open>The tick of a bus whose first controller exists.\<close>

lemma single_ok:
  assumes e: "providers_ok env" "memory_ok (de_memory env)"
    and s: "devices_ok (the_bus s)" "td_device (db_primary (the_bus s)) = Some d"
  shows "lends s (dma_advance_single env s)" "devices_ok (the_bus (dma_advance_single env s))"
proof -
  note A = dma_bus_advance_step [OF e, of False s, unfolded dma_end_of_def, simplified]
  have d: "dma_ok d" using devices_okD [OF s(1), of DMA_PRIMARY] s(2) by simp
  have a: "lends s (dma_bus_advance env False s)" "devices_ok (the_bus (dma_bus_advance env False s))"
  proof -
    show "lends s (dma_bus_advance env False s)" using A(1) by (simp add: advance_step_def)
    show "devices_ok (the_bus (dma_bus_advance env False s))"
      by (rule advance_devices_ok [of False s]) (use A d s in \<open>simp_all add: dma_end_of_def got_device_def\<close>)
  qed
  show "lends s (dma_advance_single env s)" using a by (simp add: dma_advance_single_def Let_def)
  show "devices_ok (the_bus (dma_advance_single env s))"
    using a s d grant_ok [OF d _ select_pending] drx_ok [OF d]
    by (auto simp: dma_advance_single_def Let_def grant_device_def signals_at_def device_at_def
        dma_signals_def intro!: devices_ok_set)
qed

lemma grant_pair_ok:
  assumes s: "devices_ok (the_bus s)" "td_device (db_primary (the_bus s)) = Some d"
      "td_device (db_secondary (the_bus s)) = Some d2"
    and idle: "\<not> sg_active_channel (x86_dma_get_signals d2) < 4"
      "\<not> (sg_enabled (x86_dma_get_signals d) \<and> sg_active_channel (x86_dma_get_signals d) < 4)"
  shows "lends s (dma_advance_grant s)" "devices_ok (the_bus (dma_advance_grant s))"
proof -
  have d: "dma_ok d" "dma_ok d2"
    using devices_okD [OF s(1), of DMA_PRIMARY] devices_okD [OF s(1), of DMA_SECONDARY] s by simp_all
  define first second where "first = x86_dma_get_signals d" and "second = x86_dma_get_signals d2"
  define requests where "requests = (if sg_enabled first \<and> sg_requests first \<noteq> 0
    then (sg_requests second AND 0x0e) OR (sg_requests second AND 1) else sg_requests second AND 0x0e)"
  define channel where "channel = x86_dma_select d2 requests"
  have sig: "signals_at DMA_PRIMARY s = first" "signals_at DMA_SECONDARY s = second"
    "device_at DMA_SECONDARY s = d2"
    using s by (simp_all add: signals_at_def dma_signals_def first_def second_def device_at_def)
  define s1 where "s1 = grant_device DMA_SECONDARY channel (channel = 0) s"
  have bus1: "the_bus s1 = set_device DMA_SECONDARY (Some (x86_dma_grant channel (channel = 0) d2)) (the_bus s)"
    using s by (simp add: s1_def grant_device_def)
  have eq: "dma_advance_grant s = (if channel = 4 then s
      else if channel = 0 then grant_device DMA_PRIMARY (x86_dma_select d (sg_requests first)) False s1 else s1)"
    using s bus1 by (simp add: dma_advance_grant_def sig requests_def [symmetric] channel_def [symmetric]
        s1_def [symmetric] Let_def device_at_def)
  have l1: "lends s s1" by (simp add: s1_def)
  then show "lends s (dma_advance_grant s)" using lends_trans [OF l1 lends_devices(1)] by (simp add: eq)
  have g2: "dma_ok (x86_dma_grant channel b d2)" if "channel \<noteq> 4" for b
    using that grant_ok [OF d(2) idle(1)] select_bound [OF _ drx_ok [OF d(2)]] by (simp add: channel_def)
  have first: "sg_enabled first \<and> sg_requests first \<noteq> 0" if "channel = 0"
  proof (rule ccontr)
    assume "\<not> ?thesis"
    then have "requests = sg_requests second AND 0x0e" by (auto simp: requests_def)
    then have "\<not> bit requests 0" by (simp add: bit_and_iff)
    moreover have "bit requests 0"
      using dma_select_cases [OF drx_ok [OF d(2)], of requests] that by (auto simp: channel_def split: if_splits)
    ultimately show False by simp
  qed
  have "dma_ok (x86_dma_grant (x86_dma_select d (sg_requests first)) False d)" if "channel = 0"
    by (rule grant_ok [OF d(1)])
      (use first [OF that] idle(2) select_pending drx_ok [OF d(1)] in \<open>auto simp: first_def\<close>)
  then show "devices_ok (the_bus (dma_advance_grant s))"
    using g2 s by (auto simp: eq grant_device_def bus1 intro!: devices_ok_set)
qed

lemma release_device_ok: "devices_ok (the_bus s) \<Longrightarrow> devices_ok (the_bus (release_device e s))"
  using release_ok devices_okD [of "the_bus s" e] by (auto simp: release_device_def intro!: devices_ok_set)

lemma pair_ok:
  assumes e: "providers_ok env" "memory_ok (de_memory env)"
    and s: "devices_ok (the_bus s)" "td_device (db_primary (the_bus s)) = Some d"
      "td_device (db_secondary (the_bus s)) = Some d2"
  shows "lends s (dma_advance_pair env s)" "devices_ok (the_bus (dma_advance_pair env s))"
proof -
  have d: "dma_ok d" "dma_ok d2"
    using devices_okD [OF s(1), of DMA_PRIMARY] devices_okD [OF s(1), of DMA_SECONDARY] s by simp_all
  have a: "lends s (dma_bus_advance env w s)" "devices_ok (the_bus (dma_bus_advance env w s))" for w
  proof -
    note A = dma_bus_advance_step [OF e, of w s]
    show "lends s (dma_bus_advance env w s)" using A(1) by (simp add: advance_step_def)
    show "devices_ok (the_bus (dma_bus_advance env w s))"
      by (rule advance_devices_ok [OF A(1) s(1) A(2)])
        (use d s in \<open>cases w; simp add: dma_end_of_def got_device_def\<close>)
  qed
  note g = grant_pair_ok [OF s]
  show "lends s (dma_advance_pair env s)"
    using a g s lends_trans [OF a(1) lends_devices(2)]
    by (auto simp: dma_advance_pair_def Let_def signals_at_def dma_signals_def)
  show "devices_ok (the_bus (dma_advance_pair env s))"
    using a g s release_device_ok [OF a(2)]
    by (auto simp: dma_advance_pair_def Let_def signals_at_def dma_signals_def)
qed

lemma advance_one_ok:
  assumes "providers_ok env" "memory_ok (de_memory env)" "devices_ok (the_bus s)"
    "td_device (db_primary (the_bus s)) \<noteq> None"
  shows "lends s (x86_nxvm_board_dma_advance_one env s)"
    "devices_ok (the_bus (x86_nxvm_board_dma_advance_one env s))"
  using assms single_ok [OF assms(1-3)] pair_ok [OF assms(1-3)]
  by (auto simp: x86_nxvm_board_dma_advance_one_def)

text \<open>The controllers of a bus stay where they are.\<close>

definition same_devices :: "'p dma_bus \<Rightarrow> 'p dma_bus \<Rightarrow> bool" where
  "same_devices a b \<longleftrightarrow> (\<forall>e. (td_device (dma_at e b) = None) = (td_device (dma_at e a) = None))"

lemma same_devices_alt: "same_devices a b \<longleftrightarrow>
    (td_device (db_primary b) = None) = (td_device (db_primary a) = None) \<and>
    (td_device (db_secondary b) = None) = (td_device (db_secondary a) = None)"
  by (auto simp: same_devices_def dma_at_def split: dma_end.splits)

lemma same_devices_refl [simp]: "same_devices a a"
  by (simp add: same_devices_def)

lemma same_devices_trans: "same_devices a b \<Longrightarrow> same_devices b c \<Longrightarrow> same_devices a c"
  by (simp add: same_devices_def)

lemma same_devices_set: "(d = None) = (td_device (dma_at e bus) = None) \<Longrightarrow> same_devices bus (set_device e d bus)"
  by (cases e) (auto simp: same_devices_alt)

lemma same_devices_grant [simp]: "same_devices (the_bus s) (the_bus (grant_device e c b s))"
  "same_devices (the_bus s) (the_bus (release_device e s))"
  by (simp_all add: grant_device_def release_device_def same_devices_set)

lemma same_devices_grants [simp]: "same_devices (the_bus s) (the_bus (grant_device e c b (grant_device f k a s)))"
  by (rule same_devices_trans [OF same_devices_grant(1) same_devices_grant(1)])

lemma same_devices_cascade [simp]: "same_devices bus (x86_nxvm_board_dma_update_cascade bus)"
  by (cases "td_device (db_secondary bus)")
    (simp_all add: x86_nxvm_board_dma_update_cascade_def same_devices_set)

lemma same_devices_advance:
  assumes "providers_ok env" "memory_ok (de_memory env)" "td_device (dma_at (dma_end_of word) (the_bus s)) \<noteq> None"
  shows "same_devices (the_bus s) (the_bus (dma_bus_advance env word s))"
proof -
  note A = dma_bus_advance_step(1) [OF assms(1,2), of word s]
  have "td_device (dma_at (dma_end_of word) (the_bus (dma_bus_advance env word s))) \<noteq> None"
    by (simp add: dma_bus_advance_def put_device_def set_device_def case_prod_beta)
  then show ?thesis
    using A assms(3)
    by (cases word) (auto simp: advance_step_def dma_end_of_def same_devices_alt device_inputs_only_def
        split: option.splits)
qed

lemma same_devices_one:
  assumes "providers_ok env" "memory_ok (de_memory env)" "td_device (db_primary (the_bus s)) \<noteq> None"
  shows "same_devices (the_bus s) (the_bus (x86_nxvm_board_dma_advance_one env s))"
proof -
  have p: "same_devices (the_bus s) (the_bus (dma_bus_advance env False s))"
    by (rule same_devices_advance [OF assms(1,2)]) (use assms(3) in \<open>simp add: dma_end_of_def\<close>)
  show ?thesis
  proof (cases "td_device (db_secondary (the_bus s))")
    case None
    then show ?thesis using p
      by (simp add: x86_nxvm_board_dma_advance_one_def dma_advance_single_def Let_def)
  next
    case (Some d)
    have q: "same_devices (the_bus s) (the_bus (dma_bus_advance env True s))"
      by (rule same_devices_advance [OF assms(1,2)]) (use Some in \<open>simp add: dma_end_of_def\<close>)
    have g: "same_devices (the_bus s) (the_bus (dma_advance_grant s))"
      by (simp add: dma_advance_grant_def Let_def)
    show ?thesis using p q g Some same_devices_trans [OF p same_devices_grant(2)]
      by (simp add: x86_nxvm_board_dma_advance_one_def dma_advance_pair_def Let_def)
  qed
qed

definition dma_bus_ok :: "'p dma_bus \<Rightarrow> bool" where
  "dma_bus_ok bus \<longleftrightarrow> td_device (db_primary bus) \<noteq> None \<and> devices_ok bus \<and> cascade_ok bus"

lemma dma_tick_ok:
  assumes e: "providers_ok env" "memory_ok (de_memory env)" and ok: "dma_bus_ok (the_bus s)"
  shows "lends s (dma_tick env s)" "dma_bus_ok (the_bus (dma_tick env s))"
proof -
  let ?t = "x86_nxvm_board_dma_advance_one env s"
  have s: "devices_ok (the_bus s)" "td_device (db_primary (the_bus s)) \<noteq> None"
    using ok by (simp_all add: dma_bus_ok_def)
  note O = advance_one_ok [OF e s]
  show "lends s (dma_tick env s)"
    unfolding dma_tick_def Let_def by (rule lends_trans [OF O(1) lends_set_bus])
  have "same_devices (the_bus s) (the_bus (dma_tick env s))"
    using same_devices_trans [OF same_devices_one [OF e s(2)] same_devices_cascade]
    by (simp add: dma_tick_def Let_def)
  then show "dma_bus_ok (the_bus (dma_tick env s))"
    using s(2) O(2) tick_cascade_ok [of env s]
    by (simp add: dma_bus_ok_def dma_tick_def Let_def update_cascade_devices same_devices_alt)
qed

lemma ticks_ok:
  assumes e: "providers_ok env" "memory_ok (de_memory env)" and ok: "dma_bus_ok (the_bus s)"
  shows "lends s ((dma_tick env ^^ n) s) \<and> dma_bus_ok (the_bus ((dma_tick env ^^ n) s))"
proof (induction n)
  case (Suc n)
  then show ?case using dma_tick_ok [OF e] lends_trans by (metis comp_apply funpow.simps(2))
qed (simp add: ok)

lemma transaction_advance_ok:
  assumes "providers_ok env" "memory_ok (de_memory env)" "dma_bus_ok (the_bus s)"
  shows "lends s (x86_nxvm_board_dma_advance_transaction env n s)"
    "dma_bus_ok (the_bus (x86_nxvm_board_dma_advance_transaction env n s))"
  using ticks_ok [OF assms, of "unat n"] assms(3)
  by (simp_all add: x86_nxvm_board_dma_advance_transaction_def ticks_loop_exact)

section \<open>Reachable states\<close>

inductive dma_bus_reachable :: "('cb, 'p, 'x) dma_env \<Rightarrow> ('cb, 'p, 'x) dma_state \<Rightarrow> bool" for env where
  dma_bus_created: "x86_nxvm_board_dma_initialize bus_allocated primary_allocated secondary_allocated
      install machine_present n plain = (LIB_STATUS_OK, Some bus) \<Longrightarrow>
    dma_bus_reachable env (m, bus, x)"
| dma_bus_world: "dma_bus_reachable env s \<Longrightarrow> dma_bus_reachable env (m, the_bus s, x)"
| dma_bus_was_reset: "dma_bus_reachable env s \<Longrightarrow>
    dma_bus_reachable env (set_bus (x86_nxvm_board_dma_reset (the_bus s)) s)"
| dma_bus_read: "dma_bus_reachable env s \<Longrightarrow>
    dma_port_read port (Some out) (Some (the_bus s)) = (status, out', Some bus) \<Longrightarrow>
    dma_bus_reachable env (set_bus bus s)"
| dma_bus_written: "dma_bus_reachable env s \<Longrightarrow> dma_port_write port v (the_bus s) = (status, bus) \<Longrightarrow>
    dma_bus_reachable env (set_bus bus s)"
| dma_bus_bound: "dma_bus_reachable env s \<Longrightarrow>
    x86_nxvm_board_dma_bind_channel drq provider owner out (Some (the_bus s)) counter =
      (status, out', Some bus, counter') \<Longrightarrow>
    dma_bus_reachable env (set_bus bus s)"
| dma_bus_asserted: "dma_bus_reachable env s \<Longrightarrow>
    x86_nxvm_board_dma_request_assert binding (Some (the_bus s)) = Some bus \<Longrightarrow>
    dma_bus_reachable env (set_bus bus s)"
| dma_bus_deasserted: "dma_bus_reachable env s \<Longrightarrow>
    x86_nxvm_board_dma_request_deassert binding (Some (the_bus s)) = Some bus \<Longrightarrow>
    dma_bus_reachable env (set_bus bus s)"
| dma_bus_terminated: "dma_bus_reachable env s \<Longrightarrow>
    x86_nxvm_board_dma_request_terminate binding (Some (the_bus s)) = Some bus \<Longrightarrow>
    dma_bus_reachable env (set_bus bus s)"
| dma_bus_advanced: "dma_bus_reachable env s \<Longrightarrow>
    dma_bus_reachable env (x86_nxvm_board_dma_advance_transaction env n s)"

lemma signals_reset [simp]: "\<not> cascade_request (x86_dma_get_signals (x86_dma_reset d))"
  by (simp add: cascade_request_def x86_dma_get_signals_def x86_dma_reset_def dma_pending_requests_def
      VDMA_GetSTATUS_DRQS_def Let_def BIT_IS_SET_def)

lemma status_reset [simp]: "da_status (x86_dma_reset d) = 0"
  by (simp add: x86_dma_reset_def)

lemma dma_bus_ok_reset: "dma_bus_ok bus \<Longrightarrow> dma_bus_ok (x86_nxvm_board_dma_reset bus)"
  by (auto simp: dma_bus_ok_def x86_nxvm_board_dma_reset_def x86_nxvm_board_dma_controller_reset_def
      devices_ok_alt cascade_ok_def dma_signals_def dma_reset_ok)

lemma dma_bus_ok_created:
  assumes "x86_nxvm_board_dma_initialize a b c install p n plain = (LIB_STATUS_OK, Some bus)"
  shows "dma_bus_ok bus"
  using assms
  by (auto simp: x86_nxvm_board_dma_initialize_def Let_def zero_controller_def dma_bus_ok_def
      devices_ok_alt cascade_ok_def dma_signals_def dma_reset_ok split: if_splits)

text \<open>Register reads change no signal.\<close>

lemma high_nibble_clear: "drop_bit 4 (BIT_CLEAR (w :: lib_u8) 0x0f AND 0xf0) = drop_bit 4 (w AND 0xf0)"
proof -
  have m: "(0x0f :: lib_u8) = mask 4" "(0xf0 :: lib_u8) = NOT (mask 4)" by (simp_all add: mask_eq_exp_minus_1)
  show ?thesis unfolding m BIT_CLEAR_def by (rule bit_word_eqI) (auto simp: bit_simps)
qed

lemma bit_clear_low: "bit (BIT_CLEAR (w :: lib_u8) 0x0f) 4 = bit w 4"
proof -
  have m: "(0x0f :: lib_u8) = mask 4" by (simp add: mask_eq_exp_minus_1)
  show ?thesis unfolding m BIT_CLEAR_def by (auto simp: bit_simps)
qed

lemma signals_cong:
  assumes "VDMA_GetSTATUS_DRQS (da_status d') = VDMA_GetSTATUS_DRQS (da_status d)" "da_mask d' = da_mask d"
    "da_request d' = da_request d" "da_mode d' = da_mode d" "da_command d' = da_command d" "da_isr d' = da_isr d"
  shows "x86_dma_get_signals d' = x86_dma_get_signals d"
proof -
  have "dma_software_request_is_valid d' = dma_software_request_is_valid d"
    using assms by (simp add: dma_software_request_is_valid_def fun_eq_iff)
  then show ?thesis using assms by (simp add: x86_dma_get_signals_def dma_pending_requests_def Let_def)
qed

lemma read_signals:
  "x86_dma_get_signals (snd (x86_dma_read_register k v d)) = x86_dma_get_signals d"
  "bit (da_status (snd (x86_dma_read_register k v d))) 4 = bit (da_status d) 4"
  by (rule signals_cong; simp add: x86_dma_read_register_def dma_read_address_def dma_read_count_def
      VDMA_GetSTATUS_DRQS_def high_nibble_clear [simplified])
    (simp add: x86_dma_read_register_def dma_read_address_def dma_read_count_def bit_clear_low)

lemma dma_bus_ok_device:
  assumes "dma_bus_ok bus" "td_device (dma_at e bus) = Some d" "dma_ok d'"
    "x86_dma_get_signals d' = x86_dma_get_signals d" "bit (da_status d') 4 = bit (da_status d) 4"
  shows "dma_bus_ok (set_device e (Some d') bus)"
  using assms
  by (cases e) (auto simp: dma_bus_ok_def cascade_ok_def dma_signals_def intro!: devices_ok_set)

lemma read_device_ok:
  assumes "dma_bus_ok bus"
  shows "dma_bus_ok (snd (dma_read_device e k v bus))"
proof (cases "td_device (dma_at e bus)")
  case (Some d)
  then have "dma_ok d" using assms devices_okD by (auto simp: dma_bus_ok_def)
  then have "dma_bus_ok (set_device e (Some (snd (x86_dma_read_register k v d))) bus)"
    by (intro dma_bus_ok_device [OF assms Some] read_register_ok read_signals)
  then show ?thesis by (simp add: dma_read_device_def Some case_prod_beta)
qed (simp add: dma_read_device_def assms)

lemma port_read_ok:
  assumes "dma_bus_ok bus" "dma_port_read port (Some out) (Some bus) = (status, out', Some bus')"
  shows "dma_bus_ok bus'"
  using assms read_device_ok [OF assms(1)]
  by (auto simp: dma_port_read_def Let_def split: if_splits prod.splits) (metis snd_conv)+

lemma dma_bus_ok_data: "dma_bus_ok (set_data e f bus) = dma_bus_ok bus"
  by (cases e) (simp_all add: dma_bus_ok_def cascade_ok_def devices_ok_alt set_data_def dma_signals_def)

lemma dma_bus_ok_cascade:
  "td_device (db_primary bus) \<noteq> None \<Longrightarrow> devices_ok bus \<Longrightarrow> dma_bus_ok (x86_nxvm_board_dma_update_cascade bus)"
  using same_devices_cascade [of bus]
  by (simp add: dma_bus_ok_def update_cascade_devices update_cascade_ok same_devices_alt)

lemma dma_bus_ok_set_cascade:
  assumes "dma_bus_ok bus" "\<And>d. td_device (dma_at e bus) = Some d \<Longrightarrow> dma_ok (f d)"
  shows "dma_bus_ok (x86_nxvm_board_dma_update_cascade
    (set_device e (map_option f (td_device (dma_at e bus))) bus))"
  by (rule dma_bus_ok_cascade)
    (use assms in \<open>cases e; auto simp: dma_bus_ok_def intro!: devices_ok_set\<close>)+

lemma port_write_ok:
  assumes "dma_bus_ok bus"
  shows "dma_bus_ok (snd (dma_port_write port v bus))"
proof -
  have "dma_bus_ok (x86_nxvm_board_dma_update_cascade (set_device e
      (map_option (x86_dma_write_register k b) (td_device (dma_at e bus))) bus))" for e k b
  proof (rule dma_bus_ok_set_cascade [OF assms])
    fix d assume d: "td_device (dma_at e bus) = Some d"
    show "dma_ok (x86_dma_write_register k b d)"
      using devices_okD [OF _ d] assms by (simp add: dma_bus_ok_def dma_write_register_ok)
  qed
  from this [of DMA_PRIMARY] this [of DMA_SECONDARY] show ?thesis
    by (simp add: dma_port_write_def Let_def dma_bus_ok_data assms)
qed

lemma set_drq_ok:
  assumes "dma_bus_ok bus"
  shows "dma_bus_ok (x86_nxvm_board_dma_set_drq c b bus)"
proof -
  have "dma_ok (x86_dma_set_request k b d)" if "td_device (dma_at e bus) = Some d" for k e d
    using devices_okD [OF _ that] assms
    by (simp add: dma_bus_ok_def x86_dma_set_request_def ok_core [OF core_steps(4)])
  then have "dma_bus_ok (x86_nxvm_board_dma_update_cascade (set_device e
      (map_option (x86_dma_set_request k b) (td_device (dma_at e bus))) bus))" for e k
    by (rule dma_bus_ok_set_cascade [OF assms])
  from this [of DMA_PRIMARY] this [of DMA_SECONDARY] show ?thesis
    using assms by (cases "c < 4") (auto simp: x86_nxvm_board_dma_set_drq_def Let_def split: option.split)
qed

lemma terminate_signals: "x86_dma_get_signals (x86_dma_terminate d) = x86_dma_get_signals d"
  "da_status (x86_dma_terminate d) = da_status d" "dma_ok (x86_dma_terminate d) = dma_ok d"
  by (rule signals_cong; simp add: x86_dma_terminate_def)
    (simp_all add: x86_dma_terminate_def ok_core [OF core_steps(3)])

lemma terminate_ok:
  assumes "dma_bus_ok bus" "x86_nxvm_board_dma_request_terminate binding (Some bus) = Some bus'"
  shows "dma_bus_ok bus'"
proof -
  have "dma_bus_ok (set_device e (Some (x86_dma_terminate d)) bus)" if "td_device (dma_at e bus) = Some d" for e d
    by (rule dma_bus_ok_device [OF assms(1) that])
      (use devices_okD [OF _ that] assms(1) in \<open>simp_all add: dma_bus_ok_def terminate_signals\<close>)
  then show ?thesis using assms
    by (cases binding; cases "drq_line (rb_channel (the binding))";
        cases "td_device (dma_at (fst (the (drq_line (rb_channel (the binding))))) bus)")
      (auto simp: x86_nxvm_board_dma_request_terminate_def split: if_splits)
qed

lemma bind_ok:
  assumes "dma_bus_ok bus"
    "x86_nxvm_board_dma_bind_channel drq provider owner out (Some bus) counter = (status, out', Some bus', counter')"
  shows "dma_bus_ok bus'"
proof -
  have "td_device (db_primary bus') = td_device (db_primary bus) \<and>
      td_device (db_secondary bus') = td_device (db_secondary bus)"
  proof (cases "\<exists>given cell e c. provider = Some given \<and> out = Some cell \<and> drq_line drq = Some (e, c)")
    case False
    then have "bus' = bus" using assms(2)
      by (simp add: x86_nxvm_board_dma_bind_channel_def split: option.splits prod.splits)
    then show ?thesis by simp
  next
    case True
    then obtain given cell e c where eqs: "provider = Some given" "out = Some cell" "drq_line drq = Some (e, c)"
      by blast
    obtain token ctr where t: "(if td_request_token (db_primary bus) = 0
        then x86_nxvm_board_dma_request_token_allocate counter
        else (td_request_token (db_primary bus), counter)) = (token, ctr)" by (metis surj_pair)
    show ?thesis
      using assms(2) unfolding x86_nxvm_board_dma_bind_channel_def eqs option.case prod.case Let_def t
      by (cases e) (auto split: if_splits)
  qed
  then show ?thesis using assms(1) by (simp add: dma_bus_ok_def devices_ok_alt cascade_ok_def)
qed

lemma dma_bus_reachable_ok:
  "dma_bus_reachable env s \<Longrightarrow> providers_ok env \<Longrightarrow> memory_ok (de_memory env) \<Longrightarrow> dma_bus_ok (the_bus s)"
proof (induction rule: dma_bus_reachable.induct)
  case (dma_bus_created a b c install p n plain bus m x)
  then show ?case using dma_bus_ok_created by simp
next
  case (dma_bus_read s port out status out' bus)
  then show ?case using port_read_ok by simp
next
  case (dma_bus_written s port v status bus)
  then show ?case using port_write_ok [of "the_bus s" port v] by simp
next
  case (dma_bus_bound s drq provider owner out counter status out' bus counter')
  then show ?case using bind_ok by simp
next
  case (dma_bus_asserted s binding bus)
  then show ?case
    by (auto simp: x86_nxvm_board_dma_request_assert_def dma_request_change_def set_drq_ok
        split: option.splits if_splits)
next
  case (dma_bus_deasserted s binding bus)
  then show ?case
    by (auto simp: x86_nxvm_board_dma_request_deassert_def dma_request_change_def set_drq_ok
        split: option.splits if_splits)
next
  case (dma_bus_terminated s binding bus)
  then show ?case using terminate_ok by simp
qed (simp_all add: dma_bus_ok_reset transaction_advance_ok)

section \<open>A cascade that is never given up\<close>

text \<open>
  The second controller leaves its cascade service only when the tick sees the first one finish.
  A first controller that is cleared while it is served has nothing left to finish.
\<close>

definition cascade_orphaned :: "'p dma_bus \<Rightarrow> bool" where
  "cascade_orphaned bus \<longleftrightarrow> (\<exists>d d2. td_device (db_primary bus) = Some d \<and> dma_idle d \<and>
     td_device (db_secondary bus) = Some d2 \<and> dma_serving 0 d2)"

lemma request_core [simp]: "dma_core (x86_dma_set_request k b d) = dma_core d"
  by (simp add: x86_dma_set_request_def)

lemma orphaned_device:
  assumes "cascade_orphaned bus" "td_device (dma_at e bus) = Some d" "dma_core d' = dma_core d"
  shows "cascade_orphaned (set_device e (Some d') bus)"
  using assms core_idle [OF assms(3)] core_serving [OF assms(3)]
  by (cases e) (auto simp: cascade_orphaned_def)

lemma orphaned_cascade: "cascade_orphaned bus \<Longrightarrow> cascade_orphaned (x86_nxvm_board_dma_update_cascade bus)"
  using orphaned_device [of bus DMA_SECONDARY]
  by (auto simp: x86_nxvm_board_dma_update_cascade_def split: option.split)

lemma orphaned_drq:
  assumes "cascade_orphaned bus"
  shows "cascade_orphaned (x86_nxvm_board_dma_set_drq c b bus)"
proof -
  have "cascade_orphaned (x86_nxvm_board_dma_update_cascade (set_device e (Some (x86_dma_set_request k b d)) bus))"
    if "td_device (dma_at e bus) = Some d" for e k d
    by (intro orphaned_cascade orphaned_device [OF assms that]) simp
  then show ?thesis using assms by (simp add: x86_nxvm_board_dma_set_drq_def Let_def split: option.split)
qed

lemma orphaned_clear:
  assumes "td_device (db_primary bus) = Some d" "td_device (db_secondary bus) = Some d2" "dma_serving 0 d2"
  shows "cascade_orphaned (snd (dma_port_write 0x0d v bus))"
proof -
  have "dma_idle (x86_dma_write_register 13 b d)" for b
    by (simp add: x86_dma_write_register_def dma_idle_def x86_dma_reset_def)
  then have "cascade_orphaned (set_device DMA_PRIMARY (Some (x86_dma_write_register 13 b d)) bus)" for b
    using assms by (auto simp: cascade_orphaned_def)
  then show ?thesis
    using assms(1) by (simp add: dma_port_write_def dma_scratch_port_def dma_spare_port_def Let_def orphaned_cascade)
qed

lemma orphaned_stays: "cascade_orphaned (the_bus s) \<Longrightarrow> x86_nxvm_board_dma_advance_one env s = s"
  using active_channel
  by (fastforce simp: cascade_orphaned_def x86_nxvm_board_dma_advance_one_def dma_advance_pair_def Let_def
      signals_at_def dma_signals_def)

theorem dma_master_clear_orphans_cascade:
  assumes "td_device (db_primary bus) = Some d" "td_device (db_secondary bus) = Some d2" "dma_serving 0 d2"
    "the_bus s = fold (\<lambda>(line, asserted). x86_nxvm_board_dma_set_drq line asserted) requests
       (snd (dma_port_write 0x0d v bus))"
  shows "x86_nxvm_board_dma_advance_one env s = s"
proof -
  have "cascade_orphaned (fold (\<lambda>(line, asserted). x86_nxvm_board_dma_set_drq line asserted) requests b)"
    if "cascade_orphaned b" for b
    using that by (induction requests arbitrary: b) (auto simp: orphaned_drq)
  then show ?thesis using orphaned_stays orphaned_clear [OF assms(1-3)] assms(4) by metis
qed

section \<open>Properties and witnesses\<close>

text \<open>C5: on every reachable DMA bus, whatever its devices do within their interface, the request on
  channel 0 of the second controller is exactly the cascade output of the first one (enabled, and
  requesting or being served), and each controller serves at most one channel.\<close>

theorem dma_bus_invariant:
  assumes "dma_bus_reachable env s" "providers_ok env" "memory_ok (de_memory env)"
  shows "(\<forall>second. td_device (db_secondary (the_bus s)) = Some second \<longrightarrow>
      bit (da_status second) 4 = cascade_request (dma_signals (td_device (db_primary (the_bus s))))) \<and>
    (\<forall>e device. td_device (dma_at e (the_bus s)) = Some device \<longrightarrow>
      da_drx device < 4 \<and> (dma_idle device \<or> (\<exists>c. dma_serving c device)))"
  using dma_bus_reachable_ok [OF assms]
  by (auto simp: dma_bus_ok_def cascade_ok_def devices_ok_def dma_ok_def)

text \<open>C13: leaving the service loop as soon as both controllers are quiet changes nothing: the advance by
  any number of ticks is exactly that many single ticks.\<close>

theorem dma_early_exit_exact:
  assumes "td_device (db_primary (the_bus s)) \<noteq> None"
  shows "x86_nxvm_board_dma_advance_transaction env n s = (dma_tick env ^^ unat n) s"
  using assms by (auto simp: x86_nxvm_board_dma_advance_transaction_def ticks_loop_exact)

text \<open>A byte written to any of the sixteen page ports reads back, and it is the page of the one
  channel the port belongs to, with the standard page registers and with the plain scratch bytes
  alike; the pages of all other channels stay.\<close>

theorem dma_page_roundtrip:
  assumes "port \<in> set [0x80, 0x81, 0x82, 0x83, 0x84, 0x85, 0x86, 0x87, 0x88, 0x89, 0x8a, 0x8b, 0x8c, 0x8d, 0x8e, 0x8f]"
    "channel < 4" "dma_port_write port v bus = (status, bus')"
  shows "dma_port_read port (Some out) (Some bus') =
      (LIB_STATUS_OK, Some (out AND NOT 0xff OR ucast (ucast v :: lib_u8)), Some bus') \<and>
    dma_page word channel bus' = (if port = dma_page_port word channel then ucast v else dma_page word channel bus)"
  using page_port_read [OF assms(1), of out v bus] page_port_write [OF assms(1,2), of word v bus] assms(3) by simp

text \<open>A byte cycle addresses its page times 64 KiB plus the address, a word cycle an even address in
  a page of 128 KiB, and neither leaves the 24 bits of the address bus nor its page.\<close>

theorem dma_physical_exact:
  "unat (dma_physical False page address) = unat page * 2 ^ 16 + unat address \<and>
   unat (dma_physical True page address) = (unat page div 2) * 2 ^ 17 + 2 * unat address \<and>
   unat (dma_physical word page address) + 1 < 2 ^ 24 + (if word then 0 else 1) \<and>
   unat (dma_physical False page address) div 2 ^ 16 = unat page \<and>
   unat (dma_physical True page address) div 2 ^ 17 = unat page div 2"
proof -
  have b: "unat page < 2 ^ 8" "unat address < 2 ^ 16"
    using unsigned_less [of page, where 'a = nat] unsigned_less [of address, where 'a = nat] by simp_all
  then have "unat page div 2 < 2 ^ 7" "unat page div 2 \<le> 127" by simp_all
  with b show ?thesis by (cases word) (simp_all add: dma_physical_byte dma_physical_word)
qed

text \<open>C14: the DMA service gives the bus back as it found it: over any number of ticks no guest time
  passes, the hold is unchanged, no refresh cycle begins or ends, and no transaction is left open.\<close>

theorem dma_gives_bus_back:
  assumes "providers_ok env" "memory_ok (de_memory env)" "dma_bus_reachable env s"
    "x86_nxvm_board_dma_advance_transaction env n s = s'"
  shows "mc_elapsed_ticks (fst s') = mc_elapsed_ticks (fst s) \<and> bus_lent (fst s) (fst s') \<and>
    (core_ok s \<longrightarrow> core_ok s')"
  using transaction_advance_ok(1) [OF assms(1,2) dma_bus_reachable_ok [OF assms(3,1,2)], of n] assms(4)
  by (auto simp: lends_def)

text \<open>Memory that keeps a log of its writes, devices that do nothing, and a bus of two controllers.\<close>

definition demo_memory :: "('p dma_bus \<times> (lib_u32 \<times> lib_u16) list) dma_memory" where
  "demo_memory = \<lparr>dm_query = (\<lambda>a n is_write w. (LIB_STATUS_OK, w)), dm_read = (\<lambda>a n v w. (LIB_STATUS_OK, 0xa5, w)),
     dm_write = (\<lambda>a n v w. (LIB_STATUS_OK, fst w, snd w @ [(a, v)]))\<rparr>"

definition demo_dma_env :: "(unit, unit, (lib_u32 \<times> lib_u16) list) dma_env" where
  "demo_dma_env = \<lparr>de_memory = demo_memory, de_provider = (\<lambda>p owner v s. (v, s))\<rparr>"

definition demo_dma_bus :: "unit dma_bus" where
  "demo_dma_bus = the (snd (x86_nxvm_board_dma_initialize True True True (\<lambda>_. LIB_STATUS_OK) True 2 False))"

lemma demo_env_ok: "providers_ok demo_dma_env" "memory_ok (de_memory demo_dma_env)"
  by (simp_all add: providers_ok_def memory_ok_def demo_dma_env_def demo_memory_def)

lemma demo_bus_created:
  "x86_nxvm_board_dma_initialize True True True (\<lambda>_. LIB_STATUS_OK) True 2 False = (LIB_STATUS_OK, Some demo_dma_bus)"
  by (simp add: demo_dma_bus_def x86_nxvm_board_dma_initialize_def Let_def)

lemma demo_bus_reachable: "dma_bus_reachable demo_dma_env (m, demo_dma_bus, x)"
  by (rule dma_bus_created [OF demo_bus_created])

lemma demo_bus_devices: "td_device (db_primary demo_dma_bus) \<noteq> None" "td_device (db_secondary demo_dma_bus) \<noteq> None"
  by (simp_all add: demo_dma_bus_def x86_nxvm_board_dma_initialize_def Let_def zero_controller_def)

theorem dma_bus_invariant_witness:
  "bit (da_status (the (td_device (db_secondary demo_dma_bus)))) 4 =
     cascade_request (dma_signals (td_device (db_primary demo_dma_bus))) \<and>
   da_drx (the (td_device (db_primary demo_dma_bus))) < 4"
  using dma_bus_invariant [OF demo_bus_reachable [where m = undefined and x = "[]"] demo_env_ok]
    demo_bus_devices by (auto dest: spec [of _ DMA_PRIMARY])

theorem dma_early_exit_exact_witness:
  "x86_nxvm_board_dma_advance_transaction demo_dma_env 3 (undefined, demo_dma_bus, []) =
    dma_tick demo_dma_env (dma_tick demo_dma_env (dma_tick demo_dma_env (undefined, demo_dma_bus, [])))"
proof -
  have n: "unat (3 :: lib_u64) = Suc (Suc (Suc 0))" by simp
  show ?thesis
    using dma_early_exit_exact [where s = "(undefined, demo_dma_bus, [])" and env = demo_dma_env and n = 3]
      demo_bus_devices(1)
    unfolding n by simp
qed

theorem dma_page_roundtrip_witness:
  "dma_page False 2 (snd (dma_port_write 0x81 0x3c demo_dma_bus)) = 0x3c"
  using dma_page_roundtrip [where port = "0x81" and channel = 2 and v = "0x3c" and bus = demo_dma_bus
      and status = "fst (dma_port_write 0x81 0x3c demo_dma_bus)" and out = 0 and word = False
      and bus' = "snd (dma_port_write 0x81 0x3c demo_dma_bus)"]
  by (simp add: dma_page_port_def)

theorem dma_gives_bus_back_witness:
  "bus_lent undefined (fst (x86_nxvm_board_dma_advance_transaction demo_dma_env 5 (undefined, demo_dma_bus, [])))"
  using dma_gives_bus_back [where env = demo_dma_env and s = "(undefined, demo_dma_bus, [])" and n = 5,
      OF demo_env_ok demo_bus_reachable refl] by simp

end
