(* ===== verification/Pic.thy ===== *)
theory Pic
  imports Prelude
begin

unbundle bit_operations_syntax

text \<open>
  The 8259A interrupt controller, \<^verbatim>\<open>src/src/x86-nxvm/chips/pic8259/pic.c\<close> and
  \<^verbatim>\<open>pic.h\<close>. The record flattens \<^verbatim>\<open>struct x86_pic\<close> with its nested
  \<^verbatim>\<open>t_pic_data\<close>; register fields keep their eight bits, the two timing arrays are functions
  from the line number. A local \<^verbatim>\<open>lib_u8\<close> that only ever holds a line number (0 to 8) is a
  natural number. The priority base \<open>pic_irx\<close> is below 8 in every reachable state, which is part
  of the invariant proved here.
\<close>

section \<open>State\<close>

datatype t_pic_init_status = ICW1 | ICW2 | ICW3 | ICW4 | OCW1

record x86_pic =
  pic_irr :: lib_u8
  pic_imr :: lib_u8
  pic_isr :: lib_u8
  pic_icw1 :: lib_u8
  pic_icw2 :: lib_u8
  pic_icw3 :: lib_u8
  pic_icw4 :: lib_u8
  pic_ocw2 :: lib_u8
  pic_ocw3 :: lib_u8
  pic_status :: t_pic_init_status
  pic_irx :: lib_u8
  pic_cascade_irr :: lib_u8
  pic_unmask_delivery_ticks :: "nat \<Rightarrow> lib_u32"
  pic_unmask_remaining_ticks :: "nat \<Rightarrow> lib_u64"
  pic_input_levels :: lib_u8
  pic_cascade_master :: bool

record x86_pic_request =
  req_line :: lib_u8
  req_vector :: lib_u8
  req_cascade :: bool

record x86_pic_register_state =
  rs_irr :: lib_u8
  rs_imr :: lib_u8
  rs_isr :: lib_u8

abbreviation VPIC_MAX_IRQ_COUNT :: nat where "VPIC_MAX_IRQ_COUNT \<equiv> 8"
abbreviation VPIC_IRQ :: "nat \<Rightarrow> lib_u8" where "VPIC_IRQ n \<equiv> BIT_MASK n"
abbreviation VPIC_ICW1_IC4 :: lib_u8 where "VPIC_ICW1_IC4 \<equiv> 0x01"
abbreviation VPIC_ICW1_SNGL :: lib_u8 where "VPIC_ICW1_SNGL \<equiv> 0x02"
abbreviation VPIC_ICW1_LTIM :: lib_u8 where "VPIC_ICW1_LTIM \<equiv> 0x08"
abbreviation VPIC_ICW1_I :: lib_u8 where "VPIC_ICW1_I \<equiv> 0x10"
abbreviation VPIC_ICW2_VALID :: lib_u8 where "VPIC_ICW2_VALID \<equiv> 0xf8"
abbreviation VPIC_ICW4_AEOI :: lib_u8 where "VPIC_ICW4_AEOI \<equiv> 0x02"
abbreviation VPIC_ICW4_SFNM :: lib_u8 where "VPIC_ICW4_SFNM \<equiv> 0x10"
abbreviation VPIC_ICW4_VALID :: lib_u8 where "VPIC_ICW4_VALID \<equiv> 0x1f"
abbreviation VPIC_OCW2_L :: lib_u8 where "VPIC_OCW2_L \<equiv> 0x07"
abbreviation VPIC_OCW2_R :: lib_u8 where "VPIC_OCW2_R \<equiv> 0x80"
abbreviation VPIC_OCW3_RIS :: lib_u8 where "VPIC_OCW3_RIS \<equiv> 0x01"
abbreviation VPIC_OCW3_RR :: lib_u8 where "VPIC_OCW3_RR \<equiv> 0x02"
abbreviation VPIC_OCW3_P :: lib_u8 where "VPIC_OCW3_P \<equiv> 0x04"
abbreviation VPIC_OCW3_I :: lib_u8 where "VPIC_OCW3_I \<equiv> 0x08"
abbreviation VPIC_OCW3_SMM :: lib_u8 where "VPIC_OCW3_SMM \<equiv> 0x20"
abbreviation VPIC_OCW3_ESMM :: lib_u8 where "VPIC_OCW3_ESMM \<equiv> 0x40"
abbreviation VPIC_POLL_I :: lib_u8 where "VPIC_POLL_I \<equiv> 0x80"

section \<open>Priority\<close>

definition GetRegTopId :: "x86_pic \<Rightarrow> lib_u8 \<Rightarrow> nat" where
  "GetRegTopId rpic reg =
     (if reg = 0 then 8
      else
        let rotated = push_bit (VPIC_MAX_IRQ_COUNT - unat (pic_irx rpic)) reg
              OR drop_bit (unat (pic_irx rpic)) reg;
            k = scan_set_bit VPIC_MAX_IRQ_COUNT rotated 0
        in (k + unat (pic_irx rpic)) mod VPIC_MAX_IRQ_COUNT)"

definition pic_priority_rank :: "x86_pic \<Rightarrow> nat \<Rightarrow> nat" where
  "pic_priority_rank pic k =
     (k + VPIC_MAX_IRQ_COUNT - unat (pic_irx pic)) mod VPIC_MAX_IRQ_COUNT"

definition pic_effective_isr :: "x86_pic \<Rightarrow> lib_u8" where
  "pic_effective_isr pic =
     (if BIT_IS_SET (pic_ocw3 pic) VPIC_OCW3_SMM then pic_isr pic AND NOT (pic_imr pic)
      else pic_isr pic)"

definition pic_request_can_interrupt :: "x86_pic \<Rightarrow> nat \<Rightarrow> bool" where
  "pic_request_can_interrupt pic request =
     (let service = GetRegTopId pic (pic_effective_isr pic)
      in if service = VPIC_MAX_IRQ_COUNT then True
         else pic_priority_rank pic request < pic_priority_rank pic service)"

definition pic_pending_requests :: "x86_pic \<Rightarrow> lib_u8" where
  "pic_pending_requests pic = pic_irr pic OR pic_cascade_irr pic"

definition pic_eoi_service :: "x86_pic \<Rightarrow> nat" where
  "pic_eoi_service pic = GetRegTopId pic (pic_effective_isr pic)"

definition pic_is_level :: "x86_pic \<Rightarrow> bool" where
  "pic_is_level pic = BIT_IS_SET (pic_icw1 pic) VPIC_ICW1_LTIM"

fun x86_pic_capture_registers ::
  "x86_pic ptr \<Rightarrow> x86_pic_register_state ptr \<Rightarrow> lib_status \<times> x86_pic_register_state ptr" where
  "x86_pic_capture_registers (Some pic) (Some _) =
     (LIB_STATUS_OK, Some \<lparr>rs_irr = pic_pending_requests pic, rs_imr = pic_imr pic,
        rs_isr = pic_isr pic\<rparr>)"
| "x86_pic_capture_registers _ out = (LIB_STATUS_INVALID_ARGUMENT, out)"

section \<open>Acknowledging a request\<close>

definition RespondINTR :: "x86_pic \<Rightarrow> nat \<Rightarrow> bool \<Rightarrow> x86_pic" where
  "RespondINTR rpic k cascade_request =
     (let p1 = rpic\<lparr>pic_isr := BIT_SET (pic_isr rpic) (VPIC_IRQ k)\<rparr>;
          p2 = (if cascade_request
                then p1\<lparr>pic_cascade_irr := BIT_CLEAR (pic_cascade_irr p1) (VPIC_IRQ k)\<rparr>
                else if \<not> BIT_IS_SET (pic_icw1 p1) VPIC_ICW1_LTIM \<or>
                  \<not> BIT_IS_SET (pic_input_levels p1) (VPIC_IRQ k)
                then p1\<lparr>pic_irr := BIT_CLEAR (pic_irr p1) (VPIC_IRQ k)\<rparr>
                else p1)
      in if BIT_IS_SET (pic_icw4 p2) VPIC_ICW4_AEOI
         then let p3 = p2\<lparr>pic_isr := BIT_CLEAR (pic_isr p2) (VPIC_IRQ k)\<rparr>
              in if BIT_IS_SET (pic_ocw2 p3) VPIC_OCW2_R
                 then p3\<lparr>pic_irx := of_nat ((k + 1) mod VPIC_MAX_IRQ_COUNT)\<rparr>
                 else p3
         else p2)"

text \<open>The guards of one turn of the loop of \<^verbatim>\<open>x86_pic_select\<close>, and the loop itself.\<close>

definition pic_line_cascades :: "x86_pic \<Rightarrow> nat \<Rightarrow> bool" where
  "pic_line_cascades pic k =
     (pic_cascade_master pic \<and> BIT_IS_SET (pic_cascade_irr pic) (VPIC_IRQ k))"

definition pic_line_selectable :: "x86_pic \<Rightarrow> lib_u8 \<Rightarrow> nat \<Rightarrow> bool" where
  "pic_line_selectable pic pending k =
     (if pic_unmask_remaining_ticks pic k \<noteq> 0 \<or> \<not> BIT_IS_SET pending (VPIC_IRQ k) then False
      else
        let cascade = pic_line_cascades pic k
        in if \<not> pic_request_can_interrupt pic k \<and>
              \<not> (cascade \<and> BIT_IS_SET (pic_icw4 pic) VPIC_ICW4_SFNM \<and>
                 GetRegTopId pic (pic_isr pic) = k) then False
           else if pic_cascade_master pic \<and> \<not> cascade \<and>
              \<not> BIT_IS_SET (pic_icw1 pic) VPIC_ICW1_SNGL \<and>
              BIT_IS_SET (pic_icw3 pic) (VPIC_IRQ k) then False
           else True)"

definition pic_scan_order :: "x86_pic \<Rightarrow> nat list" where
  "pic_scan_order pic =
     map (\<lambda>offset. (unat (pic_irx pic) + offset) mod VPIC_MAX_IRQ_COUNT) [0..<VPIC_MAX_IRQ_COUNT]"

fun x86_pic_select ::
  "x86_pic ptr \<Rightarrow> x86_pic_request ptr \<Rightarrow> lib_status \<times> x86_pic_request ptr" where
  "x86_pic_select (Some pic) (Some out_request) =
     (let pending = pic_pending_requests pic AND NOT (pic_imr pic)
      in if pic_status pic \<noteq> OCW1 then (LIB_STATUS_INVALID_STATE, Some out_request)
         else if pending = 0 then (LIB_STATUS_INVALID_STATE, Some out_request)
         else case find (pic_line_selectable pic pending) (pic_scan_order pic) of
             Some k \<Rightarrow> (LIB_STATUS_OK, Some \<lparr>req_line = of_nat k,
               req_vector = of_nat k OR pic_icw2 pic, req_cascade = pic_line_cascades pic k\<rparr>)
           | None \<Rightarrow> (LIB_STATUS_INVALID_STATE, Some out_request))"
| "x86_pic_select _ out = (LIB_STATUS_INVALID_ARGUMENT, out)"

text \<open>\<^verbatim>\<open>{ 7u, 0u, LIB_FALSE }\<close>, the spurious request.\<close>

definition pic_spurious_request :: x86_pic_request where
  "pic_spurious_request = \<lparr>req_line = 7, req_vector = 0, req_cascade = False\<rparr>"

fun x86_pic_acknowledge :: "x86_pic ptr \<Rightarrow> x86_pic ptr \<times> x86_pic_request" where
  "x86_pic_acknowledge None = (None, pic_spurious_request)"
| "x86_pic_acknowledge (Some pic) =
     (case x86_pic_select (Some pic) (Some pic_spurious_request) of
        (LIB_STATUS_OK, Some request) \<Rightarrow>
          (Some (RespondINTR pic (unat (req_line request)) (req_cascade request)), request)
      | _ \<Rightarrow>
          (Some pic, if pic_status pic = OCW1
             then pic_spurious_request\<lparr>req_vector := pic_icw2 pic OR 7\<rparr>
             else pic_spurious_request))"

section \<open>Guest-visible registers\<close>

definition pic_begin_initialization :: "x86_pic \<Rightarrow> lib_u8 \<Rightarrow> x86_pic" where
  "pic_begin_initialization pic icw1 =
     pic\<lparr>pic_irr := 0, pic_imr := 0, pic_isr := 0, pic_icw1 := icw1, pic_icw2 := 0, pic_icw3 := 0,
       pic_icw4 := 0, pic_ocw2 := 0, pic_ocw3 := VPIC_OCW3_RR, pic_irx := 0,
       pic_cascade_irr := 0, pic_unmask_remaining_ticks := (\<lambda>_. 0), pic_status := ICW2\<rparr>"

definition io_read_00x0 :: "x86_pic \<Rightarrow> lib_u8 \<Rightarrow> x86_pic \<times> lib_u8" where
  "io_read_00x0 rpic io_value =
     (if BIT_IS_SET (pic_ocw3 rpic) VPIC_OCW3_P then
        let (p, v) = (case x86_pic_select (Some rpic) (Some pic_spurious_request) of
               (LIB_STATUS_OK, Some request) \<Rightarrow>
                 (RespondINTR rpic (unat (req_line request)) (req_cascade request),
                  VPIC_POLL_I OR req_line request)
             | _ \<Rightarrow> (rpic, 0))
        in (p\<lparr>pic_ocw3 := BIT_CLEAR (pic_ocw3 p) VPIC_OCW3_P\<rparr>, v)
      else
        let sel = pic_ocw3 rpic AND (VPIC_OCW3_RR OR VPIC_OCW3_RIS)
        in if sel = 0x02 then (rpic, pic_pending_requests rpic)
           else if sel = 0x03 then (rpic, pic_isr rpic)
           else (rpic, io_value))"

text \<open>The OCW3 branch and the OCW2 command switch of \<^verbatim>\<open>io_write_00x0\<close>.\<close>

definition pic_write_ocw3 :: "x86_pic \<Rightarrow> lib_u8 \<Rightarrow> x86_pic" where
  "pic_write_ocw3 rpic io_value =
     (let old_ocw3 = pic_ocw3 rpic;
          read_bits = VPIC_OCW3_RR OR VPIC_OCW3_RIS;
          ocw3 = (if \<not> BIT_IS_SET io_value VPIC_OCW3_RR
                  then (io_value AND NOT read_bits) OR (old_ocw3 AND read_bits)
                  else io_value)
      in if BIT_IS_SET io_value VPIC_OCW3_ESMM then rpic\<lparr>pic_ocw3 := ocw3\<rparr>
         else rpic\<lparr>pic_ocw3 := (old_ocw3 AND VPIC_OCW3_SMM) OR (ocw3 AND NOT VPIC_OCW3_SMM)\<rparr>)"

definition pic_write_ocw2 :: "x86_pic \<Rightarrow> lib_u8 \<Rightarrow> x86_pic" where
  "pic_write_ocw2 rpic io_value =
     (let command = io_value AND 0xe0;
          level = unat (io_value AND VPIC_OCW2_L);
          service = pic_eoi_service rpic
      in if command = 0x80 \<or> command = 0x00 then
           (if BIT_IS_SET (pic_icw4 rpic) VPIC_ICW4_AEOI then rpic\<lparr>pic_ocw2 := io_value\<rparr>
            else rpic)
         else if command = 0x20 then
           (if service \<noteq> VPIC_MAX_IRQ_COUNT
            then rpic\<lparr>pic_isr := BIT_CLEAR (pic_isr rpic) (VPIC_IRQ service)\<rparr> else rpic)
         else if command = 0x60 then
           (if pic_isr rpic \<noteq> 0
            then rpic\<lparr>pic_isr := BIT_CLEAR (pic_isr rpic) (VPIC_IRQ level)\<rparr> else rpic)
         else if command = 0xa0 then
           (if service \<noteq> VPIC_MAX_IRQ_COUNT
            then rpic\<lparr>pic_isr := BIT_CLEAR (pic_isr rpic) (VPIC_IRQ service),
              pic_irx := of_nat ((service + 1) mod VPIC_MAX_IRQ_COUNT)\<rparr>
            else rpic)
         else if command = 0xe0 then
           rpic\<lparr>pic_isr := BIT_CLEAR (pic_isr rpic) (VPIC_IRQ level),
             pic_irx := of_nat ((level + 1) mod VPIC_MAX_IRQ_COUNT)\<rparr>
         else if command = 0xc0 then
           rpic\<lparr>pic_irx := of_nat ((level + 1) mod VPIC_MAX_IRQ_COUNT)\<rparr>
         else rpic)"

definition io_write_00x0 :: "x86_pic \<Rightarrow> lib_u8 \<Rightarrow> x86_pic" where
  "io_write_00x0 rpic io_value =
     (if BIT_IS_SET io_value VPIC_ICW1_I then
        let p = pic_begin_initialization rpic io_value
        in if BIT_IS_SET (pic_icw1 p) VPIC_ICW1_IC4 then p else p\<lparr>pic_icw4 := 0\<rparr>
      else if BIT_IS_SET io_value VPIC_OCW3_I then pic_write_ocw3 rpic io_value
      else pic_write_ocw2 rpic io_value)"

definition io_read_00x1 :: "x86_pic \<Rightarrow> lib_u8 \<Rightarrow> x86_pic \<times> lib_u8" where
  "io_read_00x1 rpic io_value = (rpic, pic_imr rpic)"

definition io_write_00x1 :: "x86_pic \<Rightarrow> lib_u8 \<Rightarrow> x86_pic" where
  "io_write_00x1 rpic io_value =
     (case pic_status rpic of
        ICW2 \<Rightarrow> rpic\<lparr>pic_icw2 := io_value AND VPIC_ICW2_VALID,
          pic_status := (if \<not> BIT_IS_SET (pic_icw1 rpic) VPIC_ICW1_SNGL then ICW3
            else if BIT_IS_SET (pic_icw1 rpic) VPIC_ICW1_IC4 then ICW4 else OCW1)\<rparr>
      | ICW3 \<Rightarrow> rpic\<lparr>pic_icw3 := io_value,
          pic_status := (if BIT_IS_SET (pic_icw1 rpic) VPIC_ICW1_IC4 then ICW4 else OCW1)\<rparr>
      | ICW4 \<Rightarrow> rpic\<lparr>pic_icw4 := io_value AND VPIC_ICW4_VALID, pic_status := OCW1\<rparr>
      | OCW1 \<Rightarrow>
          let previous_imr = pic_imr rpic;
              p = rpic\<lparr>pic_imr := io_value\<rparr>;
              released = previous_imr AND NOT (pic_imr p) AND pic_pending_requests p
          in p\<lparr>pic_unmask_remaining_ticks := (\<lambda>k.
               if k < VPIC_MAX_IRQ_COUNT \<and> BIT_IS_SET released (VPIC_IRQ k)
               then ucast (pic_unmask_delivery_ticks p k)
               else pic_unmask_remaining_ticks p k)\<rparr>
      | ICW1 \<Rightarrow> rpic)"

fun x86_pic_read_register ::
  "x86_pic ptr \<Rightarrow> lib_u8 \<Rightarrow> lib_u8 ptr \<Rightarrow> x86_pic ptr \<times> lib_u8 ptr" where
  "x86_pic_read_register (Some pic) selector (Some io_value) =
     (if selector = 0 then map_prod Some Some (io_read_00x0 pic io_value)
      else if selector = 1 then map_prod Some Some (io_read_00x1 pic io_value)
      else (Some pic, Some io_value))"
| "x86_pic_read_register pic selector io_value = (pic, io_value)"

fun x86_pic_write_register :: "x86_pic ptr \<Rightarrow> lib_u8 \<Rightarrow> lib_u8 \<Rightarrow> x86_pic ptr" where
  "x86_pic_write_register None selector value = None"
| "x86_pic_write_register (Some pic) selector value =
     (if selector = 0 then Some (io_write_00x0 pic value)
      else if selector = 1 then Some (io_write_00x1 pic value)
      else Some pic)"

section \<open>Inputs, time, construction\<close>

fun x86_pic_set_inputs :: "x86_pic ptr \<Rightarrow> lib_u8 \<Rightarrow> lib_u8 \<Rightarrow> lib_u8 \<Rightarrow> x86_pic ptr" where
  "x86_pic_set_inputs None levels asserted_requests cascade_lines = None"
| "x86_pic_set_inputs (Some pic) levels asserted_requests cascade_lines =
     (let irr1 = pic_irr pic AND NOT (pic_input_levels pic AND NOT levels);
          irr2 = (if pic_is_level pic then irr1 OR levels else irr1)
      in Some (pic\<lparr>pic_irr := irr2 OR asserted_requests, pic_input_levels := levels,
           pic_cascade_irr :=
             (if \<not> pic_cascade_master pic \<or> BIT_IS_SET (pic_icw1 pic) VPIC_ICW1_SNGL then 0
              else cascade_lines AND pic_icw3 pic)\<rparr>))"

fun x86_pic_cascade_address :: "x86_pic ptr \<Rightarrow> lib_u8 ptr \<Rightarrow> bool \<times> lib_u8 ptr" where
  "x86_pic_cascade_address (Some pic) (Some out_address) =
     (if BIT_IS_SET (pic_icw1 pic) VPIC_ICW1_SNGL then (False, Some out_address)
      else (True, Some (pic_icw3 pic AND 0x07)))"
| "x86_pic_cascade_address _ out = (False, out)"

definition pic_advance_one :: "x86_pic \<Rightarrow> lib_u64 \<Rightarrow> x86_pic" where
  "pic_advance_one pic elapsed_ticks =
     (if elapsed_ticks = 0 then pic
      else if fold (\<lambda>k acc. acc OR pic_unmask_remaining_ticks pic k) [0..<VPIC_MAX_IRQ_COUNT] 0 = 0
      then pic
      else pic\<lparr>pic_unmask_remaining_ticks := (\<lambda>k.
        if k < VPIC_MAX_IRQ_COUNT then sat_sub (pic_unmask_remaining_ticks pic k) elapsed_ticks
        else pic_unmask_remaining_ticks pic k)\<rparr>)"

fun x86_pic_advance :: "x86_pic ptr \<Rightarrow> lib_u64 \<Rightarrow> x86_pic ptr" where
  "x86_pic_advance None elapsed_ticks = None"
| "x86_pic_advance (Some pic) elapsed_ticks = Some (pic_advance_one pic elapsed_ticks)"

fun x86_pic_set_irq_timing :: "x86_pic ptr \<Rightarrow> (nat \<Rightarrow> lib_u32) ptr \<Rightarrow> x86_pic ptr" where
  "x86_pic_set_irq_timing (Some pic) (Some ticks) =
     Some (pic\<lparr>pic_unmask_delivery_ticks := (\<lambda>k.
       if k < VPIC_MAX_IRQ_COUNT then ticks k else pic_unmask_delivery_ticks pic k)\<rparr>)"
| "x86_pic_set_irq_timing pic ticks = pic"

definition pic_timed_lines :: "x86_pic \<Rightarrow> lib_u8 \<Rightarrow> nat list" where
  "pic_timed_lines pic pending =
     filter (\<lambda>k. BIT_IS_SET pending (VPIC_IRQ k) \<and> pic_unmask_remaining_ticks pic k \<noteq> 0)
       [0..<VPIC_MAX_IRQ_COUNT]"

fun x86_pic_ticks_until_event ::
  "x86_pic ptr \<Rightarrow> lib_u64 ptr \<Rightarrow> lib_status \<times> lib_u64 ptr" where
  "x86_pic_ticks_until_event (Some pic) (Some out_ticks) =
     (let pending = pic_pending_requests pic AND NOT (pic_imr pic);
          ticks = running_min (pic_unmask_remaining_ticks pic) (pic_timed_lines pic pending)
                   LIB_UINT64_MAX
      in if pending = 0 then (LIB_STATUS_INVALID_STATE, Some out_ticks)
         else if ticks = LIB_UINT64_MAX then (LIB_STATUS_INVALID_STATE, Some out_ticks)
         else (LIB_STATUS_OK, Some ticks))"
| "x86_pic_ticks_until_event _ out = (LIB_STATUS_INVALID_ARGUMENT, out)"

definition pic_zero :: "bool \<Rightarrow> x86_pic" where
  "pic_zero cascade_master =
     \<lparr>pic_irr = 0, pic_imr = 0, pic_isr = 0, pic_icw1 = 0, pic_icw2 = 0, pic_icw3 = 0,
      pic_icw4 = 0, pic_ocw2 = 0, pic_ocw3 = 0, pic_status = ICW1, pic_irx = 0,
      pic_cascade_irr = 0, pic_unmask_delivery_ticks = (\<lambda>_. 0),
      pic_unmask_remaining_ticks = (\<lambda>_. 0), pic_input_levels = 0,
      pic_cascade_master = cascade_master\<rparr>"

fun x86_pic_reset :: "x86_pic ptr \<Rightarrow> x86_pic ptr" where
  "x86_pic_reset None = None"
| "x86_pic_reset (Some pic) =
     Some ((pic_zero (pic_cascade_master pic))\<lparr>
       pic_unmask_delivery_ticks := pic_unmask_delivery_ticks pic,
       pic_status := ICW1, pic_ocw3 := VPIC_OCW3_RR, pic_input_levels := 0\<rparr>)"

text \<open>
  Construction: \<open>allocated\<close> says whether \<^verbatim>\<open>lib_allocate_zero\<close> succeeded; the result
  is the status and the cell \<^verbatim>\<open>out_pic\<close> points to.
\<close>

fun x86_pic_create :: "bool \<Rightarrow> bool \<Rightarrow> x86_pic ptr ptr \<Rightarrow> lib_status \<times> x86_pic ptr ptr" where
  "x86_pic_create allocated cascade_master None = (LIB_STATUS_INVALID_ARGUMENT, None)"
| "x86_pic_create allocated cascade_master (Some _) =
     (if allocated then (LIB_STATUS_OK, Some (x86_pic_reset (Some (pic_zero cascade_master))))
      else (LIB_STATUS_NO_MEMORY, Some None))"

section \<open>The priority order\<close>

lemma pic_rank_lt [simp]: "pic_priority_rank pic k < 8"
  by (simp add: pic_priority_rank_def)

lemma pic_rank_of_offset:
  assumes "unat (pic_irx pic) < 8" "d < 8"
  shows "pic_priority_rank pic ((unat (pic_irx pic) + d) mod 8) = d"
  unfolding pic_priority_rank_def by (rule rotate_rank_offset [OF assms])

lemma pic_offset_of_rank:
  assumes "unat (pic_irx pic) < 8" "k < 8"
  shows "(unat (pic_irx pic) + pic_priority_rank pic k) mod 8 = k"
  unfolding pic_priority_rank_def by (rule rotate_offset_rank [OF assms])

lemma pic_rank_inj:
  assumes "unat (pic_irx pic) < 8" "i < 8" "j < 8"
    and "pic_priority_rank pic i = pic_priority_rank pic j"
  shows "i = j"
  using pic_offset_of_rank [OF assms(1)] assms by metis

lemma bit_rotated:
  assumes "r < 8" "k < 8"
  shows "bit (push_bit (8 - r) reg OR drop_bit r (reg :: lib_u8)) k = bit reg ((k + r) mod 8)"
proof (cases "k + r < 8")
  case True
  then have "\<not> 8 - r \<le> k" using assms by linarith
  then show ?thesis using True assms by (simp add: bit_simps add.commute)
next
  case False
  then have "(k + r) mod 8 = k + r - 8" using assms by (simp add: mod_if)
  moreover have "\<not> bit reg (r + k)" using False bit_imp_le_length [of reg "r + k"] by auto
  moreover have "k - (8 - r) = k + r - 8" "8 - r \<le> k" using False assms by linarith+
  ultimately show ?thesis using False assms by (simp add: bit_simps)
qed

lemma GetRegTopId_top:
  assumes irx: "unat (pic_irx pic) < 8" and reg: "bit reg j" "j < 8"
  shows "GetRegTopId pic reg < 8 \<and> bit reg (GetRegTopId pic reg) \<and>
    pic_priority_rank pic (GetRegTopId pic reg) \<le> pic_priority_rank pic j"
proof -
  let ?r = "unat (pic_irx pic)"
  let ?rot = "push_bit (8 - ?r) reg OR drop_bit ?r reg"
  let ?d = "pic_priority_rank pic j"
  have "(?d + ?r) mod 8 = j"
    using pic_offset_of_rank [OF irx reg(2)] by (simp add: add.commute)
  then have "bit ?rot ?d" using bit_rotated [of ?r ?d reg] irx reg by simp
  then have s: "scan_set_bit 8 ?rot 0 \<le> ?d" "bit ?rot (scan_set_bit 8 ?rot 0)"
    using scan_set_bit_found [of ?rot ?d 8] by simp_all
  then have lt: "scan_set_bit 8 ?rot 0 < 8" using pic_rank_lt [of pic j] by linarith
  have "reg \<noteq> 0" using reg by auto
  then have top: "GetRegTopId pic reg = (?r + scan_set_bit 8 ?rot 0) mod 8"
    by (simp add: GetRegTopId_def Let_def add.commute)
  have "pic_priority_rank pic (GetRegTopId pic reg) = scan_set_bit 8 ?rot 0"
    unfolding top by (rule pic_rank_of_offset [OF irx lt])
  moreover have "bit reg (GetRegTopId pic reg)"
    using s(2) lt bit_rotated [of ?r "scan_set_bit 8 ?rot 0" reg] irx
    by (simp add: top add.commute)
  moreover have "GetRegTopId pic reg < 8" by (simp add: top)
  ultimately show ?thesis using s(1) by simp
qed

lemma GetRegTopId_zero [simp]: "GetRegTopId pic 0 = 8"
  by (simp add: GetRegTopId_def)

lemma GetRegTopId_eq_8:
  assumes "unat (pic_irx pic) < 8"
  shows "GetRegTopId pic reg = 8 \<longleftrightarrow> reg = 0"
  using GetRegTopId_top [OF assms] word_neq_0_bits [of reg] by fastforce

lemma pic_request_can_interrupt_iff:
  assumes "unat (pic_irx pic) < 8"
  shows "pic_request_can_interrupt pic k \<longleftrightarrow>
    (\<forall>j < 8. bit (pic_effective_isr pic) j \<longrightarrow> pic_priority_rank pic k < pic_priority_rank pic j)"
proof (cases "pic_effective_isr pic = 0")
  case True
  then show ?thesis by (simp add: pic_request_can_interrupt_def)
next
  case False
  then obtain i where i: "i < 8" "bit (pic_effective_isr pic) i"
    using word_neq_0_bits [of "pic_effective_isr pic"] by auto
  let ?top = "GetRegTopId pic (pic_effective_isr pic)"
  have ne8: "?top \<noteq> 8" using False GetRegTopId_eq_8 [OF assms] by simp
  note T = GetRegTopId_top [OF assms, of "pic_effective_isr pic"]
  show ?thesis
    using ne8 T [OF i(2) i(1)] T
    by (fastforce simp: pic_request_can_interrupt_def Let_def)
qed

section \<open>Selection\<close>

text \<open>
  The abstract specification of a request the controller may deliver: programmed, pending,
  unmasked, past its delivery delay, of higher priority than every line in service (or a cascade
  input in special fully nested mode that is itself the highest line in service), and not a
  slave input without a slave request.
\<close>

definition pic_eligible :: "x86_pic \<Rightarrow> nat \<Rightarrow> bool" where
  "pic_eligible pic k \<longleftrightarrow>
     k < 8 \<and> pic_status pic = OCW1 \<and>
     (bit (pic_irr pic) k \<or> bit (pic_cascade_irr pic) k) \<and> \<not> bit (pic_imr pic) k \<and>
     pic_unmask_remaining_ticks pic k = 0 \<and>
     ((\<forall>j < 8. bit (pic_effective_isr pic) j \<longrightarrow>
         pic_priority_rank pic k < pic_priority_rank pic j) \<or>
      (pic_line_cascades pic k \<and> bit (pic_icw4 pic) 4 \<and> bit (pic_isr pic) k \<and>
       (\<forall>j < 8. bit (pic_isr pic) j \<longrightarrow> pic_priority_rank pic k \<le> pic_priority_rank pic j))) \<and>
     (pic_cascade_master pic \<and> \<not> bit (pic_icw1 pic) 1 \<and> bit (pic_icw3 pic) k \<longrightarrow>
        pic_line_cascades pic k)"

lemma GetRegTopId_eq_iff:
  assumes irx: "unat (pic_irx pic) < 8" and k: "k < 8"
  shows "GetRegTopId pic reg = k \<longleftrightarrow>
    bit reg k \<and> (\<forall>j < 8. bit reg j \<longrightarrow> pic_priority_rank pic k \<le> pic_priority_rank pic j)"
    (is "?L \<longleftrightarrow> ?R")
proof
  assume L: ?L
  then have "reg \<noteq> 0" using k by auto
  then obtain i where "i < 8" "bit reg i" using word_neq_0_bits [of reg] by auto
  with L show ?R using GetRegTopId_top [OF irx] by blast
next
  assume R: ?R
  then have "GetRegTopId pic reg < 8" "bit reg (GetRegTopId pic reg)"
    "pic_priority_rank pic (GetRegTopId pic reg) \<le> pic_priority_rank pic k"
    using GetRegTopId_top [OF irx _ k] by blast+
  with R have "pic_priority_rank pic (GetRegTopId pic reg) = pic_priority_rank pic k"
    by (simp add: order_antisym)
  with \<open>GetRegTopId pic reg < 8\<close> show ?L using pic_rank_inj [OF irx _ k] by blast
qed

lemma pic_eligible_iff_selectable:
  assumes irx: "unat (pic_irx pic) < 8" and k: "k < 8"
  shows "pic_eligible pic k \<longleftrightarrow> pic_status pic = OCW1 \<and>
    pic_line_selectable pic (pic_pending_requests pic AND NOT (pic_imr pic)) k"
  using k by (auto simp: pic_eligible_def pic_line_selectable_def Let_def
      pic_pending_requests_def bit_simps pic_request_can_interrupt_iff [OF irx]
      GetRegTopId_eq_iff [OF irx k])

lemma pic_eligible_lt: "pic_eligible pic k \<Longrightarrow> k < 8"
  by (simp add: pic_eligible_def)

lemma pic_eligible_pending:
  "pic_eligible pic k \<Longrightarrow> pic_pending_requests pic AND NOT (pic_imr pic) \<noteq> 0"
  unfolding word_neq_0_bits
  by (rule exI [of _ k]) (auto simp: pic_eligible_def pic_pending_requests_def bit_simps)

definition pic_request_of :: "x86_pic \<Rightarrow> nat \<Rightarrow> x86_pic_request" where
  "pic_request_of pic k = \<lparr>req_line = of_nat k, req_vector = of_nat k OR pic_icw2 pic,
     req_cascade = pic_line_cascades pic k\<rparr>"

lemma pic_scan_order_nth [simp]:
  "length (pic_scan_order pic) = 8"
  "d < 8 \<Longrightarrow> pic_scan_order pic ! d = (unat (pic_irx pic) + d) mod 8"
  by (simp_all add: pic_scan_order_def)

lemma find_rank_order:
  assumes irx: "unat (pic_irx pic) < 8"
  shows "find P (pic_scan_order pic) = Some k \<longleftrightarrow>
    k < 8 \<and> P k \<and> (\<forall>j < 8. P j \<longrightarrow> pic_priority_rank pic k \<le> pic_priority_rank pic j)"
    (is "?L \<longleftrightarrow> ?R")
proof
  assume ?L
  then obtain d where d: "d < 8" "k = (unat (pic_irx pic) + d) mod 8" "P k"
    and before: "\<And>e. e < d \<Longrightarrow> \<not> P ((unat (pic_irx pic) + e) mod 8)"
    by (auto simp: find_Some_iff)
  have rk: "pic_priority_rank pic k = d" using pic_rank_of_offset [OF irx d(1)] d(2) by simp
  have "pic_priority_rank pic k \<le> pic_priority_rank pic j" if j: "j < 8" "P j" for j
    using before [of "pic_priority_rank pic j"] pic_offset_of_rank [OF irx j(1)] j(2) rk
    by (metis not_le)
  with d show ?R by auto
next
  assume R: ?R
  let ?d = "pic_priority_rank pic k"
  have k: "(unat (pic_irx pic) + ?d) mod 8 = k" using pic_offset_of_rank [OF irx] R by blast
  have "\<not> P ((unat (pic_irx pic) + e) mod 8)" if e: "e < ?d" for e
  proof
    assume "P ((unat (pic_irx pic) + e) mod 8)"
    then have "?d \<le> pic_priority_rank pic ((unat (pic_irx pic) + e) mod 8)" using R by simp
    also have "\<dots> = e" using e pic_rank_lt [of pic k] by (intro pic_rank_of_offset [OF irx]) linarith
    finally show False using e by simp
  qed
  then have "\<not> P (pic_scan_order pic ! e)" if "e < ?d" for e
    using that less_trans [OF that pic_rank_lt] by simp
  moreover have "pic_scan_order pic ! ?d = k" using k by simp
  ultimately show ?L
    unfolding find_Some_iff using R by (intro exI [of _ ?d]) (simp del: pic_scan_order_nth(2))
qed

lemma x86_pic_select_cases:
  assumes irx: "unat (pic_irx pic) < 8"
  obtains (chosen) k where "pic_eligible pic k"
      "\<And>j. pic_eligible pic j \<Longrightarrow> pic_priority_rank pic k \<le> pic_priority_rank pic j"
      "\<And>out. x86_pic_select (Some pic) (Some out) = (LIB_STATUS_OK, Some (pic_request_of pic k))"
    | (none) "\<And>k. \<not> pic_eligible pic k"
      "\<And>out. x86_pic_select (Some pic) (Some out) = (LIB_STATUS_INVALID_STATE, Some out)"
proof -
  let ?pending = "pic_pending_requests pic AND NOT (pic_imr pic)"
  let ?found = "find (pic_line_selectable pic ?pending) (pic_scan_order pic)"
  note E = pic_eligible_iff_selectable [OF irx]
  show thesis
  proof (cases "\<exists>k. pic_eligible pic k")
    case True
    then obtain k0 where k0: "pic_eligible pic k0" ..
    then have st: "pic_status pic = OCW1" and pend: "?pending \<noteq> 0"
      using pic_eligible_pending by (auto simp: pic_eligible_def)
    have "?found \<noteq> None"
    proof
      assume "?found = None"
      then have none: "\<And>d. d < 8 \<Longrightarrow> \<not> pic_line_selectable pic ?pending ((unat (pic_irx pic) + d) mod 8)"
        by (auto simp: find_None_iff pic_scan_order_def)
      show False
        using none [of "pic_priority_rank pic k0"] k0 E [OF pic_eligible_lt [OF k0]]
          pic_offset_of_rank [OF irx pic_eligible_lt [OF k0]] by simp
    qed
    then obtain k where k: "?found = Some k" by blast
    then have k8: "k < 8" "pic_line_selectable pic ?pending k"
      and min: "\<And>j. j < 8 \<Longrightarrow> pic_line_selectable pic ?pending j \<Longrightarrow>
        pic_priority_rank pic k \<le> pic_priority_rank pic j"
      unfolding find_rank_order [OF irx] by auto
    show thesis
    proof (rule chosen)
      show "pic_eligible pic k" using E [OF k8(1)] k8(2) st by simp
      show "pic_priority_rank pic k \<le> pic_priority_rank pic j" if "pic_eligible pic j" for j
        using min E [OF pic_eligible_lt [OF that]] that pic_eligible_lt by blast
      show "x86_pic_select (Some pic) (Some out) = (LIB_STATUS_OK, Some (pic_request_of pic k))" for out
        using st pend k by (simp add: Let_def pic_request_of_def)
    qed
  next
    case False
    have "?found = None" if "pic_status pic = OCW1"
    proof (rule ccontr)
      assume "?found \<noteq> None"
      then obtain k where "?found = Some k" by blast
      then show False using False that E unfolding find_rank_order [OF irx] by blast
    qed
    with False show thesis by (intro none) (auto simp: Let_def)
  qed
qed

section \<open>The invariant\<close>

definition pic_inv :: "x86_pic \<Rightarrow> bool" where
  "pic_inv pic \<longleftrightarrow>
     unat (pic_irx pic) < 8 \<and>
     pic_icw2 pic AND 0x07 = 0 \<and>
     (pic_status pic \<noteq> OCW1 \<longrightarrow> pic_isr pic = 0 \<and> pic_imr pic = 0) \<and>
     (pic_status pic \<in> {ICW1, ICW2, ICW3} \<longrightarrow> pic_icw3 pic = 0 \<and> pic_cascade_irr pic = 0) \<and>
     pic_cascade_irr pic AND NOT (pic_icw3 pic) = 0 \<and>
     (pic_cascade_irr pic \<noteq> 0 \<longrightarrow> pic_cascade_master pic \<and> \<not> bit (pic_icw1 pic) 1)"

lemma subset_bits_clear: "c AND NOT i = 0 \<Longrightarrow> BIT_CLEAR c m AND NOT i = (0 :: lib_u8)"
  by (simp add: BIT_CLEAR_def and.assoc and.commute [of "NOT m"]) (simp flip: and.assoc)

lemma BIT_CLEAR_zero [simp]: "BIT_CLEAR 0 m = 0"
  by (simp add: BIT_CLEAR_def)

lemma subset_bits_and: "(c AND i) AND NOT i = (0 :: lib_u8)"
  by (simp add: and.assoc)

lemma pic_inv_irx: "pic_inv pic \<Longrightarrow> unat (pic_irx pic) < 8"
  by (simp add: pic_inv_def)

lemma unat_of_nat_mod_8 [simp]: "unat (of_nat (n mod 8) :: lib_u8) = n mod 8"
proof -
  have "n mod 8 < 256" using mod_less_divisor [of 8 n] by linarith
  then show ?thesis by (simp add: unsigned_of_nat take_bit_eq_mod)
qed

lemma unat_of_nat_line [simp]: "k < 8 \<Longrightarrow> unat (of_nat k :: lib_u8) = k"
  using unat_of_nat_mod_8 [of k] by simp

lemma pic_inv_RespondINTR [chip_inv]:
  assumes "pic_inv pic" "pic_status pic = OCW1"
  shows "pic_inv (RespondINTR pic k c)"
  using assms
  by (cases "pic_cascade_irr pic = 0") (simp_all add: pic_inv_def RespondINTR_def Let_def subset_bits_clear)

lemma pic_status_RespondINTR [simp]: "pic_status (RespondINTR pic k c) = pic_status pic"
  by (simp add: RespondINTR_def Let_def)

lemma pic_inv_poll: "pic_inv pic \<Longrightarrow> pic_inv (pic\<lparr>pic_ocw3 := v\<rparr>)"
  by (simp add: pic_inv_def)

lemma pic_inv_read [chip_inv]:
  assumes "pic_inv pic"
  shows "pic_inv (fst (io_read_00x0 pic v))"
proof -
  have "pic_inv (fst (case x86_pic_select (Some pic) (Some pic_spurious_request) of
       (LIB_STATUS_OK, Some request) \<Rightarrow>
         (RespondINTR pic (unat (req_line request)) (req_cascade request),
          VPIC_POLL_I OR req_line request)
     | _ \<Rightarrow> (pic, 0)))"
    using pic_inv_irx [OF assms] assms
    by (cases rule: x86_pic_select_cases) (auto simp: pic_eligible_def intro: pic_inv_RespondINTR)
  then show ?thesis
    using assms by (auto simp: io_read_00x0_def Let_def case_prod_beta pic_inv_poll)
qed

lemma pic_inv_write_ocw2 [chip_inv]: "pic_inv pic \<Longrightarrow> pic_inv (pic_write_ocw2 pic v)"
  by (auto simp: pic_inv_def pic_write_ocw2_def Let_def BIT_CLEAR_def)

lemma pic_inv_write_ocw3 [chip_inv]: "pic_inv pic \<Longrightarrow> pic_inv (pic_write_ocw3 pic v)"
  by (auto simp: pic_inv_def pic_write_ocw3_def Let_def)

lemma pic_inv_begin: "pic_inv ((pic_begin_initialization pic v)\<lparr>pic_icw4 := w\<rparr>)"
  by (simp add: pic_inv_def pic_begin_initialization_def)

lemma pic_begin_icw4 [simp]:
  "(pic_begin_initialization pic v)\<lparr>pic_icw4 := 0\<rparr> = pic_begin_initialization pic v"
  by (simp add: pic_begin_initialization_def)

lemma pic_inv_write0 [chip_inv]: "pic_inv pic \<Longrightarrow> pic_inv (io_write_00x0 pic v)"
  using pic_inv_begin [where w = 0]
  by (simp add: io_write_00x0_def Let_def pic_inv_write_ocw2 pic_inv_write_ocw3)

lemma vector_base_low: "(v AND VPIC_ICW2_VALID) AND 0x07 = 0"
  by (simp add: and.assoc)

lemma pic_inv_write1 [chip_inv]: "pic_inv pic \<Longrightarrow> pic_inv (io_write_00x1 pic v)"
  unfolding pic_inv_def io_write_00x1_def Let_def
  by (cases "pic_status pic") (simp_all add: vector_base_low)

lemma pic_inv_set_inputs [chip_inv]:
  "pic_inv pic \<Longrightarrow> pic_inv (the (x86_pic_set_inputs (Some pic) l a c))"
  by (simp add: pic_inv_def Let_def subset_bits_and)

lemma pic_inv_advance [chip_inv]: "pic_inv pic \<Longrightarrow> pic_inv (pic_advance_one pic n)"
  by (simp add: pic_advance_one_def pic_inv_def)

lemma pic_inv_timing [chip_inv]:
  "pic_inv pic \<Longrightarrow> pic_inv (the (x86_pic_set_irq_timing (Some pic) (Some t)))"
  by (simp add: pic_inv_def)

lemma pic_inv_reset [chip_inv]: "pic_inv (the (x86_pic_reset (Some pic)))"
  by (simp add: pic_inv_def pic_zero_def)

lemma pic_inv_acknowledge [chip_inv]:
  assumes "pic_inv pic" "x86_pic_acknowledge (Some pic) = (Some pic', r)"
  shows "pic_inv pic'"
  using pic_inv_irx [OF assms(1)]
proof (cases rule: x86_pic_select_cases)
  case (chosen k)
  then show ?thesis
    using assms by (auto simp: pic_eligible_def intro: pic_inv_RespondINTR)
next
  case none
  then show ?thesis using assms by simp
qed

text \<open>One operation on a live controller, and the states a created controller can reach.\<close>

inductive pic_step :: "x86_pic \<Rightarrow> x86_pic \<Rightarrow> bool" where
  step_read: "x86_pic_read_register (Some p) sel (Some v) = (Some q, w) \<Longrightarrow> pic_step p q"
| step_write: "x86_pic_write_register (Some p) sel v = Some q \<Longrightarrow> pic_step p q"
| step_inputs: "x86_pic_set_inputs (Some p) l a c = Some q \<Longrightarrow> pic_step p q"
| step_acknowledge: "x86_pic_acknowledge (Some p) = (Some q, r) \<Longrightarrow> pic_step p q"
| step_advance: "x86_pic_advance (Some p) n = Some q \<Longrightarrow> pic_step p q"
| step_timing: "x86_pic_set_irq_timing (Some p) (Some t) = Some q \<Longrightarrow> pic_step p q"
| step_reset: "x86_pic_reset (Some p) = Some q \<Longrightarrow> pic_step p q"

inductive pic_reachable :: "bool \<Rightarrow> x86_pic \<Rightarrow> bool" for master :: bool where
  created: "x86_pic_create True master (Some out) = (LIB_STATUS_OK, Some (Some p)) \<Longrightarrow>
    pic_reachable master p"
| stepped: "pic_reachable master p \<Longrightarrow> pic_step p q \<Longrightarrow> pic_reachable master q"

lemma pic_step_inv: "pic_step p q \<Longrightarrow> pic_inv p \<Longrightarrow> pic_inv q"
proof (induction rule: pic_step.induct)
  case (step_read p sel v q w)
  then show ?case
    by (auto simp: io_read_00x1_def map_prod_def case_prod_beta split: if_splits
        dest: pic_inv_read [of p v])
next
  case (step_write p sel v q)
  then show ?case by (auto split: if_splits intro: pic_inv_write0 pic_inv_write1)
next
  case (step_inputs p l a c q)
  then show ?case using pic_inv_set_inputs [of p l a c] by (simp del: x86_pic_set_inputs.simps)
next
  case (step_acknowledge p q r)
  then show ?case by (blast intro: pic_inv_acknowledge)
next
  case (step_advance p n q)
  then show ?case by (auto intro: pic_inv_advance)
next
  case (step_timing p t q)
  then show ?case using pic_inv_timing [of p t] by (simp del: x86_pic_set_irq_timing.simps)
next
  case (step_reset p q)
  then show ?case using pic_inv_reset [of p] by (simp del: x86_pic_reset.simps)
qed

lemma pic_reachable_inv: "pic_reachable master p \<Longrightarrow> pic_inv p"
proof (induction rule: pic_reachable.induct)
  case (created out p)
  then show ?case using pic_inv_reset [of "pic_zero master"] by (simp del: x86_pic_reset.simps)
next
  case (stepped p q)
  then show ?case by (blast intro: pic_step_inv)
qed

section \<open>Delivery delays\<close>

lemma pic_advance_eq:
  "pic_advance_one pic n = pic\<lparr>pic_unmask_remaining_ticks := (\<lambda>k.
     if k < 8 then sat_sub (pic_unmask_remaining_ticks pic k) n
     else pic_unmask_remaining_ticks pic k)\<rparr>"
proof -
  have "(\<lambda>k. if k < 8 then sat_sub (pic_unmask_remaining_ticks pic k) n
      else pic_unmask_remaining_ticks pic k) = pic_unmask_remaining_ticks pic"
    if "fold (\<lambda>k acc. acc OR pic_unmask_remaining_ticks pic k) [0..<8] 0 = 0"
    using that unfolding fold_or_eq_0 by auto
  moreover have "(\<lambda>k. if k < 8 then sat_sub (pic_unmask_remaining_ticks pic k) 0
      else pic_unmask_remaining_ticks pic k) = pic_unmask_remaining_ticks pic"
    by (rule ext) simp
  ultimately show ?thesis by (auto simp: pic_advance_one_def)
qed

lemma pic_advance_remaining:
  "k < 8 \<Longrightarrow> pic_unmask_remaining_ticks (pic_advance_one pic n) k =
    sat_sub (pic_unmask_remaining_ticks pic k) n"
  by (simp add: pic_advance_eq)

lemma pic_advance_frame [simp]:
  "pic_irr (pic_advance_one pic n) = pic_irr pic"
  "pic_imr (pic_advance_one pic n) = pic_imr pic"
  "pic_isr (pic_advance_one pic n) = pic_isr pic"
  "pic_irx (pic_advance_one pic n) = pic_irx pic"
  "pic_icw4 (pic_advance_one pic n) = pic_icw4 pic"
  "pic_ocw3 (pic_advance_one pic n) = pic_ocw3 pic"
  "pic_cascade_irr (pic_advance_one pic n) = pic_cascade_irr pic"
  "pic_status (pic_advance_one pic n) = pic_status pic"
  by (simp_all add: pic_advance_one_def)

interpretation pic_time: tick_component "\<lambda>n pic. pic_advance_one pic n" pic_inv
proof
  fix s :: x86_pic and m n :: lib_u64
  show "pic_advance_one s 0 = s" by (simp add: pic_advance_one_def)
  show "pic_inv s \<Longrightarrow> pic_inv (pic_advance_one s n)" by (rule pic_inv_advance)
  assume "unat m + unat n < 2 ^ 64"
  then show "pic_advance_one s (m + n) = pic_advance_one (pic_advance_one s m) n"
    by (simp add: pic_advance_eq sat_sub_add cong: if_cong)
qed

lemma pic_write1_remaining:
  assumes "pic_status pic = OCW1" "k < 8" "bit (pic_imr pic) k" "\<not> bit v k"
    "bit (pic_pending_requests pic) k"
  shows "pic_unmask_remaining_ticks (io_write_00x1 pic v) k = ucast (pic_unmask_delivery_ticks pic k)"
  using assms by (simp add: io_write_00x1_def Let_def bit_simps pic_pending_requests_def)

text \<open>
  A pending line that an interrupt-mask write releases is held back for exactly its configured
  delivery delay, however the board slices the elapsed guest time.
\<close>

theorem pic_unmask_delay:
  assumes "pic_inv pic" "pic_status pic = OCW1" "k < 8" "bit (pic_imr pic) k" "\<not> bit v k"
    "bit (pic_pending_requests pic) k" "sum_list (map unat slices) < 2 ^ 64"
  shows "pic_unmask_remaining_ticks
      (fold (\<lambda>n p. pic_advance_one p n) slices (io_write_00x1 pic v)) k = 0 \<longleftrightarrow>
    unat (pic_unmask_delivery_ticks pic k) \<le> sum_list (map unat slices)"
proof -
  have inv: "pic_inv (io_write_00x1 pic v)" by (rule pic_inv_write1 [OF assms(1)])
  have sum: "unat (sum_list slices) = sum_list (map unat slices)"
    by (rule unat_sum_list) (use assms(7) in simp)
  have d: "unat (ucast (pic_unmask_delivery_ticks pic k) :: lib_u64) = unat (pic_unmask_delivery_ticks pic k)"
    by (rule unat_ucast_up) simp
  have "pic_unmask_remaining_ticks (pic_advance_one (io_write_00x1 pic v) (sum_list slices)) k = 0 \<longleftrightarrow>
     (ucast (pic_unmask_delivery_ticks pic k) :: lib_u64) \<le> sum_list slices"
    unfolding pic_advance_remaining [OF assms(3)] pic_write1_remaining [OF assms(2-6)]
    by (rule sat_sub_eq_0)
  then show ?thesis
    by (simp add: pic_time.adv_slices [OF inv assms(7)] word_le_nat_alt sum d)
qed

section \<open>A programmed controller\<close>

text \<open>
  The master of a PC/AT after its usual initialisation (vectors from 08h, slave on line 2),
  with lines 1 and 4 raised.
\<close>

definition pic_at_master :: x86_pic where
  "pic_at_master = (pic_zero True)\<lparr>pic_icw1 := 0x11, pic_icw2 := 0x08, pic_icw3 := 0x04,
     pic_icw4 := 0x01, pic_ocw3 := 0x02, pic_status := OCW1\<rparr>"

definition pic_at_busy :: x86_pic where
  "pic_at_busy = pic_at_master\<lparr>pic_irr := 0x12, pic_input_levels := 0x12\<rparr>"

lemma pic_reachable_write:
  "pic_reachable master p \<Longrightarrow>
    pic_reachable master (the (x86_pic_write_register (Some p) sel v))"
  by (erule pic_reachable.stepped, rule pic_step.step_write [of _ sel v]) simp

lemma pic_at_busy_reachable: "pic_reachable True pic_at_busy"
proof -
  let ?w = "\<lambda>sel v p. the (x86_pic_write_register (Some p) sel v)"
  let ?p0 = "the (x86_pic_reset (Some (pic_zero True)))"
  have "pic_reachable True ?p0"
    by (rule pic_reachable.created) simp
  then have "pic_reachable True (?w 1 0x01 (?w 1 0x04 (?w 1 0x08 (?w 0 0x11 ?p0))))"
    by (intro pic_reachable_write)
  moreover have "?w 1 0x01 (?w 1 0x04 (?w 1 0x08 (?w 0 0x11 ?p0))) = pic_at_master"
    by (simp add: io_write_00x0_def io_write_00x1_def pic_begin_initialization_def
        pic_zero_def pic_at_master_def Let_def)
  ultimately have "pic_reachable True pic_at_master" by simp
  moreover have "x86_pic_set_inputs (Some pic_at_master) 0x12 0x12 0 = Some pic_at_busy"
    by (simp add: pic_at_busy_def pic_at_master_def pic_zero_def pic_is_level_def Let_def)
  ultimately show ?thesis
    by (blast intro: pic_reachable.stepped pic_step.step_inputs)
qed

lemma pic_at_busy_inv: "pic_inv pic_at_busy"
  by (rule pic_reachable_inv [OF pic_at_busy_reachable])

lemma less_8_cases: "(\<forall>j < (8::nat). P j) \<longleftrightarrow> P 0 \<and> P 1 \<and> P 2 \<and> P 3 \<and> P 4 \<and> P 5 \<and> P 6 \<and> P 7"
  by (simp add: eval_nat_numeral All_less_Suc conj_ac)

lemma pic_at_busy_select:
  "x86_pic_select (Some pic_at_busy) (Some out) = (LIB_STATUS_OK,
     Some \<lparr>req_line = 1, req_vector = 9, req_cascade = False\<rparr>)"
  by code_simp

section \<open>Properties of the controller\<close>

text \<open>
  C6: in every reachable state, selection succeeds exactly when some line is eligible; it then
  reports the eligible line of the highest rotating priority with its vector, and otherwise it
  reports INVALID_STATE and leaves the caller's request alone.
\<close>

theorem pic_select_spec:
  assumes "pic_reachable master pic"
  shows "(x86_pic_select (Some pic) (Some out) = (LIB_STATUS_OK, Some r) \<longleftrightarrow>
      (\<exists>k. pic_eligible pic k \<and>
        (\<forall>j. pic_eligible pic j \<longrightarrow> pic_priority_rank pic k \<le> pic_priority_rank pic j) \<and>
        r = pic_request_of pic k)) \<and>
    (x86_pic_select (Some pic) (Some out) = (LIB_STATUS_INVALID_STATE, Some out) \<longleftrightarrow>
      (\<forall>k. \<not> pic_eligible pic k))"
  using pic_inv_irx [OF pic_reachable_inv [OF assms]]
proof (cases rule: x86_pic_select_cases)
  case (chosen k)
  have "j = k" if "pic_eligible pic j"
      "\<And>i. pic_eligible pic i \<Longrightarrow> pic_priority_rank pic j \<le> pic_priority_rank pic i" for j
    using pic_rank_inj [OF pic_inv_irx [OF pic_reachable_inv [OF assms]]
        pic_eligible_lt [OF that(1)] pic_eligible_lt [OF chosen(1)]]
      chosen(1,2) that by (meson order_antisym)
  then have "(\<exists>j. pic_eligible pic j \<and>
      (\<forall>i. pic_eligible pic i \<longrightarrow> pic_priority_rank pic j \<le> pic_priority_rank pic i) \<and>
      r = pic_request_of pic j) \<longleftrightarrow> pic_request_of pic k = r"
    using chosen(1,2) by blast
  moreover have "\<not> (\<forall>k. \<not> pic_eligible pic k)" using chosen(1) by blast
  ultimately show ?thesis unfolding chosen(3) by simp
next
  case none
  then show ?thesis by (simp del: x86_pic_select.simps)
qed

theorem pic_select_spec_witness:
  "pic_reachable True pic_at_busy \<and>
   (\<exists>k. pic_eligible pic_at_busy k \<and> pic_request_of pic_at_busy k =
      \<lparr>req_line = 1, req_vector = 9, req_cascade = False\<rparr>)"
  using pic_select_spec [OF pic_at_busy_reachable, of pic_spurious_request
      "\<lparr>req_line = 1, req_vector = 9, req_cascade = False\<rparr>"]
    pic_at_busy_reachable pic_at_busy_select by metis

text \<open>
  C20: whatever the guest programs and the board drives, the priority base stays a line number, the
  vector base keeps its low bits clear, nothing is in service or masked before initialisation is
  complete, and slave requests are held only by a cascade master on lines its ICW3 enables.
\<close>

theorem pic_reachable_invariant:
  assumes "pic_reachable master pic"
  shows "unat (pic_irx pic) < 8 \<and> pic_icw2 pic AND 0x07 = 0 \<and>
    (pic_status pic \<noteq> OCW1 \<longrightarrow> pic_isr pic = 0 \<and> pic_imr pic = 0) \<and>
    (\<forall>k. bit (pic_cascade_irr pic) k \<longrightarrow>
       bit (pic_icw3 pic) k \<and> pic_cascade_master pic \<and> \<not> bit (pic_icw1 pic) 1)"
proof -
  have inv: "pic_inv pic" by (rule pic_reachable_inv [OF assms])
  have "bit (pic_icw3 pic) k \<and> pic_cascade_master pic \<and> \<not> bit (pic_icw1 pic) 1"
    if k: "bit (pic_cascade_irr pic) k" for k
  proof -
    have "\<not> bit (pic_cascade_irr pic AND NOT (pic_icw3 pic)) k"
      using inv by (simp add: pic_inv_def)
    then have "bit (pic_icw3 pic) k" using k bit_imp_le_length [OF k] by (simp add: bit_simps)
    moreover have "pic_cascade_irr pic \<noteq> 0" using k by auto
    ultimately show ?thesis using inv by (simp add: pic_inv_def)
  qed
  with inv show ?thesis by (simp add: pic_inv_def)
qed

theorem pic_reachable_invariant_witness:
  "unat (pic_irx pic_at_busy) < 8 \<and> pic_icw2 pic_at_busy AND 0x07 = 0"
  using pic_reachable_invariant [OF pic_at_busy_reachable] by blast

lemma vector_sum:
  assumes k: "k < 8" and base: "b AND 0x07 = (0 :: lib_u8)"
  shows "unat (of_nat k OR b) = unat b + k"
proof -
  have "\<forall>k < 8. (of_nat k :: lib_u8) AND 0x07 = of_nat k"
    unfolding less_8_cases by simp
  then have "of_nat k AND b = (of_nat k AND 0x07) AND b" using k by simp
  also have "\<dots> = of_nat k AND (b AND 0x07)" by (simp only: ac_simps)
  finally have "of_nat k OR b = of_nat k + b"
    using base by (simp add: disjunctive_add_eq_or)
  moreover have "unat b mod 8 = 0"
  proof -
    have "take_bit 3 b = 0" using base by (simp add: take_bit_eq_mask mask_eq_exp_minus_1)
    then have "take_bit 3 (unat b) = 0" by (metis unsigned_take_bit_eq unsigned_0)
    then show ?thesis by (simp add: take_bit_eq_mod)
  qed
  then have "unat b + k < 256"
    using k unsigned_less [of b, where 'a = nat] by simp presburger
  ultimately show ?thesis using k unat_plus_if' [of "of_nat k" b] by simp
qed

text \<open>
  An initialised controller always answers an interrupt acknowledge with its programmed
  vector base plus the line it reports, the spurious line 7 included.
\<close>

theorem pic_acknowledge_vector:
  assumes "pic_reachable master pic" "pic_status pic = OCW1"
    "x86_pic_acknowledge (Some pic) = (Some pic', r)"
  shows "unat (req_line r) < 8 \<and> unat (req_vector r) = unat (pic_icw2 pic) + unat (req_line r)"
proof -
  have inv: "pic_inv pic" by (rule pic_reachable_inv [OF assms(1)])
  then have base: "pic_icw2 pic AND 0x07 = 0" by (simp add: pic_inv_def)
  from pic_inv_irx [OF inv] show ?thesis
  proof (cases rule: x86_pic_select_cases)
    case (chosen k)
    then show ?thesis
      using assms(3) vector_sum [OF pic_eligible_lt [OF chosen(1)] base]
        pic_eligible_lt [OF chosen(1)]
      by (auto simp: pic_request_of_def simp del: x86_pic_select.simps)
  next
    case none
    then show ?thesis
      using assms(2,3) vector_sum [of 7, OF _ base]
      by (auto simp: pic_spurious_request_def or.commute simp del: x86_pic_select.simps)
  qed
qed

theorem pic_acknowledge_vector_witness:
  "unat (req_vector (snd (x86_pic_acknowledge (Some pic_at_busy)))) = 9"
proof -
  obtain p r where pr: "x86_pic_acknowledge (Some pic_at_busy) = (Some p, r)" and l: "req_line r = 1"
    by (simp add: pic_at_busy_select del: x86_pic_select.simps)
  moreover have "pic_status pic_at_busy = OCW1" "unat (pic_icw2 pic_at_busy) = 8" by code_simp+
  ultimately show ?thesis
    using pic_acknowledge_vector [OF pic_at_busy_reachable _ pr] by simp
qed

text \<open>What the board does between two guest commands: it drives inputs, lets time pass, or
  acknowledges another request.\<close>

inductive pic_device_step :: "x86_pic \<Rightarrow> x86_pic \<Rightarrow> bool" where
  dev_inputs: "x86_pic_set_inputs (Some p) l a c = Some q \<Longrightarrow> pic_device_step p q"
| dev_advance: "x86_pic_advance (Some p) n = Some q \<Longrightarrow> pic_device_step p q"
| dev_acknowledge: "x86_pic_acknowledge (Some p) = (Some q, r) \<Longrightarrow> pic_device_step p q"

lemma pic_acknowledge_cases:
  assumes "pic_inv pic" "x86_pic_acknowledge (Some pic) = (Some pic', r)"
  obtains (taken) k where "pic_eligible pic k"
      "x86_pic_select (Some pic) (Some pic_spurious_request) = (LIB_STATUS_OK, Some (pic_request_of pic k))"
      "r = pic_request_of pic k" "pic' = RespondINTR pic k (pic_line_cascades pic k)"
    | (spurious) "pic' = pic" "\<And>k. \<not> pic_eligible pic k"
  using pic_inv_irx [OF assms(1)]
proof (cases rule: x86_pic_select_cases)
  case (chosen k)
  then show ?thesis
    using assms(2) pic_eligible_lt [OF chosen(1)]
    by (intro taken [of k]) (auto simp: pic_request_of_def simp del: x86_pic_select.simps)
next
  case none
  then show ?thesis
    using assms(2) by (intro spurious) (auto simp del: x86_pic_select.simps)
qed

text \<open>The part of the state that orders service: in-service lines, the priority base, the modes.\<close>

definition pic_serving :: "nat \<Rightarrow> x86_pic \<Rightarrow> x86_pic \<Rightarrow> bool" where
  "pic_serving k p0 p \<longleftrightarrow> pic_inv p \<and> bit (pic_isr p) k \<and> pic_irx p = pic_irx p0 \<and>
     pic_icw4 p = pic_icw4 p0 \<and> bit (pic_ocw3 p) 5 = bit (pic_ocw3 p0) 5"

lemma pic_serving_step:
  assumes "pic_device_step p q" "pic_serving k p0 p" "\<not> bit (pic_icw4 p0) 1"
  shows "pic_serving k p0 q"
  using assms(1)
proof cases
  case (dev_inputs l a c)
  then have "pic_inv q" using assms(2) pic_inv_set_inputs [of p l a c]
    by (simp add: pic_serving_def del: x86_pic_set_inputs.simps)
  with dev_inputs assms(2) show ?thesis by (auto simp: pic_serving_def Let_def)
next
  case (dev_advance n)
  then show ?thesis using assms(2) by (auto simp: pic_serving_def intro: pic_inv_advance)
next
  case (dev_acknowledge r)
  from assms(2) have inv: "pic_inv p" by (simp add: pic_serving_def)
  have "pic_inv q" by (rule pic_inv_acknowledge [OF inv dev_acknowledge])
  with inv dev_acknowledge show ?thesis
    using assms(2,3)
    by (cases rule: pic_acknowledge_cases) (auto simp: pic_serving_def RespondINTR_def Let_def)
qed

lemma pic_serving_steps:
  assumes "pic_device_step\<^sup>*\<^sup>* p q" "pic_serving k p0 p" "\<not> bit (pic_icw4 p0) 1"
  shows "pic_serving k p0 q"
  using assms by (induction rule: rtranclp_induct) (auto intro: pic_serving_step)

text \<open>
  C18: in fully nested operation (no automatic EOI, no special mask, no special fully nested mode),
  once a request has been acknowledged, no request of the same or a lower priority is selected
  until the guest ends the interrupt, whatever inputs arrive, time passes or further requests are
  acknowledged.
\<close>

theorem pic_fully_nested:
  assumes "pic_reachable master pic"
    and "\<not> bit (pic_icw4 pic) 1" "\<not> bit (pic_icw4 pic) 4" "\<not> bit (pic_ocw3 pic) 5"
    and ack: "x86_pic_acknowledge (Some pic) = (Some p1, r1)"
    and taken: "fst (x86_pic_select (Some pic) (Some out)) = LIB_STATUS_OK"
    and steps: "pic_device_step\<^sup>*\<^sup>* p1 p2"
    and sel: "x86_pic_select (Some p2) (Some out) = (LIB_STATUS_OK, Some r2)"
  shows "pic_priority_rank p2 (unat (req_line r2)) < pic_priority_rank p2 (unat (req_line r1))"
proof -
  have inv: "pic_inv pic" by (rule pic_reachable_inv [OF assms(1)])
  from inv ack obtain k where k: "pic_eligible pic k" "r1 = pic_request_of pic k"
      "p1 = RespondINTR pic k (pic_line_cascades pic k)"
  proof (cases rule: pic_acknowledge_cases)
    case spurious
    from pic_inv_irx [OF inv] have "fst (x86_pic_select (Some pic) (Some out)) = LIB_STATUS_INVALID_STATE"
      by (cases rule: x86_pic_select_cases) (use spurious(2) in auto)
    with taken show ?thesis by simp
  qed blast
  have k8: "k < 8" by (rule pic_eligible_lt [OF k(1)])
  have "pic_inv p1" by (rule pic_inv_acknowledge [OF inv ack])
  then have "pic_serving k pic p1"
    using k8 k(3) assms(2) by (simp add: pic_serving_def RespondINTR_def Let_def)
  then have serving: "pic_serving k pic p2" by (rule pic_serving_steps [OF steps _ assms(2)])
  then have irx: "unat (pic_irx p2) < 8" using pic_inv_irx [of p2] by (simp add: pic_serving_def)
  from irx obtain j where j: "pic_eligible p2 j" "r2 = pic_request_of p2 j"
    using sel by (cases rule: x86_pic_select_cases) (auto simp del: x86_pic_select.simps)
  have "bit (pic_effective_isr p2) k"
    using serving assms(4) by (simp add: pic_serving_def pic_effective_isr_def)
  moreover have "\<not> bit (pic_icw4 p2) 4" using serving assms(3) by (simp add: pic_serving_def)
  ultimately have "pic_priority_rank p2 j < pic_priority_rank p2 k"
    using j(1) k8 by (auto simp: pic_eligible_def)
  then show ?thesis
    using j(2) k(2) k8 pic_eligible_lt [OF j(1)] by (simp add: pic_request_of_def)
qed

text \<open>The busy master acknowledges line 1, then sees a request on line 0 on top of it.\<close>

definition pic_at_nested :: x86_pic where
  "pic_at_nested = the (x86_pic_set_inputs (fst (x86_pic_acknowledge (Some pic_at_busy))) 0x13 0x01 0)"

theorem pic_fully_nested_witness:
  "pic_priority_rank pic_at_nested 0 < pic_priority_rank pic_at_nested 1"
proof -
  define p1 where "p1 = the (fst (x86_pic_acknowledge (Some pic_at_busy)))"
  have ack: "x86_pic_acknowledge (Some pic_at_busy) = (Some p1,
      \<lparr>req_line = 1, req_vector = 9, req_cascade = False\<rparr>)"
    by (simp add: p1_def pic_at_busy_select del: x86_pic_select.simps)
  have "pic_device_step p1 pic_at_nested"
    by (rule dev_inputs [where l = "0x13" and a = "0x01" and c = 0])
      (simp add: pic_at_nested_def ack Let_def del: x86_pic_acknowledge.simps)
  then have steps: "pic_device_step\<^sup>*\<^sup>* p1 pic_at_nested" ..
  have sel: "x86_pic_select (Some pic_at_nested) (Some pic_spurious_request) =
      (LIB_STATUS_OK, Some \<lparr>req_line = 0, req_vector = 8, req_cascade = False\<rparr>)"
    by code_simp
  have modes: "\<not> bit (pic_icw4 pic_at_busy) 1" "\<not> bit (pic_icw4 pic_at_busy) 4"
    "\<not> bit (pic_ocw3 pic_at_busy) 5"
    by (simp_all add: pic_at_busy_def pic_at_master_def)
  from pic_fully_nested [OF pic_at_busy_reachable modes ack _ steps sel] show ?thesis
    by (simp add: pic_at_busy_select del: x86_pic_select.simps)
qed

text \<open>
  The in-service register after a non-specific end of interrupt: the line of highest priority in
  service (in special mask mode: among the unmasked ones), if there is one, is retired.
\<close>

definition pic_without_top :: "x86_pic \<Rightarrow> lib_u8" where
  "pic_without_top pic =
     (if pic_eoi_service pic = VPIC_MAX_IRQ_COUNT then pic_isr pic
      else BIT_CLEAR (pic_isr pic) (VPIC_IRQ (pic_eoi_service pic)))"

text \<open>A line just taken is on top of everything in service that counts.\<close>

lemma taken_line_on_top:
  assumes irx: "unat (pic_irx pic) < 8" and k: "pic_eligible pic k"
    and p1: "pic_isr p1 = BIT_SET (pic_isr pic) (BIT_MASK k)" "pic_irx p1 = pic_irx pic"
      "pic_ocw3 p1 = pic_ocw3 pic" "pic_imr p1 = pic_imr pic"
  shows "GetRegTopId p1 (pic_effective_isr p1) = k"
proof -
  have k8: "k < 8" by (rule pic_eligible_lt [OF k])
  have rank: "pic_priority_rank p1 = pic_priority_rank pic"
    by (rule ext) (simp add: pic_priority_rank_def p1)
  have bits: "bit (pic_effective_isr p1) j \<longleftrightarrow> bit (pic_effective_isr pic) j \<or> j = k" for j
    using k k8 by (auto simp: pic_effective_isr_def p1 bit_simps pic_eligible_def)
  have "pic_priority_rank pic k \<le> pic_priority_rank pic j"
    if "j < 8" "bit (pic_effective_isr pic) j" for j
  proof -
    have "bit (pic_isr pic) j"
      using that(2) by (auto simp: pic_effective_isr_def bit_simps split: if_splits)
    with k that show ?thesis by (auto simp: pic_eligible_def less_imp_le)
  qed
  with irx k8 show ?thesis
    by (subst GetRegTopId_eq_iff) (auto simp: p1 bits rank)
qed

text \<open>
  C21: What an acknowledge followed by the non-specific end-of-interrupt command leaves, in every
  reachable state and every mode. If a line was selected and automatic end of interrupt is off, the
  acknowledge puts that line in service and the end of interrupt retires that same line, whatever
  else is in service and in special mask mode too, and the priority order is unchanged; the
  in-service register is then what it was before exactly when the line was not in service already,
  and it can have been only as a slave's line in special fully nested mode. In automatic
  end-of-interrupt mode the acknowledge leaves the line out of service, and when nothing was
  selected (a spurious acknowledge) it leaves the controller as it was; in both cases no end of
  interrupt is owed, and one that is sent all the same retires the highest line then in service.
\<close>

theorem pic_eoi_roundtrip:
  assumes "pic_reachable master pic"
    and ack: "x86_pic_acknowledge (Some pic) = (Some p1, r)"
    and eoi: "x86_pic_write_register (Some p1) 0 0x20 = Some p2"
  shows "if fst (x86_pic_select (Some pic) (Some out)) = LIB_STATUS_OK
    then
      if \<not> bit (pic_icw4 pic) 1
      then bit (pic_isr p1) (unat (req_line r)) \<and> pic_irx p2 = pic_irx pic \<and>
        pic_isr p2 = BIT_CLEAR (pic_isr pic) (BIT_MASK (unat (req_line r))) \<and>
        (pic_isr p2 = pic_isr pic \<longleftrightarrow> \<not> bit (pic_isr pic) (unat (req_line r))) \<and>
        (bit (pic_isr pic) (unat (req_line r)) \<longrightarrow> bit (pic_icw4 pic) 4 \<and> req_cascade r)
      else pic_isr p1 = BIT_CLEAR (pic_isr pic) (BIT_MASK (unat (req_line r))) \<and>
        pic_isr p2 = pic_without_top p1
    else p1 = pic \<and> pic_isr p2 = pic_without_top pic"
proof -
  have inv: "pic_inv pic" by (rule pic_reachable_inv [OF assms(1)])
  note irx = pic_inv_irx [OF inv]
  have p2: "pic_isr p2 = pic_without_top p1" "pic_irx p2 = pic_irx p1"
    using eoi by (auto simp: io_write_00x0_def pic_write_ocw2_def pic_without_top_def Let_def)
  from inv ack show ?thesis
  proof (cases rule: pic_acknowledge_cases)
    case spurious
    from irx have "fst (x86_pic_select (Some pic) (Some out)) \<noteq> LIB_STATUS_OK"
      by (cases rule: x86_pic_select_cases) (use spurious(2) in auto)
    with spurious(1) p2 show ?thesis by simp
  next
    case (taken k)
    have k8: "k < 8" by (rule pic_eligible_lt [OF taken(1)])
    have sel: "fst (x86_pic_select (Some pic) (Some out)) = LIB_STATUS_OK"
      using irx by (cases rule: x86_pic_select_cases) (use taken(1) in auto)
    have line: "unat (req_line r) = k" "req_cascade r = pic_line_cascades pic k"
      using k8 by (simp_all add: taken(3) pic_request_of_def)
    show ?thesis
    proof (cases "bit (pic_icw4 pic) 1")
      case True
      then have "pic_isr p1 = BIT_CLEAR (BIT_SET (pic_isr pic) (BIT_MASK k)) (BIT_MASK k)"
        by (simp add: taken(4) RespondINTR_def Let_def)
      with True p2 sel show ?thesis by (simp add: line BIT_CLEAR_SET del: x86_pic_select.simps)
    next
      case False
      then have p1: "pic_isr p1 = BIT_SET (pic_isr pic) (BIT_MASK k)" "pic_irx p1 = pic_irx pic"
        "pic_ocw3 p1 = pic_ocw3 pic" "pic_imr p1 = pic_imr pic"
        by (simp_all add: taken(4) RespondINTR_def Let_def)
      have "GetRegTopId p1 (pic_effective_isr p1) = k"
        by (rule taken_line_on_top [OF irx taken(1) p1])
      then have "pic_isr p2 = BIT_CLEAR (BIT_SET (pic_isr pic) (BIT_MASK k)) (BIT_MASK k)"
        using k8 by (simp add: p2 pic_without_top_def pic_eoi_service_def p1)
      then have isr: "pic_isr p2 = BIT_CLEAR (pic_isr pic) (BIT_MASK k)" by (simp add: BIT_CLEAR_SET)
      have same: "pic_isr p2 = pic_isr pic \<longleftrightarrow> \<not> bit (pic_isr pic) k"
        unfolding isr by (metis BIT_CLEAR_not_set bit_BIT_CLEAR_mask)
      have "bit (pic_icw4 pic) 4 \<and> pic_line_cascades pic k" if "bit (pic_isr pic) k"
      proof -
        have "bit (pic_effective_isr pic) k"
          using that taken(1) k8 by (simp add: pic_effective_isr_def bit_simps pic_eligible_def)
        with taken(1) k8 show ?thesis unfolding pic_eligible_def by blast
      qed
      with False sel isr same p1 p2(2) k8 show ?thesis
        by (simp add: line del: x86_pic_select.simps)
    qed
  qed
qed

theorem pic_eoi_roundtrip_witness:
  "pic_isr (the (x86_pic_write_register (fst (x86_pic_acknowledge (Some pic_at_busy))) 0 0x20)) =
     pic_isr pic_at_busy"
proof -
  define p1 where "p1 = the (fst (x86_pic_acknowledge (Some pic_at_busy)))"
  have ack: "x86_pic_acknowledge (Some pic_at_busy) = (Some p1,
      \<lparr>req_line = 1, req_vector = 9, req_cascade = False\<rparr>)"
    by (simp add: p1_def pic_at_busy_select del: x86_pic_select.simps)
  have modes: "\<not> bit (pic_icw4 pic_at_busy) 1" "\<not> bit (pic_icw4 pic_at_busy) 4"
    by (simp_all add: pic_at_busy_def pic_at_master_def)
  have ok: "fst (x86_pic_select (Some pic_at_busy) (Some pic_spurious_request)) = LIB_STATUS_OK"
    unfolding pic_at_busy_select by simp
  obtain p2 where p2: "x86_pic_write_register (Some p1) 0 0x20 = Some p2" by simp
  from pic_eoi_roundtrip [OF pic_at_busy_reachable ack p2, of pic_spurious_request] ok modes
  have "pic_isr p2 = pic_isr pic_at_busy" by (auto simp del: x86_pic_select.simps)
  with p2 ack show ?thesis by simp
qed

text \<open>The register image after the guest's initialisation sequence.\<close>

definition pic_initialized :: "x86_pic \<Rightarrow> lib_u8 \<Rightarrow> lib_u8 \<Rightarrow> lib_u8 \<Rightarrow> lib_u8 \<Rightarrow> x86_pic" where
  "pic_initialized pic icw1 icw2 icw3 icw4 =
     pic\<lparr>pic_irr := 0, pic_imr := 0, pic_isr := 0, pic_icw1 := icw1,
       pic_icw2 := icw2 AND VPIC_ICW2_VALID,
       pic_icw3 := (if bit icw1 1 then 0 else icw3),
       pic_icw4 := (if bit icw1 0 then icw4 AND VPIC_ICW4_VALID else 0),
       pic_ocw2 := 0, pic_ocw3 := VPIC_OCW3_RR, pic_irx := 0, pic_cascade_irr := 0,
       pic_unmask_remaining_ticks := (\<lambda>_. 0), pic_status := OCW1\<rparr>"

text \<open>The guest writes the words ICW1 asks for, to the second port.\<close>

definition pic_guest_program :: "lib_u8 \<Rightarrow> lib_u8 \<Rightarrow> lib_u8 \<Rightarrow> lib_u8 \<Rightarrow> (lib_u8 \<times> lib_u8) list" where
  "pic_guest_program icw1 icw2 icw3 icw4 =
     [(0, icw1), (1, icw2)] @ (if bit icw1 1 then [] else [(1, icw3)]) @
     (if bit icw1 0 then [(1, icw4)] else [])"

text \<open>
  From any state, whatever was in progress, the initialisation command word with bit 4 set
  followed by exactly the words it asks for leaves the controller initialised, with the registers
  those words describe and everything else cleared.
\<close>

theorem pic_init_sequence:
  assumes "bit icw1 4"
  shows "fold (\<lambda>(sel, v) p. x86_pic_write_register p sel v)
      (pic_guest_program icw1 icw2 icw3 icw4) (Some pic) =
    Some (pic_initialized pic icw1 icw2 icw3 icw4)"
  using assms
  by (cases "bit icw1 1"; cases "bit icw1 0")
    (simp_all add: pic_guest_program_def pic_initialized_def io_write_00x0_def io_write_00x1_def
      pic_begin_initialization_def Let_def)

theorem pic_init_sequence_witness:
  "fold (\<lambda>(sel, v) p. x86_pic_write_register p sel v)
      (pic_guest_program 0x11 0x08 0x04 0x01) (Some pic_at_busy) =
    Some (pic_initialized pic_at_busy 0x11 0x08 0x04 0x01)"
  by (rule pic_init_sequence) simp

lemma pic_timed_lines_set:
  "k \<in> set (pic_timed_lines pic pending) \<longleftrightarrow>
    k < 8 \<and> bit pending k \<and> pic_unmask_remaining_ticks pic k \<noteq> 0"
  by (auto simp: pic_timed_lines_def)

text \<open>
  The deadline the controller reports is exact: advancing by any shorter time releases none of
  the pending lines that were still held back, and advancing by the deadline releases one.
\<close>

theorem pic_deadline_exact:
  assumes "x86_pic_ticks_until_event (Some pic) (Some out) = (LIB_STATUS_OK, Some t)"
  shows "(\<forall>n < t. \<forall>k. k \<in> set (pic_timed_lines pic (pic_pending_requests pic AND NOT (pic_imr pic))) \<longrightarrow>
       pic_unmask_remaining_ticks (pic_advance_one pic n) k \<noteq> 0) \<and>
    (\<exists>k. k \<in> set (pic_timed_lines pic (pic_pending_requests pic AND NOT (pic_imr pic))) \<and>
       pic_unmask_remaining_ticks (pic_advance_one pic t) k = 0)"
proof -
  let ?ks = "pic_timed_lines pic (pic_pending_requests pic AND NOT (pic_imr pic))"
  have t: "t = running_min (pic_unmask_remaining_ticks pic) ?ks LIB_UINT64_MAX"
    and ne: "t \<noteq> LIB_UINT64_MAX"
    using assms by (auto simp: Let_def split: if_splits)
  have "pic_unmask_remaining_ticks (pic_advance_one pic n) k \<noteq> 0" if "n < t" "k \<in> set ?ks" for n k
  proof -
    have "t \<le> pic_unmask_remaining_ticks pic k" unfolding t by (rule running_min_le [OF that(2)])
    then have "\<not> pic_unmask_remaining_ticks pic k \<le> n" using that(1) by simp
    moreover have "k < 8" using that(2) by (simp add: pic_timed_lines_set)
    ultimately show ?thesis by (simp add: pic_advance_remaining sat_sub_eq_0)
  qed
  moreover obtain k where k: "k \<in> set ?ks" "t = pic_unmask_remaining_ticks pic k"
    using running_min_in [of "pic_unmask_remaining_ticks pic" ?ks LIB_UINT64_MAX] t ne by metis
  moreover from k have "pic_unmask_remaining_ticks (pic_advance_one pic t) k = 0"
    by (simp add: pic_timed_lines_set pic_advance_remaining sat_sub_eq_0)
  ultimately show ?thesis by blast
qed

text \<open>A controller with a held-back line: line 1 pending with 500 ticks left, line 4 with 900.\<close>

definition pic_at_delayed :: x86_pic where
  "pic_at_delayed = pic_at_busy\<lparr>pic_unmask_remaining_ticks := (\<lambda>_. 0)(1 := 500, 4 := 900)\<rparr>"

theorem pic_deadline_exact_witness:
  "\<exists>k. pic_unmask_remaining_ticks (pic_advance_one pic_at_delayed 500) k = 0"
proof -
  have "x86_pic_ticks_until_event (Some pic_at_delayed) (Some 0) = (LIB_STATUS_OK, Some 500)"
    by code_simp
  from pic_deadline_exact [OF this] show ?thesis by blast
qed

text \<open>The busy master with everything masked and a delay of 1000 ticks on line 4.\<close>

definition pic_at_masked :: x86_pic where
  "pic_at_masked = pic_at_busy\<lparr>pic_imr := 0xff,
     pic_unmask_delivery_ticks := (\<lambda>_. 0)(4 := 1000)\<rparr>"

theorem pic_unmask_delay_witness:
  "pic_unmask_remaining_ticks (fold (\<lambda>n p. pic_advance_one p n) [300, 699]
     (io_write_00x1 pic_at_masked 0xef)) 4 \<noteq> 0 \<and>
   pic_unmask_remaining_ticks (fold (\<lambda>n p. pic_advance_one p n) [300, 700]
     (io_write_00x1 pic_at_masked 0xef)) 4 = 0"
proof -
  have *: "pic_inv pic_at_masked" "pic_status pic_at_masked = OCW1" "(4::nat) < 8"
    "bit (pic_imr pic_at_masked) 4" "\<not> bit (0xef :: lib_u8) 4"
    "bit (pic_pending_requests pic_at_masked) 4"
    by code_simp+
  have d: "unat (pic_unmask_delivery_ticks pic_at_masked 4) = 1000"
    by code_simp
  show ?thesis
    using pic_unmask_delay [OF *, of "[300, 699]"] pic_unmask_delay [OF *, of "[300, 700]"] d
    by simp
qed

end
