(* ===== verification/Pic_Bus.thy ===== *)
theory Pic_Bus
  imports Pic
begin

unbundle bit_operations_syntax

text \<open>
  The board's pair of interrupt controllers, \<^verbatim>\<open>src/src/x86-nxvm/board-base/pic_bus.c\<close>
  and \<^verbatim>\<open>pic_bus.h\<close>: wired-OR of the interrupt sources on each input line, the cascade
  from slave to master, and the processor's scan, peek and acknowledge cycles.

  The two endpoints are one record, because every endpoint points to both; \<open>pic_bus_end\<close>
  is the endpoint pointer of a register access. Sources are listed in creation order and a handle is
  an index into that list (the code's \<^verbatim>\<open>next\<close> chain is the same list newest first, walked
  only when the pair is released); an index past its end stands for a source of another pair.
\<close>

section \<open>State\<close>

record x86_nxvm_board_pic_bus =
  bus_device :: x86_pic
  bus_asserted :: "nat \<Rightarrow> lib_u8"

record x86_nxvm_board_pic_irq_source =
  src_irq :: lib_u8
  src_asserted :: bool

datatype pic_bus_end = PIC_BUS_MASTER | PIC_BUS_SLAVE

record pic_pair =
  pair_master :: x86_nxvm_board_pic_bus
  pair_slave :: x86_nxvm_board_pic_bus
  pair_sources :: "x86_nxvm_board_pic_irq_source list"

datatype x86_nxvm_board_pic_topology =
  X86_NXVM_BOARD_PIC_TOPOLOGY_CASCADED | X86_NXVM_BOARD_PIC_TOPOLOGY_SINGLE

fun pair_bus :: "pic_bus_end \<Rightarrow> pic_pair \<Rightarrow> x86_nxvm_board_pic_bus" where
  "pair_bus PIC_BUS_MASTER b = pair_master b"
| "pair_bus PIC_BUS_SLAVE b = pair_slave b"

fun pair_bus_update ::
  "pic_bus_end \<Rightarrow> (x86_nxvm_board_pic_bus \<Rightarrow> x86_nxvm_board_pic_bus) \<Rightarrow> pic_pair \<Rightarrow> pic_pair" where
  "pair_bus_update PIC_BUS_MASTER f b = b\<lparr>pair_master := f (pair_master b)\<rparr>"
| "pair_bus_update PIC_BUS_SLAVE f b = b\<lparr>pair_slave := f (pair_slave b)\<rparr>"

definition bus_set_inputs ::
  "lib_u8 \<Rightarrow> lib_u8 \<Rightarrow> lib_u8 \<Rightarrow> x86_nxvm_board_pic_bus \<Rightarrow> x86_nxvm_board_pic_bus" where
  "bus_set_inputs levels asserted_requests cascade_lines bus =
     bus\<lparr>bus_device :=
       the (x86_pic_set_inputs (Some (bus_device bus)) levels asserted_requests cascade_lines)\<rparr>"

section \<open>Levels and cascade\<close>

definition pic_bus_levels :: "x86_nxvm_board_pic_bus \<Rightarrow> lib_u8" where
  "pic_bus_levels bus =
     fold (\<lambda>k levels. if bus_asserted bus k \<noteq> 0 then levels OR BIT_MASK k else levels) [0..<8] 0"

definition pic_bus_cascade :: "x86_pic \<Rightarrow> lib_u8" where
  "pic_bus_cascade slave =
     (case x86_pic_cascade_address (Some slave) (Some 0) of
        (True, Some address) \<Rightarrow>
          (if fst (x86_pic_select (Some slave) (Some pic_spurious_request)) = LIB_STATUS_OK
           then BIT_MASK (unat address) else 0)
      | _ \<Rightarrow> 0)"

definition x86_nxvm_board_pic_refresh :: "pic_pair \<Rightarrow> pic_pair" where
  "x86_nxvm_board_pic_refresh b =
     (let b1 = pair_bus_update PIC_BUS_SLAVE
                 (bus_set_inputs (pic_bus_levels (pair_slave b)) 0 0) b;
          cascade = pic_bus_cascade (bus_device (pair_slave b1))
      in pair_bus_update PIC_BUS_MASTER
           (bus_set_inputs (pic_bus_levels (pair_master b1)) 0 cascade) b1)"

section \<open>Register cycles\<close>

fun x86_nxvm_board_pic_read_register ::
  "pic_bus_end ptr \<Rightarrow> lib_u8 \<Rightarrow> lib_u8 ptr \<Rightarrow> pic_pair \<Rightarrow> lib_status \<times> lib_u8 ptr \<times> pic_pair" where
  "x86_nxvm_board_pic_read_register (Some bus) selector (Some out_value) b =
     (if selector > 1 then (LIB_STATUS_INVALID_ARGUMENT, Some out_value, b)
      else
        let (device, value) = x86_pic_read_register (Some (bus_device (pair_bus bus b))) selector
                                (Some out_value);
            b1 = pair_bus_update bus (\<lambda>e. e\<lparr>bus_device := the device\<rparr>) b
        in (LIB_STATUS_OK, value,
            if bus = PIC_BUS_SLAVE then x86_nxvm_board_pic_refresh b1 else b1))"
| "x86_nxvm_board_pic_read_register _ selector out_value b =
     (LIB_STATUS_INVALID_ARGUMENT, out_value, b)"

fun x86_nxvm_board_pic_write_register ::
  "pic_bus_end ptr \<Rightarrow> lib_u8 \<Rightarrow> lib_u8 \<Rightarrow> pic_pair \<Rightarrow> lib_status \<times> pic_pair" where
  "x86_nxvm_board_pic_write_register None selector v b = (LIB_STATUS_INVALID_ARGUMENT, b)"
| "x86_nxvm_board_pic_write_register (Some bus) selector v b =
     (if selector > 1 then (LIB_STATUS_INVALID_ARGUMENT, b)
      else (LIB_STATUS_OK, x86_nxvm_board_pic_refresh (pair_bus_update bus (\<lambda>e. e\<lparr>bus_device :=
             the (x86_pic_write_register (Some (bus_device e)) selector v)\<rparr>) b)))"

fun x86_nxvm_board_pic_capture_registers ::
  "pic_bus_end ptr \<Rightarrow> x86_pic_register_state ptr \<Rightarrow> pic_pair \<Rightarrow>
     lib_status \<times> x86_pic_register_state ptr" where
  "x86_nxvm_board_pic_capture_registers None out b = (LIB_STATUS_INVALID_ARGUMENT, out)"
| "x86_nxvm_board_pic_capture_registers (Some bus) out b =
     x86_pic_capture_registers (Some (bus_device (pair_bus bus b))) out"

fun pic_bus_read ::
  "pic_bus_end ptr \<Rightarrow> lib_u16 \<Rightarrow> lib_u32 ptr \<Rightarrow> pic_pair \<Rightarrow> lib_status \<times> lib_u32 ptr \<times> pic_pair" where
  "pic_bus_read (Some bus) port_id (Some out_value) b =
     (case x86_nxvm_board_pic_read_register (Some bus) (ucast (port_id AND 1)) (Some 0) b of
        (_, v, b1) \<Rightarrow> (LIB_STATUS_OK, map_option ucast v, b1))"
| "pic_bus_read _ port_id out_value b = (LIB_STATUS_INVALID_ARGUMENT, out_value, b)"

fun pic_bus_write ::
  "pic_bus_end ptr \<Rightarrow> lib_u16 \<Rightarrow> lib_u32 \<Rightarrow> pic_pair \<Rightarrow> lib_status \<times> pic_pair" where
  "pic_bus_write None port_id v b = (LIB_STATUS_INVALID_ARGUMENT, b)"
| "pic_bus_write (Some bus) port_id v b =
     x86_nxvm_board_pic_write_register (Some bus) (ucast (port_id AND 1)) (ucast v) b"

section \<open>Construction, reset and time\<close>

text \<open>
  The ports decoded for each topology. The single-controller topology leaves the slave undecoded.
\<close>

definition pic_bus_routes :: "x86_nxvm_board_pic_topology \<Rightarrow> (lib_u16 \<times> pic_bus_end) list" where
  "pic_bus_routes topology =
     map (\<lambda>index. ((if index < 2 then 0x20 else 0xa0) + of_nat (index mod 2),
                    if index < 2 then PIC_BUS_MASTER else PIC_BUS_SLAVE))
       [0..<(if topology = X86_NXVM_BOARD_PIC_TOPOLOGY_CASCADED then 4 else 2)]"

text \<open>
  The three allocations and the installation of the port routes may each fail; a failed
  construction publishes nothing.
\<close>

definition x86_nxvm_board_pic_initialize ::
  "bool \<Rightarrow> bool \<Rightarrow> bool \<Rightarrow> lib_status \<Rightarrow> lib_status \<times> pic_pair ptr" where
  "x86_nxvm_board_pic_initialize pair_allocated master_allocated slave_allocated install =
     (if \<not> pair_allocated then (LIB_STATUS_NO_MEMORY, None)
      else case x86_pic_create master_allocated True (Some None) of
          (LIB_STATUS_OK, Some (Some master)) \<Rightarrow>
            (case x86_pic_create slave_allocated False (Some None) of
               (LIB_STATUS_OK, Some (Some slave)) \<Rightarrow>
                 (if install \<noteq> LIB_STATUS_OK then (install, None)
                  else (LIB_STATUS_OK, Some \<lparr>
                    pair_master = \<lparr>bus_device = master, bus_asserted = (\<lambda>_. 0)\<rparr>,
                    pair_slave = \<lparr>bus_device = slave, bus_asserted = (\<lambda>_. 0)\<rparr>,
                    pair_sources = []\<rparr>))
             | (status, _) \<Rightarrow> (status, None))
        | (status, _) \<Rightarrow> (status, None))"

definition pair_devices :: "(x86_pic ptr \<Rightarrow> x86_pic ptr) \<Rightarrow> (x86_pic ptr \<Rightarrow> x86_pic ptr) \<Rightarrow> pic_pair \<Rightarrow> pic_pair" where
  "pair_devices f g b =
     b\<lparr>pair_master := (pair_master b)\<lparr>bus_device := the (f (Some (bus_device (pair_master b))))\<rparr>,
       pair_slave := (pair_slave b)\<lparr>bus_device := the (g (Some (bus_device (pair_slave b))))\<rparr>\<rparr>"

definition x86_nxvm_board_pic_reset :: "pic_pair \<Rightarrow> pic_pair" where
  "x86_nxvm_board_pic_reset b =
     x86_nxvm_board_pic_refresh (pair_devices x86_pic_reset x86_pic_reset b)"

definition x86_nxvm_board_pic_set_irq_timing :: "(nat \<Rightarrow> lib_u32) ptr \<Rightarrow> pic_pair \<Rightarrow> pic_pair" where
  "x86_nxvm_board_pic_set_irq_timing timing b =
     (case timing of None \<Rightarrow> b
      | Some ticks \<Rightarrow> pair_devices (\<lambda>p. x86_pic_set_irq_timing p (Some ticks))
          (\<lambda>p. x86_pic_set_irq_timing p (Some (\<lambda>k. ticks (k + 8)))) b)"

definition x86_nxvm_board_pic_advance :: "lib_u64 \<Rightarrow> pic_pair \<Rightarrow> pic_pair" where
  "x86_nxvm_board_pic_advance elapsed b =
     pair_devices (\<lambda>p. x86_pic_advance p elapsed) (\<lambda>p. x86_pic_advance p elapsed) b"

fun x86_nxvm_board_pic_ticks_until_event ::
  "lib_u64 ptr \<Rightarrow> pic_pair \<Rightarrow> lib_status \<times> lib_u64 ptr" where
  "x86_nxvm_board_pic_ticks_until_event None b = (LIB_STATUS_INVALID_ARGUMENT, None)"
| "x86_nxvm_board_pic_ticks_until_event (Some out_ticks) b =
     (case (x86_pic_ticks_until_event (Some (bus_device (pair_master b))) (Some 0),
            x86_pic_ticks_until_event (Some (bus_device (pair_slave b))) (Some 0)) of
        ((s1, t1), (s2, t2)) \<Rightarrow>
          (if s1 \<noteq> LIB_STATUS_OK \<and> s2 \<noteq> LIB_STATUS_OK
           then (LIB_STATUS_INVALID_STATE, Some out_ticks)
           else (LIB_STATUS_OK,
             Some (if s1 \<noteq> LIB_STATUS_OK then the t2
                   else if s2 = LIB_STATUS_OK \<and> the t2 < the t1 then the t2 else the t1))))"

section \<open>Interrupt sources\<close>

text \<open>
  Binding returns the status, the handle \<^verbatim>\<open>*out_source\<close> and the pair; \<open>out_source\<close> is
  the cell's previous content.
\<close>

definition x86_nxvm_board_pic_irq_source_bind ::
  "bool \<Rightarrow> nat ptr ptr \<Rightarrow> lib_u8 \<Rightarrow> pic_pair \<Rightarrow> lib_status \<times> nat ptr ptr \<times> pic_pair" where
  "x86_nxvm_board_pic_irq_source_bind allocated out_source irq_id b =
     (case out_source of
        None \<Rightarrow> (LIB_STATUS_INVALID_ARGUMENT, None, b)
      | Some cell \<Rightarrow>
          (if irq_id \<ge> 16 \<or> irq_id = 2 then (LIB_STATUS_INVALID_ARGUMENT, Some cell, b)
           else let fresh = \<lparr>src_irq = irq_id, src_asserted = False\<rparr>
                in case cell of
                     Some h \<Rightarrow>
                       (if h \<ge> length (pair_sources b)
                        then (LIB_STATUS_INVALID_STATE, Some cell, b)
                        else (LIB_STATUS_OK, Some (Some h),
                              b\<lparr>pair_sources := (pair_sources b)[h := fresh]\<rparr>))
                   | None \<Rightarrow>
                       (if \<not> allocated then (LIB_STATUS_NO_MEMORY, Some None, b)
                        else (LIB_STATUS_OK, Some (Some (length (pair_sources b))),
                              b\<lparr>pair_sources := pair_sources b @ [fresh]\<rparr>))))"

definition x86_nxvm_board_pic_irq_source_is_asserted :: "nat ptr \<Rightarrow> pic_pair \<Rightarrow> bool" where
  "x86_nxvm_board_pic_irq_source_is_asserted source b =
     (case source of None \<Rightarrow> False
      | Some h \<Rightarrow> h < length (pair_sources b) \<and> src_asserted (pair_sources b ! h))"

definition irq_bus :: "lib_u8 \<Rightarrow> pic_bus_end" where
  "irq_bus irq = (if irq < 8 then PIC_BUS_MASTER else PIC_BUS_SLAVE)"

definition irq_line :: "lib_u8 \<Rightarrow> nat" where
  "irq_line irq = unat (irq AND 7)"

definition x86_nxvm_board_pic_irq_source_assert :: "nat ptr \<Rightarrow> pic_pair \<Rightarrow> pic_pair" where
  "x86_nxvm_board_pic_irq_source_assert source b =
     (case source of None \<Rightarrow> b
      | Some h \<Rightarrow>
          (if h \<ge> length (pair_sources b) then b
           else let s = pair_sources b ! h in
             if src_asserted s \<or> src_irq s \<ge> 16 then b
             else
               let bus = irq_bus (src_irq s);
                   line = irq_line (src_irq s);
                   count = bus_asserted (pair_bus bus b) line;
                   edge = (if count = 0 then BIT_MASK line else 0);
                   b1 = b\<lparr>pair_sources := (pair_sources b)[h := s\<lparr>src_asserted := True\<rparr>]\<rparr>;
                   b2 = (if count \<noteq> 0xff
                     then pair_bus_update bus
                       (\<lambda>e. e\<lparr>bus_asserted := (bus_asserted e)(line := count + 1)\<rparr>) b1
                     else b1);
                   b3 = pair_bus_update bus
                     (\<lambda>e. bus_set_inputs (pic_bus_levels e) edge 0 e) b2
               in x86_nxvm_board_pic_refresh b3))"

definition x86_nxvm_board_pic_irq_source_deassert :: "nat ptr \<Rightarrow> pic_pair \<Rightarrow> pic_pair" where
  "x86_nxvm_board_pic_irq_source_deassert source b =
     (case source of None \<Rightarrow> b
      | Some h \<Rightarrow>
          (if h \<ge> length (pair_sources b) then b
           else let s = pair_sources b ! h in
             if \<not> src_asserted s then b
             else
               let bus = irq_bus (src_irq s);
                   line = irq_line (src_irq s);
                   b1 = b\<lparr>pair_sources := (pair_sources b)[h := s\<lparr>src_asserted := False\<rparr>]\<rparr>
               in if src_irq s \<ge> 16 then b1
                  else if bus_asserted (pair_bus bus b1) line = 0 then b1
                  else x86_nxvm_board_pic_refresh (pair_bus_update bus
                    (\<lambda>e. e\<lparr>bus_asserted := (bus_asserted e)(line := bus_asserted e line - 1)\<rparr>) b1)))"

definition x86_nxvm_board_pic_timer_output :: "nat ptr \<Rightarrow> lib_u8 \<Rightarrow> pic_pair \<Rightarrow> pic_pair" where
  "x86_nxvm_board_pic_timer_output owner asserted b =
     (if asserted \<noteq> 0 then x86_nxvm_board_pic_irq_source_assert owner b
      else x86_nxvm_board_pic_irq_source_deassert owner b)"

section \<open>The processor's interrupt cycles\<close>

definition pic_selected :: "x86_pic \<Rightarrow> x86_pic_request ptr" where
  "pic_selected pic =
     (case x86_pic_select (Some pic) (Some pic_spurious_request) of
        (LIB_STATUS_OK, r) \<Rightarrow> r | _ \<Rightarrow> None)"

definition x86_nxvm_board_pic_scan_interrupt :: "pic_pair \<Rightarrow> bool" where
  "x86_nxvm_board_pic_scan_interrupt b =
     (case pic_selected (bus_device (pair_master b)) of
        None \<Rightarrow> False
      | Some request \<Rightarrow>
          \<not> req_cascade request \<or> pic_selected (bus_device (pair_slave b)) \<noteq> None)"

definition x86_nxvm_board_pic_peek_interrupt :: "pic_pair \<Rightarrow> lib_u8" where
  "x86_nxvm_board_pic_peek_interrupt b =
     (case pic_selected (bus_device (pair_master b)) of
        None \<Rightarrow> 0
      | Some request \<Rightarrow>
          (if req_cascade request then
             (case pic_selected (bus_device (pair_slave b)) of
                None \<Rightarrow> 0 | Some slave_request \<Rightarrow> req_vector slave_request)
           else req_vector request))"

definition x86_nxvm_board_pic_get_interrupt :: "pic_pair \<Rightarrow> lib_u8 \<times> pic_pair" where
  "x86_nxvm_board_pic_get_interrupt b =
     (let (master, request) = x86_pic_acknowledge (Some (bus_device (pair_master b)));
          b1 = pair_bus_update PIC_BUS_MASTER (\<lambda>e. e\<lparr>bus_device := the master\<rparr>) b
      in if req_cascade request then
           let (slave, slave_request) = x86_pic_acknowledge (Some (bus_device (pair_slave b1)));
               b2 = pair_bus_update PIC_BUS_SLAVE (\<lambda>e. e\<lparr>bus_device := the slave\<rparr>) b1
           in (req_vector slave_request, x86_nxvm_board_pic_refresh b2)
         else (req_vector request, b1))"

section \<open>Frames\<close>

lemma pic_levels_RespondINTR [simp]: "pic_input_levels (RespondINTR pic k c) = pic_input_levels pic"
  by (simp add: RespondINTR_def Let_def)

lemma pic_levels_read [simp]:
  "pic_input_levels (the (fst (x86_pic_read_register (Some pic) sel (Some v)))) = pic_input_levels pic"
  by (auto simp: io_read_00x0_def io_read_00x1_def Let_def case_prod_beta
      split: prod.split lib_status.split option.split)

lemma pic_levels_write [simp]:
  "pic_input_levels (the (x86_pic_write_register (Some pic) sel v)) = pic_input_levels pic"
  by (auto simp: io_write_00x0_def io_write_00x1_def pic_write_ocw2_def pic_write_ocw3_def
      pic_begin_initialization_def Let_def split: t_pic_init_status.split)

lemma pic_levels_advance [simp]:
  "pic_input_levels (pic_advance_one pic n) = pic_input_levels pic"
  by (simp add: pic_advance_one_def)

lemma pic_levels_acknowledge [simp]:
  "pic_input_levels (the (fst (x86_pic_acknowledge (Some pic)))) = pic_input_levels pic"
  by (auto split: prod.split lib_status.split option.split simp del: x86_pic_select.simps)

lemma pic_levels_set_inputs [simp]:
  "pic_input_levels (the (x86_pic_set_inputs (Some pic) l a c)) = l"
  by (simp add: Let_def)

lemma pair_bus_eq_iff:
  "pair_bus e (pair_bus_update e' f b) = (if e = e' then f (pair_bus e b) else pair_bus e b)"
  by (cases e; cases e') simp_all

lemma pair_sources_update [simp]: "pair_sources (pair_bus_update e f b) = pair_sources b"
  by (cases e) simp_all

lemma pair_bus_sources [simp]: "pair_bus e (b\<lparr>pair_sources := ss\<rparr>) = pair_bus e b"
  by (cases e) simp_all

lemma pair_ends [simp]:
  "pair_master b = pair_bus PIC_BUS_MASTER b" "pair_slave b = pair_bus PIC_BUS_SLAVE b"
  by simp_all

declare pair_bus.simps [simp del] pair_bus_update.simps [simp del]
declare x86_pic_set_inputs.simps [simp del] x86_pic_select.simps [simp del]
  x86_pic_acknowledge.simps [simp del] x86_pic_read_register.simps [simp del]
  x86_pic_write_register.simps [simp del]

lemma pic_bus_levels_cong: "bus_asserted e = bus_asserted e' \<Longrightarrow> pic_bus_levels e = pic_bus_levels e'"
  by (simp add: pic_bus_levels_def)

lemma pic_bus_levels_inputs [simp]:
  "pic_bus_levels (bus_set_inputs l a c e) = pic_bus_levels e"
  "pic_bus_levels (e\<lparr>bus_device := d\<rparr>) = pic_bus_levels e"
  by (simp_all add: bus_set_inputs_def cong: pic_bus_levels_cong)

lemma bit_pic_bus_levels: "bit (pic_bus_levels e) k \<longleftrightarrow> k < 8 \<and> bus_asserted e k \<noteq> 0"
proof -
  have "bit (fold (\<lambda>j levels. if bus_asserted e j \<noteq> 0 then levels OR BIT_MASK j else levels) js acc) k
      \<longleftrightarrow> bit acc k \<or> (k \<in> set js \<and> k < 8 \<and> bus_asserted e k \<noteq> 0)" for js and acc :: lib_u8
    by (induction js arbitrary: acc) (auto simp: bit_simps)
  then show ?thesis by (auto simp: pic_bus_levels_def)
qed

lemma refresh_sources [simp]: "pair_sources (x86_nxvm_board_pic_refresh b) = pair_sources b"
  by (simp add: x86_nxvm_board_pic_refresh_def Let_def)

lemma refresh_asserted [simp]:
  "bus_asserted (pair_bus e (x86_nxvm_board_pic_refresh b)) = bus_asserted (pair_bus e b)"
  by (simp add: x86_nxvm_board_pic_refresh_def Let_def pair_bus_eq_iff bus_set_inputs_def)

lemma refresh_levels [simp]:
  "pic_input_levels (bus_device (pair_bus e (x86_nxvm_board_pic_refresh b))) =
    pic_bus_levels (pair_bus e b)"
  by (cases e) (simp_all add: x86_nxvm_board_pic_refresh_def Let_def pair_bus_eq_iff bus_set_inputs_def
      del: pic_bus_levels_inputs)

section \<open>Counting asserted sources\<close>

definition src_on :: "pic_bus_end \<Rightarrow> nat \<Rightarrow> x86_nxvm_board_pic_irq_source \<Rightarrow> bool" where
  "src_on e l s \<longleftrightarrow> src_asserted s \<and> irq_bus (src_irq s) = e \<and> irq_line (src_irq s) = l"

definition asserted_count :: "pic_bus_end \<Rightarrow> nat \<Rightarrow> x86_nxvm_board_pic_irq_source list \<Rightarrow> nat" where
  "asserted_count e l ss = length (filter (src_on e l) ss)"

lemma asserted_count_append [simp]:
  "asserted_count e l (ss @ [s]) = asserted_count e l ss + of_bool (src_on e l s)"
  by (simp add: asserted_count_def)

lemma asserted_count_update:
  assumes "h < length ss"
  shows "asserted_count e l (ss[h := s]) + of_bool (src_on e l (ss ! h)) =
    asserted_count e l ss + of_bool (src_on e l s)"
proof -
  have "asserted_count e l ss = asserted_count e l (take h ss @ ss ! h # drop (Suc h) ss)"
    by (simp only: id_take_nth_drop [OF assms, symmetric])
  then show ?thesis
    using assms by (simp add: upd_conv_take_nth_drop asserted_count_def)
qed

lemma sources_update_irq:
  assumes "\<forall>s \<in> set ss. src_irq s < 16" "h < length ss" "src_irq s' = src_irq (ss ! h)"
  shows "\<forall>s \<in> set (ss[h := s']). src_irq s < 16"
  using assms by (auto dest!: subsetD [OF set_update_subset_insert])

lemma asserted_count_le: "asserted_count e l ss \<le> length ss"
  by (simp add: asserted_count_def)

lemma asserted_count_less:
  assumes "h < length ss" "\<not> src_asserted (ss ! h)"
  shows "asserted_count e l ss < length ss"
  unfolding asserted_count_def
  by (rule length_filter_less [of "ss ! h"]) (use assms in \<open>auto simp: src_on_def\<close>)

lemma asserted_count_pos: "0 < asserted_count e l ss \<longleftrightarrow> (\<exists>s \<in> set ss. src_on e l s)"
  by (simp add: asserted_count_def filter_empty_conv)

definition pair_counts :: "pic_pair \<Rightarrow> bool" where
  "pair_counts b \<longleftrightarrow> length (pair_sources b) \<le> 255 \<and>
     (\<forall>s \<in> set (pair_sources b). src_irq s < 16) \<and>
     (\<forall>e l. l < 8 \<longrightarrow> unat (bus_asserted (pair_bus e b) l) = asserted_count e l (pair_sources b))"

definition pair_levels :: "pic_pair \<Rightarrow> bool" where
  "pair_levels b \<longleftrightarrow>
     (\<forall>e. pic_input_levels (bus_device (pair_bus e b)) = pic_bus_levels (pair_bus e b))"

lemma pair_levels_refresh [simp]: "pair_levels (x86_nxvm_board_pic_refresh b)"
  by (simp add: pair_levels_def pic_bus_levels_def)

lemma pair_counts_cong:
  assumes "pair_sources b = pair_sources b'" "\<And>e. bus_asserted (pair_bus e b) = bus_asserted (pair_bus e b')"
  shows "pair_counts b = pair_counts b'"
  using assms by (simp add: pair_counts_def)

lemma pair_counts_refresh [simp]: "pair_counts (x86_nxvm_board_pic_refresh b) = pair_counts b"
  by (rule pair_counts_cong) simp_all

lemma irq_line_lt [simp]: "irq_line irq < 8"
proof -
  have "irq AND 7 \<le> 7" by (rule word_and_le1)
  then show ?thesis by (simp add: irq_line_def word_le_nat_alt)
qed

lemma pair_counts_assert:
  assumes "pair_counts b"
  shows "pair_counts (x86_nxvm_board_pic_irq_source_assert source b)"
proof (cases "\<exists>h. source = Some h \<and> h < length (pair_sources b) \<and>
    \<not> src_asserted (pair_sources b ! h) \<and> \<not> src_irq (pair_sources b ! h) \<ge> 16")
  case False
  then show ?thesis
    using assms by (auto simp: x86_nxvm_board_pic_irq_source_assert_def Let_def split: option.split)
next
  case True
  then obtain h where h: "source = Some h" "h < length (pair_sources b)"
    "\<not> src_asserted (pair_sources b ! h)" "\<not> src_irq (pair_sources b ! h) \<ge> 16" by blast
  let ?s = "pair_sources b ! h"
  let ?e = "irq_bus (src_irq ?s)" and ?l = "irq_line (src_irq ?s)"
  let ?c = "bus_asserted (pair_bus ?e b) ?l"
  have "unat ?c < 255"
    using asserted_count_less [OF h(2,3), of ?e ?l] assms by (simp add: pair_counts_def)
  then have c: "?c \<noteq> 0xff" "unat (?c + 1) = unat ?c + 1"
    using unat_plus_if' [of ?c 1] by auto
  have upd: "asserted_count e l ((pair_sources b)[h := ?s\<lparr>src_asserted := True\<rparr>]) =
      asserted_count e l (pair_sources b) + of_bool (e = ?e \<and> l = ?l)" for e l
    using asserted_count_update [OF h(2), of e l "?s\<lparr>src_asserted := True\<rparr>"] h(3)
    by (auto simp: src_on_def)
  have "\<forall>s \<in> set ((pair_sources b)[h := ?s\<lparr>src_asserted := True\<rparr>]). src_irq s < 16"
    by (rule sources_update_irq) (use assms h(2) in \<open>simp_all add: pair_counts_def\<close>)
  then show ?thesis
    using assms c h
    by (simp add: x86_nxvm_board_pic_irq_source_assert_def Let_def)
      (auto simp: pair_counts_def pair_bus_eq_iff bus_set_inputs_def upd)
qed

lemma pair_counts_deassert:
  assumes "pair_counts b"
  shows "pair_counts (x86_nxvm_board_pic_irq_source_deassert source b)"
proof (cases "\<exists>h. source = Some h \<and> h < length (pair_sources b) \<and> src_asserted (pair_sources b ! h)")
  case False
  then show ?thesis
    using assms by (auto simp: x86_nxvm_board_pic_irq_source_deassert_def Let_def split: option.split)
next
  case True
  then obtain h where h: "source = Some h" "h < length (pair_sources b)"
    "src_asserted (pair_sources b ! h)" by blast
  let ?s = "pair_sources b ! h"
  let ?e = "irq_bus (src_irq ?s)" and ?l = "irq_line (src_irq ?s)"
  let ?c = "bus_asserted (pair_bus ?e b) ?l"
  have irq: "\<not> src_irq ?s \<ge> 16" using assms h(2) by (simp add: pair_counts_def not_le)
  have "0 < asserted_count ?e ?l (pair_sources b)"
    unfolding asserted_count_pos using h(2,3) by (auto simp: src_on_def intro: nth_mem)
  then have "0 < unat ?c" using assms by (simp add: pair_counts_def)
  then have c: "?c \<noteq> 0" "unat (?c - 1) = unat ?c - 1"
    by (auto simp: unat_minus_one unat_gt_0)
  have upd: "asserted_count e l ((pair_sources b)[h := ?s\<lparr>src_asserted := False\<rparr>]) =
      asserted_count e l (pair_sources b) - of_bool (e = ?e \<and> l = ?l)" for e l
    using asserted_count_update [OF h(2), of e l "?s\<lparr>src_asserted := False\<rparr>"] h(3)
    by (auto simp: src_on_def)
  have "\<forall>s \<in> set ((pair_sources b)[h := ?s\<lparr>src_asserted := False\<rparr>]). src_irq s < 16"
    by (rule sources_update_irq) (use assms h(2) in \<open>simp_all add: pair_counts_def\<close>)
  then show ?thesis
    using assms c h irq
    by (simp add: x86_nxvm_board_pic_irq_source_deassert_def Let_def)
      (auto simp: pair_counts_def pair_bus_eq_iff upd)
qed

section \<open>Reachable boards\<close>

text \<open>
  What the guest, the devices and the scheduler do with a pair. A source may be bound again only
  while it is quiescent, as \<^verbatim>\<open>pic_bus_interface.h\<close> requires, and a board binds at
  most 255 sources.
\<close>

inductive pair_step :: "pic_pair \<Rightarrow> pic_pair \<Rightarrow> bool" where
  pair_read: "x86_nxvm_board_pic_read_register (Some e) sel (Some v) b = (st, w, b') \<Longrightarrow> pair_step b b'"
| pair_write: "x86_nxvm_board_pic_write_register (Some e) sel v b = (st, b') \<Longrightarrow> pair_step b b'"
| pair_get: "x86_nxvm_board_pic_get_interrupt b = (v, b') \<Longrightarrow> pair_step b b'"
| pair_assert: "pair_step b (x86_nxvm_board_pic_irq_source_assert source b)"
| pair_deassert: "pair_step b (x86_nxvm_board_pic_irq_source_deassert source b)"
| pair_advance: "pair_step b (x86_nxvm_board_pic_advance n b)"
| pair_timing: "pair_step b (x86_nxvm_board_pic_set_irq_timing t b)"
| pair_reset: "pair_step b (x86_nxvm_board_pic_reset b)"
| pair_bind_new: "x86_nxvm_board_pic_irq_source_bind alloc (Some None) irq b = (st, out, b') \<Longrightarrow>
    length (pair_sources b) < 255 \<Longrightarrow> pair_step b b'"
| pair_rebind: "x86_nxvm_board_pic_irq_source_bind alloc (Some (Some h)) irq b = (st, out, b') \<Longrightarrow>
    \<not> x86_nxvm_board_pic_irq_source_is_asserted (Some h) b \<Longrightarrow> pair_step b b'"

inductive pair_reachable :: "pic_pair \<Rightarrow> bool" where
  pair_created: "x86_nxvm_board_pic_initialize True True True LIB_STATUS_OK = (LIB_STATUS_OK, Some b) \<Longrightarrow>
    pair_reachable b"
| pair_stepped: "pair_reachable b \<Longrightarrow> pair_step b b' \<Longrightarrow> pair_reachable b'"

lemma pair_counts_bind_new:
  assumes "pair_counts b" "length (pair_sources b) < 255"
    "x86_nxvm_board_pic_irq_source_bind alloc (Some None) irq b = (st, out, b')"
  shows "pair_counts b'"
  using assms
  by (auto simp: x86_nxvm_board_pic_irq_source_bind_def pair_counts_def src_on_def Let_def not_le
      split: if_splits)

lemma pair_counts_rebind:
  assumes "pair_counts b" "\<not> x86_nxvm_board_pic_irq_source_is_asserted (Some h) b"
    "x86_nxvm_board_pic_irq_source_bind alloc (Some (Some h)) irq b = (st, out, b')"
  shows "pair_counts b'"
proof (cases "h < length (pair_sources b) \<and> irq < 16 \<and> irq \<noteq> 2")
  case True
  then have h: "h < length (pair_sources b)" and irq: "irq < 16" and nirq: "\<not> 16 \<le> irq"
    by (simp_all add: not_le)
  have off: "\<not> src_asserted (pair_sources b ! h)"
    using assms(2) h by (simp add: x86_nxvm_board_pic_irq_source_is_asserted_def)
  have same: "asserted_count e l ((pair_sources b)[h := \<lparr>src_irq = irq, src_asserted = False\<rparr>]) =
      asserted_count e l (pair_sources b)" for e l
    using asserted_count_update [OF h, of e l "\<lparr>src_irq = irq, src_asserted = False\<rparr>"] off
    by (simp add: src_on_def)
  have "b' = b\<lparr>pair_sources := (pair_sources b)[h := \<lparr>src_irq = irq, src_asserted = False\<rparr>]\<rparr>"
    using assms(3) True nirq by (simp add: x86_nxvm_board_pic_irq_source_bind_def Let_def)
  moreover have "\<forall>s \<in> set ((pair_sources b)[h := \<lparr>src_irq = irq, src_asserted = False\<rparr>]). src_irq s < 16"
    using assms(1) irq by (auto simp: pair_counts_def dest!: subsetD [OF set_update_subset_insert])
  ultimately show ?thesis using assms(1) by (simp add: pair_counts_def same)
next
  case False
  then show ?thesis
    using assms by (auto simp: x86_nxvm_board_pic_irq_source_bind_def not_le split: if_splits)
qed

lemma pair_levels_assert: "pair_levels b \<Longrightarrow> pair_levels (x86_nxvm_board_pic_irq_source_assert s b)"
  by (auto simp: x86_nxvm_board_pic_irq_source_assert_def Let_def split: option.split)

lemma pair_levels_sources: "pair_levels b \<Longrightarrow> pair_levels (b\<lparr>pair_sources := ss\<rparr>)"
  by (simp add: pair_levels_def)

lemma pair_levels_deassert: "pair_levels b \<Longrightarrow> pair_levels (x86_nxvm_board_pic_irq_source_deassert s b)"
  by (cases s) (simp_all add: x86_nxvm_board_pic_irq_source_deassert_def Let_def pair_levels_sources)

lemma pair_bus_devices:
  "pair_bus PIC_BUS_MASTER (pair_devices f g b) =
    (pair_bus PIC_BUS_MASTER b)\<lparr>bus_device := the (f (Some (bus_device (pair_bus PIC_BUS_MASTER b))))\<rparr>"
  "pair_bus PIC_BUS_SLAVE (pair_devices f g b) =
    (pair_bus PIC_BUS_SLAVE b)\<lparr>bus_device := the (g (Some (bus_device (pair_bus PIC_BUS_SLAVE b))))\<rparr>"
  "pair_sources (pair_devices f g b) = pair_sources b"
  by (simp_all add: pair_devices_def pair_bus.simps del: pair_ends)

lemma pair_counts_devices [simp]: "pair_counts (pair_devices f g b) = pair_counts b"
proof (rule pair_counts_cong)
  fix e show "bus_asserted (pair_bus e (pair_devices f g b)) = bus_asserted (pair_bus e b)"
    by (cases e) (simp_all add: pair_bus_devices)
qed (simp add: pair_bus_devices)

lemma pair_levels_devices:
  assumes "\<And>p. pic_input_levels (the (f (Some p))) = pic_input_levels p"
    "\<And>p. pic_input_levels (the (g (Some p))) = pic_input_levels p" "pair_levels b"
  shows "pair_levels (pair_devices f g b)"
  unfolding pair_levels_def
proof
  fix e show "pic_input_levels (bus_device (pair_bus e (pair_devices f g b))) =
      pic_bus_levels (pair_bus e (pair_devices f g b))"
    using assms by (cases e) (simp_all add: pair_bus_devices pair_levels_def)
qed

lemma pair_counts_device [simp]:
  "pair_counts (pair_bus_update e (\<lambda>x. x\<lparr>bus_device := d x\<rparr>) b) = pair_counts b"
  by (rule pair_counts_cong) (simp_all add: pair_bus_eq_iff)

lemma pair_levels_device:
  assumes "pair_levels b" "pic_input_levels (d (pair_bus e b)) = pic_input_levels (bus_device (pair_bus e b))"
  shows "pair_levels (pair_bus_update e (\<lambda>x. x\<lparr>bus_device := d x\<rparr>) b)"
  using assms by (auto simp: pair_levels_def pair_bus_eq_iff)

lemma pair_step_inv:
  "pair_step b b' \<Longrightarrow> pair_counts b \<Longrightarrow> pair_levels b \<Longrightarrow> pair_counts b' \<and> pair_levels b'"
proof (induction rule: pair_step.induct)
  case (pair_read e sel v b st w b')
  then show ?case
    by (auto simp: Let_def case_prod_beta pair_levels_device split: if_splits)
next
  case (pair_write e sel v b st b')
  then show ?case by (auto split: if_splits)
next
  case (pair_get b v b')
  then show ?case
    by (auto simp: x86_nxvm_board_pic_get_interrupt_def Let_def case_prod_beta pair_levels_device
        split: if_splits)
next
  case (pair_advance b n)
  then show ?case by (simp add: x86_nxvm_board_pic_advance_def pair_levels_devices)
next
  case (pair_timing b t)
  then show ?case
    by (auto simp: x86_nxvm_board_pic_set_irq_timing_def pair_levels_devices split: option.split)
next
  case (pair_reset b)
  then show ?case by (simp add: x86_nxvm_board_pic_reset_def)
next
  case (pair_bind_new alloc irq b st out b')
  then have "pair_levels b'"
    by (auto simp: x86_nxvm_board_pic_irq_source_bind_def Let_def pair_levels_sources split: if_splits)
  with pair_bind_new show ?case by (blast intro: pair_counts_bind_new)
next
  case (pair_rebind alloc h irq b st out b')
  then have "pair_levels b'"
    by (auto simp: x86_nxvm_board_pic_irq_source_bind_def Let_def pair_levels_sources split: if_splits)
  with pair_rebind show ?case by (blast intro: pair_counts_rebind)
qed (simp_all add: pair_counts_assert pair_counts_deassert pair_levels_assert pair_levels_deassert)

lemma pair_initialize_eq:
  "x86_nxvm_board_pic_initialize True True True LIB_STATUS_OK = (LIB_STATUS_OK, Some
     \<lparr>pair_master = \<lparr>bus_device = the (x86_pic_reset (Some (pic_zero True))), bus_asserted = (\<lambda>_. 0)\<rparr>,
      pair_slave = \<lparr>bus_device = the (x86_pic_reset (Some (pic_zero False))), bus_asserted = (\<lambda>_. 0)\<rparr>,
      pair_sources = []\<rparr>)"
  by (simp add: x86_nxvm_board_pic_initialize_def)

lemma pair_reachable_inv: "pair_reachable b \<Longrightarrow> pair_counts b \<and> pair_levels b"
proof (induction rule: pair_reachable.induct)
  case (pair_created b)
  have "pic_bus_levels \<lparr>bus_device = d, bus_asserted = (\<lambda>_. 0)\<rparr> = 0" for d
    by (rule bit_word_eqI) (simp add: bit_pic_bus_levels)
  moreover have "pair_bus e b = \<lparr>bus_device = the (x86_pic_reset (Some (pic_zero (e = PIC_BUS_MASTER)))),
      bus_asserted = (\<lambda>_. 0)\<rparr>" for e
    using pair_created unfolding pair_initialize_eq
    by (cases e) (auto simp: pair_bus.simps simp del: pair_ends)
  moreover have "pair_sources b = []" using pair_created unfolding pair_initialize_eq by auto
  ultimately show ?case by (simp add: pair_counts_def pair_levels_def asserted_count_def pic_zero_def)
next
  case (pair_stepped b b')
  then show ?case using pair_step_inv by blast
qed


lemma pair_inputs_reachable:
  "pic_reachable m (bus_device e) \<Longrightarrow> pic_reachable m (bus_device (bus_set_inputs l a c e))"
  unfolding bus_set_inputs_def
  by (simp, erule pic_reachable.stepped, rule pic_step.step_inputs [where l = l and a = a and c = c])
    (simp add: x86_pic_set_inputs.simps Let_def)

definition pair_chips :: "pic_pair \<Rightarrow> bool" where
  "pair_chips b \<longleftrightarrow> pic_reachable True (bus_device (pair_bus PIC_BUS_MASTER b)) \<and>
     pic_reachable False (bus_device (pair_bus PIC_BUS_SLAVE b))"

lemma pair_chips_refresh: "pair_chips b \<Longrightarrow> pair_chips (x86_nxvm_board_pic_refresh b)"
  by (simp add: pair_chips_def x86_nxvm_board_pic_refresh_def Let_def pair_bus_eq_iff
      pair_inputs_reachable)

lemma pair_chips_device:
  assumes "pair_chips b" "pic_step (bus_device (pair_bus e b)) (d (pair_bus e b))"
  shows "pair_chips (pair_bus_update e (\<lambda>x. x\<lparr>bus_device := d x\<rparr>) b)"
  using assms by (cases e) (auto simp: pair_chips_def pair_bus_eq_iff intro: pic_reachable.stepped)

lemma pair_chips_devices:
  assumes "pair_chips b" "\<And>p. pic_step p (the (f (Some p)))" "\<And>p. pic_step p (the (g (Some p)))"
  shows "pair_chips (pair_devices f g b)"
  using assms by (auto simp: pair_bus_devices pair_chips_def intro: pic_reachable.stepped)

lemma pair_chips_sources: "pair_chips (b\<lparr>pair_sources := ss\<rparr>) = pair_chips b"
  by (simp add: pair_chips_def)

lemma pair_chips_asserted:
  "pair_chips (pair_bus_update e (\<lambda>x. x\<lparr>bus_asserted := f x\<rparr>) b) = pair_chips b"
  by (simp add: pair_chips_def pair_bus_eq_iff)

lemma pair_chips_inputs:
  "pair_chips b \<Longrightarrow> pair_chips (pair_bus_update e (\<lambda>x. bus_set_inputs (f x) a c x) b)"
  by (simp add: pair_chips_def pair_bus_eq_iff pair_inputs_reachable)

lemma pic_step_ops:
  "pic_step p (the (fst (x86_pic_read_register (Some p) sel (Some v))))"
  "pic_step p (the (x86_pic_write_register (Some p) sel v))"
  "pic_step p (the (fst (x86_pic_acknowledge (Some p))))"
  "pic_step p (the (x86_pic_reset (Some p)))"
  "pic_step p (the (x86_pic_advance (Some p) n))"
  "pic_step p (the (x86_pic_set_irq_timing (Some p) (Some t)))"
proof -
  show "pic_step p (the (fst (x86_pic_read_register (Some p) sel (Some v))))"
    by (rule pic_step.step_read [where w = "snd (x86_pic_read_register (Some p) sel (Some v))"])
      (simp add: x86_pic_read_register.simps map_prod_def case_prod_beta)
  show "pic_step p (the (fst (x86_pic_acknowledge (Some p))))"
    by (rule pic_step.step_acknowledge [of _ _ "snd (x86_pic_acknowledge (Some p))"])
      (auto simp: x86_pic_acknowledge.simps split: prod.split lib_status.split option.split)
  show "pic_step p (the (x86_pic_write_register (Some p) sel v))"
    by (rule pic_step.step_write [of _ sel v]) (simp add: x86_pic_write_register.simps)
qed (auto intro: pic_step.intros)

lemma pair_step_chips: "pair_step b b' \<Longrightarrow> pair_chips b \<Longrightarrow> pair_chips b'"
proof (induction rule: pair_step.induct)
  case (pair_read e sel v b st w b')
  then show ?case
    by (auto simp: Let_def case_prod_beta split: if_splits
        intro!: pair_chips_refresh pair_chips_device pic_step_ops)
next
  case (pair_write e sel v b st b')
  then show ?case
    by (auto split: if_splits intro!: pair_chips_refresh pair_chips_device pic_step_ops)
next
  case (pair_get b v b')
  then show ?case
    by (auto simp: x86_nxvm_board_pic_get_interrupt_def Let_def case_prod_beta
        split: if_splits intro!: pair_chips_refresh pair_chips_device pic_step_ops)
next
  case (pair_assert b source)
  then show ?case
    by (auto simp: x86_nxvm_board_pic_irq_source_assert_def Let_def pair_chips_sources
        pair_chips_asserted split: option.split intro!: pair_chips_refresh pair_chips_inputs)
next
  case (pair_deassert b source)
  then show ?case
    by (cases source) (auto simp: x86_nxvm_board_pic_irq_source_deassert_def Let_def pair_chips_sources
        pair_chips_asserted intro!: pair_chips_refresh)
next
  case (pair_advance b n)
  then show ?case
    unfolding x86_nxvm_board_pic_advance_def by (rule pair_chips_devices) (rule pic_step_ops)+
next
  case (pair_timing b t)
  then show ?case
    by (cases t) (simp_all add: x86_nxvm_board_pic_set_irq_timing_def pair_chips_devices pic_step_ops
      del: x86_pic_set_irq_timing.simps)
next
  case (pair_reset b)
  then show ?case
    unfolding x86_nxvm_board_pic_reset_def
    by (intro pair_chips_refresh pair_chips_devices pic_step_ops)
qed (auto simp: x86_nxvm_board_pic_irq_source_bind_def Let_def pair_chips_sources split: if_splits)

lemma pair_reachable_chips: "pair_reachable b \<Longrightarrow> pair_chips b"
proof (induction rule: pair_reachable.induct)
  case (pair_created b)
  then show ?case
    unfolding pair_initialize_eq pair_chips_def
    by (auto simp: pair_bus.simps simp del: pair_ends intro!: pic_reachable.created)
next
  case (pair_stepped b b')
  then show ?case using pair_step_chips by blast
qed


section \<open>Properties of the pair\<close>

text \<open>
  C10: on every reachable board each input line of the two controllers is the wired-OR of the
  interrupt sources bound to it: high exactly while at least one of them is asserted.
\<close>

theorem pic_bus_wired_or:
  assumes "pair_reachable b" "l < 8"
  shows "bit (pic_input_levels (bus_device (pair_bus e b))) l \<longleftrightarrow>
    (\<exists>s \<in> set (pair_sources b). src_asserted s \<and> irq_bus (src_irq s) = e \<and> irq_line (src_irq s) = l)"
proof -
  have "pair_counts b" "pair_levels b" using pair_reachable_inv [OF assms(1)] by simp_all
  then have "bit (pic_input_levels (bus_device (pair_bus e b))) l \<longleftrightarrow>
      0 < asserted_count e l (pair_sources b)"
    using assms(2)
    by (simp add: pair_levels_def pair_counts_def bit_pic_bus_levels flip: unat_gt_0)
  then show ?thesis unfolding asserted_count_pos src_on_def .
qed

text \<open>
  A board after the usual PC/AT initialisation (vectors 08h and 70h, slave on line 2) with two
  sources bound to line 14, the first of them asserted.
\<close>

definition pair_program :: "(pic_bus_end \<times> lib_u8 \<times> lib_u8) list" where
  "pair_program = map (\<lambda>(sel, v). (PIC_BUS_MASTER, sel, v)) (pic_guest_program 0x11 0x08 0x04 0x01) @
     map (\<lambda>(sel, v). (PIC_BUS_SLAVE, sel, v)) (pic_guest_program 0x11 0x70 0x02 0x01)"

definition pic_at_slave :: x86_pic where
  "pic_at_slave = (pic_zero False)\<lparr>pic_icw1 := 0x11, pic_icw2 := 0x70, pic_icw3 := 0x02,
     pic_icw4 := 0x01, pic_ocw3 := 0x02, pic_status := OCW1\<rparr>"

definition pair_at :: "x86_nxvm_board_pic_irq_source list \<Rightarrow> pic_pair" where
  "pair_at sources =
     \<lparr>pair_master = \<lparr>bus_device = pic_at_master, bus_asserted = (\<lambda>_. 0)\<rparr>,
      pair_slave = \<lparr>bus_device = pic_at_slave, bus_asserted = (\<lambda>_. 0)\<rparr>,
      pair_sources = sources\<rparr>"

definition pair_demo :: pic_pair where
  "pair_demo =
     \<lparr>pair_master = \<lparr>bus_device = pic_at_master\<lparr>pic_cascade_irr := 0x04\<rparr>, bus_asserted = (\<lambda>_. 0)\<rparr>,
      pair_slave = \<lparr>bus_device = pic_at_slave\<lparr>pic_irr := 0x40, pic_input_levels := 0x40\<rparr>,
        bus_asserted = (\<lambda>_. 0)(6 := 1)\<rparr>,
      pair_sources = [\<lparr>src_irq = 14, src_asserted = True\<rparr>, \<lparr>src_irq = 14, src_asserted = False\<rparr>]\<rparr>"

lemma pair_reachable_writes:
  "pair_reachable b \<Longrightarrow>
    pair_reachable (fold (\<lambda>(e, sel, v) b. snd (x86_nxvm_board_pic_write_register (Some e) sel v b)) ws b)"
proof (induction ws arbitrary: b)
  case (Cons w ws)
  obtain e sel v where w: "w = (e, sel, v)" by (cases w)
  have "pair_reachable (snd (x86_nxvm_board_pic_write_register (Some e) sel v b))"
    by (rule pair_stepped [OF Cons.prems], rule pair_write) (rule surjective_pairing)
  then show ?case using Cons.IH by (simp add: w del: x86_nxvm_board_pic_write_register.simps)
qed simp

lemma pair_reachable_bind:
  assumes "pair_reachable b" "length (pair_sources b) < 255"
  shows "pair_reachable (snd (snd (x86_nxvm_board_pic_irq_source_bind True (Some None) irq b)))"
  by (rule pair_stepped [OF assms(1)], rule pair_bind_new [where b = b and alloc = True and irq = irq])
    (simp_all add: assms(2) prod_eq_iff)

lemma pic_bus_levels_idle [simp]:
  "pic_bus_levels \<lparr>bus_device = d, bus_asserted = (\<lambda>_. 0)\<rparr> = 0"
  by (rule bit_word_eqI) (simp add: bit_pic_bus_levels)

lemma pic_bus_cascade_idle:
  assumes "pic_status p \<noteq> OCW1 \<or> pic_irr p = 0 \<and> pic_cascade_irr p = 0"
  shows "pic_bus_cascade p = 0"
proof -
  have "x86_pic_select (Some p) (Some r) = (LIB_STATUS_INVALID_STATE, Some r)" for r
    using assms by (elim disjE) (simp_all add: x86_pic_select.simps Let_def pic_pending_requests_def)
  then show ?thesis by (simp add: pic_bus_cascade_def)
qed

definition pic_idle :: "x86_pic \<Rightarrow> bool" where
  "pic_idle p \<longleftrightarrow> pic_irr p = 0 \<and> pic_cascade_irr p = 0 \<and> pic_input_levels p = 0"

definition pair_of :: "x86_pic \<Rightarrow> x86_pic \<Rightarrow> pic_pair" where
  "pair_of m s =
     \<lparr>pair_master = \<lparr>bus_device = m, bus_asserted = (\<lambda>_. 0)\<rparr>,
      pair_slave = \<lparr>bus_device = s, bus_asserted = (\<lambda>_. 0)\<rparr>, pair_sources = []\<rparr>"

lemma pic_idle_inputs: "pic_idle p \<Longrightarrow> the (x86_pic_set_inputs (Some p) 0 0 0) = p"
  by (cases p) (simp add: pic_idle_def x86_pic_set_inputs.simps Let_def)

lemma refresh_idle: "pic_idle m \<Longrightarrow> pic_idle s \<Longrightarrow> x86_nxvm_board_pic_refresh (pair_of m s) = pair_of m s"
  using pic_bus_cascade_idle [of s]
  by (simp add: x86_nxvm_board_pic_refresh_def pair_of_def pair_bus.simps pair_bus_update.simps
      bus_set_inputs_def Let_def pic_idle_inputs pic_idle_def del: pair_ends)

lemma pic_idle_write: "pic_idle p \<Longrightarrow> pic_idle (the (x86_pic_write_register (Some p) sel v))"
  by (cases "pic_status p") (simp_all add: x86_pic_write_register.simps pic_idle_def io_write_00x0_def
      io_write_00x1_def pic_begin_initialization_def pic_write_ocw2_def pic_write_ocw3_def Let_def)

lemma pair_write_idle:
  assumes "pic_idle m" "pic_idle s" "sel \<le> 1"
  shows "snd (x86_nxvm_board_pic_write_register (Some PIC_BUS_MASTER) sel v (pair_of m s)) =
      pair_of (the (x86_pic_write_register (Some m) sel v)) s"
    "snd (x86_nxvm_board_pic_write_register (Some PIC_BUS_SLAVE) sel v (pair_of m s)) =
      pair_of m (the (x86_pic_write_register (Some s) sel v))"
proof -
  have "pair_bus_update PIC_BUS_MASTER (\<lambda>e. e\<lparr>bus_device :=
      the (x86_pic_write_register (Some (bus_device e)) sel v)\<rparr>) (pair_of m s) =
      pair_of (the (x86_pic_write_register (Some m) sel v)) s"
    "pair_bus_update PIC_BUS_SLAVE (\<lambda>e. e\<lparr>bus_device :=
      the (x86_pic_write_register (Some (bus_device e)) sel v)\<rparr>) (pair_of m s) =
      pair_of m (the (x86_pic_write_register (Some s) sel v))"
    by (simp_all add: pair_of_def pair_bus_update.simps del: pair_ends)
  then show "snd (x86_nxvm_board_pic_write_register (Some PIC_BUS_MASTER) sel v (pair_of m s)) =
      pair_of (the (x86_pic_write_register (Some m) sel v)) s"
    "snd (x86_nxvm_board_pic_write_register (Some PIC_BUS_SLAVE) sel v (pair_of m s)) =
      pair_of m (the (x86_pic_write_register (Some s) sel v))"
    using assms by (simp_all add: refresh_idle pic_idle_write not_less)
qed

lemma pair_program_at:
  "fold (\<lambda>(e, sel, v) b. snd (x86_nxvm_board_pic_write_register (Some e) sel v b)) pair_program
     (the (snd (x86_nxvm_board_pic_initialize True True True LIB_STATUS_OK))) = pair_at []"
proof -
  let ?w = "\<lambda>sel v p. the (x86_pic_write_register (Some p) sel v)"
  let ?m = "the (x86_pic_reset (Some (pic_zero True)))"
  let ?s = "the (x86_pic_reset (Some (pic_zero False)))"
  have m: "?w 1 0x01 (?w 1 0x04 (?w 1 0x08 (?w 0 0x11 ?m))) = pic_at_master"
    by (simp add: x86_pic_write_register.simps io_write_00x0_def io_write_00x1_def
        pic_begin_initialization_def pic_zero_def pic_at_master_def Let_def)
  have s: "?w 1 0x01 (?w 1 0x02 (?w 1 0x70 (?w 0 0x11 ?s))) = pic_at_slave"
    by (simp add: x86_pic_write_register.simps io_write_00x0_def io_write_00x1_def
        pic_begin_initialization_def pic_zero_def pic_at_slave_def Let_def)
  have idle: "pic_idle ?m" "pic_idle ?s" by (simp_all add: pic_idle_def pic_zero_def)
  have prog: "pair_program = [(PIC_BUS_MASTER, 0, 0x11), (PIC_BUS_MASTER, 1, 0x08),
      (PIC_BUS_MASTER, 1, 0x04), (PIC_BUS_MASTER, 1, 0x01), (PIC_BUS_SLAVE, 0, 0x11),
      (PIC_BUS_SLAVE, 1, 0x70), (PIC_BUS_SLAVE, 1, 0x02), (PIC_BUS_SLAVE, 1, 0x01)]"
    by (simp add: pair_program_def pic_guest_program_def)
  have init: "the (snd (x86_nxvm_board_pic_initialize True True True LIB_STATUS_OK)) = pair_of ?m ?s"
    unfolding pair_initialize_eq pair_of_def by simp
  have "fold (\<lambda>(e, sel, v) b. snd (x86_nxvm_board_pic_write_register (Some e) sel v b)) pair_program
      (pair_of ?m ?s) =
    pair_of (?w 1 0x01 (?w 1 0x04 (?w 1 0x08 (?w 0 0x11 ?m))))
      (?w 1 0x01 (?w 1 0x02 (?w 1 0x70 (?w 0 0x11 ?s))))"
    unfolding prog
    by (simp add: pair_write_idle pic_idle_write idle del: x86_nxvm_board_pic_write_register.simps
        x86_pic_reset.simps)
  then show ?thesis unfolding init m s by (simp add: pair_of_def pair_at_def)
qed

lemma pair_demo_assert:
  "x86_nxvm_board_pic_irq_source_assert (Some 0)
     (pair_at [\<lparr>src_irq = 14, src_asserted = False\<rparr>, \<lparr>src_irq = 14, src_asserted = False\<rparr>]) = pair_demo"
proof -
  have c: "pic_bus_cascade (pic_at_slave\<lparr>pic_irr := 0x40, pic_input_levels := 0x40, pic_cascade_irr := 0\<rparr>) = 0x04"
    by code_simp
  have l: "pic_bus_levels \<lparr>bus_device = d, bus_asserted = (\<lambda>_. 0)(6 := 1)\<rparr> = 0x40" for d
    by (simp add: pic_bus_levels_def upt_rec BIT_MASK_def)
  have e: "irq_bus 14 = PIC_BUS_SLAVE" "irq_line 14 = 6"
    by (simp_all add: irq_bus_def irq_line_def)
  show ?thesis
    using c
    by (simp add: x86_nxvm_board_pic_irq_source_assert_def pair_at_def pair_demo_def Let_def e l
        x86_nxvm_board_pic_refresh_def pair_bus.simps pair_bus_update.simps bus_set_inputs_def
        x86_pic_set_inputs.simps pic_at_master_def pic_at_slave_def pic_zero_def pic_is_level_def BIT_MASK_def
        del: pair_ends)
qed

lemma pair_demo_reachable: "pair_reachable pair_demo"
proof -
  let ?b0 = "the (snd (x86_nxvm_board_pic_initialize True True True LIB_STATUS_OK))"
  have "pair_reachable ?b0"
    by (rule pair_created) (simp add: pair_initialize_eq del: pair_ends)
  then have "pair_reachable (pair_at [])"
    unfolding pair_program_at [symmetric] by (rule pair_reachable_writes)
  then have "pair_reachable (snd (snd (x86_nxvm_board_pic_irq_source_bind True (Some None) 14
      (snd (snd (x86_nxvm_board_pic_irq_source_bind True (Some None) 14 (pair_at [])))))))"
    by (intro pair_reachable_bind) (simp_all add: x86_nxvm_board_pic_irq_source_bind_def pair_at_def)
  then have "pair_reachable (pair_at [\<lparr>src_irq = 14, src_asserted = False\<rparr>, \<lparr>src_irq = 14, src_asserted = False\<rparr>])"
    by (simp add: x86_nxvm_board_pic_irq_source_bind_def pair_at_def)
  then show ?thesis
    unfolding pair_demo_assert [symmetric] by (rule pair_stepped) (rule pair_assert)
qed

theorem pic_bus_wired_or_witness:
  "bit (pic_input_levels (bus_device (pair_bus PIC_BUS_SLAVE pair_demo))) 6"
proof -
  have "\<exists>s \<in> set (pair_sources pair_demo). src_asserted s \<and> irq_bus (src_irq s) = PIC_BUS_SLAVE \<and>
      irq_line (src_irq s) = 6"
    by code_simp
  then show ?thesis using pic_bus_wired_or [OF pair_demo_reachable, of 6 PIC_BUS_SLAVE] by simp
qed

lemma pic_acknowledge_some: "\<exists>p' r. x86_pic_acknowledge (Some pic) = (Some p', r)"
  unfolding x86_pic_acknowledge.simps
  by (cases "x86_pic_select (Some pic) (Some pic_spurious_request)")
    (auto split: lib_status.split option.split)

lemma pic_selected_cases:
  "x86_pic_acknowledge (Some pic) = (Some p', r) \<Longrightarrow> pic_selected pic = Some q \<Longrightarrow> r = q"
  by (auto simp: pic_selected_def x86_pic_acknowledge.simps
      split: prod.splits lib_status.splits option.splits)

lemma pic_selected_eligible:
  assumes "pic_inv pic" "pic_selected pic = Some q"
  shows "\<exists>k. pic_eligible pic k \<and> q = pic_request_of pic k"
  using pic_inv_irx [OF assms(1)]
  by (cases rule: x86_pic_select_cases) (use assms(2) in \<open>auto simp: pic_selected_def\<close>)

text \<open>
  C19: the three interrupt cycles of the processor agree. When the scan reports a deliverable
  interrupt, the acknowledge cycle returns exactly the vector a peek shows, and that vector is the
  programmed base of the controller that owns the line plus the line, of a request that is eligible
  there; when it reports none, a peek shows nothing.
\<close>

theorem pic_bus_interrupt_cycles:
  assumes "pair_reachable b"
  shows "if x86_nxvm_board_pic_scan_interrupt b
    then fst (x86_nxvm_board_pic_get_interrupt b) = x86_nxvm_board_pic_peek_interrupt b \<and>
      (\<exists>e k. pic_eligible (bus_device (pair_bus e b)) k \<and>
         unat (x86_nxvm_board_pic_peek_interrupt b) =
           unat (pic_icw2 (bus_device (pair_bus e b))) + k)
    else x86_nxvm_board_pic_peek_interrupt b = 0"
proof (cases "x86_nxvm_board_pic_scan_interrupt b")
  case False
  then show ?thesis
    by (auto simp: x86_nxvm_board_pic_scan_interrupt_def x86_nxvm_board_pic_peek_interrupt_def
        split: option.splits)
next
  case True
  have chips: "pair_chips b" by (rule pair_reachable_chips [OF assms])
  let ?m = "bus_device (pair_bus PIC_BUS_MASTER b)" and ?s = "bus_device (pair_bus PIC_BUS_SLAVE b)"
  have inv: "pic_inv ?m" "pic_inv ?s"
    using chips pic_reachable_inv by (auto simp: pair_chips_def)
  have vec: "unat (req_vector q) = unat (pic_icw2 pic) + k"
    if "pic_inv pic" "pic_eligible pic k" "q = pic_request_of pic k" for pic k q
    using vector_sum [OF pic_eligible_lt [OF that(2)]] that(1,3)
    by (simp add: pic_request_of_def pic_inv_def)
  obtain p1 r1 where a1: "x86_pic_acknowledge (Some ?m) = (Some p1, r1)"
    using pic_acknowledge_some by blast
  obtain p2 r2 where a2: "x86_pic_acknowledge (Some ?s) = (Some p2, r2)"
    using pic_acknowledge_some by blast
  from True obtain q1 where q1: "pic_selected ?m = Some q1"
    by (auto simp: x86_nxvm_board_pic_scan_interrupt_def split: option.splits)
  have r1: "r1 = q1" by (rule pic_selected_cases [OF a1 q1])
  show ?thesis
  proof (cases "req_cascade q1")
    case False
    then have "fst (x86_nxvm_board_pic_get_interrupt b) = req_vector q1"
      "x86_nxvm_board_pic_peek_interrupt b = req_vector q1"
      by (simp_all add: x86_nxvm_board_pic_get_interrupt_def x86_nxvm_board_pic_peek_interrupt_def
          a1 r1 q1)
    with True pic_selected_eligible [OF inv(1) q1] vec [OF inv(1)] show ?thesis
      by (metis (full_types))
  next
    case True
    then obtain q2 where q2: "pic_selected ?s = Some q2"
      using \<open>x86_nxvm_board_pic_scan_interrupt b\<close> q1
      by (auto simp: x86_nxvm_board_pic_scan_interrupt_def)
    have "r2 = q2" by (rule pic_selected_cases [OF a2 q2])
    then have "fst (x86_nxvm_board_pic_get_interrupt b) = req_vector q2"
      "x86_nxvm_board_pic_peek_interrupt b = req_vector q2"
      using True by (simp_all add: x86_nxvm_board_pic_get_interrupt_def
          x86_nxvm_board_pic_peek_interrupt_def a1 r1 q1 a2 q2 pair_bus_eq_iff)
    with \<open>x86_nxvm_board_pic_scan_interrupt b\<close> pic_selected_eligible [OF inv(2) q2] vec [OF inv(2)]
    show ?thesis by (metis (full_types))
  qed
qed

theorem pic_bus_interrupt_cycles_witness:
  "fst (x86_nxvm_board_pic_get_interrupt pair_demo) = 0x76"
proof -
  have "x86_nxvm_board_pic_scan_interrupt pair_demo"
    "x86_nxvm_board_pic_peek_interrupt pair_demo = 0x76"
    by code_simp+
  then show ?thesis using pic_bus_interrupt_cycles [OF pair_demo_reachable] by simp
qed

section \<open>Time and cascade\<close>

lemma pair_advance_eq:
  "x86_nxvm_board_pic_advance n b =
    b\<lparr>pair_master := (pair_bus PIC_BUS_MASTER b)\<lparr>bus_device :=
         pic_advance_one (bus_device (pair_bus PIC_BUS_MASTER b)) n\<rparr>,
      pair_slave := (pair_bus PIC_BUS_SLAVE b)\<lparr>bus_device :=
         pic_advance_one (bus_device (pair_bus PIC_BUS_SLAVE b)) n\<rparr>\<rparr>"
  by (simp add: x86_nxvm_board_pic_advance_def pair_devices_def)

interpretation pair_time: tick_component x86_nxvm_board_pic_advance pair_chips
proof
  fix b and m n :: lib_u64
  assume b: "pair_chips b"
  then have inv: "pic_inv (bus_device (pair_bus PIC_BUS_MASTER b))"
    "pic_inv (bus_device (pair_bus PIC_BUS_SLAVE b))"
    using pic_reachable_inv by (auto simp: pair_chips_def)
  show "x86_nxvm_board_pic_advance 0 b = b"
    by (simp add: pair_advance_eq pic_advance_one_def pair_bus.simps del: pair_ends)
  show "pair_chips (x86_nxvm_board_pic_advance n b)"
    unfolding x86_nxvm_board_pic_advance_def by (rule pair_chips_devices [OF b]) (rule pic_step_ops)+
  assume "unat m + unat n < 2 ^ 64"
  then show "x86_nxvm_board_pic_advance (m + n) b =
      x86_nxvm_board_pic_advance n (x86_nxvm_board_pic_advance m b)"
    using pic_time.adv_add [OF inv(1)] pic_time.adv_add [OF inv(2)]
    by (simp add: pair_advance_eq pair_bus.simps del: pair_ends)
qed

lemma pic_master_RespondINTR [simp]: "pic_cascade_master (RespondINTR p k c) = pic_cascade_master p"
  by (simp add: RespondINTR_def Let_def)

lemma pic_master_write [simp]:
  "pic_cascade_master (io_write_00x0 p v) = pic_cascade_master p"
  "pic_cascade_master (io_write_00x1 p v) = pic_cascade_master p"
  by (simp add: io_write_00x0_def pic_write_ocw2_def pic_write_ocw3_def pic_begin_initialization_def
      Let_def)
    (cases "pic_status p", simp_all add: io_write_00x1_def Let_def)

lemma pic_step_master: "pic_step p q \<Longrightarrow> pic_cascade_master q = pic_cascade_master p"
proof (induction rule: pic_step.induct)
  case (step_read p sel v q w)
  then show ?case
    by (auto simp: x86_pic_read_register.simps io_read_00x0_def io_read_00x1_def Let_def map_prod_def
        case_prod_beta split: if_splits prod.splits lib_status.splits option.splits)
next
  case (step_write p sel v q)
  then show ?case
    by (auto simp: x86_pic_write_register.simps split: if_splits)
next
  case (step_inputs p l a c q)
  then show ?case by (auto simp: x86_pic_set_inputs.simps Let_def)
next
  case (step_acknowledge p q r)
  then show ?case
    by (auto simp: x86_pic_acknowledge.simps split: prod.splits lib_status.splits option.splits)
next
  case (step_advance p n q)
  then show ?case by (auto simp: pic_advance_eq)
next
  case (step_reset p q)
  then show ?case by (auto simp: pic_zero_def)
qed auto

lemma pic_reachable_master: "pic_reachable m p \<Longrightarrow> pic_cascade_master p = m"
  by (induction rule: pic_reachable.induct) (auto simp: pic_zero_def dest: pic_step_master)

lemma pic_bus_cascade_bits:
  assumes "pic_inv p"
  shows "bit (pic_bus_cascade p) k \<longleftrightarrow>
    \<not> bit (pic_icw1 p) 1 \<and> k = unat (pic_icw3 p AND 7) \<and> (\<exists>j. pic_eligible p j)"
proof -
  have "pic_icw3 p AND 7 \<le> 7" by (rule word_and_le1)
  then have lt: "unat (pic_icw3 p AND 7) < 8" by (simp add: word_le_nat_alt)
  from pic_inv_irx [OF assms] show ?thesis
    by (cases rule: x86_pic_select_cases)
      (use lt in \<open>auto simp: pic_bus_cascade_def split: bool.split\<close>)
qed

text \<open>
  After a refresh the master's cascade request is exact: it is raised on a line precisely when
  both controllers are programmed for cascading, the master enables a slave on that line, the slave
  answers to that line, and the slave has a request it would deliver.
\<close>

theorem pic_bus_refresh_cascade:
  assumes "pair_reachable b" "b' = x86_nxvm_board_pic_refresh b"
  shows "bit (pic_cascade_irr (bus_device (pair_bus PIC_BUS_MASTER b'))) k \<longleftrightarrow>
    \<not> bit (pic_icw1 (bus_device (pair_bus PIC_BUS_MASTER b'))) 1 \<and>
    \<not> bit (pic_icw1 (bus_device (pair_bus PIC_BUS_SLAVE b'))) 1 \<and>
    bit (pic_icw3 (bus_device (pair_bus PIC_BUS_MASTER b'))) k \<and>
    k = unat (pic_icw3 (bus_device (pair_bus PIC_BUS_SLAVE b')) AND 7) \<and>
    (\<exists>j. pic_eligible (bus_device (pair_bus PIC_BUS_SLAVE b')) j)"
proof -
  have "pair_chips b" by (rule pair_reachable_chips [OF assms(1)])
  then have m: "pic_cascade_master (bus_device (pair_bus PIC_BUS_MASTER b))"
    using pic_reachable_master by (auto simp: pair_chips_def)
  have "pair_chips b'" using \<open>pair_chips b\<close> assms(2) by (simp add: pair_chips_refresh)
  then have s: "pic_inv (bus_device (pair_bus PIC_BUS_SLAVE b'))"
    using pic_reachable_inv by (auto simp: pair_chips_def)
  let ?d = "bus_device (pair_bus PIC_BUS_MASTER b)"
  have "bus_device (pair_bus PIC_BUS_MASTER b') = the (x86_pic_set_inputs (Some ?d)
      (pic_bus_levels (pair_bus PIC_BUS_MASTER b)) 0
      (pic_bus_cascade (bus_device (pair_bus PIC_BUS_SLAVE b'))))"
    by (simp add: assms(2) x86_nxvm_board_pic_refresh_def Let_def pair_bus_eq_iff bus_set_inputs_def)
  then show ?thesis
    using m by (auto simp: x86_pic_set_inputs.simps Let_def bit_and_iff pic_bus_cascade_bits [OF s])
qed

theorem pic_bus_refresh_cascade_witness:
  "\<exists>j. pic_eligible (bus_device (pair_bus PIC_BUS_SLAVE (x86_nxvm_board_pic_refresh pair_demo))) j"
proof -
  let ?b = "x86_nxvm_board_pic_refresh pair_demo"
  have "bit (pic_cascade_irr (bus_device (pair_bus PIC_BUS_MASTER ?b))) 2"
    by code_simp
  then show ?thesis using pic_bus_refresh_cascade [OF pair_demo_reachable refl, of 2] by blast
qed

end
