(* ===== verification/Pit_Wave.thy ===== *)
theory Pit_Wave
  imports Pit
begin

unbundle bit_operations_syntax

text \<open>
  What the interval timer of theory \<^verbatim>\<open>Pit\<close> does for its clients: the waveform of each
  mode from the register writes that program it, the count a latch command delivers, the exactness
  of the edge deadline, and the levels the consumers of the outputs see.
\<close>

section \<open>Waveforms\<close>

text \<open>
  The level of OUT \<open>n\<close> clocks after the clock that loaded the count \<open>N\<close>, with GATE high: mode 0
  raises OUT at terminal count, mode 2 divides by \<open>N\<close> with a low pulse of one clock (the 8253
  reaches its first pulse one clock later than the 8254), mode 3 is a square wave whose high half
  is the longer one, mode 4 strobes once.
\<close>

definition pit_wave :: "x86_pit_personality \<Rightarrow> lib_u8 \<Rightarrow> nat \<Rightarrow> nat \<Rightarrow> bool" where
  "pit_wave personality m N n =
     (if m = 0 then N \<le> n
      else if m = 2 then
        if personality = X86_PIT_PERSONALITY_8254 then n mod N \<noteq> N - 1 else n = 0 \<or> n mod N \<noteq> 0
      else if m = 3 then n mod N < (N + 1) div 2
      else n \<noteq> N)"

definition wave_inv :: "x86_pit_personality \<Rightarrow> lib_u8 \<Rightarrow> nat \<Rightarrow> nat \<Rightarrow> pit_counter \<Rightarrow> bool" where
  "wave_inv personality m N n c \<longleftrightarrow>
     pc_flagReady c \<and> \<not> pc_flagLoadPending c \<and> \<not> pc_flagRestart c \<and> \<not> pc_flagTrigger c \<and>
     pc_flagGate c \<and> unat (pc_reload c) = N \<and> pc_flagOutput c = pit_wave personality m N n \<and>
     (if m = 0 then pc_flagActive c = (n < N) \<and> (n < N \<longrightarrow> unat (pc_remaining c) = N - n)
      else if m = 2 then pc_flagActive c \<and> pc_flagPulseLow c = (\<not> pc_flagOutput c) \<and>
        (pc_flagOutput c \<longrightarrow> unat (pc_remaining c) = N - n mod N)
      else if m = 3 then pc_flagActive c \<and>
        unat (pc_phase c) = (if pc_flagOutput c then (N + 1) div 2 - n mod N else N - n mod N)
      else pc_flagActive c = (n \<le> N) \<and> pc_flagPulseLow c = (n = N) \<and>
        (n < N \<longrightarrow> unat (pc_remaining c) = N - n))"

lemma unat_pred: "0 < unat r \<Longrightarrow> unat (r - 1 :: lib_u32) = unat r - 1"
  by (simp add: unat_sub word_le_nat_alt Suc_leI)

lemma word_pred_0: "r - 1 = (0 :: lib_u32) \<longleftrightarrow> unat r = 1"
proof -
  have "r = 1 \<longleftrightarrow> unat r = 1"
    using unsigned_word_eqI [of r 1, where 'a = nat] by auto
  then show ?thesis by simp
qed

lemma wave_step_mode0:
  assumes w: "wave_inv pers 0 N n (ctr p k)" and m: "x86_pit_mode p k = 0" and "0 < N"
  shows "wave_inv pers 0 N (Suc n) (ctr (x86_pit_tick k p) k)"
proof -
  have "pc_reload (ctr p k) \<noteq> 0" using w assms(3) by (auto simp: wave_inv_def)
  then show ?thesis using w m
    by (cases "n < N")
      (auto simp: wave_inv_def pit_wave_def x86_pit_tick_def x86_pit_tick_mode0_def Let_def
        unat_pred word_pred_0 simp del: diff_eq_eq right_minus_eq)
qed

lemma wave_step_mode4:
  assumes w: "wave_inv pers 4 N n (ctr p k)" and m: "x86_pit_mode p k = 4" and "0 < N"
  shows "wave_inv pers 4 N (Suc n) (ctr (x86_pit_tick k p) k)"
proof -
  have "pc_reload (ctr p k) \<noteq> 0" using w assms(3) by (auto simp: wave_inv_def)
  then show ?thesis using w m
    by (cases "n < N"; cases "n = N")
      (auto simp: wave_inv_def pit_wave_def x86_pit_tick_def x86_pit_tick_mode4_or_5_def Let_def
        unat_pred word_pred_0 simp del: diff_eq_eq right_minus_eq)
qed

lemma wave_step_mode2:
  assumes w: "wave_inv (pit_personality p) 2 N n (ctr p k)" and m: "x86_pit_mode p k = 2"
    and N: "1 < N" "N \<le> 65536"
  shows "wave_inv (pit_personality p) 2 N (Suc n) (ctr (x86_pit_tick k p) k)"
proof -
  obtain j where j: "n mod N = j" and lt: "j < N" using N by simp
  have tick: "x86_pit_tick k p = x86_pit_tick_mode2 k p"
    using w m by (simp add: wave_inv_def x86_pit_tick_def Let_def)
  show ?thesis
  proof (cases "pc_flagPulseLow (ctr p k)")
    case True
    show ?thesis unfolding tick
      using True w N lt j
      by (cases "pit_personality p") (auto simp: wave_inv_def pit_wave_def x86_pit_tick_mode2_def
          Let_def mod_Suc unat_pred split: if_splits)
  next
    case False
    then have r: "unat (pc_remaining (ctr p k)) = N - j" and o: "pc_flagOutput (ctr p k)"
      using w j by (auto simp: wave_inv_def)
    show ?thesis unfolding tick
      using False w N lt r o j
      by (cases "pit_personality p") (auto simp: wave_inv_def pit_wave_def x86_pit_tick_mode2_def
          Let_def mod_Suc unat_pred word_le_nat_alt split: if_splits)
  qed
qed

text \<open>At the end of a half period the position in the period moves to the other half.\<close>

lemma mode3_turn_arith:
  fixes N j :: nat
  assumes "j < N" and "(if j < (N + 1) div 2 then (N + 1) div 2 - j else N - j) = 1"
  defines "j' \<equiv> (if Suc j = N then 0 else Suc j)"
  shows "(\<not> j < (N + 1) div 2 \<or> N div 2 = 0) \<longleftrightarrow> j' < (N + 1) div 2"
    "(if j' < (N + 1) div 2 then (N + 1) div 2 else N div 2) =
     (if j' < (N + 1) div 2 then (N + 1) div 2 - j' else N - j')"
proof -
  have split: "(N + 1) div 2 + N div 2 = N" by presburger
  have pos: "0 < (N + 1) div 2" using assms(1) by (simp add: div_greater_zero_iff)
  show "(\<not> j < (N + 1) div 2 \<or> N div 2 = 0) \<longleftrightarrow> j' < (N + 1) div 2"
  proof (cases "j < (N + 1) div 2")
    case True
    then have "Suc j = (N + 1) div 2" using assms(2) by simp
    with split show ?thesis using True assms(1) by (simp add: j'_def)
  next
    case False
    then have "Suc j = N" using assms by simp
    then show ?thesis using False pos by (simp add: j'_def)
  qed
  show "(if j' < (N + 1) div 2 then (N + 1) div 2 else N div 2) =
     (if j' < (N + 1) div 2 then (N + 1) div 2 - j' else N - j')"
  proof (cases "j < (N + 1) div 2")
    case True
    then have "Suc j = (N + 1) div 2" using assms(2) by simp
    with split show ?thesis using True by (auto simp: j'_def)
  next
    case False
    then have "Suc j = N" using assms by simp
    then show ?thesis using pos by (simp add: j'_def)
  qed
qed

lemma wave_step_mode3:
  assumes w: "wave_inv (pit_personality p) 3 N n (ctr p k)" and m: "x86_pit_mode p k = 3"
    and N: "0 < N" "N \<le> 65536"
  shows "wave_inv (pit_personality p) 3 N (Suc n) (ctr (x86_pit_tick k p) k)"
proof -
  have lt: "n mod N < N" using N by simp
  have c: "mode3_counting (ctr p k)" and act: "pc_flagActive (ctr p k)"
    and rdy: "pc_flagReady (ctr p k)" and np: "\<not> pc_flagLoadPending (ctr p k)"
    and rel: "unat (pc_reload (ctr p k)) = N" and gate: "pc_flagGate (ctr p k)"
    and out: "pc_flagOutput (ctr p k) = (n mod N < (N + 1) div 2)"
    and ph: "unat (pc_phase (ctr p k)) =
      (if n mod N < (N + 1) div 2 then (N + 1) div 2 - n mod N else N - n mod N)"
    using w by (auto simp: wave_inv_def mode3_counting_def pit_wave_def)
  have nr: "\<not> pc_flagRestart (ctr p k)" "\<not> pc_flagTrigger (ctr p k)"
    using w by (auto simp: wave_inv_def)
  have tick: "x86_pit_tick k p = x86_pit_tick_mode3 k p"
    using w m by (simp add: wave_inv_def x86_pit_tick_def Let_def)
  show ?thesis
  proof (cases "pc_phase (ctr p k) = 1")
    case False
    then have "unat (pc_phase (ctr p k)) \<noteq> 1" by (metis word_pred_0 right_minus_eq)
    moreover have "0 < unat (pc_phase (ctr p k))" using ph lt by (simp split: if_splits)
    ultimately have "unat (pc_phase (ctr p k) - 1) = unat (pc_phase (ctr p k)) - 1"
      and "1 < unat (pc_phase (ctr p k))" by (simp_all add: unat_pred)
    then show ?thesis unfolding tick tick_mode3_inside [OF c False]
      using w ph lt out N by (auto simp: wave_inv_def pit_wave_def mod_Suc split: if_splits)
  next
    case True
    let ?q = "pit_mode3_count_down k p"
    have rl: "mode3_reload p k = pc_reload (ctr p k)" using np by (simp add: mode3_reload_def)
    have half: "mode3_next_out p k \<longleftrightarrow> \<not> n mod N < (N + 1) div 2 \<or> N div 2 = 0"
      using out rel unat_div [of "pc_reload (ctr p k)" 2]
      by (simp add: mode3_next_out_def rl unat_eq_0 [symmetric] del: unat_eq_0)
    have lens: "unat ((pc_reload (ctr p k) + 1) div 2) = (N + 1) div 2"
      "unat (pc_reload (ctr p k) div 2) = N div 2"
      using half_up_neq_0(2) [of "pc_reload (ctr p k)"] rel N by (auto simp: unat_div unat_gt_0)
    from True have one: "unat (pc_phase (ctr p k)) = 1" by simp
    note f = mode3_turn_fields [of ?q k]
    have k3: "kept k ?q (pit_mode3_turn k ?q)"
      unfolding pit_mode3_turn_def x86_pit_commit_pending_def by (intro pit_kept; simp)
    have g: "pc_flagGate (ctr (pit_mode3_turn k ?q) k)"
      using static_eqD(9) [OF keptD(3) [OF k3]] gate by simp
    have cnt: "(if n mod N < (N + 1) div 2 then (N + 1) div 2 - n mod N else N - n mod N) = 1"
      by (rule trans [OF ph [symmetric] one])
    have out': "mode3_next_out p k \<longleftrightarrow> Suc n mod N < (N + 1) div 2"
      unfolding half mod_Suc by (rule mode3_turn_arith(1) [OF lt cnt])
    have ph': "(if mode3_next_out p k then (N + 1) div 2 else N div 2) =
      (if Suc n mod N < (N + 1) div 2 then (N + 1) div 2 - Suc n mod N else N - Suc n mod N)"
      unfolding out' mod_Suc by (rule mode3_turn_arith(2) [OF lt cnt])
    show ?thesis unfolding tick tick_mode3_end [OF c True]
      using f g act rdy nr m np rl lens ph' out' rel
      by (cases "Suc n mod N < (N + 1) div 2") (simp_all add: wave_inv_def pit_wave_def)
  qed
qed

lemma clock_wave_step:
  assumes w: "wave_inv (pit_personality p) (x86_pit_mode p k) N n (ctr p k)" and k: "k < 3"
    and m: "x86_pit_mode p k \<in> {0, 2, 3, 4}"
    and N: "0 < N" "N \<le> 65536" "x86_pit_mode p k = 2 \<longrightarrow> N \<noteq> 1"
  shows "wave_inv (pit_personality p) (x86_pit_mode p k) N (Suc n) (ctr (pit_clock p) k)"
proof -
  obtain q where q: "ctr q k = ctr p k" "pit_personality q = pit_personality p"
    "ctr (pit_clock p) k = ctr (x86_pit_tick k q) k" by (rule clock_via [OF k])
  have mq: "x86_pit_mode q k = x86_pit_mode p k" by (rule counter_cong(1) [OF q(1,2)])
  have wq: "wave_inv (pit_personality q) (x86_pit_mode q k) N n (ctr q k)"
    using w by (simp add: q mq)
  have "wave_inv (pit_personality q) (x86_pit_mode q k) N (Suc n) (ctr (x86_pit_tick k q) k)"
    using m N wq wave_step_mode0 [of "pit_personality q" N n q k] wave_step_mode2 [of q N n k]
      wave_step_mode3 [of q N n k] wave_step_mode4 [of "pit_personality q" N n q k]
    by (auto simp: mq)
  then show ?thesis by (simp add: q mq)
qed

lemma clocks_wave:
  assumes "wave_inv (pit_personality p) (x86_pit_mode p k) N 0 (ctr p k)" and "k < 3"
    and "x86_pit_mode p k \<in> {0, 2, 3, 4}"
    and "0 < N" "N \<le> 65536" "x86_pit_mode p k = 2 \<longrightarrow> N \<noteq> 1"
  shows "wave_inv (pit_personality p) (x86_pit_mode p k) N n (ctr ((pit_clock ^^ n) p) k)"
proof (induction n)
  case 0
  then show ?case using assms by simp
next
  case (Suc n)
  have "pit_personality ((pit_clock ^^ n) p) = pit_personality p" by (induction n) simp_all
  then show ?case using clock_wave_step [of "(pit_clock ^^ n) p" k N n] Suc assms(2-) by simp
qed

section \<open>Programming a counter\<close>

definition pit_control_word :: "nat \<Rightarrow> lib_u8 \<Rightarrow> bool \<Rightarrow> lib_u8" where
  "pit_control_word k m bcd =
     push_bit 6 (of_nat k) OR 0x30 OR push_bit 1 m OR (if bcd then 1 else 0)"

text \<open>The guest's sequence: control word (both bytes), low byte, high byte.\<close>

definition pit_program :: "nat \<Rightarrow> lib_u8 \<Rightarrow> bool \<Rightarrow> lib_u8 \<Rightarrow> lib_u8 \<Rightarrow> x86_pit ptr \<Rightarrow> x86_pit ptr" where
  "pit_program k m bcd lo hi pit =
     (let pit = snd (x86_pit_write_register pit 3 (pit_control_word k m bcd));
          pit = snd (x86_pit_write_register pit k lo)
      in snd (x86_pit_write_register pit k hi))"

definition pit_count_word :: "lib_u8 \<Rightarrow> lib_u8 \<Rightarrow> lib_u16" where
  "pit_count_word lo hi = push_bit 8 (ucast hi) OR ucast lo"

definition pit_reload_of :: "bool \<Rightarrow> lib_u16 \<Rightarrow> nat" where
  "pit_reload_of bcd v =
     (if bcd then if x86_pit_bcd_decode v = 0 then 10000 else unat (x86_pit_bcd_decode v)
      else if v = 0 then 65536 else unat v)"

lemma control_word_fields:
  assumes "k < 3" and "m \<in> {0, 2, 3, 4}"
  shows "unat (VPIT_GetCW_SC (pit_control_word k m bcd)) = k"
    "VPIT_GetCW_RW (pit_control_word k m bcd) = 3"
    "VPIT_GetCW_M (pit_control_word k m bcd) = m"
    "pit_control_word k m bcd AND 1 \<noteq> 0 \<longleftrightarrow> bcd"
proof -
  have "k = 0 \<or> k = 1 \<or> k = 2" using assms(1) by linarith
  then show "unat (VPIT_GetCW_SC (pit_control_word k m bcd)) = k"
    "VPIT_GetCW_RW (pit_control_word k m bcd) = 3"
    "VPIT_GetCW_M (pit_control_word k m bcd) = m"
    "pit_control_word k m bcd AND 1 \<noteq> 0 \<longleftrightarrow> bcd"
    using assms(2)
    by (auto simp: pit_control_word_def VPIT_GetCW_SC_def VPIT_GetCW_RW_def VPIT_GetCW_M_def)
qed

lemma ucast_down_up: "ucast (ucast (w :: lib_u8) :: lib_u16) = w"
  by (rule bit_word_eqI) (auto simp: bit_simps)

definition programmed :: "nat \<Rightarrow> lib_u8 \<Rightarrow> bool \<Rightarrow> lib_u16 \<Rightarrow> pit_counter \<Rightarrow> bool" where
  "programmed k m bcd v c \<longleftrightarrow>
     pc_cw c = pit_control_word k m bcd \<and> pc_init c = v \<and> pc_flagLoadPending c \<and>
     \<not> pc_flagReady c \<and> \<not> pc_flagActive c \<and> \<not> pc_flagPulseLow c \<and> \<not> pc_flagTrigger c \<and>
     \<not> pc_flagRestart c \<and> \<not> pc_flagLatch c \<and> \<not> pc_flagStatusLatch c \<and>
     pc_reload c = 0 \<and> pc_flagOutput c = (m \<noteq> 0)"

lemma write_register_simps:
  "x86_pit_write_register (Some p) 3 v = (LIB_STATUS_OK, Some (x86_pit_write_control v p))"
  "k < 3 \<Longrightarrow> x86_pit_write_register (Some p) k v = (LIB_STATUS_OK, Some (x86_pit_write_counter k v p))"
  by simp_all

lemma mode_of_cw: "pc_cw (ctr p k) = pit_control_word k m bcd \<Longrightarrow> k < 3 \<Longrightarrow> m \<in> {0, 2, 3, 4} \<Longrightarrow>
    x86_pit_mode p k = m"
  by (auto simp: x86_pit_mode_def control_word_fields)

lemma program_programmed:
  assumes k: "k < 3" and m: "m \<in> {0, 2, 3, 4}"
  obtains q where "pit_program k m bcd lo hi (Some p) = Some q"
    "programmed k m bcd (pit_count_word lo hi) (ctr q k)"
    "pc_flagGate (ctr q k) = pc_flagGate (ctr p k)" "pit_personality q = pit_personality p"
proof -
  note cw = control_word_fields [OF k m]
  define p1 where "p1 = x86_pit_write_control (pit_control_word k m bcd) p"
  have cw1: "pc_cw (ctr p1 k) = pit_control_word k m bcd"
    using cw k by (simp add: p1_def x86_pit_write_control_def Let_def)
  note m1 = mode_of_cw [OF cw1 k m]
  have p1: "pc_flagWrite (ctr p1 k) = VPIT_STATUS_RW_LSB" "\<not> pc_flagLoadPending (ctr p1 k)"
    "\<not> pc_flagReady (ctr p1 k)" "\<not> pc_flagActive (ctr p1 k)" "\<not> pc_flagPulseLow (ctr p1 k)"
    "\<not> pc_flagTrigger (ctr p1 k)" "\<not> pc_flagRestart (ctr p1 k)" "pc_reload (ctr p1 k) = 0"
    "\<not> pc_flagLatch (ctr p1 k)" "\<not> pc_flagStatusLatch (ctr p1 k)"
    "pc_flagGate (ctr p1 k) = pc_flagGate (ctr p k)" "pit_personality p1 = pit_personality p"
    using cw k by (simp_all add: p1_def x86_pit_write_control_def Let_def)
  have o1: "pc_flagOutput (ctr p1 k) = (m \<noteq> 0)"
    using cw k m1 by (simp add: p1_def x86_pit_write_control_def Let_def x86_pit_mode_def)
  define p2 where "p2 = x86_pit_write_counter k lo p1"
  have p2: "pc_flagWrite (ctr p2 k) = VPIT_STATUS_RW_MSB" "\<not> pc_flagLoadPending (ctr p2 k)"
    "\<not> pc_flagReady (ctr p2 k)" "\<not> pc_flagActive (ctr p2 k)" "\<not> pc_flagPulseLow (ctr p2 k)"
    "\<not> pc_flagTrigger (ctr p2 k)" "\<not> pc_flagRestart (ctr p2 k)" "pc_reload (ctr p2 k) = 0"
    "\<not> pc_flagLatch (ctr p2 k)" "\<not> pc_flagStatusLatch (ctr p2 k)"
    "pc_flagGate (ctr p2 k) = pc_flagGate (ctr p k)" "pit_personality p2 = pit_personality p"
    "pc_cw (ctr p2 k) = pit_control_word k m bcd" "pc_init (ctr p2 k) = ucast lo"
    "pc_flagOutput (ctr p2 k) = (m \<noteq> 0)"
    using p1 o1 m1 by (simp_all add: p2_def x86_pit_write_counter_def Let_def cw1 cw(2))
  note m2 = mode_of_cw [OF p2(13) k m]
  define p3 where "p3 = x86_pit_write_counter k hi p2"
  have "programmed k m bcd (pit_count_word lo hi) (ctr p3 k)"
    "pc_flagGate (ctr p3 k) = pc_flagGate (ctr p k)" "pit_personality p3 = pit_personality p"
    using p2 m2
    by (simp_all add: p3_def x86_pit_write_counter_def pit_write_complete_def programmed_def Let_def
        cw(2) pit_count_word_def ucast_down_up)
  moreover have "pit_program k m bcd lo hi (Some p) = Some p3"
    using k by (simp add: pit_program_def write_register_simps p3_def p2_def p1_def Let_def
        del: x86_pit_write_register.simps)
  ultimately show thesis by (rule that [rotated])
qed

lemma decode_programmed:
  assumes "programmed k m bcd v (ctr p k)" and "k < 3" and "m \<in> {0, 2, 3, 4}"
  shows "unat (x86_pit_decode_reload p k) = pit_reload_of bcd v"
  using assms control_word_fields(4) [OF assms(2,3), of bcd] unat_ucast_up [of v, where 'b = 32]
  by (auto simp: programmed_def x86_pit_decode_reload_def pit_bcd_def pit_reload_of_def Let_def)

lemma reload_of_bounds: "0 < pit_reload_of bcd v" "pit_reload_of bcd v \<le> 65536"
proof -
  let ?p = "set_ctr 0 (\<lambda>c. c\<lparr>pc_init := v, pc_cw := pit_control_word 0 0 bcd\<rparr>) undefined"
  have "unat (x86_pit_decode_reload ?p 0) = pit_reload_of bcd v"
    using control_word_fields(4) [of 0 0 bcd] unat_ucast_up [of v, where 'b = 32]
    by (auto simp: x86_pit_decode_reload_def pit_bcd_def pit_reload_of_def Let_def)
  with decode_reload_bounds [of ?p 0] show "0 < pit_reload_of bcd v" "pit_reload_of bcd v \<le> 65536"
    by (metis unat_gt_0, metis)
qed

lemma tick_programmed:
  assumes c: "programmed k m bcd v (ctr p k)" and k: "k < 3" and m: "m \<in> {0, 2, 3, 4}"
    and gate: "pc_flagGate (ctr p k)" and two: "m = 2 \<longrightarrow> pit_reload_of bcd v \<noteq> 1"
  shows "wave_inv (pit_personality p) m (pit_reload_of bcd v) 0 (ctr (x86_pit_tick k p) k)"
proof -
  have mode: "x86_pit_mode p k = m" by (rule mode_of_cw) (use c k m in \<open>simp_all add: programmed_def\<close>)
  note N = reload_of_bounds [of bcd v] decode_programmed [OF c k m]
  have half: "unat ((x86_pit_decode_reload p k + 1) div 2) = (pit_reload_of bcd v + 1) div 2"
    using half_up_neq_0(2) [OF decode_reload_bounds, of p k] N(3) by simp
  have dec: "x86_pit_decode_reload (x86_pit_set_output_level k True p) k = x86_pit_decode_reload p k"
    by (simp add: x86_pit_decode_reload_def)
  consider "m = 0" | "m = 2" | "m = 3" | "m = 4" using m by blast
  then show ?thesis
  proof cases
    case 1
    then show ?thesis using c gate N mode
      by (simp add: x86_pit_tick_def x86_pit_tick_mode0_def x86_pit_commit_pending_def
          programmed_def wave_inv_def pit_wave_def)
  next
    case 2
    then show ?thesis using c gate N mode two
      by (simp add: x86_pit_tick_def x86_pit_tick_mode2_def x86_pit_commit_pending_def
          programmed_def wave_inv_def pit_wave_def)
  next
    case 3
    then show ?thesis using c gate N mode half
      by (simp add: x86_pit_tick_def x86_pit_tick_mode3_def x86_pit_commit_pending_def
          programmed_def wave_inv_def pit_wave_def div_greater_zero_iff)
  next
    case 4
    then show ?thesis using c gate N mode dec
      by (simp add: x86_pit_tick_def x86_pit_tick_mode4_or_5_def x86_pit_commit_pending_def
          programmed_def wave_inv_def pit_wave_def)
  qed
qed

lemma clock_programmed:
  assumes "programmed k m bcd v (ctr p k)" and k: "k < 3" and "m \<in> {0, 2, 3, 4}"
    and "pc_flagGate (ctr p k)" and "m = 2 \<longrightarrow> pit_reload_of bcd v \<noteq> 1"
  shows "wave_inv (pit_personality p) m (pit_reload_of bcd v) n (ctr ((pit_clock ^^ Suc n) p) k)"
proof -
  obtain q where q: "ctr q k = ctr p k" "pit_personality q = pit_personality p"
    "ctr (pit_clock p) k = ctr (x86_pit_tick k q) k" by (rule clock_via [OF k])
  have "x86_pit_mode p k = m"
    by (rule mode_of_cw) (use assms in \<open>simp_all add: programmed_def\<close>)
  moreover from tick_programmed [of k m bcd v q]
  have "wave_inv (pit_personality p) m (pit_reload_of bcd v) 0 (ctr (pit_clock p) k)"
    using assms q by simp
  ultimately have "wave_inv (pit_personality p) m (pit_reload_of bcd v) n
      (ctr ((pit_clock ^^ n) (pit_clock p)) k)"
    using clocks_wave [of "pit_clock p" k "pit_reload_of bcd v" n] assms reload_of_bounds [of bcd v]
    by simp
  then show ?thesis by (simp add: funpow_swap1)
qed

text \<open>
  C22: Programming a counter of the timer through its registers in mode 0, 2, 3 or 4 (binary or BCD,
  low byte then high byte, GATE high) gives OUT the waveform of that mode: \<open>n\<close> clocks after the
  clock that loads the count, OUT is the level \<open>pit_wave\<close> gives, on both personalities and
  whatever the counter did before. The count 1, which mode 2 does not allow, is excluded there.
\<close>

theorem pit_waveform:
  assumes "k < 3" and "m \<in> {0, 2, 3, 4}" and "pc_flagGate (ctr p k)"
    and "unat n + 1 < 2 ^ 64"
    and "m = 2 \<longrightarrow> pit_reload_of bcd (pit_count_word lo hi) \<noteq> 1"
  shows "x86_pit_get_output (x86_pit_advance (pit_program k m bcd lo hi (Some p)) (n + 1)) k =
    pit_wave (pit_personality p) m (pit_reload_of bcd (pit_count_word lo hi)) (unat n)"
proof -
  obtain q where q: "pit_program k m bcd lo hi (Some p) = Some q"
    "programmed k m bcd (pit_count_word lo hi) (ctr q k)"
    "pc_flagGate (ctr q k) = pc_flagGate (ctr p k)" "pit_personality q = pit_personality p"
    by (rule program_programmed [OF assms(1,2)])
  have "unat (n + 1) = Suc (unat n)" using assms(4) unat_plus_if' [of n 1] by simp
  then show ?thesis
    using clock_programmed [OF q(2) assms(1,2) _ assms(5), of "unat n"] assms q
    by (simp add: wave_inv_def)
qed

theorem pit_waveform_witness:
  "x86_pit_get_output (x86_pit_advance (pit_program 0 3 False 5 0
     (x86_pit_reset (Some \<lparr>pit_personality = X86_PIT_PERSONALITY_8254,
        pit_counters = (\<lambda>_. zero_counter), pit_calls = []\<rparr>))) (7 + 1)) 0 = True"
proof -
  obtain p where p: "x86_pit_reset (Some \<lparr>pit_personality = X86_PIT_PERSONALITY_8254,
        pit_counters = (\<lambda>_. zero_counter), pit_calls = []\<rparr>) = Some p" by (simp add: Let_def)
  have "pc_flagGate (ctr p 0)" and "pit_personality p = X86_PIT_PERSONALITY_8254"
    using reset_unfold(2) [OF p] reset_unfold(3) [OF p, of 0] by simp_all
  then show ?thesis
    using pit_waveform [of 0 3 p 7 False 5 0]
    by (simp add: p pit_wave_def pit_reload_of_def pit_count_word_def
        del: x86_pit_get_output.simps x86_pit_advance.simps x86_pit_reset.simps)
qed

section \<open>Every reachable timer\<close>

text \<open>
  The timer's life: creation, register accesses, gate changes, elapsed clocks and resets, and
  the wiring of a consumer while OUT is low.
\<close>

inductive pit_reachable :: "x86_pit \<Rightarrow> bool" where
  pit_created: "x86_pit_create (Some personality) True (Some cell) = (LIB_STATUS_OK, Some (Some p)) \<Longrightarrow>
    pit_reachable p"
| pit_written: "pit_reachable p \<Longrightarrow>
    x86_pit_write_register (Some p) selector v = (status, Some q) \<Longrightarrow> pit_reachable q"
| pit_read: "pit_reachable p \<Longrightarrow>
    x86_pit_read_counter (Some p) k (Some v) = (status, Some q, out) \<Longrightarrow> pit_reachable q"
| pit_gated: "pit_reachable p \<Longrightarrow> x86_pit_set_gate (Some p) k a = Some q \<Longrightarrow> pit_reachable q"
| pit_bound: "pit_reachable p \<Longrightarrow> \<not> x86_pit_get_output (Some p) k \<Longrightarrow>
    x86_pit_set_output (Some p) k provider owner = Some q \<Longrightarrow> pit_reachable q"
| pit_advanced: "pit_reachable p \<Longrightarrow> x86_pit_advance (Some p) n = Some q \<Longrightarrow> pit_reachable q"
| pit_was_reset: "pit_reachable p \<Longrightarrow> x86_pit_reset (Some p) = Some q \<Longrightarrow> pit_reachable q"

lemma write_register_ok:
  "pit_ok p \<Longrightarrow> x86_pit_write_register (Some p) selector v = (status, Some q) \<Longrightarrow> pit_ok q"
  by (auto simp: write_control_ok write_counter_ok split: if_splits)

lemma zero_pit_ok:
  "pit_ok \<lparr>pit_personality = personality, pit_counters = (\<lambda>_. zero_counter), pit_calls = []\<rparr>"
  by (simp add: pit_ok_def zero_counter_def counter_ok_def x86_pit_mode_def VPIT_GetCW_M_def Let_def)

lemma reachable_ok: "pit_reachable p \<Longrightarrow> pit_ok p"
proof (induction rule: pit_reachable.induct)
  case (pit_created personality cell p)
  then show ?case by (auto simp: zero_pit_ok)
next
  case (pit_written p selector v status q)
  then show ?case using write_register_ok by blast
next
  case (pit_read p k v status q out)
  then show ?case using read_counter_ok [of p k v] by (simp del: x86_pit_read_counter.simps)
next
  case (pit_gated p k a q)
  then show ?case using set_gate_ok [of p k a] by (simp del: x86_pit_set_gate.simps)
next
  case (pit_bound p k provider owner q)
  then show ?case using set_output_ok [of p k provider owner] by (simp del: x86_pit_set_output.simps)
next
  case (pit_advanced p n q)
  then show ?case by (auto simp: clocks_ok)
next
  case (pit_was_reset p q)
  then show ?case by (auto intro: reset_ok simp del: x86_pit_reset.simps)
qed

lemma line_write_register:
  "line_ok k p \<Longrightarrow> x86_pit_write_register (Some p) selector v = (status, Some q) \<Longrightarrow> line_ok k q"
  by (auto simp: line_write_control line_write_counter split: if_splits)

lemma line_set_output:
  assumes "line_ok k p" and "\<not> x86_pit_get_output (Some p) j"
    and "x86_pit_set_output (Some p) j provider owner = Some q"
  shows "line_ok k q"
  using assms by (auto simp: line_ok_def split: if_splits)

lemma reachable_line: "pit_reachable p \<Longrightarrow> k < 3 \<Longrightarrow> line_ok k p"
proof (induction rule: pit_reachable.induct)
  case (pit_created personality cell p)
  then show ?case by (auto simp: line_ok_def zero_counter_def)
next
  case (pit_written p selector v status q)
  then show ?case using line_write_register by blast
next
  case (pit_read p j v status q out)
  then show ?case using line_read_counter [of k p j v] by (simp del: x86_pit_read_counter.simps)
next
  case (pit_gated p j a q)
  then show ?case using line_set_gate [of k p j a] by (simp del: x86_pit_set_gate.simps)
next
  case (pit_bound p j provider owner q)
  then show ?case using line_set_output by blast
next
  case (pit_advanced p n q)
  then show ?case by (auto simp: line_clocks)
next
  case (pit_was_reset p q)
  then show ?case by (auto intro: line_reset simp del: x86_pit_reset.simps)
qed


text \<open>A timer wired to a consumer, counter 0 in mode 2: OUT is high.\<close>

definition sample_new :: x86_pit where
  "sample_new = \<lparr>pit_personality = X86_PIT_PERSONALITY_8254,
     pit_counters = (\<lambda>_. zero_counter), pit_calls = []\<rparr>"

definition sample_wired :: x86_pit where
  "sample_wired = x86_pit_write_control 0x34 (the (x86_pit_set_output (Some sample_new) 0 (Some 7) 9))"

lemma sample_new_reachable: "pit_reachable sample_new"
  by (rule pit_created [where personality = X86_PIT_PERSONALITY_8254 and cell = None])
    (simp add: sample_new_def)

lemma sample_wired_reachable: "pit_reachable sample_wired"
proof -
  have "pit_reachable (the (x86_pit_set_output (Some sample_new) 0 (Some 7) 9))"
    by (rule pit_bound [OF sample_new_reachable, where k = 0])
      (simp_all add: sample_new_def zero_counter_def)
  then show ?thesis
    by (rule pit_written [where selector = 3 and v = "0x34"]) (simp_all add: sample_wired_def)
qed



text \<open>A timer counting from 3 in mode 0 on counter 1.\<close>

definition sample_counting :: x86_pit where
  "sample_counting =
     the (x86_pit_advance (pit_program 1 0 False 3 0 (x86_pit_reset (Some sample_new))) 1)"

lemma program_reachable:
  assumes "pit_reachable p" and "k < 3" and "pit_program k m bcd lo hi (Some p) = Some q"
  shows "pit_reachable q"
proof -
  let ?p1 = "x86_pit_write_control (pit_control_word k m bcd) p"
  let ?p2 = "x86_pit_write_counter k lo ?p1"
  have "pit_reachable ?p1" by (rule pit_written [OF assms(1) write_register_simps(1)])
  then have "pit_reachable ?p2" by (rule pit_written [OF _ write_register_simps(2) [OF assms(2)]])
  then have "pit_reachable (x86_pit_write_counter k hi ?p2)"
    by (rule pit_written [OF _ write_register_simps(2) [OF assms(2)]])
  moreover have "q = x86_pit_write_counter k hi ?p2"
    using assms(2,3) by (simp add: pit_program_def write_register_simps Let_def
        del: x86_pit_write_register.simps)
  ultimately show ?thesis by simp
qed

lemma sample_counting_state:
  "pit_reachable sample_counting" "x86_pit_mode sample_counting 1 = 0"
  "wave_inv X86_PIT_PERSONALITY_8254 0 3 0 (ctr sample_counting 1)"
proof -
  obtain p where p: "x86_pit_reset (Some sample_new) = Some p" by (simp add: Let_def)
  have g: "pc_flagGate (ctr p 1)" and pers: "pit_personality p = X86_PIT_PERSONALITY_8254"
    using reset_unfold(2) [OF p] reset_unfold(3) [OF p, of 1] by (simp_all add: sample_new_def)
  obtain q where q: "pit_program 1 0 False 3 0 (Some p) = Some q"
    "programmed 1 0 False (pit_count_word 3 0) (ctr q 1)"
    "pc_flagGate (ctr q 1) = pc_flagGate (ctr p 1)" "pit_personality q = pit_personality p"
    by (rule program_programmed [of 1 0]) simp_all
  have s: "sample_counting = pit_clock q" 
    unfolding sample_counting_def p q(1) by simp
  have "pit_reachable q"
    by (rule program_reachable [OF pit_was_reset [OF sample_new_reachable p] _ q(1)]) simp
  then show "pit_reachable sample_counting" unfolding s by (rule pit_advanced [where n = 1]) simp
  have "x86_pit_mode q 1 = 0" by (rule mode_of_cw) (use q(2) in \<open>simp_all add: programmed_def\<close>)
  then show "x86_pit_mode sample_counting 1 = 0" by (simp add: s)
  have "pit_reload_of False (pit_count_word 3 0) = 3" by (simp add: pit_reload_of_def pit_count_word_def)
  then show "wave_inv X86_PIT_PERSONALITY_8254 0 3 0 (ctr sample_counting 1)"
    using clock_programmed [OF q(2), of 0] g pers q by (simp add: s)
qed


section \<open>Reading a count\<close>

lemma digit_width: "take_bit 4 (ucast (c mod 10 :: lib_u32) :: lib_u16) = ucast (c mod 10)"
proof -
  have "take_bit 4 (c mod 10) = c mod 10"
  proof (rule unsigned_word_eqI)
    have "unat (c mod 10) < 16" by (simp add: unat_mod)
    then show "unat (take_bit 4 (c mod 10)) = unat (c mod 10)"
      by (simp add: take_bit_eq_mod unat_mod)
  qed
  then have "ucast (take_bit 4 (c mod 10)) = (ucast (c mod 10) :: lib_u16)" by simp
  moreover have "ucast (take_bit 4 w :: lib_u32) = take_bit 4 (ucast w :: lib_u16)" for w
    by (rule bit_word_eqI) (auto simp: bit_simps)
  ultimately show ?thesis by simp
qed

lemma nibbles:
  fixes a b c d :: lib_u16
  assumes w: "take_bit 4 a = a" "take_bit 4 b = b" "take_bit 4 c = c" "take_bit 4 d = d"
  defines "w \<equiv> a OR push_bit 4 b OR push_bit 8 c OR push_bit 12 d"
  shows "w AND 15 = a" "drop_bit 4 w AND 15 = b" "drop_bit 8 w AND 15 = c" "drop_bit 12 w AND 15 = d"
proof -
  have m: "(15 :: lib_u16) = mask 4" by (simp add: mask_eq_exp_minus_1)
  have lt: "bit x i \<Longrightarrow> i < 4" if "take_bit 4 x = x" for x :: lib_u16 and i
    using that by (metis bit_take_bit_iff)
  show "w AND 15 = a" "drop_bit 4 w AND 15 = b" "drop_bit 8 w AND 15 = c" "drop_bit 12 w AND 15 = d"
    unfolding m by (rule bit_word_eqI,
        auto simp: w_def bit_simps dest: lt [OF w(1)] lt [OF w(2)] lt [OF w(3)] lt [OF w(4)])+
qed

lemma bcd_encode_or:
  "x86_pit_bcd_encode c = ucast (c mod 10) OR push_bit 4 (ucast (c div 10 mod 10)) OR
     push_bit 8 (ucast (c div 100 mod 10)) OR push_bit 12 (ucast (c div 1000 mod 10))"
proof -
  have p: "ucast (push_bit n x :: lib_u32) = push_bit n (ucast x :: lib_u16)" for n x
    by (rule bit_word_eqI) (auto simp: bit_simps)
  have "c div 10 div 10 = c div 100" "c div 100 div 10 = c div 1000"
    by (rule unsigned_word_eqI [where 'a = nat]; simp add: unat_div div_mult2_eq [symmetric])+
  then show ?thesis by (simp add: x86_pit_bcd_encode_def Let_def p or.assoc)
qed

lemma decimal_digits:
  fixes c :: nat
  assumes "c < 10000"
  shows "c mod 10 + c div 10 mod 10 * 10 + c div 100 mod 10 * 100 + c div 1000 mod 10 * 1000 = c"
proof -
  have "c div 100 = c div 10 div 10" and "c div 1000 = c div 10 div 10 div 10"
    by (simp_all flip: div_mult2_eq)
  moreover have "c div 10 div 10 div 10 < 10" using assms by (simp flip: div_mult2_eq add: less_mult_imp_div_less)
  moreover have "r0 + r1 * 10 + r2 * 100 + d * 1000 = c"
    if "a * 10 + r0 = c" "b * 10 + r1 = a" "d * 10 + r2 = b" for r0 r1 r2 a b d :: nat
    using that by simp
  note this [OF div_mult_mod_eq [of c 10] div_mult_mod_eq div_mult_mod_eq]
  ultimately show ?thesis by simp
qed

text \<open>Encoding a count below ten thousand and decoding it again gives it back.\<close>

lemma bcd_roundtrip:
  assumes "unat c < 10000"
  shows "unat (x86_pit_bcd_decode (x86_pit_bcd_encode c)) = unat c"
proof -
  note n = nibbles [OF digit_width [of c] digit_width [of "c div 10"] digit_width [of "c div 100"]
      digit_width [of "c div 1000"]]
  have u: "unat (ucast (x mod 10) :: lib_u16) = unat x mod 10" for x :: lib_u32
  proof -
    have "unat (x mod 10) = unat x mod 10" by (simp add: unat_mod)
    moreover have "unat (ucast (x mod 10) :: lib_u16) = unat (x mod 10) mod 2 ^ 16"
      by (simp add: unsigned_ucast_eq take_bit_eq_mod)
    moreover have "unat x mod 10 < 2 ^ 16" using mod_less_divisor [of 10 "unat x"] by simp
    ultimately show ?thesis by simp
  qed
  note dec = decimal_digits [OF assms]
  show ?thesis unfolding unat_bcd_decode bcd_encode_or n u by (simp add: unat_div dec)
qed

lemma count_word_bytes: "pit_count_word (ucast v) (ucast (drop_bit 8 v)) = v"
  unfolding pit_count_word_def by (rule bit_word_eqI) (auto simp: bit_simps)

lemma encode_reload:
  assumes "0 < unat c" and "unat c \<le> (if pit_bcd p k then 10000 else 65536)"
  shows "pit_reload_of (pit_bcd p k) (x86_pit_encode_count p k c) = unat c"
proof (cases "pit_bcd p k")
  case True
  show ?thesis
  proof (cases "c = 10000")
    case True
    with \<open>pit_bcd p k\<close> show ?thesis
      by (simp add: x86_pit_encode_count_def pit_reload_of_def x86_pit_bcd_decode_def)
  next
    case False
    then have "unat c \<noteq> 10000" using unsigned_word_eqI [of c 10000, where 'a = nat] by auto
    then have "unat (x86_pit_bcd_decode (x86_pit_bcd_encode c)) = unat c"
      using bcd_roundtrip [of c] assms(2) True by simp
    then show ?thesis using True False assms(1)
      by (auto simp: x86_pit_encode_count_def pit_reload_of_def)
  qed
next
  case nb: False
  show ?thesis
  proof (cases "c = 65536")
    case True
    with nb show ?thesis by (simp add: x86_pit_encode_count_def pit_reload_of_def)
  next
    case False
    then have "unat c \<noteq> 65536" using unsigned_word_eqI [of c 65536, where 'a = nat] by auto
    then have "unat (ucast c :: lib_u16) = unat c"
      using assms(2) nb by (simp add: unsigned_ucast_eq take_bit_eq_mod)
    then show ?thesis using nb False assms(1)
      by (auto simp: x86_pit_encode_count_def pit_reload_of_def)
  qed
qed

lemma latch_word: "k < 3 \<Longrightarrow> unat (VPIT_GetCW_SC (push_bit 6 (of_nat k))) = k \<and>
    VPIT_GetCW_RW (push_bit 6 (of_nat k)) = 0"
  by (cases "k = 0"; cases "k = 1"; cases "k = 2") (auto simp: VPIT_GetCW_SC_def VPIT_GetCW_RW_def)

lemma clocks_static: "static (ctr ((pit_clock ^^ n) p) j) = static (ctr p j)"
  by (induction n) (simp_all add: clock_static)

text \<open>A latched count survives any number of clocks and is read low byte first.\<close>

lemma latched_reads:
  fixes j :: lib_u64
  assumes k: "k < 3" and "VPIT_GetCW_RW (pc_cw (ctr p k)) = 3"
    and "\<not> pc_flagLatch (ctr p k)" and "\<not> pc_flagStatusLatch (ctr p k)"
  defines "v \<equiv> x86_pit_encode_count p k (pc_remaining (ctr p k))"
  defines "q \<equiv> x86_pit_advance (Some (x86_pit_write_control (push_bit 6 (of_nat k)) p)) j"
  shows "\<exists>q1 q2. x86_pit_read_counter q k (Some x) = (LIB_STATUS_OK, q1, Some (ucast v)) \<and>
    x86_pit_read_counter q1 k (Some y) = (LIB_STATUS_OK, q2, Some (ucast (drop_bit 8 v)))"
proof -
  let ?l = "x86_pit_write_control (push_bit 6 (of_nat k)) p"
  have l: "?l = x86_pit_latch_count k p" using latch_word [OF k] k
    by (simp add: x86_pit_write_control_def Let_def)
  have lf: "pc_flagLatch (ctr ?l k)" "pc_latch (ctr ?l k) = v" "pc_flagRead (ctr ?l k) = VPIT_STATUS_RW_LSB"
    "\<not> pc_flagStatusLatch (ctr ?l k)" "VPIT_GetCW_RW (pc_cw (ctr ?l k)) = 3"
    unfolding l using assms(2-4)
    by (simp_all add: x86_pit_latch_count_def x86_pit_read_start_def v_def Let_def)
  obtain r where q: "q = Some r" and r: "static (ctr r k) = static (ctr ?l k)"
    using clocks_static by (simp add: q_def)
  note rf = static_eqD [OF r]
  have "x86_pit_read_counter (Some r) k (Some x) =
      (LIB_STATUS_OK, Some (set_ctr k (pc_flagRead_update (\<lambda>_. VPIT_STATUS_RW_MSB)) r), Some (ucast v))"
    using k rf lf by simp
  moreover have "\<exists>q2. x86_pit_read_counter
      (Some (set_ctr k (pc_flagRead_update (\<lambda>_. VPIT_STATUS_RW_MSB)) r)) k (Some y) =
      (LIB_STATUS_OK, q2, Some (ucast (drop_bit 8 v)))"
    using k rf lf by simp
  ultimately show ?thesis unfolding q by blast
qed

text \<open>
  A latch command reads the running count. Program a counter in mode 0 or 4, let \<open>n\<close> clocks
  pass after the load (fewer than the count \<open>N\<close>), latch it and read two bytes: whatever number of
  clocks passes between the latch and the reads, the bytes denote \<open>N - n\<close> in the format
  (binary or BCD) the counter was programmed with.
\<close>

theorem pit_latched_count:
  assumes "k < 3" and "m \<in> {0, 4}" and "pc_flagGate (ctr p k)"
    and "unat n < pit_reload_of bcd (pit_count_word lo hi)"
    and "bcd \<longrightarrow> pit_reload_of bcd (pit_count_word lo hi) \<le> 10000"
  shows "\<exists>b1 b2 q1 q2.
    x86_pit_read_counter (x86_pit_advance (snd (x86_pit_write_register
        (x86_pit_advance (pit_program k m bcd lo hi (Some p)) (n + 1)) 3 (push_bit 6 (of_nat k)))) j)
      k (Some x) = (LIB_STATUS_OK, q1, Some b1) \<and>
    x86_pit_read_counter q1 k (Some y) = (LIB_STATUS_OK, q2, Some b2) \<and>
    pit_reload_of bcd (pit_count_word b1 b2) =
      pit_reload_of bcd (pit_count_word lo hi) - unat n"
proof -
  let ?N = "pit_reload_of bcd (pit_count_word lo hi)"
  have m: "m \<in> {0, 2, 3, 4}" using assms(2) by blast
  obtain q where q: "pit_program k m bcd lo hi (Some p) = Some q"
    "programmed k m bcd (pit_count_word lo hi) (ctr q k)"
    "pc_flagGate (ctr q k) = pc_flagGate (ctr p k)" "pit_personality q = pit_personality p"
    by (rule program_programmed [OF assms(1) m])
  have "unat n + 1 < 2 ^ 64" using assms(4) reload_of_bounds(2) [of bcd "pit_count_word lo hi"] by simp
  then have un: "unat (n + 1) = Suc (unat n)" using unat_plus_if' [of n 1] by simp
  define r where "r = (pit_clock ^^ Suc (unat n)) q"
  have adv: "x86_pit_advance (Some q) (n + 1) = Some r" by (simp only: x86_pit_advance.simps un r_def)
  have st: "static (ctr r k) = static (ctr q k)" unfolding r_def by (rule clocks_static)
  note sf = static_eqD [OF st]
  have cw: "pc_cw (ctr r k) = pit_control_word k m bcd" using sf(1) q(2) by (simp add: programmed_def)
  have bcd: "pit_bcd r k = bcd"
    using control_word_fields(4) [OF assms(1) m, of bcd] by (simp add: pit_bcd_def cw)
  have "wave_inv (pit_personality q) m ?N (unat n) (ctr r k)"
    unfolding r_def by (rule clock_programmed [OF q(2) assms(1) m]) (use assms(2,3) q(3) in auto)
  then have rem: "unat (pc_remaining (ctr r k)) = ?N - unat n"
    using assms(2,4) by (auto simp: wave_inv_def)
  have "pit_reload_of bcd (x86_pit_encode_count r k (pc_remaining (ctr r k))) = ?N - unat n"
    using encode_reload [of "pc_remaining (ctr r k)" r k] assms(4,5) rem
      reload_of_bounds(2) [of bcd "pit_count_word lo hi"] by (cases bcd) (simp_all add: bcd)
  moreover obtain q1 q2 where "x86_pit_read_counter (x86_pit_advance
      (Some (x86_pit_write_control (push_bit 6 (of_nat k)) r)) j) k (Some x) =
      (LIB_STATUS_OK, q1, Some (ucast (x86_pit_encode_count r k (pc_remaining (ctr r k)))))"
    "x86_pit_read_counter q1 k (Some y) = (LIB_STATUS_OK, q2,
      Some (ucast (drop_bit 8 (x86_pit_encode_count r k (pc_remaining (ctr r k))))))"
    using latched_reads [OF assms(1), of r j x y] sf(4,6) q(2) control_word_fields(2) [OF assms(1) m]
    by (auto simp: programmed_def cw)
  ultimately show ?thesis
    unfolding q(1) adv write_register_simps(1) snd_conv using count_word_bytes by metis
qed

theorem pit_latched_count_witness:
  "\<exists>b1 b2 q1 q2.
    x86_pit_read_counter (x86_pit_advance (snd (x86_pit_write_register
        (x86_pit_advance (pit_program 2 0 True 0x34 0x12
          (x86_pit_set_gate (Some sample_new) 2 True)) (30 + 1)) 3 (push_bit 6 (of_nat 2)))) 99)
      2 (Some 0) = (LIB_STATUS_OK, q1, Some b1) \<and>
    x86_pit_read_counter q1 2 (Some 0) = (LIB_STATUS_OK, q2, Some b2) \<and>
    pit_reload_of True (pit_count_word b1 b2) = 1204"
proof -
  have g: "x86_pit_set_gate (Some sample_new) 2 True = Some (gate_rises 2 sample_new)"
    by (simp add: set_gate_eq sample_new_def zero_counter_def del: x86_pit_set_gate.simps)
  have "pit_reload_of True (pit_count_word 0x34 0x12) = 1234"
    by (simp add: pit_reload_of_def pit_count_word_def x86_pit_bcd_decode_def)
  moreover have "pc_flagGate (ctr (gate_rises 2 sample_new) 2)" by (simp add: gate_rises_def)
  ultimately show ?thesis
    using pit_latched_count [of 2 0 "gate_rises 2 sample_new" 30 True "0x34" "0x12" 99 0 0]
    unfolding g by simp
qed

section \<open>Elapsed time\<close>

interpretation pit_time: tick_component "\<lambda>n p. the (x86_pit_advance (Some p) n)" pit_ok
proof
  fix s :: x86_pit and m n :: lib_u64
  show "the (x86_pit_advance (Some s) 0) = s" by simp
  assume "unat m + unat n < 2 ^ 64"
  then have "unat (m + n) = unat m + unat n" using unat_plus_if' [of m n] by simp
  then show "the (x86_pit_advance (Some s) (m + n)) =
      the (x86_pit_advance (Some (the (x86_pit_advance (Some s) m))) n)"
    by (simp add: funpow_add add.commute [of "unat m"])
next
  fix s :: x86_pit and n :: lib_u64
  assume "pit_ok s"
  then show "pit_ok (the (x86_pit_advance (Some s) n))" by (simp add: clocks_ok)
qed

end
