(* ===== verification/Rtc.thy ===== *)
theory Rtc
  imports Prelude
begin

unbundle bit_operations_syntax

text \<open>
  The MC146818 real-time clock, \<^verbatim>\<open>src/src/x86-nxvm/chips/rtc146818/rtc.c\<close>: the calendar, its
  BCD or binary and 12 or 24 hour register views, the periodic, update and alarm flags, and the
  distance to the next interrupt. The output callback is an entry of the ghost log
  \<open>rt_calls\<close> (the level delivered, oldest first); a null callback is \<open>rt_output = False\<close>.
  The register number and the register count, byte-sized in C, are natural numbers.
\<close>

section \<open>State\<close>

record x86_rtc_calendar =
  rc_second :: lib_u8
  rc_minute :: lib_u8
  rc_hour :: lib_u8
  rc_day_week :: lib_u8
  rc_day_month :: lib_u8
  rc_month :: lib_u8
  rc_year :: lib_u8
  rc_second_ticks :: lib_u64
  rc_periodic_ticks :: lib_u64

record x86_rtc =
  rt_registers :: "nat \<Rightarrow> lib_u8"
  rt_register_count :: nat
  rt_calendar :: x86_rtc_calendar
  rt_output :: bool
  rt_ticks_per_second :: lib_u32
  rt_uip_lead_ticks :: lib_u32
  rt_update_ticks :: lib_u32
  rt_daylight_fallback_done :: bool
  rt_calls :: "bool list"

record x86_rtc_config =
  rcfg_ticks_per_second :: lib_u32
  rcfg_uip_lead_ticks :: lib_u32
  rcfg_update_ticks :: lib_u32
  rcfg_extended_registers :: lib_u8

definition zero_rtc :: x86_rtc where
  "zero_rtc = \<lparr>rt_registers = (\<lambda>_. 0), rt_register_count = 0,
     rt_calendar = \<lparr>rc_second = 0, rc_minute = 0, rc_hour = 0, rc_day_week = 0, rc_day_month = 0,
       rc_month = 0, rc_year = 0, rc_second_ticks = 0, rc_periodic_ticks = 0\<rparr>,
     rt_output = False, rt_ticks_per_second = 0, rt_uip_lead_ticks = 0, rt_update_ticks = 0,
     rt_daylight_fallback_done = False, rt_calls = []\<rparr>"

abbreviation (input) "X86_RTC_SECOND \<equiv> 0 :: nat"
abbreviation (input) "X86_RTC_SECOND_ALARM \<equiv> Suc 0"
abbreviation (input) "X86_RTC_MINUTE \<equiv> 2 :: nat"
abbreviation (input) "X86_RTC_MINUTE_ALARM \<equiv> 3 :: nat"
abbreviation (input) "X86_RTC_HOUR \<equiv> 4 :: nat"
abbreviation (input) "X86_RTC_HOUR_ALARM \<equiv> 5 :: nat"
abbreviation (input) "X86_RTC_DAY_WEEK \<equiv> 6 :: nat"
abbreviation (input) "X86_RTC_DAY_MONTH \<equiv> 7 :: nat"
abbreviation (input) "X86_RTC_MONTH \<equiv> 8 :: nat"
abbreviation (input) "X86_RTC_YEAR \<equiv> 9 :: nat"
abbreviation (input) "X86_RTC_REG_A \<equiv> 10 :: nat"
abbreviation (input) "X86_RTC_REG_B \<equiv> 11 :: nat"
abbreviation (input) "X86_RTC_REG_C \<equiv> 12 :: nat"
abbreviation (input) "X86_RTC_REG_D \<equiv> 13 :: nat"

abbreviation rt_reg :: "x86_rtc \<Rightarrow> nat \<Rightarrow> lib_u8" where
  "rt_reg rtc k \<equiv> rt_registers rtc k"

text \<open>\<^verbatim>\<open>rtc->registers[k] = v\<close>, an assignment to fields of the calendar, a call of the output.\<close>

definition set_reg :: "nat \<Rightarrow> lib_u8 \<Rightarrow> x86_rtc \<Rightarrow> x86_rtc" where
  "set_reg k v rtc = rtc\<lparr>rt_registers := (rt_registers rtc)(k := v)\<rparr>"

definition set_cal :: "(x86_rtc_calendar \<Rightarrow> x86_rtc_calendar) \<Rightarrow> x86_rtc \<Rightarrow> x86_rtc" where
  "set_cal f rtc = rtc\<lparr>rt_calendar := f (rt_calendar rtc)\<rparr>"

definition rtc_call_output :: "bool \<Rightarrow> x86_rtc \<Rightarrow> x86_rtc" where
  "rtc_call_output level rtc = rtc\<lparr>rt_calls := rt_calls rtc @ [level]\<rparr>"

section \<open>Register views\<close>

definition rtc_encode :: "x86_rtc \<Rightarrow> lib_u8 \<Rightarrow> lib_u8" where
  "rtc_encode rtc value =
     (if rt_reg rtc X86_RTC_REG_B AND 4 \<noteq> 0 then value
      else push_bit 4 (value div 10) OR (value mod 10))"

definition rtc_decode :: "x86_rtc \<Rightarrow> lib_u8 \<Rightarrow> lib_u8" where
  "rtc_decode rtc value =
     (if rt_reg rtc X86_RTC_REG_B AND 4 \<noteq> 0 then value
      else drop_bit 4 value * 10 + (value AND 0x0f))"

definition rtc_hour_encode :: "x86_rtc \<Rightarrow> lib_u8" where
  "rtc_hour_encode rtc =
     (let hour = rc_hour (rt_calendar rtc)
      in if rt_reg rtc X86_RTC_REG_B AND 2 \<noteq> 0 then rtc_encode rtc hour
         else
           let hour = (if hour \<ge> 12 then hour - 12 else hour);
               hour = (if hour = 0 then 12 else hour)
           in rtc_encode rtc hour OR (if rc_hour (rt_calendar rtc) \<ge> 12 then 0x80 else 0))"

definition rtc_hour_decode :: "x86_rtc \<Rightarrow> lib_u8 \<Rightarrow> lib_u8" where
  "rtc_hour_decode rtc value =
     (if rt_reg rtc X86_RTC_REG_B AND 2 \<noteq> 0 then rtc_decode rtc value
      else
        let hour = rtc_decode rtc (value AND 0x7f);
            hour = (if hour = 12 then 0 else hour)
        in hour + (if value AND 0x80 \<noteq> 0 then 12 else 0))"

definition rtc_divider_running :: "x86_rtc \<Rightarrow> bool" where
  "rtc_divider_running rtc \<longleftrightarrow> rt_reg rtc X86_RTC_REG_A AND 0x70 \<le> 0x20"

definition rtc_divider_hz :: "x86_rtc \<Rightarrow> lib_u32" where
  "rtc_divider_hz rtc =
     (let divider = rt_reg rtc X86_RTC_REG_A AND 0x70
      in if divider = 0x20 then 32768 else if divider = 0x10 then 1048576
         else if divider = 0 then 4194304 else 0)"

definition rtc_periodic_hz :: "x86_rtc \<Rightarrow> lib_u32" where
  "rtc_periodic_hz rtc =
     (let rate = rt_reg rtc X86_RTC_REG_A AND 0x0f; base = rtc_divider_hz rtc
      in if base = 0 \<or> rate = 0 then 0
         else if rate = 1 then if base = 32768 then 256 else 32768
         else if rate = 2 then if base = 32768 then 128 else 16384
         else drop_bit (unat (rate - 1)) 32768)"

definition rtc_phase_ticks :: "lib_u32 \<Rightarrow> lib_u32 \<Rightarrow> lib_u32 \<Rightarrow> lib_u32" where
  "rtc_phase_ticks configured ticks_per_second microseconds =
     (if configured \<noteq> 0 then configured
      else
        let converted = (ucast ticks_per_second * ucast microseconds :: lib_u64) div 1000000
        in if converted = 0 then 1 else ucast converted)"

definition rtc_update_ticks :: "x86_rtc \<Rightarrow> lib_u32" where
  "rtc_update_ticks rtc =
     rtc_phase_ticks (rt_update_ticks rtc) (rt_ticks_per_second rtc)
       (if rtc_divider_hz rtc = 32768 then 1984 else 248)"

section \<open>Interrupt line\<close>

definition rtc_refresh_irq :: "x86_rtc \<Rightarrow> x86_rtc" where
  "rtc_refresh_irq rtc =
     (let flags = rt_reg rtc X86_RTC_REG_C; enable = rt_reg rtc X86_RTC_REG_B;
          was_asserted = (flags AND 0x80 \<noteq> 0);
          rtc = (if flags AND 0x40 \<noteq> 0 \<and> enable AND 0x40 \<noteq> 0 \<or>
                    flags AND 0x20 \<noteq> 0 \<and> enable AND 0x20 \<noteq> 0 \<or>
                    flags AND 0x10 \<noteq> 0 \<and> enable AND 0x10 \<noteq> 0
                 then set_reg X86_RTC_REG_C (flags OR 0x80) rtc
                 else set_reg X86_RTC_REG_C (flags AND NOT 0x80) rtc)
      in if rt_output rtc \<and> was_asserted \<noteq> (rt_reg rtc X86_RTC_REG_C AND 0x80 \<noteq> 0)
         then rtc_call_output (\<not> was_asserted) rtc else rtc)"

section \<open>Calendar\<close>

definition rtc_days_in_month :: "x86_rtc \<Rightarrow> lib_u8" where
  "rtc_days_in_month rtc =
     (let leap = (rc_year (rt_calendar rtc) AND 3 = 0); month = rc_month (rt_calendar rtc)
      in if month < 1 \<or> month > 12 then 31
         else if month = 2 then 28 + (if leap then 1 else 0)
         else [31, 28, 31, 30, 31, 30, 31, 31, 30, 31, 30, 31] ! unat (month - 1))"

text \<open>
  \<^verbatim>\<open>rtc_increment_second\<close>: the carry from the seconds into the minutes and the hours, the
  daylight-saving hour, and the carry from the hours into the date.
\<close>

definition rtc_daylight_hour :: "x86_rtc \<Rightarrow> x86_rtc" where
  "rtc_daylight_hour rtc =
     (let cal = rt_calendar rtc
      in if rt_reg rtc X86_RTC_REG_B AND 1 \<noteq> 0 \<and> rc_hour cal = 2 \<and> rc_day_week cal = 1 then
           if rc_month cal = 4 \<and> rc_day_month cal \<ge> 24 then set_cal (rc_hour_update (\<lambda>_. 3)) rtc
           else if rc_month cal = 10 \<and> rc_day_month cal \<ge> 25 \<and> \<not> rt_daylight_fallback_done rtc
           then (set_cal (rc_hour_update (\<lambda>_. 1)) rtc)\<lparr>rt_daylight_fallback_done := True\<rparr>
           else rtc
         else rtc)"

definition rtc_increment_day :: "x86_rtc \<Rightarrow> x86_rtc" where
  "rtc_increment_day rtc =
     (let rtc = (set_cal (rc_hour_update (\<lambda>_. 0)) rtc)\<lparr>rt_daylight_fallback_done := False\<rparr>;
          rtc = set_cal (rc_day_week_update (\<lambda>d. if d = 7 then 1 else d + 1)) rtc;
          rtc = set_cal (rc_day_month_update (\<lambda>d. d + 1)) rtc
      in if rc_day_month (rt_calendar rtc) \<le> rtc_days_in_month rtc then rtc
         else
           let rtc = set_cal (rc_day_month_update (\<lambda>_. 1)) rtc;
               rtc = set_cal (rc_month_update (\<lambda>m. m + 1)) rtc
           in if rc_month (rt_calendar rtc) \<le> 12 then rtc
              else set_cal (rc_month_update (\<lambda>_. 1) \<circ>
                     rc_year_update (\<lambda>y. if y = 99 then 0 else y + 1)) rtc)"

definition rtc_increment_second :: "x86_rtc \<Rightarrow> x86_rtc" where
  "rtc_increment_second rtc =
     (let rtc = set_cal (rc_second_update (\<lambda>s. s + 1)) rtc
      in if rc_second (rt_calendar rtc) < 60 then rtc
         else
           let rtc = set_cal (rc_second_update (\<lambda>_. 0)) rtc;
               rtc = set_cal (rc_minute_update (\<lambda>m. m + 1)) rtc
           in if rc_minute (rt_calendar rtc) < 60 then rtc
              else
                let rtc = set_cal (rc_minute_update (\<lambda>_. 0)) rtc;
                    rtc = set_cal (rc_hour_update (\<lambda>h. h + 1)) rtc;
                    rtc = rtc_daylight_hour rtc
                in if rc_hour (rt_calendar rtc) < 24 then rtc else rtc_increment_day rtc)"

definition rtc_alarm_matches :: "x86_rtc \<Rightarrow> bool" where
  "rtc_alarm_matches rtc \<longleftrightarrow>
     (let second = rt_reg rtc X86_RTC_SECOND_ALARM; minute = rt_reg rtc X86_RTC_MINUTE_ALARM;
          hour = rt_reg rtc X86_RTC_HOUR_ALARM
      in (second AND 0xc0 = 0xc0 \<or> second = rtc_encode rtc (rc_second (rt_calendar rtc))) \<and>
         (minute AND 0xc0 = 0xc0 \<or> minute = rtc_encode rtc (rc_minute (rt_calendar rtc))) \<and>
         (hour AND 0xc0 = 0xc0 \<or> hour = rtc_hour_encode rtc))"

text \<open>
  The search of \<^verbatim>\<open>rtc_ticks_until_alarm\<close>: \<open>left\<close> turns of its loop remain and the next one
  tries \<open>second\<close>; the function starts it with all 25 hours.
\<close>

primrec rtc_alarm_search :: "x86_rtc \<Rightarrow> nat \<Rightarrow> lib_u64 \<Rightarrow> x86_rtc \<Rightarrow> lib_u64 ptr \<Rightarrow>
    lib_status \<times> lib_u64 ptr" where
  "rtc_alarm_search rtc 0 second candidate out = (LIB_STATUS_INVALID_STATE, out)"
| "rtc_alarm_search rtc (Suc left) second candidate out =
     (let candidate = rtc_increment_second candidate
      in if \<not> rtc_alarm_matches candidate then rtc_alarm_search rtc left (second + 1) candidate out
         else
           let tps = ucast (rt_ticks_per_second rtc);
               ticks = tps - rc_second_ticks (rt_calendar rtc)
           in if second - 1 > (LIB_UINT64_MAX - ticks) div tps then (LIB_STATUS_INVALID_STATE, out)
              else (LIB_STATUS_OK, Some (ticks + (second - 1) * tps)))"

fun rtc_ticks_until_alarm :: "x86_rtc ptr \<Rightarrow> lib_u64 ptr \<Rightarrow> lib_status \<times> lib_u64 ptr" where
  "rtc_ticks_until_alarm (Some rtc) (Some out) =
     (if rt_ticks_per_second rtc = 0 \<or>
         rc_second_ticks (rt_calendar rtc) \<ge> ucast (rt_ticks_per_second rtc)
      then (LIB_STATUS_INVALID_ARGUMENT, Some out)
      else rtc_alarm_search rtc (25 * 60 * 60) 1 rtc (Some out))"
| "rtc_ticks_until_alarm rtc out = (LIB_STATUS_INVALID_ARGUMENT, out)"

definition rtc_uip_active :: "x86_rtc \<Rightarrow> bool" where
  "rtc_uip_active rtc \<longleftrightarrow>
     (let window = ucast (rt_uip_lead_ticks rtc) + ucast (rtc_update_ticks rtc) :: lib_u64;
          tps = ucast (rt_ticks_per_second rtc)
      in rtc_divider_running rtc \<and> rt_reg rtc X86_RTC_REG_B AND 0x80 = 0 \<and> window < tps \<and>
         rc_second_ticks (rt_calendar rtc) \<ge> tps - window)"

section \<open>Public operations\<close>

fun x86_rtc_read_register :: "x86_rtc ptr \<Rightarrow> nat \<Rightarrow> lib_u8 \<times> x86_rtc ptr" where
  "x86_rtc_read_register None reg = (0, None)"
| "x86_rtc_read_register (Some rtc) reg =
     (if reg \<ge> rt_register_count rtc then (0, Some rtc)
      else if reg = X86_RTC_SECOND then (rtc_encode rtc (rc_second (rt_calendar rtc)), Some rtc)
      else if reg = X86_RTC_MINUTE then (rtc_encode rtc (rc_minute (rt_calendar rtc)), Some rtc)
      else if reg = X86_RTC_HOUR then (rtc_hour_encode rtc, Some rtc)
      else if reg = X86_RTC_DAY_WEEK then (rtc_encode rtc (rc_day_week (rt_calendar rtc)), Some rtc)
      else if reg = X86_RTC_DAY_MONTH then (rtc_encode rtc (rc_day_month (rt_calendar rtc)), Some rtc)
      else if reg = X86_RTC_MONTH then (rtc_encode rtc (rc_month (rt_calendar rtc)), Some rtc)
      else if reg = X86_RTC_YEAR then (rtc_encode rtc (rc_year (rt_calendar rtc)), Some rtc)
      else if reg = X86_RTC_REG_A then
        (rt_reg rtc reg OR (if rtc_uip_active rtc then 0x80 else 0), Some rtc)
      else if reg = X86_RTC_REG_C then
        let value = rt_reg rtc reg; rtc = set_reg reg 0 rtc
        in (value, Some (if value AND 0x80 \<noteq> 0 \<and> rt_output rtc
                         then rtc_call_output False rtc else rtc))
      else (rt_reg rtc reg, Some rtc))"

definition rtc_write_reg_a :: "bool \<Rightarrow> lib_u8 \<Rightarrow> x86_rtc \<Rightarrow> x86_rtc" where
  "rtc_write_reg_a was_reset value rtc =
     (let rtc = set_reg X86_RTC_REG_A (value AND 0x7f) rtc
      in if \<not> rtc_divider_running rtc
         then set_cal (rc_second_ticks_update (\<lambda>_. 0) \<circ> rc_periodic_ticks_update (\<lambda>_. 0)) rtc
         else if was_reset then
           let tps = ucast (rt_ticks_per_second rtc);
               completion = tps div 2 + ucast (rtc_update_ticks rtc)
           in set_cal (rc_second_ticks_update
                (\<lambda>_. if completion < tps then tps - completion else 0)) rtc
         else rtc)"

fun x86_rtc_write_register :: "x86_rtc ptr \<Rightarrow> nat \<Rightarrow> lib_u8 \<Rightarrow> x86_rtc ptr" where
  "x86_rtc_write_register None reg value = None"
| "x86_rtc_write_register (Some rtc) reg value = Some
     (if reg \<ge> rt_register_count rtc then rtc
      else
        let was_reset = (rt_reg rtc X86_RTC_REG_A AND 0x60 = 0x60);
            rtc = (if reg \<in> {X86_RTC_HOUR, X86_RTC_DAY_WEEK, X86_RTC_DAY_MONTH, X86_RTC_MONTH,
                     X86_RTC_YEAR} then rtc\<lparr>rt_daylight_fallback_done := False\<rparr> else rtc);
            rtc = (if reg = X86_RTC_SECOND
                   then set_cal (rc_second_update (\<lambda>_. rtc_decode rtc (value AND 0x7f))) rtc
                   else if reg = X86_RTC_MINUTE
                   then set_cal (rc_minute_update (\<lambda>_. rtc_decode rtc value)) rtc
                   else if reg = X86_RTC_HOUR
                   then set_cal (rc_hour_update (\<lambda>_. rtc_hour_decode rtc value)) rtc
                   else if reg = X86_RTC_DAY_WEEK
                   then set_cal (rc_day_week_update (\<lambda>_. rtc_decode rtc value)) rtc
                   else if reg = X86_RTC_DAY_MONTH
                   then set_cal (rc_day_month_update (\<lambda>_. rtc_decode rtc value)) rtc
                   else if reg = X86_RTC_MONTH
                   then set_cal (rc_month_update (\<lambda>_. rtc_decode rtc value)) rtc
                   else if reg = X86_RTC_YEAR
                   then set_cal (rc_year_update (\<lambda>_. rtc_decode rtc value)) rtc
                   else if reg = X86_RTC_REG_A then rtc_write_reg_a was_reset value rtc
                   else if reg = X86_RTC_REG_B
                   then set_reg reg (if value AND 0x80 \<noteq> 0 then value AND NOT 0x10 else value) rtc
                   else if reg = X86_RTC_REG_C \<or> reg = X86_RTC_REG_D then rtc
                   else set_reg reg value rtc)
        in rtc_refresh_irq rtc)"

fun x86_rtc_create :: "x86_rtc_config ptr \<Rightarrow> bool \<Rightarrow> bool \<Rightarrow> x86_rtc ptr ptr \<Rightarrow>
    lib_status \<times> x86_rtc ptr ptr" where
  "x86_rtc_create config output allocated None = (LIB_STATUS_INVALID_ARGUMENT, None)"
| "x86_rtc_create None output allocated (Some out_rtc) = (LIB_STATUS_INVALID_ARGUMENT, Some None)"
| "x86_rtc_create (Some config) output allocated (Some out_rtc) =
     (if rcfg_ticks_per_second config = 0 \<or>
         rcfg_extended_registers config \<noteq> 0 \<and> rcfg_extended_registers config \<noteq> 1
      then (LIB_STATUS_INVALID_ARGUMENT, Some None)
      else if \<not> allocated then (LIB_STATUS_NO_MEMORY, Some None)
      else
        let rtc = zero_rtc\<lparr>
              rt_register_count := (if rcfg_extended_registers config \<noteq> 0 then 0x80 else 0x40),
              rt_ticks_per_second := rcfg_ticks_per_second config,
              rt_uip_lead_ticks := rtc_phase_ticks (rcfg_uip_lead_ticks config)
                (rcfg_ticks_per_second config) 244,
              rt_update_ticks := rcfg_update_ticks config, rt_output := output\<rparr>;
            rtc = set_cal (rc_day_week_update (\<lambda>_. 6) \<circ> rc_day_month_update (\<lambda>_. 1) \<circ>
              rc_month_update (\<lambda>_. 1)) rtc;
            rtc = set_reg X86_RTC_REG_D 0x80 (set_reg X86_RTC_REG_B 2 (set_reg X86_RTC_REG_A 0x26 rtc))
        in (LIB_STATUS_OK, Some (Some rtc)))"

fun x86_rtc_reset :: "x86_rtc ptr \<Rightarrow> x86_rtc ptr" where
  "x86_rtc_reset None = None"
| "x86_rtc_reset (Some rtc) =
     (let rtc = set_reg X86_RTC_REG_B (rt_reg rtc X86_RTC_REG_B AND (0x80 OR 4 OR 2 OR 1)) rtc
      in map_option (set_reg X86_RTC_REG_D 0x80)
           (snd (x86_rtc_read_register (Some rtc) X86_RTC_REG_C)))"

text \<open>One turn of the loop over the elapsed seconds, and the two halves of an advance.\<close>

definition rtc_second_step :: "x86_rtc \<Rightarrow> x86_rtc" where
  "rtc_second_step rtc =
     (let rtc = rtc_increment_second rtc;
          rtc = set_reg X86_RTC_REG_C (rt_reg rtc X86_RTC_REG_C OR 0x10) rtc
      in if rtc_alarm_matches rtc then set_reg X86_RTC_REG_C (rt_reg rtc X86_RTC_REG_C OR 0x20) rtc
         else rtc)"

definition rtc_advance_periodic :: "lib_u64 \<Rightarrow> x86_rtc \<Rightarrow> x86_rtc" where
  "rtc_advance_periodic elapsed_ticks rtc =
     (let tps = ucast (rt_ticks_per_second rtc); periodic_hz = ucast (rtc_periodic_hz rtc);
          seconds = elapsed_ticks div tps; partial = elapsed_ticks mod tps;
          phase = rc_periodic_ticks (rt_calendar rtc) + partial;
          edges = phase * periodic_hz div tps -
            rc_periodic_ticks (rt_calendar rtc) * periodic_hz div tps;
          rtc = set_cal (rc_periodic_ticks_update (\<lambda>_. phase mod tps)) rtc
      in if periodic_hz \<noteq> 0 \<and> (seconds \<noteq> 0 \<or> edges \<noteq> 0)
         then set_reg X86_RTC_REG_C (rt_reg rtc X86_RTC_REG_C OR 0x40) rtc else rtc)"

definition rtc_advance_seconds :: "lib_u64 \<Rightarrow> x86_rtc \<Rightarrow> x86_rtc" where
  "rtc_advance_seconds elapsed_ticks rtc =
     (let tps = ucast (rt_ticks_per_second rtc); seconds = elapsed_ticks div tps;
          phase = rc_second_ticks (rt_calendar rtc) + elapsed_ticks mod tps;
          seconds = seconds + phase div tps;
          rtc = set_cal (rc_second_ticks_update (\<lambda>_. phase mod tps)) rtc;
          seconds = (if rt_reg rtc X86_RTC_REG_B AND 0x80 \<noteq> 0 then 0 else seconds)
      in (rtc_second_step ^^ unat seconds) rtc)"

fun x86_rtc_advance :: "x86_rtc ptr \<Rightarrow> lib_u64 \<Rightarrow> x86_rtc ptr" where
  "x86_rtc_advance None elapsed_ticks = None"
| "x86_rtc_advance (Some rtc) elapsed_ticks = Some
     (if elapsed_ticks = 0 \<or> \<not> rtc_divider_running rtc then rtc
      else rtc_refresh_irq (rtc_advance_seconds elapsed_ticks (rtc_advance_periodic elapsed_ticks rtc)))"

text \<open>The distance to the next periodic edge.\<close>

definition rtc_ticks_until_periodic :: "x86_rtc \<Rightarrow> lib_u64" where
  "rtc_ticks_until_periodic rtc =
     (let tps = ucast (rt_ticks_per_second rtc); periodic_hz = ucast (rtc_periodic_hz rtc);
          remaining = tps - rc_periodic_ticks (rt_calendar rtc) * periodic_hz mod tps;
          ticks = remaining div periodic_hz
      in if remaining mod periodic_hz \<noteq> 0 then ticks + 1 else ticks)"

fun x86_rtc_ticks_until_irq :: "x86_rtc ptr \<Rightarrow> lib_u64 ptr \<Rightarrow> lib_status \<times> lib_u64 ptr" where
  "x86_rtc_ticks_until_irq (Some rtc) (Some out_ticks) =
     (if \<not> rtc_divider_running rtc then (LIB_STATUS_INVALID_STATE, Some out_ticks)
      else
        let enable = rt_reg rtc X86_RTC_REG_B;
            ticks = (if enable AND 0x40 \<noteq> 0 \<and> rtc_periodic_hz rtc \<noteq> 0
                     then rtc_ticks_until_periodic rtc else LIB_UINT64_MAX);
            update = ucast (rt_ticks_per_second rtc) - rc_second_ticks (rt_calendar rtc);
            ticks = (if enable AND 0x10 \<noteq> 0 \<and> enable AND 0x80 = 0 \<and> update < ticks
                     then update else ticks);
            ticks = (if enable AND 0x20 \<noteq> 0 \<and> enable AND 0x80 = 0 then
                case rtc_ticks_until_alarm (Some rtc) (Some 0) of
                  (status, alarm) \<Rightarrow>
                    if status = LIB_STATUS_OK \<and> the alarm < ticks then the alarm else ticks
              else ticks)
        in if ticks = LIB_UINT64_MAX \<or> ticks = 0 then (LIB_STATUS_INVALID_STATE, Some out_ticks)
           else (LIB_STATUS_OK, Some ticks))"
| "x86_rtc_ticks_until_irq rtc out_ticks = (LIB_STATUS_INVALID_ARGUMENT, out_ticks)"

fun x86_rtc_get_square_wave :: "x86_rtc ptr \<Rightarrow> bool" where
  "x86_rtc_get_square_wave None = False"
| "x86_rtc_get_square_wave (Some rtc) =
     (if \<not> rtc_divider_running rtc \<or> rt_reg rtc X86_RTC_REG_B AND 8 = 0 then False
      else (rc_periodic_ticks (rt_calendar rtc) * ucast (rtc_periodic_hz rtc)) mod
             ucast (rt_ticks_per_second rtc) * 2 \<ge> (ucast (rt_ticks_per_second rtc) :: lib_u64))"

fun x86_rtc_destroy :: "x86_rtc ptr \<Rightarrow> bool list" where
  "x86_rtc_destroy None = []"
| "x86_rtc_destroy (Some rtc) =
     (case snd (x86_rtc_read_register (Some rtc) X86_RTC_REG_C) of
        None \<Rightarrow> [] | Some rtc \<Rightarrow> rt_calls rtc)"

section \<open>Fields the operations keep\<close>

lemma set_reg_fields [simp]:
  "rt_registers (set_reg k v r) = (rt_registers r)(k := v)" "rt_calendar (set_reg k v r) = rt_calendar r"
  "rt_register_count (set_reg k v r) = rt_register_count r" "rt_output (set_reg k v r) = rt_output r"
  "rt_ticks_per_second (set_reg k v r) = rt_ticks_per_second r" "rt_calls (set_reg k v r) = rt_calls r"
  "rt_uip_lead_ticks (set_reg k v r) = rt_uip_lead_ticks r"
  "rt_update_ticks (set_reg k v r) = rt_update_ticks r"
  "rt_daylight_fallback_done (set_reg k v r) = rt_daylight_fallback_done r"
  by (simp_all add: set_reg_def)

lemma set_cal_fields [simp]:
  "rt_registers (set_cal f r) = rt_registers r" "rt_calendar (set_cal f r) = f (rt_calendar r)"
  "rt_register_count (set_cal f r) = rt_register_count r" "rt_output (set_cal f r) = rt_output r"
  "rt_ticks_per_second (set_cal f r) = rt_ticks_per_second r" "rt_calls (set_cal f r) = rt_calls r"
  "rt_uip_lead_ticks (set_cal f r) = rt_uip_lead_ticks r"
  "rt_update_ticks (set_cal f r) = rt_update_ticks r"
  "rt_daylight_fallback_done (set_cal f r) = rt_daylight_fallback_done r"
  by (simp_all add: set_cal_def)

lemma call_output_fields [simp]:
  "rt_registers (rtc_call_output b r) = rt_registers r" "rt_calendar (rtc_call_output b r) = rt_calendar r"
  "rt_register_count (rtc_call_output b r) = rt_register_count r"
  "rt_output (rtc_call_output b r) = rt_output r"
  "rt_ticks_per_second (rtc_call_output b r) = rt_ticks_per_second r"
  "rt_calls (rtc_call_output b r) = rt_calls r @ [b]"
  "rt_daylight_fallback_done (rtc_call_output b r) = rt_daylight_fallback_done r"
  by (simp_all add: rtc_call_output_def)

lemma refresh_irq_fields [simp]:
  "rt_calendar (rtc_refresh_irq r) = rt_calendar r"
  "rt_register_count (rtc_refresh_irq r) = rt_register_count r"
  "rt_output (rtc_refresh_irq r) = rt_output r"
  "rt_ticks_per_second (rtc_refresh_irq r) = rt_ticks_per_second r"
  "k \<noteq> X86_RTC_REG_C \<Longrightarrow> rt_registers (rtc_refresh_irq r) k = rt_registers r k"
  "rt_daylight_fallback_done (rtc_refresh_irq r) = rt_daylight_fallback_done r"
  by (simp_all add: rtc_refresh_irq_def Let_def)

text \<open>What the second loop leaves alone: everything but the calendar and the daylight flag.\<close>

definition rtc_frame :: "x86_rtc \<Rightarrow> (nat \<Rightarrow> lib_u8) \<times> nat \<times> bool \<times> lib_u32 \<times> lib_u32 \<times> lib_u32 \<times> bool list" where
  "rtc_frame r = (rt_registers r, rt_register_count r, rt_output r, rt_ticks_per_second r,
     rt_uip_lead_ticks r, rt_update_ticks r, rt_calls r)"

lemma frame_set_cal [simp]: "rtc_frame (set_cal f r) = rtc_frame r"
  "rtc_frame (r\<lparr>rt_daylight_fallback_done := b\<rparr>) = rtc_frame r"
  by (simp_all add: rtc_frame_def)

lemma frame_increment [simp]: "rtc_frame (rtc_increment_second r) = rtc_frame r"
  by (simp add: rtc_increment_second_def rtc_daylight_hour_def rtc_increment_day_def Let_def)

lemma increment_fields [simp]:
  "rt_registers (rtc_increment_second r) = rt_registers r"
  "rt_register_count (rtc_increment_second r) = rt_register_count r"
  "rt_output (rtc_increment_second r) = rt_output r"
  "rt_ticks_per_second (rtc_increment_second r) = rt_ticks_per_second r"
  "rt_calls (rtc_increment_second r) = rt_calls r"
  using frame_increment [of r] by (simp_all add: rtc_frame_def)

lemma increment_phases [simp]:
  "rc_second_ticks (rt_calendar (rtc_increment_second r)) = rc_second_ticks (rt_calendar r)"
  "rc_periodic_ticks (rt_calendar (rtc_increment_second r)) = rc_periodic_ticks (rt_calendar r)"
  by (simp_all add: rtc_increment_second_def rtc_daylight_hour_def rtc_increment_day_def Let_def)

text \<open>The calendar part of a turn does not depend on the flags register.\<close>

lemma set_reg_commute:
  "set_cal f (set_reg k v r) = set_reg k v (set_cal f r)"
  "(set_reg k v r)\<lparr>rt_daylight_fallback_done := b\<rparr> = set_reg k v (r\<lparr>rt_daylight_fallback_done := b\<rparr>)"
  by (simp_all add: set_cal_def set_reg_def)

lemma days_in_month_set_reg [simp]: "rtc_days_in_month (set_reg k v r) = rtc_days_in_month r"
  by (simp add: rtc_days_in_month_def)

lemma daylight_set_flags:
  "k \<noteq> X86_RTC_REG_B \<Longrightarrow> rtc_daylight_hour (set_reg k v r) = set_reg k v (rtc_daylight_hour r)"
  by (simp add: rtc_daylight_hour_def set_reg_commute Let_def)

lemma increment_day_set_reg: "rtc_increment_day (set_reg k v r) = set_reg k v (rtc_increment_day r)"
  by (simp add: rtc_increment_day_def set_reg_commute Let_def if_distrib [of "set_reg k v"])

lemma increment_set_flags:
  "k \<noteq> X86_RTC_REG_B \<Longrightarrow>
    rtc_increment_second (set_reg k v r) = set_reg k v (rtc_increment_second r)"
  by (simp add: rtc_increment_second_def set_reg_commute daylight_set_flags increment_day_set_reg
      Let_def)

lemma second_step_fields [simp]:
  "rt_calendar (rtc_second_step r) = rt_calendar (rtc_increment_second r)"
  "rt_daylight_fallback_done (rtc_second_step r) = rt_daylight_fallback_done (rtc_increment_second r)"
  "k \<noteq> X86_RTC_REG_C \<Longrightarrow> rt_registers (rtc_second_step r) k = rt_registers r k"
  "rt_register_count (rtc_second_step r) = rt_register_count r"
  "rt_output (rtc_second_step r) = rt_output r"
  "rt_ticks_per_second (rtc_second_step r) = rt_ticks_per_second r"
  "rt_calls (rtc_second_step r) = rt_calls r"
  by (simp_all add: rtc_second_step_def Let_def)

section \<open>The calendar as a count of seconds\<close>

text \<open>
  The abstract calendar: the years 0 to 99 of a century in which every fourth year, starting with
  year 0, is a leap year. \<open>day_number\<close> counts the days since 1 January of year 0.
\<close>

definition month_len :: "nat \<Rightarrow> nat \<Rightarrow> nat" where
  "month_len y m = (if m = 2 then if y mod 4 = 0 then 29 else 28
     else if m \<in> {4, 6, 9, 11} then 30 else 31)"

definition days_before :: "nat \<Rightarrow> nat \<Rightarrow> nat" where
  "days_before y m = sum_list (map (month_len y) [1..<m])"

definition year_start :: "nat \<Rightarrow> nat" where
  "year_start y = 365 * y + (y + 3) div 4"

definition day_number :: "nat \<Rightarrow> nat \<Rightarrow> nat \<Rightarrow> nat" where
  "day_number y m d = year_start y + days_before y m + (d - 1)"

definition date_ok :: "x86_rtc_calendar \<Rightarrow> bool" where
  "date_ok c \<longleftrightarrow> 1 \<le> rc_month c \<and> rc_month c \<le> 12 \<and> 1 \<le> rc_day_month c \<and>
     unat (rc_day_month c) \<le> month_len (unat (rc_year c)) (unat (rc_month c)) \<and> rc_year c \<le> 99"

definition calendar_ok :: "x86_rtc_calendar \<Rightarrow> bool" where
  "calendar_ok c \<longleftrightarrow> rc_second c < 60 \<and> rc_minute c < 60 \<and> rc_hour c < 24 \<and>
     1 \<le> rc_day_week c \<and> rc_day_week c \<le> 7 \<and> date_ok c"

definition calendar_days :: "x86_rtc_calendar \<Rightarrow> nat" where
  "calendar_days c = day_number (unat (rc_year c)) (unat (rc_month c)) (unat (rc_day_month c))"

definition calendar_seconds :: "x86_rtc_calendar \<Rightarrow> nat" where
  "calendar_seconds c = ((calendar_days c * 24 + unat (rc_hour c)) * 60 + unat (rc_minute c)) * 60 +
     unat (rc_second c)"

definition century_days :: nat where "century_days = 36525"
definition century_seconds :: nat where "century_seconds = century_days * 86400"

lemma days_before_Suc: "1 \<le> m \<Longrightarrow> days_before y (Suc m) = days_before y m + month_len y m"
  by (simp add: days_before_def)

lemma months_upt:
  "[1..<13] = [1, 2, 3, 4, 5, 6, 7, 8, 9, 10, 11, 12 :: nat]"
  "[1..<12] = [1, 2, 3, 4, 5, 6, 7, 8, 9, 10, 11 :: nat]"
  by code_simp+

lemma days_before_year: "days_before y 13 = 365 + (if y mod 4 = 0 then 1 else 0)"
  by (simp add: days_before_def months_upt month_len_def del: One_nat_def)

lemma year_start_Suc: "year_start (Suc y) = year_start y + 365 + (if y mod 4 = 0 then 1 else 0)"
  unfolding year_start_def by presburger

text \<open>The next day of the abstract calendar.\<close>

lemma day_number_next:
  assumes "1 \<le> m" and "1 \<le> d" and "d \<le> month_len y m"
  shows "d < month_len y m \<Longrightarrow> day_number y m (d + 1) = day_number y m d + 1"
    and "d = month_len y m \<Longrightarrow> day_number y (m + 1) 1 = day_number y m d + 1"
    and "d = month_len y m \<Longrightarrow> m = 12 \<Longrightarrow> day_number (y + 1) 1 1 = day_number y m d + 1"
proof -
  show "d < month_len y m \<Longrightarrow> day_number y m (d + 1) = day_number y m d + 1"
    using assms by (simp add: day_number_def)
  show next_month: "day_number y (m + 1) 1 = day_number y m d + 1" if "d = month_len y m"
    using assms that days_before_Suc [of m y] by (simp add: day_number_def)
  show "day_number (y + 1) 1 1 = day_number y m d + 1" if "d = month_len y m" "m = 12"
  proof -
    have "day_number y 13 1 = day_number y m d + 1" using next_month that by simp
    then show ?thesis
      using days_before_year [of y] year_start_Suc [of y] by (simp add: day_number_def days_before_def)
  qed
qed

lemma day_number_last: "day_number 99 12 31 + 1 = century_days"
  by (simp add: day_number_def year_start_def days_before_def months_upt month_len_def century_days_def
      del: One_nat_def)

lemma unat_inc8: "unat w < 255 \<Longrightarrow> unat (w + 1 :: lib_u8) = unat w + 1"
  by (simp add: unat_word_ariths)

lemma unat_and_3: "unat (w AND 3 :: lib_u8) = unat w mod 4"
proof -
  have "w AND 3 = take_bit 2 w" by (simp add: take_bit_eq_mask mask_eq_exp_minus_1)
  then show ?thesis by (simp add: unsigned_take_bit_eq take_bit_nat_def)
qed

lemma unat_days_in_month:
  assumes "1 \<le> rc_month (rt_calendar r)" and "rc_month (rt_calendar r) \<le> 12"
  shows "unat (rtc_days_in_month r) =
    month_len (unat (rc_year (rt_calendar r))) (unat (rc_month (rt_calendar r)))"
proof -
  define y and m where "y = rc_year (rt_calendar r)" and "m = rc_month (rt_calendar r)"
  have leap: "y AND 3 = 0 \<longleftrightarrow> unat y mod 4 = 0"
    unfolding unat_and_3 [symmetric] by (simp add: unat_eq_0)
  have "unat m \<in> set [1..<13]" using assms by (simp add: m_def word_le_nat_alt)
  then consider "m = 1" | "m = 2" | "m = 3" | "m = 4" | "m = 5" | "m = 6" | "m = 7" | "m = 8"
    | "m = 9" | "m = 10" | "m = 11" | "m = 12"
    unfolding months_upt by (auto simp: word_unat_eq_iff)
  then show ?thesis
    by cases (simp_all add: rtc_days_in_month_def month_len_def Let_def leap
        flip: y_def m_def)
qed

text \<open>The three outcomes of the carry into the date.\<close>

definition next_week_day :: "x86_rtc_calendar \<Rightarrow> lib_u8" where
  "next_week_day c = (if rc_day_week c = 7 then 1 else rc_day_week c + 1)"

lemma increment_day_calendar:
  "rt_calendar (rtc_increment_day r) =
    (let c = (rt_calendar r)\<lparr>rc_hour := 0, rc_day_week := next_week_day (rt_calendar r)\<rparr>
     in if rc_day_month c + 1 \<le> rtc_days_in_month r then c\<lparr>rc_day_month := rc_day_month c + 1\<rparr>
        else if rc_month c + 1 \<le> 12 then c\<lparr>rc_day_month := 1, rc_month := rc_month c + 1\<rparr>
        else c\<lparr>rc_day_month := 1, rc_month := 1,
               rc_year := (if rc_year c = 99 then 0 else rc_year c + 1)\<rparr>)"
proof -
  have "rtc_days_in_month (set_cal (rc_day_month_update f) (set_cal (rc_day_week_update g)
      ((set_cal (rc_hour_update h) r)\<lparr>rt_daylight_fallback_done := b\<rparr>))) = rtc_days_in_month r"
    for f g h b by (simp add: rtc_days_in_month_def)
  then show ?thesis
    by (simp add: rtc_increment_day_def next_week_day_def Let_def)
qed

lemma month_len_bounds: "1 \<le> month_len y m" "month_len y m \<le> 31"
  by (simp_all add: month_len_def)

lemma days_before_mono: "1 \<le> m \<Longrightarrow> m \<le> n \<Longrightarrow> days_before y m \<le> days_before y n"
proof (induction n)
  case (Suc n)
  then show ?case
    by (cases "m = Suc n") (auto simp: days_before_Suc intro: trans_le_add1)
qed simp

lemma day_number_bound:
  assumes "1 \<le> m" "m \<le> 12" "1 \<le> d" "d \<le> month_len y m" "y \<le> 99"
  shows "day_number y m d < century_days"
proof -
  have "days_before y (Suc m) \<le> days_before y 13" by (rule days_before_mono) (use assms in simp_all)
  then have "day_number y m d < year_start y + days_before y 13"
    using assms days_before_Suc [of m y] by (simp add: day_number_def)
  also have "\<dots> = year_start (Suc y)" by (simp add: year_start_Suc days_before_year)
  also have "\<dots> \<le> year_start 100"
    unfolding year_start_def using assms(5) by (intro add_mono mult_le_mono div_le_mono) simp_all
  also have "\<dots> = century_days" by (simp add: year_start_def century_days_def)
  finally show ?thesis .
qed

lemma increment_day_date:
  assumes ok: "date_ok (rt_calendar r)"
  shows "calendar_days (rt_calendar (rtc_increment_day r)) =
      (calendar_days (rt_calendar r) + 1) mod century_days \<and>
    date_ok (rt_calendar (rtc_increment_day r))"
proof -
  define c where "c = rt_calendar r"
  define y m d where "y = unat (rc_year c)" and "m = unat (rc_month c)" and "d = unat (rc_day_month c)"
  have rng: "1 \<le> m" "m \<le> 12" "1 \<le> d" "d \<le> month_len y m" "y \<le> 99"
    using ok by (simp_all add: date_ok_def y_def m_def d_def word_le_nat_alt flip: c_def)
  have d31: "d \<le> 31" using rng(4) month_len_bounds(2) [of y m] by linarith
  have inc: "unat (rc_day_month c + 1) = d + 1" "unat (rc_month c + 1) = m + 1"
    "unat (rc_year c + 1) = y + 1"
    using rng d31 by (simp_all add: unat_inc8 flip: y_def m_def d_def)
  have dim: "unat (rtc_days_in_month r) = month_len y m"
    using unat_days_in_month [of r] ok by (simp add: date_ok_def y_def m_def flip: c_def)
  have y99: "rc_year c = 99 \<longleftrightarrow> y = 99"
    by (simp add: y_def word_unat_eq_iff)
  note next_day = day_number_next [OF rng(1,3,4)]
  have days: "calendar_days c = day_number y m d" by (simp add: calendar_days_def y_def m_def d_def)
  define c' where "c' = rt_calendar (rtc_increment_day r)"
  define e where "e = c\<lparr>rc_hour := 0, rc_day_week := next_week_day c\<rparr>"
  consider (month) "d < month_len y m" | (months) "d = month_len y m" "m < 12"
    | (years) "d = month_len y m" "m = 12" "y < 99" | (century) "d = month_len y m" "m = 12" "y = 99"
    using rng by linarith
  then have "date_ok c' \<and> calendar_days c' = (day_number y m d + 1) mod century_days"
  proof cases
    case month
    then have "c' = e\<lparr>rc_day_month := rc_day_month c + 1\<rparr>"
      by (simp add: c'_def e_def increment_day_calendar Let_def word_le_nat_alt dim inc flip: c_def)
    moreover have "day_number y m (d + 1) < century_days" using rng month by (intro day_number_bound) simp_all
    ultimately show ?thesis using ok month next_day(1)
      by (simp add: date_ok_def calendar_days_def e_def word_le_nat_alt inc flip: c_def y_def m_def)
  next
    case months
    then have "c' = e\<lparr>rc_day_month := 1, rc_month := rc_month c + 1\<rparr>"
      by (simp add: c'_def e_def increment_day_calendar Let_def word_le_nat_alt dim inc flip: c_def)
    moreover have "day_number y (m + 1) 1 < century_days"
      using rng months month_len_bounds by (intro day_number_bound) simp_all
    ultimately show ?thesis using ok months next_day(2) month_len_bounds(1) [of y "m + 1"]
      by (simp add: date_ok_def calendar_days_def e_def word_le_nat_alt inc flip: c_def y_def m_def)
  next
    case years
    then have "c' = e\<lparr>rc_day_month := 1, rc_month := 1, rc_year := rc_year c + 1\<rparr>"
      by (simp add: c'_def e_def increment_day_calendar Let_def word_le_nat_alt dim inc y99 flip: c_def)
    moreover have "day_number (y + 1) 1 1 < century_days"
      using rng years month_len_bounds by (intro day_number_bound) simp_all
    ultimately show ?thesis using ok years next_day(3) month_len_bounds(1) [of "y + 1" 1]
      by (simp add: date_ok_def calendar_days_def e_def word_le_nat_alt inc flip: c_def y_def m_def)
  next
    case century
    then have "c' = e\<lparr>rc_day_month := 1, rc_month := 1, rc_year := 0\<rparr>"
      by (simp add: c'_def e_def increment_day_calendar Let_def word_le_nat_alt dim inc y99 flip: c_def)
    moreover have "day_number y m d + 1 = century_days"
      using century day_number_last by (simp add: month_len_def)
    ultimately show ?thesis
      by (simp add: date_ok_def calendar_days_def e_def day_number_def year_start_def days_before_def
          month_len_def)
  qed
  then show ?thesis by (simp add: c'_def days flip: c_def)
qed

text \<open>
  With daylight saving disabled, one second later: the count of seconds in the century moves by
  one, and the day of the week moves exactly at midnight.
\<close>

lemma daylight_off [simp]: "rt_reg r X86_RTC_REG_B AND 1 = 0 \<Longrightarrow> rtc_daylight_hour r = r"
  by (simp add: rtc_daylight_hour_def)

lemma calendar_days_time:
  "calendar_days (c\<lparr>rc_second := s\<rparr>) = calendar_days c" "calendar_days (c\<lparr>rc_minute := s\<rparr>) = calendar_days c"
  "calendar_days (c\<lparr>rc_hour := s\<rparr>) = calendar_days c"
  "date_ok (c\<lparr>rc_second := s\<rparr>) = date_ok c" "date_ok (c\<lparr>rc_minute := s\<rparr>) = date_ok c"
  "date_ok (c\<lparr>rc_hour := s\<rparr>) = date_ok c"
  "calendar_days (c\<lparr>rc_second_ticks := t\<rparr>) = calendar_days c"
  "calendar_days (c\<lparr>rc_periodic_ticks := t\<rparr>) = calendar_days c"
  "date_ok (c\<lparr>rc_second_ticks := t\<rparr>) = date_ok c"
  "date_ok (c\<lparr>rc_periodic_ticks := t\<rparr>) = date_ok c"
  by (simp_all add: calendar_days_def date_ok_def)

lemma calendar_days_bound: "date_ok c \<Longrightarrow> calendar_days c < century_days"
  by (simp add: calendar_days_def date_ok_def day_number_bound word_le_nat_alt)

lemma calendar_seconds_bound: "calendar_ok c \<Longrightarrow> calendar_seconds c < century_seconds"
  using calendar_days_bound [of c]
  by (simp add: calendar_seconds_def calendar_ok_def century_seconds_def word_less_nat_alt)

lemma seconds_carry:
  assumes "d < (D::nat)" and "h < 24" and "m < 60" and "s < 60"
  shows "s < 59 \<Longrightarrow> (((d * 24 + h) * 60 + m) * 60 + s + 1) mod (D * 86400) = ((d * 24 + h) * 60 + m) * 60 + (s + 1)"
    and "m < 59 \<Longrightarrow> (((d * 24 + h) * 60 + m) * 60 + 59 + 1) mod (D * 86400) = ((d * 24 + h) * 60 + (m + 1)) * 60"
    and "h < 23 \<Longrightarrow> (((d * 24 + h) * 60 + 59) * 60 + 59 + 1) mod (D * 86400) = ((d * 24 + (h + 1)) * 60) * 60"
    and "(((d * 24 + 23) * 60 + 59) * 60 + 59 + 1) mod (D * 86400) = (((d + 1) mod D * 24) * 60) * 60"
proof -
  have D: "(d + 1) * 86400 \<le> D * 86400" using assms(1) by (intro mult_le_mono) simp_all
  show "s < 59 \<Longrightarrow> (((d * 24 + h) * 60 + m) * 60 + s + 1) mod (D * 86400) = ((d * 24 + h) * 60 + m) * 60 + (s + 1)"
    using assms D by simp
  show "m < 59 \<Longrightarrow> (((d * 24 + h) * 60 + m) * 60 + 59 + 1) mod (D * 86400) = ((d * 24 + h) * 60 + (m + 1)) * 60"
    using assms D by simp
  show "h < 23 \<Longrightarrow> (((d * 24 + h) * 60 + 59) * 60 + 59 + 1) mod (D * 86400) = ((d * 24 + (h + 1)) * 60) * 60"
    using assms D by simp
  have "(((d * 24 + 23) * 60 + 59) * 60 + 59 + 1) mod (D * 86400) = (d + 1) * 86400 mod (D * 86400)"
    by (simp add: mult.commute [of _ d])
  also have "\<dots> = (d + 1) mod D * 86400" by (rule mod_mult_mult2)
  finally show "(((d * 24 + 23) * 60 + 59) * 60 + 59 + 1) mod (D * 86400) = (((d + 1) mod D * 24) * 60) * 60"
    by simp
qed

lemma midnight_iff:
  assumes "(h::nat) < 24" and "m < 60" and "s < 60"
  shows "(((d * 24 + h) * 60 + m) * 60 + s + 1) mod 86400 = 0 \<longleftrightarrow> h = 23 \<and> m = 59 \<and> s = 59"
proof -
  have "((d * 24 + h) * 60 + m) * 60 + s + 1 = ((h * 60 + m) * 60 + s + 1) + d * 86400" by simp
  then have "(((d * 24 + h) * 60 + m) * 60 + s + 1) mod 86400 = ((h * 60 + m) * 60 + s + 1) mod 86400"
    by (simp only: mod_mult_self1)
  moreover have "((h * 60 + m) * 60 + s + 1) mod 86400 = 0 \<longleftrightarrow> (h * 60 + m) * 60 + s + 1 = 86400"
    using assms by (cases "(h * 60 + m) * 60 + s + 1 = 86400") auto
  moreover have "(h * 60 + m) * 60 + s + 1 = 86400 \<longleftrightarrow> h = 23 \<and> m = 59 \<and> s = 59"
  proof
    assume "(h * 60 + m) * 60 + s + 1 = 86400"
    then have eq: "3600 * h + 60 * m + s = 86399" by simp
    have "23 \<le> h" by (rule ccontr) (use eq assms in linarith)
    then have h: "h = 23" using assms(1) by linarith
    have "59 \<le> m" by (rule ccontr) (use eq assms h in linarith)
    then have "m = 59" using assms(2) by linarith
    with eq h show "h = 23 \<and> m = 59 \<and> s = 59" by linarith
  qed simp
  ultimately show ?thesis by (simp only:)
qed

lemma increment_second_spec:
  assumes ok: "calendar_ok (rt_calendar r)" and off: "rt_reg r X86_RTC_REG_B AND 1 = 0"
  shows "calendar_ok (rt_calendar (rtc_increment_second r)) \<and>
    calendar_seconds (rt_calendar (rtc_increment_second r)) =
      (calendar_seconds (rt_calendar r) + 1) mod century_seconds \<and>
    rc_day_week (rt_calendar (rtc_increment_second r)) =
      (if (calendar_seconds (rt_calendar r) + 1) mod 86400 = 0 then next_week_day (rt_calendar r)
       else rc_day_week (rt_calendar r))"
proof -
  define c where "c = rt_calendar r"
  define h m s where "h = unat (rc_hour c)" and "m = unat (rc_minute c)" and "s = unat (rc_second c)"
  define D where "D = calendar_days c"
  define c' where "c' = rt_calendar (rtc_increment_second r)"
  have rng: "D < century_days" "h < 24" "m < 60" "s < 60"
    using ok calendar_days_bound [of c]
    by (simp_all add: calendar_ok_def D_def h_def m_def s_def word_less_nat_alt flip: c_def)
  have inc: "unat (rc_second c + 1) = s + 1" "unat (rc_minute c + 1) = m + 1" "unat (rc_hour c + 1) = h + 1"
    using rng by (simp_all add: unat_inc8 flip: h_def m_def s_def)
  have eq: "unat (rc_second c) = s" "unat (rc_minute c) = m" "unat (rc_hour c) = h"
    by (simp_all add: h_def m_def s_def)
  have secs: "calendar_seconds c = ((D * 24 + h) * 60 + m) * 60 + s"
    by (simp add: calendar_seconds_def D_def h_def m_def s_def)
  note carry = seconds_carry [OF rng]
  note mid = midnight_iff [OF rng(2-4), of D]
  note def = rtc_increment_second_def Let_def word_less_nat_alt calendar_days_time
  have off': "rtc_daylight_hour (set_cal f r') = set_cal f r'" if "rt_registers r' = rt_registers r" for f r'
    using off that by simp
  consider (second) "s < 59" | (minute) "s = 59" "m < 59" | (hour) "s = 59" "m = 59" "h < 23"
    | (day) "s = 59" "m = 59" "h = 23" using rng by linarith
  then have "calendar_ok c' \<and> calendar_seconds c' = (calendar_seconds c + 1) mod century_seconds \<and>
    rc_day_week c' = (if (calendar_seconds c + 1) mod 86400 = 0 then next_week_day c else rc_day_week c)"
  proof cases
    case second
    then have c': "c' = c\<lparr>rc_second := rc_second c + 1\<rparr>"
      by (simp add: c'_def def inc flip: c_def)
    show ?thesis using ok second carry(1) mid inc
      by (simp add: c' calendar_ok_def calendar_seconds_def def eq century_seconds_def secs flip: c_def D_def)
  next
    case minute
    then have c': "c' = c\<lparr>rc_second := 0, rc_minute := rc_minute c + 1\<rparr>"
      by (simp add: c'_def def inc flip: c_def)
    show ?thesis using ok minute carry(2) mid inc
      by (simp add: c' calendar_ok_def calendar_seconds_def def eq century_seconds_def secs flip: c_def D_def)
  next
    case hour
    then have c': "c' = c\<lparr>rc_second := 0, rc_minute := 0, rc_hour := rc_hour c + 1\<rparr>"
      by (simp add: c'_def def inc off' flip: c_def)
    show ?thesis using ok hour carry(3) mid inc
      by (simp add: c' calendar_ok_def calendar_seconds_def def eq century_seconds_def secs flip: c_def D_def)
  next
    case day
    define r' where "r' = set_cal (rc_hour_update (\<lambda>h. h + 1)) (set_cal (rc_minute_update (\<lambda>_. 0))
      (set_cal (rc_minute_update (\<lambda>m. m + 1)) (set_cal (rc_second_update (\<lambda>_. 0))
      (set_cal (rc_second_update (\<lambda>s. s + 1)) r))))"
    have c': "c' = rt_calendar (rtc_increment_day r')"
      using day by (simp add: c'_def r'_def def inc off' flip: c_def)
    have r': "rt_calendar r' = c\<lparr>rc_second := 0, rc_minute := 0, rc_hour := rc_hour c + 1\<rparr>"
      by (simp add: r'_def c_def)
    have date: "calendar_days c' = (D + 1) mod century_days" "date_ok c'"
      using increment_day_date [of r'] ok
      by (simp_all add: c' r' calendar_days_time calendar_ok_def D_def flip: c_def)
    have "rc_hour c' = 0 \<and> rc_minute c' = 0 \<and> rc_second c' = 0 \<and> rc_day_week c' = next_week_day c"
      by (simp add: c' increment_day_calendar r' Let_def next_week_day_def)
    moreover have "1 \<le> next_week_day c \<and> next_week_day c \<le> 7"
      using ok by (simp add: calendar_ok_def next_week_day_def word_le_nat_alt unat_inc8 flip: c_def)
        (simp add: word_unat_eq_iff)
    moreover have "(calendar_seconds c + 1) mod century_seconds = (D + 1) mod century_days * 24 * 60 * 60"
      using carry(4) by (simp only: secs day century_seconds_def)
    moreover have "(calendar_seconds c + 1) mod 86400 = 0" using mid day by (simp only: secs)
    ultimately show ?thesis using date by (simp add: calendar_ok_def calendar_seconds_def [of c'])
  qed
  then show ?thesis by (simp only: c_def c'_def)
qed

section \<open>Invariant\<close>

definition rtc_pending :: "x86_rtc \<Rightarrow> bool" where
  "rtc_pending r \<longleftrightarrow> rt_reg r X86_RTC_REG_C AND rt_reg r X86_RTC_REG_B AND 0x70 \<noteq> 0"

definition rtc_irq :: "x86_rtc \<Rightarrow> bool" where
  "rtc_irq r \<longleftrightarrow> rt_reg r X86_RTC_REG_C AND 0x80 \<noteq> 0"

text \<open>
  The interrupt flag shows an enabled pending event; the levels delivered to a connected output
  alternate, starting with an assertion, and the last one is the level of the flag; an unconnected
  output is never called.
\<close>

definition rtc_line_ok :: "x86_rtc \<Rightarrow> bool" where
  "rtc_line_ok r \<longleftrightarrow>
     rt_calls r = map even [0..<length (rt_calls r)] \<and>
     (if rt_output r then rtc_irq r = odd (length (rt_calls r)) else rt_calls r = [])"

definition rtc_phase_ok :: "x86_rtc \<Rightarrow> bool" where
  "rtc_phase_ok r \<longleftrightarrow> rt_ticks_per_second r \<noteq> 0 \<and> 14 \<le> rt_register_count r \<and>
     rt_register_count r \<le> 0x80 \<and>
     unat (rc_second_ticks (rt_calendar r)) < unat (rt_ticks_per_second r) \<and>
     unat (rc_periodic_ticks (rt_calendar r)) < unat (rt_ticks_per_second r)"

definition rtc_ok :: "x86_rtc \<Rightarrow> bool" where
  "rtc_ok r \<longleftrightarrow> rtc_phase_ok r \<and> rtc_line_ok r \<and> rtc_irq r = rtc_pending r"

lemma flag_bits8:
  "(w :: lib_u8) AND 0x80 = 0 \<longleftrightarrow> \<not> bit w 7" "w AND 0x40 = 0 \<longleftrightarrow> \<not> bit w 6"
  "w AND 0x20 = 0 \<longleftrightarrow> \<not> bit w 5" "w AND 0x10 = 0 \<longleftrightarrow> \<not> bit w 4"
  unfolding BIT_IS_SET_flags [of w, symmetric] BIT_IS_SET_def by simp_all

lemma rtc_pending_bits:
  "rtc_pending r \<longleftrightarrow> (\<exists>k \<in> {4, 5, 6}. bit (rt_reg r X86_RTC_REG_C) k \<and> bit (rt_reg r X86_RTC_REG_B) k)"
proof -
  have m: "bit (0x70 :: lib_u8) k \<longleftrightarrow> k \<in> {4, 5, 6}" if "k < 8" for k
    using that by (auto simp: less_Suc_eq numeral_eq_Suc)
  show ?thesis unfolding rtc_pending_def word_neq_0_bits bit_and_iff using m by force
qed

lemma rtc_irq_bit: "rtc_irq r \<longleftrightarrow> bit (rt_reg r X86_RTC_REG_C) 7"
  by (simp add: rtc_irq_def flag_bits8)

text \<open>The simplifier writes the complement of the interrupt flag as a negative numeral.\<close>

lemma flag_mask_bits:
  "bit ((w :: lib_u8) OR 0x80) k \<longleftrightarrow> bit w k \<or> k = 7"
  "bit (w AND - 129) k \<longleftrightarrow> bit w k \<and> k \<noteq> 7"
proof -
  have m: "(0x80 :: lib_u8) = BIT_MASK 7" by (simp add: BIT_MASK_def)
  have n: "(- 129 :: lib_u8) = NOT 0x80" by simp
  show "bit ((w :: lib_u8) OR 0x80) k \<longleftrightarrow> bit w k \<or> k = 7"
    using bit_BIT_SET_mask [of w 7 k] unfolding m BIT_SET_def by simp
  show "bit (w AND - 129) k \<longleftrightarrow> bit w k \<and> k \<noteq> 7"
    unfolding n m using bit_BIT_CLEAR_mask [of w 7 k] unfolding BIT_CLEAR_def .
qed

lemma refresh_irq_alt:
  "rtc_refresh_irq r =
    (let r' = set_reg X86_RTC_REG_C (if rtc_pending r then rt_reg r X86_RTC_REG_C OR 0x80
       else rt_reg r X86_RTC_REG_C AND NOT 0x80) r
     in if rt_output r \<and> rtc_irq r \<noteq> rtc_pending r then rtc_call_output (rtc_pending r) r' else r')"
proof -
  let ?f = "rt_reg r X86_RTC_REG_C" and ?e = "rt_reg r X86_RTC_REG_B"
  have c: "(?f AND 0x40 \<noteq> 0 \<and> ?e AND 0x40 \<noteq> 0 \<or> ?f AND 0x20 \<noteq> 0 \<and> ?e AND 0x20 \<noteq> 0 \<or>
      ?f AND 0x10 \<noteq> 0 \<and> ?e AND 0x10 \<noteq> 0) = rtc_pending r"
    by (auto simp: rtc_pending_bits flag_bits8)
  have "(?f OR 0x80) AND 0x80 \<noteq> 0" "(?f AND - 129) AND 0x80 = 0"
    unfolding flag_bits8 flag_mask_bits by simp_all
  then show ?thesis
    unfolding rtc_refresh_irq_def Let_def c rtc_irq_def
    by (cases "rtc_pending r") simp_all
qed

lemma refresh_irq_flags:
  "rt_reg (rtc_refresh_irq r) X86_RTC_REG_C =
    (if rtc_pending r then rt_reg r X86_RTC_REG_C OR 0x80 else rt_reg r X86_RTC_REG_C AND NOT 0x80)"
  by (simp add: refresh_irq_alt Let_def)

lemma refresh_irq_calls:
  "rt_calls (rtc_refresh_irq r) =
    (if rt_output r \<and> rtc_irq r \<noteq> rtc_pending r then rt_calls r @ [rtc_pending r] else rt_calls r)"
  by (simp add: refresh_irq_alt Let_def)

lemma refresh_irq_pending [simp]: "rtc_pending (rtc_refresh_irq r) = rtc_pending r"
  by (auto simp: rtc_pending_bits refresh_irq_flags flag_mask_bits)

lemma refresh_irq_irq [simp]: "rtc_irq (rtc_refresh_irq r) = rtc_pending r"
  by (simp add: rtc_irq_bit refresh_irq_flags flag_mask_bits)

lemma even_levels_snoc:
  "l = map even [0..<length l] \<Longrightarrow> b = even (length l) \<Longrightarrow> l @ [b] = map even [0..<length (l @ [b])]"
  by simp

lemma refresh_irq_ok:
  assumes "rtc_phase_ok r" and "rtc_line_ok r"
  shows "rtc_ok (rtc_refresh_irq r)"
proof -
  have "rtc_phase_ok (rtc_refresh_irq r)" using assms(1) by (simp add: rtc_phase_ok_def)
  moreover have "rtc_line_ok (rtc_refresh_irq r)"
  proof (cases "rt_output r \<and> rtc_irq r \<noteq> rtc_pending r")
    case True
    then have "rtc_pending r = even (length (rt_calls r))"
      using assms(2) by (auto simp: rtc_line_ok_def)
    then show ?thesis using True assms(2) even_levels_snoc
      by (auto simp: rtc_line_ok_def refresh_irq_calls)
  next
    case False
    then show ?thesis using assms(2) by (auto simp: rtc_line_ok_def refresh_irq_calls)
  qed
  ultimately show ?thesis by (simp add: rtc_ok_def)
qed

section \<open>Advancing\<close>

lemma unat_u32_u64 [simp]: "unat (ucast (x :: lib_u32) :: lib_u64) = unat x"
  by (rule unat_ucast_up) simp

lemma elapsed_seconds_bound:
  assumes "(st::nat) < tps" shows "(st + n) div tps \<le> n"
proof (cases "n = 0")
  case False
  obtain p where p: "tps = Suc p" using assms by (cases tps) auto
  have "st \<le> p" using assms p by simp
  also have "p \<le> p * n" using False by simp
  finally have "st \<le> p * n" .
  then have "st + n \<le> tps * n" by (simp add: p)
  then have "(st + n) div tps \<le> tps * n div tps" by (rule div_le_mono)
  then show ?thesis using assms by simp
qed (use assms in simp)

lemma elapsed_split:
  assumes "(0::nat) < tps"
  shows "n div tps + (st + n mod tps) div tps = (st + n) div tps"
    and "(st + n mod tps) mod tps = (st + n) mod tps"
proof -
  have "n div tps + (st + n mod tps) div tps = (st + n mod tps + n div tps * tps) div tps"
    by (rule div_mult_self1 [symmetric]) (use assms in simp)
  also have "st + n mod tps + n div tps * tps = st + n" by simp
  finally show "n div tps + (st + n mod tps) div tps = (st + n) div tps" .
qed (simp add: mod_simps)

text \<open>The number of calendar seconds an advance by \<open>n\<close> ticks completes, and its word arithmetic.\<close>

definition elapsed_seconds :: "x86_rtc \<Rightarrow> lib_u64 \<Rightarrow> nat" where
  "elapsed_seconds r n =
     (unat (rc_second_ticks (rt_calendar r)) + unat n) div unat (rt_ticks_per_second r)"

lemma phase_word:
  assumes "unat st < unat (tps :: lib_u32)"
  shows "unat (st + n mod ucast tps :: lib_u64) = unat st + unat n mod unat tps"
proof -
  have "unat (n mod ucast tps :: lib_u64) = unat n mod unat tps" by (simp add: unat_mod)
  moreover have "unat n mod unat tps < unat tps" using assms by simp
  moreover have "unat tps < 2 ^ 32" using unsigned_less [of tps, where 'a = nat] by simp
  moreover have "(2::nat) ^ 32 + 2 ^ 32 < 2 ^ 64" by simp
  ultimately have "unat st + unat (n mod ucast tps :: lib_u64) < 2 ^ 64" using assms by linarith
  then show ?thesis using \<open>unat (n mod ucast tps :: lib_u64) = unat n mod unat tps\<close>
    by (subst unat_plus_if') simp
qed

lemma seconds_word:
  assumes "unat st < unat (tps :: lib_u32)"
  shows "unat (n div ucast tps + (st + n mod ucast tps) div ucast tps :: lib_u64) = (unat st + unat n) div unat tps"
proof -
  have "unat (n div ucast tps :: lib_u64) + unat ((st + n mod ucast tps) div ucast tps :: lib_u64) =
      (unat st + unat n) div unat tps"
    using assms by (simp add: unat_div phase_word elapsed_split(1))
  moreover have "(unat st + unat n) div unat tps < 2 ^ 64"
    using elapsed_seconds_bound [OF assms, of "unat n"] unsigned_less [of n, where 'a = nat] by simp
  ultimately show ?thesis by (subst unat_plus_if') simp
qed

lemma advance_seconds_alt:
  assumes "rtc_phase_ok r"
  shows "\<exists>t. unat t = (unat (rc_second_ticks (rt_calendar r)) + unat n) mod unat (rt_ticks_per_second r) \<and>
    rtc_advance_seconds n r =
      (rtc_second_step ^^ (if rt_reg r X86_RTC_REG_B AND 0x80 \<noteq> 0 then 0 else elapsed_seconds r n))
        (set_cal (rc_second_ticks_update (\<lambda>_. t)) r)"
proof -
  have st: "unat (rc_second_ticks (rt_calendar r)) < unat (rt_ticks_per_second r)"
    using assms by (simp add: rtc_phase_ok_def)
  let ?t = "(rc_second_ticks (rt_calendar r) + n mod ucast (rt_ticks_per_second r)) mod ucast (rt_ticks_per_second r)"
  have "unat ?t = (unat (rc_second_ticks (rt_calendar r)) + unat n) mod unat (rt_ticks_per_second r)"
    by (simp add: unat_mod phase_word [OF st] mod_simps)
  then show ?thesis
    by (intro exI [of _ ?t]) (simp add: rtc_advance_seconds_def Let_def elapsed_seconds_def seconds_word [OF st])
qed

lemma second_steps_fields:
  "rt_registers ((rtc_second_step ^^ k) r) j = rt_registers r j \<or> j = X86_RTC_REG_C"
  "rt_register_count ((rtc_second_step ^^ k) r) = rt_register_count r"
  "rt_output ((rtc_second_step ^^ k) r) = rt_output r"
  "rt_ticks_per_second ((rtc_second_step ^^ k) r) = rt_ticks_per_second r"
  "rt_calls ((rtc_second_step ^^ k) r) = rt_calls r"
  "rc_second_ticks (rt_calendar ((rtc_second_step ^^ k) r)) = rc_second_ticks (rt_calendar r)"
  "rc_periodic_ticks (rt_calendar ((rtc_second_step ^^ k) r)) = rc_periodic_ticks (rt_calendar r)"
  by (induction k) auto

lemma second_steps_calendar:
  assumes "calendar_ok (rt_calendar r)" and "rt_reg r X86_RTC_REG_B AND 1 = 0"
  shows "calendar_ok (rt_calendar ((rtc_second_step ^^ k) r)) \<and>
    calendar_seconds (rt_calendar ((rtc_second_step ^^ k) r)) =
      (calendar_seconds (rt_calendar r) + k) mod century_seconds"
proof (induction k)
  case 0
  then show ?case using assms calendar_seconds_bound by simp
next
  case (Suc k)
  have "rt_reg ((rtc_second_step ^^ k) r) X86_RTC_REG_B AND 1 = 0"
    using assms(2) second_steps_fields(1) [of k r X86_RTC_REG_B] by simp
  from increment_second_spec [OF _ this] Suc show ?case by (simp add: mod_Suc_eq)
qed

lemma advance_periodic_fields [simp]:
  "k \<noteq> X86_RTC_REG_C \<Longrightarrow> rt_registers (rtc_advance_periodic n r) k = rt_registers r k"
  "rt_register_count (rtc_advance_periodic n r) = rt_register_count r"
  "rt_output (rtc_advance_periodic n r) = rt_output r"
  "rt_ticks_per_second (rtc_advance_periodic n r) = rt_ticks_per_second r"
  "rt_calls (rtc_advance_periodic n r) = rt_calls r"
  "rt_calendar (rtc_advance_periodic n r) = (rt_calendar r)\<lparr>rc_periodic_ticks :=
     (rc_periodic_ticks (rt_calendar r) + n mod ucast (rt_ticks_per_second r)) mod
       ucast (rt_ticks_per_second r)\<rparr>"
  by (simp_all add: rtc_advance_periodic_def Let_def)

lemma advance_periodic_phase:
  assumes "rtc_phase_ok r"
  shows "rtc_phase_ok (rtc_advance_periodic n r)"
  using assms unat_gt_0 [of "rt_ticks_per_second r"]
  by (simp add: rtc_phase_ok_def unat_mod)

lemma advance_seconds_phase:
  assumes "rtc_phase_ok r"
  shows "rtc_phase_ok (rtc_advance_seconds n r)"
proof -
  from advance_seconds_alt [OF assms, of n] obtain t k
    where t: "unat t = (unat (rc_second_ticks (rt_calendar r)) + unat n) mod unat (rt_ticks_per_second r)"
      and r: "rtc_advance_seconds n r = (rtc_second_step ^^ k) (set_cal (rc_second_ticks_update (\<lambda>_. t)) r)"
    by blast
  have "0 < unat (rt_ticks_per_second r)" using assms by (simp add: rtc_phase_ok_def unat_gt_0)
  then show ?thesis using assms unfolding r by (simp add: rtc_phase_ok_def second_steps_fields t)
qed

section \<open>Reachable clocks\<close>

lemma line_ok_cong:
  "rtc_line_ok r \<Longrightarrow> rt_calls r' = rt_calls r \<Longrightarrow> rt_output r' = rt_output r \<Longrightarrow> rtc_irq r' = rtc_irq r \<Longrightarrow>
    rtc_line_ok r'"
  by (simp add: rtc_line_ok_def)

lemma event_flag_bits: "\<not> bit (0x40 :: lib_u8) 7" "\<not> bit (0x20 :: lib_u8) 7" "\<not> bit (0x10 :: lib_u8) 7"
  by simp_all

lemma irq_kept [simp]:
  "rtc_irq (rtc_second_step r) = rtc_irq r" "rtc_irq (rtc_advance_periodic n r) = rtc_irq r"
  "rtc_irq (set_cal f r) = rtc_irq r" "k \<noteq> X86_RTC_REG_C \<Longrightarrow> rtc_irq (set_reg k v r) = rtc_irq r"
  "rtc_irq (r\<lparr>rt_daylight_fallback_done := b\<rparr>) = rtc_irq r"
  by (simp_all add: rtc_irq_bit rtc_second_step_def rtc_advance_periodic_def Let_def bit_or_iff
      event_flag_bits)

lemma second_steps_irq [simp]: "rtc_irq ((rtc_second_step ^^ k) r) = rtc_irq r"
  by (induction k) simp_all

lemma advance_line_ok:
  assumes "rtc_phase_ok r" and "rtc_line_ok r"
  shows "rtc_line_ok (rtc_advance_seconds n (rtc_advance_periodic n r))"
proof (rule line_ok_cong [OF assms(2)])
  let ?p = "rtc_advance_periodic n r"
  from advance_seconds_alt [OF advance_periodic_phase [OF assms(1)], of n n] obtain t k
    where s: "rtc_advance_seconds n ?p = (rtc_second_step ^^ k) (set_cal (rc_second_ticks_update (\<lambda>_. t)) ?p)"
    by blast
  show "rt_calls (rtc_advance_seconds n ?p) = rt_calls r" "rt_output (rtc_advance_seconds n ?p) = rt_output r"
    "rtc_irq (rtc_advance_seconds n ?p) = rtc_irq r"
    by (simp_all add: s second_steps_fields)
qed

lemma rtc_advance_ok:
  assumes "rtc_ok r" shows "rtc_ok (the (x86_rtc_advance (Some r) n))"
  using assms refresh_irq_ok [OF advance_seconds_phase [OF advance_periodic_phase] advance_line_ok]
  by (simp add: rtc_ok_def)

lemma phase_ticks_pos:
  assumes "us < 1000000" shows "rtc_phase_ticks configured tps us \<noteq> 0"
proof -
  let ?c = "(ucast tps * ucast us :: lib_u64) div 1000000"
  have b: "unat tps < 2 ^ 32" using unsigned_less [of tps, where 'a = nat] by simp
  have u: "unat us < 1000000" using assms by (simp add: word_less_nat_alt)
  have le: "unat tps * unat us \<le> unat tps * 1000000" using u by (intro mult_le_mono) simp_all
  also have "unat tps * 1000000 < 2 ^ 64" using b by simp
  finally have p: "unat tps * unat us < 2 ^ 64" .
  then have "unat ?c = unat tps * unat us div 1000000" by (simp add: unat_div unat_mult_lem [THEN iffD1])
  also have "\<dots> \<le> unat tps * 1000000 div 1000000"
    using le by (rule div_le_mono)
  finally have "unat ?c < 2 ^ 32" using b by simp
  then have "unat (ucast ?c :: lib_u32) = unat ?c"
    by (simp add: unsigned_ucast_eq take_bit_nat_eq_self_iff)
  then have "(ucast ?c :: lib_u32) \<noteq> 0" if "?c \<noteq> 0" using that by (metis unat_eq_0)
  then show ?thesis by (simp add: rtc_phase_ticks_def Let_def)
qed

lemma update_ticks_pos: "rtc_update_ticks r \<noteq> 0"
  by (simp add: rtc_update_ticks_def phase_ticks_pos)

lemma write_reg_a_phase:
  assumes "rtc_phase_ok r" shows "rtc_phase_ok (rtc_write_reg_a was_reset v r)"
proof -
  let ?s = "set_reg X86_RTC_REG_A (v AND 0x7f) r"
  let ?tps = "ucast (rt_ticks_per_second r) :: lib_u64"
  let ?c = "?tps div 2 + ucast (rtc_update_ticks ?s)"
  have pos: "0 < unat (rt_ticks_per_second r)" using assms by (simp add: rtc_phase_ok_def unat_gt_0)
  have u: "unat (rtc_update_ticks ?s) < 2 ^ 32" "0 < unat (rtc_update_ticks ?s)"
    "unat (rt_ticks_per_second r) < 2 ^ 32"
    using unsigned_less [of "rtc_update_ticks ?s", where 'a = nat]
      unsigned_less [of "rt_ticks_per_second r", where 'a = nat] update_ticks_pos [of ?s] unat_gt_0
    by auto
  then have "unat ?c = unat (rt_ticks_per_second r) div 2 + unat (rtc_update_ticks ?s)"
    by (subst unat_plus_if') (simp add: unat_div)
  then have "unat (?tps - ?c) < unat (rt_ticks_per_second r)" if "?c < ?tps"
    using that u pos by (simp add: unat_sub word_less_nat_alt less_imp_le)
  then show ?thesis using assms pos
    by (simp add: rtc_write_reg_a_def rtc_phase_ok_def Let_def)
qed

lemma write_reg_a_fields [simp]:
  "rt_calls (rtc_write_reg_a w v r) = rt_calls r" "rt_output (rtc_write_reg_a w v r) = rt_output r"
  "rtc_irq (rtc_write_reg_a w v r) = rtc_irq r"
  by (simp_all add: rtc_write_reg_a_def Let_def)

text \<open>A register write before the refresh of the interrupt line.\<close>

definition rtc_store :: "nat \<Rightarrow> lib_u8 \<Rightarrow> x86_rtc \<Rightarrow> x86_rtc" where
  "rtc_store reg value rtc =
     (let was_reset = (rt_reg rtc X86_RTC_REG_A AND 0x60 = 0x60);
          rtc = (if reg \<in> {X86_RTC_HOUR, X86_RTC_DAY_WEEK, X86_RTC_DAY_MONTH, X86_RTC_MONTH,
                   X86_RTC_YEAR} then rtc\<lparr>rt_daylight_fallback_done := False\<rparr> else rtc)
      in if reg = X86_RTC_SECOND
         then set_cal (rc_second_update (\<lambda>_. rtc_decode rtc (value AND 0x7f))) rtc
         else if reg = X86_RTC_MINUTE then set_cal (rc_minute_update (\<lambda>_. rtc_decode rtc value)) rtc
         else if reg = X86_RTC_HOUR then set_cal (rc_hour_update (\<lambda>_. rtc_hour_decode rtc value)) rtc
         else if reg = X86_RTC_DAY_WEEK then set_cal (rc_day_week_update (\<lambda>_. rtc_decode rtc value)) rtc
         else if reg = X86_RTC_DAY_MONTH then set_cal (rc_day_month_update (\<lambda>_. rtc_decode rtc value)) rtc
         else if reg = X86_RTC_MONTH then set_cal (rc_month_update (\<lambda>_. rtc_decode rtc value)) rtc
         else if reg = X86_RTC_YEAR then set_cal (rc_year_update (\<lambda>_. rtc_decode rtc value)) rtc
         else if reg = X86_RTC_REG_A then rtc_write_reg_a was_reset value rtc
         else if reg = X86_RTC_REG_B
         then set_reg reg (if value AND 0x80 \<noteq> 0 then value AND NOT 0x10 else value) rtc
         else if reg = X86_RTC_REG_C \<or> reg = X86_RTC_REG_D then rtc
         else set_reg reg value rtc)"

lemma write_register_store:
  "x86_rtc_write_register (Some r) reg v =
    Some (if reg \<ge> rt_register_count r then r else rtc_refresh_irq (rtc_store reg v r))"
  by (simp only: x86_rtc_write_register.simps rtc_store_def Let_def)

lemma store_fields [simp]:
  "rt_calls (rtc_store reg v r) = rt_calls r" "rt_output (rtc_store reg v r) = rt_output r"
  "rtc_irq (rtc_store reg v r) = rtc_irq r"
  by (simp_all add: rtc_store_def Let_def)

lemma store_phase: "rtc_phase_ok r \<Longrightarrow> rtc_phase_ok (rtc_store reg v r)"
  by (simp add: rtc_store_def Let_def write_reg_a_phase) (auto simp: rtc_phase_ok_def)

lemma rtc_write_ok:
  "rtc_ok r \<Longrightarrow> x86_rtc_write_register (Some r) reg v = Some r' \<Longrightarrow> rtc_ok r'"
  unfolding write_register_store
  using refresh_irq_ok [OF store_phase line_ok_cong [of r "rtc_store reg v r"]]
  by (auto simp: rtc_ok_def split: if_splits)

lemma read_flags_ok:
  assumes "rtc_phase_ok r" and "rtc_line_ok r"
  shows "rtc_ok (the (snd (x86_rtc_read_register (Some r) X86_RTC_REG_C)))"
proof -
  have n: "14 \<le> rt_register_count r" using assms(1) by (simp add: rtc_phase_ok_def)
  have zero: "\<not> rtc_irq (set_reg X86_RTC_REG_C 0 r)" "\<not> rtc_pending (set_reg X86_RTC_REG_C 0 r)"
    by (simp_all add: rtc_irq_def rtc_pending_def)
  show ?thesis
  proof (cases "rtc_irq r \<and> rt_output r")
    case True
    then have "odd (length (rt_calls r))" using assms(2) by (simp add: rtc_line_ok_def)
    then have "rt_calls r @ [False] = map even [0..<length (rt_calls r @ [False])]"
      using assms(2) even_levels_snoc [of "rt_calls r" False] by (simp add: rtc_line_ok_def)
    then show ?thesis using True assms n zero
      by (simp add: rtc_ok_def rtc_phase_ok_def rtc_line_ok_def rtc_irq_def rtc_pending_def Let_def)
  next
    case False
    then show ?thesis using assms n zero
      by (auto simp: rtc_ok_def rtc_phase_ok_def rtc_line_ok_def rtc_irq_def rtc_pending_def Let_def)
  qed
qed

lemma rtc_read_ok:
  assumes "rtc_ok r" and "x86_rtc_read_register (Some r) reg = (v, Some r')"
  shows "rtc_ok r'"
proof (cases "reg = X86_RTC_REG_C")
  case True
  then show ?thesis using read_flags_ok [of r] assms by (simp add: rtc_ok_def del: x86_rtc_read_register.simps)
next
  case False
  then show ?thesis using assms by (auto split: if_splits)
qed

lemma rtc_reset_ok:
  assumes "rtc_ok r" and "x86_rtc_reset (Some r) = Some r'"
  shows "rtc_ok r'"
proof -
  let ?b = "set_reg X86_RTC_REG_B (rt_reg r X86_RTC_REG_B AND (0x80 OR 4 OR 2 OR 1)) r"
  have "rtc_ok (the (snd (x86_rtc_read_register (Some ?b) X86_RTC_REG_C)))"
    by (rule read_flags_ok) (use assms(1) in \<open>auto simp: rtc_ok_def rtc_phase_ok_def rtc_line_ok_def\<close>)
  then show ?thesis using assms(2)
    by (auto simp: rtc_ok_def rtc_phase_ok_def rtc_line_ok_def rtc_pending_def rtc_irq_def Let_def
        simp del: x86_rtc_read_register.simps)
qed

inductive rtc_reachable :: "x86_rtc \<Rightarrow> bool" where
  rtc_created: "x86_rtc_create (Some config) output True (Some p) = (LIB_STATUS_OK, Some (Some r)) \<Longrightarrow>
    rtc_reachable r"
| rtc_was_reset: "rtc_reachable r \<Longrightarrow> x86_rtc_reset (Some r) = Some r' \<Longrightarrow> rtc_reachable r'"
| rtc_was_read: "rtc_reachable r \<Longrightarrow> x86_rtc_read_register (Some r) reg = (v, Some r') \<Longrightarrow> rtc_reachable r'"
| rtc_was_written: "rtc_reachable r \<Longrightarrow> x86_rtc_write_register (Some r) reg v = Some r' \<Longrightarrow> rtc_reachable r'"
| rtc_was_advanced: "rtc_reachable r \<Longrightarrow> x86_rtc_advance (Some r) n = Some r' \<Longrightarrow> rtc_reachable r'"

lemma rtc_reachable_ok: "rtc_reachable r \<Longrightarrow> rtc_ok r"
proof (induction rule: rtc_reachable.induct)
  case (rtc_created config out p r)
  then have "rcfg_ticks_per_second config \<noteq> 0" by (auto split: if_splits)
  with rtc_created show ?case
    by (auto simp: rtc_ok_def rtc_phase_ok_def rtc_line_ok_def rtc_irq_def rtc_pending_def zero_rtc_def
        Let_def unat_gt_0 split: if_splits)
next
  case (rtc_was_advanced r n r')
  then show ?case using rtc_advance_ok [of r n] by (simp del: x86_rtc_advance.simps)
qed (blast intro: rtc_reset_ok rtc_read_ok rtc_write_ok)+

end
