(* ===== verification/Rtc_Time.thy ===== *)
theory Rtc_Time
  imports Rtc
begin

unbundle bit_operations_syntax

text \<open>
  What the real-time clock of theory \<open>Rtc\<close> shows: exact time keeping, the interrupt line, the
  register views of the calendar, and the distance to the next interrupt.
\<close>

section \<open>Time keeping\<close>

text \<open>The time of a clock, in ticks since midnight of 1 January of year 0.\<close>

definition rtc_time :: "x86_rtc \<Rightarrow> nat" where
  "rtc_time r = calendar_seconds (rt_calendar r) * unat (rt_ticks_per_second r) +
     unat (rc_second_ticks (rt_calendar r))"

lemma mixed_radix_mod:
  assumes "(t::nat) < b" shows "(s mod c) * b + t = (s * b + t) mod (c * b)"
proof -
  have "(s * b + t) mod (c * b) = (s * b + t) mod (b * c)" by (simp add: mult.commute)
  also have "\<dots> = b * ((s * b + t) div b mod c) + (s * b + t) mod b" by (rule mod_mult2_eq)
  also have "\<dots> = (s mod c) * b + t" using assms by (simp add: mult.commute)
  finally show ?thesis by simp
qed

lemma calendar_ok_phases:
  "calendar_ok (c\<lparr>rc_second_ticks := t\<rparr>) = calendar_ok c" "calendar_ok (c\<lparr>rc_periodic_ticks := t\<rparr>) = calendar_ok c"
  "calendar_seconds (c\<lparr>rc_second_ticks := t\<rparr>) = calendar_seconds c"
  "calendar_seconds (c\<lparr>rc_periodic_ticks := t\<rparr>) = calendar_seconds c"
  by (simp_all add: calendar_ok_def calendar_seconds_def calendar_days_time)

lemma advance_seconds_time:
  assumes phase: "rtc_phase_ok r" and cal: "calendar_ok (rt_calendar r)"
    and off: "rt_reg r X86_RTC_REG_B AND 1 = 0" and run: "rt_reg r X86_RTC_REG_B AND 0x80 = 0"
  shows "calendar_ok (rt_calendar (rtc_advance_seconds n r)) \<and>
    rtc_time (rtc_advance_seconds n r) =
      (rtc_time r + unat n) mod (century_seconds * unat (rt_ticks_per_second r))"
proof -
  let ?b = "unat (rt_ticks_per_second r)" and ?st = "unat (rc_second_ticks (rt_calendar r))"
  let ?k = "elapsed_seconds r n"
  from advance_seconds_alt [OF phase, of n] run obtain t
    where t: "unat t = (?st + unat n) mod ?b"
      and s: "rtc_advance_seconds n r = (rtc_second_step ^^ ?k) (set_cal (rc_second_ticks_update (\<lambda>_. t)) r)"
    by auto
  have pos: "0 < ?b" using phase by (simp add: rtc_phase_ok_def unat_gt_0)
  have steps: "calendar_ok (rt_calendar (rtc_advance_seconds n r))"
    "calendar_seconds (rt_calendar (rtc_advance_seconds n r)) =
      (calendar_seconds (rt_calendar r) + ?k) mod century_seconds"
    unfolding s using second_steps_calendar [of "set_cal (rc_second_ticks_update (\<lambda>_. t)) r" ?k] cal off
    by (simp_all add: calendar_ok_phases)
  have "rtc_time (rtc_advance_seconds n r) =
      (calendar_seconds (rt_calendar r) + ?k) mod century_seconds * ?b + (?st + unat n) mod ?b"
    unfolding rtc_time_def steps(2) by (simp add: s second_steps_fields t)
  also have "\<dots> = ((calendar_seconds (rt_calendar r) + ?k) * ?b + (?st + unat n) mod ?b) mod (century_seconds * ?b)"
    by (rule mixed_radix_mod) (use pos in simp)
  also have "(calendar_seconds (rt_calendar r) + ?k) * ?b + (?st + unat n) mod ?b = rtc_time r + unat n"
    by (simp add: elapsed_seconds_def rtc_time_def add_mult_distrib)
  finally show ?thesis using steps(1) by simp
qed

text \<open>
  C38: The clock keeps time exactly. A clock in any reachable state with a valid date, a running
  divider, no pending register update and daylight saving disabled, advanced by any number of
  ticks, shows the date and time that lies that many ticks later, leap years and the turn of the
  century included, with a valid date and the remainder of the second kept.
\<close>

theorem rtc_time_exact:
  assumes "rtc_reachable r" and "calendar_ok (rt_calendar r)" and "rtc_divider_running r"
    and "rt_reg r X86_RTC_REG_B AND 0x80 = 0" and "rt_reg r X86_RTC_REG_B AND 1 = 0"
  shows "\<exists>r'. x86_rtc_advance (Some r) n = Some r' \<and> calendar_ok (rt_calendar r') \<and>
    rtc_time r' = (rtc_time r + unat n) mod (century_seconds * unat (rt_ticks_per_second r))"
proof (cases "n = 0")
  case True
  have phase: "rtc_phase_ok r" using rtc_reachable_ok [OF assms(1)] by (simp add: rtc_ok_def)
  have "rtc_time r = calendar_seconds (rt_calendar r) mod century_seconds * unat (rt_ticks_per_second r) +
      unat (rc_second_ticks (rt_calendar r))"
    using calendar_seconds_bound [OF assms(2)] by (simp add: rtc_time_def)
  also have "\<dots> = rtc_time r mod (century_seconds * unat (rt_ticks_per_second r))"
    unfolding rtc_time_def by (rule mixed_radix_mod) (use phase in \<open>simp add: rtc_phase_ok_def\<close>)
  finally show ?thesis using True assms by simp
next
  case False
  have phase: "rtc_phase_ok r" using rtc_reachable_ok [OF assms(1)] by (simp add: rtc_ok_def)
  let ?p = "rtc_advance_periodic n r" and ?s = "rtc_advance_seconds n (rtc_advance_periodic n r)"
  have "rtc_time ?p = rtc_time r" by (simp add: rtc_time_def calendar_ok_phases)
  moreover have "calendar_ok (rt_calendar ?s) \<and>
      rtc_time ?s = (rtc_time ?p + unat n) mod (century_seconds * unat (rt_ticks_per_second ?p))"
    by (rule advance_seconds_time [OF advance_periodic_phase [OF phase]])
      (use assms in \<open>simp_all add: calendar_ok_phases\<close>)
  moreover have "rtc_time (rtc_refresh_irq ?s) = rtc_time ?s" by (simp add: rtc_time_def)
  ultimately show ?thesis using False assms(3) by simp
qed

text \<open>A clock of 1000 ticks per second with a connected output, just created.\<close>

abbreviation rtc_fresh :: x86_rtc where
  "rtc_fresh \<equiv> the (the (snd (x86_rtc_create (Some \<lparr>rcfg_ticks_per_second = 1000,
     rcfg_uip_lead_ticks = 1, rcfg_update_ticks = 2, rcfg_extended_registers = 0\<rparr>) True True (Some None))))"

lemmas rtc_eval = zero_rtc_def rtc_phase_ticks_def rtc_divider_running_def Let_def

lemma rtc_fresh_reachable: "rtc_reachable rtc_fresh"
  by (rule rtc_created [of "\<lparr>rcfg_ticks_per_second = 1000,
     rcfg_uip_lead_ticks = 1, rcfg_update_ticks = 2, rcfg_extended_registers = 0\<rparr>" True None])
    (simp add: Let_def)

theorem rtc_time_exact_witness:
  "rtc_time rtc_fresh = 0 \<and>
   (\<exists>r'. x86_rtc_advance (Some rtc_fresh) 86400500 = Some r' \<and> calendar_ok (rt_calendar r') \<and>
      rtc_time r' = 86400500)"
proof -
  have p: "calendar_ok (rt_calendar rtc_fresh)" "rtc_divider_running rtc_fresh"
    "rt_reg rtc_fresh X86_RTC_REG_B AND 0x80 = 0" "rt_reg rtc_fresh X86_RTC_REG_B AND 1 = 0"
    "rtc_time rtc_fresh = 0" "unat (rt_ticks_per_second rtc_fresh) = 1000"
    by (simp_all add: rtc_eval calendar_ok_def date_ok_def month_len_def rtc_time_def
        calendar_seconds_def calendar_days_def day_number_def year_start_def days_before_def)
  have "unat (86400500 :: lib_u64) = 86400500" by simp
  then show ?thesis
    using rtc_time_exact [OF rtc_fresh_reachable p(1-4), of 86400500] p(5,6)
    by (simp del: x86_rtc_create.simps x86_rtc_advance.simps add: century_seconds_def century_days_def)
qed

text \<open>
  In every reachable state the interrupt flag is set exactly when an enabled event is pending,
  and a connected output has seen alternating levels, first an assertion, the last of them the
  level of the interrupt flag: no edge is lost and none is repeated. An unconnected output is never
  called.
\<close>

theorem rtc_irq_line:
  assumes "rtc_reachable r"
  shows "rtc_irq r = rtc_pending r \<and> rt_calls r = map even [0..<length (rt_calls r)] \<and>
    (if rt_output r then rtc_irq r = odd (length (rt_calls r)) else rt_calls r = [])"
  using rtc_reachable_ok [OF assms] unfolding rtc_ok_def rtc_line_ok_def by blast

theorem rtc_irq_line_witness:
  "rtc_irq rtc_fresh = rtc_pending rtc_fresh \<and>
   rt_calls rtc_fresh = map even [0..<length (rt_calls rtc_fresh)] \<and>
   (if rt_output rtc_fresh then rtc_irq rtc_fresh = odd (length (rt_calls rtc_fresh))
    else rt_calls rtc_fresh = [])"
  by (rule rtc_irq_line [OF rtc_fresh_reachable])

section \<open>Register views\<close>

definition bcd_encode :: "lib_u8 \<Rightarrow> lib_u8" where
  "bcd_encode v = push_bit 4 (v div 10) OR (v mod 10)"

definition bcd_decode :: "lib_u8 \<Rightarrow> lib_u8" where
  "bcd_decode v = drop_bit 4 v * 10 + (v AND 0x0f)"

lemma rtc_encode_alt: "rtc_encode r v = (if rt_reg r X86_RTC_REG_B AND 4 \<noteq> 0 then v else bcd_encode v)"
  and rtc_decode_alt: "rtc_decode r v = (if rt_reg r X86_RTC_REG_B AND 4 \<noteq> 0 then v else bcd_decode v)"
  by (simp_all add: rtc_encode_def rtc_decode_def bcd_encode_def bcd_decode_def)

lemma u8_below: "v < of_nat n \<Longrightarrow> n \<le> 256 \<Longrightarrow> v \<in> set (map of_nat [0..<n] :: lib_u8 list)"
proof -
  assume "v < of_nat n" "n \<le> 256"
  then have "unat v < n" by (cases "n = 256") (simp_all add: word_less_nat_alt unat_of_nat)
  then show ?thesis by (auto intro!: image_eqI [of v of_nat "unat v"])
qed

definition hour12_encode :: "(lib_u8 \<Rightarrow> lib_u8) \<Rightarrow> lib_u8 \<Rightarrow> lib_u8" where
  "hour12_encode f h = (let x = (if h \<ge> 12 then h - 12 else h); x = (if x = 0 then 12 else x)
     in f x OR (if h \<ge> 12 then 0x80 else 0))"

definition hour12_decode :: "(lib_u8 \<Rightarrow> lib_u8) \<Rightarrow> lib_u8 \<Rightarrow> lib_u8" where
  "hour12_decode f v = (let x = f (v AND 0x7f); x = (if x = 12 then 0 else x)
     in x + (if v AND 0x80 \<noteq> 0 then 12 else 0))"

lemma bcd_table:
  "list_all (\<lambda>v. bcd_decode (bcd_encode v) = v) (map of_nat [0..<100])"
  "list_all (\<lambda>v. bcd_encode v AND 0x7f = bcd_encode v \<and> v AND 0x7f = v) (map of_nat [0..<60])"
  "list_all (\<lambda>h. hour12_decode bcd_decode (hour12_encode bcd_encode h) = h) (map of_nat [0..<24])"
  "list_all (\<lambda>h. hour12_decode (\<lambda>v. v) (hour12_encode (\<lambda>v. v) h) = h) (map of_nat [0..<24])"
  by code_simp+

lemma u8_table: "list_all P (map of_nat [0..<n]) \<Longrightarrow> n \<le> 256 \<Longrightarrow> v < of_nat n \<Longrightarrow> P (v :: lib_u8)"
  using u8_below [of v n] by (simp only: list_all_iff)

lemma rtc_decode_encode: "v < 100 \<Longrightarrow> rtc_decode r (rtc_encode r v) = v"
  using u8_table [OF bcd_table(1), of v] by (simp add: rtc_encode_alt rtc_decode_alt)

lemma rtc_encode_mask: "v < 60 \<Longrightarrow> rtc_encode r v AND 0x7f = rtc_encode r v"
  using u8_table [OF bcd_table(2), of v] by (simp add: rtc_encode_alt)

lemma rtc_hour_views:
  "rtc_hour_encode r = (if rt_reg r X86_RTC_REG_B AND 2 \<noteq> 0 then rtc_encode r (rc_hour (rt_calendar r))
     else hour12_encode (rtc_encode r) (rc_hour (rt_calendar r)))"
  "rtc_hour_decode r v = (if rt_reg r X86_RTC_REG_B AND 2 \<noteq> 0 then rtc_decode r v
     else hour12_decode (rtc_decode r) v)"
  by (simp_all add: rtc_hour_encode_def rtc_hour_decode_def hour12_encode_def hour12_decode_def Let_def)

text \<open>The seven calendar registers: the field each one shows, and its range.\<close>

definition rtc_field :: "nat \<Rightarrow> x86_rtc_calendar \<Rightarrow> lib_u8" where
  "rtc_field reg c = (if reg = X86_RTC_SECOND then rc_second c else if reg = X86_RTC_MINUTE then rc_minute c
     else if reg = X86_RTC_HOUR then rc_hour c else if reg = X86_RTC_DAY_WEEK then rc_day_week c
     else if reg = X86_RTC_DAY_MONTH then rc_day_month c else if reg = X86_RTC_MONTH then rc_month c
     else rc_year c)"

definition rtc_calendar_regs :: "nat set" where
  "rtc_calendar_regs = {X86_RTC_SECOND, X86_RTC_MINUTE, X86_RTC_HOUR, X86_RTC_DAY_WEEK,
     X86_RTC_DAY_MONTH, X86_RTC_MONTH, X86_RTC_YEAR}"

definition rtc_limit :: "nat \<Rightarrow> lib_u8" where
  "rtc_limit reg = (if reg = X86_RTC_SECOND \<or> reg = X86_RTC_MINUTE then 60
     else if reg = X86_RTC_HOUR then 24 else 100)"

text \<open>What register \<open>reg\<close> shows for the value \<open>v\<close> in the clock's data mode and hour mode.\<close>

definition rtc_code :: "x86_rtc \<Rightarrow> nat \<Rightarrow> lib_u8 \<Rightarrow> lib_u8" where
  "rtc_code r reg v = (if reg = X86_RTC_HOUR \<and> rt_reg r X86_RTC_REG_B AND 2 = 0
     then hour12_encode (rtc_encode r) v else rtc_encode r v)"

lemma rtc_limit_100: "v < rtc_limit reg \<Longrightarrow> v < 100"
  by (auto simp: rtc_limit_def word_less_nat_alt split: if_splits)

lemma encode_daylight [simp]:
  "rtc_encode (r\<lparr>rt_daylight_fallback_done := b\<rparr>) = rtc_encode r"
  "rtc_decode (r\<lparr>rt_daylight_fallback_done := b\<rparr>) = rtc_decode r"
  by (simp_all add: fun_eq_iff rtc_encode_def rtc_decode_def)

lemma encode_refresh [simp]:
  "rtc_encode (rtc_refresh_irq r) = rtc_encode r" "rtc_encode (set_cal f r) = rtc_encode r"
  by (simp_all add: fun_eq_iff rtc_encode_def)

lemma hour12_roundtrip: "v < 24 \<Longrightarrow> hour12_decode (rtc_decode r) (hour12_encode (rtc_encode r) v) = v"
proof (cases "rt_reg r X86_RTC_REG_B AND 4 \<noteq> 0")
  case True
  then have "rtc_encode r = (\<lambda>v. v)" "rtc_decode r = (\<lambda>v. v)"
    by (simp_all add: fun_eq_iff rtc_encode_alt rtc_decode_alt)
  then show "v < 24 \<Longrightarrow> ?thesis" using u8_table [OF bcd_table(4), of v] by simp
next
  case False
  then have "rtc_encode r = bcd_encode" "rtc_decode r = bcd_decode"
    by (simp_all add: fun_eq_iff rtc_encode_alt rtc_decode_alt)
  then show "v < 24 \<Longrightarrow> ?thesis" using u8_table [OF bcd_table(3), of v] by simp
qed

lemma store_calendar:
  assumes reg: "reg \<in> rtc_calendar_regs" and v: "v < rtc_limit reg"
  shows "rtc_field reg (rt_calendar (rtc_store reg (rtc_code r reg v) r)) = v"
    and "k \<in> rtc_calendar_regs \<Longrightarrow> k \<noteq> reg \<Longrightarrow>
      rtc_field k (rt_calendar (rtc_store reg (rtc_code r reg v) r)) = rtc_field k (rt_calendar r)"
    and "rt_registers (rtc_store reg (rtc_code r reg v) r) = rt_registers r"
    and "rt_register_count (rtc_store reg (rtc_code r reg v) r) = rt_register_count r"
proof -
  note decode = rtc_decode_encode [OF rtc_limit_100 [OF v]]
  note defs = rtc_store_def rtc_field_def rtc_code_def Let_def
  consider "reg = 0" | "reg = 2" | "reg = 4" | "reg = 6" | "reg = 7" | "reg = 8" | "reg = 9"
    using reg by (auto simp: rtc_calendar_regs_def)
  then show "rtc_field reg (rt_calendar (rtc_store reg (rtc_code r reg v) r)) = v"
  proof cases
    case 1
    then show ?thesis using v by (simp add: defs decode rtc_encode_mask rtc_limit_def)
  next
    case 3
    then show ?thesis using v by (simp add: defs decode hour12_roundtrip rtc_hour_views rtc_limit_def)
  qed (simp_all add: defs decode)
  show "k \<in> rtc_calendar_regs \<Longrightarrow> k \<noteq> reg \<Longrightarrow>
      rtc_field k (rt_calendar (rtc_store reg (rtc_code r reg v) r)) = rtc_field k (rt_calendar r)"
    using reg unfolding rtc_calendar_regs_def by (elim insertE emptyE; simp add: rtc_store_def rtc_field_def Let_def)
  show "rt_registers (rtc_store reg (rtc_code r reg v) r) = rt_registers r"
    "rt_register_count (rtc_store reg (rtc_code r reg v) r) = rt_register_count r"
    using reg unfolding rtc_calendar_regs_def by (elim insertE emptyE; simp add: rtc_store_def Let_def)+
qed

lemma read_calendar:
  assumes "reg \<in> rtc_calendar_regs" and "14 \<le> rt_register_count r"
  shows "fst (x86_rtc_read_register (Some r) reg) = rtc_code r reg (rtc_field reg (rt_calendar r))"
  using assms unfolding rtc_calendar_regs_def
  by (elim insertE emptyE; simp add: rtc_field_def rtc_code_def rtc_hour_views)

lemma rtc_code_cong: "rt_reg r X86_RTC_REG_B = rt_reg s X86_RTC_REG_B \<Longrightarrow> rtc_code r reg v = rtc_code s reg v"
  by (simp add: rtc_code_def hour12_encode_def rtc_encode_def Let_def)

text \<open>
  The calendar registers round-trip in every mode. Writing the code of a value in range (binary
  or BCD, 12 or 24 hour) to a calendar register sets that calendar field to the value and no other,
  and reading the register gives the code back.
\<close>

theorem rtc_register_roundtrip:
  assumes "rtc_reachable r" and "reg \<in> rtc_calendar_regs" and "v < rtc_limit reg"
    and "x86_rtc_write_register (Some r) reg (rtc_code r reg v) = Some r'"
  shows "rtc_field reg (rt_calendar r') = v \<and> fst (x86_rtc_read_register (Some r') reg) = rtc_code r reg v \<and>
    (\<forall>k \<in> rtc_calendar_regs - {reg}. rtc_field k (rt_calendar r') = rtc_field k (rt_calendar r))"
proof -
  have n: "14 \<le> rt_register_count r"
    using rtc_reachable_ok [OF assms(1)] by (simp add: rtc_ok_def rtc_phase_ok_def)
  note store = store_calendar [OF assms(2,3)]
  have "reg < 10" using assms(2) by (auto simp: rtc_calendar_regs_def)
  then have r': "r' = rtc_refresh_irq (rtc_store reg (rtc_code r reg v) r)"
    using n assms(4) unfolding write_register_store by simp
  have "rtc_code r' reg v = rtc_code r reg v" by (rule rtc_code_cong) (simp add: r' store)
  then show ?thesis
    using read_calendar [OF assms(2), of r'] n by (simp add: r' store)
qed

text \<open>At creation the clock counts hours in the 24 hour mode and in BCD.\<close>

theorem rtc_register_roundtrip_witness:
  "\<exists>r'. x86_rtc_write_register (Some rtc_fresh) X86_RTC_HOUR 0x23 = Some r' \<and>
     rc_hour (rt_calendar r') = 23 \<and> fst (x86_rtc_read_register (Some r') X86_RTC_HOUR) = 0x23"
proof -
  have code: "rtc_code rtc_fresh X86_RTC_HOUR 23 = 0x23"
    by (simp add: rtc_eval rtc_code_def rtc_encode_def)
  obtain r' where r': "x86_rtc_write_register (Some rtc_fresh) X86_RTC_HOUR 0x23 = Some r'"
    using write_register_store by blast
  then show ?thesis
    using rtc_register_roundtrip [OF rtc_fresh_reachable, of X86_RTC_HOUR 23 r'] code
    by (simp add: rtc_calendar_regs_def rtc_limit_def rtc_field_def
        del: x86_rtc_create.simps x86_rtc_write_register.simps x86_rtc_read_register.simps)
qed

section \<open>The next interrupt\<close>

subsection \<open>The second loop and the alarm\<close>

text \<open>Calendar carries do not read the tick phases.\<close>

lemma ticks_commute:
  "set_cal (rc_second_update f) (set_cal (rc_second_ticks_update g) r) =
     set_cal (rc_second_ticks_update g) (set_cal (rc_second_update f) r)"
  "set_cal (rc_minute_update f) (set_cal (rc_second_ticks_update g) r) =
     set_cal (rc_second_ticks_update g) (set_cal (rc_minute_update f) r)"
  "set_cal (rc_hour_update f) (set_cal (rc_second_ticks_update g) r) =
     set_cal (rc_second_ticks_update g) (set_cal (rc_hour_update f) r)"
  "set_cal (rc_day_week_update f) (set_cal (rc_second_ticks_update g) r) =
     set_cal (rc_second_ticks_update g) (set_cal (rc_day_week_update f) r)"
  "set_cal (rc_day_month_update f) (set_cal (rc_second_ticks_update g) r) =
     set_cal (rc_second_ticks_update g) (set_cal (rc_day_month_update f) r)"
  "set_cal (rc_month_update f) (set_cal (rc_second_ticks_update g) r) =
     set_cal (rc_second_ticks_update g) (set_cal (rc_month_update f) r)"
  "set_cal (rc_month_update f \<circ> rc_year_update h) (set_cal (rc_second_ticks_update g) r) =
     set_cal (rc_second_ticks_update g) (set_cal (rc_month_update f \<circ> rc_year_update h) r)"
  "set_cal (rc_second_update f) (set_cal (rc_periodic_ticks_update g) r) =
     set_cal (rc_periodic_ticks_update g) (set_cal (rc_second_update f) r)"
  "set_cal (rc_minute_update f) (set_cal (rc_periodic_ticks_update g) r) =
     set_cal (rc_periodic_ticks_update g) (set_cal (rc_minute_update f) r)"
  "set_cal (rc_hour_update f) (set_cal (rc_periodic_ticks_update g) r) =
     set_cal (rc_periodic_ticks_update g) (set_cal (rc_hour_update f) r)"
  "set_cal (rc_day_week_update f) (set_cal (rc_periodic_ticks_update g) r) =
     set_cal (rc_periodic_ticks_update g) (set_cal (rc_day_week_update f) r)"
  "set_cal (rc_day_month_update f) (set_cal (rc_periodic_ticks_update g) r) =
     set_cal (rc_periodic_ticks_update g) (set_cal (rc_day_month_update f) r)"
  "set_cal (rc_month_update f) (set_cal (rc_periodic_ticks_update g) r) =
     set_cal (rc_periodic_ticks_update g) (set_cal (rc_month_update f) r)"
  "set_cal (rc_month_update f \<circ> rc_year_update h) (set_cal (rc_periodic_ticks_update g) r) =
     set_cal (rc_periodic_ticks_update g) (set_cal (rc_month_update f \<circ> rc_year_update h) r)"
  "(set_cal (rc_second_ticks_update g) r)\<lparr>rt_daylight_fallback_done := b\<rparr> =
     set_cal (rc_second_ticks_update g) (r\<lparr>rt_daylight_fallback_done := b\<rparr>)"
  "(set_cal (rc_periodic_ticks_update g) r)\<lparr>rt_daylight_fallback_done := b\<rparr> =
     set_cal (rc_periodic_ticks_update g) (r\<lparr>rt_daylight_fallback_done := b\<rparr>)"
  by (simp_all add: set_cal_def)

lemma days_in_month_ticks [simp]:
  "rtc_days_in_month (set_cal (rc_second_ticks_update g) r) = rtc_days_in_month r"
  "rtc_days_in_month (set_cal (rc_periodic_ticks_update g) r) = rtc_days_in_month r"
  by (simp_all add: rtc_days_in_month_def)

lemma daylight_ticks:
  "rtc_daylight_hour (set_cal (rc_second_ticks_update g) r) = set_cal (rc_second_ticks_update g) (rtc_daylight_hour r)"
  "rtc_daylight_hour (set_cal (rc_periodic_ticks_update g) r) = set_cal (rc_periodic_ticks_update g) (rtc_daylight_hour r)"
  by (simp_all add: rtc_daylight_hour_def ticks_commute Let_def)

lemma increment_day_ticks:
  "rtc_increment_day (set_cal (rc_second_ticks_update g) r) = set_cal (rc_second_ticks_update g) (rtc_increment_day r)"
  "rtc_increment_day (set_cal (rc_periodic_ticks_update g) r) = set_cal (rc_periodic_ticks_update g) (rtc_increment_day r)"
  by (simp_all add: rtc_increment_day_def ticks_commute Let_def)

lemma increment_ticks:
  "rtc_increment_second (set_cal (rc_second_ticks_update g) r) =
     set_cal (rc_second_ticks_update g) (rtc_increment_second r)"
  "rtc_increment_second (set_cal (rc_periodic_ticks_update g) r) =
     set_cal (rc_periodic_ticks_update g) (rtc_increment_second r)"
  by (simp_all add: rtc_increment_second_def ticks_commute daylight_ticks increment_day_ticks Let_def)

lemma alarm_matches_frame [simp]:
  "rtc_alarm_matches (set_reg X86_RTC_REG_C v r) = rtc_alarm_matches r"
  "rtc_alarm_matches (set_cal (rc_second_ticks_update g) r) = rtc_alarm_matches r"
  "rtc_alarm_matches (set_cal (rc_periodic_ticks_update g) r) = rtc_alarm_matches r"
  by (simp_all add: rtc_alarm_matches_def rtc_encode_def rtc_hour_encode_def Let_def)

text \<open>Whether the alarm matches \<open>k\<close> seconds from now.\<close>

definition alarm_at :: "x86_rtc \<Rightarrow> nat \<Rightarrow> bool" where
  "alarm_at r k \<longleftrightarrow> rtc_alarm_matches ((rtc_increment_second ^^ k) r)"

lemma alarm_at_frame [simp]:
  "alarm_at (set_reg X86_RTC_REG_C v r) k = alarm_at r k"
  "alarm_at (set_cal (rc_second_ticks_update g) r) k = alarm_at r k"
  "alarm_at (set_cal (rc_periodic_ticks_update g) r) k = alarm_at r k"
proof -
  have "(rtc_increment_second ^^ k) (set_reg X86_RTC_REG_C v r) = set_reg X86_RTC_REG_C v ((rtc_increment_second ^^ k) r)"
    "(rtc_increment_second ^^ k) (set_cal (rc_second_ticks_update g) r) =
      set_cal (rc_second_ticks_update g) ((rtc_increment_second ^^ k) r)"
    "(rtc_increment_second ^^ k) (set_cal (rc_periodic_ticks_update g) r) =
      set_cal (rc_periodic_ticks_update g) ((rtc_increment_second ^^ k) r)"
    by (induction k) (simp_all add: increment_set_flags increment_ticks)
  then show "alarm_at (set_reg X86_RTC_REG_C v r) k = alarm_at r k"
    "alarm_at (set_cal (rc_second_ticks_update g) r) k = alarm_at r k"
    "alarm_at (set_cal (rc_periodic_ticks_update g) r) k = alarm_at r k"
    by (simp_all add: alarm_at_def)
qed

text \<open>The flags \<open>k\<close> turns of the second loop raise.\<close>

lemma update_flag_bits:
  "bit ((w :: lib_u8) OR 0x10) j \<longleftrightarrow> bit w j \<or> j = 4" "bit (w OR 0x20) j \<longleftrightarrow> bit w j \<or> j = 5"
  "bit (w OR 0x40) j \<longleftrightarrow> bit w j \<or> j = 6"
proof -
  have m: "(0x10 :: lib_u8) = BIT_MASK 4" "(0x20 :: lib_u8) = BIT_MASK 5" "(0x40 :: lib_u8) = BIT_MASK 6"
    by (simp_all add: BIT_MASK_def)
  show "bit (w OR 0x10) j \<longleftrightarrow> bit w j \<or> j = 4" "bit (w OR 0x20) j \<longleftrightarrow> bit w j \<or> j = 5"
    "bit (w OR 0x40) j \<longleftrightarrow> bit w j \<or> j = 6"
    unfolding m BIT_SET_def [symmetric] by simp_all
qed

lemma second_steps_flags:
  "\<exists>v. (rtc_second_step ^^ k) r = set_reg X86_RTC_REG_C v ((rtc_increment_second ^^ k) r) \<and>
    (\<forall>j. bit v j \<longleftrightarrow> bit (rt_reg r X86_RTC_REG_C) j \<or> j = 4 \<and> 0 < k \<or> j = 5 \<and> (\<exists>i\<in>{1..k}. alarm_at r i))"
proof (induction k)
  case 0
  have "r = set_reg X86_RTC_REG_C (rt_reg r X86_RTC_REG_C) r" by (simp add: set_reg_def)
  then show ?case by (intro exI [of _ "rt_reg r X86_RTC_REG_C"]) simp
next
  case (Suc k)
  then obtain v where v: "(rtc_second_step ^^ k) r = set_reg X86_RTC_REG_C v ((rtc_increment_second ^^ k) r)"
    "\<And>j. bit v j \<longleftrightarrow> bit (rt_reg r X86_RTC_REG_C) j \<or> j = 4 \<and> 0 < k \<or> j = 5 \<and> (\<exists>i\<in>{1..k}. alarm_at r i)"
    by blast
  let ?i = "(rtc_increment_second ^^ Suc k) r"
  let ?v = "if alarm_at r (Suc k) then (v OR 0x10) OR 0x20 else v OR 0x10"
  have twice: "set_reg X86_RTC_REG_C a (set_reg X86_RTC_REG_C b s) = set_reg X86_RTC_REG_C a s" for a b s
    by (simp add: set_reg_def)
  have "(rtc_second_step ^^ Suc k) r = set_reg X86_RTC_REG_C ?v ?i"
    by (simp add: v(1) rtc_second_step_def increment_set_flags alarm_at_def Let_def twice)
  moreover have "bit ?v j \<longleftrightarrow> bit (rt_reg r X86_RTC_REG_C) j \<or> j = 4 \<and> 0 < Suc k \<or>
      j = 5 \<and> (\<exists>i\<in>{1..Suc k}. alarm_at r i)" for j
    by (auto simp: update_flag_bits v(2) atLeastAtMostSuc_conv)
  ultimately show ?case by blast
qed

subsection \<open>The periodic divider\<close>

lemma periodic_hz_bound: "unat (rtc_periodic_hz r) \<le> 32768"
proof -
  have "unat (drop_bit k w) = drop_bit k (unat w)" for k and w :: lib_u32
    unfolding unsigned_drop_bit_eq using unsigned_less [of w, where 'a = nat]
    by (simp only: take_bit_nat_eq_self)
  then have "unat (drop_bit k w) \<le> unat w" for k and w :: lib_u32
    by (simp only: drop_bit_eq_div div_le_dividend)
  then have "unat (drop_bit k 32768 :: lib_u32) \<le> unat (32768 :: lib_u32)" for k .
  then show ?thesis by (simp add: rtc_periodic_hz_def Let_def)
qed

definition periodic_edge :: "x86_rtc \<Rightarrow> nat \<Rightarrow> bool" where
  "periodic_edge r n \<longleftrightarrow>
     (let tps = unat (rt_ticks_per_second r); hz = unat (rtc_periodic_hz r);
          pt = unat (rc_periodic_ticks (rt_calendar r))
      in hz \<noteq> 0 \<and> (n div tps \<noteq> 0 \<or> (pt + n mod tps) * hz div tps \<noteq> pt * hz div tps))"

lemma product_word:
  assumes "unat x < 2 ^ 33"
  shows "unat (x * ucast (rtc_periodic_hz r) :: lib_u64) = unat x * unat (rtc_periodic_hz r)"
proof -
  have "unat x * unat (rtc_periodic_hz r) \<le> 2 ^ 33 * 32768"
    using assms periodic_hz_bound [of r] by (intro mult_le_mono) simp_all
  then have "unat x * unat (rtc_periodic_hz r) < 2 ^ 64" by simp
  then show ?thesis by (simp add: unat_mult_lem [THEN iffD1])
qed

lemma phase_bounds:
  assumes "rtc_phase_ok r"
  shows "unat (rt_ticks_per_second r) < 2 ^ 32" "0 < unat (rt_ticks_per_second r)"
    "unat (rc_periodic_ticks (rt_calendar r)) < 2 ^ 33"
    "unat (rc_periodic_ticks (rt_calendar r)) + unat n mod unat (rt_ticks_per_second r) < 2 ^ 33"
proof -
  show b: "unat (rt_ticks_per_second r) < 2 ^ 32"
    using unsigned_less [of "rt_ticks_per_second r", where 'a = nat] by simp
  have p: "unat (rc_periodic_ticks (rt_calendar r)) < unat (rt_ticks_per_second r)"
    using assms by (simp add: rtc_phase_ok_def)
  show pos: "0 < unat (rt_ticks_per_second r)" using p by simp
  show "unat (rc_periodic_ticks (rt_calendar r)) < 2 ^ 33" using b p by simp
  have "unat n mod unat (rt_ticks_per_second r) < unat (rt_ticks_per_second r)" using pos by simp
  moreover have "(2::nat) ^ 32 + 2 ^ 32 = 2 ^ 33" by simp
  ultimately show "unat (rc_periodic_ticks (rt_calendar r)) + unat n mod unat (rt_ticks_per_second r) < 2 ^ 33"
    using b p by linarith
qed

lemma advance_periodic_flags:
  assumes phase: "rtc_phase_ok r"
  shows "bit (rt_reg (rtc_advance_periodic n r) X86_RTC_REG_C) j \<longleftrightarrow>
    bit (rt_reg r X86_RTC_REG_C) j \<or> j = 6 \<and> periodic_edge r (unat n)"
proof -
  let ?tps = "ucast (rt_ticks_per_second r) :: lib_u64" and ?hz = "ucast (rtc_periodic_hz r) :: lib_u64"
  let ?pt = "rc_periodic_ticks (rt_calendar r)"
  let ?ph = "?pt + n mod ?tps"
  note b = phase_bounds [OF phase]
  have ph: "unat ?ph = unat ?pt + unat n mod unat (rt_ticks_per_second r)"
    by (rule phase_word) (use phase in \<open>simp add: rtc_phase_ok_def\<close>)
  have "unat (?ph * ?hz div ?tps) = (unat ?pt + unat n mod unat (rt_ticks_per_second r)) *
      unat (rtc_periodic_hz r) div unat (rt_ticks_per_second r)"
    using b(4) [of n] by (simp add: unat_div product_word ph)
  moreover have "unat (?pt * ?hz div ?tps) = unat ?pt * unat (rtc_periodic_hz r) div unat (rt_ticks_per_second r)"
    using b(3) by (simp add: unat_div product_word)
  ultimately have "?ph * ?hz div ?tps - ?pt * ?hz div ?tps \<noteq> 0 \<longleftrightarrow>
      (unat ?pt + unat n mod unat (rt_ticks_per_second r)) * unat (rtc_periodic_hz r) div unat (rt_ticks_per_second r) \<noteq>
      unat ?pt * unat (rtc_periodic_hz r) div unat (rt_ticks_per_second r)"
    by (metis right_minus_eq word_unat_eq_iff)
  moreover have "n div ?tps \<noteq> 0 \<longleftrightarrow> unat n div unat (rt_ticks_per_second r) \<noteq> 0"
    by (simp only: unat_eq_0 [symmetric] unat_div unat_u32_u64)
  moreover have "?hz \<noteq> 0 \<longleftrightarrow> unat (rtc_periodic_hz r) \<noteq> 0"
    by (simp only: unat_eq_0 [symmetric] unat_u32_u64)
  ultimately have "periodic_edge r (unat n) \<longleftrightarrow>
      ?hz \<noteq> 0 \<and> (n div ?tps \<noteq> 0 \<or> ?ph * ?hz div ?tps - ?pt * ?hz div ?tps \<noteq> 0)"
    unfolding periodic_edge_def Let_def by (simp only:)
  then show ?thesis
    by (simp only: rtc_advance_periodic_def Let_def) (simp add: update_flag_bits)
qed

lemma ceil_div_le: "0 < (h::nat) \<Longrightarrow> (if m mod h \<noteq> 0 then m div h + 1 else m div h) \<le> n \<longleftrightarrow> m \<le> n * h"
proof -
  assume h: "0 < h"
  have m: "m = m div h * h + m mod h" by simp
  have l: "m mod h < h" using h by simp
  show ?thesis
  proof
    assume "(if m mod h \<noteq> 0 then m div h + 1 else m div h) \<le> n"
    then have le: "(if m mod h \<noteq> 0 then m div h + 1 else m div h) * h \<le> n * h" by (rule mult_le_mono1)
    have "m \<le> (if m mod h \<noteq> 0 then m div h + 1 else m div h) * h"
    proof (cases "m mod h = 0")
      case False
      have "(m div h + 1) * h = m div h * h + h" by simp
      then have "m \<le> (m div h + 1) * h" using m l by linarith
      then show ?thesis using False by simp
    qed (use m in simp)
    then show "m \<le> n * h" using le by (rule order_trans)
  next
    assume le: "m \<le> n * h"
    then have "m div h \<le> n" using h by (metis div_le_mono div_mult_self_is_m)
    moreover have "m div h \<noteq> n" if "m mod h \<noteq> 0"
    proof
      assume "m div h = n"
      then have "n * h + m mod h = m" using m by simp
      then show False using le that by linarith
    qed
    ultimately show "(if m mod h \<noteq> 0 then m div h + 1 else m div h) \<le> n" by auto
  qed
qed

lemma edge_iff:
  assumes "(0::nat) < tps" and "0 < hz"
  shows "n div tps \<noteq> 0 \<or> (pt + n mod tps) * hz div tps \<noteq> pt * hz div tps \<longleftrightarrow> tps - pt * hz mod tps \<le> n * hz"
proof (cases "n < tps")
  case True
  define a where "a = pt * hz mod tps"
  have "(pt + n) * hz = (a + n * hz) + pt * hz div tps * tps" by (simp add: a_def add_mult_distrib)
  then have "(pt + n) * hz div tps = pt * hz div tps + (a + n * hz) div tps"
    using assms(1) by (simp only: div_mult_self1 neq0_conv)
  moreover have "(a + n * hz) div tps = 0 \<longleftrightarrow> a + n * hz < tps" using assms(1) by (simp add: div_eq_0_iff)
  moreover have "a < tps" using assms(1) by (simp add: a_def)
  ultimately show ?thesis using True by (auto simp: a_def)
next
  case False
  then have "tps * 1 \<le> n * hz" using assms(2) by (intro mult_le_mono) simp_all
  moreover have "n div tps \<noteq> 0" using False assms(1) by (simp add: div_eq_0_iff)
  ultimately show ?thesis by simp
qed

lemma periodic_deadline:
  assumes phase: "rtc_phase_ok r" and hz: "rtc_periodic_hz r \<noteq> 0"
  shows "periodic_edge r n \<longleftrightarrow> unat (rtc_ticks_until_periodic r) \<le> n"
    and "unat (rtc_ticks_until_periodic r) \<le> unat (rt_ticks_per_second r)"
    and "rtc_ticks_until_periodic r \<noteq> 0"
proof -
  let ?tps = "unat (rt_ticks_per_second r)" and ?hz = "unat (rtc_periodic_hz r)"
  let ?pt = "unat (rc_periodic_ticks (rt_calendar r))"
  define m where "m = ?tps - ?pt * ?hz mod ?tps"
  note b = phase_bounds [OF phase]
  have h: "0 < ?hz" using hz by (simp add: unat_gt_0)
  have m: "0 < m" "m \<le> ?tps" "m < 2 ^ 32" using b(1,2) by (simp_all add: m_def)
  have le: "rc_periodic_ticks (rt_calendar r) * ucast (rtc_periodic_hz r) mod ucast (rt_ticks_per_second r)
      \<le> (ucast (rt_ticks_per_second r) :: lib_u64)"
    using b(2) by (simp add: word_le_nat_alt unat_mod less_imp_le)
  define rem :: lib_u64 where "rem = ucast (rt_ticks_per_second r) -
      rc_periodic_ticks (rt_calendar r) * ucast (rtc_periodic_hz r) mod ucast (rt_ticks_per_second r)"
  have rem: "unat rem = m"
    unfolding rem_def unat_sub [OF le] using b(3) by (simp add: m_def unat_mod product_word)
  have "unat (rem div ucast (rtc_periodic_hz r)) = m div ?hz" "unat (rem mod ucast (rtc_periodic_hz r)) = m mod ?hz"
    by (simp_all add: unat_div unat_mod rem)
  moreover have "m div ?hz < 2 ^ 32" using m(3) div_le_dividend [of m ?hz] by linarith
  moreover have "(x :: lib_u64) \<noteq> 0 \<longleftrightarrow> unat x \<noteq> 0" for x by (simp add: unat_eq_0)
  moreover have "rtc_ticks_until_periodic r = (if rem mod ucast (rtc_periodic_hz r) \<noteq> 0
      then rem div ucast (rtc_periodic_hz r) + 1 else rem div ucast (rtc_periodic_hz r))"
    by (simp add: rtc_ticks_until_periodic_def rem_def Let_def)
  ultimately have t: "unat (rtc_ticks_until_periodic r) = (if m mod ?hz \<noteq> 0 then m div ?hz + 1 else m div ?hz)"
    by (simp add: unat_word_ariths)
  show "periodic_edge r n \<longleftrightarrow> unat (rtc_ticks_until_periodic r) \<le> n"
    unfolding t ceil_div_le [OF h] unfolding m_def using edge_iff [OF b(2) h] h
    by (simp add: periodic_edge_def Let_def)
  have "?tps * 1 \<le> ?tps * ?hz" using h by (intro mult_le_mono) simp_all
  then show "unat (rtc_ticks_until_periodic r) \<le> ?tps" unfolding t ceil_div_le [OF h]
    using m(2) by (simp only: mult_1_right order_trans)
  show "rtc_ticks_until_periodic r \<noteq> 0"
  proof
    assume "rtc_ticks_until_periodic r = 0"
    then have "m \<le> 0 * ?hz" using t ceil_div_le [OF h, of m 0] by simp
    then show False using m(1) by simp
  qed
qed

subsection \<open>When an interrupt fires\<close>

definition rtc_enabled :: "x86_rtc \<Rightarrow> nat \<Rightarrow> bool" where
  "rtc_enabled r k \<longleftrightarrow> bit (rt_reg r X86_RTC_REG_B) k"

definition rtc_fires :: "x86_rtc \<Rightarrow> lib_u64 \<Rightarrow> bool" where
  "rtc_fires r n \<longleftrightarrow> rtc_enabled r 6 \<and> periodic_edge r (unat n) \<or>
     \<not> rtc_enabled r 7 \<and> (rtc_enabled r 4 \<and> 0 < elapsed_seconds r n \<or>
       rtc_enabled r 5 \<and> (\<exists>i\<in>{1..elapsed_seconds r n}. alarm_at r i))"

lemma alarm_at_periodic [simp]: "alarm_at (rtc_advance_periodic n r) k = alarm_at r k"
  by (simp add: rtc_advance_periodic_def Let_def)

lemma advance_flags:
  assumes phase: "rtc_phase_ok r"
  shows "bit (rt_reg (rtc_advance_seconds n (rtc_advance_periodic n r)) X86_RTC_REG_C) j \<longleftrightarrow>
    bit (rt_reg r X86_RTC_REG_C) j \<or> j = 6 \<and> periodic_edge r (unat n) \<or>
    \<not> rtc_enabled r 7 \<and> (j = 4 \<and> 0 < elapsed_seconds r n \<or> j = 5 \<and> (\<exists>i\<in>{1..elapsed_seconds r n}. alarm_at r i))"
proof -
  let ?p = "rtc_advance_periodic n r"
  let ?k = "if rt_reg ?p X86_RTC_REG_B AND 0x80 \<noteq> 0 then 0 else elapsed_seconds ?p n"
  obtain t where s: "rtc_advance_seconds n ?p = (rtc_second_step ^^ ?k) (set_cal (rc_second_ticks_update (\<lambda>_. t)) ?p)"
    using advance_seconds_alt [OF advance_periodic_phase [OF phase], of n n] by blast
  have k: "?k = (if rtc_enabled r 7 then 0 else elapsed_seconds r n)"
    by (simp add: rtc_enabled_def flag_bits8 elapsed_seconds_def)
  let ?q = "set_cal (rc_second_ticks_update (\<lambda>_. t)) ?p"
  obtain v where v: "(rtc_second_step ^^ ?k) ?q = set_reg X86_RTC_REG_C v ((rtc_increment_second ^^ ?k) ?q)"
    "bit v j \<longleftrightarrow> bit (rt_reg ?q X86_RTC_REG_C) j \<or> j = 4 \<and> 0 < ?k \<or> j = 5 \<and> (\<exists>i\<in>{1..?k}. alarm_at ?q i)"
    using second_steps_flags [of ?k ?q] by blast
  have "bit (rt_reg (rtc_advance_seconds n ?p) X86_RTC_REG_C) j \<longleftrightarrow> bit v j" by (simp only: s v(1)) simp
  also have "\<dots> \<longleftrightarrow> bit (rt_reg ?p X86_RTC_REG_C) j \<or> j = 4 \<and> 0 < ?k \<or> j = 5 \<and> (\<exists>i\<in>{1..?k}. alarm_at r i)"
    unfolding v(2) by simp
  finally show ?thesis unfolding k advance_periodic_flags [OF phase] by auto
qed

lemma advance_seconds_enables:
  assumes "rtc_phase_ok r" and "j \<noteq> X86_RTC_REG_C"
  shows "rt_reg (rtc_advance_seconds n r) j = rt_reg r j"
proof -
  obtain t k where "rtc_advance_seconds n r = (rtc_second_step ^^ k) (set_cal (rc_second_ticks_update (\<lambda>_. t)) r)"
    using advance_seconds_alt [OF assms(1), of n] by blast
  then show ?thesis
    using second_steps_fields(1) [of k "set_cal (rc_second_ticks_update (\<lambda>_. t)) r" j] assms(2) by simp
qed

lemma irq_after_advance:
  assumes ok: "rtc_ok r" and quiet: "\<not> rtc_irq r" and run: "rtc_divider_running r"
  shows "rtc_irq (the (x86_rtc_advance (Some r) n)) \<longleftrightarrow> rtc_fires r n"
proof -
  have phase: "rtc_phase_ok r" and pend: "\<not> rtc_pending r" using ok quiet by (simp_all add: rtc_ok_def)
  let ?s = "rtc_advance_seconds n (rtc_advance_periodic n r)"
  have en: "rt_reg ?s X86_RTC_REG_B = rt_reg r X86_RTC_REG_B"
    using advance_seconds_enables [OF advance_periodic_phase [OF phase]] by simp
  have "rtc_pending ?s \<longleftrightarrow> rtc_fires r n"
    using pend unfolding rtc_pending_bits en rtc_fires_def
    by (auto simp: advance_flags [OF phase] rtc_enabled_def)
  moreover have "\<not> rtc_fires r 0"
    using phase phase_bounds(2) [OF phase]
    by (simp add: rtc_fires_def periodic_edge_def elapsed_seconds_def rtc_phase_ok_def Let_def)
  ultimately show ?thesis using run quiet by simp
qed

subsection \<open>The three distances\<close>

lemma elapsed_ge:
  assumes "rtc_phase_ok r" and "0 < k"
  shows "k \<le> elapsed_seconds r n \<longleftrightarrow>
    unat (rt_ticks_per_second r) - unat (rc_second_ticks (rt_calendar r)) + (k - 1) * unat (rt_ticks_per_second r) \<le> unat n"
proof -
  let ?b = "unat (rt_ticks_per_second r)" and ?st = "unat (rc_second_ticks (rt_calendar r))"
  have st: "?st < ?b" using assms(1) by (simp add: rtc_phase_ok_def)
  have "k \<le> elapsed_seconds r n \<longleftrightarrow> k * ?b \<le> ?st + unat n"
    using st by (simp add: elapsed_seconds_def less_eq_div_iff_mult_less_eq)
  also have "k * ?b = ?b + (k - 1) * ?b" using assms(2) by (cases k) simp_all
  finally show ?thesis using st by linarith
qed

lemma unat_UINT64_MAX: "unat LIB_UINT64_MAX = 2 ^ 64 - 1"
  by (simp add: LIB_UINT64_MAX_def unsigned_minus_1_eq_mask mask_eq_exp_minus_1)

text \<open>The search for the alarm finds the first match of the next 25 hours.\<close>

lemma alarm_search_spec:
  assumes phase: "rtc_phase_ok r" and "j + left \<le> 90000"
  shows "(\<forall>i. j < i \<and> i \<le> j + left \<longrightarrow> \<not> alarm_at r i) \<and>
      rtc_alarm_search r left (of_nat (j + 1)) ((rtc_increment_second ^^ j) r) out = (LIB_STATUS_INVALID_STATE, out) \<or>
    (\<exists>k t. j < k \<and> k \<le> j + left \<and> alarm_at r k \<and> (\<forall>i. j < i \<and> i < k \<longrightarrow> \<not> alarm_at r i) \<and>
      rtc_alarm_search r left (of_nat (j + 1)) ((rtc_increment_second ^^ j) r) out = (LIB_STATUS_OK, Some t) \<and>
      unat t = unat (rt_ticks_per_second r) - unat (rc_second_ticks (rt_calendar r)) +
        (k - 1) * unat (rt_ticks_per_second r))"
  using assms(2)
proof (induction left arbitrary: j)
  case 0
  then show ?case by auto
next
  case (Suc left)
  let ?c = "rtc_increment_second ((rtc_increment_second ^^ j) r)"
  have m: "rtc_alarm_matches ?c = alarm_at r (j + 1)" by (simp add: alarm_at_def)
  show ?case
  proof (cases "alarm_at r (j + 1)")
    case False
    have "of_nat (j + 1) + 1 = (of_nat ((j + 1) + 1) :: lib_u64)" by simp
    moreover have "(rtc_increment_second ^^ (j + 1)) r = ?c" by simp
    ultimately have step: "rtc_alarm_search r (Suc left) (of_nat (j + 1)) ((rtc_increment_second ^^ j) r) out =
        rtc_alarm_search r left (of_nat ((j + 1) + 1)) ((rtc_increment_second ^^ (j + 1)) r) out"
      using False m by (simp add: Let_def del: of_nat_Suc of_nat_add)
    have split: "j < i \<longleftrightarrow> i = j + 1 \<or> j + 1 < i" for i by linarith
    have "j + 1 + left \<le> 90000" using Suc.prems by simp
    from Suc.IH [OF this] consider
        (none) "\<forall>i. j + 1 < i \<and> i \<le> j + 1 + left \<longrightarrow> \<not> alarm_at r i"
          "rtc_alarm_search r (Suc left) (of_nat (j + 1)) ((rtc_increment_second ^^ j) r) out = (LIB_STATUS_INVALID_STATE, out)"
      | (some) k t where "j + 1 < k" "k \<le> j + 1 + left" "alarm_at r k" "\<forall>i. j + 1 < i \<and> i < k \<longrightarrow> \<not> alarm_at r i"
          "rtc_alarm_search r (Suc left) (of_nat (j + 1)) ((rtc_increment_second ^^ j) r) out = (LIB_STATUS_OK, Some t)"
          "unat t = unat (rt_ticks_per_second r) - unat (rc_second_ticks (rt_calendar r)) + (k - 1) * unat (rt_ticks_per_second r)"
      unfolding step by blast
    then show ?thesis
    proof cases
      case none
      then show ?thesis using False split by auto
    next
      case some
      then have "j < k" "k \<le> j + Suc left" "\<forall>i. j < i \<and> i < k \<longrightarrow> \<not> alarm_at r i" using False split by auto
      then show ?thesis using some(3,5,6) by blast
    qed
  next
    case True
    let ?b = "unat (rt_ticks_per_second r)" and ?st = "unat (rc_second_ticks (rt_calendar r))"
    let ?w = "ucast (rt_ticks_per_second r) :: lib_u64"
    let ?t = "?w - rc_second_ticks (rt_calendar r)"
    have st: "?st < ?b" "?b < 2 ^ 32" using phase phase_bounds(1) [OF phase] by (simp_all add: rtc_phase_ok_def)
    have t: "unat ?t = ?b - ?st" using st by (simp add: unat_sub word_le_nat_alt)
    have j: "unat (of_nat (j + 1) - 1 :: lib_u64) = j"
      using Suc.prems by (simp add: unat_of_nat)
    have "?t \<le> LIB_UINT64_MAX" by (simp add: LIB_UINT64_MAX_def)
    then have lim: "unat (LIB_UINT64_MAX - ?t) = 2 ^ 64 - 1 - (?b - ?st)"
      using t by (simp add: unat_sub unat_UINT64_MAX)
    have "j * ?b \<le> 90000 * 2 ^ 32" using Suc.prems st by (intro mult_le_mono) simp_all
    then have jb: "j * ?b \<le> 2 ^ 64 - 1 - (?b - ?st)" "?b - ?st + j * ?b < 2 ^ 64" using st by simp_all
    then have "j \<le> (2 ^ 64 - 1 - (?b - ?st)) div ?b"
      using st by (simp add: less_eq_div_iff_mult_less_eq)
    then have fits: "\<not> of_nat (j + 1) - 1 > (LIB_UINT64_MAX - ?t) div ?w"
      by (simp only: word_less_nat_alt unat_div lim j unat_u32_u64 not_less)
    have prod: "unat ((of_nat (j + 1) - 1) * ?w) = j * ?b"
    proof -
      have "unat (of_nat (j + 1) - 1 :: lib_u64) * unat ?w < 2 ^ LENGTH(64)"
        unfolding j unat_u32_u64 using jb(2) by simp
      then show ?thesis by (simp only: unat_mult_lem [THEN iffD1] j unat_u32_u64)
    qed
    have sum: "unat (?t + (of_nat (j + 1) - 1) * ?w) = ?b - ?st + j * ?b"
      using jb(2) by (subst unat_plus_if') (simp only: prod t, simp)
    have "rtc_alarm_search r (Suc left) (of_nat (j + 1)) ((rtc_increment_second ^^ j) r) out =
        (LIB_STATUS_OK, Some (?t + (of_nat (j + 1) - 1) * ?w))"
      using True m fits by (simp add: Let_def del: of_nat_Suc of_nat_add)
    moreover have "\<forall>i. j < i \<and> i < Suc j \<longrightarrow> \<not> alarm_at r i" by auto
    ultimately show ?thesis using True sum
      by (intro disjI2 exI [of _ "j + 1"] exI [of _ "?t + (of_nat (j + 1) - 1) * ?w"]) (simp del: of_nat_Suc of_nat_add)
  qed
qed

lemma alarm_distance:
  assumes phase: "rtc_phase_ok r"
  obtains (none) out where "rtc_ticks_until_alarm (Some r) (Some 0) = (LIB_STATUS_INVALID_STATE, out)"
      "\<And>n. elapsed_seconds r n \<le> 90000 \<Longrightarrow> \<not> (\<exists>i\<in>{1..elapsed_seconds r n}. alarm_at r i)"
    | (found) t where "rtc_ticks_until_alarm (Some r) (Some 0) = (LIB_STATUS_OK, Some t)" "t \<noteq> 0"
      "\<And>n. (\<exists>i\<in>{1..elapsed_seconds r n}. alarm_at r i) \<longleftrightarrow> t \<le> n"
proof -
  let ?b = "unat (rt_ticks_per_second r)" and ?st = "unat (rc_second_ticks (rt_calendar r))"
  have st: "?st < ?b" using phase by (simp add: rtc_phase_ok_def)
  have "\<not> rc_second_ticks (rt_calendar r) \<ge> ucast (rt_ticks_per_second r)" "rt_ticks_per_second r \<noteq> 0"
    using st phase by (simp_all add: word_le_nat_alt rtc_phase_ok_def)
  then have s: "rtc_ticks_until_alarm (Some r) (Some 0) =
      rtc_alarm_search r 90000 (of_nat (0 + 1)) ((rtc_increment_second ^^ 0) r) (Some 0)"
    by (simp del: rtc_alarm_search.simps)
  have "0 + 90000 \<le> (90000 :: nat)" by simp
  from alarm_search_spec [OF phase this, of "Some 0"] show thesis
  proof (elim disjE conjE exE)
    assume no: "\<forall>i. 0 < i \<and> i \<le> 0 + 90000 \<longrightarrow> \<not> alarm_at r i"
      and "rtc_alarm_search r 90000 (of_nat (0 + 1)) ((rtc_increment_second ^^ 0) r) (Some 0) = (LIB_STATUS_INVALID_STATE, Some 0)"
    then show thesis by (intro none [of "Some 0"]) (auto simp only: s, force)
  next
    fix k t
    assume k: "0 < k" "alarm_at r k" "\<forall>i. 0 < i \<and> i < k \<longrightarrow> \<not> alarm_at r i"
      and t: "rtc_alarm_search r 90000 (of_nat (0 + 1)) ((rtc_increment_second ^^ 0) r) (Some 0) = (LIB_STATUS_OK, Some t)"
        "unat t = ?b - ?st + (k - 1) * ?b"
    have "(\<exists>i\<in>{1..e}. alarm_at r i) \<longleftrightarrow> k \<le> e" for e
    proof
      assume "\<exists>i\<in>{1..e}. alarm_at r i"
      then obtain i where i: "0 < i" "i \<le> e" "alarm_at r i" by (auto simp: Suc_le_eq)
      then have "\<not> i < k" using k(3) by blast
      then show "k \<le> e" using i(2) by simp
    qed (use k in \<open>auto intro!: bexI [of _ k]\<close>)
    moreover have "k \<le> elapsed_seconds r n \<longleftrightarrow> t \<le> n" for n
      unfolding elapsed_ge [OF phase k(1)] word_le_nat_alt t(2) ..
    moreover have "t \<noteq> 0" using t(2) st by (auto simp flip: unat_eq_0)
    ultimately show thesis using t(1) by (intro found [of t]) (simp_all only: s not_False_eq_True)
  qed
qed

lemma update_distance:
  assumes phase: "rtc_phase_ok r"
  defines "u \<equiv> ucast (rt_ticks_per_second r) - rc_second_ticks (rt_calendar r)"
  shows "0 < elapsed_seconds r n \<longleftrightarrow> u \<le> n" and "u \<noteq> 0" and "unat u \<le> unat (rt_ticks_per_second r)"
proof -
  have u: "unat u = unat (rt_ticks_per_second r) - unat (rc_second_ticks (rt_calendar r))"
    using phase by (simp add: u_def rtc_phase_ok_def unat_sub word_le_nat_alt)
  show "0 < elapsed_seconds r n \<longleftrightarrow> u \<le> n"
    using elapsed_ge [OF phase, of 1 n] by (simp add: word_le_nat_alt u Suc_le_eq)
  show "u \<noteq> 0" using u phase by (auto simp: rtc_phase_ok_def simp flip: unat_eq_0)
  show "unat u \<le> unat (rt_ticks_per_second r)" by (simp add: u)
qed

text \<open>
  The minimum the code forms, over three distances that are present or not, with the largest
  number for an absent one.
\<close>

definition alarm_min :: "bool \<Rightarrow> lib_status \<times> lib_u64 ptr \<Rightarrow> lib_u64 \<Rightarrow> lib_u64" where
  "alarm_min on a t = (if on then case a of (status, alarm) \<Rightarrow>
      if status = LIB_STATUS_OK \<and> the alarm < t then the alarm else t else t)"

lemma ticks_until_irq_alt:
  assumes "rtc_divider_running r"
  shows "x86_rtc_ticks_until_irq (Some r) (Some c) =
    (let t = (if rtc_enabled r 6 \<and> rtc_periodic_hz r \<noteq> 0 then rtc_ticks_until_periodic r else LIB_UINT64_MAX);
         u = ucast (rt_ticks_per_second r) - rc_second_ticks (rt_calendar r);
         t = (if rtc_enabled r 4 \<and> \<not> rtc_enabled r 7 \<and> u < t then u else t);
         t = alarm_min (rtc_enabled r 5 \<and> \<not> rtc_enabled r 7) (rtc_ticks_until_alarm (Some r) (Some 0)) t
     in if t = LIB_UINT64_MAX \<or> t = 0 then (LIB_STATUS_INVALID_STATE, Some c) else (LIB_STATUS_OK, Some t))"
  using assms unfolding x86_rtc_ticks_until_irq.simps Let_def alarm_min_def rtc_enabled_def
  by (simp only: flag_bits8 simp_thms if_True if_False)

lemma deadline_fires:
  assumes phase: "rtc_phase_ok r" and run: "rtc_divider_running r"
    and d: "x86_rtc_ticks_until_irq (Some r) (Some c) = (LIB_STATUS_OK, Some t)"
  shows "t \<noteq> 0 \<and> rtc_fires r t \<and> (\<forall>n < t. \<not> rtc_fires r n)"
proof -
  define tp where "tp = (if rtc_enabled r 6 \<and> rtc_periodic_hz r \<noteq> 0 then rtc_ticks_until_periodic r else LIB_UINT64_MAX)"
  define u :: lib_u64 where "u = ucast (rt_ticks_per_second r) - rc_second_ticks (rt_calendar r)"
  define t2 where "t2 = (if rtc_enabled r 4 \<and> \<not> rtc_enabled r 7 \<and> u < tp then u else tp)"
  let ?A = "rtc_ticks_until_alarm (Some r) (Some 0)" and ?on = "rtc_enabled r 5 \<and> \<not> rtc_enabled r 7"
  have t: "t = alarm_min ?on ?A t2" "t \<noteq> LIB_UINT64_MAX" "t \<noteq> 0"
    using d unfolding ticks_until_irq_alt [OF run] Let_def tp_def [symmetric] u_def [symmetric] t2_def [symmetric]
    by (simp_all split: if_splits del: rtc_ticks_until_alarm.simps)
  let ?on6 = "rtc_enabled r 6 \<and> rtc_periodic_hz r \<noteq> 0" and ?on4 = "rtc_enabled r 4 \<and> \<not> rtc_enabled r 7"
  let ?hit = "\<lambda>n. \<exists>i\<in>{1..elapsed_seconds r n}. alarm_at r i"
  have fires: "rtc_fires r n \<longleftrightarrow> ?on6 \<and> tp \<le> n \<or> ?on4 \<and> u \<le> n \<or> ?on \<and> ?hit n" for n
  proof -
    have "rtc_enabled r 6 \<and> periodic_edge r (unat n) \<longleftrightarrow> ?on6 \<and> tp \<le> n"
      using periodic_deadline(1) [OF phase, of "unat n"]
      by (cases "rtc_periodic_hz r = 0") (simp_all add: tp_def word_le_nat_alt periodic_edge_def)
    then show ?thesis using update_distance(1) [OF phase, of n] unfolding rtc_fires_def u_def by blast
  qed
  have absent: "tp = LIB_UINT64_MAX" if "\<not> ?on6" using that unfolding tp_def by auto
  have t2: "?on6 \<Longrightarrow> t2 \<le> tp" "?on4 \<Longrightarrow> t2 \<le> u" "t2 = tp \<or> ?on4 \<and> t2 = u"
    by (auto simp: t2_def)
  show ?thesis
    using phase
  proof (cases rule: alarm_distance)
    case (found ta)
    have "t = (if ?on \<and> ta < t2 then ta else t2)" using t(1) by (simp add: alarm_min_def found(1) del: rtc_ticks_until_alarm.simps)
    then have le: "t \<le> t2" "?on \<Longrightarrow> t \<le> ta" "t = t2 \<or> ?on \<and> t = ta" by auto
    have "rtc_fires r t" using le t2 t(2) absent unfolding fires found(3) by (metis order_refl)
    moreover have "\<not> rtc_fires r n" if "n < t" for n
      using that le t2 unfolding fires found(3) by (meson leD le_less_trans order_trans)
    ultimately show ?thesis using t(3) by blast
  next
    case (none out)
    have tt: "t = t2" using t(1) by (simp add: alarm_min_def none(1) del: rtc_ticks_until_alarm.simps)
    have on: "?on6 \<and> t = tp \<or> ?on4 \<and> t = u" using tt t2(3) absent t(2) by blast
    have b: "unat t \<le> unat (rt_ticks_per_second r)"
      using on update_distance(3) [OF phase] periodic_deadline(2) [OF phase] by (auto simp: u_def tp_def)
    have quiet: "\<not> ?hit n" if "n \<le> t" for n
    proof (rule none(2))
      have "unat (rc_second_ticks (rt_calendar r)) + unat n \<le> 2 * unat (rt_ticks_per_second r)"
        using b that phase by (simp add: word_le_nat_alt rtc_phase_ok_def)
      then have "elapsed_seconds r n \<le> 2 * unat (rt_ticks_per_second r) div unat (rt_ticks_per_second r)"
        unfolding elapsed_seconds_def by (rule div_le_mono)
      also have "\<dots> = 2" using phase_bounds(2) [OF phase] by simp
      finally show "elapsed_seconds r n \<le> 90000" by simp
    qed
    have "rtc_fires r t" using on unfolding fires by auto
    moreover have "\<not> rtc_fires r n" if "n < t" for n
      using that t2 quiet [of n] unfolding fires tt by (meson leD le_less_trans less_imp_le order_trans)
    ultimately show ?thesis using t(3) by blast
  qed
qed

text \<open>
  C39: \<^verbatim>\<open>x86_rtc_ticks_until_irq\<close> is exact. When it returns a distance for a clock whose
  interrupt line is low, the distance is positive, the line stays low for every shorter advance,
  and an advance by exactly that distance raises it. The periodic, update and alarm interrupts, the
  search over the next 25 hours and daylight saving are all covered.
\<close>

theorem rtc_deadline_exact:
  assumes "rtc_reachable r" and "\<not> rtc_irq r"
    and "x86_rtc_ticks_until_irq (Some r) (Some c) = (LIB_STATUS_OK, Some t)"
  shows "t \<noteq> 0 \<and> rtc_irq (the (x86_rtc_advance (Some r) t)) \<and>
    (\<forall>n < t. \<not> rtc_irq (the (x86_rtc_advance (Some r) n)))"
proof -
  have ok: "rtc_ok r" by (rule rtc_reachable_ok [OF assms(1)])
  then have phase: "rtc_phase_ok r" by (simp add: rtc_ok_def)
  have run: "rtc_divider_running r" using assms(3) by (auto split: if_splits)
  show ?thesis
    using deadline_fires [OF phase run assms(3)] unfolding irq_after_advance [OF ok assms(2) run] .
qed

text \<open>The clock after the update-ended interrupt has been enabled: one second to go.\<close>

abbreviation rtc_updating :: x86_rtc where
  "rtc_updating \<equiv> the (x86_rtc_write_register (Some rtc_fresh) X86_RTC_REG_B 0x12)"

theorem rtc_deadline_exact_witness:
  "x86_rtc_ticks_until_irq (Some rtc_updating) (Some 0) = (LIB_STATUS_OK, Some 1000) \<and>
   rtc_irq (the (x86_rtc_advance (Some rtc_updating) 1000)) \<and>
   \<not> rtc_irq (the (x86_rtc_advance (Some rtc_updating) 999))"
proof -
  have d: "x86_rtc_ticks_until_irq (Some rtc_updating) (Some 0) = (LIB_STATUS_OK, Some 1000)"
    "\<not> rtc_irq rtc_updating"
    by (simp_all add: rtc_eval rtc_refresh_irq_def rtc_irq_def LIB_UINT64_MAX_def)
  have "rtc_reachable rtc_updating"
    by (rule rtc_was_written [OF rtc_fresh_reachable]) (simp add: write_register_store del: x86_rtc_write_register.simps x86_rtc_create.simps)
  from rtc_deadline_exact [OF this d(2,1)] show ?thesis
    using d(1) by (simp del: x86_rtc_write_register.simps x86_rtc_create.simps x86_rtc_advance.simps x86_rtc_ticks_until_irq.simps)
qed

end
