(* ===== verification/Board.thy ===== *)
theory Board
  imports Dma_Bus Pic_Bus Pit_Wave Rtc_Time
begin

unbundle bit_operations_syntax

text \<open>
  The board behind the core machine's attachment: \<^verbatim>\<open>board_advance.c\<close>,
  \<^verbatim>\<open>board_deadline.c\<close> and the timer, refresh and speaker wiring of
  \<^verbatim>\<open>machine_board.c\<close>, all under \<^verbatim>\<open>src/src/x86-nxvm/board-base/\<close>.

  The board composes the modelled chips: the two interval timers, the interrupt controllers, the DMA
  bus and the real-time clock, each behind its own clock domain. What it composes beyond them is a
  field of an environment: the selected profile, the floppy and hard disk controllers, the keyboard
  and video. The world of the scheduler is the pair of the DMA bus and the board. The timers and the
  clock record the calls of their outputs; a call is delivered by running the wired function after
  the advance that made it. Trace records are left out.
\<close>

section \<open>State\<close>

datatype x86_nxvm_board_keyboard_topology =
    X86_NXVM_BOARD_KEYBOARD_TOPOLOGY_8042 | X86_NXVM_BOARD_KEYBOARD_TOPOLOGY_XT_PPI
  | X86_NXVM_BOARD_KEYBOARD_TOPOLOGY_NONE | X86_NXVM_BOARD_KEYBOARD_TOPOLOGY_8042_NEUTRAL

record 'x board =
  bd_timing_declarations_copied :: bool
  bd_pic :: pic_pair
  bd_rtc_irq_source :: "nat ptr"
  bd_pit :: "x86_pit ptr"
  bd_auxiliary_pit :: "x86_pit ptr"
  bd_auxiliary_pit_configured :: bool
  bd_rtc :: "x86_rtc ptr"
  bd_planar_parity :: bool
  bd_xt_ppi_speaker_configured :: bool
  bd_speaker_output :: bool
  bd_speaker_lines :: lib_u8
  bd_vadp :: bool
  bd_dma_clock :: x86_core_machine_clock_domain
  bd_dma_clock_explicit :: bool
  bd_pit_clock :: x86_core_machine_clock_domain
  bd_auxiliary_pit_clock :: x86_core_machine_clock_domain
  bd_rtc_clock :: x86_core_machine_clock_domain
  bd_vadp_clock :: x86_core_machine_clock_domain
  bd_kbc_clock :: x86_core_machine_clock_domain
  bd_keyboard_topology :: x86_nxvm_board_keyboard_topology
  bd_refresh_dma_request :: x86_nxvm_board_dma_request_binding
  bd_refresh_hold_pending :: bool
  bd_refresh_row :: lib_u8
  bd_dma_configured :: bool
  bd_rtc_cmos_configured :: bool
  bd_fdc_configured :: bool
  bd_hdc_configured :: bool
  bd_rest :: 'x

type_synonym ('cb, 'p, 'x) board_core = "('cb, 'p, 'x board) dma_state"

text \<open>
  What the board composes and the model does not: the profile's callbacks, of which the optional
  ones may be absent, and the controllers. A distance query answers \<open>None\<close> when its status
  is not OK.
\<close>

record ('cb, 'p, 'x) board_env =
  be_dma :: "('cb, 'p, 'x board) dma_env"
  be_profile_owns_refresh_output :: bool
  be_profile_refresh_request :: "(('cb, 'p, 'x) board_core \<Rightarrow> bool \<times> lib_u8) ptr"
  be_profile_refresh_complete :: "(('cb, 'p, 'x) board_core \<Rightarrow> ('cb, 'p, 'x) board_core) ptr"
  be_profile_cpu_hold_asserted :: "(('cb, 'p, 'x) board_core \<Rightarrow> bool) ptr"
  be_profile_next_deadline :: "(('cb, 'p, 'x) board_core \<Rightarrow> lib_u64 \<Rightarrow> lib_u64 ptr) ptr"
  be_profile_advance :: "(lib_u64 \<Rightarrow> lib_u64 \<Rightarrow> ('cb, 'p, 'x) board_core \<Rightarrow> ('cb, 'p, 'x) board_core) ptr"
  be_profile_pit_output :: "nat \<Rightarrow> nat \<Rightarrow> bool \<Rightarrow> ('cb, 'p, 'x) board_core \<Rightarrow> ('cb, 'p, 'x) board_core"
  be_refresh_pulse :: "('cb, 'p, 'x) board_core \<Rightarrow> ('cb, 'p, 'x) board_core"
  be_fdc_advance_at :: "lib_u64 \<Rightarrow> ('cb, 'p, 'x) board_core \<Rightarrow> ('cb, 'p, 'x) board_core"
  be_fdc_next_due_tick :: "('cb, 'p, 'x) board_core \<Rightarrow> lib_u64 ptr"
  be_hdc_advance_at :: "lib_u64 \<Rightarrow> ('cb, 'p, 'x) board_core \<Rightarrow> ('cb, 'p, 'x) board_core"
  be_hdc_next_due_tick :: "('cb, 'p, 'x) board_core \<Rightarrow> lib_u64 ptr"
  be_kbc_advance :: "lib_u64 \<Rightarrow> ('cb, 'p, 'x) board_core \<Rightarrow> ('cb, 'p, 'x) board_core"
  be_kbc_ticks_until_event :: "('cb, 'p, 'x) board_core \<Rightarrow> lib_u64 ptr"
  be_xt_keyboard_advance :: "lib_u64 \<Rightarrow> ('cb, 'p, 'x) board_core \<Rightarrow> ('cb, 'p, 'x) board_core"
  be_xt_keyboard_ticks_until_event :: "('cb, 'p, 'x) board_core \<Rightarrow> lib_u64 ptr"
  be_vadp_advance :: "lib_u64 \<Rightarrow> ('cb, 'p, 'x) board_core \<Rightarrow> ('cb, 'p, 'x) board_core"
  be_video_ticks_until_event :: "('cb, 'p, 'x) board_core \<Rightarrow> lib_u64 ptr"

abbreviation the_board :: "('cb, 'p, 'x) board_core \<Rightarrow> 'x board" where
  "the_board s \<equiv> snd (snd s)"

definition set_board :: "('x board \<Rightarrow> 'x board) \<Rightarrow> ('cb, 'p, 'x) board_core \<Rightarrow> ('cb, 'p, 'x) board_core" where
  "set_board f s = (fst s, the_bus s, f (the_board s))"

definition set_pic :: "(pic_pair \<Rightarrow> pic_pair) \<Rightarrow> ('cb, 'p, 'x) board_core \<Rightarrow> ('cb, 'p, 'x) board_core" where
  "set_pic f = set_board (\<lambda>b. b\<lparr>bd_pic := f (bd_pic b)\<rparr>)"

section \<open>Clocks\<close>

record x86_nxvm_board_clock_plan =
  cp_dma :: x86_core_machine_clock_ratio
  cp_pit :: x86_core_machine_clock_ratio
  cp_auxiliary_pit :: x86_core_machine_clock_ratio
  cp_rtc :: x86_core_machine_clock_ratio
  cp_vadp :: x86_core_machine_clock_ratio
  cp_kbc :: x86_core_machine_clock_ratio

text \<open>One clock domain of the board: how to read it and how to write it.\<close>

type_synonym 'x board_clock = "('x board \<Rightarrow> x86_core_machine_clock_domain) \<times>
  (x86_core_machine_clock_domain \<Rightarrow> 'x board \<Rightarrow> 'x board)"

definition dma_clock :: "'x board_clock" where
  "dma_clock = (bd_dma_clock, \<lambda>c b. b\<lparr>bd_dma_clock := c\<rparr>)"
definition pit_clock_domain :: "'x board_clock" where
  "pit_clock_domain = (bd_pit_clock, \<lambda>c b. b\<lparr>bd_pit_clock := c\<rparr>)"
definition auxiliary_pit_clock :: "'x board_clock" where
  "auxiliary_pit_clock = (bd_auxiliary_pit_clock, \<lambda>c b. b\<lparr>bd_auxiliary_pit_clock := c\<rparr>)"
definition rtc_clock :: "'x board_clock" where
  "rtc_clock = (bd_rtc_clock, \<lambda>c b. b\<lparr>bd_rtc_clock := c\<rparr>)"
definition vadp_clock :: "'x board_clock" where
  "vadp_clock = (bd_vadp_clock, \<lambda>c b. b\<lparr>bd_vadp_clock := c\<rparr>)"
definition kbc_clock :: "'x board_clock" where
  "kbc_clock = (bd_kbc_clock, \<lambda>c b. b\<lparr>bd_kbc_clock := c\<rparr>)"

text \<open>The initialisations stop at the first plan that is refused.\<close>

primrec initialize_each ::
  "('x board_clock \<times> x86_core_machine_clock_ratio) list \<Rightarrow> 'x board \<Rightarrow> lib_status \<times> 'x board" where
  "initialize_each [] b = (LIB_STATUS_OK, b)"
| "initialize_each (e # es) b =
     (case x86_core_machine_clock_domain_initialize (Some (fst (fst e) b)) (Some (snd e)) of
        (status, clock) \<Rightarrow>
          if status \<noteq> LIB_STATUS_OK then (LIB_STATUS_INVALID_ARGUMENT, b)
          else initialize_each es (snd (fst e) (the clock) b))"

definition x86_nxvm_board_initialize_clocks ::
  "x86_nxvm_board_clock_plan \<Rightarrow> 'x board \<Rightarrow> lib_status \<times> 'x board" where
  "x86_nxvm_board_initialize_clocks plan b =
     initialize_each [(dma_clock, cp_dma plan), (pit_clock_domain, cp_pit plan),
       (auxiliary_pit_clock, cp_auxiliary_pit plan), (rtc_clock, cp_rtc plan),
       (vadp_clock, cp_vadp plan), (kbc_clock, cp_kbc plan)] b"

definition reset_clock :: "'x board_clock \<Rightarrow> 'x board \<Rightarrow> 'x board" where
  "reset_clock clock b = snd clock (the (x86_core_machine_clock_domain_reset (Some (fst clock b)))) b"

definition x86_nxvm_board_reset_clocks :: "'x board \<Rightarrow> 'x board" where
  "x86_nxvm_board_reset_clocks =
     reset_clock kbc_clock \<circ> reset_clock vadp_clock \<circ> reset_clock rtc_clock \<circ>
     reset_clock auxiliary_pit_clock \<circ> reset_clock pit_clock_domain \<circ> reset_clock dma_clock"

text \<open>The ticks a domain delivers for an interval of source ticks.\<close>

definition clock_run ::
  "'x board_clock \<Rightarrow> lib_u64 \<Rightarrow> ('cb, 'p, 'x) board_core \<Rightarrow> lib_u64 \<times> ('cb, 'p, 'x) board_core" where
  "clock_run clock source_ticks s =
     (case x86_core_machine_clock_domain_advance (Some (fst clock (the_board s))) source_ticks of
        (ticks, domain) \<Rightarrow> (ticks, set_board (snd clock (the domain)) s))"

section \<open>Outputs of the timers and the clock\<close>

definition x86_nxvm_board_speaker_refresh :: "'x board \<Rightarrow> 'x board" where
  "x86_nxvm_board_speaker_refresh b =
     b\<lparr>bd_speaker_output := (bd_speaker_lines b AND 0x02 \<noteq> 0 \<and> x86_pit_get_output (bd_pit b) 2)\<rparr>"

definition x86_nxvm_board_speaker_set_gate :: "lib_u8 \<Rightarrow> 'x board \<Rightarrow> 'x board" where
  "x86_nxvm_board_speaker_set_gate v b =
     x86_nxvm_board_speaker_refresh
       (b\<lparr>bd_speaker_lines := v AND 0x03,
          bd_pit := x86_pit_set_gate (bd_pit b) 2 (v AND 0x01 \<noteq> 0)\<rparr>)"

definition x86_nxvm_board_set_xt_ppi_speaker :: "bool \<Rightarrow> bool \<Rightarrow> 'x board \<Rightarrow> 'x board" where
  "x86_nxvm_board_set_xt_ppi_speaker timer_gate data_enabled b =
     (if \<not> bd_xt_ppi_speaker_configured b then b
      else x86_nxvm_board_speaker_set_gate
        ((if timer_gate then 0x01 else 0) OR (if data_enabled then 0x02 else 0)) b)"

definition x86_nxvm_board_refresh_pit_output ::
  "('cb, 'p, 'x) board_env \<Rightarrow> bool \<Rightarrow> ('cb, 'p, 'x) board_core \<Rightarrow> ('cb, 'p, 'x) board_core" where
  "x86_nxvm_board_refresh_pit_output be asserted s =
     (let b = the_board s
      in if bd_planar_parity b then
           if asserted then
             be_refresh_pulse be
               (if be_profile_refresh_request be = None
                then set_board (\<lambda>b. b\<lparr>bd_refresh_hold_pending := True\<rparr>) s else s)
           else s
         else if asserted then
           set_bus (the (x86_nxvm_board_dma_request_deassert (Some (bd_refresh_dma_request b))
             (Some (the_bus s)))) s
         else
           set_bus (the (x86_nxvm_board_dma_request_assert (Some (bd_refresh_dma_request b))
             (Some (the_bus s)))) s)"

text \<open>The functions the board wires to the outputs of a timer; a profile may wire others.\<close>

abbreviation (input) "PIC_TIMER_OUTPUT \<equiv> 0 :: nat"
abbreviation (input) "REFRESH_PIT_OUTPUT \<equiv> Suc 0"
abbreviation (input) "SPEAKER_TIMER_OUTPUT \<equiv> 2 :: nat"

definition pit_call ::
  "('cb, 'p, 'x) board_env \<Rightarrow> nat \<times> x86_pit_output_provider \<times> pit_owner \<times> bool \<Rightarrow>
     ('cb, 'p, 'x) board_core \<Rightarrow> ('cb, 'p, 'x) board_core" where
  "pit_call be call s =
     (case call of (k, provider, owner, asserted) \<Rightarrow>
        if provider = PIC_TIMER_OUTPUT then
          set_pic (x86_nxvm_board_pic_timer_output (Some owner) (of_bool asserted)) s
        else if provider = REFRESH_PIT_OUTPUT then x86_nxvm_board_refresh_pit_output be asserted s
        else if provider = SPEAKER_TIMER_OUTPUT then set_board x86_nxvm_board_speaker_refresh s
        else be_profile_pit_output be provider owner asserted s)"

definition x86_nxvm_board_rtc_irq_output :: "nat ptr \<Rightarrow> bool \<Rightarrow> pic_pair \<Rightarrow> pic_pair" where
  "x86_nxvm_board_rtc_irq_output source asserted b =
     (if asserted then x86_nxvm_board_pic_irq_source_assert source b
      else x86_nxvm_board_pic_irq_source_deassert source b)"

text \<open>Advancing a timer and delivering the calls this advance has made.\<close>

definition new_calls :: "'c list \<Rightarrow> 'c list \<Rightarrow> 'c list" where
  "new_calls old calls = drop (length old) calls"

definition pit_log :: "x86_pit ptr \<Rightarrow> (nat \<times> x86_pit_output_provider \<times> pit_owner \<times> bool) list" where
  "pit_log pit = (case pit of None \<Rightarrow> [] | Some p \<Rightarrow> pit_calls p)"

definition rtc_log :: "x86_rtc ptr \<Rightarrow> bool list" where
  "rtc_log rtc = (case rtc of None \<Rightarrow> [] | Some r \<Rightarrow> rt_calls r)"

definition run_pit ::
  "('cb, 'p, 'x) board_env \<Rightarrow> lib_u64 \<Rightarrow> ('cb, 'p, 'x) board_core \<Rightarrow> ('cb, 'p, 'x) board_core" where
  "run_pit be ticks s =
     (let pit = x86_pit_advance (bd_pit (the_board s)) ticks
      in fold (pit_call be) (new_calls (pit_log (bd_pit (the_board s))) (pit_log pit))
           (set_board (\<lambda>b. b\<lparr>bd_pit := pit\<rparr>) s))"

definition run_auxiliary_pit ::
  "('cb, 'p, 'x) board_env \<Rightarrow> lib_u64 \<Rightarrow> ('cb, 'p, 'x) board_core \<Rightarrow> ('cb, 'p, 'x) board_core" where
  "run_auxiliary_pit be ticks s =
     (let pit = x86_pit_advance (bd_auxiliary_pit (the_board s)) ticks
      in fold (pit_call be) (new_calls (pit_log (bd_auxiliary_pit (the_board s))) (pit_log pit))
           (set_board (\<lambda>b. b\<lparr>bd_auxiliary_pit := pit\<rparr>) s))"

definition run_rtc :: "lib_u64 \<Rightarrow> ('cb, 'p, 'x) board_core \<Rightarrow> ('cb, 'p, 'x) board_core" where
  "run_rtc ticks s =
     (let rtc = x86_rtc_advance (bd_rtc (the_board s)) ticks
      in fold (\<lambda>level s. set_pic (x86_nxvm_board_rtc_irq_output (bd_rtc_irq_source (the_board s)) level) s)
           (new_calls (rtc_log (bd_rtc (the_board s))) (rtc_log rtc))
           (set_board (\<lambda>b. b\<lparr>bd_rtc := rtc\<rparr>) s))"

section \<open>The attachment's callbacks\<close>

definition x86_nxvm_board_dma_ticks ::
  "lib_u64 \<Rightarrow> ('cb, 'p, 'x) board_core \<Rightarrow> lib_u64 \<times> ('cb, 'p, 'x) board_core" where
  "x86_nxvm_board_dma_ticks = clock_run dma_clock"

definition x86_nxvm_board_dma_request :: "('cb, 'p, 'x) board_core \<Rightarrow> bool" where
  "x86_nxvm_board_dma_request s = x86_nxvm_board_dma_has_pending_request (Some (the_bus s))"

definition x86_nxvm_board_dma_advance ::
  "('cb, 'p, 'x) board_env \<Rightarrow> lib_u64 \<Rightarrow> ('cb, 'p, 'x) board_core \<Rightarrow> ('cb, 'p, 'x) board_core" where
  "x86_nxvm_board_dma_advance be dma_ticks =
     x86_nxvm_board_dma_advance_transaction (be_dma be) dma_ticks"

definition x86_nxvm_board_before_internal_advance ::
  "('cb, 'p, 'x) board_env \<Rightarrow> lib_u64 \<Rightarrow> lib_u64 \<Rightarrow> ('cb, 'p, 'x) board_core \<Rightarrow> ('cb, 'p, 'x) board_core" where
  "x86_nxvm_board_before_internal_advance be source_ticks due_tick s =
     (if source_ticks = 0 then s
      else
        let (primary_ticks, s) = clock_run pit_clock_domain source_ticks s;
            (auxiliary_ticks, s) = clock_run auxiliary_pit_clock source_ticks s;
            s = run_pit be primary_ticks s;
            s = (if bd_auxiliary_pit_configured (the_board s)
                 then run_auxiliary_pit be auxiliary_ticks s else s);
            s = call_advance (be_profile_advance be) source_ticks due_tick s;
            s = set_pic x86_nxvm_board_pic_refresh s;
            s = (if bd_fdc_configured (the_board s) then be_fdc_advance_at be due_tick s else s)
        in if bd_hdc_configured (the_board s) then be_hdc_advance_at be due_tick s else s)"

definition x86_nxvm_board_pic_pending :: "('cb, 'p, 'x) board_core \<Rightarrow> bool" where
  "x86_nxvm_board_pic_pending s = x86_nxvm_board_pic_scan_interrupt (bd_pic (the_board s))"

definition x86_nxvm_board_pic_acknowledge ::
  "('cb, 'p, 'x) board_core \<Rightarrow> lib_u8 \<times> ('cb, 'p, 'x) board_core" where
  "x86_nxvm_board_pic_acknowledge s =
     (case x86_nxvm_board_pic_get_interrupt (bd_pic (the_board s)) of
        (vector, pic) \<Rightarrow> (vector, set_pic (\<lambda>_. pic) s))"

definition advance_keyboard ::
  "('cb, 'p, 'x) board_env \<Rightarrow> lib_u64 \<Rightarrow> lib_u64 \<Rightarrow> ('cb, 'p, 'x) board_core \<Rightarrow> ('cb, 'p, 'x) board_core" where
  "advance_keyboard be source_ticks kbc_ticks s =
     (if bd_keyboard_topology (the_board s) = X86_NXVM_BOARD_KEYBOARD_TOPOLOGY_XT_PPI
      then be_xt_keyboard_advance be source_ticks s
      else if bd_keyboard_topology (the_board s) \<noteq> X86_NXVM_BOARD_KEYBOARD_TOPOLOGY_NONE
      then be_kbc_advance be kbc_ticks s else s)"

definition x86_nxvm_board_after_internal_advance ::
  "('cb, 'p, 'x) board_env \<Rightarrow> lib_u64 \<Rightarrow> lib_u64 \<Rightarrow> ('cb, 'p, 'x) board_core \<Rightarrow> ('cb, 'p, 'x) board_core" where
  "x86_nxvm_board_after_internal_advance be source_ticks due_tick s =
     (if source_ticks = 0 then s
      else
        let (rtc_ticks, s) = clock_run rtc_clock source_ticks s;
            s = (if bd_rtc_cmos_configured (the_board s) then run_rtc rtc_ticks s else s);
            (kbc_ticks, s) = clock_run kbc_clock source_ticks s;
            s = advance_keyboard be source_ticks kbc_ticks s;
            s = set_pic (x86_nxvm_board_pic_advance source_ticks) s
        in if bd_vadp (the_board s) then
             let (vadp_ticks, s) = clock_run vadp_clock source_ticks s
             in be_vadp_advance be vadp_ticks s
           else s)"

definition x86_nxvm_board_refresh_request ::
  "('cb, 'p, 'x) board_env \<Rightarrow> ('cb, 'p, 'x) board_core \<Rightarrow> bool \<times> lib_u8" where
  "x86_nxvm_board_refresh_request be s =
     (case be_profile_refresh_request be of
        Some request \<Rightarrow> request s
      | None \<Rightarrow> (bd_refresh_hold_pending (the_board s), bd_refresh_row (the_board s)))"

definition x86_nxvm_board_cpu_hold_asserted ::
  "('cb, 'p, 'x) board_env \<Rightarrow> ('cb, 'p, 'x) board_core \<Rightarrow> bool" where
  "x86_nxvm_board_cpu_hold_asserted be s =
     (case be_profile_cpu_hold_asserted be of None \<Rightarrow> False | Some held \<Rightarrow> held s)"

definition x86_nxvm_board_refresh_complete ::
  "('cb, 'p, 'x) board_env \<Rightarrow> ('cb, 'p, 'x) board_core \<Rightarrow> ('cb, 'p, 'x) board_core" where
  "x86_nxvm_board_refresh_complete be s =
     (case be_profile_refresh_complete be of
        Some finish \<Rightarrow> finish s
      | None \<Rightarrow>
          if bd_refresh_hold_pending (the_board s)
          then set_board (\<lambda>b. b\<lparr>bd_refresh_hold_pending := False,
                 bd_refresh_row := bd_refresh_row b + 1\<rparr>) s
          else s)"

section \<open>The board's deadline\<close>

text \<open>Each consideration returns whether something is due now, and the new nearest distance.\<close>

definition board_consider_relative :: "lib_u64 \<Rightarrow> lib_u64 \<Rightarrow> bool \<times> lib_u64" where
  "board_consider_relative source_ticks io_source_ticks =
     (if source_ticks = 0 then (True, io_source_ticks)
      else (False, if io_source_ticks = 0 \<or> source_ticks < io_source_ticks then source_ticks
                   else io_source_ticks))"

definition board_consider_clock ::
  "x86_core_machine_clock_domain \<Rightarrow> lib_u64 \<Rightarrow> lib_u64 \<Rightarrow> bool \<times> lib_u64" where
  "board_consider_clock clock device_ticks io_source_ticks =
     (if device_ticks = 0 then (True, io_source_ticks)
      else case x86_core_machine_clock_domain_source_ticks_until (Some clock) device_ticks (Some 0) of
             (status, out) \<Rightarrow>
               if status \<noteq> LIB_STATUS_OK then (False, io_source_ticks)
               else board_consider_relative (the out) io_source_ticks)"

definition board_consider_absolute :: "lib_u64 \<Rightarrow> lib_u64 \<Rightarrow> lib_u64 \<Rightarrow> bool \<times> lib_u64" where
  "board_consider_absolute now due_tick io_source_ticks =
     (if due_tick \<le> now then (True, io_source_ticks)
      else board_consider_relative (due_tick - now) io_source_ticks)"

definition pit_nearest :: "x86_pit ptr \<Rightarrow> lib_u64" where
  "pit_nearest pit =
     fold (\<lambda>counter nearest.
       case x86_pit_ticks_until_output pit counter (Some 0) of
         (status, out) \<Rightarrow>
           if status \<noteq> LIB_STATUS_OK then nearest
           else if nearest = 0 \<or> the out < nearest then the out else nearest) [0..<3] 0"

definition board_consider_pit ::
  "x86_pit ptr \<Rightarrow> x86_core_machine_clock_domain \<Rightarrow> lib_u64 \<Rightarrow> lib_u64" where
  "board_consider_pit pit clock io_source_ticks =
     (let nearest = pit_nearest pit
      in if nearest \<noteq> 0 then snd (board_consider_clock clock nearest io_source_ticks)
         else io_source_ticks)"

type_synonym board_observation = x86_core_machine_attachment_deadline_observation

text \<open>A consideration whose answer makes the observation immediate, made when a distance is known.\<close>

definition with_distance ::
  "('d \<Rightarrow> lib_u64 \<Rightarrow> bool \<times> lib_u64) \<Rightarrow> 'd ptr \<Rightarrow> board_observation \<Rightarrow> board_observation" where
  "with_distance f distance ob =
     (case distance of
        None \<Rightarrow> ob
      | Some d \<Rightarrow>
          (case f d (dl_source_ticks ob) of
             (due, source_ticks) \<Rightarrow>
               ob\<lparr>dl_source_ticks := source_ticks, dl_immediate_due := dl_immediate_due ob \<or> due\<rparr>))"

definition hold_poll :: "bool \<Rightarrow> board_observation \<Rightarrow> board_observation" where
  "hold_poll pending ob =
     (if pending \<and> (dl_source_ticks ob = 0 \<or> dl_source_ticks ob > 1)
      then ob\<lparr>dl_source_ticks := 1\<rparr> else ob)"

definition when_ptr :: "bool \<Rightarrow> 'd ptr \<Rightarrow> 'd ptr" where
  "when_ptr condition distance = (if condition then distance else None)"

definition consider_timers :: "'x board \<Rightarrow> board_observation \<Rightarrow> board_observation" where
  "consider_timers b ob =
     (if \<not> bd_timing_declarations_copied b then ob
      else
        let ticks = board_consider_pit (bd_pit b) (bd_pit_clock b) (dl_source_ticks ob)
        in ob\<lparr>dl_source_ticks :=
             (if bd_auxiliary_pit_configured b
              then board_consider_pit (bd_auxiliary_pit b) (bd_auxiliary_pit_clock b) ticks
              else ticks)\<rparr>)"

definition rtc_distance :: "x86_rtc ptr \<Rightarrow> lib_u64 ptr" where
  "rtc_distance rtc =
     (case x86_rtc_ticks_until_irq rtc (Some 0) of
        (status, out) \<Rightarrow> if status = LIB_STATUS_OK then out else None)"

definition pic_distance :: "pic_pair \<Rightarrow> lib_u64 ptr" where
  "pic_distance pic =
     (case x86_nxvm_board_pic_ticks_until_event (Some 0) pic of
        (status, out) \<Rightarrow> if status = LIB_STATUS_OK then out else None)"

definition consider_dma :: "('cb, 'p, 'x) board_core \<Rightarrow> board_observation \<Rightarrow> board_observation" where
  "consider_dma s ob =
     (if x86_nxvm_board_dma_request s \<and>
         \<not> (bd_timing_declarations_copied (the_board s) \<and> bd_dma_clock_explicit (the_board s))
      then ob\<lparr>dl_l1_compatibility := True, dl_fast_advance_blocked := True\<rparr> else ob)"

definition block_if_due :: "lib_u64 \<Rightarrow> lib_u64 ptr \<Rightarrow> board_observation \<Rightarrow> board_observation" where
  "block_if_due now due_tick ob =
     (case due_tick of None \<Rightarrow> ob
      | Some due \<Rightarrow> if due \<le> now then ob\<lparr>dl_fast_advance_blocked := True\<rparr> else ob)"

definition x86_nxvm_board_deadline_observe ::
  "('cb, 'p, 'x) board_env \<Rightarrow> ('cb, 'p, 'x) board_core \<Rightarrow> lib_u64 \<Rightarrow> board_observation" where
  "x86_nxvm_board_deadline_observe be s now =
     (let b = the_board s;
          declared = bd_timing_declarations_copied b;
          xt = (bd_keyboard_topology b = X86_NXVM_BOARD_KEYBOARD_TOPOLOGY_XT_PPI);
          ob = hold_poll (bd_refresh_hold_pending b) no_deadline;
          ob = hold_poll (x86_nxvm_board_cpu_hold_asserted be s) ob;
          ob = consider_dma s ob;
          ob = with_distance (board_consider_clock (bd_vadp_clock b))
                 (when_ptr (declared \<and> bd_vadp b) (be_video_ticks_until_event be s)) ob;
          ob = consider_timers b ob;
          ob = with_distance (board_consider_clock (bd_rtc_clock b))
                 (when_ptr (declared \<and> bd_rtc_cmos_configured b) (rtc_distance (bd_rtc b))) ob;
          ob = with_distance (board_consider_clock (bd_dma_clock b))
                 (when_ptr (x86_nxvm_board_dma_request s \<and> declared \<and> bd_dma_clock_explicit b) (Some 1)) ob;
          ob = block_if_due now (be_fdc_next_due_tick be s) ob;
          ob = with_distance (board_consider_absolute now) (be_fdc_next_due_tick be s) ob;
          ob = with_distance (board_consider_absolute now) (be_hdc_next_due_tick be s) ob;
          ob = with_distance (board_consider_absolute now)
                 (case be_profile_next_deadline be of None \<Rightarrow> None | Some next_tick \<Rightarrow> next_tick s now) ob;
          ob = with_distance (board_consider_clock (bd_kbc_clock b))
                 (when_ptr (bd_keyboard_topology b \<noteq> X86_NXVM_BOARD_KEYBOARD_TOPOLOGY_NONE)
                   (be_kbc_ticks_until_event be s)) ob;
          ob = with_distance board_consider_relative (pic_distance (bd_pic b)) ob
      in with_distance board_consider_relative (when_ptr xt (be_xt_keyboard_ticks_until_event be s)) ob)"

text \<open>
  The attachment: the board's callbacks in place of those of a scheduler environment, which keeps
  the processor's, the provider's and the timeline's.
\<close>

definition x86_nxvm_board_attachment ::
  "('cb, 'p, 'x) board_env \<Rightarrow> ('cb, 'p dma_bus \<times> 'x board) scheduler_env \<Rightarrow>
     ('cb, 'p dma_bus \<times> 'x board) scheduler_env" where
  "x86_nxvm_board_attachment be core =
     core\<lparr>en_deadline := Some (x86_nxvm_board_deadline_observe be),
       en_refresh_request := Some (x86_nxvm_board_refresh_request be),
       en_refresh_complete := Some (x86_nxvm_board_refresh_complete be),
       en_dma_ticks := Some x86_nxvm_board_dma_ticks,
       en_dma_request := Some x86_nxvm_board_dma_request,
       en_dma_advance := Some (x86_nxvm_board_dma_advance be),
       en_before_internal_advance := Some (x86_nxvm_board_before_internal_advance be),
       en_after_internal_advance := Some (x86_nxvm_board_after_internal_advance be)\<rparr>"

end
