(* ===== verification/Board_Run.thy ===== *)
theory Board_Run
  imports Board
begin

text \<open>
  The board keeps the contract of the scheduler. A locale states what the parts the board composes
  promise, the lemmas follow the callbacks, and an interpretation on a board without optional parts
  gives the scheduler's facts for the model itself.
\<close>

section \<open>The DMA service lends the bus\<close>

lemma lends_devices_run: "providers_ok env \<Longrightarrow> memory_ok (de_memory env) \<Longrightarrow> lends s (dma_bus_advance env word s)"
  using dma_bus_advance_step(1) unfolding advance_step_def by blast

lemma lends_dma_grants: "lends s (dma_advance_grant s)"
  by (auto simp: dma_advance_grant_def Let_def intro: lends_trans [OF lends_devices(1) lends_devices(1)])

lemma lends_dma_one:
  assumes "providers_ok env" "memory_ok (de_memory env)"
  shows "lends s (x86_nxvm_board_dma_advance_one env s)"
  using lends_devices_run [OF assms] lends_trans [OF lends_devices_run [OF assms] lends_devices(2)]
  by (simp add: x86_nxvm_board_dma_advance_one_def dma_advance_single_def dma_advance_pair_def Let_def
      lends_dma_grants)

lemma lends_dma_ticks:
  assumes "providers_ok env" "memory_ok (de_memory env)"
  shows "lends s (dma_ticks_loop env n s)"
proof (induction n arbitrary: s)
  case (Suc n)
  have "lends s (dma_tick env s)"
    unfolding dma_tick_def Let_def by (rule lends_trans [OF lends_dma_one [OF assms] lends_set_bus])
  then show ?case using lends_trans [OF _ Suc] by (simp add: Let_def)
qed simp

lemma lends_dma_service:
  "providers_ok env \<Longrightarrow> memory_ok (de_memory env) \<Longrightarrow>
    lends s (x86_nxvm_board_dma_advance_transaction env n s)"
  by (simp add: x86_nxvm_board_dma_advance_transaction_def lends_dma_ticks)

section \<open>Steps of the board\<close>

lemma set_board_simps [simp]:
  "fst (set_board f s) = fst s" "the_bus (set_board f s) = the_bus s"
  "the_board (set_board f s) = f (the_board s)"
  by (simp_all add: set_board_def)

lemma set_pic_simps [simp]:
  "fst (set_pic f s) = fst s" "the_bus (set_pic f s) = the_bus s"
  "the_board (set_pic f s) = (the_board s)\<lparr>bd_pic := f (bd_pic (the_board s))\<rparr>"
  by (simp_all add: set_pic_def)

lemma lends_same_core: "fst s' = fst s \<Longrightarrow> lends s s'"
  by (simp add: lends_def core_ok_def)

lemma lends_board [simp]: "lends s (set_board f s)" "lends s (set_pic g s)"
  by (simp_all add: lends_same_core)

lemma lends_clock [simp]: "lends s (snd (clock_run clock n s))"
  by (simp add: clock_run_def case_prod_beta)

lemma lends_fold: "(\<And>c s. lends s (f c s)) \<Longrightarrow> lends s (fold f cs s)"
proof (induction cs arbitrary: s)
  case (Cons c cs)
  show ?case using lends_trans [OF Cons.prems Cons.IH [OF Cons.prems]] by simp
qed simp

lemma lends_rtc [simp]: "lends s (run_rtc n s)"
  unfolding run_rtc_def Let_def by (rule lends_trans [OF lends_board(1) lends_fold]) simp

text \<open>A chain of steps, as the code writes it.\<close>

lemma lends_if: "lends s a \<Longrightarrow> lends s b \<Longrightarrow> lends s (if c then a else b)"
  by simp

lemma lends_let: "lends s t \<Longrightarrow> (\<And>u. lends s u \<Longrightarrow> lends s (f u)) \<Longrightarrow> lends s (let u = t in f u)"
  by simp

lemma lends_let_pair:
  "lends s (snd p) \<Longrightarrow> (\<And>a u. lends s u \<Longrightarrow> lends s (f a u)) \<Longrightarrow> lends s (let (a, u) = p in f a u)"
  by (simp add: case_prod_beta)

lemmas lends_chain = lends_if lends_let lends_let_pair lends_trans [OF _ lends_board(1)]
  lends_trans [OF _ lends_board(2)] lends_trans [OF _ lends_clock] lends_trans [OF _ lends_rtc]

section \<open>The contract of the parts\<close>

locale board_parts =
  fixes be :: "('cb, 'p, 'x) board_env" and core :: "('cb, 'p dma_bus \<times> 'x board) scheduler_env"
  assumes dma_providers: "providers_ok (be_dma be)"
    and dma_memory: "memory_ok (de_memory (be_dma be))"
    and profile_complete: "be_profile_refresh_complete be = Some f \<Longrightarrow> lends s (f s)"
    and profile_advance: "be_profile_advance be = Some g \<Longrightarrow> lends s (g n due s)"
    and profile_output: "lends s (be_profile_pit_output be p owner a s)"
    and refresh_pulse: "lends s (be_refresh_pulse be s)"
    and fdc_advance: "lends s (be_fdc_advance_at be due s)"
    and hdc_advance: "lends s (be_hdc_advance_at be due s)"
    and kbc_advance: "lends s (be_kbc_advance be n s)"
    and xt_advance: "lends s (be_xt_keyboard_advance be n s)"
    and vadp_advance: "lends s (be_vadp_advance be n s)"
    and provider_time: "en_provider_advance_time core = Some h \<Longrightarrow> lends s (h n s)"
    and cpu_bus: "lends s (en_cpu_advance_bus core n free k s)"
    and cpu_prefetch: "lends s (en_cpu_advance_prefetch_reservation core s)"
    and callback_time: "mc_elapsed_ticks (fst (snd (timeline_call (en_timeline_callback core cb due s) tm))) =
        mc_elapsed_ticks (fst s)"
    and callback_bus: "bus_lent (fst s) (fst (snd (timeline_call (en_timeline_callback core cb due s) tm)))"
begin

lemma lends_refresh_output: "lends s (x86_nxvm_board_refresh_pit_output be a s)"
  by (simp add: x86_nxvm_board_refresh_pit_output_def Let_def lends_trans [OF lends_board(1) refresh_pulse]
      refresh_pulse)

lemma lends_pit_call: "lends s (pit_call be c s)"
  by (cases c) (simp add: pit_call_def lends_refresh_output profile_output)

lemma lends_pit: "lends s (run_pit be n s)" "lends s (run_auxiliary_pit be n s)"
  unfolding run_pit_def run_auxiliary_pit_def Let_def
  by (rule lends_trans [OF lends_board(1) lends_fold], rule lends_pit_call)+

lemma lends_keyboard: "lends s (advance_keyboard be n k s)"
  by (simp add: advance_keyboard_def xt_advance kbc_advance)

lemma lends_profile: "lends s (call_advance (be_profile_advance be) n due s)"
  by (simp add: call_advance_def call_optional_def profile_advance split: option.split)

lemmas lends_parts = lends_chain lends_trans [OF _ lends_pit(1)] lends_trans [OF _ lends_pit(2)]
  lends_trans [OF _ lends_keyboard] lends_trans [OF _ lends_profile] lends_trans [OF _ fdc_advance]
  lends_trans [OF _ hdc_advance] lends_trans [OF _ vadp_advance]

lemma lends_before: "lends s (x86_nxvm_board_before_internal_advance be n due s)"
  unfolding x86_nxvm_board_before_internal_advance_def by (intro lends_parts lends_refl)

lemma lends_after: "lends s (x86_nxvm_board_after_internal_advance be n due s)"
  unfolding x86_nxvm_board_after_internal_advance_def by (intro lends_parts lends_refl)

lemma lends_complete: "lends s (x86_nxvm_board_refresh_complete be s)"
  by (simp add: x86_nxvm_board_refresh_complete_def profile_complete split: option.split)

lemma lends_ticks: "lends s (snd (x86_nxvm_board_dma_ticks n s))"
  by (simp add: x86_nxvm_board_dma_ticks_def)

lemma lends_service: "lends s (x86_nxvm_board_dma_advance be n s)"
  by (simp add: x86_nxvm_board_dma_advance_def lends_dma_service dma_providers dma_memory)

end

text \<open>A board whose parts keep their promises is a client of the scheduler.\<close>

sublocale board_parts \<subseteq> board: scheduler_client "x86_nxvm_board_attachment be core"
  by unfold_locales
    (auto simp: x86_nxvm_board_attachment_def lends_before lends_after lends_complete lends_ticks
      lends_service provider_time cpu_bus cpu_prefetch callback_time callback_bus)

section \<open>The board's deadline covers its chips\<close>

text \<open>A distance that comes at least as soon; zero stands for none.\<close>

definition sooner :: "lib_u64 \<Rightarrow> lib_u64 \<Rightarrow> bool" where
  "sooner a b \<longleftrightarrow> b = 0 \<or> a \<noteq> 0 \<and> a \<le> b"

lemma sooner_refl [simp]: "sooner a a"
  by (simp add: sooner_def)

lemma sooner_trans: "sooner a b \<Longrightarrow> sooner b c \<Longrightarrow> sooner a c"
  by (auto simp: sooner_def)

lemma sooner_relative: "sooner (snd (board_consider_relative t io)) io" "sooner (snd (board_consider_relative t io)) t"
  by (auto simp: board_consider_relative_def sooner_def)

lemma sooner_clock: "sooner (snd (board_consider_clock clock d io)) io"
  by (auto simp: board_consider_clock_def sooner_relative split: prod.split)

lemma sooner_absolute: "sooner (snd (board_consider_absolute now d io)) io"
  by (simp add: board_consider_absolute_def sooner_relative)

lemma sooner_with:
  assumes "\<And>d io. sooner (snd (f d io)) io"
  shows "sooner (dl_source_ticks (with_distance f x ob)) (dl_source_ticks ob)"
  using assms [of "the x" "dl_source_ticks ob"]
  by (cases x) (simp_all add: with_distance_def case_prod_beta)

text \<open>The stages of the observation, on top of which later ones only come nearer.\<close>

lemma sooner_stage:
  "sooner (dl_source_ticks ob) t \<Longrightarrow> sooner (dl_source_ticks (with_distance (board_consider_clock c) x ob)) t"
  "sooner (dl_source_ticks ob) t \<Longrightarrow> sooner (dl_source_ticks (with_distance (board_consider_absolute now) x ob)) t"
  "sooner (dl_source_ticks ob) t \<Longrightarrow> sooner (dl_source_ticks (with_distance board_consider_relative x ob)) t"
  "sooner (dl_source_ticks ob) t \<Longrightarrow> sooner (dl_source_ticks (block_if_due now due ob)) t"
  using sooner_trans [OF sooner_with [of "board_consider_clock c" x ob, OF sooner_clock]]
    sooner_trans [OF sooner_with [of "board_consider_absolute now" x ob, OF sooner_absolute]]
    sooner_trans [OF sooner_with [of board_consider_relative x ob, OF sooner_relative(1)]]
  by (simp_all add: block_if_due_def split: option.split)

definition until_ticks :: "x86_core_machine_clock_domain \<Rightarrow> lib_u64 \<Rightarrow> lib_u64 option" where
  "until_ticks clock d =
     (case x86_core_machine_clock_domain_source_ticks_until (Some clock) d (Some 0) of
        (status, out) \<Rightarrow> if status = LIB_STATUS_OK then out else None)"

lemma until_some: "x86_core_machine_clock_domain_source_ticks_until (Some clock) d (Some 0) = (status, out) \<Longrightarrow>
    out \<noteq> None"
  by (auto simp: Let_def split: if_splits)

lemma until_zero: "until_ticks clock 0 = None"
  by (simp add: until_ticks_def)

lemma sooner_until: "until_ticks clock d = Some t \<Longrightarrow> sooner (snd (board_consider_clock clock d io)) t"
  using until_zero [of clock]
  by (auto simp: board_consider_clock_def until_ticks_def sooner_relative(2) split: prod.splits if_splits
      simp del: x86_core_machine_clock_domain_source_ticks_until.simps)

lemma sooner_with_until:
  "until_ticks clock d = Some t \<Longrightarrow>
    sooner (dl_source_ticks (with_distance (board_consider_clock clock) (Some d) ob)) t"
  using sooner_until [of clock d t "dl_source_ticks ob"] by (simp add: with_distance_def case_prod_beta)

lemma sooner_pit: "sooner (board_consider_pit pit clock io) io"
  by (simp add: board_consider_pit_def Let_def sooner_clock)

lemma sooner_pit_until:
  "pit_nearest pit \<noteq> 0 \<Longrightarrow> until_ticks clock (pit_nearest pit) = Some t \<Longrightarrow> sooner (board_consider_pit pit clock io) t"
  by (simp add: board_consider_pit_def Let_def sooner_until)

text \<open>Before the source ticks the query answers, the domain delivers fewer ticks than asked for.\<close>

lemma clock_before:
  assumes inv: "clock_inv c" and t: "until_ticks c d = Some t" and n: "n < t"
  shows "fst (x86_core_machine_clock_domain_advance (Some c) n) < d"
proof -
  let ?D = "unat (cd_denominator c)" and ?N = "unat (cd_numerator c)" and ?P = "unat (cd_phase c)"
  have D: "0 < ?D" and N: "0 < ?N" using clock_inv_pos [OF inv] by simp_all
  obtain status out where q: "x86_core_machine_clock_domain_source_ticks_until (Some c) d (Some 0) = (status, out)"
    by (metis surj_pair)
  then have "x86_core_machine_clock_domain_source_ticks_until (Some c) d (Some 0) = (LIB_STATUS_OK, Some t)"
    using t by (auto simp: until_ticks_def split: if_splits simp del: x86_core_machine_clock_domain_source_ticks_until.simps)
  note V = clock_until_value [OF inv this, unfolded Let_def]
  then have v: "?P < unat d * ?D" "unat t = (unat d * ?D - ?P) div ?N + of_bool ((unat d * ?D - ?P) mod ?N \<noteq> 0)"
    by blast+
  have pos: "0 < unat d * ?D - ?P" using v(1) by simp
  have "(unat t - 1) * ?N < unat d * ?D - ?P"
    using ceil_div_least(2) [OF N pos, folded v(2)] .
  moreover have "unat n \<le> unat t - 1" using n by (simp add: word_less_nat_alt)
  then have "unat n * ?N \<le> (unat t - 1) * ?N" by simp
  ultimately have "unat n * ?N + ?P < unat d * ?D" by linarith
  then have "clock_ticks c (unat n) < unat d"
    using D by (simp add: clock_ticks_def clock_scaled_def div_less_iff_less_mult)
  moreover from this have "clock_ticks c (unat n) < 2 ^ 64"
    using unsigned_less [of d, where 'a = nat] by simp
  then have "unat (of_nat (clock_ticks c (unat n)) :: lib_u64) = clock_ticks c (unat n)"
    by (simp add: unat_of_nat)
  ultimately show ?thesis by (simp add: clock_advance_exact [OF inv] word_less_nat_alt)
qed

lemma until_small:
  assumes "clock_inv c" "d \<noteq> 0" "d \<le> ucast LIB_UINT32_MAX"
  shows "\<exists>t. until_ticks c d = Some t"
  using clock_until_total [OF assms(1,2), of 0] assms(3)
  by (auto simp: until_ticks_def simp del: x86_core_machine_clock_domain_source_ticks_until.simps)

lemma until_pos: "until_ticks c d = Some t \<Longrightarrow> t \<noteq> 0"
  by (auto simp: until_ticks_def Let_def split: if_splits)

lemma max32: "unat LIB_UINT32_MAX = 4294967295"
  by (simp add: LIB_UINT32_MAX_def unsigned_minus_1_eq_mask mask_eq_exp_minus_1)

lemma ucast_max32: "(ucast (w :: lib_u32) :: lib_u64) \<le> ucast LIB_UINT32_MAX"
  using unat_u32_lt [of w] by (simp add: word_le_nat_alt max32 del: unat_u32_lt)

section \<open>The timers\<close>

lemma pit_distance:
  assumes "pit_ok p" "k < 3"
  obtains (asked) d where "x86_pit_ticks_until_output (Some p) k (Some 0) = (LIB_STATUS_OK, Some d)"
      "d \<noteq> 0" "d \<le> ucast LIB_UINT32_MAX"
      "\<And>m. unat m < unat d \<Longrightarrow> pc_flagOutput (ctr ((pit_clock ^^ unat (m :: lib_u64)) p) k) = pc_flagOutput (ctr p k)"
    | (idle) "fst (x86_pit_ticks_until_output (Some p) k (Some 0)) \<noteq> LIB_STATUS_OK"
      "\<And>n. pc_flagOutput (ctr ((pit_clock ^^ n) p) k) = pc_flagOutput (ctr p k)"
proof -
  have cok: "counter_ok (x86_pit_mode p k) (ctr p k)" using assms by (simp add: pit_ok_def)
  note eq = ticks_until_eq [OF assms(2) cok, of 0]
  consider "counter_requests p k" | "\<not> counter_requests p k" "counter_running p k"
    | "\<not> counter_requests p k" "\<not> counter_running p k" by blast
  then show ?thesis
  proof cases
    case 1
    then show ?thesis
      by (intro asked [of 1]) (simp_all add: eq word_le_nat_alt max32 del: x86_pit_ticks_until_output.simps)
  next
    case 2
    have "counter_deadline p k \<noteq> 0"
      using deadline_neq_0 [OF cok] 2 by (simp add: counter_running_def)
    moreover have "(ucast (counter_deadline p k) :: lib_u64) \<le> ucast LIB_UINT32_MAX" by (rule ucast_max32)
    ultimately show ?thesis
      using 2 running_until [OF assms 2(2)]
      by (intro asked [of "ucast (counter_deadline p k)"]) (simp_all add: eq del: x86_pit_ticks_until_output.simps)
  next
    case 3
    then show ?thesis using idle_forever [OF assms 3]
      by (intro idle) (simp_all add: eq del: x86_pit_ticks_until_output.simps)
  qed
qed

lemma fold_three: "fold f [0..<3] x = f 2 (f (Suc 0) (f 0 x))"
  by (simp add: upt_rec numeral_3_eq_3 numeral_2_eq_2)

text \<open>The nearest distance of the three counters.\<close>

definition nearest_step :: "lib_status \<times> lib_u64 ptr \<Rightarrow> lib_u64 \<Rightarrow> lib_u64" where
  "nearest_step answer nearest = (case answer of (status, out) \<Rightarrow>
     if status \<noteq> LIB_STATUS_OK then nearest
     else if nearest = 0 \<or> the out < nearest then the out else nearest)"

lemma nearest_sooner: "(fst a = LIB_STATUS_OK \<Longrightarrow> the (snd a) \<noteq> 0) \<Longrightarrow> sooner (nearest_step a v) v"
  by (auto simp: nearest_step_def sooner_def split: prod.split)

lemma nearest_hit: "a = (LIB_STATUS_OK, Some d) \<Longrightarrow> d \<noteq> 0 \<Longrightarrow> sooner (nearest_step a v) d"
  by (auto simp: nearest_step_def sooner_def)

lemma nearest_from: "nearest_step a v = v \<or> nearest_step a v = the (snd a) \<and> fst a = LIB_STATUS_OK"
  by (auto simp: nearest_step_def split: prod.split)

lemma pit_nearest_alt:
  "pit_nearest pit = nearest_step (x86_pit_ticks_until_output pit 2 (Some 0))
    (nearest_step (x86_pit_ticks_until_output pit (Suc 0) (Some 0))
      (nearest_step (x86_pit_ticks_until_output pit 0 (Some 0)) 0))"
  by (simp add: pit_nearest_def fold_three nearest_step_def del: x86_pit_ticks_until_output.simps)

lemma pit_answer:
  assumes "pit_ok p" "k < 3" "fst (x86_pit_ticks_until_output (Some p) k (Some 0)) = LIB_STATUS_OK"
  shows "the (snd (x86_pit_ticks_until_output (Some p) k (Some 0))) \<noteq> 0"
    "the (snd (x86_pit_ticks_until_output (Some p) k (Some 0))) \<le> ucast LIB_UINT32_MAX"
  using pit_distance [OF assms(1,2)] assms(3) by (metis option.sel snd_conv)+

lemma pit_nearest_sooner:
  assumes ok: "pit_ok p" and k: "k < 3" and d: "x86_pit_ticks_until_output (Some p) k (Some 0) = (LIB_STATUS_OK, Some d)"
  shows "sooner (pit_nearest (Some p)) d"
proof -
  have hit: "sooner (nearest_step (x86_pit_ticks_until_output (Some p) k (Some 0)) v) d" for v
    using pit_answer(1) [OF ok k] by (intro nearest_hit) (simp_all add: d del: x86_pit_ticks_until_output.simps)
  have keep: "sooner (nearest_step (x86_pit_ticks_until_output (Some p) j (Some 0)) v) d" if "j < 3" "sooner v d" for j v
    by (rule sooner_trans [OF nearest_sooner [OF pit_answer(1) [OF ok that(1)]] that(2)])
  have "k = 0 \<or> k = Suc 0 \<or> k = 2" using k by auto
  then show ?thesis unfolding pit_nearest_alt by (elim disjE) (use hit keep in simp_all)
qed

lemma pit_nearest_small:
  assumes "pit_ok p"
  shows "pit_nearest (Some p) \<le> ucast LIB_UINT32_MAX"
proof -
  have step: "nearest_step a v \<le> ucast LIB_UINT32_MAX"
    if "v \<le> ucast LIB_UINT32_MAX" "fst a = LIB_STATUS_OK \<Longrightarrow> the (snd a) \<le> ucast LIB_UINT32_MAX" for a v
    using nearest_from [of a v] that by auto
  show ?thesis unfolding pit_nearest_alt
    by (intro step pit_answer(2) [OF assms]) simp_all
qed

text \<open>No output changes before the distance the board considers for a timer.\<close>

lemma pit_quiet:
  assumes ok: "pit_ok p" and inv: "clock_inv c" and near: "n < ob"
    and s: "sooner ob (board_consider_pit (Some p) c io)" and k: "k < 3"
  shows "pc_flagOutput (ctr ((pit_clock ^^ unat (fst (x86_core_machine_clock_domain_advance (Some c) n))) p) k) =
    pc_flagOutput (ctr p k)"
  using ok k
proof (cases rule: pit_distance)
  case (asked d)
  let ?near = "pit_nearest (Some p)"
  have nd: "sooner ?near d" by (rule pit_nearest_sooner [OF ok k asked(1)])
  then have nz: "?near \<noteq> 0" "?near \<le> d" using asked(2) by (auto simp: sooner_def)
  obtain t where t: "until_ticks c ?near = Some t" using until_small [OF inv nz(1) pit_nearest_small [OF ok]] by blast
  have "sooner ob t" by (rule sooner_trans [OF s sooner_pit_until [OF nz(1) t]])
  moreover have "t \<noteq> 0" by (rule until_pos [OF t])
  ultimately have "n < t" using near by (auto simp: sooner_def)
  from clock_before [OF inv t this] nz(2)
  have "unat (fst (x86_core_machine_clock_domain_advance (Some c) n)) < unat d"
    by (simp add: word_less_nat_alt word_le_nat_alt)
  then show ?thesis by (rule asked(4))
qed simp

section \<open>The clock\<close>

lemma rtc_run_frame:
  assumes "rtc_phase_ok r"
  shows "rt_calls (rtc_advance_seconds n (rtc_advance_periodic n r)) = rt_calls r"
    "rtc_irq (rtc_advance_seconds n (rtc_advance_periodic n r)) = rtc_irq r"
proof -
  obtain t k where s: "rtc_advance_seconds n (rtc_advance_periodic n r) =
      (rtc_second_step ^^ k) (set_cal (rc_second_ticks_update (\<lambda>_. t)) (rtc_advance_periodic n r))"
    using advance_seconds_alt [OF advance_periodic_phase [OF assms, of n], of n] by blast
  show "rt_calls (rtc_advance_seconds n (rtc_advance_periodic n r)) = rt_calls r"
    "rtc_irq (rtc_advance_seconds n (rtc_advance_periodic n r)) = rtc_irq r"
    by (simp_all add: s second_steps_fields)
qed

lemma rtc_quiet:
  assumes ok: "rtc_ok r" "\<not> rtc_irq r" and run: "rtc_divider_running r" and quiet: "\<not> rtc_fires r n"
  shows "\<not> rtc_irq (the (x86_rtc_advance (Some r) n))" "rt_calls (the (x86_rtc_advance (Some r) n)) = rt_calls r"
proof -
  let ?s = "rtc_advance_seconds n (rtc_advance_periodic n r)"
  have phase: "rtc_phase_ok r" using ok(1) by (simp add: rtc_ok_def)
  show low: "\<not> rtc_irq (the (x86_rtc_advance (Some r) n))"
    using irq_after_advance [OF ok run] quiet by blast
  show "rt_calls (the (x86_rtc_advance (Some r) n)) = rt_calls r"
    using low run ok(2) by (auto simp: refresh_irq_calls rtc_run_frame [OF phase] split: if_splits)
qed

section \<open>What the scheduler may sleep through\<close>

text \<open>The ticks a clock domain of the board delivers for an interval.\<close>

definition delivered :: "x86_core_machine_clock_domain \<Rightarrow> lib_u64 \<Rightarrow> lib_u64" where
  "delivered c n = fst (x86_core_machine_clock_domain_advance (Some c) n)"

lemma clock_run_delivered: "clock_run clock n s =
    (delivered (fst clock (the_board s)) n,
     set_board (snd clock (the (snd (x86_core_machine_clock_domain_advance (Some (fst clock (the_board s))) n)))) s)"
  by (simp add: clock_run_def delivered_def case_prod_beta)

lemma observe_timers:
  assumes "bd_timing_declarations_copied (the_board s)"
  obtains io where
    "sooner (dl_source_ticks (x86_nxvm_board_deadline_observe be s now))
       (board_consider_pit (bd_pit (the_board s)) (bd_pit_clock (the_board s)) io)"
    "bd_auxiliary_pit_configured (the_board s) \<Longrightarrow>
      sooner (dl_source_ticks (x86_nxvm_board_deadline_observe be s now))
       (board_consider_pit (bd_auxiliary_pit (the_board s)) (bd_auxiliary_pit_clock (the_board s))
         (board_consider_pit (bd_pit (the_board s)) (bd_pit_clock (the_board s)) io))"
proof -
  let ?b = "the_board s"
  define ob where "ob = with_distance (board_consider_clock (bd_vadp_clock ?b))
    (when_ptr (bd_timing_declarations_copied ?b \<and> bd_vadp ?b) (be_video_ticks_until_event be s))
    (consider_dma s (hold_poll (x86_nxvm_board_cpu_hold_asserted be s)
      (hold_poll (bd_refresh_hold_pending ?b) no_deadline)))"
  let ?pit = "board_consider_pit (bd_pit ?b) (bd_pit_clock ?b) (dl_source_ticks ob)"
  have s: "sooner (dl_source_ticks (consider_timers ?b ob)) t \<Longrightarrow>
      sooner (dl_source_ticks (x86_nxvm_board_deadline_observe be s now)) t" for t
    unfolding x86_nxvm_board_deadline_observe_def Let_def ob_def
    by (rule sooner_stage | assumption)+
  show thesis
    by (rule that [of "dl_source_ticks ob"])
      (auto intro!: s simp: consider_timers_def assms Let_def sooner_pit)
qed

lemma observe_rtc:
  assumes "bd_timing_declarations_copied (the_board s)" "bd_rtc_cmos_configured (the_board s)"
    "rtc_distance (bd_rtc (the_board s)) = Some d" "until_ticks (bd_rtc_clock (the_board s)) d = Some t"
  shows "sooner (dl_source_ticks (x86_nxvm_board_deadline_observe be s now)) t"
proof -
  have w: "when_ptr (bd_timing_declarations_copied (the_board s) \<and> bd_rtc_cmos_configured (the_board s))
      (rtc_distance (bd_rtc (the_board s))) = Some d"
    using assms by (simp add: when_ptr_def)
  show ?thesis
    unfolding x86_nxvm_board_deadline_observe_def Let_def w
    by (rule sooner_with_until [OF assms(4)] | rule sooner_stage)+
qed

section \<open>The refresh cycle\<close>

lemma refresh_started:
  assumes "bus_is_free (fst s)" "ct_refresh_cycle_source_ticks (mc_contract (fst s)) \<noteq> 0"
  shows "\<exists>w. refresh_start env address s =
      set_refresh_remaining (ct_refresh_cycle_source_ticks (mc_contract (fst s))) (set_transaction (Some w) s) \<and>
    bus_of w = (X86_CORE_MACHINE_TRANSACTION_OWNER_REFRESH, X86_CORE_MACHINE_TRANSACTION_OWNER_REFRESH, True)"
proof -
  let ?R = "X86_CORE_MACHINE_TRANSACTION_OWNER_REFRESH"
  obtain st t where q: "x86_core_machine_transaction_hold_request ?R (ucast address)
      (Some (mc_transaction (fst s))) = (st, t)" by fastforce
  from bus_request [OF q] assms(1) obtain u where ok: "st = LIB_STATUS_OK"
    and t: "t = Some u" "bus_of u = (NO_OWNER, ?R, False)"
    by (auto simp: bus_is_free_def)
  obtain st' t' where a: "x86_core_machine_transaction_hold_acknowledge ?R (Some u) = (st', t')"
    by fastforce
  from bus_acknowledge [OF a t(2)] obtain v where ok': "st' = LIB_STATUS_OK" "t' = Some v"
    and bv: "bus_of v = (NO_OWNER, ?R, True)" by auto
  obtain st'' t'' where g: "x86_core_machine_transaction_begin ?R
      X86_CORE_MACHINE_TRANSACTION_REFRESH_MEMORY_CYCLE (ucast address) 0 0 (Some v) = (st'', t'')"
    by fastforce
  from bus_begin [OF g bv] obtain w where ok'': "st'' = LIB_STATUS_OK" "t'' = Some w"
    and bw: "bus_of w = (?R, ?R, True)" by auto
  show ?thesis
    using q a g assms(2) bw by (intro exI [of _ w]) (simp add: refresh_start_def ok ok' ok'' t(1) Let_def)
qed

text \<open>A cycle in progress, and the world behind it.\<close>

definition refreshing :: "nat \<Rightarrow> ('cb, 'w) core \<Rightarrow> 'w \<Rightarrow> bool" where
  "refreshing n s w \<longleftrightarrow> 0 < n \<and> unat (mc_refresh_cycle_ticks_remaining (fst s)) = n \<and> snd s = w \<and>
     bus_of (mc_transaction (fst s)) =
       (X86_CORE_MACHINE_TRANSACTION_OWNER_REFRESH, X86_CORE_MACHINE_TRANSACTION_OWNER_REFRESH, True)"

lemma set_refresh_snd [simp]: "snd (set_refresh_remaining n s) = snd s" "snd (set_transaction t s) = snd s"
  by (simp_all add: set_refresh_remaining_def set_transaction_def)

lemma refreshing_step:
  assumes "refreshing r s w" "unat n < r"
  shows "refreshing (r - unat n) (x86_core_machine_refresh_hold_advance env n s) w"
proof -
  let ?r = "mc_refresh_cycle_ticks_remaining (fst s)"
  have r: "unat ?r = r" "?r \<noteq> 0" using assms(1) by (auto simp: refreshing_def)
  have n: "n < ucast ?r" using assms(2) r by (simp add: word_less_nat_alt)
  have "unat n < 2 ^ 32" using assms(2) r(1) unsigned_less [of ?r, where 'a = nat] by simp
  then have small: "unat (ucast n :: lib_u32) = unat n" by (simp add: unsigned_ucast_eq take_bit_nat_eq_self)
  then have "(ucast n :: lib_u32) \<le> ?r" using assms(2) r(1) by (simp add: word_le_nat_alt)
  then have "unat (?r - ucast n) = r - unat n" by (simp add: unat_sub small r(1))
  then show ?thesis using assms n r(2)
    by (simp add: refreshing_def x86_core_machine_refresh_hold_advance_def refresh_continue_def Let_def)
qed

lemma refreshing_slices:
  "refreshing r s w \<Longrightarrow> sum_list (map unat ns) < r \<Longrightarrow>
    refreshing (r - sum_list (map unat ns)) (fold (x86_core_machine_refresh_hold_advance env) ns s) w"
proof (induction ns arbitrary: r s)
  case (Cons n ns)
  have "refreshing (r - unat n) (x86_core_machine_refresh_hold_advance env n s) w"
    using refreshing_step [OF Cons.prems(1)] Cons.prems(2) by simp
  from Cons.IH [OF this] Cons.prems(2) show ?case by simp
qed simp

lemma refreshing_finish:
  assumes r: "refreshing r s w" and n: "r \<le> unat n"
    and call: "en_refresh_complete env = Some f" "\<And>t. fst (f t) = fst t"
  shows "\<exists>t. snd t = w \<and> snd (x86_core_machine_refresh_hold_advance env n s) = snd (f t) \<and>
    mc_refresh_cycle_ticks_remaining (fst (x86_core_machine_refresh_hold_advance env n s)) = 0 \<and>
    bus_is_free (fst (x86_core_machine_refresh_hold_advance env n s))"
proof -
  let ?R = "X86_CORE_MACHINE_TRANSACTION_OWNER_REFRESH"
  let ?t = "commit_transaction (set_refresh_remaining 0 s)"
  have nz: "mc_refresh_cycle_ticks_remaining (fst s) \<noteq> 0"
    and ge: "\<not> n < ucast (mc_refresh_cycle_ticks_remaining (fst s))"
    using r n by (auto simp: refreshing_def word_less_nat_alt)
  obtain u where u: "x86_core_machine_transaction_commit (Some (mc_transaction (fst s))) = Some u"
    "bus_of u = (NO_OWNER, ?R, True)"
    using bus_commit [of "mc_transaction (fst s)"] r by (auto simp: refreshing_def bus_of_def)
  obtain v where v: "x86_core_machine_transaction_hold_release ?R (Some u) = Some v"
    "bus_of v = (NO_OWNER, NO_OWNER, False)"
    using bus_release [OF u(2)] by auto
  have t: "mc_transaction (fst ?t) = u" "snd ?t = snd s" "mc_refresh_cycle_ticks_remaining (fst ?t) = 0"
    by (simp_all add: commit_transaction_def u(1))
  have "x86_core_machine_refresh_hold_advance env n s = set_transaction (Some v) (f ?t)"
    using nz ge t v(1) call
    by (simp add: x86_core_machine_refresh_hold_advance_def refresh_continue_def Let_def refresh_complete_def
        call_optional_def release_hold_def)
  then show ?thesis
    using r v(2) t call(2) by (intro exI [of _ ?t]) (simp add: refreshing_def bus_is_free_def bus_of_def)
qed

lemma attachment_refresh [simp]:
  "refresh_requested (x86_nxvm_board_attachment be core) s =
    (if fst (x86_nxvm_board_refresh_request be s) then Some (snd (x86_nxvm_board_refresh_request be s)) else None)"
  "en_refresh_complete (x86_nxvm_board_attachment be core) = Some (x86_nxvm_board_refresh_complete be)"
  "en_deadline (x86_nxvm_board_attachment be core) = Some (x86_nxvm_board_deadline_observe be)"
  by (simp_all add: refresh_requested_def x86_nxvm_board_attachment_def)

text \<open>C11: a refresh the board requests on a free bus is one cycle, however the scheduler slices its
  time: from the first slice on the refresh owns the bus under an acknowledged hold and the request
  and the row stand; the slice that reaches the contract's length ends the cycle, frees the bus,
  clears the request and moves on to the next row.\<close>

theorem board_refresh_cycle:
  assumes profile: "be_profile_refresh_request be = None" "be_profile_refresh_complete be = None"
    and pending: "bd_refresh_hold_pending (the_board s)"
    and free: "bus_is_free (fst s)" "mc_refresh_cycle_ticks_remaining (fst s) = 0"
    and length: "ct_refresh_cycle_source_ticks (mc_contract (fst s)) = cycle" "cycle \<noteq> 0"
    and env: "env = x86_nxvm_board_attachment be core"
    and s1: "s1 = fold (x86_core_machine_refresh_hold_advance env) (start # slices) s"
      "sum_list (map unat slices) < unat cycle"
    and s2: "s2 = x86_core_machine_refresh_hold_advance env final s1"
      "unat cycle \<le> sum_list (map unat slices) + unat final"
  shows "unat (mc_refresh_cycle_ticks_remaining (fst s1)) = unat cycle - sum_list (map unat slices) \<and>
    bus_of (mc_transaction (fst s1)) =
      (X86_CORE_MACHINE_TRANSACTION_OWNER_REFRESH, X86_CORE_MACHINE_TRANSACTION_OWNER_REFRESH, True) \<and>
    snd s1 = snd s \<and>
    mc_refresh_cycle_ticks_remaining (fst s2) = 0 \<and> bus_is_free (fst s2) \<and>
    \<not> bd_refresh_hold_pending (the_board s2) \<and>
    bd_refresh_row (the_board s2) = bd_refresh_row (the_board s) + 1"
proof -
  have "refreshing (unat cycle) (x86_core_machine_refresh_hold_advance env start s) (snd s)"
    using refresh_started [OF free(1), of env "bd_refresh_row (the_board s)"] length pending free(2) profile
    by (auto simp: x86_core_machine_refresh_hold_advance_def env x86_nxvm_board_refresh_request_def
        refreshing_def unat_gt_0)
  from refreshing_slices [OF this s1(2)]
  have r: "refreshing (unat cycle - sum_list (map unat slices)) s1 (snd s)" by (simp add: s1(1))
  have "unat cycle - sum_list (map unat slices) \<le> unat final" using s2(2) by simp
  moreover have "en_refresh_complete env = Some (x86_nxvm_board_refresh_complete be)" by (simp add: env)
  moreover have "fst (x86_nxvm_board_refresh_complete be t) = fst t" for t
    by (simp add: x86_nxvm_board_refresh_complete_def profile)
  ultimately obtain t where t: "snd t = snd s" "snd s2 = snd (x86_nxvm_board_refresh_complete be t)"
    "mc_refresh_cycle_ticks_remaining (fst s2) = 0" "bus_is_free (fst s2)"
    unfolding s2(1) using refreshing_finish [OF r] by blast
  then show ?thesis using r pending
    by (simp add: refreshing_def x86_nxvm_board_refresh_complete_def profile)
qed

text \<open>C3: what the board reports as its next deadline covers its chips: for every interval shorter than
  the distance it reports, no output of its interval timers changes, and advancing the clock by what
  its clock domain delivers leaves the interrupt controllers as they are, when the clock's interrupt
  is low and its announced distance converts.\<close>

theorem board_no_missed_edge:
  assumes near: "n < dl_source_ticks (x86_nxvm_board_deadline_observe be s now)"
    and copied: "bd_timing_declarations_copied (the_board s)"
    and pit: "bd_pit (the_board s) = Some p" "pit_reachable p" "clock_inv (bd_pit_clock (the_board s))"
    and rtc: "bd_rtc_cmos_configured (the_board s)" "bd_rtc (the_board s) = Some r" "rtc_reachable r"
      "\<not> rtc_irq r" "clock_inv (bd_rtc_clock (the_board s))"
      "rtc_distance (Some r) = Some d" "until_ticks (bd_rtc_clock (the_board s)) d \<noteq> None"
    and run: "clock_run pit_clock_domain n s = (pit_ticks, s1)"
      "clock_run auxiliary_pit_clock n s = (auxiliary_ticks, s2)" "clock_run rtc_clock n s = (rtc_ticks, s3)"
  shows "(\<forall>k<3. x86_pit_get_output (x86_pit_advance (Some p) pit_ticks) k = x86_pit_get_output (Some p) k) \<and>
    (\<forall>q. bd_auxiliary_pit_configured (the_board s) \<and> bd_auxiliary_pit (the_board s) = Some q \<and>
        pit_reachable q \<and> clock_inv (bd_auxiliary_pit_clock (the_board s)) \<longrightarrow>
      (\<forall>k<3. x86_pit_get_output (x86_pit_advance (Some q) auxiliary_ticks) k = x86_pit_get_output (Some q) k)) \<and>
    bd_pic (the_board (run_rtc rtc_ticks s3)) = bd_pic (the_board s)"
proof -
  obtain io where timers:
    "sooner (dl_source_ticks (x86_nxvm_board_deadline_observe be s now))
       (board_consider_pit (bd_pit (the_board s)) (bd_pit_clock (the_board s)) io)"
    "bd_auxiliary_pit_configured (the_board s) \<Longrightarrow>
      sooner (dl_source_ticks (x86_nxvm_board_deadline_observe be s now))
       (board_consider_pit (bd_auxiliary_pit (the_board s)) (bd_auxiliary_pit_clock (the_board s))
         (board_consider_pit (bd_pit (the_board s)) (bd_pit_clock (the_board s)) io))"
    using observe_timers [OF copied] by blast
  have ticks: "pit_ticks = delivered (bd_pit_clock (the_board s)) n"
    "auxiliary_ticks = delivered (bd_auxiliary_pit_clock (the_board s)) n"
    "rtc_ticks = delivered (bd_rtc_clock (the_board s)) n" "bd_pic (the_board s3) = bd_pic (the_board s)"
    "bd_rtc (the_board s3) = Some r"
    using run rtc(2) by (auto simp: clock_run_delivered pit_clock_domain_def auxiliary_pit_clock_def rtc_clock_def)
  have out: "x86_pit_get_output (x86_pit_advance (Some q) (delivered c n)) k = x86_pit_get_output (Some q) k"
    if "pit_reachable q" "clock_inv c" "k < 3"
      "sooner (dl_source_ticks (x86_nxvm_board_deadline_observe be s now)) (board_consider_pit (Some q) c io')"
    for q c k io'
    using pit_quiet [OF reachable_ok [OF that(1)] that(2) near that(4,3)] that(3) by (simp add: delivered_def)
  obtain t where t: "until_ticks (bd_rtc_clock (the_board s)) d = Some t" using rtc(7) by blast
  have "n < t"
    using observe_rtc [OF copied rtc(1) _ t, of be now] rtc(2,6) near until_pos [OF t] by (auto simp: sooner_def)
  then have early: "rtc_ticks < d"
    using clock_before [OF rtc(5) t] by (simp add: ticks delivered_def)
  have ok: "rtc_ok r" by (rule rtc_reachable_ok [OF rtc(3)])
  obtain c where dist: "x86_rtc_ticks_until_irq (Some r) (Some 0) = (LIB_STATUS_OK, Some d)"
    using rtc(6) by (auto simp: rtc_distance_def simp del: x86_rtc_ticks_until_irq.simps split: prod.splits if_splits)
  have run: "rtc_divider_running r" using dist by (auto split: if_splits)
  have "\<not> rtc_fires r rtc_ticks"
    using deadline_fires [OF _ run dist] early ok by (auto simp: rtc_ok_def)
  from rtc_quiet(2) [OF ok rtc(4) run this]
  have "new_calls (rtc_log (bd_rtc (the_board s3))) (rtc_log (x86_rtc_advance (bd_rtc (the_board s3)) rtc_ticks)) = []"
    by (simp add: ticks(5) rtc_log_def new_calls_def)
  then have "bd_pic (the_board (run_rtc rtc_ticks s3)) = bd_pic (the_board s)"
    by (simp add: run_rtc_def Let_def ticks(4) del: x86_rtc_advance.simps)
  moreover have "\<forall>k<3. x86_pit_get_output (x86_pit_advance (Some p) pit_ticks) k = x86_pit_get_output (Some p) k"
    using out [OF pit(2,3)] timers(1) by (simp add: ticks(1) pit(1) del: x86_pit_advance.simps x86_pit_get_output.simps)
  moreover have "\<forall>k<3. x86_pit_get_output (x86_pit_advance (Some q) auxiliary_ticks) k = x86_pit_get_output (Some q) k"
    if "bd_auxiliary_pit_configured (the_board s)" "bd_auxiliary_pit (the_board s) = Some q" "pit_reachable q"
      "clock_inv (bd_auxiliary_pit_clock (the_board s))" for q
    using out [OF that(3,4)] timers(2) [OF that(1)] unfolding ticks(2) that(2) by blast
  ultimately show ?thesis by blast
qed

end
