(* ===== verification/Board_Open.thy ===== *)
theory Board_Open
  imports Board_Run
begin

text \<open>
  A board with open-bus memory and none of the optional parts keeps the contract of the parts: the
  interpretation gives the facts of the scheduler and of the board for the model's own operations,
  and the witnesses of their properties run on this board.
\<close>

section \<open>A board on open bus\<close>

text \<open>
  A window of unpopulated memory: reads see the open bus, writes are dropped. Destinations and
  sources are the addresses of caller buffers, never zero; a byte count of zero is refused.
\<close>

record x86_nxvm_board_absent_memory =
  am_physical_start :: lib_u32
  am_bytes :: lib_u32
  am_read_value :: lib_u8
  am_configured :: bool

definition x86_nxvm_board_absent_memory_read ::
  "x86_nxvm_board_absent_memory ptr \<Rightarrow> nat \<Rightarrow> lib_status \<times> lib_u8 list" where
  "x86_nxvm_board_absent_memory_read owner bytes =
     (case owner of
        None \<Rightarrow> (LIB_STATUS_INTERNAL_ERROR, [])
      | Some absent \<Rightarrow>
          if \<not> am_configured absent \<or> bytes = 0 then (LIB_STATUS_INTERNAL_ERROR, [])
          else (LIB_STATUS_OK, replicate bytes (am_read_value absent)))"

definition x86_nxvm_board_absent_memory_write ::
  "x86_nxvm_board_absent_memory ptr \<Rightarrow> lib_u8 list \<Rightarrow> lib_status" where
  "x86_nxvm_board_absent_memory_write owner bytes =
     (case owner of
        None \<Rightarrow> LIB_STATUS_INTERNAL_ERROR
      | Some absent \<Rightarrow>
          if \<not> am_configured absent \<or> bytes = [] then LIB_STATUS_INTERNAL_ERROR else LIB_STATUS_OK)"

definition x86_nxvm_board_absent_memory_query ::
  "x86_nxvm_board_absent_memory ptr \<Rightarrow> nat \<Rightarrow> lib_status" where
  "x86_nxvm_board_absent_memory_query owner bytes =
     (case owner of
        None \<Rightarrow> LIB_STATUS_INTERNAL_ERROR
      | Some absent \<Rightarrow>
          if \<not> am_configured absent \<or> bytes = 0 then LIB_STATUS_INTERNAL_ERROR else LIB_STATUS_OK)"

text \<open>Little-endian words of one or two bytes.\<close>

definition word_of_bytes :: "lib_u8 list \<Rightarrow> lib_u16" where
  "word_of_bytes bytes = foldr (\<lambda>b w. ucast b OR push_bit 8 w) bytes 0"

definition bytes_of_word :: "nat \<Rightarrow> lib_u16 \<Rightarrow> lib_u8 list" where
  "bytes_of_word n w = map (\<lambda>i. ucast (drop_bit (8 * i) w)) [0..<n]"

text \<open>A DMA bus whose memory is one such window, kept as the rest of the board.\<close>

definition open_bus_memory :: "('p dma_bus \<times> x86_nxvm_board_absent_memory board) dma_memory" where
  "open_bus_memory = \<lparr>
     dm_query = (\<lambda>a n is_write w. (x86_nxvm_board_absent_memory_query (Some (bd_rest (snd w))) (unat n), w)),
     dm_read = (\<lambda>a n v w.
       case x86_nxvm_board_absent_memory_read (Some (bd_rest (snd w))) (unat n) of
         (status, bytes) \<Rightarrow> (status, if status = LIB_STATUS_OK then word_of_bytes bytes else v, w)),
     dm_write = (\<lambda>a n v w.
       (x86_nxvm_board_absent_memory_write (Some (bd_rest (snd w))) (bytes_of_word (unat n) v), w))\<rparr>"

text \<open>The board with none of the optional parts: no profile, no disks, no keyboard, no video.\<close>

definition bare_board :: "(unit dma_bus \<times> 'x board) dma_memory \<Rightarrow> (unit, unit, 'x) board_env" where
  "bare_board memory = \<lparr>
     be_dma = \<lparr>de_memory = memory, de_provider = (\<lambda>p owner v s. (v, s))\<rparr>,
     be_profile_owns_refresh_output = False, be_profile_refresh_request = None,
     be_profile_refresh_complete = None, be_profile_cpu_hold_asserted = None,
     be_profile_next_deadline = None, be_profile_advance = None,
     be_profile_pit_output = (\<lambda>p owner a s. s), be_refresh_pulse = (\<lambda>s. s),
     be_fdc_advance_at = (\<lambda>due s. s), be_fdc_next_due_tick = (\<lambda>s. None),
     be_hdc_advance_at = (\<lambda>due s. s), be_hdc_next_due_tick = (\<lambda>s. None),
     be_kbc_advance = (\<lambda>n s. s), be_kbc_ticks_until_event = (\<lambda>s. None),
     be_xt_keyboard_advance = (\<lambda>n s. s), be_xt_keyboard_ticks_until_event = (\<lambda>s. None),
     be_vadp_advance = (\<lambda>n s. s), be_video_ticks_until_event = (\<lambda>s. None)\<rparr>"

definition open_board :: "(unit, unit, x86_nxvm_board_absent_memory) board_env" where
  "open_board = bare_board open_bus_memory"

text \<open>A processor that is held: it runs no bus cycle, and nothing is on the timeline.\<close>

definition held_core :: "(unit, unit dma_bus \<times> 'x board) scheduler_env" where
  "held_core = \<lparr>en_deadline = None, en_refresh_request = None, en_refresh_complete = None,
     en_dma_ticks = None, en_dma_request = None, en_dma_advance = None,
     en_before_internal_advance = None, en_after_internal_advance = None,
     en_wait_test_asserted = None, en_provider_advance_time = None,
     en_timeline_callback = (\<lambda>cb due s. CB_RETURN s),
     en_cpu_advance_bus = (\<lambda>n free k s. s), en_cpu_advance_prefetch_reservation = (\<lambda>s. s),
     en_retirement_time_is_qualified = (\<lambda>s. False)\<rparr>"

lemma bare_board_parts: "memory_ok memory \<Longrightarrow> board_parts (bare_board memory) held_core"
  by unfold_locales (simp_all add: bare_board_def held_core_def providers_ok_def)

lemma open_bus_memory_ok: "memory_ok open_bus_memory"
  by (simp add: memory_ok_def open_bus_memory_def split: prod.split)

interpretation held: board_parts open_board held_core
  unfolding open_board_def by (rule bare_board_parts [OF open_bus_memory_ok])

section \<open>A machine at reset\<close>

definition reset_machine :: "lib_u32 \<Rightarrow> lib_u32 \<Rightarrow> unit x86_core_machine" where
  "reset_machine cycle remaining = \<lparr>mc_lifecycle = X86_CORE_MACHINE_RUNNING,
     mc_firmware_operation_active = False, mc_elapsed_ticks = 0, mc_timeline = timeline_zero,
     mc_transaction = (if remaining = 0 then zero_transaction
       else zero_transaction\<lparr>tx_owner := X86_CORE_MACHINE_TRANSACTION_OWNER_REFRESH,
         tx_hold_owner := X86_CORE_MACHINE_TRANSACTION_OWNER_REFRESH, tx_hold_acknowledged := True\<rparr>),
     mc_contract = \<lparr>ct_dma_cycle_wait_quanta = 0, ct_dma_cycle_bus_ready_gate_enabled = False,
       ct_cpu_cycle_bus_ready_gate_enabled = False, ct_cpu_prefetch_reservation_enabled = False,
       ct_refresh_cycle_source_ticks = cycle\<rparr>,
     mc_bus_invalidation_cycles = 0, mc_cpu_retirement_source_ticks = 0,
     mc_cpu_retirement_wait_pending = False,
     mc_retirement_time_contract = X86_CORE_MACHINE_RETIREMENT_TIME_DETERMINISTIC,
     mc_provider_clock = \<lparr>cd_numerator = 1, cd_denominator = 1, cd_reset_phase = 0, cd_phase = 0,
       cd_delivered_ticks = 0\<rparr>,
     mc_time_axis = \<lparr>ax_kind = X86_CORE_MACHINE_TIME_AXIS_UNQUALIFIED, ax_ticks_per_second = 0\<rparr>,
     mc_cpu_profile = X86_CORE_CPU_PROFILE_80286, mc_fpu = None,
     mc_wait = \<lparr>cw_wait_state = CPU_WAIT_STATE_NONE, cw_wait_poll_remaining_ticks = 0,
       cw_flagHalt = False\<rparr>,
     mc_dma_cycle_wait_remaining = 0, mc_refresh_cycle_ticks_remaining = remaining,
     mc_dma_cycle_bus_ready = False, mc_cpu_cycle_bus_ready = False\<rparr>"

definition unit_clock :: x86_core_machine_clock_domain where
  "unit_clock = \<lparr>cd_numerator = 1, cd_denominator = 1, cd_reset_phase = 0, cd_phase = 0,
     cd_delivered_ticks = 0\<rparr>"

definition created_pit :: x86_pit where
  "created_pit = \<lparr>pit_personality = X86_PIT_PERSONALITY_8254, pit_counters = (\<lambda>_. zero_counter),
     pit_calls = []\<rparr>"

definition created_pic :: pic_pair where
  "created_pic = the (snd (x86_nxvm_board_pic_initialize True True True LIB_STATUS_OK))"

definition created_bus :: "unit dma_bus" where
  "created_bus = the (snd (x86_nxvm_board_dma_initialize True True True (\<lambda>_. LIB_STATUS_OK) True 2 False))"

definition board_around :: "'x \<Rightarrow> bool \<Rightarrow> x86_rtc ptr \<Rightarrow> 'x board" where
  "board_around rest pending rtc = \<lparr>bd_timing_declarations_copied = True, bd_pic = created_pic,
     bd_rtc_irq_source = None, bd_pit = Some created_pit, bd_auxiliary_pit = None,
     bd_auxiliary_pit_configured = False, bd_rtc = rtc, bd_planar_parity = True,
     bd_xt_ppi_speaker_configured = False, bd_speaker_output = False, bd_speaker_lines = 0,
     bd_vadp = False, bd_dma_clock = unit_clock, bd_dma_clock_explicit = True,
     bd_pit_clock = unit_clock, bd_auxiliary_pit_clock = unit_clock, bd_rtc_clock = unit_clock,
     bd_vadp_clock = unit_clock, bd_kbc_clock = unit_clock,
     bd_keyboard_topology = X86_NXVM_BOARD_KEYBOARD_TOPOLOGY_NONE,
     bd_refresh_dma_request = \<lparr>rb_core_token = 0, rb_channel = 0\<rparr>,
     bd_refresh_hold_pending = pending, bd_refresh_row = 0, bd_dma_configured = True,
     bd_rtc_cmos_configured = (rtc \<noteq> None), bd_fdc_configured = False, bd_hdc_configured = False,
     bd_rest = rest\<rparr>"

definition created_board :: "bool \<Rightarrow> x86_rtc ptr \<Rightarrow> x86_nxvm_board_absent_memory board" where
  "created_board = board_around
     \<lparr>am_physical_start = 0, am_bytes = 0x10000, am_read_value = 0xff, am_configured = True\<rparr>"

definition created ::
  "lib_u32 \<Rightarrow> lib_u32 \<Rightarrow> bool \<Rightarrow> x86_rtc ptr \<Rightarrow> (unit, unit, x86_nxvm_board_absent_memory) board_core" where
  "created cycle remaining pending rtc =
     (reset_machine cycle remaining, created_bus, created_board pending rtc)"

abbreviation held_env :: "(unit, unit dma_bus \<times> x86_nxvm_board_absent_memory board) scheduler_env" where
  "held_env \<equiv> x86_nxvm_board_attachment open_board held_core"

lemma created_core: "core_ok (created cycle remaining pending rtc)" "bus_ok (fst (created cycle remaining pending rtc))"
  by (simp_all add: created_def core_ok_def reset_machine_def tl_inv_zero bus_ok_def bus_of_def zero_transaction_def)
    (simp add: timeline_zero_def)

theorem scheduler_publish_exact_witness:
  "\<exists>status passes s'. x86_core_machine_publish_elapsed_ticks held_env 1000
      X86_CORE_MACHINE_TIME_PUBLICATION_DEADLINE (created 4 0 True None) = Some (status, passes, s') \<and>
    mc_elapsed_ticks (fst s') = 1000 \<and> (\<Sum>p\<leftarrow>passes. unat (sp_source_ticks p)) = 1000"
proof -
  have "\<not> publication_refused held_env X86_CORE_MACHINE_TIME_PUBLICATION_DEADLINE (created 4 0 True None)"
    by (simp add: publication_refused_def)
  from scheduler_publish_exact [OF held.board.scheduler_client_axioms created_core, of 1000] this
  show ?thesis by (fastforce simp: created_def reset_machine_def)
qed

theorem scheduler_refresh_excludes_dma_witness:
  "x86_core_machine_arbitration_advance (held_env\<lparr>en_dma_advance := None\<rparr>) 2 (created 4 3 True None) =
    x86_core_machine_arbitration_advance held_env 2 (created 4 3 True None)"
  by (rule scheduler_refresh_excludes_dma [OF held.board.scheduler_client_axioms])
    (simp add: created_def reset_machine_def)

lemma open_observe:
  "x86_nxvm_board_deadline_observe open_board (created 0 0 True None) 0 =
    no_deadline\<lparr>dl_source_ticks := 1\<rparr>"
  by code_simp

lemma pass_disposition: "sp_disposition (fst (scheduler_pass env target s)) =
    ob_progress_disposition (fst (x86_core_machine_capture_time_with_board env (refresh_poll env s)))"
  by (simp add: scheduler_pass_def Let_def case_prod_beta)

lemma open_disposition:
  "ob_progress_disposition (fst (x86_core_machine_capture_time_with_board held_env
     (refresh_poll held_env (created 0 0 True None)))) = X86_CORE_MACHINE_TIME_PROGRESS_DEADLINE"
  by code_simp

theorem scheduler_never_oversleeps_witness:
  "unat (sp_due_tick (fst (scheduler_pass held_env 100 (created 0 0 True None)))) \<le> 1"
proof -
  let ?s = "created 0 0 True None"
  have poll: "refresh_poll held_env ?s = ?s" and now: "mc_elapsed_ticks (fst ?s) = 0"
    by (simp_all add: refresh_poll_def created_def reset_machine_def)
  have d: "machine_deadline held_env (refresh_poll held_env ?s) 1"
    unfolding poll using deadline_board [of held_env "x86_nxvm_board_deadline_observe open_board" ?s]
    by (simp add: now open_observe)
  obtain p s' where p: "scheduler_pass held_env 100 ?s = (p, s')" by (metis surj_pair)
  have "sp_disposition p = X86_CORE_MACHINE_TIME_PROGRESS_DEADLINE"
    using pass_disposition [of held_env 100 ?s] open_disposition by (simp add: p)
  from scheduler_never_oversleeps [OF held.board.scheduler_client_axioms created_core _ p] this d
  show ?thesis by (simp add: p now)
qed

theorem board_refresh_cycle_witness:
  "bd_refresh_row (the_board (x86_core_machine_refresh_hold_advance held_env 2
     (fold (x86_core_machine_refresh_hold_advance held_env) [0, 1, 2] (created 4 0 True None)))) = 1"
  using board_refresh_cycle [where be = open_board and core = held_core and s = "created 4 0 True None"
      and cycle = 4 and start = 0 and slices = "[1, 2]" and final = 2,
      OF _ _ _ _ _ _ _ refl refl _ refl]
  by (simp add: created_def reset_machine_def bus_is_free_def zero_transaction_def created_board_def board_around_def open_board_def bare_board_def)

text \<open>A board whose clock has its update interrupt in 1000 ticks.\<close>

theorem board_no_missed_edge_witness:
  "bd_pic (the_board (run_rtc (fst (clock_run rtc_clock 999 (created 0 0 False (Some rtc_updating))))
     (snd (clock_run rtc_clock 999 (created 0 0 False (Some rtc_updating)))))) = created_pic"
proof -
  let ?s = "created 0 0 False (Some rtc_updating)"
  let ?r = "rtc_updating"
  have near: "(999 :: lib_u64) < dl_source_ticks (x86_nxvm_board_deadline_observe open_board ?s 0)"
    and dist: "rtc_distance (Some ?r) = Some 1000" and low: "\<not> rtc_irq ?r"
    and until: "until_ticks unit_clock 1000 = Some 1000"
    by code_simp+
  have "rtc_reachable ?r"
    by (rule rtc_was_written [OF rtc_fresh_reachable])
      (simp add: write_register_store del: x86_rtc_write_register.simps x86_rtc_create.simps)
  moreover have "pit_reachable created_pit"
    by (rule pit_created [of X86_PIT_PERSONALITY_8254 None]) (simp add: created_pit_def)
  moreover have "clock_inv unit_clock" by (simp add: clock_inv_def unit_clock_def)
  moreover have "bd_timing_declarations_copied (the_board ?s)" "bd_pit (the_board ?s) = Some created_pit"
    "bd_pit_clock (the_board ?s) = unit_clock" "bd_rtc_cmos_configured (the_board ?s)"
    "bd_rtc (the_board ?s) = Some ?r" "bd_rtc_clock (the_board ?s) = unit_clock" "bd_pic (the_board ?s) = created_pic"
    by (simp_all add: created_def created_board_def board_around_def)
  moreover obtain p1 s1 p2 s2 p3 s3 where "clock_run pit_clock_domain 999 ?s = (p1, s1)"
    "clock_run auxiliary_pit_clock 999 ?s = (p2, s2)" "clock_run rtc_clock 999 ?s = (p3, s3)"
    by (metis surj_pair)
  ultimately show ?thesis
    using board_no_missed_edge [OF near _ _ _ _ _ _ _ low _ dist] until by simp
qed

end
