(* ===== verification/Memory.thy ===== *)
theory Memory
  imports Ports
begin

unbundle bit_operations_syntax

text \<open>
  Guest memory, \<^verbatim>\<open>src/src/x86-core/machine/memory.c\<close> and its machine interface
  \<^verbatim>\<open>memory_interface.c\<close>: one RAM backing behind address-line decoding and alias windows,
  device providers that claim windows of the physical address space in tiers, byte parity, write
  observers and the processor's snoop.

  Functions behind pointers have names of a type \<open>'p\<close>, their owners a type \<open>'o\<close>, and the
  fields of an environment interpret them on a world of type \<open>'w\<close>; they do not call back into
  the memory. The memory is a part of the machine and buffers are its caller's variables, so
  neither pointer is ever null. A buffer is the list of its bytes. Sizes are 64-bit.
\<close>

section \<open>State\<close>

abbreviation X86_CORE_MACHINE_MEMORY_MAPPING_CAPACITY :: nat where
  "X86_CORE_MACHINE_MEMORY_MAPPING_CAPACITY \<equiv> 4"
abbreviation X86_CORE_MACHINE_MEMORY_WRITE_OBSERVER_CAPACITY :: nat where
  "X86_CORE_MACHINE_MEMORY_WRITE_OBSERVER_CAPACITY \<equiv> 4"
abbreviation X86_CORE_MACHINE_MEMORY_DEVICE_PROVIDER_INITIAL_CAPACITY :: nat where
  "X86_CORE_MACHINE_MEMORY_DEVICE_PROVIDER_INITIAL_CAPACITY \<equiv> 12"
abbreviation X86_CORE_MACHINE_MEMORY_DEVICE_PROVIDER_LIMIT :: nat where
  "X86_CORE_MACHINE_MEMORY_DEVICE_PROVIDER_LIMIT \<equiv> 64"

datatype x86_core_machine_memory_access =
    X86_CORE_MACHINE_MEMORY_ACCESS_READ | X86_CORE_MACHINE_MEMORY_ACCESS_WRITE

datatype x86_core_machine_memory_route =
    X86_CORE_MACHINE_MEMORY_ROUTE_ORDINARY_RAM | X86_CORE_MACHINE_MEMORY_ROUTE_PROVIDER

datatype x86_core_machine_memory_provider_mode =
    X86_CORE_MACHINE_MEMORY_PROVIDER_STANDARD
  | X86_CORE_MACHINE_MEMORY_PROVIDER_OVERLAY
  | X86_CORE_MACHINE_MEMORY_PROVIDER_RESET_OVERLAY
  | X86_CORE_MACHINE_MEMORY_PROVIDER_REPLACEMENT
  | X86_CORE_MACHINE_MEMORY_PROVIDER_FALLBACK
  | X86_CORE_MACHINE_MEMORY_PROVIDER_CPU_OVERLAY
  | X86_CORE_MACHINE_MEMORY_PROVIDER_REPLACEMENT_PARTIAL

record x86_core_machine_address_decode =
  ad_first :: lib_u32
  ad_last :: lib_u32
  ad_reset_clear_mask :: lib_u32

record x86_core_machine_memory_mapping =
  mm_physical_start :: lib_u32
  mm_backing_start :: lib_u32
  mm_bytes :: lib_u64
  mm_selected :: bool
  mm_writable :: bool

record ('p, 'o) x86_core_machine_memory_device_provider =
  dp_physical_start :: lib_u32
  dp_bytes :: lib_u64
  dp_read :: 'p
  dp_read_instruction :: "'p ptr"
  dp_cache_probe :: "'p ptr"
  dp_write :: 'p
  dp_query :: 'p
  dp_failure :: "'p ptr"
  dp_owner :: 'o
  dp_overlay :: bool
  dp_raw_decode :: bool
  dp_cpu_only :: bool
  dp_replacement :: bool
  dp_partial_claim :: bool
  dp_fallback :: bool

type_synonym ('p, 'o) memory_provider = "('p, 'o) x86_core_machine_memory_device_provider"

text \<open>The capacity of the backing is its length; the parity bytes are a list of the same kind.\<close>

record ('p, 'o) t_ram =
  ram_address_clear_mask :: lib_u32
  ram_backing :: "lib_u8 list ptr"
  ram_installed_bytes :: lib_u64
  ram_parity :: "lib_u8 list ptr"
  ram_parity_fault :: "('p \<times> 'o) ptr"
  ram_mappings :: "x86_core_machine_memory_mapping list"
  ram_write_observers :: "('p \<times> 'o) list"
  ram_cpu_snoop :: "'p ptr"
  ram_device_providers :: "('p, 'o) memory_provider list"
  ram_device_provider_capacity :: nat
  ram_mappings_frozen :: bool
  ram_address_decode :: x86_core_machine_address_decode

text \<open>
  The callbacks. A read is given the contents of its destination; a query and a cache probe only
  observe.
\<close>

record ('p, 'o, 'w) memory_io =
  mi_read :: "'p \<Rightarrow> 'o \<Rightarrow> lib_u32 \<Rightarrow> bool \<Rightarrow> lib_u8 list \<Rightarrow> 'w \<Rightarrow> lib_status \<times> lib_u8 list \<times> 'w"
  mi_write :: "'p \<Rightarrow> 'o \<Rightarrow> lib_u32 \<Rightarrow> lib_u8 list \<Rightarrow> 'w \<Rightarrow> lib_status \<times> 'w"
  mi_query :: "'p \<Rightarrow> 'o \<Rightarrow> lib_u32 \<Rightarrow> lib_u64 \<Rightarrow> x86_core_machine_memory_access \<Rightarrow> 'w \<Rightarrow> lib_status"
  mi_probe :: "'p \<Rightarrow> 'o \<Rightarrow> lib_u32 \<Rightarrow> lib_u64 \<Rightarrow> 'w \<Rightarrow> bool"
  mi_failure :: "'p \<Rightarrow> 'o \<Rightarrow> lib_u32 \<Rightarrow> lib_u64 \<Rightarrow> x86_core_machine_memory_access \<Rightarrow> lib_status \<Rightarrow> 'w \<Rightarrow> 'w"
  mi_parity_fault :: "'p \<Rightarrow> 'o \<Rightarrow> lib_u32 \<Rightarrow> 'w \<Rightarrow> 'w"
  mi_observe :: "'p \<Rightarrow> 'o \<Rightarrow> lib_u32 \<Rightarrow> lib_u64 \<Rightarrow> 'w \<Rightarrow> 'w"
  mi_snoop :: "'p \<Rightarrow> lib_u32 \<Rightarrow> lib_u64 \<Rightarrow> 'w \<Rightarrow> 'w"

section \<open>Address lines, windows and offsets\<close>

definition x86_core_machine_memory_decode_address :: "('p, 'o) t_ram \<Rightarrow> lib_u32 \<Rightarrow> lib_u32" where
  "x86_core_machine_memory_decode_address ram offset =
     (if ram_address_clear_mask ram = 0 \<or> offset < ad_first (ram_address_decode ram) \<or>
         offset > ad_last (ram_address_decode ram) then offset
      else offset AND NOT (ram_address_clear_mask ram))"

definition x86_core_machine_memory_crosses_decode ::
  "('p, 'o) t_ram \<Rightarrow> lib_u32 \<Rightarrow> lib_u64 \<Rightarrow> bool" where
  "x86_core_machine_memory_crosses_decode ram physical bytes \<longleftrightarrow>
     (let mask = ram_address_clear_mask ram;
          final = ucast physical + bytes - 1;
          step = mask AND (NOT mask + 1)
      in \<not> (bytes \<le> 1 \<or> mask = 0 \<or> final > ucast LIB_UINT32_MAX \<or>
            final < ucast (ad_first (ram_address_decode ram)) \<or>
            physical > ad_last (ram_address_decode ram)) \<and>
         (ucast (x86_core_machine_memory_decode_address ram physical) + bytes - 1 \<noteq>
            (ucast (x86_core_machine_memory_decode_address ram (ucast final)) :: lib_u64) \<or>
          physical AND NOT (step - 1) \<noteq> ucast final AND NOT (step - 1)))"

text \<open>A window that starts at or below an access and reaches its end.\<close>

definition window_contains :: "lib_u32 \<Rightarrow> lib_u64 \<Rightarrow> lib_u32 \<Rightarrow> lib_u64 \<Rightarrow> bool" where
  "window_contains start span physical bytes \<longleftrightarrow>
     physical \<ge> start \<and> ucast physical + bytes - ucast start \<le> span"

definition mapping_contains :: "x86_core_machine_memory_mapping \<Rightarrow> lib_u32 \<Rightarrow> lib_u64 \<Rightarrow> bool" where
  "mapping_contains mapping = window_contains (mm_physical_start mapping) (mm_bytes mapping)"

definition mapping_offset :: "x86_core_machine_memory_mapping \<Rightarrow> lib_u32 \<Rightarrow> lib_u64" where
  "mapping_offset mapping physical =
     ucast (mm_backing_start mapping) + (ucast physical - ucast (mm_physical_start mapping))"

definition x86_core_machine_memory_offset ::
  "('p, 'o) t_ram \<Rightarrow> lib_u32 \<Rightarrow> lib_u32 \<Rightarrow> lib_u64 \<Rightarrow> lib_status \<times> lib_u64" where
  "x86_core_machine_memory_offset ram physical decoded bytes =
     (if ram_backing ram = None then (LIB_STATUS_INVALID_ARGUMENT, 0)
      else
        let offset = (case find (\<lambda>m. mapping_contains m physical bytes) (ram_mappings ram) of
                        None \<Rightarrow> ucast decoded
                      | Some m \<Rightarrow> mapping_offset m physical)
        in if offset > ram_installed_bytes ram \<or> bytes > ram_installed_bytes ram - offset
           then (LIB_STATUS_INTERNAL_ERROR, 0)
           else (LIB_STATUS_OK, offset))"

section \<open>Routes\<close>

definition x86_core_machine_memory_note_provider_failure ::
  "('p, 'o, 'w) memory_io \<Rightarrow> ('p, 'o) memory_provider \<Rightarrow> lib_u32 \<Rightarrow> lib_u64 \<Rightarrow>
     x86_core_machine_memory_access \<Rightarrow> lib_status \<Rightarrow> 'w \<Rightarrow> 'w" where
  "x86_core_machine_memory_note_provider_failure io provider physical bytes access status w =
     (case dp_failure provider of
        None \<Rightarrow> w
      | Some failure \<Rightarrow>
          if status = LIB_STATUS_OK \<or> status = LIB_STATUS_UNSUPPORTED then w
          else mi_failure io failure (dp_owner provider) physical bytes access status w)"

text \<open>A provider with its index in the table; the order of the table is the order of pointers.\<close>

type_synonym ('p, 'o) indexed = "nat \<times> ('p, 'o) memory_provider"

definition provider_status ::
  "('p, 'o, 'w) memory_io \<Rightarrow> lib_u32 \<Rightarrow> lib_u64 \<Rightarrow> x86_core_machine_memory_access \<Rightarrow> 'w \<Rightarrow>
     ('p, 'o) memory_provider \<Rightarrow> lib_status" where
  "provider_status io address bytes access w provider =
     mi_query io (dp_query provider) (dp_owner provider) address bytes access w"

text \<open>The first of several candidates that does not decline.\<close>

definition first_claim ::
  "('p, 'o, 'w) memory_io \<Rightarrow> lib_u32 \<Rightarrow> lib_u64 \<Rightarrow> x86_core_machine_memory_access \<Rightarrow> 'w \<Rightarrow>
     ('p, 'o) indexed list \<Rightarrow> ('p, 'o) indexed ptr" where
  "first_claim io address bytes access w candidates =
     find (\<lambda>c. provider_status io address bytes access w (snd c) \<noteq> LIB_STATUS_UNSUPPORTED) candidates"

definition provider_matches ::
  "bool \<Rightarrow> lib_u32 \<Rightarrow> lib_u64 \<Rightarrow> ('p, 'o) memory_provider \<Rightarrow> bool" where
  "provider_matches cpu_access address bytes provider \<longleftrightarrow>
     \<not> (dp_cpu_only provider \<and> \<not> cpu_access) \<and>
     window_contains (dp_physical_start provider) (dp_bytes provider) address bytes"

definition raw_candidates ::
  "('p, 'o) t_ram \<Rightarrow> bool \<Rightarrow> lib_u32 \<Rightarrow> lib_u64 \<Rightarrow> ('p, 'o) indexed list" where
  "raw_candidates ram cpu_access physical bytes =
     filter (\<lambda>c. dp_raw_decode (snd c) \<and> provider_matches cpu_access physical bytes (snd c))
       (List.enumerate 0 (ram_device_providers ram))"

definition provider_tier :: "('p, 'o) memory_provider \<Rightarrow> nat" where
  "provider_tier provider =
     (if dp_replacement provider then 0 else if dp_fallback provider then 2 else 1)"

definition tier_candidates ::
  "('p, 'o) t_ram \<Rightarrow> bool \<Rightarrow> lib_u32 \<Rightarrow> lib_u64 \<Rightarrow> ('p, 'o) indexed list" where
  "tier_candidates ram cpu_access wrapped bytes =
     (let matches = filter (\<lambda>c. provider_matches cpu_access wrapped bytes (snd c))
                      (List.enumerate 0 (ram_device_providers ram))
      in concat (map (\<lambda>tier. filter (\<lambda>c. provider_tier (snd c) = tier) matches) [0, 1, 2]))"

text \<open>
  A resolved route: the provider's index or none for RAM, the address the provider sees, and the
  offset into the backing. Where the status leaves one of them unset it is zero.
\<close>

type_synonym memory_route = "nat ptr \<times> lib_u32 \<times> lib_u64"

definition claimed ::
  "('p, 'o, 'w) memory_io \<Rightarrow> bool \<Rightarrow> lib_u32 \<Rightarrow> lib_u64 \<Rightarrow> x86_core_machine_memory_access \<Rightarrow>
     ('p, 'o) indexed \<Rightarrow> 'w \<Rightarrow> lib_status \<times> memory_route \<times> 'w" where
  "claimed io notify_failure address bytes access c w =
     (let status = provider_status io address bytes access w (snd c)
      in if status = LIB_STATUS_OK then (LIB_STATUS_OK, (Some (fst c), address, 0), w)
         else (status, (Some (fst c), 0, 0),
           if notify_failure then x86_core_machine_memory_note_provider_failure io (snd c) address
             bytes access status w else w))"

definition x86_core_machine_memory_route_resolve ::
  "('p, 'o, 'w) memory_io \<Rightarrow> ('p, 'o) t_ram \<Rightarrow> lib_u32 \<Rightarrow> lib_u64 \<Rightarrow> x86_core_machine_memory_access \<Rightarrow>
     bool \<Rightarrow> bool \<Rightarrow> 'w \<Rightarrow> lib_status \<times> memory_route \<times> 'w" where
  "x86_core_machine_memory_route_resolve io ram physical bytes access notify_failure cpu_access w =
     (if bytes = 0 then (LIB_STATUS_INVALID_ARGUMENT, (None, 0, 0), w)
      else case first_claim io physical bytes access w (raw_candidates ram cpu_access physical bytes) of
        Some c \<Rightarrow> claimed io notify_failure physical bytes access c w
      | None \<Rightarrow>
          let wrapped = x86_core_machine_memory_decode_address ram physical
          in case find (\<lambda>m. mm_selected m \<and> mapping_contains m physical bytes) (ram_mappings ram) of
               Some m \<Rightarrow> (LIB_STATUS_OK, (None, wrapped, mapping_offset m physical), w)
             | None \<Rightarrow>
                 case first_claim io wrapped bytes access w (tier_candidates ram cpu_access wrapped bytes) of
                   Some c \<Rightarrow> claimed io notify_failure wrapped bytes access c w
                 | None \<Rightarrow>
                     case x86_core_machine_memory_offset ram physical wrapped bytes of
                       (status, offset) \<Rightarrow>
                         if status \<noteq> LIB_STATUS_OK then (status, (None, 0, 0), w)
                         else (LIB_STATUS_OK, (None, wrapped, offset), w))"

definition x86_core_machine_memory_is_plain_span :: "('p, 'o) t_ram \<Rightarrow> lib_u32 \<Rightarrow> lib_u64 \<Rightarrow> bool" where
  "x86_core_machine_memory_is_plain_span ram physical bytes \<longleftrightarrow>
     \<not> (ram_address_clear_mask ram \<noteq> 0 \<or> ram_mappings ram \<noteq> [] \<or>
        bytes > ucast LIB_UINT32_MAX + 1 - ucast physical) \<and>
     (\<forall>p \<in> set (ram_device_providers ram).
        \<not> (ucast physical < ucast (dp_physical_start p) + dp_bytes p \<and>
           ucast (dp_physical_start p) < (ucast physical :: lib_u64) + bytes))"

definition priority_tier :: "('p, 'o) memory_provider \<Rightarrow> nat" where
  "priority_tier provider =
     (if dp_raw_decode provider then 0 else if dp_replacement provider then 1
      else if dp_fallback provider then 3 else 2)"

definition x86_core_machine_memory_higher_provider ::
  "('p, 'o) t_ram \<Rightarrow> nat ptr \<Rightarrow> nat ptr \<Rightarrow> bool" where
  "x86_core_machine_memory_higher_provider ram candidate selected \<longleftrightarrow>
     (case candidate of
        None \<Rightarrow> False
      | Some c \<Rightarrow>
          (case selected of
             None \<Rightarrow> True
           | Some s \<Rightarrow>
               c \<noteq> s \<and>
               (let candidate_tier = priority_tier (ram_device_providers ram ! c);
                    selected_tier = priority_tier (ram_device_providers ram ! s)
                in candidate_tier < selected_tier \<or> (candidate_tier = selected_tier \<and> c < s))))"

definition x86_core_machine_memory_has_partial_claim :: "('p, 'o) t_ram \<Rightarrow> bool" where
  "x86_core_machine_memory_has_partial_claim ram \<longleftrightarrow>
     (\<exists>p \<in> set (ram_device_providers ram). dp_partial_claim p \<and> dp_bytes p \<noteq> 0)"

definition reset_candidates ::
  "('p, 'o) t_ram \<Rightarrow> lib_u32 \<Rightarrow> lib_u64 \<Rightarrow> ('p, 'o) indexed list" where
  "reset_candidates ram physical bytes =
     (let matches = filter (\<lambda>c. \<not> dp_fallback (snd c) \<and>
            window_contains (dp_physical_start (snd c)) (dp_bytes (snd c)) physical bytes)
            (List.enumerate 0 (ram_device_providers ram))
      in filter (\<lambda>c. dp_overlay (snd c)) matches @ filter (\<lambda>c. \<not> dp_overlay (snd c)) matches)"

definition x86_core_machine_memory_reset_provider_resolve ::
  "('p, 'o, 'w) memory_io \<Rightarrow> ('p, 'o) t_ram \<Rightarrow> lib_u32 \<Rightarrow> lib_u64 \<Rightarrow> 'w \<Rightarrow>
     lib_status \<times> ('p, 'o) memory_provider ptr \<times> 'w" where
  "x86_core_machine_memory_reset_provider_resolve io ram physical bytes w =
     (if bytes = 0 then (LIB_STATUS_INVALID_ARGUMENT, None, w)
      else case first_claim io physical bytes X86_CORE_MACHINE_MEMORY_ACCESS_READ w
                  (reset_candidates ram physical bytes) of
        None \<Rightarrow> (LIB_STATUS_UNSUPPORTED, None, w)
      | Some c \<Rightarrow>
          let status = provider_status io physical bytes X86_CORE_MACHINE_MEMORY_ACCESS_READ w (snd c)
          in if status = LIB_STATUS_OK then (LIB_STATUS_OK, Some (snd c), w)
             else (status, None, x86_core_machine_memory_note_provider_failure io (snd c) physical bytes
                     X86_CORE_MACHINE_MEMORY_ACCESS_READ status w))"

section \<open>Splitting an access\<close>

text \<open>
  The loop over the bytes of an access that decides whether it must be split: the first byte with
  another owner, or with another place in the backing, splits it.
\<close>

datatype split_decision = SPLIT_BYTES | KEEP_WHOLE | REFUSE_ACCESS lib_status

primrec split_scan ::
  "('p, 'o, 'w) memory_io \<Rightarrow> ('p, 'o) t_ram \<Rightarrow> lib_u32 \<Rightarrow> x86_core_machine_memory_access \<Rightarrow> bool \<Rightarrow>
     nat ptr \<Rightarrow> lib_u64 \<Rightarrow> nat list \<Rightarrow> 'w \<Rightarrow> split_decision \<times> 'w" where
  "split_scan io ram physical access cpu_access provider offset [] w = (KEEP_WHOLE, w)"
| "split_scan io ram physical access cpu_access provider offset (index # rest) w =
     (case x86_core_machine_memory_route_resolve io ram (physical + of_nat index) 1 access
             (provider = None) cpu_access w of
        (status, (single_provider, single_physical, single_offset), w) \<Rightarrow>
          let overrides = (case single_provider of
                None \<Rightarrow> False
              | Some i \<Rightarrow> dp_partial_claim (ram_device_providers ram ! i) \<and>
                  x86_core_machine_memory_higher_provider ram single_provider provider)
          in if status \<noteq> LIB_STATUS_OK \<and> provider = None then (REFUSE_ACCESS status, w)
             else if status \<noteq> LIB_STATUS_OK \<and> \<not> overrides then (KEEP_WHOLE, w)
             else if (single_provider \<noteq> None \<and> (provider = None \<or> overrides)) \<or>
                 (provider = None \<and> single_provider = None \<and> single_offset \<noteq> offset + of_nat index)
             then (SPLIT_BYTES, w)
             else split_scan io ram physical access cpu_access provider offset rest w)"

text \<open>Whether and how an access proceeds once its route is resolved.\<close>

definition split_decide ::
  "('p, 'o, 'w) memory_io \<Rightarrow> ('p, 'o) t_ram \<Rightarrow> lib_u32 \<Rightarrow> nat \<Rightarrow> x86_core_machine_memory_access \<Rightarrow> bool \<Rightarrow>
     lib_status \<times> memory_route \<times> 'w \<Rightarrow> split_decision \<times> 'w" where
  "split_decide io ram physical count access cpu_access route =
     (case route of (status, (provider, provider_physical, offset), w) \<Rightarrow>
        let bytes = of_nat count;
            crosses = x86_core_machine_memory_crosses_decode ram physical bytes
        in if status \<noteq> LIB_STATUS_OK \<and>
              \<not> (status = LIB_STATUS_INTERNAL_ERROR \<and> provider = None \<and> crosses)
           then (REFUSE_ACCESS status, w)
           else if (case provider of None \<Rightarrow> True
                      | Some i \<Rightarrow> \<not> dp_raw_decode (ram_device_providers ram ! i)) \<and> crosses
           then (SPLIT_BYTES, w)
           else if count > 1 \<and>
                   (provider = None \<or> x86_core_machine_memory_has_partial_claim ram) \<and>
                   \<not> x86_core_machine_memory_is_plain_span ram physical bytes
           then split_scan io ram physical access cpu_access provider offset [0..<count] w
           else (KEEP_WHOLE, w))"

section \<open>Parity\<close>

text \<open>The loop XORs the bits of the byte; it ends when no bit is left.\<close>

definition x86_core_machine_memory_odd_parity :: "lib_u8 \<Rightarrow> lib_u8" where
  "x86_core_machine_memory_odd_parity v =
     foldr (\<lambda>i parity. parity XOR (drop_bit i v AND 1)) [0..<8] 0"

definition parity_mismatch :: "lib_u8 list \<Rightarrow> nat \<Rightarrow> lib_u8 list \<Rightarrow> nat ptr" where
  "parity_mismatch parity offset bytes =
     find (\<lambda>i. parity ! (offset + i) \<noteq> x86_core_machine_memory_odd_parity (bytes ! i))
       [0..<min (length bytes) (length parity - offset)]"

definition parity_check ::
  "('p, 'o, 'w) memory_io \<Rightarrow> ('p, 'o) t_ram \<Rightarrow> lib_u32 \<Rightarrow> lib_u64 \<Rightarrow> lib_u8 list \<Rightarrow> 'w \<Rightarrow> 'w" where
  "parity_check io ram physical offset bytes w =
     (case (ram_parity ram, ram_parity_fault ram) of
        (Some parity, Some (fault, owner)) \<Rightarrow>
          (if unat offset < length parity then
             case parity_mismatch parity (unat offset) bytes of
               None \<Rightarrow> w
             | Some index \<Rightarrow> mi_parity_fault io fault owner (physical + of_nat index) w
           else w)
      | _ \<Rightarrow> w)"

text \<open>Bytes put into a list at an offset, as far as the list reaches.\<close>

definition put_bytes :: "nat \<Rightarrow> 'a list \<Rightarrow> 'a list \<Rightarrow> 'a list" where
  "put_bytes offset bytes target =
     take offset target @ take (length target - offset) bytes @ drop (offset + length bytes) target"

definition parity_update :: "lib_u64 \<Rightarrow> lib_u8 list \<Rightarrow> ('p, 'o) t_ram \<Rightarrow> ('p, 'o) t_ram" where
  "parity_update offset bytes ram =
     (case ram_parity ram of
        None \<Rightarrow> ram
      | Some parity \<Rightarrow>
          if unat offset < length parity
          then ram\<lparr>ram_parity := Some (put_bytes (unat offset)
                 (map x86_core_machine_memory_odd_parity bytes) parity)\<rparr>
          else ram)"

section \<open>Reading\<close>

definition backing_read ::
  "('p, 'o, 'w) memory_io \<Rightarrow> ('p, 'o) t_ram \<Rightarrow> lib_u32 \<Rightarrow> lib_u64 \<Rightarrow> bool \<Rightarrow> nat \<Rightarrow> 'w \<Rightarrow>
     lib_status \<times> lib_u8 list \<times> 'w" where
  "backing_read io ram physical offset observe_only count w =
     (let bytes = take count (drop (unat offset) (the (ram_backing ram)))
      in (LIB_STATUS_OK, bytes, if observe_only then w else parity_check io ram physical offset bytes w))"

definition provider_read ::
  "('p, 'o, 'w) memory_io \<Rightarrow> ('p, 'o) memory_provider \<Rightarrow> lib_u32 \<Rightarrow> bool \<Rightarrow> bool \<Rightarrow> lib_u8 list \<Rightarrow> 'w \<Rightarrow>
     lib_status \<times> lib_u8 list \<times> 'w" where
  "provider_read io provider address observe_only instruction_fetch destination w =
     (let call = (\<lambda>read destination w. mi_read io read (dp_owner provider) address observe_only destination w)
      in case (if instruction_fetch then dp_read_instruction provider else None) of
           None \<Rightarrow> call (dp_read provider) destination w
         | Some read \<Rightarrow>
             (case call read destination w of
                (status, destination, w) \<Rightarrow>
                  if status = LIB_STATUS_UNSUPPORTED \<and> read \<noteq> dp_read provider
                  then call (dp_read provider) destination w else (status, destination, w)))"

definition read_whole ::
  "('p, 'o, 'w) memory_io \<Rightarrow> ('p, 'o) t_ram \<Rightarrow> lib_u32 \<Rightarrow> memory_route \<Rightarrow> bool \<Rightarrow> bool \<Rightarrow> lib_u8 list \<Rightarrow> 'w \<Rightarrow>
     lib_status \<times> lib_u8 list \<times> 'w" where
  "read_whole io ram physical route observe_only instruction_fetch destination w =
     (case route of (provider, address, offset) \<Rightarrow>
        case provider of
          None \<Rightarrow> backing_read io ram physical offset observe_only (length destination) w
        | Some i \<Rightarrow>
            let p = ram_device_providers ram ! i; count = length destination; bytes = of_nat count
            in case provider_read io p address observe_only instruction_fetch destination w of
                 (status, destination, w) \<Rightarrow>
                   if status \<noteq> LIB_STATUS_UNSUPPORTED then
                     (status, destination, x86_core_machine_memory_note_provider_failure io p address bytes
                        X86_CORE_MACHINE_MEMORY_ACCESS_READ status w)
                   else case x86_core_machine_memory_offset ram physical
                          (x86_core_machine_memory_decode_address ram physical) bytes of
                     (status, offset) \<Rightarrow>
                       if status \<noteq> LIB_STATUS_OK then (status, destination, w)
                       else backing_read io ram physical offset observe_only count w)"

text \<open>The bytes of a split access one by one, up to the first that fails.\<close>

primrec read_each ::
  "(lib_u32 \<Rightarrow> lib_u8 list \<Rightarrow> 'w \<Rightarrow> lib_status \<times> lib_u8 list \<times> 'w) \<Rightarrow> lib_u32 \<Rightarrow> lib_u8 list \<Rightarrow> 'w \<Rightarrow>
     lib_status \<times> lib_u8 list \<times> 'w" where
  "read_each read_one physical [] w = (LIB_STATUS_OK, [], w)"
| "read_each read_one physical (d # ds) w =
     (case read_one physical [d] w of
        (status, d', w) \<Rightarrow>
          if status \<noteq> LIB_STATUS_OK then (status, d' @ ds, w)
          else case read_each read_one (physical + 1) ds w of (status, ds', w) \<Rightarrow> (status, d' @ ds', w))"

text \<open>
  One call of the routed read, given what it calls for the bytes of a split access. A call for one
  byte never splits, so the recursion of the code has depth two.
\<close>

definition read_call ::
  "(lib_u32 \<Rightarrow> lib_u8 list \<Rightarrow> 'w \<Rightarrow> lib_status \<times> lib_u8 list \<times> 'w) \<Rightarrow>
     ('p, 'o, 'w) memory_io \<Rightarrow> ('p, 'o) t_ram \<Rightarrow> bool \<Rightarrow> bool \<Rightarrow> bool \<Rightarrow>
     lib_u32 \<Rightarrow> lib_u8 list \<Rightarrow> 'w \<Rightarrow> lib_status \<times> lib_u8 list \<times> 'w" where
  "read_call recursive io ram observe_only instruction_fetch cpu_access physical destination w =
     (if destination = [] then (LIB_STATUS_INVALID_ARGUMENT, destination, w)
      else
        let resolved = x86_core_machine_memory_route_resolve io ram physical (of_nat (length destination))
              X86_CORE_MACHINE_MEMORY_ACCESS_READ True cpu_access w
        in case split_decide io ram physical (length destination) X86_CORE_MACHINE_MEMORY_ACCESS_READ
                  cpu_access resolved of
             (REFUSE_ACCESS status, w) \<Rightarrow> (status, destination, w)
           | (SPLIT_BYTES, w) \<Rightarrow> read_each recursive physical destination w
           | (KEEP_WHOLE, w) \<Rightarrow>
               read_whole io ram physical (fst (snd resolved)) observe_only instruction_fetch destination w)"

definition x86_core_machine_memory_read_routed ::
  "('p, 'o, 'w) memory_io \<Rightarrow> ('p, 'o) t_ram \<Rightarrow> bool \<Rightarrow> bool \<Rightarrow> bool \<Rightarrow>
     lib_u32 \<Rightarrow> lib_u8 list \<Rightarrow> 'w \<Rightarrow> lib_status \<times> lib_u8 list \<times> 'w" where
  "x86_core_machine_memory_read_routed io ram observe_only instruction_fetch cpu_access =
     read_call (read_call (\<lambda>physical destination w. (LIB_STATUS_INTERNAL_ERROR, destination, w))
         io ram observe_only instruction_fetch cpu_access)
       io ram observe_only instruction_fetch cpu_access"

definition x86_core_machine_memory_read_physical ::
  "('p, 'o, 'w) memory_io \<Rightarrow> ('p, 'o) t_ram \<Rightarrow> bool \<Rightarrow> lib_u32 \<Rightarrow> lib_u8 list \<Rightarrow> 'w \<Rightarrow>
     lib_status \<times> lib_u8 list \<times> 'w" where
  "x86_core_machine_memory_read_physical io ram = x86_core_machine_memory_read_routed io ram False False"

definition x86_core_machine_memory_read_instruction_physical ::
  "('p, 'o, 'w) memory_io \<Rightarrow> ('p, 'o) t_ram \<Rightarrow> lib_u32 \<Rightarrow> lib_u8 list \<Rightarrow> 'w \<Rightarrow>
     lib_status \<times> lib_u8 list \<times> 'w" where
  "x86_core_machine_memory_read_instruction_physical io ram =
     x86_core_machine_memory_read_routed io ram False True True"

definition reset_read ::
  "('p, 'o, 'w) memory_io \<Rightarrow> bool \<Rightarrow> ('p, 'o) memory_provider \<Rightarrow> lib_u32 \<Rightarrow> lib_u8 list \<Rightarrow> 'w \<Rightarrow>
     lib_status \<times> lib_u8 list \<times> 'w" where
  "reset_read io observe_only provider physical destination w =
     (case mi_read io (dp_read provider) (dp_owner provider) physical observe_only destination w of
        (status, destination', w) \<Rightarrow>
          (status, destination', x86_core_machine_memory_note_provider_failure io provider physical
             (of_nat (length destination)) X86_CORE_MACHINE_MEMORY_ACCESS_READ status w))"

definition x86_core_machine_memory_inspect_physical ::
  "('p, 'o, 'w) memory_io \<Rightarrow> ('p, 'o) t_ram \<Rightarrow> lib_u32 \<Rightarrow> lib_u8 list \<Rightarrow> bool \<Rightarrow> 'w \<Rightarrow>
     lib_status \<times> lib_u8 list \<times> 'w" where
  "x86_core_machine_memory_inspect_physical io ram physical destination reset_fetch w =
     (if destination = [] then (LIB_STATUS_INVALID_ARGUMENT, destination, w)
      else
        let (status, destination, w) =
              (if reset_fetch then
                 case x86_core_machine_memory_reset_provider_resolve io ram physical
                        (of_nat (length destination)) w of
                   (status, provider, w) \<Rightarrow>
                     if status = LIB_STATUS_OK then reset_read io True (the provider) physical destination w
                     else (status, destination, w)
               else (LIB_STATUS_UNSUPPORTED, destination, w))
        in if status \<noteq> LIB_STATUS_UNSUPPORTED then (status, destination, w)
           else x86_core_machine_memory_read_routed io ram True False True physical destination w)"

definition x86_core_machine_memory_read_reset_physical ::
  "('p, 'o, 'w) memory_io \<Rightarrow> ('p, 'o) t_ram \<Rightarrow> lib_u32 \<Rightarrow> lib_u8 list \<Rightarrow> 'w \<Rightarrow>
     lib_status \<times> lib_u8 list \<times> 'w" where
  "x86_core_machine_memory_read_reset_physical io ram physical destination w =
     (if destination = [] then (LIB_STATUS_INVALID_ARGUMENT, destination, w)
      else case x86_core_machine_memory_reset_provider_resolve io ram physical
                  (of_nat (length destination)) w of
        (status, provider, w) \<Rightarrow>
          if status \<noteq> LIB_STATUS_OK then (status, destination, w)
          else reset_read io False (the provider) physical destination w)"

section \<open>Writing\<close>

definition x86_core_machine_memory_snoop_written ::
  "('p, 'o, 'w) memory_io \<Rightarrow> ('p, 'o) t_ram \<Rightarrow> lib_u32 \<Rightarrow> lib_u32 \<Rightarrow> lib_u64 \<Rightarrow> 'w \<Rightarrow> 'w" where
  "x86_core_machine_memory_snoop_written io ram physical decoded bytes w =
     (case ram_cpu_snoop ram of
        None \<Rightarrow> w
      | Some snoop \<Rightarrow>
          let w = mi_snoop io snoop physical bytes w
          in if decoded \<noteq> physical then mi_snoop io snoop decoded bytes w else w)"

definition write_protected :: "('p, 'o) t_ram \<Rightarrow> lib_u32 \<Rightarrow> lib_u64 \<Rightarrow> bool" where
  "write_protected ram physical bytes \<longleftrightarrow>
     list_ex (\<lambda>m. mm_selected m \<and> \<not> mm_writable m \<and> mapping_contains m physical bytes) (ram_mappings ram)"

definition backing_write ::
  "('p, 'o, 'w) memory_io \<Rightarrow> lib_u32 \<Rightarrow> lib_u64 \<Rightarrow> lib_u8 list \<Rightarrow> ('p, 'o) t_ram \<Rightarrow> 'w \<Rightarrow>
     lib_status \<times> ('p, 'o) t_ram \<times> 'w" where
  "backing_write io physical offset source ram w =
     (let bytes = of_nat (length source);
          snooped = x86_core_machine_memory_snoop_written io ram physical (ucast offset) bytes
      in if write_protected ram physical bytes then (LIB_STATUS_OK, ram, snooped w)
         else (LIB_STATUS_OK,
           parity_update offset source
             (ram\<lparr>ram_backing := Some (put_bytes (unat offset) source (the (ram_backing ram)))\<rparr>),
           fold (\<lambda>(callback, owner). mi_observe io callback owner physical bytes)
             (ram_write_observers ram) (snooped w)))"

definition write_whole ::
  "('p, 'o, 'w) memory_io \<Rightarrow> lib_u32 \<Rightarrow> memory_route \<Rightarrow> lib_u8 list \<Rightarrow> ('p, 'o) t_ram \<Rightarrow> 'w \<Rightarrow>
     lib_status \<times> ('p, 'o) t_ram \<times> 'w" where
  "write_whole io physical route source ram w =
     (case route of (provider, address, offset) \<Rightarrow>
        case provider of
          None \<Rightarrow> backing_write io physical offset source ram w
        | Some i \<Rightarrow>
            let p = ram_device_providers ram ! i; bytes = of_nat (length source)
            in case mi_write io (dp_write p) (dp_owner p) address source w of
                 (status, w) \<Rightarrow>
                   if status \<noteq> LIB_STATUS_UNSUPPORTED then
                     (status, ram, x86_core_machine_memory_note_provider_failure io p address bytes
                        X86_CORE_MACHINE_MEMORY_ACCESS_WRITE status
                        (x86_core_machine_memory_snoop_written io ram physical address bytes w))
                   else case x86_core_machine_memory_offset ram physical
                          (x86_core_machine_memory_decode_address ram physical) bytes of
                     (status, offset) \<Rightarrow>
                       if status \<noteq> LIB_STATUS_OK then (status, ram, w)
                       else backing_write io physical offset source ram w)"

primrec write_each ::
  "(lib_u32 \<Rightarrow> lib_u8 list \<Rightarrow> 'm \<Rightarrow> 'w \<Rightarrow> lib_status \<times> 'm \<times> 'w) \<Rightarrow> lib_u32 \<Rightarrow> lib_u8 list \<Rightarrow> 'm \<Rightarrow> 'w \<Rightarrow>
     lib_status \<times> 'm \<times> 'w" where
  "write_each write_one physical [] ram w = (LIB_STATUS_OK, ram, w)"
| "write_each write_one physical (b # bs) ram w =
     (case write_one physical [b] ram w of
        (status, ram, w) \<Rightarrow>
          if status \<noteq> LIB_STATUS_OK then (status, ram, w)
          else write_each write_one (physical + 1) bs ram w)"

definition write_call ::
  "(lib_u32 \<Rightarrow> lib_u8 list \<Rightarrow> ('p, 'o) t_ram \<Rightarrow> 'w \<Rightarrow> lib_status \<times> ('p, 'o) t_ram \<times> 'w) \<Rightarrow>
     ('p, 'o, 'w) memory_io \<Rightarrow> bool \<Rightarrow> lib_u32 \<Rightarrow> lib_u8 list \<Rightarrow> ('p, 'o) t_ram \<Rightarrow> 'w \<Rightarrow>
     lib_status \<times> ('p, 'o) t_ram \<times> 'w" where
  "write_call recursive io cpu_access physical source ram w =
     (if source = [] then (LIB_STATUS_INVALID_ARGUMENT, ram, w)
      else
        let resolved = x86_core_machine_memory_route_resolve io ram physical (of_nat (length source))
              X86_CORE_MACHINE_MEMORY_ACCESS_WRITE True cpu_access w
        in case split_decide io ram physical (length source) X86_CORE_MACHINE_MEMORY_ACCESS_WRITE
                  cpu_access resolved of
             (REFUSE_ACCESS status, w) \<Rightarrow> (status, ram, w)
           | (SPLIT_BYTES, w) \<Rightarrow> write_each recursive physical source ram w
           | (KEEP_WHOLE, w) \<Rightarrow> write_whole io physical (fst (snd resolved)) source ram w)"

definition x86_core_machine_memory_write_physical ::
  "('p, 'o, 'w) memory_io \<Rightarrow> bool \<Rightarrow> lib_u32 \<Rightarrow> lib_u8 list \<Rightarrow> ('p, 'o) t_ram \<Rightarrow> 'w \<Rightarrow>
     lib_status \<times> ('p, 'o) t_ram \<times> 'w" where
  "x86_core_machine_memory_write_physical io cpu_access =
     write_call (write_call (\<lambda>physical source ram w. (LIB_STATUS_INTERNAL_ERROR, ram, w)) io cpu_access)
       io cpu_access"

section \<open>Queries\<close>

definition x86_core_machine_memory_query_physical ::
  "('p, 'o, 'w) memory_io \<Rightarrow> ('p, 'o) t_ram \<Rightarrow> lib_u32 \<Rightarrow> lib_u64 \<Rightarrow> x86_core_machine_memory_access \<Rightarrow>
     bool \<Rightarrow> 'w \<Rightarrow> lib_status \<times> x86_core_machine_memory_route ptr \<times> 'w" where
  "x86_core_machine_memory_query_physical io ram physical bytes access cpu_access w =
     (case x86_core_machine_memory_route_resolve io ram physical bytes access True cpu_access w of
        (status, (provider, _), w) \<Rightarrow>
          if status \<noteq> LIB_STATUS_OK then (status, None, w)
          else (LIB_STATUS_OK, Some (if provider = None then X86_CORE_MACHINE_MEMORY_ROUTE_ORDINARY_RAM
                  else X86_CORE_MACHINE_MEMORY_ROUTE_PROVIDER), w))"

text \<open>The byte loop of a cache line: each byte continues the route of the first one.\<close>

definition cache_byte_continues :: "('p, 'o) t_ram \<Rightarrow> memory_route \<Rightarrow> lib_u32 \<Rightarrow> nat \<Rightarrow> memory_route \<Rightarrow> bool" where
  "cache_byte_continues ram line first_address index route =
     (case (line, route) of ((first_provider, first_physical, first_offset), (provider, address, offset)) \<Rightarrow>
        provider = first_provider \<and>
        (if provider \<noteq> None then address = first_physical + of_nat index
         else offset = first_offset + of_nat index \<and>
           offset = ucast (x86_core_machine_memory_decode_address ram (first_address + of_nat index))))"

definition cache_probe_accepts ::
  "('p, 'o, 'w) memory_io \<Rightarrow> ('p, 'o) t_ram \<Rightarrow> memory_route \<Rightarrow> 'w \<Rightarrow> bool" where
  "cache_probe_accepts io ram route w =
     (case route of (provider, address, _) \<Rightarrow>
        case provider of
          None \<Rightarrow> True
        | Some i \<Rightarrow>
            let p = ram_device_providers ram ! i
            in case dp_cache_probe p of
                 None \<Rightarrow> False
               | Some probe \<Rightarrow> dp_read_instruction p = None \<and> mi_probe io probe (dp_owner p) address 16 w)"

definition cache_line_fills :: "('p, 'o, 'w) memory_io \<Rightarrow> ('p, 'o) t_ram \<Rightarrow> lib_u32 \<Rightarrow> 'w \<Rightarrow> bool" where
  "cache_line_fills io ram first_address w =
     (let resolve = (\<lambda>address bytes. case x86_core_machine_memory_route_resolve io ram address bytes
            X86_CORE_MACHINE_MEMORY_ACCESS_READ False True w of (status, route, _) \<Rightarrow> (status, route));
          line = resolve first_address 1
      in list_all (\<lambda>index. let (status, route) = resolve (first_address + of_nat index) 1
            in status = LIB_STATUS_OK \<and>
               (index = 0 \<longrightarrow> cache_probe_accepts io ram route w) \<and>
               cache_byte_continues ram (snd line) first_address index route) [0..<16] \<and>
         (fst (snd line) = None \<or>
          (let (status, (provider, address, _)) = resolve first_address 16
           in status = LIB_STATUS_OK \<and> provider = fst (snd line) \<and> address = fst (snd (snd line)))))"

definition x86_core_machine_memory_query_cpu_cache ::
  "('p, 'o, 'w) memory_io \<Rightarrow> ('p, 'o) t_ram \<Rightarrow> lib_u32 \<Rightarrow> bool \<Rightarrow> bool \<Rightarrow> 'w \<Rightarrow> lib_status \<times> lib_u32 \<times> bool" where
  "x86_core_machine_memory_query_cpu_cache io ram physical reset_fetch check_fill w =
     (let address = (if reset_fetch then physical else x86_core_machine_memory_decode_address ram physical);
          first_address = address AND NOT 15
      in if reset_fetch \<or> \<not> check_fill then (LIB_STATUS_OK, address, False)
         else if list_ex (\<lambda>m. ucast first_address < ucast (mm_physical_start m) + mm_bytes m \<and>
                   ucast (mm_physical_start m) < (ucast first_address :: lib_u64) + 16) (ram_mappings ram)
         then (LIB_STATUS_OK, address, False)
         else if x86_core_machine_memory_is_plain_span ram first_address 16 then
           (case x86_core_machine_memory_offset ram first_address first_address 16 of
              (status, offset) \<Rightarrow> (LIB_STATUS_OK, address, status = LIB_STATUS_OK \<and> offset = ucast first_address))
         else (LIB_STATUS_OK, address, cache_line_fills io ram first_address w))"

section \<open>Construction and reset\<close>

text \<open>
  Allocation is a parameter: whether the host grants a number of bytes or of providers. The counters
  of the private tests are left out.
\<close>

definition x86_core_machine_memory_allocate_for ::
  "(nat \<Rightarrow> bool) \<Rightarrow> lib_u64 \<Rightarrow> ('p, 'o) t_ram \<Rightarrow> lib_status \<times> ('p, 'o) t_ram" where
  "x86_core_machine_memory_allocate_for alloc bytes ram =
     (if bytes = 0 then (LIB_STATUS_INVALID_ARGUMENT, ram)
      else if \<not> alloc (unat bytes) then (LIB_STATUS_NO_MEMORY, ram)
      else (LIB_STATUS_OK, ram\<lparr>ram_backing := Some (replicate (unat bytes) 0), ram_installed_bytes := bytes\<rparr>))"

definition zero_ram :: "('p, 'o) t_ram" where
  "zero_ram = \<lparr>ram_address_clear_mask = 0, ram_backing = None, ram_installed_bytes = 0, ram_parity = None,
     ram_parity_fault = None, ram_mappings = [], ram_write_observers = [], ram_cpu_snoop = None,
     ram_device_providers = [], ram_device_provider_capacity = 0, ram_mappings_frozen = False,
     ram_address_decode = \<lparr>ad_first = 0, ad_last = 0, ad_reset_clear_mask = 0\<rparr>\<rparr>"

definition x86_core_machine_memory_initialize_for ::
  "(nat \<Rightarrow> bool) \<Rightarrow> lib_u64 \<Rightarrow> ('p, 'o) t_ram \<Rightarrow> lib_status \<times> ('p, 'o) t_ram" where
  "x86_core_machine_memory_initialize_for alloc bytes ram =
     (if bytes = 0 then (LIB_STATUS_INVALID_ARGUMENT, ram)
      else x86_core_machine_memory_allocate_for alloc bytes zero_ram)"

definition x86_core_machine_memory_enable_parity ::
  "(nat \<Rightarrow> bool) \<Rightarrow> lib_u64 \<Rightarrow> 'p ptr \<Rightarrow> 'o ptr \<Rightarrow> ('p, 'o) t_ram \<Rightarrow> lib_status \<times> ('p, 'o) t_ram" where
  "x86_core_machine_memory_enable_parity alloc bytes fault owner ram =
     (case (fault, owner) of
        (Some fault, Some owner) \<Rightarrow>
          (if bytes = 0 \<or> bytes > ram_installed_bytes ram \<or> ram_mappings_frozen ram \<or>
              ram_parity ram \<noteq> None then (LIB_STATUS_INVALID_ARGUMENT, ram)
           else if \<not> alloc (unat bytes) then (LIB_STATUS_NO_MEMORY, ram)
           else (LIB_STATUS_OK, ram\<lparr>ram_parity := Some (replicate (unat bytes) 0),
                   ram_parity_fault := Some (fault, owner)\<rparr>))
      | _ \<Rightarrow> (LIB_STATUS_INVALID_ARGUMENT, ram))"

definition x86_core_machine_memory_release_parity :: "('p, 'o) t_ram \<Rightarrow> ('p, 'o) t_ram" where
  "x86_core_machine_memory_release_parity ram = ram\<lparr>ram_parity := None, ram_parity_fault := None\<rparr>"

definition x86_core_machine_memory_register_mapping ::
  "lib_u32 \<Rightarrow> lib_u32 \<Rightarrow> lib_u64 \<Rightarrow> bool \<Rightarrow> ('p, 'o) t_ram \<Rightarrow> lib_status \<times> ('p, 'o) t_ram" where
  "x86_core_machine_memory_register_mapping physical_start backing_start bytes selected ram =
     (if ram_mappings_frozen ram \<or> bytes = 0 \<or> ucast backing_start > ram_installed_bytes ram \<or>
         bytes > ram_installed_bytes ram - ucast backing_start \<or>
         ucast physical_start + bytes > ucast LIB_UINT32_MAX + 1
      then (LIB_STATUS_INVALID_ARGUMENT, ram)
      else if length (ram_mappings ram) \<ge> X86_CORE_MACHINE_MEMORY_MAPPING_CAPACITY
      then (LIB_STATUS_NO_MEMORY, ram)
      else (LIB_STATUS_OK, ram\<lparr>ram_mappings := ram_mappings ram @
              [\<lparr>mm_physical_start = physical_start, mm_backing_start = backing_start, mm_bytes = bytes,
                mm_selected = selected, mm_writable = True\<rparr>]\<rparr>))"

definition x86_core_machine_memory_validate_write_observer ::
  "'p ptr \<Rightarrow> 'o ptr \<Rightarrow> ('p, 'o) t_ram \<Rightarrow> lib_status" where
  "x86_core_machine_memory_validate_write_observer callback owner ram =
     (if callback = None \<or> owner = None \<or> ram_mappings_frozen ram then LIB_STATUS_INVALID_ARGUMENT
      else if length (ram_write_observers ram) \<ge> X86_CORE_MACHINE_MEMORY_WRITE_OBSERVER_CAPACITY
      then LIB_STATUS_NO_MEMORY else LIB_STATUS_OK)"

definition x86_core_machine_memory_register_write_observer ::
  "'p ptr \<Rightarrow> 'o ptr \<Rightarrow> ('p, 'o) t_ram \<Rightarrow> lib_status \<times> ('p, 'o) t_ram" where
  "x86_core_machine_memory_register_write_observer callback owner ram =
     (let status = x86_core_machine_memory_validate_write_observer callback owner ram
      in if status \<noteq> LIB_STATUS_OK then (status, ram)
         else (LIB_STATUS_OK, ram\<lparr>ram_write_observers :=
                 ram_write_observers ram @ [(the callback, the owner)]\<rparr>))"

text \<open>The three callbacks every route needs.\<close>

record 'p x86_core_machine_memory_device_callbacks =
  dc_read :: "'p ptr"
  dc_write :: "'p ptr"
  dc_query :: "'p ptr"

definition x86_core_machine_memory_validate_device_provider ::
  "lib_u32 \<Rightarrow> lib_u64 \<Rightarrow> 'p x86_core_machine_memory_device_callbacks \<Rightarrow> 'o ptr \<Rightarrow> bool \<Rightarrow>
     ('p, 'o) t_ram \<Rightarrow> lib_status" where
  "x86_core_machine_memory_validate_device_provider physical_start bytes callbacks owner overlay ram =
     (if bytes = 0 \<or> dc_read callbacks = None \<or> dc_write callbacks = None \<or> dc_query callbacks = None \<or>
         owner = None \<or> ram_mappings_frozen ram then LIB_STATUS_INVALID_ARGUMENT
      else
        let final = ucast physical_start + bytes
        in if final > ucast LIB_UINT32_MAX + 1 \<or>
              length (ram_device_providers ram) \<ge> X86_CORE_MACHINE_MEMORY_DEVICE_PROVIDER_LIMIT
           then LIB_STATUS_NO_MEMORY
           else if \<not> overlay \<and> list_ex (\<lambda>existing. \<not> dp_overlay existing \<and>
                  ucast physical_start < ucast (dp_physical_start existing) + dp_bytes existing \<and>
                  ucast (dp_physical_start existing) < final) (ram_device_providers ram)
           then LIB_STATUS_INVALID_ARGUMENT else LIB_STATUS_OK)"

definition x86_core_machine_memory_reserve_device_provider ::
  "(nat \<Rightarrow> bool) \<Rightarrow> ('p, 'o) t_ram \<Rightarrow> lib_status \<times> ('p, 'o) t_ram" where
  "x86_core_machine_memory_reserve_device_provider alloc ram =
     (let capacity = ram_device_provider_capacity ram
      in if length (ram_device_providers ram) < capacity then (LIB_STATUS_OK, ram)
         else if capacity \<ge> X86_CORE_MACHINE_MEMORY_DEVICE_PROVIDER_LIMIT then (LIB_STATUS_NO_MEMORY, ram)
         else
           let grown = min X86_CORE_MACHINE_MEMORY_DEVICE_PROVIDER_LIMIT
                 (if capacity = 0 then X86_CORE_MACHINE_MEMORY_DEVICE_PROVIDER_INITIAL_CAPACITY
                  else capacity * 2)
           in if \<not> alloc grown then (LIB_STATUS_NO_MEMORY, ram)
              else (LIB_STATUS_OK, ram\<lparr>ram_device_provider_capacity := grown\<rparr>))"

definition x86_core_machine_memory_append_device_provider ::
  "lib_u32 \<Rightarrow> lib_u64 \<Rightarrow> 'p x86_core_machine_memory_device_callbacks \<Rightarrow> 'o ptr \<Rightarrow> 'p ptr \<Rightarrow>
     bool \<Rightarrow> bool \<Rightarrow> bool \<Rightarrow> bool \<Rightarrow> ('p, 'o) t_ram \<Rightarrow> ('p, 'o) t_ram" where
  "x86_core_machine_memory_append_device_provider physical_start bytes callbacks owner failure
       overlay raw_decode replacement fallback ram =
     ram\<lparr>ram_device_providers := ram_device_providers ram @
       [\<lparr>dp_physical_start = physical_start, dp_bytes = bytes, dp_read = the (dc_read callbacks),
         dp_read_instruction = None, dp_cache_probe = None, dp_write = the (dc_write callbacks),
         dp_query = the (dc_query callbacks), dp_failure = failure, dp_owner = the owner,
         dp_overlay = overlay, dp_raw_decode = raw_decode, dp_cpu_only = False,
         dp_replacement = replacement, dp_partial_claim = False, dp_fallback = fallback\<rparr>]\<rparr>"

text \<open>The five registrations differ in the flags they validate with and append.\<close>

definition register_provider ::
  "(nat \<Rightarrow> bool) \<Rightarrow> bool \<Rightarrow> bool \<Rightarrow> bool \<Rightarrow> bool \<Rightarrow> lib_u32 \<Rightarrow> lib_u64 \<Rightarrow>
     'p x86_core_machine_memory_device_callbacks \<Rightarrow> 'o ptr \<Rightarrow> 'p ptr \<Rightarrow> ('p, 'o) t_ram \<Rightarrow>
     lib_status \<times> ('p, 'o) t_ram" where
  "register_provider alloc overlay raw_decode replacement fallback physical_start bytes callbacks owner failure ram =
     (let status = x86_core_machine_memory_validate_device_provider physical_start bytes callbacks owner overlay ram
      in if status \<noteq> LIB_STATUS_OK then (status, ram)
         else case x86_core_machine_memory_reserve_device_provider alloc ram of
           (status, ram) \<Rightarrow>
             if status \<noteq> LIB_STATUS_OK then (status, ram)
             else (LIB_STATUS_OK, x86_core_machine_memory_append_device_provider physical_start bytes
                     callbacks owner failure overlay raw_decode replacement fallback ram))"

definition x86_core_machine_memory_register_device_provider where
  "x86_core_machine_memory_register_device_provider alloc = register_provider alloc False False False False"

definition x86_core_machine_memory_register_overlay_device_provider where
  "x86_core_machine_memory_register_overlay_device_provider alloc = register_provider alloc True False False False"

definition x86_core_machine_memory_register_raw_overlay_device_provider where
  "x86_core_machine_memory_register_raw_overlay_device_provider alloc = register_provider alloc True True False False"

definition x86_core_machine_memory_register_replacement_device_provider where
  "x86_core_machine_memory_register_replacement_device_provider alloc = register_provider alloc True False True False"

definition x86_core_machine_memory_register_fallback_device_provider where
  "x86_core_machine_memory_register_fallback_device_provider alloc = register_provider alloc True False False True"

definition x86_core_machine_memory_freeze_mappings :: "('p, 'o) t_ram \<Rightarrow> ('p, 'o) t_ram" where
  "x86_core_machine_memory_freeze_mappings ram = ram\<lparr>ram_mappings_frozen := True\<rparr>"

definition x86_core_machine_memory_unregister_owner :: "'o \<Rightarrow> ('p, 'o) t_ram \<Rightarrow> ('p, 'o) t_ram" where
  "x86_core_machine_memory_unregister_owner owner ram =
     ram\<lparr>ram_device_providers := filter (\<lambda>p. dp_owner p \<noteq> owner) (ram_device_providers ram),
       ram_write_observers := filter (\<lambda>s. snd s \<noteq> owner) (ram_write_observers ram)\<rparr>"

definition x86_core_machine_memory_reset :: "('p, 'o) t_ram \<Rightarrow> ('p, 'o) t_ram" where
  "x86_core_machine_memory_reset ram =
     (case ram_backing ram of
        None \<Rightarrow> ram
      | Some backing \<Rightarrow>
          ram\<lparr>ram_address_clear_mask := ad_reset_clear_mask (ram_address_decode ram),
            ram_backing := Some (replicate (length backing) 0),
            ram_parity := map_option (\<lambda>parity. replicate (length parity) 0) (ram_parity ram)\<rparr>)"

definition x86_core_machine_memory_finalize :: "('p, 'o) t_ram \<Rightarrow> ('p, 'o) t_ram" where
  "x86_core_machine_memory_finalize ram =
     (x86_core_machine_memory_release_parity ram)\<lparr>ram_device_providers := [],
       ram_device_provider_capacity := 0, ram_backing := None, ram_installed_bytes := 0\<rparr>"

text \<open>Real-mode addresses are formed in 32-bit arithmetic and decoded before the access.\<close>

definition real_address :: "('p, 'o) t_ram \<Rightarrow> lib_u16 \<Rightarrow> lib_u16 \<Rightarrow> lib_u32" where
  "real_address ram segment offset =
     x86_core_machine_memory_decode_address ram (push_bit 4 (ucast segment) + ucast offset)"

definition x86_core_machine_memory_read_real_from ::
  "('p, 'o, 'w) memory_io \<Rightarrow> ('p, 'o) t_ram \<Rightarrow> lib_u16 \<Rightarrow> lib_u16 \<Rightarrow> lib_u8 list \<Rightarrow> 'w \<Rightarrow>
     lib_status \<times> lib_u8 list \<times> 'w" where
  "x86_core_machine_memory_read_real_from io ram segment offset =
     x86_core_machine_memory_read_physical io ram True (real_address ram segment offset)"

definition x86_core_machine_memory_write_real_to ::
  "('p, 'o, 'w) memory_io \<Rightarrow> lib_u16 \<Rightarrow> lib_u16 \<Rightarrow> lib_u8 list \<Rightarrow> ('p, 'o) t_ram \<Rightarrow> 'w \<Rightarrow>
     lib_status \<times> ('p, 'o) t_ram \<times> 'w" where
  "x86_core_machine_memory_write_real_to io segment offset source ram =
     x86_core_machine_memory_write_physical io True (real_address ram segment offset) source ram"

section \<open>The machine's memory interface\<close>

text \<open>
  What the machine adds: whether its configuration is open, its lifecycle, and the invalidation of
  bytes the processor holds, which is a function on the world. For an array,
  \<open>None\<close> is the null pointer with a count that is not zero.
\<close>

record x86_core_machine_memory_alias_config =
  ma_physical_start :: lib_u32
  ma_backing_start :: lib_u32
  ma_bytes :: lib_u64

primrec install_aliases ::
  "bool \<Rightarrow> x86_core_machine_memory_mapping list \<Rightarrow> x86_core_machine_memory_alias_config list \<Rightarrow>
     ('p, 'o) t_ram \<Rightarrow> lib_status \<times> ('p, 'o) t_ram" where
  "install_aliases selected boundary [] ram = (LIB_STATUS_OK, ram)"
| "install_aliases selected boundary (a # as) ram =
     (case x86_core_machine_memory_register_mapping (ma_physical_start a) (ma_backing_start a) (ma_bytes a)
             selected ram of
        (status, ram) \<Rightarrow>
          if status \<noteq> LIB_STATUS_OK then (status, ram\<lparr>ram_mappings := boundary\<rparr>)
          else install_aliases selected boundary as ram)"

definition x86_core_machine_install_memory_aliases ::
  "bool \<Rightarrow> x86_core_machine_memory_alias_config list ptr \<Rightarrow> bool \<Rightarrow> ('p, 'o) t_ram \<Rightarrow>
     lib_status \<times> ('p, 'o) t_ram" where
  "x86_core_machine_install_memory_aliases configuration_open aliases selected ram =
     (if \<not> configuration_open then (LIB_STATUS_INVALID_STATE, ram)
      else case aliases of
        None \<Rightarrow> (LIB_STATUS_INVALID_ARGUMENT, ram)
      | Some as \<Rightarrow> install_aliases selected (ram_mappings ram) as ram)"

primrec set_first :: "('a \<Rightarrow> bool) \<Rightarrow> ('a \<Rightarrow> 'a) \<Rightarrow> 'a list \<Rightarrow> 'a list" where
  "set_first P f [] = []"
| "set_first P f (x # xs) = (if P x then f x # xs else x # set_first P f xs)"

definition x86_core_machine_set_memory_alias_decode ::
  "lib_u32 \<Rightarrow> lib_u64 \<Rightarrow> bool \<Rightarrow> bool \<Rightarrow> ('p, 'o) t_ram \<Rightarrow> lib_status \<times> ('p, 'o) t_ram" where
  "x86_core_machine_set_memory_alias_decode physical_start bytes selected writable ram =
     (let chosen = (\<lambda>m. mm_physical_start m = physical_start \<and> mm_bytes m = bytes)
      in if bytes = 0 \<or> \<not> list_ex chosen (ram_mappings ram) then (LIB_STATUS_INVALID_ARGUMENT, ram)
         else (LIB_STATUS_OK, ram\<lparr>ram_mappings :=
                 set_first chosen (\<lambda>m. m\<lparr>mm_selected := selected, mm_writable := writable\<rparr>)
                   (ram_mappings ram)\<rparr>))"

record 'p x86_core_machine_memory_device_route =
  dr_physical_start :: lib_u32
  dr_bytes :: lib_u64
  dr_callbacks :: "'p x86_core_machine_memory_device_callbacks"
  dr_mode :: x86_core_machine_memory_provider_mode
  dr_failure :: "'p ptr"

definition mark_last ::
  "(('p, 'o) memory_provider \<Rightarrow> ('p, 'o) memory_provider) \<Rightarrow> ('p, 'o) t_ram \<Rightarrow> ('p, 'o) t_ram" where
  "mark_last f ram =
     (let ps = ram_device_providers ram; k = length ps - 1
      in ram\<lparr>ram_device_providers := ps[k := f (ps ! k)]\<rparr>)"

definition register_route ::
  "(nat \<Rightarrow> bool) \<Rightarrow> 'o \<Rightarrow> 'p x86_core_machine_memory_device_route \<Rightarrow> ('p, 'o) t_ram \<Rightarrow>
     lib_status \<times> ('p, 'o) t_ram" where
  "register_route alloc owner route ram =
     (let mode = dr_mode route;
          register = (\<lambda>f. f alloc (dr_physical_start route) (dr_bytes route) (dr_callbacks route)
            (Some owner) (dr_failure route) ram);
          mark = (\<lambda>flags (status, ram). (status, if status = LIB_STATUS_OK then mark_last flags ram else ram))
      in case mode of
           X86_CORE_MACHINE_MEMORY_PROVIDER_STANDARD \<Rightarrow>
             register x86_core_machine_memory_register_device_provider
         | X86_CORE_MACHINE_MEMORY_PROVIDER_OVERLAY \<Rightarrow>
             register x86_core_machine_memory_register_overlay_device_provider
         | X86_CORE_MACHINE_MEMORY_PROVIDER_RESET_OVERLAY \<Rightarrow>
             mark (dp_cpu_only_update (\<lambda>_. False))
               (register x86_core_machine_memory_register_raw_overlay_device_provider)
         | X86_CORE_MACHINE_MEMORY_PROVIDER_CPU_OVERLAY \<Rightarrow>
             mark (dp_cpu_only_update (\<lambda>_. True))
               (register x86_core_machine_memory_register_raw_overlay_device_provider)
         | X86_CORE_MACHINE_MEMORY_PROVIDER_REPLACEMENT \<Rightarrow>
             register x86_core_machine_memory_register_replacement_device_provider
         | X86_CORE_MACHINE_MEMORY_PROVIDER_REPLACEMENT_PARTIAL \<Rightarrow>
             mark (dp_partial_claim_update (\<lambda>_. True))
               (register x86_core_machine_memory_register_replacement_device_provider)
         | X86_CORE_MACHINE_MEMORY_PROVIDER_FALLBACK \<Rightarrow>
             register x86_core_machine_memory_register_fallback_device_provider)"

primrec register_routes ::
  "(nat \<Rightarrow> bool) \<Rightarrow> 'o \<Rightarrow> 'p x86_core_machine_memory_device_route list \<Rightarrow> ('p, 'o) t_ram \<Rightarrow>
     lib_status \<times> ('p, 'o) t_ram" where
  "register_routes alloc owner [] ram = (LIB_STATUS_OK, ram)"
| "register_routes alloc owner (r # rs) ram =
     (case register_route alloc owner r ram of
        (status, ram) \<Rightarrow>
          if status \<noteq> LIB_STATUS_OK then (status, ram) else register_routes alloc owner rs ram)"

record 'p x86_core_machine_memory_parity_config =
  pc_bytes :: lib_u64
  pc_fault :: "'p ptr"

definition owner_present :: "'o \<Rightarrow> ('p, 'o) t_ram \<Rightarrow> bool" where
  "owner_present owner ram \<longleftrightarrow>
     list_ex (\<lambda>p. dp_owner p = owner) (ram_device_providers ram) \<or>
     list_ex (\<lambda>s. snd s = owner) (ram_write_observers ram)"

text \<open>The transaction over the table: every step, and the way back when one of them fails.\<close>

definition install_device_routes ::
  "(nat \<Rightarrow> bool) \<Rightarrow> 'p x86_core_machine_memory_device_route list \<Rightarrow> 'p ptr \<Rightarrow>
     'p x86_core_machine_memory_parity_config ptr \<Rightarrow> 'o \<Rightarrow> ('p, 'o) t_ram \<Rightarrow>
     lib_status \<times> ('p, 'o) t_ram" where
  "install_device_routes alloc routes observer parity owner ram =
     (let provider_count = length (ram_device_providers ram);
          observer_count = length (ram_write_observers ram);
          (status, ram) = (case parity of
             None \<Rightarrow> (LIB_STATUS_OK, ram)
           | Some p \<Rightarrow> x86_core_machine_memory_enable_parity alloc (pc_bytes p) (pc_fault p) (Some owner) ram)
      in if status \<noteq> LIB_STATUS_OK then (status, ram)
         else
           let (status, ram) = register_routes alloc owner routes ram;
               (status, ram) = (if status = LIB_STATUS_OK \<and> observer \<noteq> None
                  then x86_core_machine_memory_register_write_observer observer (Some owner) ram
                  else (status, ram))
           in if status \<noteq> LIB_STATUS_OK then
                let ram = ram\<lparr>ram_device_providers := take provider_count (ram_device_providers ram),
                      ram_write_observers := take observer_count (ram_write_observers ram)\<rparr>
                in (status, if parity \<noteq> None then x86_core_machine_memory_release_parity ram else ram)
              else (LIB_STATUS_OK, ram))"

definition x86_core_machine_install_memory_device_routes ::
  "(nat \<Rightarrow> bool) \<Rightarrow> bool \<Rightarrow> 'p x86_core_machine_memory_device_route list ptr \<Rightarrow> 'p ptr \<Rightarrow>
     'p x86_core_machine_memory_parity_config ptr \<Rightarrow> 'o ptr \<Rightarrow> ('p, 'o) t_ram \<Rightarrow>
     lib_status \<times> ('p, 'o) t_ram" where
  "x86_core_machine_install_memory_device_routes alloc admitted routes observer parity owner ram =
     (if \<not> admitted then (LIB_STATUS_INVALID_STATE, ram)
      else case (owner, routes) of
        (Some owner, Some routes) \<Rightarrow>
          (if routes = [] \<and> observer = None \<and> parity = None then (LIB_STATUS_INVALID_ARGUMENT, ram)
           else if owner_present owner ram then (LIB_STATUS_INVALID_STATE, ram)
           else install_device_routes alloc routes observer parity owner ram)
      | _ \<Rightarrow> (LIB_STATUS_INVALID_ARGUMENT, ram))"

definition owned_providers :: "'o \<Rightarrow> ('p, 'o) t_ram \<Rightarrow> ('p, 'o) indexed list" where
  "owned_providers owner ram =
     filter (\<lambda>c. dp_owner (snd c) = owner) (List.enumerate 0 (ram_device_providers ram))"

definition x86_core_machine_set_memory_device_range ::
  "(lib_u32 \<Rightarrow> lib_u64 \<Rightarrow> 'w \<Rightarrow> 'w) \<Rightarrow> 'o \<Rightarrow> lib_u32 \<Rightarrow> lib_u64 \<Rightarrow> ('p, 'o) t_ram \<Rightarrow> 'w \<Rightarrow>
     lib_status \<times> ('p, 'o) t_ram \<times> 'w" where
  "x86_core_machine_set_memory_device_range invalidate owner physical_start bytes ram w =
     (if bytes > ucast LIB_UINT32_MAX + 1 - ucast physical_start then (LIB_STATUS_INVALID_ARGUMENT, ram, w)
      else case owned_providers owner ram of
        [] \<Rightarrow> (LIB_STATUS_INVALID_ARGUMENT, ram, w)
      | (i, selected) # others \<Rightarrow>
          (if others \<noteq> [] \<or> \<not> dp_overlay selected \<or> dp_raw_decode selected
           then (LIB_STATUS_INVALID_STATE, ram, w)
           else
             let physical_start = (if bytes = 0 then 0 else physical_start);
                 old_start = dp_physical_start selected; old_bytes = dp_bytes selected
             in if old_start = physical_start \<and> old_bytes = bytes then (LIB_STATUS_OK, ram, w)
                else
                  let ram = ram\<lparr>ram_device_providers := (ram_device_providers ram)
                        [i := selected\<lparr>dp_physical_start := physical_start, dp_bytes := bytes\<rparr>]\<rparr>;
                      w = (if old_bytes \<noteq> 0 then invalidate old_start old_bytes w else w);
                      w = (if bytes \<noteq> 0 then invalidate physical_start bytes w else w)
                  in (LIB_STATUS_OK, ram, w)))"

definition set_owned ::
  "bool \<Rightarrow> 'o \<Rightarrow> (('p, 'o) memory_provider \<Rightarrow> ('p, 'o) memory_provider) \<Rightarrow> ('p, 'o) t_ram \<Rightarrow>
     lib_status \<times> ('p, 'o) t_ram" where
  "set_owned configuration_open owner f ram =
     (if \<not> configuration_open \<or> \<not> list_ex (\<lambda>p. dp_owner p = owner) (ram_device_providers ram)
      then (LIB_STATUS_INVALID_ARGUMENT, ram)
      else (LIB_STATUS_OK, ram\<lparr>ram_device_providers :=
              map (\<lambda>p. if dp_owner p = owner then f p else p) (ram_device_providers ram)\<rparr>))"

definition x86_core_machine_set_memory_instruction_read ::
  "bool \<Rightarrow> 'o \<Rightarrow> 'p \<Rightarrow> ('p, 'o) t_ram \<Rightarrow> lib_status \<times> ('p, 'o) t_ram" where
  "x86_core_machine_set_memory_instruction_read configuration_open owner read =
     set_owned configuration_open owner (dp_read_instruction_update (\<lambda>_. Some read))"

definition x86_core_machine_set_memory_cache_probe ::
  "bool \<Rightarrow> 'o \<Rightarrow> 'p \<Rightarrow> ('p, 'o) t_ram \<Rightarrow> lib_status \<times> ('p, 'o) t_ram" where
  "x86_core_machine_set_memory_cache_probe configuration_open owner probe =
     set_owned configuration_open owner (dp_cache_probe_update (\<lambda>_. Some probe))"

definition x86_core_machine_remove_memory_device_routes ::
  "x86_core_machine_lifecycle \<Rightarrow> 'o \<Rightarrow> ('p, 'o) t_ram \<Rightarrow> lib_status \<times> ('p, 'o) t_ram" where
  "x86_core_machine_remove_memory_device_routes lifecycle owner ram =
     (if lifecycle = X86_CORE_MACHINE_RUNNING then (LIB_STATUS_INVALID_STATE, ram)
      else
        let ram = x86_core_machine_memory_unregister_owner owner ram
        in (LIB_STATUS_OK,
            if map_option snd (ram_parity_fault ram) = Some owner
            then x86_core_machine_memory_release_parity ram else ram))"

text \<open>Access from outside: only at a stopped or paused boundary.\<close>

definition memory_boundary :: "x86_core_machine_lifecycle \<Rightarrow> ('p, 'o) t_ram \<Rightarrow> bool" where
  "memory_boundary lifecycle ram \<longleftrightarrow>
     (lifecycle = X86_CORE_MACHINE_STOPPED \<or> lifecycle = X86_CORE_MACHINE_PAUSED) \<and> ram_backing ram \<noteq> None"

definition x86_core_machine_memory_inspect ::
  "('p, 'o, 'w) memory_io \<Rightarrow> x86_core_machine_lifecycle \<Rightarrow> ('p, 'o) t_ram \<Rightarrow> lib_u32 \<Rightarrow> lib_u8 list \<Rightarrow> 'w \<Rightarrow>
     lib_status \<times> lib_u8 list \<times> 'w" where
  "x86_core_machine_memory_inspect io lifecycle ram physical data w =
     (if data = [] then (LIB_STATUS_INVALID_ARGUMENT, data, w)
      else if lifecycle = X86_CORE_MACHINE_RUNNING \<or> ram_backing ram = None
      then (LIB_STATUS_INVALID_STATE, data, w)
      else x86_core_machine_memory_inspect_physical io ram physical data False w)"

definition x86_core_machine_memory_read ::
  "('p, 'o, 'w) memory_io \<Rightarrow> x86_core_machine_lifecycle \<Rightarrow> ('p, 'o) t_ram \<Rightarrow> lib_u32 \<Rightarrow> lib_u8 list \<Rightarrow> 'w \<Rightarrow>
     lib_status \<times> lib_u8 list \<times> 'w" where
  "x86_core_machine_memory_read io lifecycle ram physical data w =
     (if data = [] then (LIB_STATUS_INVALID_ARGUMENT, data, w)
      else if \<not> memory_boundary lifecycle ram then (LIB_STATUS_INVALID_STATE, data, w)
      else x86_core_machine_memory_read_physical io ram True physical data w)"

definition x86_core_machine_memory_write ::
  "('p, 'o, 'w) memory_io \<Rightarrow> ('w \<Rightarrow> 'w) \<Rightarrow> bool \<Rightarrow> x86_core_machine_lifecycle \<Rightarrow> lib_u32 \<Rightarrow> lib_u8 list \<Rightarrow>
     ('p, 'o) t_ram \<Rightarrow> 'w \<Rightarrow> lib_status \<times> ('p, 'o) t_ram \<times> 'w" where
  "x86_core_machine_memory_write io invalidate_prefetch mutable_allowed lifecycle physical data ram w =
     (if \<not> mutable_allowed \<or> data = [] then (LIB_STATUS_INVALID_ARGUMENT, ram, w)
      else if \<not> memory_boundary lifecycle ram then (LIB_STATUS_INVALID_STATE, ram, w)
      else case x86_core_machine_memory_write_physical io True physical data ram w of
        (status, ram, w) \<Rightarrow> (status, ram, if status = LIB_STATUS_OK then invalidate_prefetch w else w))"

definition x86_core_machine_memory_query ::
  "('p, 'o, 'w) memory_io \<Rightarrow> x86_core_machine_lifecycle \<Rightarrow> ('p, 'o) t_ram \<Rightarrow> lib_u32 \<Rightarrow> lib_u64 \<Rightarrow>
     x86_core_machine_memory_access \<Rightarrow> 'w \<Rightarrow> lib_status \<times> x86_core_machine_memory_route ptr \<times> 'w" where
  "x86_core_machine_memory_query io lifecycle ram physical bytes access w =
     (if bytes = 0 then (LIB_STATUS_INVALID_ARGUMENT, None, w)
      else if \<not> memory_boundary lifecycle ram then (LIB_STATUS_INVALID_STATE, None, w)
      else x86_core_machine_memory_query_physical io ram physical bytes access True w)"

definition x86_core_machine_signal_address_clear_mask ::
  "lib_u32 \<Rightarrow> ('p, 'o) t_ram \<Rightarrow> lib_status \<times> ('p, 'o) t_ram" where
  "x86_core_machine_signal_address_clear_mask clear_mask ram =
     (if ram_backing ram = None then (LIB_STATUS_INVALID_STATE, ram)
      else (LIB_STATUS_OK, ram\<lparr>ram_address_clear_mask := clear_mask\<rparr>))"

definition x86_core_machine_set_address_clear_mask ::
  "bool \<Rightarrow> x86_core_machine_lifecycle \<Rightarrow> lib_u32 \<Rightarrow> ('p, 'o) t_ram \<Rightarrow> lib_status \<times> ('p, 'o) t_ram" where
  "x86_core_machine_set_address_clear_mask mutable_allowed lifecycle clear_mask ram =
     (if \<not> mutable_allowed then (LIB_STATUS_INVALID_ARGUMENT, ram)
      else if lifecycle \<noteq> X86_CORE_MACHINE_STOPPED \<and> lifecycle \<noteq> X86_CORE_MACHINE_PAUSED
      then (LIB_STATUS_INVALID_STATE, ram)
      else x86_core_machine_signal_address_clear_mask clear_mask ram)"

definition x86_core_machine_observe_address_clear_mask ::
  "('p, 'o) t_ram \<Rightarrow> lib_status \<times> lib_u32 ptr" where
  "x86_core_machine_observe_address_clear_mask ram =
     (if ram_backing ram = None then (LIB_STATUS_INVALID_STATE, None)
      else (LIB_STATUS_OK, Some (ram_address_clear_mask ram)))"

end
