(* ===== verification/Memory_Access.thy ===== *)
theory Memory_Access
  imports Memory
begin

unbundle bit_operations_syntax

text \<open>
  What an access to RAM does: the cell each address leads to, how a read or a write that no device
  takes part in is split, and that reading collects and writing stores the bytes of those cells, one
  by one, whichever way the access is carried out. The last section reads back what was written.
\<close>

section \<open>Window arithmetic\<close>

lemma unat_wide [simp]: "unat (ucast (a :: lib_u32) :: lib_u64) = unat a"
  by (rule unat_ucast_up) simp

lemma unat_u32_less: "unat (a :: lib_u32) < 2 ^ 32"
  using unsigned_less [of a, where 'a = nat] by simp

lemma unat_wide_add:
  assumes "unat n < 2 ^ 63"
  shows "unat (ucast (a :: lib_u32) + n :: lib_u64) = unat a + unat n"
  using assms unat_u32_less [of a] by (simp add: unat_word_ariths)

lemma unat_count [simp]: "n < 2 ^ 63 \<Longrightarrow> unat (of_nat n :: lib_u64) = n"
  by (simp add: unsigned_of_nat take_bit_nat_eq_self)

lemma end_of_space: "ucast LIB_UINT32_MAX + 1 = (0x100000000 :: lib_u64)"
  by code_simp

lemma window_contains_iff:
  assumes "unat n < 2 ^ 63"
  shows "window_contains start span physical n \<longleftrightarrow>
    unat start \<le> unat physical \<and> unat physical + unat n \<le> unat start + unat span"
proof -
  have "unat (ucast physical + n - ucast start) = unat physical + unat n - unat start"
    if "unat start \<le> unat physical"
    using that by (subst unat_sub) (simp_all add: word_le_nat_alt unat_wide_add [OF assms])
  then show ?thesis
    by (auto simp: window_contains_def word_le_nat_alt)
qed

section \<open>The layout a route depends on\<close>

text \<open>A memory whose backing and mappings fit.\<close>

definition ram_ok :: "('p, 'o) t_ram \<Rightarrow> bool" where
  "ram_ok ram \<longleftrightarrow>
     (\<exists>backing. ram_backing ram = Some backing \<and> unat (ram_installed_bytes ram) = length backing \<and>
        length backing < 2 ^ 63 \<and>
        (\<forall>m \<in> set (ram_mappings ram).
           unat (mm_backing_start m) + unat (mm_bytes m) \<le> length backing \<and>
           unat (mm_physical_start m) + unat (mm_bytes m) \<le> 2 ^ 32))"

definition in_window :: "('p, 'o) memory_provider \<Rightarrow> lib_u32 \<Rightarrow> bool" where
  "in_window p a \<longleftrightarrow>
     unat (dp_physical_start p) \<le> unat a \<and> unat a < unat (dp_physical_start p) + unat (dp_bytes p)"

text \<open>No device decodes a byte, at its own address or at the one behind the address lines.\<close>

definition no_device :: "('p, 'o) t_ram \<Rightarrow> lib_u32 \<Rightarrow> bool" where
  "no_device ram a \<longleftrightarrow> (\<forall>p \<in> set (ram_device_providers ram).
     \<not> in_window p a \<and> \<not> in_window p (x86_core_machine_memory_decode_address ram a))"

text \<open>The cell of the backing a byte address leads to.\<close>

definition ram_cell :: "('p, 'o) t_ram \<Rightarrow> lib_u32 \<Rightarrow> nat option" where
  "ram_cell ram a =
     (case find (\<lambda>m. mm_selected m \<and> mapping_contains m a 1) (ram_mappings ram) of
        Some m \<Rightarrow> Some (unat (mapping_offset m a))
      | None \<Rightarrow>
          (case x86_core_machine_memory_offset ram a (x86_core_machine_memory_decode_address ram a) 1 of
             (status, offset) \<Rightarrow> if status = LIB_STATUS_OK then Some (unat offset) else None))"

lemma window_contains_in:
  assumes "window_contains start span a n" "n \<noteq> 0" "unat n < 2 ^ 63"
  shows "unat start \<le> unat a \<and> unat a < unat start + unat span"
proof -
  have "0 < unat n" using assms(2) by (simp add: unat_gt_0)
  then show ?thesis using assms by (auto simp: window_contains_iff)
qed

lemma no_device_candidates:
  assumes "no_device ram a" "n \<noteq> 0" "unat n < 2 ^ 63"
  shows "raw_candidates ram cpu a n = []"
    "tier_candidates ram cpu (x86_core_machine_memory_decode_address ram a) n = []"
proof -
  have m: "\<not> provider_matches cpu b n p" if "\<not> in_window p b" for p b
    using that window_contains_in [OF _ assms(2,3), of "dp_physical_start p" "dp_bytes p" b]
    unfolding provider_matches_def in_window_def by blast
  have s: "snd c \<in> set (ram_device_providers ram)" if "c \<in> set (List.enumerate 0 (ram_device_providers ram))" for c
    using that nth_mem [of "fst c" "ram_device_providers ram"] by (auto simp: in_set_enumerate_eq)
  show "raw_candidates ram cpu a n = []"
    unfolding raw_candidates_def filter_empty_conv
    using m s assms(1) unfolding no_device_def by blast
  have e: "filter (\<lambda>c. provider_matches cpu (x86_core_machine_memory_decode_address ram a) n (snd c))
      (List.enumerate 0 (ram_device_providers ram)) = []"
    unfolding filter_empty_conv using m s assms(1) unfolding no_device_def by blast
  show "tier_candidates ram cpu (x86_core_machine_memory_decode_address ram a) n = []"
    unfolding tier_candidates_def e by simp
qed

lemma route_no_device:
  assumes "no_device ram a" "n \<noteq> 0" "unat n < 2 ^ 63"
  shows "x86_core_machine_memory_route_resolve io ram a n access notify cpu w =
    (let wrapped = x86_core_machine_memory_decode_address ram a
     in case find (\<lambda>m. mm_selected m \<and> mapping_contains m a n) (ram_mappings ram) of
          Some m \<Rightarrow> (LIB_STATUS_OK, (None, wrapped, mapping_offset m a), w)
        | None \<Rightarrow>
            (case x86_core_machine_memory_offset ram a wrapped n of
               (status, offset) \<Rightarrow>
                 if status \<noteq> LIB_STATUS_OK then (status, (None, 0, 0), w)
                 else (LIB_STATUS_OK, (None, wrapped, offset), w)))"
  using assms(2)
  by (simp add: x86_core_machine_memory_route_resolve_def no_device_candidates [OF assms] first_claim_def
      Let_def split: option.split)

lemma memory_offset_status:
  "ram_backing ram \<noteq> None \<Longrightarrow>
   fst (x86_core_machine_memory_offset ram a d n) \<in> {LIB_STATUS_OK, LIB_STATUS_INTERNAL_ERROR}"
  by (auto simp: x86_core_machine_memory_offset_def Let_def)

lemma route_one_no_device:
  assumes "no_device ram a" "ram_backing ram \<noteq> None"
  shows "x86_core_machine_memory_route_resolve io ram a 1 access notify cpu w =
    (case ram_cell ram a of
       None \<Rightarrow> (LIB_STATUS_INTERNAL_ERROR, (None, 0, 0), w)
     | Some c \<Rightarrow> (LIB_STATUS_OK, (None, x86_core_machine_memory_decode_address ram a, of_nat c), w))"
  using memory_offset_status [OF assms(2), of a "x86_core_machine_memory_decode_address ram a" 1]
  by (auto simp: route_no_device [OF assms(1)] ram_cell_def Let_def split: option.split prod.split)

lemma memory_offset_fits:
  assumes "x86_core_machine_memory_offset ram a d n = (LIB_STATUS_OK, offset)"
  shows "unat offset + unat n \<le> unat (ram_installed_bytes ram)"
proof -
  have "\<not> offset > ram_installed_bytes ram" "\<not> n > ram_installed_bytes ram - offset"
    using assms by (auto simp: x86_core_machine_memory_offset_def Let_def simp del: not_less split: if_splits)
  then have "unat offset \<le> unat (ram_installed_bytes ram)"
    "unat n \<le> unat (ram_installed_bytes ram) - unat offset"
    by (simp_all add: word_le_nat_alt not_less unat_sub)
  then show ?thesis by simp
qed

lemma ram_cell_less:
  assumes "ram_ok ram" "ram_cell ram a = Some c" "ram_backing ram = Some backing"
  shows "c < length backing"
proof -
  have ok: "unat (ram_installed_bytes ram) = length backing"
    "\<And>m. m \<in> set (ram_mappings ram) \<Longrightarrow> unat (mm_backing_start m) + unat (mm_bytes m) \<le> length backing"
    "length backing < 2 ^ 63"
    using assms by (auto simp: ram_ok_def)
  show ?thesis
  proof (cases "find (\<lambda>m. mm_selected m \<and> mapping_contains m a 1) (ram_mappings ram)")
    case (Some m)
    then have m: "m \<in> set (ram_mappings ram)" "mapping_contains m a 1"
      by (auto simp: find_Some_iff)
    then have w: "unat (mm_physical_start m) \<le> unat a" "unat a < unat (mm_physical_start m) + unat (mm_bytes m)"
      using window_contains_in [of "mm_physical_start m" "mm_bytes m" a 1] by (auto simp: mapping_contains_def)
    have d: "unat (ucast a - ucast (mm_physical_start m) :: lib_u64) = unat a - unat (mm_physical_start m)"
      using w(1) by (subst unat_sub) (simp_all add: word_le_nat_alt)
    have "unat (mapping_offset m a) = unat (mm_backing_start m) + (unat a - unat (mm_physical_start m))"
      unfolding mapping_offset_def
      by (subst unat_wide_add) (use d unat_u32_less [of a] in simp_all)
    then show ?thesis using Some assms(2) ok(2) [OF m(1)] w by (simp add: ram_cell_def)
  next
    case None
    then obtain offset where o: "x86_core_machine_memory_offset ram a
        (x86_core_machine_memory_decode_address ram a) 1 = (LIB_STATUS_OK, offset)" "c = unat offset"
      using assms(2) by (auto simp: ram_cell_def split: prod.splits if_splits)
    then show ?thesis using memory_offset_fits [OF o(1)] ok(1) by simp
  qed
qed

section \<open>The decision to split\<close>

lemma split_scan_no_device:
  assumes "\<forall>i \<in> set indices. no_device ram (physical + of_nat i)" "ram_backing ram \<noteq> None"
    "split_scan io ram physical access cpu None offset indices w = (d, w')"
  shows "w' = w" "d = KEEP_WHOLE \<Longrightarrow> \<forall>i \<in> set indices. \<exists>c. ram_cell ram (physical + of_nat i) = Some c \<and>
    of_nat c = offset + of_nat i" "d = REFUSE_ACCESS status \<Longrightarrow> status = LIB_STATUS_INTERNAL_ERROR"
  using assms(1,3)
  by (induction indices)
    (auto simp: route_one_no_device [OF _ assms(2)] Let_def split: option.splits if_splits)

lemma plain_span_cell:
  assumes "x86_core_machine_memory_is_plain_span ram physical (of_nat n)" "i < n" "n < 2 ^ 63"
    "unat physical + n \<le> unat (ram_installed_bytes ram)" "ram_backing ram \<noteq> None"
  shows "ram_cell ram (physical + of_nat i) = Some (unat physical + i)"
proof -
  have plain: "ram_address_clear_mask ram = 0" "ram_mappings ram = []"
    "(of_nat n :: lib_u64) \<le> ucast LIB_UINT32_MAX + 1 - ucast physical"
    using assms(1) by (auto simp: x86_core_machine_memory_is_plain_span_def)
  have "unat (0x100000000 - ucast physical :: lib_u64) = 2 ^ 32 - unat physical"
    using unat_u32_less [of physical]
    by (subst unat_sub) (simp_all add: word_le_nat_alt)
  then have le: "unat physical + n \<le> 2 ^ 32"
    using plain(3) assms(3) unat_u32_less [of physical]
    by (simp add: word_le_nat_alt end_of_space)
  then have i: "unat (physical + of_nat i) = unat physical + i"
    using assms(2) by (simp add: unat_word_ariths unsigned_of_nat take_bit_nat_eq_self)
  have "\<not> ucast (physical + of_nat i) > ram_installed_bytes ram"
    "\<not> 1 > ram_installed_bytes ram - ucast (physical + of_nat i)"
    using i assms(2,4) by (simp_all add: word_less_nat_alt unat_sub word_le_nat_alt not_less)
  then show ?thesis
    using assms(5) i plain
    by (simp add: ram_cell_def x86_core_machine_memory_offset_def x86_core_machine_memory_decode_address_def Let_def)
qed

text \<open>
  Without devices an access is carried out whole only when its bytes lead to consecutive cells.
\<close>

lemma split_decide_no_device:
  fixes physical :: lib_u32
  assumes dev: "\<forall>i < n. no_device ram (physical + of_nat i)" and n: "0 < n" "n < 2 ^ 63" and ram: "ram_ok ram"
    and route: "route = x86_core_machine_memory_route_resolve io ram physical (of_nat n) access True cpu w"
    and d: "split_decide io ram physical n access cpu route = (d, w')"
  shows "w' = w" "d = REFUSE_ACCESS status \<Longrightarrow> status = LIB_STATUS_INTERNAL_ERROR"
    "d = KEEP_WHOLE \<Longrightarrow> \<exists>a offset. fst (snd route) = (None, a, offset) \<and>
       (\<forall>i < n. ram_cell ram (physical + of_nat i) = Some (unat offset + i))"
proof -
  obtain backing where b: "ram_backing ram = Some backing" "unat (ram_installed_bytes ram) = length backing"
    "length backing < 2 ^ 63"
    using ram by (auto simp: ram_ok_def)
  have bn: "ram_backing ram \<noteq> None" using b by simp
  have nz: "(of_nat n :: lib_u64) \<noteq> 0" "unat (of_nat n :: lib_u64) < 2 ^ 63" "unat (of_nat n :: lib_u64) = n"
  proof -
    show u: "unat (of_nat n :: lib_u64) = n" by (rule unat_count [OF n(2)])
    show "(of_nat n :: lib_u64) \<noteq> 0" using u n(1) by (metis unsigned_0 neq0_conv)
    show "unat (of_nat n :: lib_u64) < 2 ^ 63" using u n(2) by simp
  qed
  have d0: "no_device ram physical" using spec [OF dev, of 0] n(1) by simp
  define wrapped where "wrapped = x86_core_machine_memory_decode_address ram physical"
  have r: "route = (case find (\<lambda>m. mm_selected m \<and> mapping_contains m physical (of_nat n)) (ram_mappings ram) of
          Some m \<Rightarrow> (LIB_STATUS_OK, (None, wrapped, mapping_offset m physical), w)
        | None \<Rightarrow>
            (case x86_core_machine_memory_offset ram physical wrapped (of_nat n) of
               (status, offset) \<Rightarrow>
                 if status \<noteq> LIB_STATUS_OK then (status, (None, 0, 0), w)
                 else (LIB_STATUS_OK, (None, wrapped, offset), w)))"
    unfolding route wrapped_def route_no_device [OF d0 nz(1,2)] Let_def ..
  have "fst (fst (snd route)) = None \<and> snd (snd route) = w"
    unfolding r by (simp split: option.split prod.split)
  then obtain st a offset where st: "route = (st, (None, a, offset), w)" by (metis prod.collapse)
  have stat: "st = LIB_STATUS_OK \<or> st = LIB_STATUS_INTERNAL_ERROR"
    using r st memory_offset_status [OF bn, of physical wrapped "of_nat n"]
    by (auto split: option.splits prod.splits if_splits)
  show "w' = w" and "d = REFUSE_ACCESS status \<Longrightarrow> status = LIB_STATUS_INTERNAL_ERROR"
    using d stat split_scan_no_device(1,3) [of "[0..<n]" ram physical io access cpu offset w d w'] dev bn
    unfolding st split_decide_def
    by (auto simp: Let_def split: if_splits)
  assume keep: "d = KEEP_WHOLE"
  have ok: "st = LIB_STATUS_OK" and whole: "\<not> x86_core_machine_memory_crosses_decode ram physical (of_nat n)"
    using d keep by (auto simp: st split_decide_def Let_def split: if_splits)
  consider (one) "n = 1" | (plain) "n > 1" "x86_core_machine_memory_is_plain_span ram physical (of_nat n)"
    | (scan) "n > 1" "\<not> x86_core_machine_memory_is_plain_span ram physical (of_nat n)"
    using n(1) by linarith
  then have "\<forall>i < n. ram_cell ram (physical + of_nat i) = Some (unat offset + i)"
  proof cases
    case one
    then have "route = (case ram_cell ram physical of
        None \<Rightarrow> (LIB_STATUS_INTERNAL_ERROR, (None, 0, 0), w)
      | Some c \<Rightarrow> (LIB_STATUS_OK, (None, wrapped, of_nat c), w))"
      unfolding route wrapped_def using route_one_no_device [OF d0 bn] by simp
    then obtain c where c: "ram_cell ram physical = Some c" "offset = of_nat c"
      using st ok by (auto split: option.splits)
    then show ?thesis using one ram_cell_less [OF ram c(1) b(1)] b(3) by simp
  next
    case plain
    have "x86_core_machine_memory_offset ram physical wrapped (of_nat n) = (LIB_STATUS_OK, offset)"
      using r st ok plain(2) by (auto simp: x86_core_machine_memory_is_plain_span_def split: prod.splits if_splits)
    note o = memory_offset_fits [OF this] this
    have "offset = ucast physical"
      using o(2) plain(2) by (auto simp: x86_core_machine_memory_is_plain_span_def wrapped_def
        x86_core_machine_memory_decode_address_def x86_core_machine_memory_offset_def Let_def split: if_splits)
    then show ?thesis using plain_span_cell [OF plain(2) _ n(2) _ bn] o(1) nz(3) by simp
  next
    case scan
    have "split_scan io ram physical access cpu None offset [0..<n] w = (KEEP_WHOLE, w')"
      using d keep scan whole ok by (simp add: st split_decide_def Let_def)
    note kept = split_scan_no_device(2) [OF _ bn this refl]
    have *: "\<exists>c. ram_cell ram (physical + of_nat i) = Some c \<and> of_nat c = offset + of_nat i" if "i < n" for i
      using kept dev that by simp
    obtain c0 where "ram_cell ram physical = Some c0" "of_nat c0 = offset" using *[OF n(1)] by auto
    then have o: "unat offset < 2 ^ 63" using ram_cell_less [OF ram _ b(1)] b(3) by fastforce
    show ?thesis
    proof (intro allI impI)
      fix i assume i: "i < n"
      obtain c where c: "ram_cell ram (physical + of_nat i) = Some c" "of_nat c = offset + of_nat i"
        using * [OF i] by blast
      have "c < 2 ^ 63" using ram_cell_less [OF ram c(1) b(1)] b(3) by simp
      then have "c = unat (offset + of_nat i)" using c(2) unat_count by metis
      also have "\<dots> = unat offset + i" using o i n(2) by (simp add: unat_word_ariths)
      finally show "ram_cell ram (physical + of_nat i) = Some (unat offset + i)" using c(1) by simp
    qed
  qed
  then show "\<exists>a offset. fst (snd route) = (None, a, offset) \<and>
       (\<forall>i < n. ram_cell ram (physical + of_nat i) = Some (unat offset + i))"
    by (simp add: st)
qed

lemma split_decide_one: "fst (split_decide io ram physical (Suc 0) access cpu route) \<noteq> SPLIT_BYTES"
  by (auto simp: split_decide_def x86_core_machine_memory_crosses_decode_def Let_def split: prod.split)

section \<open>Cells of the backing\<close>

definition ram_store :: "nat \<Rightarrow> lib_u8 \<Rightarrow> ('p, 'o) t_ram \<Rightarrow> ('p, 'o) t_ram" where
  "ram_store c b ram =
     ram\<lparr>ram_backing := map_option (\<lambda>bytes. bytes[c := b]) (ram_backing ram),
        ram_parity := map_option (\<lambda>parity. parity[c := x86_core_machine_memory_odd_parity b]) (ram_parity ram)\<rparr>"

definition store_bytes :: "(nat \<times> lib_u8) list \<Rightarrow> ('p, 'o) t_ram \<Rightarrow> ('p, 'o) t_ram" where
  "store_bytes = fold (\<lambda>(c, b). ram_store c b)"

definition parity_ok :: "('p, 'o) t_ram \<Rightarrow> bool" where
  "parity_ok ram \<longleftrightarrow> (\<forall>parity backing. ram_parity ram = Some parity \<and> ram_backing ram = Some backing \<longrightarrow>
     (\<forall>i < min (length parity) (length backing).
        parity ! i = x86_core_machine_memory_odd_parity (backing ! i)))"

lemma length_put_bytes [simp]: "length (put_bytes k xs l) = length l"
  by (auto simp: put_bytes_def min_def)

lemma nth_put_bytes:
  "i < length l \<Longrightarrow> put_bytes k xs l ! i = (if k \<le> i \<and> i < k + length xs then xs ! (i - k) else l ! i)"
  by (auto simp: put_bytes_def nth_append min_def)

lemma put_bytes_Cons: "put_bytes k (x # xs) l = put_bytes (Suc k) xs (l[k := x])"
  by (rule nth_equalityI) (auto simp: nth_put_bytes nth_Cons' nth_list_update)

lemma put_bytes_Nil: "put_bytes k [] l = l"
  by (rule nth_equalityI) (auto simp: nth_put_bytes)

lemma put_bytes_store:
  assumes "ram_backing ram = Some backing"
  shows "parity_update offset source (ram\<lparr>ram_backing := Some (put_bytes (unat offset) source backing)\<rparr>) =
    store_bytes (zip [unat offset..<unat offset + length source] source) ram"
proof -
  have *: "store_bytes (zip [k..<k + length xs] xs) ram =
      ram\<lparr>ram_backing := map_option (put_bytes k xs) (ram_backing ram),
        ram_parity := map_option (put_bytes k (map x86_core_machine_memory_odd_parity xs)) (ram_parity ram)\<rparr>"
    for k xs and ram :: "('a, 'b) t_ram"
  proof (induction xs arbitrary: k ram)
    case Nil
    then show ?case by (simp add: store_bytes_def put_bytes_Nil option.map_ident)
  next
    case (Cons x xs)
    have "zip [k..<k + length (x # xs)] (x # xs) = (k, x) # zip [Suc k..<Suc k + length xs] xs"
      by (simp add: upt_conv_Cons del: upt_Suc)
    then show ?case
      using Cons [of "Suc k" "ram_store k x ram"]
      by (simp add: store_bytes_def ram_store_def put_bytes_Cons option.map_comp comp_def)
  qed
  have out: "put_bytes k xs l = l" if "length l \<le> k" for k and xs l :: "lib_u8 list"
    using that by (intro nth_equalityI) (auto simp: nth_put_bytes)
  show ?thesis
    unfolding * by (cases "ram_parity ram") (auto simp: parity_update_def assms out)
qed

lemma ram_store_fields [simp]:
  "ram_address_clear_mask (ram_store c b ram) = ram_address_clear_mask ram"
  "ram_installed_bytes (ram_store c b ram) = ram_installed_bytes ram"
  "ram_mappings (ram_store c b ram) = ram_mappings ram"
  "ram_device_providers (ram_store c b ram) = ram_device_providers ram"
  "ram_address_decode (ram_store c b ram) = ram_address_decode ram"
  "ram_write_observers (ram_store c b ram) = ram_write_observers ram"
  "ram_cpu_snoop (ram_store c b ram) = ram_cpu_snoop ram"
  "(ram_backing (ram_store c b ram) = None) = (ram_backing ram = None)"
  by (simp_all add: ram_store_def)

lemma store_same_layout [simp]:
  "x86_core_machine_memory_decode_address (ram_store c b ram) = x86_core_machine_memory_decode_address ram"
  "x86_core_machine_memory_offset (ram_store c b ram) = x86_core_machine_memory_offset ram"
  "ram_cell (ram_store c b ram) = ram_cell ram"
  "no_device (ram_store c b ram) = no_device ram"
  "write_protected (ram_store c b ram) = write_protected ram"
  "ram_ok (ram_store c b ram) = ram_ok ram"
proof -
  show d: "x86_core_machine_memory_decode_address (ram_store c b ram) = x86_core_machine_memory_decode_address ram"
    by (simp add: fun_eq_iff x86_core_machine_memory_decode_address_def)
  show o: "x86_core_machine_memory_offset (ram_store c b ram) = x86_core_machine_memory_offset ram"
    unfolding fun_eq_iff x86_core_machine_memory_offset_def by (simp only: ram_store_fields) simp
  show "ram_cell (ram_store c b ram) = ram_cell ram" unfolding ram_cell_def d o by simp
  show "no_device (ram_store c b ram) = no_device ram" unfolding no_device_def d by simp
  show "write_protected (ram_store c b ram) = write_protected ram" by (simp add: fun_eq_iff write_protected_def)
  show "ram_ok (ram_store c b ram) = ram_ok ram" by (auto simp: ram_ok_def ram_store_def)
qed

lemma store_bytes_layout [simp]:
  "ram_cell (store_bytes cs ram) = ram_cell ram" "no_device (store_bytes cs ram) = no_device ram"
  "write_protected (store_bytes cs ram) = write_protected ram" "ram_ok (store_bytes cs ram) = ram_ok ram"
  by (induction cs arbitrary: ram) (auto simp: store_bytes_def)

lemma parity_ok_store:
  assumes "parity_ok ram"
  shows "parity_ok (ram_store c b ram)"
proof (cases "ram_parity ram"; cases "ram_backing ram")
  fix parity backing assume p: "ram_parity ram = Some parity" "ram_backing ram = Some backing"
  then have "parity ! i = x86_core_machine_memory_odd_parity (backing ! i)"
    if "i < length parity" "i < length backing" for i
    using assms that by (simp add: parity_ok_def)
  then have "parity[c := x86_core_machine_memory_odd_parity b] ! i =
      x86_core_machine_memory_odd_parity (backing[c := b] ! i)" if "i < length parity" "i < length backing" for i
    using that by (cases "i = c") simp_all
  then show ?thesis using p by (simp add: parity_ok_def ram_store_def)
qed (simp_all add: parity_ok_def ram_store_def)

lemma parity_ok_store_bytes: "parity_ok ram \<Longrightarrow> parity_ok (store_bytes cs ram)"
  by (induction cs arbitrary: ram) (auto simp: store_bytes_def parity_ok_store)

lemma store_bytes_backing:
  assumes "ram_backing ram = Some backing" "distinct (map fst cs)" "\<forall>x \<in> set cs. fst x < length backing"
  obtains backing' where "ram_backing (store_bytes cs ram) = Some backing'" "length backing' = length backing"
    "\<forall>(c, b) \<in> set cs. backing' ! c = b" "\<forall>c. c \<notin> fst ` set cs \<longrightarrow> backing' ! c = backing ! c"
proof -
  have "\<exists>backing'. ram_backing (store_bytes cs ram) = Some backing' \<and> length backing' = length backing \<and>
      (\<forall>(c, b) \<in> set cs. backing' ! c = b) \<and> (\<forall>c. c \<notin> fst ` set cs \<longrightarrow> backing' ! c = backing ! c)"
    using assms
  proof (induction cs arbitrary: ram backing)
    case Nil
    then show ?case by (simp add: store_bytes_def)
  next
    case (Cons x cs)
    obtain c b where x: "x = (c, b)" by force
    have s: "ram_backing (ram_store c b ram) = Some (backing[c := b])" using Cons.prems(1) by (simp add: ram_store_def)
    obtain backing' where b': "ram_backing (store_bytes cs (ram_store c b ram)) = Some backing'"
      "length backing' = length backing" "\<forall>(c, b) \<in> set cs. backing' ! c = b"
      "\<forall>c'. c' \<notin> fst ` set cs \<longrightarrow> backing' ! c' = backing[c := b] ! c'"
      using Cons.IH [OF s] Cons.prems(2,3) by auto
    have "c \<notin> fst ` set cs" "c < length backing" using Cons.prems(2,3) x by auto
    then show ?case using b' x by (auto simp: store_bytes_def nth_list_update)
  qed
  then show ?thesis using that by blast
qed

section \<open>Reading RAM\<close>

lemma parity_mismatch_none:
  assumes "parity_ok ram" "ram_parity ram = Some parity" "ram_backing ram = Some backing"
  shows "parity_mismatch parity offset (take n (drop offset backing)) = None"
proof -
  have "parity ! j = x86_core_machine_memory_odd_parity (backing ! j)" if "j < length parity" "j < length backing" for j
    using assms that by (simp add: parity_ok_def)
  then show ?thesis by (simp add: parity_mismatch_def find_None_iff less_diff_conv add.commute)
qed

lemma parity_check_silent:
  assumes "parity_ok ram" "ram_backing ram = Some backing"
  shows "parity_check io ram physical offset (take n (drop (unat offset) backing)) w = w"
  by (auto simp: parity_check_def parity_mismatch_none [OF assms(1) _ assms(2)] split: option.split)

lemma backing_read_ok:
  assumes "parity_ok ram" "ram_backing ram = Some backing"
  shows "backing_read io ram physical offset observe n w =
    (LIB_STATUS_OK, take n (drop (unat offset) backing), w)"
  by (simp add: backing_read_def Let_def parity_check_silent [OF assms] assms(2))

lemma read_each_bytes:
  assumes "\<forall>i < length ds. \<forall>d w. r (physical + of_nat i) [d] w =
      (if B i = None then (LIB_STATUS_INTERNAL_ERROR, [d], w) else (LIB_STATUS_OK, [the (B i)], w))"
    "read_each r physical ds w = (status, ds', w')"
  shows "w' = w" "status \<noteq> LIB_STATUS_OK \<Longrightarrow> status = LIB_STATUS_INTERNAL_ERROR"
    "status = LIB_STATUS_OK \<Longrightarrow> (\<forall>i < length ds. B i \<noteq> None) \<and> ds' = map (the \<circ> B) [0..<length ds]"
    "\<forall>i < length ds. B i \<noteq> None \<Longrightarrow> status = LIB_STATUS_OK"
proof -
  have "w' = w \<and> (if status = LIB_STATUS_OK then (\<forall>i < length ds. B i \<noteq> None) \<and> ds' = map (the \<circ> B) [0..<length ds]
      else status = LIB_STATUS_INTERNAL_ERROR \<and> (\<exists>i < length ds. B i = None))"
    using assms
  proof (induction ds arbitrary: physical B ds' w status w')
    case Nil
    then show ?case by simp
  next
    case (Cons d ds)
    have f: "r physical [d] w = (if B 0 = None then (LIB_STATUS_INTERNAL_ERROR, [d], w)
        else (LIB_STATUS_OK, [the (B 0)], w))"
      using spec [OF Cons.prems(1), of 0] by simp
    have later: "\<forall>i < length ds. \<forall>d w. r (physical + 1 + of_nat i) [d] w =
        (if (B \<circ> Suc) i = None then (LIB_STATUS_INTERNAL_ERROR, [d], w)
         else (LIB_STATUS_OK, [the ((B \<circ> Suc) i)], w))"
      using Cons.prems(1) by (auto simp: add.assoc dest: spec [of _ "Suc _"])
    show ?case
    proof (cases "B 0 = None")
      case True
      then show ?thesis using Cons.prems(2) f by (auto intro: exI [of _ 0])
    next
      case False
      obtain s2 ds2 w2 where e: "read_each r (physical + 1) ds w = (s2, ds2, w2)" by (metis surj_pair)
      then have res: "status = s2" "ds' = the (B 0) # ds2" "w' = w2"
        using Cons.prems(2) f False by simp_all
      have "map (the \<circ> B) [0..<length (d # ds)] = the (B 0) # map (the \<circ> (B \<circ> Suc)) [0..<length ds]"
        by (simp add: upt_conv_Cons map_Suc_upt [symmetric] comp_assoc del: upt_Suc)
      then show ?thesis
        using Cons.IH [OF later e] False res by (auto simp: less_Suc_eq_0_disj split: if_splits)
    qed
  qed
  then show "w' = w" "status \<noteq> LIB_STATUS_OK \<Longrightarrow> status = LIB_STATUS_INTERNAL_ERROR"
    "status = LIB_STATUS_OK \<Longrightarrow> (\<forall>i < length ds. B i \<noteq> None) \<and> ds' = map (the \<circ> B) [0..<length ds]"
    "\<forall>i < length ds. B i \<noteq> None \<Longrightarrow> status = LIB_STATUS_OK"
    by (auto split: if_splits)
qed

text \<open>The byte a cell holds.\<close>

definition ram_byte :: "('p, 'o) t_ram \<Rightarrow> lib_u32 \<Rightarrow> lib_u8 option" where
  "ram_byte ram a = map_option (\<lambda>c. the (ram_backing ram) ! c) (ram_cell ram a)"

lemma read_one:
  assumes "no_device ram physical" "ram_ok ram" "parity_ok ram"
  shows "read_call r io ram observe fetch cpu physical [d] w =
    (if ram_byte ram physical = None then (LIB_STATUS_INTERNAL_ERROR, [d], w)
     else (LIB_STATUS_OK, [the (ram_byte ram physical)], w))"
proof -
  obtain backing where b: "ram_backing ram = Some backing" "length backing < 2 ^ 63"
    using assms(2) by (auto simp: ram_ok_def)
  have bn: "ram_backing ram \<noteq> None" using b by simp
  note route = route_one_no_device [OF assms(1) bn, of io X86_CORE_MACHINE_MEMORY_ACCESS_READ True cpu w]
  have nc: "\<not> x86_core_machine_memory_crosses_decode ram physical 1"
    by (simp add: x86_core_machine_memory_crosses_decode_def Let_def)
  show ?thesis
  proof (cases "ram_cell ram physical")
    case None
    then show ?thesis
      using route nc by (simp add: read_call_def split_decide_def Let_def ram_byte_def)
  next
    case (Some c)
    have c: "c < length backing" by (rule ram_cell_less [OF assms(2) Some b(1)])
    then have "take 1 (drop (unat (of_nat c :: lib_u64)) backing) = [backing ! c]"
      using b(2) by (simp add: take_Suc_conv_app_nth)
    then show ?thesis
      using route nc Some b(1)
      by (simp add: read_call_def split_decide_def Let_def ram_byte_def read_whole_def
          backing_read_ok [OF assms(3) b(1)])
  qed
qed

lemma read_call_bytes:
  assumes dev: "\<forall>i < length ds. no_device ram (physical + of_nat i)" and ram: "ram_ok ram" "parity_ok ram"
    and n: "ds \<noteq> []" "length ds < 2 ^ 63"
    and run: "read_call (read_call r io ram observe fetch cpu) io ram observe fetch cpu physical ds w = (status, ds', w')"
  shows "w' = w" "status \<noteq> LIB_STATUS_OK \<Longrightarrow> status = LIB_STATUS_INTERNAL_ERROR"
    "status = LIB_STATUS_OK \<Longrightarrow> (\<forall>i < length ds. ram_byte ram (physical + of_nat i) \<noteq> None) \<and>
       ds' = map (\<lambda>i. the (ram_byte ram (physical + of_nat i))) [0..<length ds]"
proof -
  obtain backing where b: "ram_backing ram = Some backing" using ram by (auto simp: ram_ok_def)
  define route where "route = x86_core_machine_memory_route_resolve io ram physical (of_nat (length ds))
    X86_CORE_MACHINE_MEMORY_ACCESS_READ True cpu w"
  obtain d w1 where d: "split_decide io ram physical (length ds) X86_CORE_MACHINE_MEMORY_ACCESS_READ cpu route = (d, w1)"
    by (metis surj_pair)
  have pos: "0 < length ds" using n(1) by simp
  note decide = split_decide_no_device [OF dev pos n(2) ram(1) route_def d]
  have w1: "w1 = w" by (rule decide(1))
  have r: "read_call (read_call r io ram observe fetch cpu) io ram observe fetch cpu physical ds w =
      (case d of REFUSE_ACCESS status \<Rightarrow> (status, ds, w)
       | SPLIT_BYTES \<Rightarrow> read_each (read_call r io ram observe fetch cpu) physical ds w
       | KEEP_WHOLE \<Rightarrow> read_whole io ram physical (fst (snd route)) observe fetch ds w)"
    using n(1) d w1
    unfolding read_call_def [of "read_call r io ram observe fetch cpu"] Let_def route_def [symmetric]
    by (simp split: split_decision.split)
  have "w' = w \<and> (if status = LIB_STATUS_OK then (\<forall>i < length ds. ram_byte ram (physical + of_nat i) \<noteq> None) \<and>
       ds' = map (\<lambda>i. the (ram_byte ram (physical + of_nat i))) [0..<length ds]
     else status = LIB_STATUS_INTERNAL_ERROR)"
  proof (cases d)
    case SPLIT_BYTES
    have "\<forall>i < length ds. \<forall>d w. read_call r io ram observe fetch cpu (physical + of_nat i) [d] w =
      (if (\<lambda>i. ram_byte ram (physical + of_nat i)) i = None then (LIB_STATUS_INTERNAL_ERROR, [d], w)
       else (LIB_STATUS_OK, [the ((\<lambda>i. ram_byte ram (physical + of_nat i)) i)], w))"
    proof (intro allI impI)
      fix i d w assume "i < length ds"
      then have "no_device ram (physical + of_nat i)" using dev by blast
      from read_one [OF this ram, of r io observe fetch cpu d w]
      show "read_call r io ram observe fetch cpu (physical + of_nat i) [d] w =
        (if (\<lambda>i. ram_byte ram (physical + of_nat i)) i = None then (LIB_STATUS_INTERNAL_ERROR, [d], w)
         else (LIB_STATUS_OK, [the ((\<lambda>i. ram_byte ram (physical + of_nat i)) i)], w))" by simp
    qed
    from read_each_bytes [OF this] show ?thesis using run r SPLIT_BYTES by (auto simp: comp_def)
  next
    case KEEP_WHOLE
    obtain a offset where o: "fst (snd route) = (None, a, offset)"
      "\<forall>i < length ds. ram_cell ram (physical + of_nat i) = Some (unat offset + i)"
      using decide(3) [OF KEEP_WHOLE] by blast
    have "ram_cell ram (physical + of_nat (length ds - 1)) = Some (unat offset + (length ds - 1))"
      using o(2) pos by auto
    then have "unat offset + length ds \<le> length backing"
      using ram_cell_less [OF ram(1) _ b] pos by fastforce
    then have "take (length ds) (drop (unat offset) backing) =
        map (\<lambda>i. the (ram_byte ram (physical + of_nat i))) [0..<length ds]"
      using o(2) b by (intro nth_equalityI) (auto simp: ram_byte_def)
    then show ?thesis
      using run r KEEP_WHOLE o b by (auto simp: read_whole_def backing_read_ok [OF ram(2) b] ram_byte_def)
  next
    case (REFUSE_ACCESS st)
    then show ?thesis using run r decide(2) [OF REFUSE_ACCESS] by auto
  qed
  then show "w' = w" "status \<noteq> LIB_STATUS_OK \<Longrightarrow> status = LIB_STATUS_INTERNAL_ERROR"
    "status = LIB_STATUS_OK \<Longrightarrow> (\<forall>i < length ds. ram_byte ram (physical + of_nat i) \<noteq> None) \<and>
       ds' = map (\<lambda>i. the (ram_byte ram (physical + of_nat i))) [0..<length ds]"
    by (auto split: if_splits)
qed

section \<open>Writing RAM\<close>

lemma store_bytes_append: "store_bytes (xs @ ys) ram = store_bytes ys (store_bytes xs ram)"
  by (simp add: store_bytes_def)

lemma write_protected_first:
  assumes "\<not> write_protected ram a 1" "n \<noteq> 0" "unat n < 2 ^ 63"
  shows "\<not> write_protected ram a n"
proof
  assume "write_protected ram a n"
  then obtain m where m: "m \<in> set (ram_mappings ram)" "mm_selected m" "\<not> mm_writable m" "mapping_contains m a n"
    by (auto simp: write_protected_def list_ex_iff)
  have "mapping_contains m a 1"
    using window_contains_in [of "mm_physical_start m" "mm_bytes m" a n] m(4) assms(2,3)
    by (simp add: mapping_contains_def window_contains_iff [of 1])
  then show False using m assms(1) by (auto simp: write_protected_def list_ex_iff)
qed

text \<open>A RAM write stores its bytes and tells the snoop and the observers.\<close>

lemma backing_write_ok:
  assumes "\<not> write_protected ram physical (of_nat (length source))" "ram_backing ram = Some backing"
    "backing_write io physical offset source ram w = (status, ram', w')"
  shows "status = LIB_STATUS_OK" "ram' = store_bytes (zip [unat offset..<unat offset + length source] source) ram"
  using assms by (auto simp: backing_write_def Let_def put_bytes_store)

lemma write_each_bytes:
  assumes step: "\<And>i b ram w. i < length bs \<Longrightarrow> Q ram \<Longrightarrow>
      \<exists>w'. r (physical + of_nat i) [b] ram w =
        (if C i = None then (LIB_STATUS_INTERNAL_ERROR, ram, w') else (LIB_STATUS_OK, ram_store (the (C i)) b ram, w'))"
    and Q: "\<And>c b ram. Q ram \<Longrightarrow> Q (ram_store c b ram)" "Q ram"
    and run: "write_each r physical bs ram w = (status, ram', w')"
  shows "\<exists>k \<le> length bs. ram' = store_bytes (zip (map (the \<circ> C) [0..<k]) bs) ram \<and>
    (if status = LIB_STATUS_OK then k = length bs \<and> (\<forall>i < length bs. C i \<noteq> None)
     else status = LIB_STATUS_INTERNAL_ERROR)"
  using step Q run
proof (induction bs arbitrary: physical C ram w status ram' w')
  case Nil
  then show ?case by (simp add: store_bytes_def)
next
  case (Cons b bs)
  obtain w1 where f: "r physical [b] ram w = (if C 0 = None then (LIB_STATUS_INTERNAL_ERROR, ram, w1)
      else (LIB_STATUS_OK, ram_store (the (C 0)) b ram, w1))"
    using Cons.prems(1) [of 0 ram b w] Cons.prems(3) by auto
  show ?case
  proof (cases "C 0 = None")
    case True
    then show ?thesis using f Cons.prems(4) by (auto simp: store_bytes_def intro: exI [of _ 0])
  next
    case False
    obtain s2 ram2 w2 where e: "write_each r (physical + 1) bs (ram_store (the (C 0)) b ram) w1 = (s2, ram2, w2)"
      by (metis surj_pair)
    then have res: "status = s2" "ram' = ram2" using Cons.prems(4) f False by simp_all
    have st: "\<exists>w'. r (physical + 1 + of_nat i) [b'] ram w =
        (if (C \<circ> Suc) i = None then (LIB_STATUS_INTERNAL_ERROR, ram, w')
         else (LIB_STATUS_OK, ram_store (the ((C \<circ> Suc) i)) b' ram, w'))" if "i < length bs" "Q ram" for i b' ram w
      using Cons.prems(1) [of "Suc i" ram b' w] that
      unfolding comp_apply by (simp add: add.assoc split del: if_split)
    obtain k where k: "k \<le> length bs"
      "ram2 = store_bytes (zip (map (the \<circ> (C \<circ> Suc)) [0..<k]) bs) (ram_store (the (C 0)) b ram)"
      "if s2 = LIB_STATUS_OK then k = length bs \<and> (\<forall>i < length bs. (C \<circ> Suc) i \<noteq> None)
       else s2 = LIB_STATUS_INTERNAL_ERROR"
      using Cons.IH [OF st Cons.prems(2) Cons.prems(2) [OF Cons.prems(3)] e] by blast
    have "map (the \<circ> C) [0..<Suc k] = the (C 0) # map (the \<circ> (C \<circ> Suc)) [0..<k]"
      by (simp add: upt_conv_Cons map_Suc_upt [symmetric] comp_assoc del: upt_Suc)
    then have "ram2 = store_bytes (zip (map (the \<circ> C) [0..<Suc k]) (b # bs)) ram"
      using k(2) by (simp add: store_bytes_def del: upt_Suc)
    then show ?thesis
      using k(1,3) res False by (intro exI [of _ "Suc k"]) (auto simp: less_Suc_eq_0_disj comp_def split: if_splits)
  qed
qed

text \<open>No device and no write-protected window at any byte, and a memory that fits.\<close>

definition plain_range :: "('p, 'o) t_ram \<Rightarrow> lib_u32 \<Rightarrow> nat \<Rightarrow> bool" where
  "plain_range ram physical n \<longleftrightarrow> ram_ok ram \<and>
     (\<forall>i < n. no_device ram (physical + of_nat i) \<and> \<not> write_protected ram (physical + of_nat i) 1)"

lemma plain_range_store [simp]:
  "plain_range (ram_store c b ram) = plain_range ram" "plain_range (store_bytes cs ram) = plain_range ram"
  by (simp_all add: fun_eq_iff plain_range_def)

lemma write_one:
  assumes "no_device ram physical" "\<not> write_protected ram physical 1" "ram_ok ram"
  shows "\<exists>w'. write_call r io cpu physical [b] ram w =
    (if ram_cell ram physical = None then (LIB_STATUS_INTERNAL_ERROR, ram, w')
     else (LIB_STATUS_OK, ram_store (the (ram_cell ram physical)) b ram, w'))"
proof -
  obtain backing where b: "ram_backing ram = Some backing" "length backing < 2 ^ 63"
    using assms(3) by (auto simp: ram_ok_def)
  have bn: "ram_backing ram \<noteq> None" using b by simp
  note route = route_one_no_device [OF assms(1) bn, of io X86_CORE_MACHINE_MEMORY_ACCESS_WRITE True cpu w]
  have nc: "\<not> x86_core_machine_memory_crosses_decode ram physical 1"
    by (simp add: x86_core_machine_memory_crosses_decode_def Let_def)
  show ?thesis
  proof (cases "ram_cell ram physical")
    case None
    then show ?thesis using route nc by (simp add: write_call_def split_decide_def Let_def)
  next
    case (Some c)
    have c: "c < 2 ^ 63" using ram_cell_less [OF assms(3) Some b(1)] b(2) by simp
    obtain s ram' w' where w: "backing_write io physical (of_nat c) [b] ram w = (s, ram', w')" by (metis surj_pair)
    have "s = LIB_STATUS_OK \<and> ram' = ram_store c b ram"
      using backing_write_ok [OF _ b(1) w] assms(2) c by (simp add: store_bytes_def)
    then show ?thesis
      using route nc Some w by (simp add: write_call_def split_decide_def Let_def write_whole_def)
  qed
qed

lemma write_call_bytes:
  fixes ram :: "('p, 'o) t_ram"
  assumes plain: "plain_range ram physical (length bs)" and n: "bs \<noteq> []" "length bs < 2 ^ 63"
    and run: "write_call (write_call r io cpu) io cpu physical bs ram w = (status, ram', w')"
  shows "\<exists>k \<le> length bs.
    ram' = store_bytes (zip (map (\<lambda>i. the (ram_cell ram (physical + of_nat i))) [0..<k]) bs) ram \<and>
    (if status = LIB_STATUS_OK then k = length bs \<and> (\<forall>i < length bs. ram_cell ram (physical + of_nat i) \<noteq> None)
     else status = LIB_STATUS_INTERNAL_ERROR)"
proof -
  have dev: "\<forall>i < length bs. no_device ram (physical + of_nat i)" and ram: "ram_ok ram"
    and wp: "\<And>i. i < length bs \<Longrightarrow> \<not> write_protected ram (physical + of_nat i) 1"
    using plain by (auto simp: plain_range_def)
  obtain backing where b: "ram_backing ram = Some backing" using ram by (auto simp: ram_ok_def)
  define route where "route = x86_core_machine_memory_route_resolve io ram physical (of_nat (length bs))
    X86_CORE_MACHINE_MEMORY_ACCESS_WRITE True cpu w"
  obtain d w1 where d: "split_decide io ram physical (length bs) X86_CORE_MACHINE_MEMORY_ACCESS_WRITE cpu route = (d, w1)"
    by (metis surj_pair)
  have pos: "0 < length bs" using n(1) by simp
  note decide = split_decide_no_device [OF dev pos n(2) ram route_def d]
  have w1: "w1 = w" by (rule decide(1))
  have r: "write_call (write_call r io cpu) io cpu physical bs ram w =
      (case d of REFUSE_ACCESS status \<Rightarrow> (status, ram, w)
       | SPLIT_BYTES \<Rightarrow> write_each (write_call r io cpu) physical bs ram w
       | KEEP_WHOLE \<Rightarrow> write_whole io physical (fst (snd route)) bs ram w)"
    using n(1) d w1
    unfolding write_call_def [of "write_call r io cpu"] Let_def route_def [symmetric]
    by (simp split: split_decision.split)
  show ?thesis
  proof (cases d)
    case SPLIT_BYTES
    have "\<exists>k \<le> length bs. ram' = store_bytes (zip (map (the \<circ> (\<lambda>i. ram_cell ram (physical + of_nat i))) [0..<k]) bs) ram \<and>
      (if status = LIB_STATUS_OK then k = length bs \<and> (\<forall>i < length bs. ram_cell ram (physical + of_nat i) \<noteq> None)
       else status = LIB_STATUS_INTERNAL_ERROR)"
    proof (rule write_each_bytes [where r = "write_call r io cpu" and physical = physical and
          Q = "\<lambda>m :: ('p, 'o) t_ram. ram_cell m = ram_cell ram \<and> plain_range m = plain_range ram"])
      fix i b w and m :: "('p, 'o) t_ram" assume i: "i < length bs" and Q: "ram_cell m = ram_cell ram \<and> plain_range m = plain_range ram"
      then have "plain_range m physical (length bs)" using plain by simp
      then have "no_device m (physical + of_nat i)" "\<not> write_protected m (physical + of_nat i) 1" "ram_ok m"
        using i by (auto simp: plain_range_def)
      note one = write_one [OF this, of r io cpu b w, unfolded conjunct1 [OF Q]]
      show "\<exists>w'. write_call r io cpu (physical + of_nat i) [b] m w =
        (if ram_cell ram (physical + of_nat i) = None then (LIB_STATUS_INTERNAL_ERROR, m, w')
         else (LIB_STATUS_OK, ram_store (the (ram_cell ram (physical + of_nat i))) b m, w'))" by (rule one)
    qed (use run r SPLIT_BYTES in simp_all)
    then show ?thesis by (simp add: comp_def)
  next
    case KEEP_WHOLE
    obtain a offset where o: "fst (snd route) = (None, a, offset)"
      "\<forall>i < length bs. ram_cell ram (physical + of_nat i) = Some (unat offset + i)"
      using decide(3) [OF KEEP_WHOLE] by blast
    have "backing_write io physical offset bs ram w = (status, ram', w')"
      using run r KEEP_WHOLE o(1) by (simp add: write_whole_def)
    note stored = backing_write_ok [OF _ b this]
    have u: "unat (of_nat (length bs) :: lib_u64) = length bs" by (rule unat_count [OF n(2)])
    have nz: "(of_nat (length bs) :: lib_u64) \<noteq> 0"
    proof
      assume "(of_nat (length bs) :: lib_u64) = 0"
      with u pos show False by simp
    qed
    have np: "\<not> write_protected ram physical (of_nat (length bs))"
      by (rule write_protected_first [OF _ nz]) (use wp [of 0] pos u n(2) in simp_all)
    have "map (\<lambda>i. the (ram_cell ram (physical + of_nat i))) [0..<length bs] = [unat offset..<unat offset + length bs]"
      using o(2) by (intro nth_equalityI) auto
    then show ?thesis using stored [OF np] o(2) by (intro exI [of _ "length bs"]) auto
  next
    case (REFUSE_ACCESS st)
    then show ?thesis using run r decide(2) [OF REFUSE_ACCESS] by (auto simp: store_bytes_def intro: exI [of _ 0])
  qed
qed

section \<open>The decision is a matter of layout\<close>

lemma split_scan_layout:
  assumes "\<forall>i \<in> set indices. no_device ram (physical + of_nat i)" "ram_backing ram \<noteq> None"
  shows "fst (split_scan io (store_bytes cs ram) physical access cpu None offset indices w) =
    fst (split_scan io' ram physical access' cpu' None offset indices w')"
proof -
  have "(ram_backing (store_bytes cs ram) = None) = (ram_backing ram = None)"
  proof (induction cs arbitrary: ram)
    case (Cons x cs)
    then show ?case by (cases x) (simp add: store_bytes_def del: not_None_eq)
  qed (simp add: store_bytes_def)
  then have b: "ram_backing (store_bytes cs ram) \<noteq> None" using assms(2) by blast
  show ?thesis
    using assms(1)
  proof (induction indices arbitrary: w w')
    case (Cons i indices)
    then have d: "no_device ram (physical + of_nat i)" "no_device (store_bytes cs ram) (physical + of_nat i)"
      by simp_all
    show ?case
    proof (cases "ram_cell ram (physical + of_nat i)")
      case None
      then show ?thesis
        by (simp add: route_one_no_device [OF d(1) assms(2)] route_one_no_device [OF d(2) b])
    next
      case (Some c)
      then show ?thesis using Cons
        by (simp add: route_one_no_device [OF d(1) assms(2)] route_one_no_device [OF d(2) b])
    qed
  qed simp
qed

lemma store_bytes_kept [simp]:
  "x86_core_machine_memory_crosses_decode (store_bytes cs ram) = x86_core_machine_memory_crosses_decode ram"
  "x86_core_machine_memory_is_plain_span (store_bytes cs ram) = x86_core_machine_memory_is_plain_span ram"
  "x86_core_machine_memory_decode_address (store_bytes cs ram) = x86_core_machine_memory_decode_address ram"
  "x86_core_machine_memory_offset (store_bytes cs ram) = x86_core_machine_memory_offset ram"
  "ram_mappings (store_bytes cs ram) = ram_mappings ram"
proof -
  have *: "ram_mappings (store_bytes cs ram) = ram_mappings ram \<and>
    ram_address_clear_mask (store_bytes cs ram) = ram_address_clear_mask ram \<and>
    ram_address_decode (store_bytes cs ram) = ram_address_decode ram \<and>
    ram_device_providers (store_bytes cs ram) = ram_device_providers ram \<and>
    x86_core_machine_memory_decode_address (store_bytes cs ram) = x86_core_machine_memory_decode_address ram \<and>
    x86_core_machine_memory_offset (store_bytes cs ram) = x86_core_machine_memory_offset ram"
    by (induction cs arbitrary: ram) (auto simp: store_bytes_def)
  then show "ram_mappings (store_bytes cs ram) = ram_mappings ram"
    "x86_core_machine_memory_decode_address (store_bytes cs ram) = x86_core_machine_memory_decode_address ram"
    "x86_core_machine_memory_offset (store_bytes cs ram) = x86_core_machine_memory_offset ram"
    by blast+
  show "x86_core_machine_memory_crosses_decode (store_bytes cs ram) = x86_core_machine_memory_crosses_decode ram"
    "x86_core_machine_memory_is_plain_span (store_bytes cs ram) = x86_core_machine_memory_is_plain_span ram"
    by (simp_all add: fun_eq_iff x86_core_machine_memory_crosses_decode_def
        x86_core_machine_memory_is_plain_span_def * Let_def)
qed

lemma split_decide_layout:
  assumes dev: "\<forall>i < n. no_device ram (physical + of_nat i)" and n: "0 < n" "n < 2 ^ 63"
    and ram: "ram_backing ram \<noteq> None"
  shows "fst (split_decide io (store_bytes cs ram) physical n access cpu
      (x86_core_machine_memory_route_resolve io (store_bytes cs ram) physical (of_nat n) access notify cpu w)) =
    fst (split_decide io' ram physical n access' cpu'
      (x86_core_machine_memory_route_resolve io' ram physical (of_nat n) access' notify' cpu' w'))"
proof -
  have nz: "(of_nat n :: lib_u64) \<noteq> 0" "unat (of_nat n :: lib_u64) < 2 ^ 63"
    using unat_count [OF n(2)] n by (metis unsigned_0 neq0_conv) (use unat_count [OF n(2)] n in simp)
  have d: "no_device ram physical" "no_device (store_bytes cs ram) physical"
    using spec [OF dev, of 0] n(1) by simp_all
  obtain st a offset where r:
    "x86_core_machine_memory_route_resolve io' ram physical (of_nat n) access' notify' cpu' w' = (st, (None, a, offset), w')"
    "x86_core_machine_memory_route_resolve io (store_bytes cs ram) physical (of_nat n) access notify cpu w =
      (st, (None, a, offset), w)"
  proof -
    have "\<exists>st a offset. x86_core_machine_memory_route_resolve io' ram physical (of_nat n) access' notify' cpu' w' =
        (st, (None, a, offset), w') \<and>
      x86_core_machine_memory_route_resolve io (store_bytes cs ram) physical (of_nat n) access notify cpu w =
        (st, (None, a, offset), w)"
      unfolding route_no_device [OF d(1) nz] route_no_device [OF d(2) nz] Let_def
      by (simp split: option.split prod.split)
    then show ?thesis using that by blast
  qed
  have "fst (split_scan io (store_bytes cs ram) physical access cpu None offset [0..<n] w) =
      fst (split_scan io' ram physical access' cpu' None offset [0..<n] w')"
    by (rule split_scan_layout) (use dev ram in simp_all)
  then show ?thesis unfolding r split_decide_def by (simp add: Let_def)
qed

lemma read_call_status:
  assumes dev: "\<forall>i < length ds. no_device ram (physical + of_nat i)" and ram: "ram_ok ram" "parity_ok ram"
    and n: "ds \<noteq> []" "length ds < 2 ^ 63"
    and cells: "\<forall>i < length ds. ram_cell ram (physical + of_nat i) \<noteq> None"
    and d: "\<forall>status. fst (split_decide io ram physical (length ds) X86_CORE_MACHINE_MEMORY_ACCESS_READ cpu
      (x86_core_machine_memory_route_resolve io ram physical (of_nat (length ds))
         X86_CORE_MACHINE_MEMORY_ACCESS_READ True cpu w)) \<noteq> REFUSE_ACCESS status"
  shows "fst (read_call (read_call r io ram observe fetch cpu) io ram observe fetch cpu physical ds w) = LIB_STATUS_OK"
proof -
  obtain backing where b: "ram_backing ram = Some backing" using ram by (auto simp: ram_ok_def)
  define route where "route = x86_core_machine_memory_route_resolve io ram physical (of_nat (length ds))
    X86_CORE_MACHINE_MEMORY_ACCESS_READ True cpu w"
  obtain d w1 where d1: "split_decide io ram physical (length ds) X86_CORE_MACHINE_MEMORY_ACCESS_READ cpu route = (d, w1)"
    by (metis surj_pair)
  have pos: "0 < length ds" using n(1) by simp
  note decide = split_decide_no_device [OF dev pos n(2) ram(1) route_def d1]
  have w1: "w1 = w" by (rule decide(1))
  show ?thesis
  proof (cases d)
    case SPLIT_BYTES
    obtain st ds' w' where e: "read_each (read_call r io ram observe fetch cpu) physical ds w = (st, ds', w')"
      by (metis surj_pair)
    have "\<forall>i < length ds. \<forall>d w. read_call r io ram observe fetch cpu (physical + of_nat i) [d] w =
      (if (\<lambda>i. ram_byte ram (physical + of_nat i)) i = None then (LIB_STATUS_INTERNAL_ERROR, [d], w)
       else (LIB_STATUS_OK, [the ((\<lambda>i. ram_byte ram (physical + of_nat i)) i)], w))"
    proof (intro allI impI)
      fix i d w assume "i < length ds"
      then have "no_device ram (physical + of_nat i)" using dev by blast
      from read_one [OF this ram, of r io observe fetch cpu d w]
      show "read_call r io ram observe fetch cpu (physical + of_nat i) [d] w =
        (if (\<lambda>i. ram_byte ram (physical + of_nat i)) i = None then (LIB_STATUS_INTERNAL_ERROR, [d], w)
         else (LIB_STATUS_OK, [the ((\<lambda>i. ram_byte ram (physical + of_nat i)) i)], w))" by simp
    qed
    from read_each_bytes(4) [OF this e] cells have "st = LIB_STATUS_OK" by (simp add: ram_byte_def)
    then show ?thesis
      using n(1) d1 w1 SPLIT_BYTES e
      unfolding read_call_def [of "read_call r io ram observe fetch cpu"] Let_def route_def [symmetric] by simp
  next
    case KEEP_WHOLE
    obtain a offset where "fst (snd route) = (None, a, offset)" using decide(3) [OF KEEP_WHOLE] by blast
    then show ?thesis
      using n(1) d1 w1 KEEP_WHOLE
      unfolding read_call_def [of "read_call r io ram observe fetch cpu"] Let_def route_def [symmetric]
      by (simp add: read_whole_def backing_read_ok [OF ram(2) b])
  next
    case (REFUSE_ACCESS st)
    then show ?thesis using d d1 unfolding route_def by simp
  qed
qed

section \<open>Reading back\<close>

lemma routed_unfold:
  "x86_core_machine_memory_read_routed io ram observe fetch cpu =
     read_call (read_call (\<lambda>physical destination w. (LIB_STATUS_INTERNAL_ERROR, destination, w))
         io ram observe fetch cpu) io ram observe fetch cpu"
  by (simp add: x86_core_machine_memory_read_routed_def)

lemma write_then_read:
  fixes ram :: "('p, 'o) t_ram"
  assumes plain: "plain_range ram physical (length bs)" and par: "parity_ok ram"
    and n: "bs \<noteq> []" "length bs < 2 ^ 63" "length ds = length bs"
    and inj: "distinct (map (\<lambda>i. ram_cell ram (physical + of_nat i)) [0..<length bs])"
    and run: "x86_core_machine_memory_write_physical io cpu physical bs ram w = (LIB_STATUS_OK, ram', w')"
  shows "x86_core_machine_memory_read_routed io' ram' observe fetch cpu' physical ds v = (LIB_STATUS_OK, bs, v)"
    "ram_cell ram a \<notin> (\<lambda>i. ram_cell ram (physical + of_nat i)) ` {..<length bs} \<Longrightarrow> ram_byte ram' a = ram_byte ram a"
    "ram_cell ram' = ram_cell ram"
proof -
  let ?cell = "\<lambda>i. the (ram_cell ram (physical + of_nat i))"
  let ?cs = "zip (map ?cell [0..<length bs]) bs"
  have dev: "\<forall>i < length bs. no_device ram (physical + of_nat i)" and ram: "ram_ok ram"
    using plain by (auto simp: plain_range_def)
  obtain backing where b: "ram_backing ram = Some backing" using ram by (auto simp: ram_ok_def)
  have ram': "ram' = store_bytes ?cs ram" and some: "\<forall>i < length bs. ram_cell ram (physical + of_nat i) \<noteq> None"
    using write_call_bytes [OF plain n(1,2) run [unfolded x86_core_machine_memory_write_physical_def]] by auto
  show same: "ram_cell ram' = ram_cell ram" by (simp add: ram')
  have dist: "distinct (map fst ?cs)"
  proof -
    have "map fst ?cs = map the (map (\<lambda>i. ram_cell ram (physical + of_nat i)) [0..<length bs])" by (simp add: comp_def)
    moreover have "inj_on the (set (map (\<lambda>i. ram_cell ram (physical + of_nat i)) [0..<length bs]))"
      by (intro inj_onI option.expand) (use some in auto)
    ultimately show ?thesis using inj by (simp only: distinct_map)
  qed
  have less: "\<forall>x \<in> set ?cs. fst x < length backing"
    using some ram_cell_less [OF ram _ b] by (fastforce simp: set_zip)
  obtain backing' where b': "ram_backing ram' = Some backing'" "length backing' = length backing"
    "\<forall>(c, b) \<in> set ?cs. backing' ! c = b" "\<forall>c. c \<notin> fst ` set ?cs \<longrightarrow> backing' ! c = backing ! c"
    unfolding ram' using store_bytes_backing [OF b dist less] by blast
  have byte: "ram_byte ram' (physical + of_nat i) = Some (bs ! i)" if i: "i < length bs" for i
  proof -
    have "(?cell i, bs ! i) \<in> set ?cs" using i by (auto simp: set_zip intro!: exI [of _ i])
    then have "backing' ! ?cell i = bs ! i" using bspec [OF b'(3)] by auto
    then show ?thesis using some i b'(1) by (auto simp: ram_byte_def same)
  qed
  {
    assume a: "ram_cell ram a \<notin> (\<lambda>i. ram_cell ram (physical + of_nat i)) ` {..<length bs}"
    show "ram_byte ram' a = ram_byte ram a"
    proof (cases "ram_cell ram a")
      case (Some c)
      have "c \<notin> fst ` set ?cs"
      proof
        assume "c \<in> fst ` set ?cs"
        then obtain i where "i < length bs" "c = ?cell i" by (auto simp: set_zip)
        then have "ram_cell ram a = ram_cell ram (physical + of_nat i)" using some Some by auto
        then show False using a \<open>i < length bs\<close> by blast
      qed
      then show ?thesis using b' b Some by (simp add: ram_byte_def same)
    qed (simp add: ram_byte_def same)
  }
  have kept: "ram_ok ram'" "parity_ok ram'" "\<forall>i < length ds. no_device ram' (physical + of_nat i)"
    using ram par dev n(3) parity_ok_store_bytes by (auto simp: ram')
  have pos: "ds \<noteq> []" "length ds < 2 ^ 63" "0 < length bs" using n by auto
  have bn: "ram_backing ram \<noteq> None" using b by simp
  have "\<forall>st. fst (split_decide io ram physical (length bs) X86_CORE_MACHINE_MEMORY_ACCESS_WRITE cpu
      (x86_core_machine_memory_route_resolve io ram physical (of_nat (length bs))
         X86_CORE_MACHINE_MEMORY_ACCESS_WRITE True cpu w)) \<noteq> REFUSE_ACCESS st"
  proof (intro allI notI)
    fix st
    define route where "route = x86_core_machine_memory_route_resolve io ram physical (of_nat (length bs))
         X86_CORE_MACHINE_MEMORY_ACCESS_WRITE True cpu w"
    assume refuse: "fst (split_decide io ram physical (length bs) X86_CORE_MACHINE_MEMORY_ACCESS_WRITE cpu
      (x86_core_machine_memory_route_resolve io ram physical (of_nat (length bs))
         X86_CORE_MACHINE_MEMORY_ACCESS_WRITE True cpu w)) = REFUSE_ACCESS st"
    then obtain w1 where d: "split_decide io ram physical (length bs) X86_CORE_MACHINE_MEMORY_ACCESS_WRITE cpu route =
        (REFUSE_ACCESS st, w1)" unfolding route_def [symmetric] by (metis prod.collapse)
    have "st = LIB_STATUS_INTERNAL_ERROR"
      by (rule split_decide_no_device(2) [OF dev pos(3) n(2) ram route_def d refl])
    then show False
      using run n(1) d
      unfolding x86_core_machine_memory_write_physical_def write_call_def [of "write_call _ _ _"] Let_def
        route_def [symmetric] by simp
  qed
  then have decide: "\<forall>st. fst (split_decide io' ram' physical (length ds) X86_CORE_MACHINE_MEMORY_ACCESS_READ cpu'
      (x86_core_machine_memory_route_resolve io' ram' physical (of_nat (length ds))
         X86_CORE_MACHINE_MEMORY_ACCESS_READ True cpu' v)) \<noteq> REFUSE_ACCESS st"
    unfolding ram' n(3)
    using split_decide_layout [OF dev pos(3) n(2) bn, of io' ?cs X86_CORE_MACHINE_MEMORY_ACCESS_READ cpu' True v
      io X86_CORE_MACHINE_MEMORY_ACCESS_WRITE cpu True w] by simp
  have cells: "\<forall>i < length ds. ram_cell ram' (physical + of_nat i) \<noteq> None" using some same n(3) by simp
  obtain st ds' v' where e: "x86_core_machine_memory_read_routed io' ram' observe fetch cpu' physical ds v = (st, ds', v')"
    by (metis surj_pair)
  have st: "st = LIB_STATUS_OK"
    using read_call_status [OF kept(3,1,2) pos(1,2) cells decide] e unfolding routed_unfold by (metis fst_conv)
  note r = read_call_bytes [OF kept(3,1,2) pos(1,2) e [unfolded routed_unfold]]
  have "ds' = bs"
    using r(3) [OF st] byte n(3) by (auto intro!: nth_equalityI)
  then show "x86_core_machine_memory_read_routed io' ram' observe fetch cpu' physical ds v = (LIB_STATUS_OK, bs, v)"
    using e st r(1) by simp
qed

end
