(* ===== verification/Memory_Route.thy ===== *)
theory Memory_Route
  imports Memory
begin

unbundle bit_operations_syntax

text \<open>
  An abstract order of the claims on an address and the proof that resolving a route finds the least
  of them: the code's loops over the provider table, tier by tier, against a minimum.
\<close>

section \<open>The order of claims\<close>

text \<open>
  What the code promises of a route: among the providers that match and do not decline, one that
  decodes the raw address comes first, then - unless an alias window is selected - replacements,
  ordinary devices and fallbacks at the decoded address, each in the order of registration.
\<close>

definition alias_selected :: "('p, 'o) t_ram \<Rightarrow> lib_u32 \<Rightarrow> lib_u64 \<Rightarrow> bool" where
  "alias_selected ram physical bytes \<longleftrightarrow>
     list_ex (\<lambda>m. mm_selected m \<and> mapping_contains m physical bytes) (ram_mappings ram)"

definition route_claim ::
  "('p, 'o, 'w) memory_io \<Rightarrow> ('p, 'o) t_ram \<Rightarrow> lib_u32 \<Rightarrow> lib_u64 \<Rightarrow> x86_core_machine_memory_access \<Rightarrow>
     bool \<Rightarrow> 'w \<Rightarrow> nat \<Rightarrow> nat \<Rightarrow> lib_u32 \<Rightarrow> bool" where
  "route_claim io ram physical bytes access cpu w rank i a \<longleftrightarrow>
     i < length (ram_device_providers ram) \<and>
     (let p = ram_device_providers ram ! i
      in (rank = 0 \<and> dp_raw_decode p \<and> a = physical \<or>
          rank = Suc (provider_tier p) \<and> a = x86_core_machine_memory_decode_address ram physical \<and>
            \<not> alias_selected ram physical bytes) \<and>
         provider_matches cpu a bytes p \<and>
         provider_status io a bytes access w p \<noteq> LIB_STATUS_UNSUPPORTED)"

lemma find_append: "find P (xs @ ys) = (case find P xs of None \<Rightarrow> find P ys | Some x \<Rightarrow> Some x)"
  by (induction xs) simp_all

lemma find_enumerated:
  "find P (filter Q (List.enumerate k xs)) = Some (i, x) \<Longrightarrow>
     k \<le> i \<and> i < k + length xs \<and> x = xs ! (i - k) \<and> P (i, x) \<and> Q (i, x) \<and>
     (\<forall>j. k \<le> j \<and> j < i \<longrightarrow> \<not> (P (j, xs ! (j - k)) \<and> Q (j, xs ! (j - k))))"
proof (induction xs arbitrary: k)
  case (Cons y ys)
  show ?case
  proof (cases "P (k, y) \<and> Q (k, y)")
    case True
    then show ?thesis using Cons.prems by auto
  next
    case False
    then have "find P (filter Q (List.enumerate (Suc k) ys)) = Some (i, x)"
      using Cons.prems by (simp split: if_splits)
    note IH = Cons.IH [OF this]
    have s: "(y # ys) ! (j - k) = ys ! (j - Suc k)" if "Suc k \<le> j" for j
      using that by (simp add: nth_Cons' Suc_le_eq)
    have "\<not> (P (j, (y # ys) ! (j - k)) \<and> Q (j, (y # ys) ! (j - k)))" if "k \<le> j" "j < i" for j
    proof (cases "j = k")
      case True
      then show ?thesis using False by simp
    next
      case False
      then have "Suc k \<le> j" using that(1) by simp
      then show ?thesis using IH that(2) s [of j] by simp
    qed
    moreover have "k \<le> i" "i < k + length (y # ys)" "x = (y # ys) ! (i - k)"
      using IH s [of i] by simp_all
    moreover have "P (i, x)" "Q (i, x)" using IH by blast+
    ultimately show ?thesis by blast
  qed
qed simp

lemma find_enumerated_None:
  assumes "find P (filter Q (List.enumerate k xs)) = None" "i < length xs"
  shows "\<not> (P (k + i, xs ! i) \<and> Q (k + i, xs ! i))"
proof -
  have "(k + i, xs ! i) \<in> set (List.enumerate k xs)" using assms(2) by (simp add: in_set_enumerate_eq)
  then show ?thesis using assms(1) by (auto simp: find_None_iff)
qed

lemma provider_tier_less: "provider_tier p < 3"
  by (simp add: provider_tier_def)

definition tier_list ::
  "('p, 'o) t_ram \<Rightarrow> bool \<Rightarrow> lib_u32 \<Rightarrow> lib_u64 \<Rightarrow> nat \<Rightarrow> ('p, 'o) indexed list" where
  "tier_list ram cpu a bytes tier =
     filter (\<lambda>c. provider_tier (snd c) = tier \<and> provider_matches cpu a bytes (snd c))
       (List.enumerate 0 (ram_device_providers ram))"

lemma tier_candidates_tiers:
  "tier_candidates ram cpu a bytes = tier_list ram cpu a bytes 0 @ tier_list ram cpu a bytes 1 @ tier_list ram cpu a bytes 2"
  by (simp add: tier_candidates_def tier_list_def conj_commute)

lemma first_raw:
  assumes "first_claim io physical bytes access w (raw_candidates ram cpu physical bytes) = Some (i, p)"
  shows "p = ram_device_providers ram ! i" "route_claim io ram physical bytes access cpu w 0 i physical"
    "route_claim io ram physical bytes access cpu w rank j a \<Longrightarrow> rank = 0 \<Longrightarrow> i \<le> j"
proof -
  note f = find_enumerated [OF assms [unfolded first_claim_def raw_candidates_def]]
  show p: "p = ram_device_providers ram ! i" and "route_claim io ram physical bytes access cpu w 0 i physical"
    using f by (auto simp: route_claim_def)
  assume "route_claim io ram physical bytes access cpu w rank j a" "rank = 0"
  then have "dp_raw_decode (ram_device_providers ram ! j)" "provider_matches cpu physical bytes (ram_device_providers ram ! j)"
    "provider_status io physical bytes access w (ram_device_providers ram ! j) \<noteq> LIB_STATUS_UNSUPPORTED"
    by (auto simp: route_claim_def Let_def)
  moreover have "\<not> (provider_status io physical bytes access w (ram_device_providers ram ! j) \<noteq> LIB_STATUS_UNSUPPORTED \<and>
      dp_raw_decode (ram_device_providers ram ! j) \<and> provider_matches cpu physical bytes (ram_device_providers ram ! j))"
    if "j < i" using f that by simp
  ultimately show "i \<le> j" by (metis not_le_imp_less)
qed

lemma no_raw:
  assumes "first_claim io physical bytes access w (raw_candidates ram cpu physical bytes) = None"
  shows "\<not> route_claim io ram physical bytes access cpu w 0 j a"
proof
  assume c: "route_claim io ram physical bytes access cpu w 0 j a"
  then have "j < length (ram_device_providers ram)" by (simp add: route_claim_def)
  from find_enumerated_None [OF assms [unfolded first_claim_def raw_candidates_def] this] c
  show False by (auto simp: route_claim_def Let_def)
qed

lemma tier_claims:
  assumes "\<not> alias_selected ram physical bytes" "a = x86_core_machine_memory_decode_address ram physical"
  shows "first_claim io a bytes access w (tier_list ram cpu a bytes t) = Some (i, p) \<Longrightarrow>
      p = ram_device_providers ram ! i \<and> route_claim io ram physical bytes access cpu w (Suc t) i a \<and>
      (\<forall>j b. route_claim io ram physical bytes access cpu w (Suc t) j b \<longrightarrow> i \<le> j)"
    "first_claim io a bytes access w (tier_list ram cpu a bytes t) = None \<Longrightarrow>
      \<not> route_claim io ram physical bytes access cpu w (Suc t) j b"
proof -
  assume f0: "first_claim io a bytes access w (tier_list ram cpu a bytes t) = Some (i, p)"
  note f = find_enumerated [OF f0 [unfolded first_claim_def tier_list_def]]
  have "i \<le> j" if "route_claim io ram physical bytes access cpu w (Suc t) j b" for j b
  proof (rule ccontr)
    assume "\<not> i \<le> j"
    then have "\<not> (provider_status io a bytes access w (ram_device_providers ram ! j) \<noteq> LIB_STATUS_UNSUPPORTED \<and>
      provider_tier (ram_device_providers ram ! j) = t \<and> provider_matches cpu a bytes (ram_device_providers ram ! j))"
      using f by simp
    then show False using that assms(2) by (auto simp: route_claim_def Let_def)
  qed
  then show "p = ram_device_providers ram ! i \<and> route_claim io ram physical bytes access cpu w (Suc t) i a \<and>
      (\<forall>j b. route_claim io ram physical bytes access cpu w (Suc t) j b \<longrightarrow> i \<le> j)"
    using f assms by (auto simp: route_claim_def)
next
  assume n: "first_claim io a bytes access w (tier_list ram cpu a bytes t) = None"
  show "\<not> route_claim io ram physical bytes access cpu w (Suc t) j b"
  proof
    assume c: "route_claim io ram physical bytes access cpu w (Suc t) j b"
    then have "j < length (ram_device_providers ram)" by (simp add: route_claim_def)
    from find_enumerated_None [OF n [unfolded first_claim_def tier_list_def] this] c assms(2)
    show False by (auto simp: route_claim_def Let_def)
  qed
qed

text \<open>The claim a route goes to, if there is one, is the least by rank and index.\<close>

definition least_claim ::
  "('p, 'o, 'w) memory_io \<Rightarrow> ('p, 'o) t_ram \<Rightarrow> lib_u32 \<Rightarrow> lib_u64 \<Rightarrow> x86_core_machine_memory_access \<Rightarrow>
     bool \<Rightarrow> 'w \<Rightarrow> nat \<Rightarrow> lib_u32 \<Rightarrow> bool" where
  "least_claim io ram physical bytes access cpu w i a \<longleftrightarrow>
     (\<exists>rank. route_claim io ram physical bytes access cpu w rank i a \<and>
        (\<forall>rank' j b. route_claim io ram physical bytes access cpu w rank' j b \<longrightarrow>
           rank < rank' \<or> rank = rank' \<and> i \<le> j))"

lemma claim_rank:
  assumes "first_claim io physical bytes access w (raw_candidates ram cpu physical bytes) = None"
    "route_claim io ram physical bytes access cpu w rank j b"
  obtains t where "rank = Suc t" "t < 3"
proof (cases rank)
  case 0
  then show ?thesis using assms(2) no_raw [OF assms(1)] by simp
next
  case (Suc t)
  then have "t = provider_tier (ram_device_providers ram ! j)" using assms(2) by (auto simp: route_claim_def Let_def)
  then have "t < 3" using provider_tier_less by blast
  then show ?thesis by (rule that [OF Suc])
qed

lemma first_tier:
  assumes raw: "first_claim io physical bytes access w (raw_candidates ram cpu physical bytes) = None"
    and na: "\<not> alias_selected ram physical bytes" and a: "a = x86_core_machine_memory_decode_address ram physical"
    and t: "first_claim io a bytes access w (tier_list ram cpu a bytes t) = Some (i, p)"
    and less: "\<And>t'. t' < t \<Longrightarrow> first_claim io a bytes access w (tier_list ram cpu a bytes t') = None"
  shows "p = ram_device_providers ram ! i \<and> least_claim io ram physical bytes access cpu w i a"
proof -
  note some = tier_claims(1) [OF na a t]
  have "Suc t < rank \<or> Suc t = rank \<and> i \<le> j" if c: "route_claim io ram physical bytes access cpu w rank j b" for rank j b
  proof -
    obtain t' where r: "rank = Suc t'" by (rule claim_rank [OF raw c])
    have "\<not> t' < t" using tier_claims(2) [OF na a less] c r by blast
    then show ?thesis using some c r by (cases "t' = t") auto
  qed
  then show ?thesis using some unfolding least_claim_def by blast
qed

lemma no_tier:
  assumes raw: "first_claim io physical bytes access w (raw_candidates ram cpu physical bytes) = None"
    and na: "\<not> alias_selected ram physical bytes" and a: "a = x86_core_machine_memory_decode_address ram physical"
    and none: "\<And>t. t < 3 \<Longrightarrow> first_claim io a bytes access w (tier_list ram cpu a bytes t) = None"
  shows "\<not> route_claim io ram physical bytes access cpu w rank j b"
proof
  assume c: "route_claim io ram physical bytes access cpu w rank j b"
  obtain t where r: "rank = Suc t" "t < 3" by (rule claim_rank [OF raw c])
  show False using tier_claims(2) [OF na a none [OF r(2)]] c r(1) by simp
qed

lemma first_tiers:
  assumes raw: "first_claim io physical bytes access w (raw_candidates ram cpu physical bytes) = None"
    and na: "\<not> alias_selected ram physical bytes" and a: "a = x86_core_machine_memory_decode_address ram physical"
  shows "first_claim io a bytes access w (tier_candidates ram cpu a bytes) = None \<Longrightarrow>
      \<not> route_claim io ram physical bytes access cpu w rank j b"
    "first_claim io a bytes access w (tier_candidates ram cpu a bytes) = Some (i, p) \<Longrightarrow>
      p = ram_device_providers ram ! i \<and> least_claim io ram physical bytes access cpu w i a"
proof -
  let ?tier = "\<lambda>t. first_claim io a bytes access w (tier_list ram cpu a bytes t)"
  have split: "first_claim io a bytes access w (tier_candidates ram cpu a bytes) =
      (case ?tier 0 of Some c \<Rightarrow> Some c | None \<Rightarrow> (case ?tier 1 of Some c \<Rightarrow> Some c | None \<Rightarrow> ?tier 2))"
    unfolding tier_candidates_tiers first_claim_def find_append by (simp split: option.split)
  assume "first_claim io a bytes access w (tier_candidates ram cpu a bytes) = None"
  then have n: "?tier 0 = None" "?tier 1 = None" "?tier 2 = None" unfolding split by (simp_all split: option.splits)
  show "\<not> route_claim io ram physical bytes access cpu w rank j b"
  proof (rule no_tier [OF raw na a])
    fix t :: nat assume "t < 3"
    then have "t = 0 \<or> t = 1 \<or> t = 2" by linarith
    then show "?tier t = None" using n by blast
  qed
next
  let ?tier = "\<lambda>t. first_claim io a bytes access w (tier_list ram cpu a bytes t)"
  have split: "first_claim io a bytes access w (tier_candidates ram cpu a bytes) =
      (case ?tier 0 of Some c \<Rightarrow> Some c | None \<Rightarrow> (case ?tier 1 of Some c \<Rightarrow> Some c | None \<Rightarrow> ?tier 2))"
    unfolding tier_candidates_tiers first_claim_def find_append by (simp split: option.split)
  assume s: "first_claim io a bytes access w (tier_candidates ram cpu a bytes) = Some (i, p)"
  have "?tier 0 = Some (i, p) \<or> ?tier 0 = None \<and> ?tier 1 = Some (i, p) \<or>
      ?tier 0 = None \<and> ?tier 1 = None \<and> ?tier 2 = Some (i, p)"
    using s unfolding split by (simp split: option.splits)
  then obtain t where t: "?tier t = Some (i, p)" "\<And>t'. t' < t \<Longrightarrow> ?tier t' = None"
  proof (elim disjE conjE)
    assume "?tier 0 = None" "?tier 1 = None" "?tier 2 = Some (i, p)"
    moreover have "t' = 0 \<or> t' = 1" if "t' < 2" for t' :: nat using that by linarith
    ultimately show thesis using that [of 2] by blast
  next
    assume "?tier 0 = None" "?tier 1 = Some (i, p)"
    moreover have "t' = 0" if "t' < 1" for t' :: nat using that by linarith
    ultimately show thesis using that [of 1] by blast
  next
    assume "?tier 0 = Some (i, p)"
    then show thesis using that [of 0] by blast
  qed
  show "p = ram_device_providers ram ! i \<and> least_claim io ram physical bytes access cpu w i a"
    by (rule first_tier [OF raw na a t])
qed

text \<open>A route resolved is the least claim's, or the RAM's when there is no claim.\<close>

lemma route_resolved:
  assumes "bytes \<noteq> 0"
    and r: "x86_core_machine_memory_route_resolve io ram physical bytes access notify cpu w = (status, (provider, a, offset), w')"
  shows "provider = Some i \<Longrightarrow> \<exists>b. least_claim io ram physical bytes access cpu w i b \<and>
      status = provider_status io b bytes access w (ram_device_providers ram ! i) \<and> (status = LIB_STATUS_OK \<longrightarrow> a = b \<and> w' = w)"
    "provider = None \<Longrightarrow> w' = w \<and> (\<forall>rank j b. \<not> route_claim io ram physical bytes access cpu w rank j b)"
proof -
  let ?wrapped = "x86_core_machine_memory_decode_address ram physical"
  have "(case provider of
      Some i \<Rightarrow> \<exists>b. least_claim io ram physical bytes access cpu w i b \<and>
        status = provider_status io b bytes access w (ram_device_providers ram ! i) \<and> (status = LIB_STATUS_OK \<longrightarrow> a = b \<and> w' = w)
    | None \<Rightarrow> w' = w \<and> (\<forall>rank j b. \<not> route_claim io ram physical bytes access cpu w rank j b))"
  proof (cases "first_claim io physical bytes access w (raw_candidates ram cpu physical bytes)")
    case (Some c)
    obtain i p where c: "c = (i, p)" by force
    note raw = first_raw [OF Some [unfolded c]]
    have "least_claim io ram physical bytes access cpu w i physical"
      unfolding least_claim_def
    proof (intro exI [of _ 0] conjI allI impI)
      fix rank j b assume "route_claim io ram physical bytes access cpu w rank j b"
      then show "0 < rank \<or> 0 = rank \<and> i \<le> j" using raw(3) by (cases rank) auto
    qed (rule raw(2))
    then show ?thesis
      using r Some c raw(1) assms(1)
      by (auto simp: x86_core_machine_memory_route_resolve_def claimed_def Let_def split: if_splits)
  next
    case raw: None
    show ?thesis
    proof (cases "find (\<lambda>m. mm_selected m \<and> mapping_contains m physical bytes) (ram_mappings ram)")
      case (Some m)
      then have "alias_selected ram physical bytes"
        by (auto simp: alias_selected_def list_ex_iff find_Some_iff)
      then have "\<not> route_claim io ram physical bytes access cpu w rank j b" for rank j b
        using no_raw [OF raw, of j b] by (cases rank) (auto simp: route_claim_def Let_def)
      moreover have "provider = None" "w' = w"
        using r raw Some assms(1) by (simp_all add: x86_core_machine_memory_route_resolve_def Let_def)
      ultimately show ?thesis by simp
    next
      case None
      then have na: "\<not> alias_selected ram physical bytes"
        by (auto simp: alias_selected_def list_ex_iff find_None_iff)
      show ?thesis
      proof (cases "first_claim io ?wrapped bytes access w (tier_candidates ram cpu ?wrapped bytes)")
        case t: None
        note none = first_tiers(1) [OF raw na refl t]
        obtain st o2 where "x86_core_machine_memory_offset ram physical ?wrapped bytes = (st, o2)" by force
        then have "provider = None" "w' = w"
          using r raw None t assms(1)
          by (auto simp: x86_core_machine_memory_route_resolve_def Let_def split: if_splits)
        then show ?thesis using none by simp
      next
        case (Some c)
        obtain i p where c: "c = (i, p)" by force
        note least = first_tiers(2) [OF raw na refl Some [unfolded c]]
        show ?thesis
          using r raw None Some c least assms(1)
          by (auto simp: x86_core_machine_memory_route_resolve_def claimed_def Let_def split: if_splits)
      qed
    qed
  qed
  then show "provider = Some i \<Longrightarrow> \<exists>b. least_claim io ram physical bytes access cpu w i b \<and>
      status = provider_status io b bytes access w (ram_device_providers ram ! i) \<and> (status = LIB_STATUS_OK \<longrightarrow> a = b \<and> w' = w)"
    "provider = None \<Longrightarrow> w' = w \<and> (\<forall>rank j b. \<not> route_claim io ram physical bytes access cpu w rank j b)" by simp_all
qed

end
