(* ===== verification/Memory_Run.thy ===== *)
theory Memory_Run
  imports Memory_Access Memory_Route
begin

unbundle bit_operations_syntax

text \<open>
  The memory of a running machine: every memory that its interface can produce fits its backing and
  carries the parity of its bytes; installing routes and aliases is all or nothing. Then the properties
  of the guest memory, each with a witness on a sample memory built by the same operations.
\<close>

section \<open>Reachable memories\<close>

text \<open>
  A memory of the machine: initialised with a size, given its address decoding, its aliases, routes
  and parity while it is still zero, and then used, with devices that answer as they like.
\<close>

definition ram_clear :: "('p, 'o) t_ram \<Rightarrow> bool" where
  "ram_clear ram \<longleftrightarrow> (\<forall>backing. ram_backing ram = Some backing \<longrightarrow> set backing \<subseteq> {0})"

inductive memory_reachable :: "('p, 'o, 'w) memory_io \<Rightarrow> ('p, 'o) t_ram \<Rightarrow> bool"
  for io :: "('p, 'o, 'w) memory_io" where
  memory_initialized: "x86_core_machine_memory_initialize_for alloc bytes ram = (LIB_STATUS_OK, ram') \<Longrightarrow>
    unat bytes < 2 ^ 63 \<Longrightarrow> memory_reachable io ram'"
| memory_decode_set: "memory_reachable io ram \<Longrightarrow>
    memory_reachable io (ram\<lparr>ram_address_decode := decode, ram_address_clear_mask := ad_reset_clear_mask decode,
      ram_cpu_snoop := snoop\<rparr>)"
| memory_aliased: "memory_reachable io ram \<Longrightarrow>
    memory_reachable io (snd (x86_core_machine_install_memory_aliases opened aliases selected ram))"
| memory_alias_switched: "memory_reachable io ram \<Longrightarrow>
    memory_reachable io (snd (x86_core_machine_set_memory_alias_decode start bytes selected writable ram))"
| memory_routed: "memory_reachable io ram \<Longrightarrow> parity = None \<or> ram_clear ram \<Longrightarrow>
    memory_reachable io (snd (x86_core_machine_install_memory_device_routes alloc admitted routes observer parity owner ram))"
| memory_route_moved: "memory_reachable io ram \<Longrightarrow>
    memory_reachable io (fst (snd (x86_core_machine_set_memory_device_range (invalidate :: lib_u32 \<Rightarrow> lib_u64 \<Rightarrow> 'w \<Rightarrow> 'w) o1 start bytes ram w)))"
| memory_fetch_set: "memory_reachable io ram \<Longrightarrow>
    memory_reachable io (snd (x86_core_machine_set_memory_instruction_read opened o1 p ram))"
| memory_probe_set: "memory_reachable io ram \<Longrightarrow>
    memory_reachable io (snd (x86_core_machine_set_memory_cache_probe opened o1 p ram))"
| memory_unrouted: "memory_reachable io ram \<Longrightarrow>
    memory_reachable io (snd (x86_core_machine_remove_memory_device_routes lifecycle o1 ram))"
| memory_frozen: "memory_reachable io ram \<Longrightarrow> memory_reachable io (x86_core_machine_memory_freeze_mappings ram)"
| memory_was_reset: "memory_reachable io ram \<Longrightarrow> memory_reachable io (x86_core_machine_memory_reset ram)"
| memory_masked: "memory_reachable io ram \<Longrightarrow>
    memory_reachable io (snd (x86_core_machine_signal_address_clear_mask clear_mask ram))"
| memory_written: "memory_reachable io ram \<Longrightarrow>
    memory_reachable io (fst (snd (x86_core_machine_memory_write_physical io cpu physical bs ram w)))"

definition guest_memory_ok :: "('p, 'o) t_ram \<Rightarrow> bool" where
  "guest_memory_ok ram \<longleftrightarrow> ram_ok ram \<and> parity_ok ram \<and> (ram_parity ram = None \<longrightarrow> ram_parity_fault ram = None)"

lemma guest_memory_ok_cong:
  assumes "guest_memory_ok ram" "ram_backing ram' = ram_backing ram" "ram_installed_bytes ram' = ram_installed_bytes ram"
    "ram_mappings ram' = ram_mappings ram" "ram_parity ram' = ram_parity ram \<and> ram_parity_fault ram' = ram_parity_fault ram \<or>
     ram_parity ram' = None \<and> ram_parity_fault ram' = None"
  shows "guest_memory_ok ram'"
  using assms by (auto simp: guest_memory_ok_def ram_ok_def parity_ok_def)

lemma odd_parity_zero [simp]: "x86_core_machine_memory_odd_parity 0 = 0"
  by code_simp

lemma register_mapping_ok:
  assumes "guest_memory_ok ram" "x86_core_machine_memory_register_mapping start from bytes selected ram = (status, ram')"
  shows "guest_memory_ok ram'"
proof (cases "status = LIB_STATUS_OK")
  case True
  then have ram': "ram' = ram\<lparr>ram_mappings := ram_mappings ram @
      [\<lparr>mm_physical_start = start, mm_backing_start = from, mm_bytes = bytes, mm_selected = selected,
        mm_writable = True\<rparr>]\<rparr>"
    and c: "ucast from \<le> ram_installed_bytes ram" "bytes \<le> ram_installed_bytes ram - ucast from"
    "ucast start + bytes \<le> (0x100000000 :: lib_u64)"
    using assms(2) by (auto simp: x86_core_machine_memory_register_mapping_def end_of_space not_less split: if_splits)
  have ram: "unat (ram_installed_bytes ram) < 2 ^ 63"
    using assms(1) by (auto simp: guest_memory_ok_def ram_ok_def)
  have f: "unat from + unat bytes \<le> unat (ram_installed_bytes ram)"
    using c(1,2) by (simp add: word_le_nat_alt unat_sub)
  moreover have "unat start + unat bytes \<le> 2 ^ 32"
    using c(3) f ram by (simp add: word_le_nat_alt unat_wide_add)
  ultimately show ?thesis using assms(1) unfolding ram' by (auto simp: guest_memory_ok_def ram_ok_def parity_ok_def)
next
  case False
  then have "ram' = ram"
    using assms(2) by (auto simp: x86_core_machine_memory_register_mapping_def split: if_splits)
  then show ?thesis using assms(1) by simp
qed

lemma install_aliases_ok:
  assumes "guest_memory_ok ram" "guest_memory_ok (ram\<lparr>ram_mappings := boundary\<rparr>)"
  shows "guest_memory_ok (snd (install_aliases selected boundary as ram))"
  using assms
proof (induction as arbitrary: ram)
  case (Cons a as)
  obtain s ram1 where r: "x86_core_machine_memory_register_mapping (ma_physical_start a) (ma_backing_start a)
      (ma_bytes a) selected ram = (s, ram1)" by (metis surj_pair)
  then have "ram1 = ram1 \<and> ram1\<lparr>ram_mappings := boundary\<rparr> = ram\<lparr>ram_mappings := boundary\<rparr>"
    by (auto simp: x86_core_machine_memory_register_mapping_def split: if_splits)
  then show ?case using Cons r register_mapping_ok [OF Cons.prems(1) r] by simp
qed simp

lemma set_first_set: "m \<in> set (set_first P f xs) \<Longrightarrow> \<exists>x \<in> set xs. m = x \<or> m = f x"
  by (induction xs) (auto split: if_splits)

lemma alias_decode_ok:
  assumes "guest_memory_ok ram"
  shows "guest_memory_ok (snd (x86_core_machine_set_memory_alias_decode start bytes selected writable ram))"
proof -
  let ?f = "\<lambda>m. m\<lparr>mm_selected := selected, mm_writable := writable\<rparr>"
  have "guest_memory_ok (ram\<lparr>ram_mappings := set_first P ?f (ram_mappings ram)\<rparr>)" for P
    using assms unfolding guest_memory_ok_def ram_ok_def parity_ok_def
    by (fastforce dest!: set_first_set)
  then show ?thesis using assms by (simp add: x86_core_machine_set_memory_alias_decode_def Let_def)
qed

text \<open>Routes leave backing, mappings and installed size alone; parity bytes start at zero.\<close>

definition table_only :: "('p, 'o) t_ram \<Rightarrow> ('p, 'o) t_ram \<Rightarrow> bool" where
  "table_only ram ram' \<longleftrightarrow> ram_backing ram' = ram_backing ram \<and> ram_installed_bytes ram' = ram_installed_bytes ram \<and>
     ram_mappings ram' = ram_mappings ram \<and> ram_parity ram' = ram_parity ram \<and>
     ram_parity_fault ram' = ram_parity_fault ram"

lemma table_only_trans: "table_only a b \<Longrightarrow> table_only b c \<Longrightarrow> table_only a c"
  by (simp add: table_only_def)

lemma register_provider_table:
  "table_only ram (snd (register_provider alloc ov raw repl fb start bytes cb owner failure ram))"
  by (auto simp: register_provider_def Let_def x86_core_machine_memory_reserve_device_provider_def
      x86_core_machine_memory_append_device_provider_def table_only_def split: prod.split if_splits)

lemmas registrations =
  x86_core_machine_memory_register_device_provider_def
  x86_core_machine_memory_register_overlay_device_provider_def
  x86_core_machine_memory_register_raw_overlay_device_provider_def
  x86_core_machine_memory_register_replacement_device_provider_def
  x86_core_machine_memory_register_fallback_device_provider_def

lemma mark_last_table: "table_only ram m \<Longrightarrow> table_only ram (mark_last f m)"
  by (simp add: table_only_def mark_last_def Let_def)

lemma register_route_table: "table_only ram (snd (register_route alloc owner r ram))"
proof -
  have p: "table_only ram (snd (case x of (s, m) \<Rightarrow> (s, if s = LIB_STATUS_OK then mark_last f m else m)))"
    if "table_only ram (snd x)" for x :: "lib_status \<times> ('a, 'b) t_ram" and f
    using that by (cases x) (simp add: mark_last_table)
  show ?thesis
    unfolding register_route_def Let_def registrations
    by (cases "dr_mode r") (simp_all add: register_provider_table p split del: if_split)
qed

lemma register_routes_table: "table_only ram (snd (register_routes alloc owner rs ram))"
proof (induction rs arbitrary: ram)
  case (Cons r rs)
  obtain s m where r: "register_route alloc owner r ram = (s, m)" by (metis surj_pair)
  then have "table_only ram m" using register_route_table [of ram alloc owner r] by simp
  then show ?case using r Cons [of m] by (auto intro: table_only_trans)
qed (simp add: table_only_def)

lemma table_only_ok: "guest_memory_ok ram \<Longrightarrow> table_only ram ram' \<Longrightarrow> guest_memory_ok ram'"
  by (erule guest_memory_ok_cong) (simp_all add: table_only_def)

lemma enable_parity_ok:
  assumes "guest_memory_ok ram" "ram_clear ram" "x86_core_machine_memory_enable_parity alloc bytes fault owner ram = (s, ram')"
  shows "guest_memory_ok ram'"
proof (cases "s = LIB_STATUS_OK")
  case True
  then obtain f where ram': "ram' = ram\<lparr>ram_parity := Some (replicate (unat bytes) 0), ram_parity_fault := f\<rparr>"
    using assms(3) by (auto simp: x86_core_machine_memory_enable_parity_def split: option.splits if_splits)
  have "backing ! i = 0" if "ram_backing ram = Some backing" "i < length backing" for backing i
    using assms(2) that by (auto simp: ram_clear_def dest!: nth_mem)
  then show ?thesis using assms(1) unfolding ram' by (auto simp: guest_memory_ok_def ram_ok_def parity_ok_def)
next
  case False
  then have "ram' = ram"
    using assms(3) by (auto simp: x86_core_machine_memory_enable_parity_def split: option.splits if_splits)
  then show ?thesis using assms(1) by simp
qed

text \<open>Whatever devices answer, a write changes the memory by storing bytes.\<close>

definition stored_from :: "('p, 'o) t_ram \<Rightarrow> ('p, 'o) t_ram \<Rightarrow> bool" where
  "stored_from ram ram' \<longleftrightarrow> (\<exists>cs. ram' = store_bytes cs ram)"

lemma stored_from_refl [simp]: "stored_from ram ram"
  by (auto simp: stored_from_def store_bytes_def intro: exI [of _ "[]"])

lemma stored_from_trans: "stored_from a b \<Longrightarrow> stored_from b c \<Longrightarrow> stored_from a c"
  by (auto simp: stored_from_def store_bytes_append [symmetric])

lemma stored_from_backing: "stored_from a b \<Longrightarrow> ram_backing a \<noteq> None \<Longrightarrow> ram_backing b \<noteq> None"
proof -
  have "ram_backing a \<noteq> None \<Longrightarrow> ram_backing (store_bytes cs a) \<noteq> None" for cs and a :: "('a, 'b) t_ram"
  proof (induction cs arbitrary: a)
    case (Cons x cs)
    have "ram_backing (ram_store c v a) \<noteq> None" for c v using Cons.prems by (simp add: ram_store_def)
    then show ?case using Cons.IH by (cases x) (simp add: store_bytes_def del: not_None_eq)
  qed (simp add: store_bytes_def)
  then show "stored_from a b \<Longrightarrow> ram_backing a \<noteq> None \<Longrightarrow> ram_backing b \<noteq> None"
    by (auto simp: stored_from_def)
qed

lemma ram_store_parity:
  "ram_parity_fault (ram_store c b ram) = ram_parity_fault ram"
  "Option.is_none (ram_parity (ram_store c b ram)) = Option.is_none (ram_parity ram)"
  by (cases "ram_parity ram"; simp add: ram_store_def is_none_simps)+

lemma store_bytes_fault: "ram_parity_fault (store_bytes cs ram) = ram_parity_fault ram"
  by (induction cs arbitrary: ram) (simp_all add: store_bytes_def ram_store_parity split_beta)

lemma store_bytes_no_parity: "Option.is_none (ram_parity (store_bytes cs ram)) = Option.is_none (ram_parity ram)"
  by (induction cs arbitrary: ram) (simp_all add: store_bytes_def ram_store_parity split_beta)

lemma parity_fault_iff:
  "(ram_parity ram = None \<longrightarrow> ram_parity_fault ram = None) = (Option.is_none (ram_parity ram) \<longrightarrow> ram_parity_fault ram = None)"
  by (cases "ram_parity ram") (simp_all add: is_none_simps)

lemma stored_from_ok: "stored_from ram ram' \<Longrightarrow> guest_memory_ok ram \<Longrightarrow> guest_memory_ok ram'"
  unfolding guest_memory_ok_def parity_fault_iff stored_from_def
  by (elim exE conjE) (simp only: store_bytes_layout store_bytes_fault store_bytes_no_parity parity_ok_store_bytes simp_thms)

lemma backing_write_stored:
  assumes "ram_backing ram \<noteq> None"
  shows "stored_from ram (fst (snd (backing_write io physical offset source ram w)))"
proof -
  obtain backing where b: "ram_backing ram = Some backing" using assms by blast
  show ?thesis
  proof (cases "write_protected ram physical (of_nat (length source))")
    case True
    then show ?thesis by (simp add: backing_write_def Let_def)
  next
    case False
    then show ?thesis
      unfolding stored_from_def backing_write_def Let_def
      by (auto simp: b put_bytes_store)
  qed
qed

lemma write_whole_stored:
  assumes "ram_backing ram \<noteq> None"
  shows "stored_from ram (fst (snd (write_whole io physical route source ram w)))"
  using backing_write_stored [OF assms]
  by (auto simp: write_whole_def Let_def split: prod.split option.split)

lemma write_each_stored:
  assumes "\<And>a b m w. ram_backing m \<noteq> None \<Longrightarrow> stored_from m (fst (snd (f a [b] m w)))" "ram_backing ram \<noteq> None"
  shows "stored_from ram (fst (snd (write_each f physical bs ram w)))"
  using assms(2)
proof (induction bs arbitrary: physical ram w)
  case (Cons b bs)
  obtain s m v where f: "f physical [b] ram w = (s, m, v)" by (metis surj_pair)
  then have m: "stored_from ram m" using assms(1) [OF Cons.prems, of physical b w] by simp
  show ?case
    using m f stored_from_trans [OF m Cons.IH [OF stored_from_backing [OF m Cons.prems]]] by simp
qed simp

lemma write_call_stored:
  assumes "\<And>a b m w. ram_backing m \<noteq> None \<Longrightarrow> stored_from m (fst (snd (f a [b] m w)))" "ram_backing ram \<noteq> None"
  shows "stored_from ram (fst (snd (write_call f io cpu physical bs ram w)))"
  by (auto simp: write_call_def Let_def split: prod.split split_decision.split
      intro: write_each_stored [where f = f, OF assms] write_whole_stored [OF assms(2)])

lemma write_physical_stored:
  assumes "ram_backing ram \<noteq> None"
  shows "stored_from ram (fst (snd (x86_core_machine_memory_write_physical io cpu physical bs ram w)))"
  unfolding x86_core_machine_memory_write_physical_def
  by (rule write_call_stored [OF write_call_stored assms]) simp_all

lemma guest_memory_backed: "guest_memory_ok ram \<Longrightarrow> ram_backing ram \<noteq> None"
  by (auto simp: guest_memory_ok_def ram_ok_def)

lemma write_observer_table:
  "table_only ram (snd (x86_core_machine_memory_register_write_observer callback owner ram))"
  by (simp add: x86_core_machine_memory_register_write_observer_def table_only_def Let_def)

lemma released_ok: "guest_memory_ok ram \<Longrightarrow> guest_memory_ok (x86_core_machine_memory_release_parity
    (ram\<lparr>ram_device_providers := ps, ram_write_observers := os\<rparr>))"
  by (erule guest_memory_ok_cong) (simp_all add: x86_core_machine_memory_release_parity_def)

lemma tables_ok: "guest_memory_ok ram \<Longrightarrow>
    guest_memory_ok (ram\<lparr>ram_device_providers := ps, ram_write_observers := os\<rparr>)"
  by (erule guest_memory_ok_cong) simp_all

lemma device_routes_ok:
  assumes "guest_memory_ok ram" "parity = None \<or> ram_clear ram"
  shows "guest_memory_ok (snd (install_device_routes alloc routes observer parity owner ram))"
proof -
  obtain s1 m1 where p: "(case parity of None \<Rightarrow> (LIB_STATUS_OK, ram)
      | Some p \<Rightarrow> x86_core_machine_memory_enable_parity alloc (pc_bytes p) (pc_fault p) (Some owner) ram) = (s1, m1)"
    by (rule that [OF surjective_pairing])
  have m1: "guest_memory_ok m1"
  proof (cases parity)
    case (Some q)
    then show ?thesis using assms p by (auto intro: enable_parity_ok [of ram])
  qed (use assms p in simp)
  obtain s2 m2 where r: "register_routes alloc owner routes m1 = (s2, m2)" by (rule that [OF surjective_pairing])
  then have m2: "guest_memory_ok m2"
    using table_only_ok [OF m1, of m2] register_routes_table [of m1 alloc owner routes] by simp
  define step where "step = (if s2 = LIB_STATUS_OK \<and> observer \<noteq> None
    then x86_core_machine_memory_register_write_observer observer (Some owner) m2 else (s2, m2))"
  obtain s3 m3 where o: "step = (s3, m3)" by (rule that [OF surjective_pairing])
  have "table_only m2 (snd step)"
    unfolding step_def using write_observer_table [of m2 observer "Some owner"] by (simp add: table_only_def)
  then have m3: "guest_memory_ok m3" using table_only_ok [OF m2, of m3] o by simp
  show ?thesis
    unfolding install_device_routes_def p r prod.case Let_def step_def [symmetric] o
    using m1 m3 by (simp add: released_ok tables_ok)
qed

lemma guest_memory_reachable_ok: "memory_reachable io0 ram \<Longrightarrow> guest_memory_ok ram"
proof (induction rule: memory_reachable.induct)
  case (memory_initialized alloc bytes ram ram')
  then show ?case
    by (auto simp: x86_core_machine_memory_initialize_for_def x86_core_machine_memory_allocate_for_def
        zero_ram_def guest_memory_ok_def ram_ok_def parity_ok_def split: if_splits)
next
  case (memory_decode_set ram decode snoop)
  then show ?case by (simp add: guest_memory_ok_cong)
next
  case (memory_aliased ram opened aliases selected)
  then show ?case
    by (auto simp: x86_core_machine_install_memory_aliases_def install_aliases_ok split: option.split)
next
  case (memory_routed ram parity alloc admitted routes observer owner)
  then show ?case
    by (auto simp: x86_core_machine_install_memory_device_routes_def device_routes_ok split: option.split)
next
  case (memory_route_moved ram invalidate o1 start bytes w)
  then show ?case
    by (auto simp: x86_core_machine_set_memory_device_range_def Let_def guest_memory_ok_cong split: list.split)
next
  case (memory_unrouted ram lifecycle o1)
  then show ?case
    by (auto simp: x86_core_machine_remove_memory_device_routes_def x86_core_machine_memory_unregister_owner_def
        x86_core_machine_memory_release_parity_def Let_def guest_memory_ok_cong)
next
  case (memory_was_reset ram)
  then obtain backing where "ram_backing ram = Some backing" using guest_memory_backed by blast
  then show ?case
    using memory_was_reset.IH
    by (auto simp: x86_core_machine_memory_reset_def guest_memory_ok_def ram_ok_def parity_ok_def)
next
  case (memory_written ram cpu physical bs w)
  show ?case
    by (rule stored_from_ok [OF write_physical_stored [OF guest_memory_backed [OF memory_written.IH]] memory_written.IH])
qed (simp_all add: alias_decode_ok guest_memory_ok_cong x86_core_machine_set_memory_instruction_read_def
    x86_core_machine_set_memory_cache_probe_def set_owned_def x86_core_machine_memory_freeze_mappings_def
    x86_core_machine_signal_address_clear_mask_def)

section \<open>Silent parity\<close>

text \<open>Reading calls the fault observer for a wrong parity only, and there is none.\<close>

lemma silent_notes:
  "x86_core_machine_memory_note_provider_failure (io\<lparr>mi_parity_fault := f\<rparr>) =
     x86_core_machine_memory_note_provider_failure io"
  "first_claim (io\<lparr>mi_parity_fault := f\<rparr>) = first_claim io"
  "provider_status (io\<lparr>mi_parity_fault := f\<rparr>) = provider_status io"
  "provider_read (io\<lparr>mi_parity_fault := f\<rparr>) = provider_read io"
  by (intro ext; simp add: x86_core_machine_memory_note_provider_failure_def first_claim_def
      provider_status_def provider_read_def cong: option.case_cong if_cong)+

lemma silent_claimed: "claimed (io\<lparr>mi_parity_fault := f\<rparr>) = claimed io"
  by (intro ext) (simp only: claimed_def silent_notes)

lemma silent_route:
  "x86_core_machine_memory_route_resolve (io\<lparr>mi_parity_fault := f\<rparr>) = x86_core_machine_memory_route_resolve io"
  by (intro ext) (simp only: x86_core_machine_memory_route_resolve_def silent_notes silent_claimed)

lemma silent_scan: "split_scan (io\<lparr>mi_parity_fault := f\<rparr>) ram physical access cpu p offset is w =
    split_scan io ram physical access cpu p offset is w"
proof (induction "is" arbitrary: w)
  case (Cons i "is")
  show ?case by (simp only: split_scan.simps silent_route Cons.IH)
qed simp

lemma silent_decide: "split_decide (io\<lparr>mi_parity_fault := f\<rparr>) = split_decide io"
  by (intro ext) (simp only: split_decide_def silent_scan)

lemma silent_whole:
  assumes "parity_ok ram" "ram_backing ram = Some backing"
  shows "read_whole (io\<lparr>mi_parity_fault := f\<rparr>) ram = read_whole io ram"
  by (intro ext) (simp only: read_whole_def backing_read_ok [OF assms] silent_notes)

lemma silent_call:
  assumes "parity_ok ram" "ram_backing ram = Some backing"
  shows "read_call g (io\<lparr>mi_parity_fault := f\<rparr>) ram = read_call g io ram"
  by (intro ext) (simp only: read_call_def silent_route silent_decide silent_whole [OF assms])

lemma read_silent:
  assumes "memory_reachable io0 ram"
  shows "x86_core_machine_memory_read_routed (io\<lparr>mi_parity_fault := f\<rparr>) ram =
    x86_core_machine_memory_read_routed io ram"
proof -
  obtain backing where "parity_ok ram" "ram_backing ram = Some backing"
    using guest_memory_reachable_ok [OF assms] guest_memory_backed [OF guest_memory_reachable_ok [OF assms]]
    unfolding guest_memory_ok_def by blast
  then show ?thesis by (intro ext) (simp only: x86_core_machine_memory_read_routed_def silent_call)
qed

section \<open>Installing routes\<close>

text \<open>What registration may do to the table: append, and let its capacity grow.\<close>

definition table_grew :: "('p, 'o) t_ram \<Rightarrow> ('p, 'o) t_ram \<Rightarrow> bool" where
  "table_grew ram ram' \<longleftrightarrow> (\<exists>ps c. ram' = ram\<lparr>ram_device_providers := ram_device_providers ram @ ps,
     ram_device_provider_capacity := c\<rparr>)"

lemma table_grew_refl: "table_grew ram ram"
  unfolding table_grew_def by (intro exI [of _ "[]"] exI [of _ "ram_device_provider_capacity ram"]) simp

lemma table_grew_trans: "table_grew a b \<Longrightarrow> table_grew b c \<Longrightarrow> table_grew a c"
proof -
  assume "table_grew a b" "table_grew b c"
  then obtain ps k qs l where "b = a\<lparr>ram_device_providers := ram_device_providers a @ ps, ram_device_provider_capacity := k\<rparr>"
    "c = b\<lparr>ram_device_providers := ram_device_providers b @ qs, ram_device_provider_capacity := l\<rparr>"
    unfolding table_grew_def by blast
  then show "table_grew a c" unfolding table_grew_def by (intro exI [of _ "ps @ qs"] exI [of _ l]) simp
qed

lemma register_provider_grew:
  assumes "register_provider alloc ov raw repl fb start bytes cb owner failure ram = (status, ram')"
  shows "if status = LIB_STATUS_OK
    then \<exists>p c. ram' = ram\<lparr>ram_device_providers := ram_device_providers ram @ [p], ram_device_provider_capacity := c\<rparr>
    else \<exists>c. ram' = ram\<lparr>ram_device_provider_capacity := c\<rparr>"
proof -
  have same: "ram\<lparr>ram_device_provider_capacity := ram_device_provider_capacity ram\<rparr> = ram" by simp
  obtain st m where res: "x86_core_machine_memory_reserve_device_provider alloc ram = (st, m)" by force
  then have m: "\<exists>c. m = ram\<lparr>ram_device_provider_capacity := c\<rparr>"
    unfolding x86_core_machine_memory_reserve_device_provider_def Let_def
    by (metis prod.inject same)
  then obtain c where c: "m = ram\<lparr>ram_device_provider_capacity := c\<rparr>" by blast
  define s where "s = x86_core_machine_memory_validate_device_provider start bytes cb owner ov ram"
  have run: "register_provider alloc ov raw repl fb start bytes cb owner failure ram =
      (if s \<noteq> LIB_STATUS_OK then (s, ram) else if st \<noteq> LIB_STATUS_OK then (st, m)
       else (LIB_STATUS_OK, x86_core_machine_memory_append_device_provider start bytes cb owner failure ov raw repl fb m))"
    unfolding register_provider_def Let_def s_def res by simp
  show ?thesis
  proof (cases "s = LIB_STATUS_OK \<and> st = LIB_STATUS_OK")
    case True
    then have "status = LIB_STATUS_OK"
      "ram' = x86_core_machine_memory_append_device_provider start bytes cb owner failure ov raw repl fb m"
      using assms unfolding run by simp_all
    moreover obtain p where "x86_core_machine_memory_append_device_provider start bytes cb owner failure ov raw repl fb m =
        m\<lparr>ram_device_providers := ram_device_providers m @ [p]\<rparr>"
      unfolding x86_core_machine_memory_append_device_provider_def by blast
    moreover have "m\<lparr>ram_device_providers := ram_device_providers m @ [p]\<rparr> =
        ram\<lparr>ram_device_providers := ram_device_providers ram @ [p], ram_device_provider_capacity := c\<rparr>" for p
      unfolding c by simp
    ultimately show ?thesis by auto
  next
    case False
    then have "status \<noteq> LIB_STATUS_OK" "ram' = ram \<or> ram' = m" using assms unfolding run by (auto split: if_splits)
    then show ?thesis using c same by metis
  qed
qed

lemma mark_last_grew:
  assumes "ram' = ram\<lparr>ram_device_providers := ram_device_providers ram @ [p], ram_device_provider_capacity := c\<rparr>"
  shows "table_grew ram (mark_last f ram')"
  unfolding table_grew_def mark_last_def assms Let_def
  by (intro exI [of _ "[f p]"] exI [of _ c]) simp

lemma register_route_grew: "table_grew ram (snd (register_route alloc owner r ram))"
proof -
  have plain: "table_grew ram (snd x)" and
    marked: "table_grew ram (snd (case x of (s, m) \<Rightarrow> (s, if s = LIB_STATUS_OK then mark_last f m else m)))"
    if x: "x = register_provider alloc ov raw repl fb start bytes cb owner failure ram"
    for x ov raw repl fb start bytes cb owner failure and f
  proof -
    obtain s m where e: "x = (s, m)" by force
    note g = register_provider_grew [OF x [unfolded e, symmetric]]
    have k: "table_grew ram (ram\<lparr>ram_device_provider_capacity := c\<rparr>)" for c
      unfolding table_grew_def by (intro exI [of _ "[]"] exI [of _ c]) simp
    show "table_grew ram (snd x)" using g e k by (auto simp: table_grew_def split: if_splits)
    show "table_grew ram (snd (case x of (s, m) \<Rightarrow> (s, if s = LIB_STATUS_OK then mark_last f m else m)))"
    proof (cases "s = LIB_STATUS_OK")
      case True
      then obtain p c where "m = ram\<lparr>ram_device_providers := ram_device_providers ram @ [p], ram_device_provider_capacity := c\<rparr>"
        using g by auto
      then show ?thesis using True e mark_last_grew [where ram' = m and ram = ram and p = p and c = c and f = f] by simp
    next
      case False
      then show ?thesis using g e k by auto
    qed
  qed
  show ?thesis
    unfolding register_route_def Let_def registrations
    by (cases "dr_mode r") (simp_all only: x86_core_machine_memory_provider_mode.case plain [OF refl] marked [OF refl])
qed

lemma register_routes_grew: "table_grew ram (snd (register_routes alloc owner rs ram))"
proof (induction rs arbitrary: ram)
  case (Cons r rs)
  obtain s m where r: "register_route alloc owner r ram = (s, m)" by (metis surj_pair)
  then have m: "table_grew ram m" using register_route_grew [of ram alloc owner r] by simp
  show ?case using r table_grew_trans [OF m Cons.IH [of m]] m by simp
qed (simp add: table_grew_refl)

text \<open>The way back: routes, observers and parity are as before.\<close>

lemma device_routes_undone:
  assumes ram: "ram_parity ram = None \<longrightarrow> ram_parity_fault ram = None"
    and i: "install_device_routes alloc routes observer parity owner ram = (status, ram')" "status \<noteq> LIB_STATUS_OK"
  shows "\<exists>c. ram' = ram\<lparr>ram_device_provider_capacity := c\<rparr>"
proof -
  have keep: "\<exists>c. ram = ram\<lparr>ram_device_provider_capacity := c\<rparr>"
    by (rule exI [of _ "ram_device_provider_capacity ram"]) simp
  define s where "s = (case parity of None \<Rightarrow> (LIB_STATUS_OK, ram)
      | Some p \<Rightarrow> x86_core_machine_memory_enable_parity alloc (pc_bytes p) (pc_fault p) (Some owner) ram)"
  obtain s1 m1 where p: "s = (s1, m1)" by force
  have enable: "(fst s \<noteq> LIB_STATUS_OK \<longrightarrow> snd s = ram) \<and> (parity = None \<longrightarrow> snd s = ram) \<and>
      (fst s = LIB_STATUS_OK \<and> parity \<noteq> None \<longrightarrow>
         ram_parity ram = None \<and> (\<exists>q f. snd s = ram\<lparr>ram_parity := q, ram_parity_fault := f\<rparr>))"
    unfolding s_def
    by (cases parity) (auto simp: x86_core_machine_memory_enable_parity_def split: option.split)
  obtain s2 m2 where r: "register_routes alloc owner routes m1 = (s2, m2)" by force
  then obtain ps c where m2: "m2 = m1\<lparr>ram_device_providers := ram_device_providers m1 @ ps, ram_device_provider_capacity := c\<rparr>"
    using register_routes_grew [of m1 alloc owner routes] by (auto simp: table_grew_def)
  define step where "step = (if s2 = LIB_STATUS_OK \<and> observer \<noteq> None
    then x86_core_machine_memory_register_write_observer observer (Some owner) m2 else (s2, m2))"
  obtain s3 m3 where o: "step = (s3, m3)" by force
  have "\<exists>os. snd step = m2\<lparr>ram_write_observers := ram_write_observers m2 @ os\<rparr>"
  proof -
    have n: "\<exists>os. m2 = m2\<lparr>ram_write_observers := ram_write_observers m2 @ os\<rparr>" by (rule exI [of _ "[]"]) simp
    then show ?thesis
      unfolding step_def x86_core_machine_memory_register_write_observer_def Let_def by auto
  qed
  then obtain os where m3: "m3 = m2\<lparr>ram_write_observers := ram_write_observers m2 @ os\<rparr>" using o by auto
  show ?thesis
  proof (cases "s1 = LIB_STATUS_OK")
    case False
    then have "ram' = ram"
      using i(1) enable unfolding install_device_routes_def s_def [symmetric] p prod.case Let_def by simp
    then show ?thesis using keep by simp
  next
    case True
    have res: "ram' = (let m = m3\<lparr>ram_device_providers := take (length (ram_device_providers ram)) (ram_device_providers m3),
          ram_write_observers := take (length (ram_write_observers ram)) (ram_write_observers m3)\<rparr>
        in if parity \<noteq> None then x86_core_machine_memory_release_parity m else m)"
      using i True unfolding install_device_routes_def s_def [symmetric] p prod.case Let_def r step_def [symmetric] o
      by (simp split: if_splits)
    show ?thesis
    proof (cases parity)
      case None
      then have "m1 = ram" using enable p by simp
      then show ?thesis using res None by (auto simp: m3 m2 intro: exI [of _ c])
    next
      case (Some q)
      then obtain x f where "ram_parity ram = None" "ram_parity_fault ram = None" "m1 = ram\<lparr>ram_parity := x, ram_parity_fault := f\<rparr>"
        using enable p True ram by auto
      then show ?thesis
        using res Some
        by (intro exI [of _ c]) (simp add: m3 m2 x86_core_machine_memory_release_parity_def)
    qed
  qed
qed

lemma install_aliases_undone:
  "install_aliases selected (ram_mappings m) as ram = (status, ram') \<Longrightarrow> status \<noteq> LIB_STATUS_OK \<Longrightarrow>
   ram\<lparr>ram_mappings := ram_mappings m\<rparr> = m \<Longrightarrow> ram' = m"
proof (induction as arbitrary: ram)
  case (Cons a as)
  obtain s ram1 where r: "x86_core_machine_memory_register_mapping (ma_physical_start a) (ma_backing_start a)
      (ma_bytes a) selected ram = (s, ram1)" by (metis surj_pair)
  then have "ram1\<lparr>ram_mappings := ram_mappings m\<rparr> = ram\<lparr>ram_mappings := ram_mappings m\<rparr>"
    by (auto simp: x86_core_machine_memory_register_mapping_def split: if_splits)
  then show ?case using Cons r by (auto split: if_splits)
qed simp

text \<open>The end of a window is not guarded against wrapping.\<close>

lemma provider_range_wraps:
  "x86_core_machine_memory_validate_device_provider 1 (- 1) \<lparr>dc_read = Some r, dc_write = Some w, dc_query = Some q\<rparr>
     (Some owner) True (zero_ram :: ('p, 'o) t_ram) = LIB_STATUS_OK"
  by (simp add: x86_core_machine_memory_validate_device_provider_def zero_ram_def)

section \<open>Writes that cannot fail\<close>

lemma plain_write_status:
  assumes plain: "x86_core_machine_memory_is_plain_span ram physical (of_nat (length bs))"
    and fits: "unat physical + length bs \<le> unat (ram_installed_bytes ram)" "ram_ok ram"
    and dev: "no_device ram physical" and n: "bs \<noteq> []" "length bs < 2 ^ 63"
  shows "fst (x86_core_machine_memory_write_physical io cpu physical bs ram w) = LIB_STATUS_OK"
proof -
  have p: "ram_address_clear_mask ram = 0" "ram_mappings ram = []"
    using plain by (auto simp: x86_core_machine_memory_is_plain_span_def)
  have b: "ram_backing ram \<noteq> None" using fits(2) by (auto simp: ram_ok_def)
  have u: "unat (of_nat (length bs) :: lib_u64) = length bs" by (rule unat_count [OF n(2)])
  have nz: "(of_nat (length bs) :: lib_u64) \<noteq> 0" using u n(1) by (metis length_0_conv unsigned_0)
  have n63: "unat (of_nat (length bs) :: lib_u64) < 2 ^ 63" using u n(2) by simp
  have "\<not> ucast physical > ram_installed_bytes ram"
    "\<not> of_nat (length bs) > ram_installed_bytes ram - ucast physical"
    using fits(1) u by (simp_all add: word_less_nat_alt unat_sub word_le_nat_alt not_less)
  then have "x86_core_machine_memory_offset ram physical physical (of_nat (length bs)) = (LIB_STATUS_OK, ucast physical)"
    using b p by (simp add: x86_core_machine_memory_offset_def Let_def)
  then have r: "x86_core_machine_memory_route_resolve io ram physical (of_nat (length bs)) access True cpu w =
      (LIB_STATUS_OK, (None, physical, ucast physical), w)" for access
    unfolding route_no_device [OF dev nz n63] using p by (simp add: x86_core_machine_memory_decode_address_def)
  have "\<not> x86_core_machine_memory_crosses_decode ram physical (of_nat (length bs))"
    using p by (simp add: x86_core_machine_memory_crosses_decode_def Let_def)
  then have d: "split_decide io ram physical (length bs) access cpu
      (LIB_STATUS_OK, (None, physical, ucast physical), w) = (KEEP_WHOLE, w)" for access
    using plain by (simp add: split_decide_def Let_def)
  show ?thesis
    using n(1)
    by (simp add: x86_core_machine_memory_write_physical_def write_call_def [of "write_call _ _ _"] r d
        write_whole_def backing_write_def Let_def)
qed

section \<open>A sample memory\<close>

text \<open>
  Thirty-two bytes with parity over the first sixteen, a device at 18h-1Bh under a replacement
  device, and a selected alias that shows the bytes from 4 on again at 10h-17h.
\<close>

definition sample_memory_io :: "(nat, nat, lib_u32 list) memory_io" where
  "sample_memory_io = \<lparr>mi_read = \<lambda>p o1 a observe bytes w. (LIB_STATUS_OK, bytes, w), mi_write = \<lambda>p o1 a bytes w. (LIB_STATUS_OK, w),
     mi_query = \<lambda>p o1 a n access w. LIB_STATUS_OK, mi_probe = \<lambda>p o1 a n w. False,
     mi_failure = \<lambda>p o1 a n access status w. w, mi_parity_fault = \<lambda>p o1 a w. a # w,
     mi_observe = \<lambda>p o1 a n w. w, mi_snoop = \<lambda>p a n w. w\<rparr>"

definition sample_device_route :: "x86_core_machine_memory_provider_mode \<Rightarrow> nat x86_core_machine_memory_device_route" where
  "sample_device_route mode = \<lparr>dr_physical_start = 0x18, dr_bytes = 4,
     dr_callbacks = \<lparr>dc_read = Some 0, dc_write = Some 0, dc_query = Some 0\<rparr>, dr_mode = mode, dr_failure = None\<rparr>"

definition sample_new_memory :: "(nat, nat) t_ram" where
  "sample_new_memory = snd (x86_core_machine_memory_initialize_for (\<lambda>_. True) 32 zero_ram)"

definition sample_routed_memory :: "(nat, nat) t_ram" where
  "sample_routed_memory = snd (x86_core_machine_install_memory_device_routes (\<lambda>_. True) True
     (Some [sample_device_route X86_CORE_MACHINE_MEMORY_PROVIDER_STANDARD,
            sample_device_route X86_CORE_MACHINE_MEMORY_PROVIDER_REPLACEMENT])
     None (Some \<lparr>pc_bytes = 16, pc_fault = Some 0\<rparr>) (Some 7) sample_new_memory)"

definition sample_memory :: "(nat, nat) t_ram" where
  "sample_memory = snd (x86_core_machine_install_memory_aliases True
     (Some [\<lparr>ma_physical_start = 0x10, ma_backing_start = 4, ma_bytes = 8\<rparr>]) True sample_routed_memory)"

definition sample_written_memory :: "(nat, nat) t_ram" where
  "sample_written_memory = fst (snd (x86_core_machine_memory_write_physical sample_memory_io True 0x0E [1, 2, 3, 4]
     sample_memory []))"

lemma sample_new_memory_reachable: "memory_reachable sample_memory_io sample_new_memory"
proof (rule memory_initialized)
  show "x86_core_machine_memory_initialize_for (\<lambda>_. True) 32 (zero_ram :: (nat, nat) t_ram) = (LIB_STATUS_OK, sample_new_memory)"
    unfolding sample_new_memory_def by (rule prod_eqI) (code_simp, simp)
qed simp

lemma sample_memory_reachable: "memory_reachable sample_memory_io sample_memory"
  unfolding sample_memory_def sample_routed_memory_def
proof (intro memory_aliased memory_routed sample_new_memory_reachable disjI2)
  have "ram_backing sample_new_memory = Some (replicate 32 0)" by code_simp
  then show "ram_clear sample_new_memory" by (simp add: ram_clear_def)
qed

lemma sample_written_memory_reachable: "memory_reachable sample_memory_io sample_written_memory"
  unfolding sample_written_memory_def by (intro memory_written sample_memory_reachable)

section \<open>Properties\<close>

text \<open>C16: Reading RAM. In every reachable memory a read of any length that no device decodes and that
succeeds - whole or split at the address lines or at an alias window - returns at each place the byte
that a one-byte read of that address returns, reports nothing to the outside and keeps the length.\<close>
theorem memory_read_exact:
  assumes "memory_reachable io0 ram" "ds \<noteq> []" "length ds < 2 ^ 63"
    and "\<forall>i < length ds. no_device ram (physical + of_nat i)"
    and "x86_core_machine_memory_read_routed io ram observe fetch cpu physical ds w = (LIB_STATUS_OK, ds', w')"
  shows "w' = w \<and> length ds' = length ds \<and> (\<forall>i < length ds. \<forall>d v.
    x86_core_machine_memory_read_routed io ram observe fetch cpu (physical + of_nat i) [d] v = (LIB_STATUS_OK, [ds' ! i], v))"
proof -
  have ok: "ram_ok ram" "parity_ok ram" using guest_memory_reachable_ok [OF assms(1)] by (auto simp: guest_memory_ok_def)
  note r = read_call_bytes [OF assms(4) ok assms(2,3) assms(5) [unfolded routed_unfold]]
  have ds': "ds' = map (\<lambda>i. the (ram_byte ram (physical + of_nat i))) [0..<length ds]"
    "\<forall>i < length ds. ram_byte ram (physical + of_nat i) \<noteq> None" using r(3) by blast+
  have "x86_core_machine_memory_read_routed io ram observe fetch cpu (physical + of_nat i) [d] v =
      (LIB_STATUS_OK, [ds' ! i], v)" if i: "i < length ds" for i d v
  proof -
    have "no_device ram (physical + of_nat i)" using assms(4) i by blast
    note one = read_one [OF this ok]
    show ?thesis unfolding routed_unfold one using i ds' by simp
  qed
  then show ?thesis using r(1) ds'(1) by simp
qed

theorem memory_read_exact_witness:
  "x86_core_machine_memory_read_routed sample_memory_io sample_written_memory False False True (0x0E + 2) [0] [] =
     (LIB_STATUS_OK, [3], [])"
proof -
  have run: "x86_core_machine_memory_read_routed sample_memory_io sample_written_memory False False True 0x0E [0, 0, 0, 0] [] =
      (LIB_STATUS_OK, [1, 2, 3, 4], [])" by code_simp
  have n: "[0, 0, 0, 0 :: lib_u8] \<noteq> []" "length [0, 0, 0, 0 :: lib_u8] < 2 ^ 63" by simp_all
  have "\<forall>i < length [0, 0, 0, 0 :: lib_u8]. no_device sample_written_memory (0x0E + of_nat i)" by code_simp
  note bytes = memory_read_exact [OF sample_written_memory_reachable n this run]
  from spec [OF conjunct2 [OF conjunct2 [OF bytes]], of 2] show ?thesis by simp
qed

text \<open>C4: Writing and reading RAM. In every reachable memory a write of distinct cells that no device
and no write-protected window covers, if it succeeds, is what a read of the same addresses returns, by
the processor or not, and leaves the byte of every other cell alone - also where the access is split.
A write inside plain RAM succeeds.\<close>
theorem memory_write_read:
  assumes "memory_reachable io0 ram" "bs \<noteq> []" "length bs < 2 ^ 63" "length ds = length bs"
    and "\<forall>i < length bs. no_device ram (physical + of_nat i) \<and> \<not> write_protected ram (physical + of_nat i) 1"
    and "distinct (map (\<lambda>i. ram_cell ram (physical + of_nat i)) [0..<length bs])"
    and "x86_core_machine_memory_write_physical io cpu physical bs ram w = (status, ram', w')"
  shows "(x86_core_machine_memory_is_plain_span ram physical (of_nat (length bs)) \<and>
      unat physical + length bs \<le> unat (ram_installed_bytes ram) \<longrightarrow> status = LIB_STATUS_OK) \<and>
    (status = LIB_STATUS_OK \<longrightarrow>
      x86_core_machine_memory_read_physical io ram' cpu' physical ds v = (LIB_STATUS_OK, bs, v) \<and>
      (\<forall>a. ram_cell ram a \<notin> (\<lambda>i. ram_cell ram (physical + of_nat i)) ` {..<length bs} \<longrightarrow>
         ram_byte ram' a = ram_byte ram a))"
proof -
  have ok: "ram_ok ram" "parity_ok ram" using guest_memory_reachable_ok [OF assms(1)] by (auto simp: guest_memory_ok_def)
  then have plain: "plain_range ram physical (length bs)" using assms(5) by (simp add: plain_range_def)
  have "no_device ram physical" using assms(2) spec [OF assms(5), of 0] by simp
  then have 1: "x86_core_machine_memory_is_plain_span ram physical (of_nat (length bs)) \<Longrightarrow>
      unat physical + length bs \<le> unat (ram_installed_bytes ram) \<Longrightarrow> status = LIB_STATUS_OK"
    using plain_write_status [OF _ _ ok(1) _ assms(2,3), of physical io cpu w] unfolding assms(7) fst_conv by blast
  have 2: "x86_core_machine_memory_read_routed io ram' False False cpu' physical ds v = (LIB_STATUS_OK, bs, v) \<and>
      (\<forall>a. ram_cell ram a \<notin> (\<lambda>i. ram_cell ram (physical + of_nat i)) ` {..<length bs} \<longrightarrow>
         ram_byte ram' a = ram_byte ram a)" if "status = LIB_STATUS_OK"
  proof (intro conjI allI impI)
    note run = assms(7) [unfolded that]
    show "x86_core_machine_memory_read_routed io ram' False False cpu' physical ds v = (LIB_STATUS_OK, bs, v)"
      by (rule write_then_read(1) [OF plain ok(2) assms(2-4,6) run])
    fix a assume "ram_cell ram a \<notin> (\<lambda>i. ram_cell ram (physical + of_nat i)) ` {..<length bs}"
    then show "ram_byte ram' a = ram_byte ram a"
      by (rule write_then_read(2) [OF plain ok(2) assms(2-4,6) run])
  qed
  show ?thesis unfolding x86_core_machine_memory_read_physical_def using 1 2 by blast
qed

theorem memory_write_read_witness:
  "x86_core_machine_memory_read_physical sample_memory_io sample_written_memory False 0x0E [0, 0, 0, 0] [] =
     (LIB_STATUS_OK, [1, 2, 3, 4], [])"
proof -
  obtain w' where run: "x86_core_machine_memory_write_physical sample_memory_io True 0x0E [1, 2, 3, 4] sample_memory [] =
      (LIB_STATUS_OK, sample_written_memory, w')"
  proof -
    have "fst (x86_core_machine_memory_write_physical sample_memory_io True 0x0E [1, 2, 3, 4] sample_memory []) = LIB_STATUS_OK"
      by code_simp
    then show ?thesis using that unfolding sample_written_memory_def by (metis prod.collapse)
  qed
  have c: "\<forall>i < length [1, 2, 3, 4 :: lib_u8]. no_device sample_memory (0x0E + of_nat i) \<and>
      \<not> write_protected sample_memory (0x0E + of_nat i) 1"
    "distinct (map (\<lambda>i. ram_cell sample_memory (0x0E + of_nat i)) [0..<length [1, 2, 3, 4 :: lib_u8]])" by code_simp+
  have n: "[1, 2, 3, 4 :: lib_u8] \<noteq> []" "length [1, 2, 3, 4 :: lib_u8] < 2 ^ 63"
    "length [0, 0, 0, 0 :: lib_u8] = length [1, 2, 3, 4 :: lib_u8]" by simp_all
  note both = memory_write_read [OF sample_memory_reachable n c run, of False "[]"]
  show ?thesis by (rule conjunct1 [OF mp [OF conjunct2 [OF both] refl]])
qed

text \<open>C8: Parity never fails by itself. In every reachable memory - whatever aliases, devices and
windows, and whatever was written through them - the bytes under parity carry it, so that no read of
the processor, of its instruction fetch or of a bus master ever calls the fault observer: the
outcome does not depend on what that observer does.\<close>
theorem memory_parity_silent:
  assumes "memory_reachable io ram"
  shows "x86_core_machine_memory_read_physical (io\<lparr>mi_parity_fault := f\<rparr>) ram = x86_core_machine_memory_read_physical io ram \<and>
    x86_core_machine_memory_read_instruction_physical (io\<lparr>mi_parity_fault := f\<rparr>) ram =
      x86_core_machine_memory_read_instruction_physical io ram"
  unfolding x86_core_machine_memory_read_physical_def x86_core_machine_memory_read_instruction_physical_def
  by (simp only: read_silent [OF assms])

theorem memory_parity_silent_witness:
  "x86_core_machine_memory_read_physical (sample_memory_io\<lparr>mi_parity_fault := \<lambda>p o1 a w. [a]\<rparr>) sample_written_memory True
     0x0E [0, 0] [] = (LIB_STATUS_OK, [1, 2], []) \<and> ram_parity_fault sample_written_memory = Some (0, 7)"
proof -
  have "x86_core_machine_memory_read_physical sample_memory_io sample_written_memory True 0x0E [0, 0] [] =
      (LIB_STATUS_OK, [1, 2], [])" "ram_parity_fault sample_written_memory = Some (0, 7)" by code_simp+
  then show ?thesis using memory_parity_silent [OF sample_written_memory_reachable] by simp
qed

text \<open>C9: Route priority. The route of an access goes to the least claim - raw decodes before
replacements, ordinary devices and fallbacks at the decoded address, the latter three only where no alias
window is selected, each in the order of registration - and has that provider's answer and address;
it goes to RAM, with nothing reported, exactly when no provider claims.\<close>
theorem memory_route_priority:
  assumes "bytes \<noteq> 0"
    and "x86_core_machine_memory_route_resolve io ram physical bytes access notify cpu w = (status, (provider, a, offset), w')"
  shows "case provider of
      Some i \<Rightarrow> \<exists>b. least_claim io ram physical bytes access cpu w i b \<and>
        status = provider_status io b bytes access w (ram_device_providers ram ! i) \<and>
        (status = LIB_STATUS_OK \<longrightarrow> a = b \<and> w' = w)
    | None \<Rightarrow> w' = w \<and> (\<forall>rank j b. \<not> route_claim io ram physical bytes access cpu w rank j b)"
proof (cases provider)
  case None
  then show ?thesis using route_resolved(2) [OF assms] by simp
next
  case (Some i)
  then show ?thesis using route_resolved(1) [OF assms Some] by simp
qed

theorem memory_route_priority_witness:
  "least_claim sample_memory_io sample_memory 0x18 2 X86_CORE_MACHINE_MEMORY_ACCESS_READ True [] 1 0x18"
proof -
  have "x86_core_machine_memory_route_resolve sample_memory_io sample_memory 0x18 2 X86_CORE_MACHINE_MEMORY_ACCESS_READ
      True True [] = (LIB_STATUS_OK, (Some 1, 0x18, 0), [])"
    "provider_status sample_memory_io b 2 X86_CORE_MACHINE_MEMORY_ACCESS_READ [] p = LIB_STATUS_OK" for b p
    by (code_simp, simp add: provider_status_def sample_memory_io_def)
  then show ?thesis using memory_route_priority [of 2 sample_memory_io sample_memory] by force
qed

text \<open>C17: Installing is all or nothing. When routes, an observer and parity cannot all be installed the
memory is as it was, but for a table that may have grown; when an alias cannot be, the memory is unchanged.\<close>
theorem memory_install_atomic:
  assumes "memory_reachable io ram" "status \<noteq> LIB_STATUS_OK"
  shows "(x86_core_machine_install_memory_device_routes alloc admitted routes observer parity owner ram = (status, ram') \<longrightarrow>
      (\<exists>c. ram' = ram\<lparr>ram_device_provider_capacity := c\<rparr>)) \<and>
    (x86_core_machine_install_memory_aliases opened aliases selected ram = (status, ram') \<longrightarrow> ram' = ram)"
proof (intro conjI impI)
  have keep: "\<exists>c. ram = ram\<lparr>ram_device_provider_capacity := c\<rparr>"
    by (rule exI [of _ "ram_device_provider_capacity ram"]) simp
  have p: "ram_parity ram = None \<longrightarrow> ram_parity_fault ram = None"
    using guest_memory_reachable_ok [OF assms(1)] unfolding guest_memory_ok_def by blast
  assume "x86_core_machine_install_memory_device_routes alloc admitted routes observer parity owner ram = (status, ram')"
  then consider "ram' = ram" | rs o1 where "install_device_routes alloc rs observer parity o1 ram = (status, ram')"
    by (auto simp: x86_core_machine_install_memory_device_routes_def split: option.splits if_splits)
  then show "\<exists>c. ram' = ram\<lparr>ram_device_provider_capacity := c\<rparr>"
    using keep device_routes_undone [OF p _ assms(2)] by cases blast+
next
  assume "x86_core_machine_install_memory_aliases opened aliases selected ram = (status, ram')"
  then show "ram' = ram"
    using assms(2) install_aliases_undone [of selected ram _ ram status ram']
    by (auto simp: x86_core_machine_install_memory_aliases_def split: option.splits if_splits)
qed

theorem memory_install_atomic_witness:
  "snd (x86_core_machine_install_memory_aliases True
     (Some [\<lparr>ma_physical_start = 0x20, ma_backing_start = 0, ma_bytes = 4\<rparr>,
            \<lparr>ma_physical_start = 0x30, ma_backing_start = 31, ma_bytes = 2\<rparr>]) True sample_memory) = sample_memory"
  (is "snd ?r = _")
proof -
  have "fst ?r = LIB_STATUS_INVALID_ARGUMENT" by code_simp
  then show ?thesis
    using memory_install_atomic [OF sample_memory_reachable, of "fst ?r"] by (metis lib_status.distinct(1) lib_status.simps prod.collapse)
qed

end
