(* ===== verification/Board_Memory.thy ===== *)
theory Board_Memory
  imports Board_Open Memory_Run
begin

unbundle bit_operations_syntax

text \<open>
  The DMA bus over guest memory. What a bus master needs of a memory is a locale: the value a cycle
  carries is what the processor reads there afterwards. The cycle of the core machine is its client,
  the RAM of this development its provider, and a board with that RAM keeps the contract of the
  board's parts.
\<close>

section \<open>A coherent memory\<close>

locale coherent_memory =
  fixes memory :: "'w dma_memory"
    and guest :: "'w \<Rightarrow> 'g"
    and plain :: "lib_u32 \<Rightarrow> lib_u8 \<Rightarrow> 'g \<Rightarrow> bool"
    and fetch :: "lib_u32 \<Rightarrow> lib_u8 \<Rightarrow> 'w \<Rightarrow> lib_status \<times> lib_u8 list"
  assumes query_keeps: "guest (snd (dm_query memory a n is_write w)) = guest w"
    and read_coherent: "plain a n (guest w) \<Longrightarrow> dm_read memory a n v w = (LIB_STATUS_OK, v', w') \<Longrightarrow>
      guest w' = guest w \<and> (\<forall>u. guest u = guest w' \<longrightarrow> fetch a n u = (LIB_STATUS_OK, bytes_of_word (unat n) v'))"
    and write_coherent: "plain a n (guest w) \<Longrightarrow> dm_write memory a n v w = (LIB_STATUS_OK, w') \<Longrightarrow>
      (\<forall>u. guest u = guest w' \<longrightarrow> fetch a n u = (LIB_STATUS_OK, bytes_of_word (unat n) v))"
begin

lemma access_coherent:
  assumes "plain a n (guest (snd s))" "dma_memory_access memory a n is_write v s = (LIB_STATUS_OK, v', s')"
  shows "\<forall>u. guest u = guest (snd s') \<longrightarrow> fetch a n u = (LIB_STATUS_OK, bytes_of_word (unat n) v')"
    "\<not> is_write \<Longrightarrow> guest (snd s') = guest (snd s)"
proof -
  have "(\<forall>u. guest u = guest (snd s') \<longrightarrow> fetch a n u = (LIB_STATUS_OK, bytes_of_word (unat n) v')) \<and>
      (\<not> is_write \<longrightarrow> guest (snd s') = guest (snd s))"
  proof (cases is_write)
    case True
    obtain st w where w: "dm_write memory a n v (snd s) = (st, w)" by (metis surj_pair)
    then have "st = LIB_STATUS_OK" "v' = v" "snd s' = w" using assms(2) True by (auto simp: dma_memory_access_def)
    then show ?thesis using True write_coherent [OF assms(1)] w by blast
  next
    case False
    obtain st u w where w: "dm_read memory a n v (snd s) = (st, u, w)" by (metis surj_pair)
    then have "st = LIB_STATUS_OK" "v' = u" "snd s' = w" using assms(2) False by (auto simp: dma_memory_access_def)
    then show ?thesis using False read_coherent [OF assms(1)] w by blast
  qed
  then show "\<forall>u. guest u = guest (snd s') \<longrightarrow> fetch a n u = (LIB_STATUS_OK, bytes_of_word (unat n) v')"
    "\<not> is_write \<Longrightarrow> guest (snd s') = guest (snd s)" by blast+
qed

lemma cycle_coherent:
  assumes before: "\<And>c v s. guest (snd (snd (call_effect before c v s))) = guest (snd s)"
    and after: "\<And>c v s. fst (call_effect after c v s) = v \<and> guest (snd (snd (call_effect after c v s))) = guest (snd s)"
    and plain: "plain a n (guest (snd s))"
    and cycle: "x86_core_machine_dma_memory_cycle memory a n channel is_write v before after s = (LIB_STATUS_OK, v', s')"
  shows "fetch a n (snd s') = (LIB_STATUS_OK, bytes_of_word (unat n) v') \<and>
    (\<not> is_write \<longrightarrow> guest (snd s') = guest (snd s))"
proof -
  obtain q w0 where q: "dm_query memory a n is_write (snd s) = (q, w0)" by (metis surj_pair)
  have g0: "guest w0 = guest (snd s)" using query_keeps q by (metis snd_conv)
  obtain st t where begin_eq: "x86_core_machine_transaction_begin X86_CORE_MACHINE_TRANSACTION_OWNER_DMA
      (if is_write then X86_CORE_MACHINE_TRANSACTION_DMA_MEMORY_WRITE else X86_CORE_MACHINE_TRANSACTION_DMA_MEMORY_READ)
      a (ucast n) (of_nat channel) (Some (mc_transaction (fst s))) = (st, t)" by (metis surj_pair)
  obtain v1 s1 where s1: "call_effect before channel v (set_transaction t (fst s, w0)) = (v1, s1)" by (metis surj_pair)
  obtain st2 v2 s2 where s2: "dma_memory_access memory a n is_write v1 s1 = (st2, v2, s2)" by (metis surj_pair)
  obtain v3 s3 where s3: "call_effect after channel v2 s2 = (v3, s3)" by (metis surj_pair)
  have run: "st2 = LIB_STATUS_OK" "v' = v3" "s' = commit_transaction s3"
    using cycle q begin_eq s1 s2 s3
    by (auto simp: x86_core_machine_dma_memory_cycle_def Let_def split: if_splits)
  have g1: "guest (snd s1) = guest (snd s)"
    using before [of channel v "set_transaction t (fst s, w0)"] s1 g0 by (simp add: set_transaction_def)
  have g3: "v3 = v2" "guest (snd s3) = guest (snd s2)" using after [of channel v2 s2] s3 by simp_all
  have a: "dma_memory_access memory a n is_write v1 s1 = (LIB_STATUS_OK, v2, s2)" using s2 run(1) by simp
  note acc = access_coherent [OF _ a, unfolded g1, OF plain]
  have "snd s' = snd s3" using run(3) by (simp add: commit_transaction_def set_transaction_def)
  then show ?thesis using acc run(2) g3 by simp
qed

end

section \<open>The RAM as the DMA bus sees it\<close>

text \<open>
  The board's rest is the memory and the world behind its callbacks; bus masters are not the
  processor. A cycle of one byte keeps the upper byte of the value.
\<close>

type_synonym ('mp, 'mo, 'w) guest_board = "(('mp, 'mo) t_ram \<times> 'w) board"

definition guest_ram :: "'b \<times> ('mp, 'mo, 'w) guest_board \<Rightarrow> ('mp, 'mo) t_ram" where
  "guest_ram w = fst (bd_rest (snd w))"

definition guest_dma_memory :: "('mp, 'mo, 'w) memory_io \<Rightarrow> ('b \<times> ('mp, 'mo, 'w) guest_board) dma_memory" where
  "guest_dma_memory io = \<lparr>
     dm_query = (\<lambda>a n is_write (bus, board). case bd_rest board of (ram, x) \<Rightarrow>
       case x86_core_machine_memory_query_physical io ram a (ucast n)
              (if is_write then X86_CORE_MACHINE_MEMORY_ACCESS_WRITE else X86_CORE_MACHINE_MEMORY_ACCESS_READ) False x of
         (status, _, x) \<Rightarrow> (status, bus, board\<lparr>bd_rest := (ram, x)\<rparr>)),
     dm_read = (\<lambda>a n v (bus, board). case bd_rest board of (ram, x) \<Rightarrow>
       case x86_core_machine_memory_read_physical io ram False a (bytes_of_word (unat n) v) x of
         (status, bytes, x) \<Rightarrow>
           (status, word_of_bytes (bytes @ drop (unat n) (bytes_of_word 2 v)), bus, board\<lparr>bd_rest := (ram, x)\<rparr>)),
     dm_write = (\<lambda>a n v (bus, board). case bd_rest board of (ram, x) \<Rightarrow>
       case x86_core_machine_memory_write_physical io False a (bytes_of_word (unat n) v) ram x of
         (status, ram, x) \<Rightarrow> (status, bus, board\<lparr>bd_rest := (ram, x)\<rparr>))\<rparr>"

definition guest_fetch ::
  "('mp, 'mo, 'w) memory_io \<Rightarrow> lib_u32 \<Rightarrow> lib_u8 \<Rightarrow> 'b \<times> ('mp, 'mo, 'w) guest_board \<Rightarrow> lib_status \<times> lib_u8 list" where
  "guest_fetch io a n w =
     (case x86_core_machine_memory_read_physical io (guest_ram w) True a (replicate (unat n) 0) (snd (bd_rest (snd w))) of
        (status, bytes, _) \<Rightarrow> (status, bytes))"

text \<open>One or two bytes in distinct cells of a reachable memory that no device and no protected window covers.\<close>

definition plain_cells :: "('mp, 'mo, 'w) memory_io \<Rightarrow> lib_u32 \<Rightarrow> lib_u8 \<Rightarrow> ('mp, 'mo) t_ram \<Rightarrow> bool" where
  "plain_cells io a n ram \<longleftrightarrow> memory_reachable io ram \<and> (n = 1 \<or> n = 2) \<and>
     (\<forall>i < unat n. no_device ram (a + of_nat i) \<and> \<not> write_protected ram (a + of_nat i) 1) \<and>
     distinct (map (\<lambda>i. ram_cell ram (a + of_nat i)) [0..<unat n])"

lemma bytes_of_word_bytes:
  assumes "length bs = n" "n = 1 \<or> n = 2"
  shows "bytes_of_word n (word_of_bytes (bs @ drop n (bytes_of_word 2 v))) = bs"
proof -
  have split: "\<exists>b. bs = [b]" if "n = 1" using assms(1) that by (cases bs) auto
  have split2: "\<exists>b c. bs = [b, c]" if "n = 2" using assms(1) that by (cases bs; cases "tl bs") auto
  have low: "ucast (ucast b OR push_bit 8 w :: lib_u16) = b" for b :: lib_u8 and w
    by (rule bit_word_eqI) (auto simp: bit_simps)
  have high: "ucast (drop_bit 8 (ucast b OR push_bit 8 (ucast c)) :: lib_u16) = c" for b c :: lib_u8
    by (rule bit_word_eqI) (auto simp: bit_simps dest: bit_imp_le_length)
  show ?thesis
    using assms(2) split split2 low high
    by (auto simp: bytes_of_word_def word_of_bytes_def numeral_2_eq_2)
qed

lemma length_bytes_of_word [simp]: "length (bytes_of_word n v) = n"
  by (simp add: bytes_of_word_def)

lemma memory_length:
  assumes "memory_reachable io0 ram" "ds \<noteq> []" "length ds < 2 ^ 63"
    and dev: "\<forall>i < length ds. no_device ram (physical + of_nat i)"
    and run: "x86_core_machine_memory_read_routed io ram observe fetch cpu physical ds w = (LIB_STATUS_OK, ds', w')"
  shows "length ds' = length ds"
proof -
  have ok: "ram_ok ram" "parity_ok ram" using guest_memory_reachable_ok [OF assms(1)] by (auto simp: guest_memory_ok_def)
  show ?thesis using read_call_bytes(3) [OF dev ok assms(2,3) run [unfolded routed_unfold]] by simp
qed

text \<open>What one reader gets from plain RAM every other reader gets.\<close>

lemma read_by_anyone:
  assumes "memory_reachable io0 ram" "ds \<noteq> []" "length ds < 2 ^ 63" "length ds2 = length ds"
    and dev: "\<forall>i < length ds. no_device ram (physical + of_nat i)"
    and run: "x86_core_machine_memory_read_routed io ram observe fetch cpu physical ds w = (LIB_STATUS_OK, ds', w')"
  shows "x86_core_machine_memory_read_routed io2 ram observe2 fetch2 cpu2 physical ds2 v = (LIB_STATUS_OK, ds', v)"
proof -
  have ok: "ram_ok ram" "parity_ok ram" using guest_memory_reachable_ok [OF assms(1)] by (auto simp: guest_memory_ok_def)
  have bn: "ram_backing ram \<noteq> None" by (rule guest_memory_backed [OF guest_memory_reachable_ok [OF assms(1)]])
  note r = read_call_bytes [OF dev ok assms(2,3) run [unfolded routed_unfold]]
  have pos: "ds2 \<noteq> []" "length ds2 < 2 ^ 63" "0 < length ds" using assms(2-4) by auto
  have dev2: "\<forall>i < length ds2. no_device ram (physical + of_nat i)" using dev assms(4) by simp
  have some: "\<forall>i < length ds2. ram_cell ram (physical + of_nat i) \<noteq> None"
    using r(3) assms(4) by (auto simp: ram_byte_def)
  have "\<forall>st. fst (split_decide io ram physical (length ds) X86_CORE_MACHINE_MEMORY_ACCESS_READ cpu
      (x86_core_machine_memory_route_resolve io ram physical (of_nat (length ds))
         X86_CORE_MACHINE_MEMORY_ACCESS_READ True cpu w)) \<noteq> REFUSE_ACCESS st"
  proof (intro allI notI)
    fix st
    define route where "route = x86_core_machine_memory_route_resolve io ram physical (of_nat (length ds))
         X86_CORE_MACHINE_MEMORY_ACCESS_READ True cpu w"
    assume refuse: "fst (split_decide io ram physical (length ds) X86_CORE_MACHINE_MEMORY_ACCESS_READ cpu
      (x86_core_machine_memory_route_resolve io ram physical (of_nat (length ds))
         X86_CORE_MACHINE_MEMORY_ACCESS_READ True cpu w)) = REFUSE_ACCESS st"
    then obtain w1 where d: "split_decide io ram physical (length ds) X86_CORE_MACHINE_MEMORY_ACCESS_READ cpu route =
        (REFUSE_ACCESS st, w1)" unfolding route_def [symmetric] by (metis prod.collapse)
    have "st = LIB_STATUS_INTERNAL_ERROR"
      by (rule split_decide_no_device(2) [OF dev pos(3) assms(3) ok(1) route_def d refl])
    then show False
      using run assms(2) d
      unfolding routed_unfold read_call_def [of "read_call _ _ _ _ _ _"] Let_def route_def [symmetric] by simp
  qed
  then have decide: "\<forall>st. fst (split_decide io2 ram physical (length ds2) X86_CORE_MACHINE_MEMORY_ACCESS_READ cpu2
      (x86_core_machine_memory_route_resolve io2 ram physical (of_nat (length ds2))
         X86_CORE_MACHINE_MEMORY_ACCESS_READ True cpu2 v)) \<noteq> REFUSE_ACCESS st"
    using split_decide_layout [OF dev pos(3) assms(3) bn, of io2 "[]" X86_CORE_MACHINE_MEMORY_ACCESS_READ cpu2 True v
      io X86_CORE_MACHINE_MEMORY_ACCESS_READ cpu True w] assms(4) by (simp add: store_bytes_def)
  obtain st ds2' v' where e: "x86_core_machine_memory_read_routed io2 ram observe2 fetch2 cpu2 physical ds2 v = (st, ds2', v')"
    by (metis surj_pair)
  have st: "st = LIB_STATUS_OK"
    using read_call_status [OF dev2 ok pos(1,2) some decide] e unfolding routed_unfold by (metis fst_conv)
  note r2 = read_call_bytes [OF dev2 ok pos(1,2) e [unfolded routed_unfold]]
  have "ds2' = ds'" using r(3) [OF refl] r2(3) [OF st] assms(4) by simp
  then show ?thesis using e st r2(1) by simp
qed

text \<open>The RAM keeps both contracts: of the DMA bus, and of a coherent memory.\<close>

lemma guest_dma_memory_ok: "memory_ok (guest_dma_memory io)"
  by (auto simp: memory_ok_def guest_dma_memory_def split: prod.split)

lemma guest_query_keeps: "guest_ram (snd (dm_query (guest_dma_memory io) a n is_write w)) = guest_ram w"
  by (auto simp: guest_dma_memory_def guest_ram_def split: prod.split)

lemma plain_cells_bytes:
  assumes "plain_cells io a n ram" "length bs = unat n"
  shows "bs \<noteq> []" "length bs < 2 ^ 63" "unat n = 1 \<or> unat n = 2"
proof -
  show n: "unat n = 1 \<or> unat n = 2" using assms(1) by (auto simp: plain_cells_def)
  then show "bs \<noteq> []" "length bs < 2 ^ 63" using assms(2) by auto
qed

lemma guest_read_coherent:
  assumes p: "plain_cells io a n (guest_ram w)"
    and run: "dm_read (guest_dma_memory io) a n v w = (LIB_STATUS_OK, v', w')"
  shows "guest_ram w' = guest_ram w \<and>
    (\<forall>u. guest_ram u = guest_ram w' \<longrightarrow> guest_fetch io a n u = (LIB_STATUS_OK, bytes_of_word (unat n) v'))"
proof -
  note bytes = plain_cells_bytes [OF p length_bytes_of_word]
  have reach: "memory_reachable io (guest_ram w)" and dev: "\<forall>i < length (bytes_of_word (unat n) v). no_device (guest_ram w) (a + of_nat i)"
    using p by (auto simp: plain_cells_def)
  obtain st bs x where r: "x86_core_machine_memory_read_physical io (guest_ram w) False a (bytes_of_word (unat n) v)
      (snd (bd_rest (snd w))) = (st, bs, x)" by (metis surj_pair)
  have ok: "st = LIB_STATUS_OK" "v' = word_of_bytes (bs @ drop (unat n) (bytes_of_word 2 v))" "guest_ram w' = guest_ram w"
    using run r by (auto simp: guest_dma_memory_def guest_ram_def split: prod.splits)
  note read = r [unfolded ok(1) x86_core_machine_memory_read_physical_def]
  have "length bs = unat n" using memory_length [OF reach bytes(1,2) dev read] by simp
  then have v': "bytes_of_word (unat n) v' = bs" using bytes_of_word_bytes [OF _ bytes(3)] ok(2) by simp
  have "x86_core_machine_memory_read_physical io (guest_ram w) True a (replicate (unat n) 0) y = (LIB_STATUS_OK, bs, y)" for y
    unfolding x86_core_machine_memory_read_physical_def
    by (rule read_by_anyone [OF reach bytes(1,2) _ dev read]) simp
  then show ?thesis using ok(3) v' by (simp add: guest_fetch_def)
qed

lemma guest_write_coherent:
  assumes p: "plain_cells io a n (guest_ram w)"
    and run: "dm_write (guest_dma_memory io) a n v w = (LIB_STATUS_OK, w')"
  shows "\<forall>u. guest_ram u = guest_ram w' \<longrightarrow> guest_fetch io a n u = (LIB_STATUS_OK, bytes_of_word (unat n) v)"
proof -
  let ?bs = "bytes_of_word (unat n) v"
  note bytes = plain_cells_bytes [OF p length_bytes_of_word]
  have reach: "memory_reachable io (guest_ram w)"
    and plain: "plain_range (guest_ram w) a (length ?bs)" "parity_ok (guest_ram w)"
    and dist: "distinct (map (\<lambda>i. ram_cell (guest_ram w) (a + of_nat i)) [0..<length ?bs])"
    using p guest_memory_reachable_ok [of io "guest_ram w"]
    by (auto simp: plain_cells_def plain_range_def guest_memory_ok_def)
  obtain st ram x where r: "x86_core_machine_memory_write_physical io False a ?bs (guest_ram w)
      (snd (bd_rest (snd w))) = (st, ram, x)" by (metis surj_pair)
  have ok: "st = LIB_STATUS_OK" "guest_ram w' = ram"
    using run r by (auto simp: guest_dma_memory_def guest_ram_def split: prod.splits)
  have "x86_core_machine_memory_read_physical io ram True a (replicate (unat n) 0) y = (LIB_STATUS_OK, ?bs, y)" for y
    unfolding x86_core_machine_memory_read_physical_def
    by (rule write_then_read(1) [OF plain bytes(1,2) _ dist r [unfolded ok(1)]]) simp
  then show ?thesis using ok(2) by (simp add: guest_fetch_def)
qed

interpretation guest: coherent_memory "guest_dma_memory io" guest_ram "plain_cells io" "guest_fetch io" for io
  by unfold_locales (rule guest_query_keeps, erule (1) guest_read_coherent, erule (1) guest_write_coherent)

interpretation ram: board_parts "bare_board (guest_dma_memory io)" held_core for io
  by (rule bare_board_parts [OF guest_dma_memory_ok])

section \<open>Coherence\<close>

text \<open>C7: DMA and the processor see one memory. When a memory cycle of the DMA bus over one or two bytes
of RAM succeeds, in either direction and split or not, the processor then reads at that address exactly
the value the cycle carried, whatever else the devices did; a cycle that reads leaves the memory alone.\<close>
theorem dma_memory_coherent:
  assumes "\<forall>c v s. guest_ram (snd (snd (call_effect before c v s))) = guest_ram (snd s)"
    and "\<forall>c v s. fst (call_effect after c v s) = v \<and> guest_ram (snd (snd (call_effect after c v s))) = guest_ram (snd s)"
    and "plain_cells io a n (guest_ram (snd s))"
    and "x86_core_machine_dma_memory_cycle (guest_dma_memory io) a n channel is_write v before after s =
      (LIB_STATUS_OK, v', s')"
  shows "guest_fetch io a n (snd s') = (LIB_STATUS_OK, bytes_of_word (unat n) v') \<and>
    (\<not> is_write \<longrightarrow> guest_ram (snd s') = guest_ram (snd s))"
  using guest.cycle_coherent [OF _ _ assms(3,4)] assms(1,2) by blast

definition sample_ram_machine :: "(unit, unit, (nat, nat) t_ram \<times> lib_u32 list) board_core" where
  "sample_ram_machine = (reset_machine 0 0, created_bus, board_around (sample_memory, []) False None)"

theorem dma_memory_coherent_witness:
  "guest_fetch sample_memory_io 0x0F 2 (snd (snd (snd (x86_core_machine_dma_memory_cycle
     (guest_dma_memory sample_memory_io) 0x0F 2 1 True 0x0201 None None sample_ram_machine)))) = (LIB_STATUS_OK, [1, 2])"
proof -
  let ?run = "x86_core_machine_dma_memory_cycle (guest_dma_memory sample_memory_io) 0x0F 2 1 True 0x0201 None None
    sample_ram_machine"
  have "fst ?run = LIB_STATUS_OK" "fst (snd ?run) = 0x0201" by code_simp+
  then have run: "?run = (LIB_STATUS_OK, 0x0201, snd (snd ?run))" by (metis prod.collapse)
  have ram: "guest_ram (snd sample_ram_machine) = sample_memory"
    by (simp add: guest_ram_def sample_ram_machine_def board_around_def)
  have "\<forall>i < unat (2 :: lib_u8). no_device sample_memory (0x0F + of_nat i) \<and> \<not> write_protected sample_memory (0x0F + of_nat i) 1"
    "distinct (map (\<lambda>i. ram_cell sample_memory (0x0F + of_nat i)) [0..<unat (2 :: lib_u8)])" by code_simp+
  then have "plain_cells sample_memory_io 0x0F 2 (guest_ram (snd sample_ram_machine))"
    unfolding ram plain_cells_def using sample_memory_reachable by blast
  from dma_memory_coherent [OF _ _ this run] have
    "guest_fetch sample_memory_io 0x0F 2 (snd (snd (snd ?run))) = (LIB_STATUS_OK, bytes_of_word (unat (2 :: lib_u8)) 0x0201)"
    by (simp add: call_effect_def)
  moreover have "bytes_of_word (unat (2 :: lib_u8)) 0x0201 = [1, 2]" by code_simp
  ultimately show ?thesis by simp
qed

end
