(* ===== verification/Spec2Isabelle.thy ===== *)
theory Spec2Isabelle
  imports Ports Pit_Bus Uart Ppi Board_Memory
begin

text \<open>
  A verification development for the chipset core of NXVM, the personal computer emulator of this
  repository (\<^verbatim>\<open>src/src/\<close>; all paths below are relative to it).

  \<^bold>\<open>The program.\<close> A machine is a processor core behind \<^verbatim>\<open>x86-core/machine/\<close>,
  which owns guest time, the I/O port table, the event timeline and the only bus, and a board behind
  \<^verbatim>\<open>x86-nxvm/board-base/\<close>, which owns the chips. The processor publishes the ticks an
  instruction took; the scheduler cuts them into passes that end at the next deadline of anybody, and
  in each pass advances the timeline, arbitrates the bus between memory refresh, DMA and processor,
  and lets the board advance its chips through callbacks. The chips reach each other through the
  board only: a timer's output calls the interrupt adapter or requests a refresh, the DMA controllers
  move bytes between devices and memory by bus transactions, and the real-time clock and the serial
  port raise interrupt lines that several sources may share.

  \<^bold>\<open>The theories.\<close> Each opens with what it holds. The names of the source are kept, with the
  record fields prefixed per structure; an owner pointer that may be null is \<open>'a ptr = 'a option\<close>,
  a status is \<open>lib_status\<close>, and integers keep their width as words.

  \<^item> \<^verbatim>\<open>Prelude\<close>: types, bit lemmas, and the locale \<open>tick_component\<close> of anything that
    elapses in ticks: elapsing twice is elapsing the sum, and an invariant is kept. It is interpreted on
    the interrupt controller and its pair, the clocks, the timer, the serial port and the coprocessor.
  \<^item> \<^verbatim>\<open>Pic\<close>, \<^verbatim>\<open>Pic_Bus\<close>: the 8259A interrupt controller
    (\<^verbatim>\<open>x86-nxvm/chips/pic8259/pic.c\<close>) and the master and slave on the board with their
    shared, counted lines (\<^verbatim>\<open>board-base/pic_bus.c\<close>): priority resolution against a
    declarative specification, nesting, rotation, acknowledge cycles, wired lines, deadlines.
  \<^item> \<^verbatim>\<open>Pit\<close>, \<^verbatim>\<open>Pit_Wave\<close>, \<^verbatim>\<open>Pit_Bus\<close>: the interval timer
    (\<^verbatim>\<open>chips/pit825x/pit.c\<close>), the waveform of each mode, and its ports.
  \<^item> \<^verbatim>\<open>Dma\<close>, \<^verbatim>\<open>Dma_Bus\<close>: the 8237A controller
    (\<^verbatim>\<open>chips/dma8237/dma.c\<close>) and the board's cascade of two with page registers, device
    bindings and memory cycles (\<^verbatim>\<open>board-base/dma_bus.c\<close>).
  \<^item> \<^verbatim>\<open>Uart\<close>, \<^verbatim>\<open>Rtc\<close>, \<^verbatim>\<open>Rtc_Time\<close>, \<^verbatim>\<open>Ppi\<close>:
    the 16550 serial port, the MC146818 clock with calendar, alarm and interrupts, the 8255 port
    (\<^verbatim>\<open>chips/uart16550/\<close>, \<^verbatim>\<open>chips/rtc146818/\<close>,
    \<^verbatim>\<open>chips/ppi8255/\<close>).
  \<^item> \<^verbatim>\<open>Fpu\<close>, \<^verbatim>\<open>Fpu_Arith\<close>, \<^verbatim>\<open>Fpu_Run\<close>: the numeric coprocessor
    (\<^verbatim>\<open>x86-core/fpu/fpu.c\<close>): its stack, the value of every register, rounding, exceptions.
  \<^item> \<^verbatim>\<open>Clock\<close>, \<^verbatim>\<open>Timeline\<close>, \<^verbatim>\<open>Ports\<close>: rational clock
    domains, the binary heap of scheduled callbacks, the port table with its atomic registration
    (\<^verbatim>\<open>x86-core/machine/clock.c\<close>, \<^verbatim>\<open>timeline.c\<close>,
    \<^verbatim>\<open>port.c\<close>).
  \<^item> \<^verbatim>\<open>Transaction\<close>, \<^verbatim>\<open>Scheduler\<close>, \<^verbatim>\<open>Scheduler_Run\<close>:
    ownership of the bus with its trace (\<^verbatim>\<open>transaction.c\<close>), the scheduler
    (\<^verbatim>\<open>machine_scheduler.c\<close>) over an environment of callbacks, and what it promises.
  \<^item> \<^verbatim>\<open>Board\<close>, \<^verbatim>\<open>Board_Run\<close>, \<^verbatim>\<open>Board_Open\<close>: the
    callbacks the board attaches to the core (\<^verbatim>\<open>board-base/board_advance.c\<close>,
    \<^verbatim>\<open>board_deadline.c\<close>, the refresh, speaker and clock wiring of
    \<^verbatim>\<open>machine_board.c\<close>), built from the chips above, and the proof that they keep what
    the scheduler relies on.
  \<^item> \<^verbatim>\<open>Memory\<close>, \<^verbatim>\<open>Memory_Access\<close>, \<^verbatim>\<open>Memory_Route\<close>,
    \<^verbatim>\<open>Memory_Run\<close>, \<^verbatim>\<open>Board_Memory\<close>: guest memory
    (\<^verbatim>\<open>x86-core/machine/memory.c\<close>, \<^verbatim>\<open>memory_interface.c\<close>): address lines,
    alias windows, device providers in tiers, parity and the configuration of all of them; what a RAM
    access does byte by byte, the order of claims on an address, the memories the interface can
    produce; and the board whose DMA bus works on that memory.

  \<^bold>\<open>Interfaces.\<close> Five locales state what one part may rely on. \<open>tick_component\<close> is above.
  \<open>event_queue\<close> is what dispatching needs of a priority queue, interpreted on the heap of
  \<^verbatim>\<open>timeline.c\<close>. \<open>scheduler_client\<close> is the contract of the board's callbacks: they
  pass no guest time, give the bus back as it was lent to them, and schedule no event in the past; every
  theorem on the scheduler holds under it. \<open>board_parts\<close> is the contract of what the board itself
  composes; a \<^verbatim>\<open>sublocale\<close> proves that a board with such parts is a client of the scheduler,
  and an interpretation on a board with open-bus memory discharges it, so that scheduler, board, DMA
  bus, interrupt controllers, timers and clock run together in the witnesses. \<open>coherent_memory\<close> is what
  a bus master needs of a memory; the DMA memory cycle is its client and the RAM its provider, and a
  second interpretation of \<open>board_parts\<close> puts that RAM behind the board.

  \<^bold>\<open>The lemmas.\<close> Every component has an invariant with its preservation by each operation,
  mostly by rule induction over an inductive set of reachable states; a functional description of its
  operations, errors included; and, where it announces deadlines, the exactness of these: nothing
  visible happens before the announced tick, and what happens at it is stated (for a counter of the
  timer by \<open>counter_next_out\<close>: an edge, or the clock that carries a pending request out). The
  composition carries them
  up: the board's deadline covers its chips, the scheduler's passes never cross a deadline, and
  publishing elapsed ticks always returns with guest time advanced by exactly that much.

  \<^bold>\<open>Loops and bounds.\<close> Loops over a fixed range are folds or \<open>primrec\<close>. Three loops need
  not end by their shape and are \<open>partial_function (option)\<close>: \<open>uart_advance_loop\<close> and
  \<open>scheduler_loop\<close>, both proved to return on every reachable state, and the normalisation
  \<open>fpu_normalise_up\<close>, proved to return for every nonzero significand. A memory access calls itself for the
  single bytes of a split access, which never split again: the model unfolds that one level. Dispatching
  the timeline uses the budget of events that is in the source. The alarm search of the clock runs over the 90000 seconds
  that its source bounds it by, a day and an hour.

  \<^bold>\<open>Conventions.\<close> Calls to the outside are values: a chip that calls its output keeps a log of
  the levels, the bus a log of its trace, and the board delivers the logged calls after the advance that
  made them, in their order. Device providers of DMA and memory, the profile of the board, disk
  controllers, keyboard and video are arguments. Allocation always succeeds unless a parameter says
  otherwise; releasing memory and the records written to the diagnostic trace are left out, as is
  atomicity: all of the modelled code runs on one thread under the machine's lock.

  \<^bold>\<open>Not modelled.\<close> The processor's instructions and their timing tables
  (\<^verbatim>\<open>x86-core/cpu/\<close>, 27 thousand lines), keyboard, mouse, video and disk
  controllers, the construction of a machine from its plan, products, host services, the debugger with
  its assemblers, and the two other machines of the repository (\<^verbatim>\<open>app-mynes\<close>,
  \<^verbatim>\<open>app-myraidenii\<close>), which share no code with the board.
\<close>

end
